(* ===== verification/Prelude.thy ===== *)
theory Prelude
  imports Complex_Main "HOL-Library.AList" "HOL-Library.List_Lexorder" "HOL-Library.Char_ord"
begin

text \<open>
  What every component of the model shares: the collections of facts, the exceptions of the
  program as one datatype, the Python text operations the source calls, and Python
  dictionaries as association lists in insertion order.

  Text is \<open>string\<close>, one \<open>char\<close> per code point. The operations whose Python definition
  reads the Unicode tables (\<open>casefold\<close>, \<open>strip\<close>, \<open>isprintable\<close>, \<open>isdecimal\<close>) are
  exact for ASCII text; a \<open>char\<close> from 128 on has no case, is no space and is not printable.
\<close>

named_theorems text_simps "facts about the Python text operations"
named_theorems dict_simps "facts about dictionaries kept as association lists"
named_theorems codec_simps "unfolding rules of the JSON encoders and decoders"

section \<open>Exceptions\<close>

text \<open>
  One constructor per exception class the modelled code raises. A message keeps the
  text of the source without interpolated paths; a \<open>LocalizedError\<close> keeps its template
  and its parameters, as the class does.
\<close>

datatype py_error =
    ValueError string
  | TypeError string
  | KeyError string
  | AttributeError string
  | OSError string
  | LocalizedError string "(string \<times> string) list"
  | EnrollmentError string
  | WebStoreError string
  | LinkError string string
  | LinkCodeEntryClosed
  | AuthError nat string
  | RuntimeControlError string string

text \<open>The classes of the source that derive from \<open>ValueError\<close>.\<close>

fun is_value_error :: "py_error \<Rightarrow> bool" where
  "is_value_error (ValueError _) = True"
| "is_value_error (LocalizedError _ _) = True"
| "is_value_error (EnrollmentError _) = True"
| "is_value_error (WebStoreError _) = True"
| "is_value_error LinkCodeEntryClosed = True"
| "is_value_error _ = False"

fun is_type_error :: "py_error \<Rightarrow> bool" where
  "is_type_error (TypeError _) = True"
| "is_type_error _ = False"

fun is_os_error :: "py_error \<Rightarrow> bool" where
  "is_os_error (OSError _) = True"
| "is_os_error _ = False"

text \<open>Sequencing of computations that may raise.\<close>

fun ebind :: "'e + 'a \<Rightarrow> ('a \<Rightarrow> 'e + 'b) \<Rightarrow> 'e + 'b" where
  "ebind (Inl e) f = Inl e"
| "ebind (Inr x) f = f x"

lemma ebind_Inr [simp]: "ebind m f = Inr y \<longleftrightarrow> (\<exists>x. m = Inr x \<and> f x = Inr y)"
  by (cases m) auto

lemma ebind_cong [fundef_cong]:
  "m = m' \<Longrightarrow> (\<And>x. m' = Inr x \<Longrightarrow> f x = f' x) \<Longrightarrow> ebind m f = ebind m' f'"
  by (cases m') auto

fun emap :: "('a \<Rightarrow> 'e + 'b) \<Rightarrow> 'a list \<Rightarrow> 'e + 'b list" where
  "emap f [] = Inr []"
| "emap f (x # xs) = ebind (f x) (\<lambda>y. ebind (emap f xs) (\<lambda>ys. Inr (y # ys)))"

lemma emap_cong [fundef_cong]:
  "xs = ys \<Longrightarrow> (\<And>x. x \<in> set ys \<Longrightarrow> f x = g x) \<Longrightarrow> emap f xs = emap g ys"
  by (induction xs arbitrary: ys) auto

lemma emap_map: "emap f (map g xs) = emap (\<lambda>x. f (g x)) xs"
  by (induction xs) auto

lemma emap_id: "(\<And>x. x \<in> set xs \<Longrightarrow> f x = Inr x) \<Longrightarrow> emap f xs = Inr xs"
  by (induction xs) auto

lemma emap_inverse:
  "(\<And>x. x \<in> set xs \<Longrightarrow> f (g x) = Inr x) \<Longrightarrow> emap f (map g xs) = Inr xs"
  by (induction xs) auto

lemma emap_length: "emap f xs = Inr ys \<Longrightarrow> length ys = length xs"
  by (induction xs arbitrary: ys) auto

lemma emap_InrD: "emap f xs = Inr ys \<Longrightarrow> y \<in> set ys \<Longrightarrow> \<exists>x \<in> set xs. f x = Inr y"
proof (induction xs arbitrary: ys)
  case (Cons x xs)
  then obtain z zs where "f x = Inr z" "emap f xs = Inr zs" "ys = z # zs" by auto
  with Cons show ?case by auto
qed simp

section \<open>Characters and text\<close>

definition code :: "char \<Rightarrow> nat" where
  "code c = of_char c"

definition ascii_upper :: "char \<Rightarrow> bool" where
  "ascii_upper c \<longleftrightarrow> 65 \<le> code c \<and> code c \<le> 90"

definition lower_char :: "char \<Rightarrow> char" where
  "lower_char c = (if ascii_upper c then char_of (code c + 32) else c)"

definition casefold :: "string \<Rightarrow> string" where
  "casefold s = map lower_char s"

definition is_space :: "char \<Rightarrow> bool" where
  "is_space c \<longleftrightarrow> (9 \<le> code c \<and> code c \<le> 13) \<or> (28 \<le> code c \<and> code c \<le> 32)"

definition is_digit :: "char \<Rightarrow> bool" where
  "is_digit c \<longleftrightarrow> 48 \<le> code c \<and> code c \<le> 57"

definition is_printable_char :: "char \<Rightarrow> bool" where
  "is_printable_char c \<longleftrightarrow> 32 \<le> code c \<and> code c \<le> 126"

definition isprintable :: "string \<Rightarrow> bool" where
  "isprintable s \<longleftrightarrow> list_all is_printable_char s"

definition isdecimal :: "string \<Rightarrow> bool" where
  "isdecimal s \<longleftrightarrow> s \<noteq> [] \<and> list_all is_digit s"

definition lstrip_by :: "(char \<Rightarrow> bool) \<Rightarrow> string \<Rightarrow> string" where
  "lstrip_by p s = dropWhile p s"

definition strip_by :: "(char \<Rightarrow> bool) \<Rightarrow> string \<Rightarrow> string" where
  "strip_by p s = rev (dropWhile p (rev (dropWhile p s)))"

definition strip :: "string \<Rightarrow> string" where
  "strip s = strip_by is_space s"

definition starts_with :: "string \<Rightarrow> string \<Rightarrow> bool" where
  "starts_with p s \<longleftrightarrow> take (length p) s = p"

text \<open>\<open>s.replace(p, '')\<close> for a non-empty \<open>p\<close>: scan from the left, drop each occurrence.\<close>

fun remove_all :: "string \<Rightarrow> string \<Rightarrow> string" where
  "remove_all p [] = []"
| "remove_all p (c # s) =
     (if p \<noteq> [] \<and> starts_with p (c # s) then remove_all p (drop (length p - 1) s)
      else c # remove_all p s)"

text \<open>\<open>str(n)\<close> for integers.\<close>

fun show_nat :: "nat \<Rightarrow> string" where
  "show_nat n = (if n < 10 then [char_of (48 + n)] else show_nat (n div 10) @ [char_of (48 + n mod 10)])"

declare show_nat.simps [simp del]

definition show_int :: "int \<Rightarrow> string" where
  "show_int i = (if i < 0 then CHR ''-'' # show_nat (nat (- i)) else show_nat (nat i))"

lemma lower_char_idem [simp]: "lower_char (lower_char c) = lower_char c"
  by (cases "ascii_upper c") (auto simp: lower_char_def ascii_upper_def code_def)

lemma casefold_idem [text_simps, simp]: "casefold (casefold s) = casefold s"
  by (simp add: casefold_def comp_def)

lemma casefold_Nil [simp]: "casefold s = [] \<longleftrightarrow> s = []"
  by (simp add: casefold_def)

lemma length_casefold [simp]: "length (casefold s) = length s"
  by (simp add: casefold_def)

lemma strip_by_split: "\<exists>v. dropWhile p s = strip_by p s @ v \<and> (strip_by p s \<noteq> [] \<longrightarrow> \<not> p (last (strip_by p s)))"
proof (intro exI conjI impI)
  let ?t = "dropWhile p s"
  have "rev ?t = takeWhile p (rev ?t) @ dropWhile p (rev ?t)" by simp
  then show "?t = strip_by p s @ rev (takeWhile p (rev ?t))"
    unfolding strip_by_def by (metis rev_append rev_rev_ident)
  assume "strip_by p s \<noteq> []"
  then have "dropWhile p (rev ?t) \<noteq> []" by (simp add: strip_by_def)
  from hd_dropWhile [OF this] this show "\<not> p (last (strip_by p s))"
    by (simp add: strip_by_def last_rev)
qed

lemma strip_by_ends:
  assumes "strip_by p s \<noteq> []"
  shows "\<not> p (hd (strip_by p s))" and "\<not> p (last (strip_by p s))"
proof -
  obtain v where v: "dropWhile p s = strip_by p s @ v" "\<not> p (last (strip_by p s))"
    using strip_by_split [of p s] assms by auto
  show "\<not> p (last (strip_by p s))" by (rule v(2))
  from v(1) assms have "dropWhile p s \<noteq> []" "hd (dropWhile p s) = hd (strip_by p s)" by auto
  with hd_dropWhile [of p s] show "\<not> p (hd (strip_by p s))" by simp
qed

lemma strip_by_id:
  assumes "s \<noteq> [] \<Longrightarrow> \<not> p (hd s) \<and> \<not> p (last s)"
  shows "strip_by p s = s"
proof (cases "s = []")
  case False
  have "dropWhile p s = s" using assms [OF False] False by (cases s) auto
  moreover have "dropWhile p (rev s) = rev s"
    using assms [OF False] False by (cases s rule: rev_cases) auto
  ultimately show ?thesis by (simp add: strip_by_def)
qed (simp add: strip_by_def)

lemma strip_by_idem [simp]: "strip_by p (strip_by p s) = strip_by p s"
  by (rule strip_by_id) (simp add: strip_by_ends)

lemma strip_idem [text_simps, simp]: "strip (strip s) = strip s"
  by (simp add: strip_def)

lemma set_strip_by: "set (strip_by p s) \<subseteq> set s"
proof -
  have "set (rev (dropWhile p (rev t))) \<subseteq> set t" for t by (auto dest: set_dropWhileD)
  then show ?thesis using set_dropWhileD [of _ p s] by (fastforce simp: strip_by_def)
qed

lemma isprintable_strip: "isprintable s \<Longrightarrow> isprintable (strip s)"
  using set_strip_by [of is_space s] by (auto simp: isprintable_def strip_def list_all_iff)

lemma is_space_lower [simp]: "is_space (lower_char c) = is_space c"
  by (auto simp: is_space_def lower_char_def ascii_upper_def code_def)

lemma printable_lower [simp]: "is_printable_char (lower_char c) = is_printable_char c"
  by (auto simp: is_printable_char_def lower_char_def ascii_upper_def code_def)

lemma strip_casefold [text_simps, simp]: "strip (casefold s) = casefold (strip s)"
  by (simp add: strip_def strip_by_def casefold_def dropWhile_map rev_map comp_def)

lemma isprintable_casefold [text_simps, simp]: "isprintable (casefold s) = isprintable s"
  by (simp add: isprintable_def casefold_def list_all_iff)

lemma remove_all_id: "p \<noteq> [] \<Longrightarrow> hd p \<notin> set s \<Longrightarrow> remove_all p s = s"
  by (induction s) (auto simp: starts_with_def neq_Nil_conv)

section \<open>Dictionaries\<close>

text \<open>
  A Python dictionary is an association list with distinct keys, in insertion order.
  \<open>AList.update\<close> keeps the place of a key that is there and appends one that is not, as
  \<open>d[k] = v\<close> does; \<open>AList.delete\<close> is \<open>d.pop(k, None)\<close>; \<open>dict_sorted\<close> is
  \<open>dict(sorted(d.items()))\<close>.
\<close>

type_synonym ('k, 'v) dict = "('k \<times> 'v) list"

abbreviation keys :: "('k, 'v) dict \<Rightarrow> 'k list" where
  "keys d \<equiv> map fst d"

abbreviation dict_set :: "'k \<Rightarrow> 'v \<Rightarrow> ('k, 'v) dict \<Rightarrow> ('k, 'v) dict" where
  "dict_set \<equiv> AList.update"

abbreviation dict_pop :: "'k \<Rightarrow> ('k, 'v) dict \<Rightarrow> ('k, 'v) dict" where
  "dict_pop \<equiv> AList.delete"

definition dict_get :: "('k, 'v) dict \<Rightarrow> 'k \<Rightarrow> 'v \<Rightarrow> 'v" where
  "dict_get d k dflt = (case map_of d k of None \<Rightarrow> dflt | Some v \<Rightarrow> v)"

definition dict_sorted :: "('k::linorder, 'v) dict \<Rightarrow> ('k, 'v) dict" where
  "dict_sorted d = sort_key fst d"

lemma map_of_dict_set [dict_simps, simp]: "map_of (dict_set k v d) = (map_of d)(k \<mapsto> v)"
  by (rule update_conv')

lemma map_of_dict_pop [dict_simps, simp]: "map_of (dict_pop k d) = (map_of d)(k := None)"
  by (rule delete_conv')

lemma distinct_dict_set [dict_simps, intro]: "distinct (keys d) \<Longrightarrow> distinct (keys (dict_set k v d))"
  by (rule distinct_update)

lemma distinct_dict_pop [dict_simps, intro]: "distinct (keys d) \<Longrightarrow> distinct (keys (dict_pop k d))"
  by (rule distinct_delete)

lemma set_dict_set: "distinct (keys d) \<Longrightarrow>
    set (dict_set k v d) = {(k', v') \<in> set d. k' \<noteq> k} \<union> {(k, v)}"
  by (induction d) (auto, force+)

lemma set_dict_set_subset: "set (dict_set k v d) \<subseteq> insert (k, v) (set d)"
  by (induction d) auto

lemma set_dict_pop_subset: "set (dict_pop k d) \<subseteq> set d"
  by (auto simp: AList.delete_eq)

lemma set_dict_sorted [dict_simps, simp]: "set (dict_sorted d) = set d"
  by (simp add: dict_sorted_def)

lemma distinct_dict_sorted [dict_simps, simp]: "distinct (keys (dict_sorted d)) = distinct (keys d)"
  by (simp add: dict_sorted_def distinct_map)

lemma dict_sorted_idem [dict_simps, simp]: "dict_sorted (dict_sorted d) = dict_sorted d"
  by (simp add: dict_sorted_def sort_key_id_if_sorted)

lemma map_of_dict_sorted [dict_simps, simp]:
  "distinct (keys d) \<Longrightarrow> map_of (dict_sorted d) = map_of d"
  by (subst map_of_inject_set) (auto simp: dict_sorted_def distinct_map)

lemma dict_sorted_Nil [simp]: "dict_sorted [] = []"
  by (simp add: dict_sorted_def)

lemma length_dict_sorted [simp]: "length (dict_sorted d) = length d"
  by (simp add: dict_sorted_def)

text \<open>Building a dictionary entry by entry; distinct keys come out in the order they came in.\<close>

lemma length_dict_set: "length (dict_set k v d) \<le> Suc (length d)"
  by (induction d) auto

lemma dict_set_fresh: "k \<notin> set (keys d) \<Longrightarrow> dict_set k v d = d @ [(k, v)]"
  by (induction d) auto

lemma fold_dict_set:
  "distinct (keys d @ keys xs) \<Longrightarrow> fold (\<lambda>(k, v). dict_set k v) xs d = d @ xs"
proof (induction xs arbitrary: d)
  case (Cons x xs)
  then show ?case by (cases x) (simp add: dict_set_fresh)
qed simp

text \<open>Entry-wise invariants of a dictionary.\<close>

definition dict_all :: "('k \<times> 'v \<Rightarrow> bool) \<Rightarrow> ('k, 'v) dict \<Rightarrow> bool" where
  "dict_all P d \<longleftrightarrow> distinct (keys d) \<and> list_all P d"

lemma dict_all_Nil [simp]: "dict_all P []"
  by (simp add: dict_all_def)

lemma dict_all_set [intro]: "dict_all P d \<Longrightarrow> P (k, v) \<Longrightarrow> dict_all P (dict_set k v d)"
  using set_dict_set_subset [of k v d] by (auto simp: dict_all_def list_all_iff distinct_dict_set)

lemma dict_all_pop [intro]: "dict_all P d \<Longrightarrow> dict_all P (dict_pop k d)"
  using set_dict_pop_subset [of k d] by (auto simp: dict_all_def list_all_iff distinct_dict_pop)

lemma dict_all_fold_set: "dict_all P d \<Longrightarrow> \<forall>e \<in> set es. P e \<Longrightarrow> dict_all P (fold (\<lambda>(k, v). dict_set k v) es d)"
  by (induction es arbitrary: d) (auto simp: dict_all_set)

lemma dict_all_fold_pop: "dict_all P d \<Longrightarrow> dict_all P (fold (\<lambda>k. dict_pop (f k)) ks d)"
  by (induction ks arbitrary: d) (auto simp: dict_all_pop)

lemma dict_all_sorted [simp]: "dict_all P (dict_sorted d) = dict_all P d"
  by (simp add: dict_all_def list_all_iff)

lemma dict_allD: "dict_all P d \<Longrightarrow> map_of d k = Some v \<Longrightarrow> P (k, v)"
  by (auto simp: dict_all_def list_all_iff dest: map_of_SomeD)

lemma dict_all_distinct: "dict_all P d \<Longrightarrow> distinct (keys d)"
  by (simp add: dict_all_def)

lemma dict_all_entry: "dict_all P d \<Longrightarrow> e \<in> set d \<Longrightarrow> P e"
  by (simp add: dict_all_def list_all_iff)

text \<open>\<open>next((x for x in xs if p x), None)\<close> is \<open>find p xs\<close>.\<close>

lemma find_SomeD: "find p xs = Some x \<Longrightarrow> x \<in> set xs \<and> p x"
  by (induction xs) (auto split: if_splits)

text \<open>A case-insensitive set of names: \<open>{name.casefold() for name in names}\<close>.\<close>

definition folded :: "string list \<Rightarrow> string set" where
  "folded names = set (map casefold names)"

lemma folded_simps [simp]:
  "folded [] = {}" "folded (x # xs) = insert (casefold x) (folded xs)"
  "folded (xs @ ys) = folded xs \<union> folded ys"
  by (auto simp: folded_def)

lemma folded_filter_neq:
  "folded (filter (\<lambda>x. casefold x \<noteq> k) xs) = folded xs - {k}"
  by (auto simp: folded_def)

end
