(* ===== verification/Uuid.thy ===== *)
theory Uuid
  imports Prelude
begin

text \<open>
  \<open>uuid.UUID(text)\<close> and \<open>str(UUID)\<close>, the normalisation every stored identity passes through.
  \<open>UUID\<close> drops \<open>urn:\<close> and \<open>uuid:\<close>, outer braces and dashes, wants 32 characters and reads
  them with \<open>int(text, 16)\<close>, which takes a sign, a \<open>0x\<close> prefix, outer blanks and single
  underscores between digits. The main facts: the printed form parses back, and normalising
  twice is normalising once.
\<close>

definition hex_value :: "char \<Rightarrow> nat option" where
  "hex_value c = (let n = code c in
     if 48 \<le> n \<and> n \<le> 57 then Some (n - 48)
     else if 97 \<le> n \<and> n \<le> 102 then Some (n - 87)
     else if 65 \<le> n \<and> n \<le> 70 then Some (n - 55)
     else None)"

definition hex_char :: "nat \<Rightarrow> char" where
  "hex_char d = (if d < 10 then char_of (48 + d) else char_of (87 + d))"

text \<open>Digits with single underscores between them; \<open>prev\<close>: an underscore may stand here.\<close>

fun hex_digits :: "bool \<Rightarrow> nat \<Rightarrow> string \<Rightarrow> nat option" where
  "hex_digits prev acc [] = (if prev then Some acc else None)"
| "hex_digits prev acc (c # s) =
     (if c = CHR ''_'' then (if prev then hex_digits False acc s else None)
      else (case hex_value c of None \<Rightarrow> None | Some d \<Rightarrow> hex_digits True (16 * acc + d) s))"

definition hex_body :: "string \<Rightarrow> nat option" where
  "hex_body s =
     (if starts_with ''0x'' s \<or> starts_with ''0X'' s
      then (if starts_with ''_'' (drop 2 s) then hex_digits False 0 (drop 3 s) else hex_digits False 0 (drop 2 s))
      else hex_digits False 0 s)"

definition int16 :: "string \<Rightarrow> int option" where
  "int16 t = (let s = strip t in
     if starts_with ''-'' s then map_option (\<lambda>n. - int n) (hex_body (drop 1 s))
     else if starts_with ''+'' s then map_option int (hex_body (drop 1 s))
     else map_option int (hex_body s))"

definition uuid_text :: "string \<Rightarrow> string" where
  "uuid_text s = filter (\<lambda>c. c \<noteq> CHR ''-'')
     (strip_by (\<lambda>c. c = CHR ''{'' \<or> c = CHR ''}'') (remove_all ''uuid:'' (remove_all ''urn:'' s)))"

definition uuid_parse :: "string \<Rightarrow> py_error + nat" where
  "uuid_parse s = (let h = uuid_text s in
     if length h \<noteq> 32 then Inl (ValueError ''badly formed hexadecimal UUID string'')
     else (case int16 h of
       None \<Rightarrow> Inl (ValueError ''invalid literal for int() with base 16'')
     | Some i \<Rightarrow> if 0 \<le> i \<and> i < 2 ^ 128 then Inr (nat i)
                else Inl (ValueError ''int is out of range (need a 128-bit value)'')))"

definition hex32 :: "nat \<Rightarrow> string" where
  "hex32 n = map (\<lambda>i. hex_char (n div 16 ^ i mod 16)) (rev [0..<32])"

definition dashed :: "string \<Rightarrow> string" where
  "dashed h = take 8 h @ ''-'' @ take 4 (drop 8 h) @ ''-'' @ take 4 (drop 12 h) @ ''-'' @
     take 4 (drop 16 h) @ ''-'' @ drop 20 h"

definition uuid_str :: "nat \<Rightarrow> string" where
  "uuid_str n = dashed (hex32 n)"

text \<open>\<open>str(UUID(s))\<close>.\<close>

definition norm_uuid :: "string \<Rightarrow> py_error + string" where
  "norm_uuid s = ebind (uuid_parse s) (\<lambda>n. Inr (uuid_str n))"

definition canonical :: "string \<Rightarrow> bool" where
  "canonical s \<longleftrightarrow> norm_uuid s = Inr s"

section \<open>Round trip\<close>

lemma code_char_of: "n < 256 \<Longrightarrow> code (char_of n) = n"
  by (simp add: code_def)

lemma hex_value_hex_char: "d < 16 \<Longrightarrow> hex_value (hex_char d) = Some d"
  by (auto simp: hex_value_def hex_char_def code_char_of Let_def)

lemma code_hex_char:
  "d < 16 \<Longrightarrow> 48 \<le> code (hex_char d) \<and> code (hex_char d) \<le> 102 \<and>
     code (hex_char d) \<noteq> 95 \<and> \<not> (58 \<le> code (hex_char d) \<and> code (hex_char d) \<le> 96)"
  by (auto simp: hex_char_def code_char_of)

lemma hex_digits_map:
  assumes "\<forall>d \<in> set ds. d < 16"
  shows "hex_digits prev acc (map hex_char ds) =
    (if prev \<or> ds \<noteq> [] then Some (foldl (\<lambda>a d. 16 * a + d) acc ds) else None)"
  using assms
proof (induction ds arbitrary: prev acc)
  case (Cons d ds)
  then have "hex_char d \<noteq> CHR ''_''" using code_hex_char [of d] by (auto simp: code_def)
  with Cons show ?case by (simp add: hex_value_hex_char)
qed simp

lemma foldl_digits:
  fixes n :: nat
  shows "foldl (\<lambda>a d. 16 * a + d) acc (map (\<lambda>i. n div 16 ^ i mod 16) (rev [0..<k])) = acc * 16 ^ k + n mod 16 ^ k"
proof (induction k arbitrary: acc)
  case (Suc k)
  have "n mod 16 ^ Suc k = 16 ^ k * (n div 16 ^ k mod 16) + n mod 16 ^ k"
    using mod_mult2_eq [of n "16 ^ k" 16] by (simp add: mult.commute)
  then have "(16 * acc + n div 16 ^ k mod 16) * 16 ^ k + n mod 16 ^ k = acc * 16 ^ Suc k + n mod 16 ^ Suc k"
    by (simp add: algebra_simps)
  moreover have "foldl (\<lambda>a d. 16 * a + d) acc (map (\<lambda>i. n div 16 ^ i mod 16) (rev [0..<Suc k])) =
      (16 * acc + n div 16 ^ k mod 16) * 16 ^ k + n mod 16 ^ k"
    by (simp add: Suc)
  ultimately show ?case by (rule trans [rotated])
qed simp

definition hex_letters :: "string \<Rightarrow> bool" where
  "hex_letters s \<longleftrightarrow> (\<forall>c \<in> set s. \<exists>d < 16. c = hex_char d)"

lemma hex_letters_hex32: "hex_letters (hex32 n)"
proof -
  have "\<exists>d < 16. hex_char (n div 16 ^ i mod 16) = hex_char d" for i
    by (rule exI [of _ "n div 16 ^ i mod 16"]) simp
  then show ?thesis by (auto simp: hex_letters_def hex32_def)
qed

lemma length_hex32 [simp]: "length (hex32 n) = 32"
  by (simp add: hex32_def)

lemma hex_letter_code:
  assumes "hex_letters s" "c \<in> set s"
  shows "48 \<le> code c" "code c \<le> 102" "\<not> (58 \<le> code c \<and> code c \<le> 96)"
  using assms code_hex_char by (auto simp: hex_letters_def)

lemma hex_body_letters:
  assumes "hex_letters s" shows "hex_body s = hex_digits False 0 s"
proof -
  have x: "CHR ''x'' \<notin> set s" and X: "CHR ''X'' \<notin> set s"
    using hex_letter_code [OF assms, of "CHR ''x''"] hex_letter_code [OF assms, of "CHR ''X''"]
    by (auto simp: code_def)
  have "\<not> starts_with [CHR ''0'', c] s" if "c \<notin> set s" for c
    using that by (auto simp: starts_with_def dest!: arg_cong [where f = set] dest: in_set_takeD)
  with x X show ?thesis by (simp add: hex_body_def)
qed

lemma int16_letters:
  assumes "hex_letters s" "s \<noteq> []"
  shows "int16 s = map_option int (hex_digits False 0 s)"
proof -
  have "strip s = s" unfolding strip_def
  proof (rule strip_by_id)
    have "\<not> is_space c" if "c \<in> set s" for c
      using hex_letter_code(1) [OF assms(1) that] by (simp add: is_space_def)
    then show "\<not> is_space (hd s) \<and> \<not> is_space (last s)" using assms(2) by simp
  qed
  moreover have "hd s \<noteq> CHR ''-'' \<and> hd s \<noteq> CHR ''+''"
    using hex_letter_code [OF assms(1), of "hd s"] assms(2) by (auto simp: code_def)
  ultimately show ?thesis using assms
    by (cases s) (auto simp: int16_def starts_with_def hex_body_letters)
qed

lemma uuid_str_letters:
  assumes "c \<in> set (uuid_str n)"
  shows "c = CHR ''-'' \<or> (48 \<le> code c \<and> code c \<le> 102 \<and> \<not> (58 \<le> code c \<and> code c \<le> 96))"
proof -
  have "c = CHR ''-'' \<or> c \<in> set (hex32 n)"
    using assms by (auto simp: uuid_str_def dashed_def dest: in_set_takeD in_set_dropD)
  then show ?thesis using hex_letter_code [OF hex_letters_hex32] by blast
qed

lemma filter_dash: "hex_letters s \<Longrightarrow> filter (\<lambda>c. c \<noteq> CHR ''-'') s = s"
proof (rule filter_True, rule ballI)
  fix c assume "hex_letters s" "c \<in> set s"
  then have "48 \<le> code c" by (rule hex_letter_code)
  then show "c \<noteq> CHR ''-''" by (auto simp: code_def)
qed

lemma hex_letters_take: "hex_letters s \<Longrightarrow> hex_letters (take k s)"
  and hex_letters_drop: "hex_letters s \<Longrightarrow> hex_letters (drop k s)"
  by (auto simp: hex_letters_def dest: in_set_takeD in_set_dropD)

lemma undash: "filter (\<lambda>c. c \<noteq> CHR ''-'') (uuid_str n) = hex32 n"
proof -
  let ?h = "hex32 n"
  have d: "drop i ?h = take 4 (drop i ?h) @ drop (i + 4) ?h" for i
    by (metis append_take_drop_id drop_drop add.commute)
  have "?h = take 8 ?h @ take 4 (drop 8 ?h) @ take 4 (drop 12 ?h) @ take 4 (drop 16 ?h) @ drop 20 ?h"
    using append_take_drop_id [of 8 ?h] d [of 8] d [of 12] d [of 16] by simp
  moreover have "filter (\<lambda>c. c \<noteq> CHR ''-'') (uuid_str n) =
      take 8 ?h @ take 4 (drop 8 ?h) @ take 4 (drop 12 ?h) @ take 4 (drop 16 ?h) @ drop 20 ?h"
    by (simp add: uuid_str_def dashed_def filter_dash hex_letters_take hex_letters_drop hex_letters_hex32)
  ultimately show ?thesis by simp
qed

lemma uuid_text_str: "uuid_text (uuid_str n) = hex32 n"
proof -
  have u: "CHR ''u'' \<notin> set (uuid_str n)" using uuid_str_letters [of "CHR ''u''" n] by (auto simp: code_def)
  have b: "CHR ''{'' \<notin> set (uuid_str n)" "CHR ''}'' \<notin> set (uuid_str n)"
    using uuid_str_letters [of "CHR ''{''" n] uuid_str_letters [of "CHR ''}''" n] by (auto simp: code_def)
  have "remove_all ''uuid:'' (remove_all ''urn:'' (uuid_str n)) = uuid_str n"
    by (simp add: remove_all_id u)
  moreover have "strip_by (\<lambda>c. c = CHR ''{'' \<or> c = CHR ''}'') (uuid_str n) = uuid_str n"
  proof (rule strip_by_id)
    assume "uuid_str n \<noteq> []"
    then have "hd (uuid_str n) \<in> set (uuid_str n)" "last (uuid_str n) \<in> set (uuid_str n)" by auto
    with b show "\<not> (hd (uuid_str n) = CHR ''{'' \<or> hd (uuid_str n) = CHR ''}'') \<and>
      \<not> (last (uuid_str n) = CHR ''{'' \<or> last (uuid_str n) = CHR ''}'')" by metis
  qed
  ultimately show ?thesis by (simp add: uuid_text_def undash)
qed

theorem uuid_parse_str:
  assumes "n < 2 ^ 128" shows "uuid_parse (uuid_str n) = Inr n"
proof -
  let ?ds = "map (\<lambda>i. n div 16 ^ i mod 16) (rev [0..<32::nat])"
  have "hex32 n = map hex_char ?ds" by (simp only: hex32_def map_map comp_def)
  moreover have "hex_digits False 0 (map hex_char ?ds) = Some (n mod 16 ^ 32)"
    by (subst hex_digits_map) (use foldl_digits [of 0 n 32] in auto)
  moreover have "n mod 16 ^ 32 = n" using assms by simp
  ultimately have "int16 (hex32 n) = Some (int n)"
    using int16_letters [OF hex_letters_hex32, of n] length_hex32 [of n] by fastforce
  moreover have "int n < 2 ^ 128" using assms by (metis of_nat_less_iff of_nat_numeral of_nat_power)
  ultimately show ?thesis by (simp add: uuid_parse_def uuid_text_str)
qed

lemma uuid_parse_bound: "uuid_parse s = Inr n \<Longrightarrow> n < 2 ^ 128"
  by (auto simp: uuid_parse_def Let_def nat_less_iff split: if_splits option.splits)

theorem norm_uuid_idem: "norm_uuid s = Inr t \<Longrightarrow> norm_uuid t = Inr t"
  by (auto simp: norm_uuid_def uuid_parse_str dest: uuid_parse_bound)

lemma canonical_norm: "norm_uuid s = Inr t \<Longrightarrow> canonical t"
  by (simp add: canonical_def norm_uuid_idem)

lemma canonicalD [simp]: "canonical s \<Longrightarrow> norm_uuid s = Inr s"
  by (simp add: canonical_def)

section \<open>Recognising the printed form\<close>

definition is_lower_hex :: "char \<Rightarrow> bool" where
  "is_lower_hex c \<longleftrightarrow> is_digit c \<or> (97 \<le> code c \<and> code c \<le> 102)"

definition looks_canonical :: "string \<Rightarrow> bool" where
  "looks_canonical s = (let h = filter (\<lambda>c. c \<noteq> CHR ''-'') s in
     length h = 32 \<and> list_all is_lower_hex h \<and> dashed h = s)"

lemma char_of_code [simp]: "char_of (code c) = c"
  by (simp add: code_def)

lemma hex_char_hex_value: "is_lower_hex c \<Longrightarrow> \<exists>d < 16. hex_value c = Some d \<and> hex_char d = c"
  by (auto simp: is_lower_hex_def is_digit_def hex_value_def hex_char_def Let_def)

lemma digits_foldl:
  fixes ds :: "nat list"
  assumes "\<forall>d \<in> set ds. d < 16"
  shows "map (\<lambda>i. foldl (\<lambda>a d. 16 * a + d) 0 ds div 16 ^ i mod 16) (rev [0..<length ds]) = ds"
  using assms
proof (induction ds rule: rev_induct)
  case (snoc d ds)
  let ?n = "foldl (\<lambda>a d. 16 * a + d) 0 ds"
  have "(16 * ?n + d) div 16 ^ Suc i = ?n div 16 ^ i" for i
  proof -
    have "(16 * ?n + d) div 16 = ?n" using snoc.prems by simp
    then show ?thesis by (simp add: div_mult2_eq)
  qed
  moreover have "(16 * ?n + d) mod 16 = d" using snoc.prems by simp
  moreover have "rev [0..<Suc (length ds)] = map Suc (rev [0..<length ds]) @ [0]"
    by (simp add: rev_map [symmetric] map_Suc_upt upt_conv_Cons del: upt_Suc)
  ultimately show ?case using snoc by (simp add: comp_def del: upt_Suc)
qed simp

lemma looks_canonical: "looks_canonical s \<Longrightarrow> canonical s"
proof -
  assume a: "looks_canonical s"
  define h where "h = filter (\<lambda>c. c \<noteq> CHR ''-'') s"
  have h: "length h = 32" "list_all is_lower_hex h" "dashed h = s"
    using a by (simp_all add: looks_canonical_def h_def Let_def)
  define ds where "ds = map (\<lambda>c. the (hex_value c)) h"
  define n where "n = foldl (\<lambda>a d. 16 * a + d) 0 ds"
  have ds: "\<forall>d \<in> set ds. d < 16" and hd: "map hex_char ds = h"
    using h(2) by (auto simp: ds_def list_all_iff comp_def intro!: map_idI dest!: hex_char_hex_value)
  have digits: "map (\<lambda>i. n div 16 ^ i mod 16) (rev [0..<32]) = ds"
    using digits_foldl [OF ds] h(1) by (simp add: n_def ds_def)
  have "hex32 n = map hex_char (map (\<lambda>i. n div 16 ^ i mod 16) (rev [0..<32]))"
    by (simp only: hex32_def map_map comp_def)
  then have "hex32 n = h" unfolding digits hd .
  moreover have "n = n mod 16 ^ 32"
    using foldl_digits [of 0 n 32] unfolding digits n_def [symmetric] by simp
  then have "n < 16 ^ 32" by (metis mod_less_divisor zero_less_power zero_less_numeral)
  then have "n < 2 ^ 128" by simp
  ultimately have "uuid_str n = s" "n < 2 ^ 128" using h(3) by (simp_all add: uuid_str_def)
  then show ?thesis using uuid_parse_str by (auto simp: canonical_def norm_uuid_def)
qed

text \<open>Evaluation takes the short way for text in the printed form.\<close>

lemma norm_uuid_code [code]:
  "norm_uuid s = (if looks_canonical s then Inr s else ebind (uuid_parse s) (\<lambda>n. Inr (uuid_str n)))"
  by (simp add: looks_canonical [THEN canonicalD] norm_uuid_def [symmetric])

end
