(* ===== verification/Json_Store.thy ===== *)
theory Json_Store
  imports Uuid
begin

text \<open>
  JSON documents, the file that holds one, and the contracts the stores share.

  A document is a value of \<open>json\<close>; an object is a dictionary in insertion order. A file is
  what the program's path calls see of it: absent, a directory, a regular file whose text is
  a document or no JSON at all, or a symbolic link. \<open>save_doc\<close> is the write every store makes
  (refuse a link, write a temporary file, replace the target in one step): it either leaves
  the file as it was or leaves exactly the new document in it. Whether a write reaches the
  disk is decided by \<open>outcomes\<close>, one value per coming write (none left: the write succeeds),
  so a theorem about every \<open>disk\<close> covers every pattern of failing writes.
\<close>

section \<open>Documents\<close>

datatype number = Finite rat | Infinite bool | Not_a_number

datatype json =
    JNull
  | JBool bool
  | JInt int
  | JFloat number
  | JStr string
  | JArr "json list"
  | JObj "(string, json) dict"

text \<open>\<open>value == n\<close> for an integer \<open>n\<close>: Python compares numbers and booleans by value.\<close>

fun json_eq_int :: "json \<Rightarrow> int \<Rightarrow> bool" where
  "json_eq_int (JInt i) n = (i = n)"
| "json_eq_int (JFloat (Finite r)) n = (r = of_int n)"
| "json_eq_int (JBool b) n = ((if b then 1 else 0) = n)"
| "json_eq_int _ _ = False"

definition version_is :: "int \<Rightarrow> (string, json) dict \<Rightarrow> bool" where
  "version_is n d = (case map_of d ''version'' of None \<Rightarrow> False | Some v \<Rightarrow> json_eq_int v n)"

fun json_is_str :: "json \<Rightarrow> bool" where
  "json_is_str (JStr _) = True"
| "json_is_str _ = False"

fun json_is_str_or_null :: "json \<Rightarrow> bool" where
  "json_is_str_or_null (JStr _) = True"
| "json_is_str_or_null JNull = True"
| "json_is_str_or_null _ = False"

fun json_str_opt :: "json \<Rightarrow> string option" where
  "json_str_opt (JStr s) = Some s"
| "json_str_opt _ = None"

definition str_or_null :: "string option \<Rightarrow> json" where
  "str_or_null x = (case x of None \<Rightarrow> JNull | Some s \<Rightarrow> JStr s)"

lemma json_str_opt_str_or_null [codec_simps, simp]: "json_str_opt (str_or_null x) = x"
  by (simp add: str_or_null_def split: option.split)

lemma json_is_str_or_null_str_or_null [codec_simps, simp]: "json_is_str_or_null (str_or_null x)"
  by (simp add: str_or_null_def split: option.split)

lemma version_is_head [codec_simps, simp]: "version_is n ((''version'', JInt n) # d)"
  by (simp add: version_is_def)

definition only_keys :: "string list \<Rightarrow> (string, json) dict \<Rightarrow> bool" where
  "only_keys ks d = list_all (\<lambda>k. k \<in> set ks) (keys d)"

text \<open>\<open>str(UUID(value))\<close> for a JSON value: only text parses; \<open>None\<close> is a \<open>TypeError\<close>, any other
  type has no \<open>replace\<close>.\<close>

fun json_uuid :: "json \<Rightarrow> py_error + string" where
  "json_uuid (JStr s) = norm_uuid s"
| "json_uuid JNull = Inl (TypeError ''one of the hex, bytes, bytes_le, fields, or int arguments must be given'')"
| "json_uuid _ = Inl (AttributeError ''replace'')"

text \<open>\<open>isinstance\<close> checks in front of a decoder, with the exception they raise.\<close>

fun as_obj :: "py_error \<Rightarrow> json \<Rightarrow> py_error + (string, json) dict" where
  "as_obj e (JObj d) = Inr d"
| "as_obj e _ = Inl e"

fun as_arr :: "py_error \<Rightarrow> json \<Rightarrow> py_error + json list" where
  "as_arr e (JArr js) = Inr js"
| "as_arr e _ = Inl e"

fun as_str :: "py_error \<Rightarrow> json \<Rightarrow> py_error + string" where
  "as_str e (JStr s) = Inr s"
| "as_str e _ = Inl e"

definition check :: "bool \<Rightarrow> py_error \<Rightarrow> py_error + unit" where
  "check c e = (if c then Inr () else Inl e)"

lemma as_InrD [simp]:
  "as_obj e j = Inr d \<longleftrightarrow> j = JObj d" "as_arr e j = Inr js \<longleftrightarrow> j = JArr js" "as_str e j = Inr s \<longleftrightarrow> j = JStr s"
  "check c e = Inr u \<longleftrightarrow> c"
  by (cases j; auto simp: check_def)+

lemma check_True [simp]: "check True e = Inr ()"
  by (simp add: check_def)

section \<open>Files\<close>

datatype node = Absent | Directory | Plain "json option" | Link node

fun follow :: "node \<Rightarrow> node" where
  "follow (Link n) = follow n"
| "follow n = n"

fun is_symlink :: "node \<Rightarrow> bool" where
  "is_symlink (Link _) = True"
| "is_symlink _ = False"

fun is_file :: "node \<Rightarrow> bool" where
  "is_file n = (case follow n of Plain _ \<Rightarrow> True | _ \<Rightarrow> False)"

fun exists :: "node \<Rightarrow> bool" where
  "exists n = (follow n \<noteq> Absent)"

text \<open>\<open>json.loads(path.read_text())\<close>; the inner \<open>None\<close> is \<open>FileNotFoundError\<close>.\<close>

definition read_json :: "node \<Rightarrow> py_error + json option" where
  "read_json n = (case follow n of
     Absent \<Rightarrow> Inr None
   | Plain (Some d) \<Rightarrow> Inr (Some d)
   | Plain None \<Rightarrow> Inl (ValueError ''Expecting value'')
   | _ \<Rightarrow> Inl (OSError ''Is a directory''))"

text \<open>The stores that refuse anything but a regular file before they read it.\<close>

definition read_regular :: "string \<Rightarrow> node \<Rightarrow> py_error + json option" where
  "read_regular what n =
     (if is_symlink n \<or> (exists n \<and> \<not> is_file n) then Inl (ValueError what) else read_json n)"

record disk =
  content :: node
  outcomes :: "bool list"

text \<open>Write a temporary file and \<open>os.replace\<close> the target with it; a directory cannot be replaced.\<close>

definition replace_file :: "json \<Rightarrow> disk \<Rightarrow> (py_error + unit) \<times> disk" where
  "replace_file doc k =
     (if outcomes k \<noteq> [] \<and> \<not> hd (outcomes k) \<or> content k = Directory
      then (Inl (OSError ''write failed''), k\<lparr>outcomes := tl (outcomes k)\<rparr>)
      else (Inr (), k\<lparr>content := Plain (Some doc), outcomes := tl (outcomes k)\<rparr>))"

definition save_doc :: "string \<Rightarrow> json \<Rightarrow> disk \<Rightarrow> (py_error + unit) \<times> disk" where
  "save_doc what doc k =
     (if is_symlink (content k) then (Inl (ValueError what), k) else replace_file doc k)"

lemma read_regular_plain [simp]: "read_regular what (Plain (Some d)) = Inr (Some d)"
  by (simp add: read_regular_def read_json_def)

lemma read_regular_absent [simp]: "read_regular what Absent = Inr None"
  by (simp add: read_regular_def read_json_def)

lemma read_json_plain [simp]: "read_json (Plain (Some d)) = Inr (Some d)"
  by (simp add: read_json_def)

text \<open>The write is all or nothing, and an error never touches the file.\<close>

lemma replace_file_InrD: "replace_file doc k = (Inr u, k') \<Longrightarrow> content k' = Plain (Some doc)"
  and replace_file_InlD: "replace_file doc k = (Inl e, k') \<Longrightarrow> content k' = content k \<and> is_os_error e"
  by (auto simp: replace_file_def split: if_splits)

lemma save_doc_InrD: "save_doc what doc k = (Inr u, k') \<Longrightarrow> content k' = Plain (Some doc)"
  and save_doc_InlD: "save_doc what doc k = (Inl e, k') \<Longrightarrow>
    content k' = content k \<and> (is_value_error e \<or> is_os_error e)"
  by (auto simp: save_doc_def split: if_splits dest: replace_file_InrD replace_file_InlD)

section \<open>Contracts\<close>

text \<open>
  A codec: what a store writes decodes to the value it wrote, up to the normalisation \<open>norm\<close>
  the format applies (sorted keys, for the stores that sort), and decoding yields only
  well-formed values.
\<close>

locale json_codec =
  fixes enc :: "'s \<Rightarrow> json"
    and dec :: "json \<Rightarrow> py_error + 's"
    and wf :: "'s \<Rightarrow> bool"
    and norm :: "'s \<Rightarrow> 's"
  assumes roundtrip: "wf s \<Longrightarrow> dec (enc s) = Inr (norm s)"
    and dec_wf: "dec j = Inr s \<Longrightarrow> wf s"
    and norm_idem: "wf s \<Longrightarrow> norm (norm s) = norm s"
begin

lemma norm_wf: "wf s \<Longrightarrow> wf (norm s)"
  using roundtrip dec_wf by blast

lemma decoded_roundtrip: "dec j = Inr s \<Longrightarrow> dec (enc s) = Inr (norm s)"
  by (rule roundtrip) (rule dec_wf)

lemma enc_inj: "wf s \<Longrightarrow> wf t \<Longrightarrow> enc s = enc t \<Longrightarrow> norm s = norm t"
  using roundtrip by (metis sum.inject(2))

lemma reencode: "wf s \<Longrightarrow> dec (enc (norm s)) = Inr (norm s)"
  using roundtrip [OF norm_wf] norm_idem by simp

end

text \<open>
  A store that reaches the disk first and memory second: a legal operation leaves memory and
  file alone, or leaves both with the new value. The client lemma: after any run of legal
  operations, with any writes failing, a restart reads back exactly the memory.
\<close>

locale disk_first = json_codec enc dec wf norm
  for enc :: "'s \<Rightarrow> json" and dec :: "json \<Rightarrow> py_error + 's" and wf :: "'s \<Rightarrow> bool" and norm :: "'s \<Rightarrow> 's" +
  fixes mem :: "'st \<Rightarrow> 's"
    and stored :: "'st \<Rightarrow> node"
    and load :: "node \<Rightarrow> py_error + 's"
    and legal :: "'op \<Rightarrow> 's \<Rightarrow> bool"
    and step :: "'op \<Rightarrow> 'st \<Rightarrow> 'r \<times> 'st"
  assumes load_plain: "load (Plain (Some j)) = dec j"
    and step_commits: "legal op (mem st) \<Longrightarrow> wf (mem st) \<Longrightarrow> step op st = (r, st') \<Longrightarrow>
      (mem st' = mem st \<and> stored st' = stored st) \<or>
      (wf (mem st') \<and> stored st' = Plain (Some (enc (mem st'))))"
begin

definition synced :: "'st \<Rightarrow> bool" where
  "synced st \<longleftrightarrow> wf (mem st) \<and> load (stored st) = Inr (norm (mem st))"

definition run :: "'op list \<Rightarrow> 'st \<Rightarrow> 'st" where
  "run ops st = fold (\<lambda>op s. snd (step op s)) ops st"

lemma run_simps [simp]: "run [] st = st" "run (op # ops) st = run ops (snd (step op st))"
  by (simp_all add: run_def)

text \<open>Every operation is legal in the memory it meets.\<close>

primrec legal_run :: "'op list \<Rightarrow> 'st \<Rightarrow> bool" where
  "legal_run [] st = True"
| "legal_run (op # ops) st = (legal op (mem st) \<and> legal_run ops (snd (step op st)))"

lemma legal_runI: "list_all (\<lambda>op. \<forall>s. legal op s) ops \<Longrightarrow> legal_run ops st"
  by (induction ops arbitrary: st) auto

lemma step_synced: "legal op (mem st) \<Longrightarrow> synced st \<Longrightarrow> synced (snd (step op st))"
  using step_commits [of op st "fst (step op st)" "snd (step op st)"] roundtrip
  by (auto simp: synced_def load_plain)

lemma run_synced: "legal_run ops st \<Longrightarrow> synced st \<Longrightarrow> synced (run ops st)"
  by (induction ops arbitrary: st) (auto simp: step_synced)

lemma restart: "legal_run ops st \<Longrightarrow> synced st \<Longrightarrow> load (stored (run ops st)) = Inr (norm (mem (run ops st)))"
  using run_synced by (auto simp: synced_def)

lemma run_wf: "legal_run ops st \<Longrightarrow> synced st \<Longrightarrow> wf (mem (run ops st))"
  using run_synced by (auto simp: synced_def)

end

text \<open>
  A store that changes memory first and writes afterwards: every legal operation leaves the file
  as it was or holding the new memory, and one that reports success without changing memory aside
  has saved it. The client lemmas: the file always holds what memory was after some prefix of the
  run, so it never runs ahead; and after a last operation that succeeded a restart reads memory back.
\<close>

locale memory_first = json_codec enc dec wf norm
  for enc :: "'s \<Rightarrow> json" and dec :: "json \<Rightarrow> py_error + 's" and wf :: "'s \<Rightarrow> bool" and norm :: "'s \<Rightarrow> 's" +
  fixes mem :: "'st \<Rightarrow> 's"
    and stored :: "'st \<Rightarrow> node"
    and load :: "node \<Rightarrow> py_error + 's"
    and ready :: "'st \<Rightarrow> bool"
    and legal :: "'op \<Rightarrow> bool"
    and step :: "'op \<Rightarrow> 'st \<Rightarrow> (py_error + unit) \<times> 'st"
  assumes load_plain: "load (Plain (Some j)) = dec j"
    and step_ready: "ready st \<Longrightarrow> ready (snd (step op st))"
    and step_wf: "legal op \<Longrightarrow> wf (mem st) \<Longrightarrow> wf (mem (snd (step op st)))"
    and step_file: "ready st \<Longrightarrow> stored (snd (step op st)) = stored st \<or>
      stored (snd (step op st)) = Plain (Some (enc (mem (snd (step op st)))))"
    and step_saved: "ready st \<Longrightarrow> fst (step op st) = Inr () \<Longrightarrow>
      mem (snd (step op st)) = mem st \<and> stored (snd (step op st)) = stored st \<or>
      stored (snd (step op st)) = Plain (Some (enc (mem (snd (step op st)))))"
begin

definition run :: "'op list \<Rightarrow> 'st \<Rightarrow> 'st" where
  "run ops st = fold (\<lambda>op s. snd (step op s)) ops st"

lemma run_simps [simp]: "run [] st = st" "run (ops @ [op]) st = snd (step op (run ops st))"
  by (simp_all add: run_def)

lemma run_ready: "ready st \<Longrightarrow> ready (run ops st)"
  by (induction ops rule: rev_induct) (auto simp: step_ready)

lemma run_wf: "list_all legal ops \<Longrightarrow> wf (mem st) \<Longrightarrow> wf (mem (run ops st))"
  by (induction ops rule: rev_induct) (auto simp: step_wf)

lemma file_is_a_prefix:
  assumes "ready st" "wf (mem st)" "load (stored st) = Inr (norm (mem st))" "list_all legal ops"
  shows "\<exists>n \<le> length ops. load (stored (run ops st)) = Inr (norm (mem (run (take n ops) st)))"
  using assms(4)
proof (induction ops rule: rev_induct)
  case (snoc op ops)
  then have l: "list_all legal ops" by simp
  let ?t = "run (ops @ [op]) st"
  from step_file [OF run_ready [OF assms(1)], of op ops]
  consider "stored ?t = stored (run ops st)" | "stored ?t = Plain (Some (enc (mem ?t)))" by auto
  then show ?case
  proof cases
    case 1
    obtain n where "n \<le> length ops" "load (stored (run ops st)) = Inr (norm (mem (run (take n ops) st)))"
      using snoc.IH [OF l] by blast
    with 1 show ?thesis by (intro exI [of _ n]) simp
  next
    case 2
    have "wf (mem ?t)" using run_wf [OF snoc.prems assms(2)] .
    with 2 show ?thesis by (intro exI [of _ "Suc (length ops)"]) (simp add: load_plain roundtrip)
  qed
qed (use assms in auto)

lemma saved_step:
  assumes "ready st" "wf (mem st)" "legal op" "fst (step op st) = Inr ()"
    and "load (stored st) = Inr (norm (mem st))"
  shows "load (stored (snd (step op st))) = Inr (norm (mem (snd (step op st))))"
  using step_saved [OF assms(1,4)] step_wf [OF assms(3,2)] assms(5) by (auto simp: load_plain roundtrip)

end

end
