(* ===== verification/Effects.thy ===== *)
theory Effects
  imports Prelude
begin

text \<open>
  Operations that change a state and may raise: the state they leave behind is kept when they do,
  as Python keeps every assignment made before an exception. Sequencing, loops, running an operation
  on one part of a larger state, and the text an exception prints as.
\<close>

type_synonym ('e, 's, 'a) effect = "'s \<Rightarrow> ('e + 'a) \<times> 's"

type_synonym ('s, 'a) action = "(py_error, 's, 'a) effect"

definition ret :: "'a \<Rightarrow> ('e, 's, 'a) effect" where
  "ret x s = (Inr x, s)"

definition fail :: "'e \<Rightarrow> ('e, 's, 'a) effect" where
  "fail e s = (Inl e, s)"

text \<open>A computation that only reads the state.\<close>

definition look :: "('s \<Rightarrow> 'e + 'a) \<Rightarrow> ('e, 's, 'a) effect" where
  "look f s = (f s, s)"

definition update :: "('s \<Rightarrow> 's) \<Rightarrow> ('e, 's, unit) effect" where
  "update f s = (Inr (), f s)"

definition sbind :: "('e, 's, 'a) effect \<Rightarrow> ('a \<Rightarrow> ('e, 's, 'b) effect) \<Rightarrow> ('e, 's, 'b) effect" where
  "sbind m f s = (case m s of (Inl e, s') \<Rightarrow> (Inl e, s') | (Inr x, s') \<Rightarrow> f x s')"

definition sthen :: "('e, 's, 'a) effect \<Rightarrow> ('e, 's, 'b) effect \<Rightarrow> ('e, 's, 'b) effect" where
  "sthen m k = sbind m (\<lambda>_. k)"

definition swhen :: "bool \<Rightarrow> ('e, 's, unit) effect \<Rightarrow> ('e, 's, unit) effect" where
  "swhen c m = (if c then m else ret ())"

fun smap :: "('x \<Rightarrow> ('e, 's, 'a) effect) \<Rightarrow> 'x list \<Rightarrow> ('e, 's, 'a list) effect" where
  "smap f [] = ret []"
| "smap f (x # xs) = sbind (f x) (\<lambda>y. sbind (smap f xs) (\<lambda>ys. ret (y # ys)))"

text \<open>Run an operation on the part of the state that \<open>get\<close> reads and \<open>put\<close> writes.\<close>

definition on_part :: "('s \<Rightarrow> 't) \<Rightarrow> ('t \<Rightarrow> 's \<Rightarrow> 's) \<Rightarrow> ('e, 't, 'a) effect \<Rightarrow> ('e, 's, 'a) effect" where
  "on_part get put m s = (case m (get s) of (r, t) \<Rightarrow> (r, put t s))"

text \<open>A loop that threads a value and may raise.\<close>

fun efold :: "('x \<Rightarrow> 's \<Rightarrow> py_error + 's) \<Rightarrow> 'x list \<Rightarrow> 's \<Rightarrow> py_error + 's" where
  "efold f [] s = Inr s"
| "efold f (x # xs) s = ebind (f x s) (efold f xs)"

lemma effect_simps [simp]:
  "ret x s = (Inr x, s)" "fail e s = (Inl e, s)" "look f s = (f s, s)" "update g s = (Inr (), g s)"
  by (simp_all add: ret_def fail_def look_def update_def)

lemma sbind_simps [simp]:
  "sbind (ret x) f = f x" "sbind (fail e) g = fail e" "sbind m ret = m"
  by (auto simp: sbind_def fun_eq_iff split: prod.split sum.split)

lemma sbind_InrD:
  "sbind m f s = (Inr y, s') \<Longrightarrow> \<exists>x t. m s = (Inr x, t) \<and> f x t = (Inr y, s')"
  by (auto simp: sbind_def split: prod.splits sum.splits)

lemma sbind_elim:
  assumes "sbind m f s = (r, s')"
  obtains (raised) e where "m s = (Inl e, s')" "r = Inl e"
  | (returned) x t where "m s = (Inr x, t)" "f x t = (r, s')"
  using assms by (auto simp: sbind_def split: prod.splits sum.splits)

text \<open>Invariants of an operation, whatever it returns.\<close>

definition keeps :: "('s \<Rightarrow> bool) \<Rightarrow> ('e, 's, 'a) effect \<Rightarrow> bool" where
  "keeps I m \<longleftrightarrow> (\<forall>s. I s \<longrightarrow> I (snd (m s)))"

lemma keepsD: "keeps I m \<Longrightarrow> I s \<Longrightarrow> I (snd (m s))"
  by (simp add: keeps_def)

lemma keeps_ret [simp, intro]: "keeps I (ret x)" and keeps_fail [simp, intro]: "keeps I (fail e)"
  and keeps_look [simp, intro]: "keeps I (look f)"
  by (simp_all add: keeps_def)

lemma keeps_update: "(\<And>s. I s \<Longrightarrow> I (f s)) \<Longrightarrow> keeps I (update f)"
  by (simp add: keeps_def)

lemma keeps_sbind [intro]: "keeps I m \<Longrightarrow> (\<And>x. keeps I (f x)) \<Longrightarrow> keeps I (sbind m f)"
  unfolding keeps_def sbind_def by (auto split: prod.split sum.split)

lemma keeps_sthen [intro]: "keeps I m \<Longrightarrow> keeps I k \<Longrightarrow> keeps I (sthen m k)"
  by (auto simp: sthen_def)

lemma keeps_swhen [intro]: "(c \<Longrightarrow> keeps I m) \<Longrightarrow> keeps I (swhen c m)"
  by (auto simp: swhen_def)

lemma keeps_if [intro]: "(c \<Longrightarrow> keeps I m) \<Longrightarrow> (\<not> c \<Longrightarrow> keeps I k) \<Longrightarrow> keeps I (if c then m else k)"
  by simp

lemma keeps_option [intro]:
  "(v = None \<Longrightarrow> keeps I m) \<Longrightarrow> (\<And>x. v = Some x \<Longrightarrow> keeps I (f x)) \<Longrightarrow> keeps I (case v of None \<Rightarrow> m | Some x \<Rightarrow> f x)"
  by (cases v) auto

lemma keeps_smap [intro]: "(\<And>x. x \<in> set xs \<Longrightarrow> keeps I (f x)) \<Longrightarrow> keeps I (smap f xs)"
  by (induction xs) auto

lemma keeps_on_part:
  "(\<And>s. I s \<Longrightarrow> I (put (snd (m (get s))) s)) \<Longrightarrow> keeps I (on_part get put m)"
  by (simp add: keeps_def on_part_def case_prod_beta)

section \<open>The text of an exception\<close>

text \<open>\<open>template.format(**params)\<close> for templates whose fields are plain names.\<close>

fun fill :: "(string \<times> string) list \<Rightarrow> string option \<Rightarrow> string \<Rightarrow> string" where
  "fill ps None [] = []"
| "fill ps None (c # cs) = (if c = CHR ''{'' then fill ps (Some []) cs else c # fill ps None cs)"
| "fill ps (Some k) [] = k"
| "fill ps (Some k) (c # cs) = (if c = CHR ''}'' then dict_get ps k [] @ fill ps None cs else fill ps (Some (k @ [c])) cs)"

fun error_text :: "py_error \<Rightarrow> string" where
  "error_text (ValueError m) = m"
| "error_text (TypeError m) = m"
| "error_text (KeyError m) = CHR 0x27 # m @ [CHR 0x27]"
| "error_text (AttributeError m) = m"
| "error_text (OSError m) = m"
| "error_text (LocalizedError t ps) = (if ps = [] then t else fill ps None t)"
| "error_text (EnrollmentError m) = m"
| "error_text (WebStoreError m) = m"
| "error_text (LinkError c m) = m"
| "error_text LinkCodeEntryClosed = ''link code entry is closed''"
| "error_text (AuthError n m) = m"
| "error_text (RuntimeControlError c m) = m"

end
