(* ===== verification/Web_Store.thy ===== *)
theory Web_Store
  imports Json_Store Effects
begin

text \<open>
  Web accounts, passkeys and sessions, \<open>WebStore\<close> of \<open>endbotd/web_store.py\<close>: three files, each written before
  memory changes. Entries are JSON objects; the fields the store checks at start are read with \<open>text_at\<close> and
  keep their other fields. Random ids, the user handle and the clock are arguments.
\<close>

type_synonym entry = "(string, json) dict"

definition text_at :: "string \<Rightarrow> entry \<Rightarrow> string" where
  "text_at k e = (case map_of e k of Some (JStr s) \<Rightarrow> s | _ \<Rightarrow> [])"

text \<open>\<open>isinstance(entry.get(field), str) and entry[field]\<close> for each field.\<close>

definition has_texts :: "string list \<Rightarrow> entry \<Rightarrow> bool" where
  "has_texts ks e = list_all (\<lambda>k. text_at k e \<noteq> []) ks"

definition has_number :: "string \<Rightarrow> entry \<Rightarrow> bool" where
  "has_number k e = (case map_of e k of Some (JInt _) \<Rightarrow> True | Some (JFloat _) \<Rightarrow> True | _ \<Rightarrow> False)"

definition int_at :: "string \<Rightarrow> entry \<Rightarrow> int option" where
  "int_at k e = (case map_of e k of Some (JInt i) \<Rightarrow> Some i | _ \<Rightarrow> None)"

section \<open>Files\<close>

definition web_error :: "string \<Rightarrow> string \<Rightarrow> py_error" where
  "web_error k what = WebStoreError (k @ ''.json '' @ what)"

definition decode_entries :: "string \<Rightarrow> json \<Rightarrow> py_error + entry list" where
  "decode_entries k j = (case j of
     JObj d \<Rightarrow>
       (if \<not> version_is 1 d then Inl (web_error k ''has an unsupported version'')
        else ebind (as_arr (web_error k (''must hold a list of '' @ k)) (dict_get d k JNull))
          (emap (as_obj (web_error k (''must hold a list of '' @ k)))))
   | _ \<Rightarrow> Inl (web_error k ''has an unsupported version''))"

text \<open>Every exception in front of the decoding is turned into \<open>cannot be read\<close>, the store's own included.\<close>

definition load_entries :: "string \<Rightarrow> node \<Rightarrow> py_error + entry list" where
  "load_entries k n =
     (if is_symlink n \<or> (exists n \<and> \<not> is_file n)
      then Inl (web_error k (''cannot be read: '' @ k @ ''.json must be a regular file''))
      else (case read_json n of
          Inl e \<Rightarrow> Inl (web_error k (''cannot be read: '' @ error_text e))
        | Inr None \<Rightarrow> Inr []
        | Inr (Some j) \<Rightarrow> decode_entries k j))"

definition encode_entries :: "string \<Rightarrow> entry list \<Rightarrow> json" where
  "encode_entries k es = JObj [(''version'', JInt 1), (k, JArr (map JObj es))]"

definition save_entries :: "string \<Rightarrow> entry list \<Rightarrow> disk \<Rightarrow> (py_error + unit) \<times> disk" where
  "save_entries k es d =
     (if is_symlink (content d) then (Inl (web_error k ''must not be a symlink''), d)
      else replace_file (encode_entries k es) d)"

record web_store =
  accounts_file :: disk
  passkeys_file :: disk
  sessions_file :: disk
  web_accounts :: "entry list"
  web_passkeys :: "entry list"
  web_sessions :: "entry list"

definition account_ok :: "entry \<Rightarrow> bool" where
  "account_ok e = has_texts [''id'', ''xuid'', ''uuid'', ''gamertag'', ''userHandle''] e"

definition passkey_ok :: "entry \<Rightarrow> bool" where
  "passkey_ok e \<longleftrightarrow> has_texts [''id'', ''account'', ''publicKey'', ''rpId''] e \<and>
     (case int_at ''signCount'' e of None \<Rightarrow> False | Some i \<Rightarrow> 0 \<le> i)"

definition session_ok :: "entry \<Rightarrow> bool" where
  "session_ok e \<longleftrightarrow> has_texts [''id'', ''hash'', ''account'', ''via''] e \<and>
     list_all (\<lambda>k. has_number k e) [''created'', ''lastSeen'', ''assertedAt''] \<and> int_at ''grantRevision'' e \<noteq> None"

definition open_web :: "disk \<Rightarrow> disk \<Rightarrow> disk \<Rightarrow> py_error + web_store" where
  "open_web fa fp fs =
     ebind (load_entries ''accounts'' (content fa)) (\<lambda>as.
     ebind (load_entries ''passkeys'' (content fp)) (\<lambda>ps.
     ebind (load_entries ''sessions'' (content fs)) (\<lambda>ss.
     ebind (check (list_all account_ok as) (WebStoreError ''accounts.json has an incomplete account'')) (\<lambda>_.
     ebind (check (distinct (map (text_at ''xuid'') as)) (WebStoreError ''accounts.json has two accounts for one XUID'')) (\<lambda>_.
     ebind (check (list_all passkey_ok ps) (WebStoreError ''passkeys.json has an incomplete passkey'')) (\<lambda>_.
     ebind (check (list_all session_ok ss) (WebStoreError ''sessions.json has an incomplete session'')) (\<lambda>_.
       Inr \<lparr>accounts_file = fa, passkeys_file = fp, sessions_file = fs,
            web_accounts = as, web_passkeys = ps, web_sessions = ss\<rparr>)))))))"

section \<open>Writes: the disk first, memory second\<close>

definition commit_accounts :: "entry list \<Rightarrow> (web_store, unit) action" where
  "commit_accounts es s = (case save_entries ''accounts'' es (accounts_file s) of
     (Inl e, d) \<Rightarrow> (Inl e, s\<lparr>accounts_file := d\<rparr>)
   | (Inr u, d) \<Rightarrow> (Inr u, s\<lparr>accounts_file := d, web_accounts := es\<rparr>))"

definition commit_passkeys :: "entry list \<Rightarrow> (web_store, unit) action" where
  "commit_passkeys es s = (case save_entries ''passkeys'' es (passkeys_file s) of
     (Inl e, d) \<Rightarrow> (Inl e, s\<lparr>passkeys_file := d\<rparr>)
   | (Inr u, d) \<Rightarrow> (Inr u, s\<lparr>passkeys_file := d, web_passkeys := es\<rparr>))"

definition commit_sessions :: "entry list \<Rightarrow> (web_store, unit) action" where
  "commit_sessions es s = (case save_entries ''sessions'' es (sessions_file s) of
     (Inl e, d) \<Rightarrow> (Inl e, s\<lparr>sessions_file := d\<rparr>)
   | (Inr u, d) \<Rightarrow> (Inr u, s\<lparr>sessions_file := d, web_sessions := es\<rparr>))"

section \<open>Accounts\<close>

definition account :: "string \<Rightarrow> web_store \<Rightarrow> entry option" where
  "account i s = find (\<lambda>e. text_at ''id'' e = i) (web_accounts s)"

definition account_for_xuid :: "string \<Rightarrow> web_store \<Rightarrow> entry option" where
  "account_for_xuid x s = find (\<lambda>e. text_at ''xuid'' e = x) (web_accounts s)"

definition account_for_gamertag :: "string \<Rightarrow> web_store \<Rightarrow> entry option" where
  "account_for_gamertag g s = find (\<lambda>e. casefold (text_at ''gamertag'' e) = casefold g) (web_accounts s)"

definition instead :: "entry \<Rightarrow> string \<Rightarrow> entry list \<Rightarrow> entry list" where
  "instead a x es = map (\<lambda>e. if text_at ''xuid'' e = x then a else e) es"

text \<open>What \<open>secrets\<close> and the clock give a new account.\<close>

definition new_account :: "string \<Rightarrow> string \<Rightarrow> rat \<Rightarrow> string \<Rightarrow> string \<Rightarrow> string \<Rightarrow> entry" where
  "new_account i handle now x u g = [(''id'', JStr i), (''xuid'', JStr x), (''uuid'', JStr u), (''gamertag'', JStr g),
     (''userHandle'', JStr handle), (''created'', JFloat (Finite now))]"

definition ensure_account :: "string \<Rightarrow> string \<Rightarrow> rat \<Rightarrow> string \<Rightarrow> string \<Rightarrow> string \<Rightarrow> (web_store, entry) action" where
  "ensure_account i handle now x u g s = (case account_for_xuid x s of
     None \<Rightarrow> sbind (commit_accounts (web_accounts s @ [new_account i handle now x u g])) (\<lambda>_. ret (new_account i handle now x u g)) s
   | Some a \<Rightarrow>
       if text_at ''uuid'' a = u \<and> text_at ''gamertag'' a = g then (Inr a, s)
       else (let b = dict_set ''gamertag'' (JStr g) (dict_set ''uuid'' (JStr u) a) in
         sbind (commit_accounts (instead b x (web_accounts s))) (\<lambda>_. ret b) s))"

definition of_account :: "entry \<Rightarrow> entry \<Rightarrow> bool" where
  "of_account a e \<longleftrightarrow> text_at ''account'' e = text_at ''id'' a"

definition hashes :: "entry list \<Rightarrow> string list" where
  "hashes es = map (text_at ''hash'') es"

definition delete_sessions :: "string \<Rightarrow> (web_store, string list) action" where
  "delete_sessions x s = (case account_for_xuid x s of
     None \<Rightarrow> (Inr [], s)
   | Some a \<Rightarrow>
       (let removed = hashes (filter (of_account a) (web_sessions s)) in
        sbind (swhen (removed \<noteq> []) (commit_sessions (filter (\<lambda>e. \<not> of_account a e) (web_sessions s)))) (\<lambda>_. ret removed) s))"

text \<open>Sessions first: if a later write fails, nobody stays signed in on what is left.\<close>

definition delete_account :: "string \<Rightarrow> (web_store, string list) action" where
  "delete_account x s = (case account_for_xuid x s of
     None \<Rightarrow> (Inr [], s)
   | Some a \<Rightarrow>
       sbind (delete_sessions x) (\<lambda>removed.
       sbind (\<lambda>t. commit_passkeys (filter (\<lambda>e. \<not> of_account a e) (web_passkeys t)) t) (\<lambda>_.
       sbind (\<lambda>t. commit_accounts (filter (\<lambda>e. text_at ''xuid'' e \<noteq> x) (web_accounts t)) t) (\<lambda>_. ret removed))) s)"

definition delete_credentials :: "(web_store, string list) action" where
  "delete_credentials s =
     (let removed = hashes (web_sessions s) in
      sbind (commit_sessions []) (\<lambda>_. sbind (commit_passkeys []) (\<lambda>_. ret removed)) s)"

section \<open>Passkeys and sessions\<close>

definition passkeys_of :: "string \<Rightarrow> web_store \<Rightarrow> entry list" where
  "passkeys_of i s = filter (\<lambda>e. text_at ''account'' e = i) (web_passkeys s)"

definition sessions_of :: "string \<Rightarrow> web_store \<Rightarrow> entry list" where
  "sessions_of i s = filter (\<lambda>e. text_at ''account'' e = i) (web_sessions s)"

definition find_passkey :: "string \<Rightarrow> web_store \<Rightarrow> entry option" where
  "find_passkey i s = find (\<lambda>e. text_at ''id'' e = i) (web_passkeys s)"

definition find_session :: "string \<Rightarrow> web_store \<Rightarrow> entry option" where
  "find_session h s = find (\<lambda>e. text_at ''hash'' e = h) (web_sessions s)"

text \<open>\<open>{**entry, **fields}\<close>.\<close>

definition with_fields :: "entry \<Rightarrow> entry \<Rightarrow> entry" where
  "with_fields changes e = fold (\<lambda>(k, v). dict_set k v) changes e"

definition add_passkey :: "entry \<Rightarrow> (web_store, unit) action" where
  "add_passkey e s = commit_passkeys (web_passkeys s @ [e]) s"

definition update_passkey :: "string \<Rightarrow> entry \<Rightarrow> (web_store, unit) action" where
  "update_passkey i changes s =
     commit_passkeys (map (\<lambda>e. if text_at ''id'' e = i then with_fields changes e else e) (web_passkeys s)) s"

definition delete_passkey :: "string \<Rightarrow> (web_store, unit) action" where
  "delete_passkey i s = commit_passkeys (filter (\<lambda>e. text_at ''id'' e \<noteq> i) (web_passkeys s)) s"

definition add_session :: "entry \<Rightarrow> (web_store, unit) action" where
  "add_session e s = commit_sessions (web_sessions s @ [e]) s"

definition update_session :: "string \<Rightarrow> entry \<Rightarrow> (web_store, unit) action" where
  "update_session h changes s =
     commit_sessions (map (\<lambda>e. if text_at ''hash'' e = h then with_fields changes e else e) (web_sessions s)) s"

definition delete_session :: "string \<Rightarrow> (web_store, unit) action" where
  "delete_session h s = commit_sessions (filter (\<lambda>e. text_at ''hash'' e \<noteq> h) (web_sessions s)) s"

definition delete_sessions_via :: "string \<Rightarrow> (web_store, string list) action" where
  "delete_sessions_via via s =
     (let removed = hashes (filter (\<lambda>e. text_at ''via'' e = via) (web_sessions s)) in
      sbind (swhen (removed \<noteq> []) (commit_sessions (filter (\<lambda>e. text_at ''via'' e \<noteq> via) (web_sessions s)))) (\<lambda>_. ret removed) s)"

text \<open>A passkey's \<open>via\<close> is not checked at start and may be missing.\<close>

definition delete_passkeys_via :: "string \<Rightarrow> (web_store, nat) action" where
  "delete_passkeys_via via s =
     (let kept = filter (\<lambda>e. map_of e ''via'' \<noteq> Some (JStr via)) (web_passkeys s);
          count = length (web_passkeys s) - length kept in
      sbind (swhen (count \<noteq> 0) (commit_passkeys kept)) (\<lambda>_. ret count) s)"

definition end_sessions_for_revoke :: "rat \<Rightarrow> string \<Rightarrow> (web_store, string list) action" where
  "end_sessions_for_revoke now x s = (case account_for_xuid x s of
     None \<Rightarrow> (Inr [], s)
   | Some a \<Rightarrow>
       (let removed = hashes (filter (of_account a) (web_sessions s)) in
        if removed = [] then (Inr [], s)
        else sbind (commit_accounts (instead (dict_set ''sessionsFrom'' (JFloat (Finite now)) a) x (web_accounts s))) (\<lambda>_.
             sbind (delete_sessions x) (\<lambda>_. ret removed)) s))"

section \<open>Memory and disk agree\<close>

text \<open>A store is synced when opening its files gives the store itself.\<close>

definition web_synced :: "web_store \<Rightarrow> bool" where
  "web_synced s \<longleftrightarrow> open_web (accounts_file s) (passkeys_file s) (sessions_file s) = Inr s"

definition accounts_ok :: "entry list \<Rightarrow> bool" where
  "accounts_ok es \<longleftrightarrow> list_all account_ok es \<and> distinct (map (text_at ''xuid'') es)"

lemma checked_loads:
  "ebind A (\<lambda>as. ebind B (\<lambda>ps. ebind C (\<lambda>ss. ebind (check (P as) e1) (\<lambda>_. ebind (check (Q as) e2) (\<lambda>_.
     ebind (check (R ps) e3) (\<lambda>_. ebind (check (S ss) e4) (\<lambda>_. Inr (F as ps ss)))))))) = Inr s \<longleftrightarrow>
   (\<exists>as ps ss. A = Inr as \<and> B = Inr ps \<and> C = Inr ss \<and> P as \<and> Q as \<and> R ps \<and> S ss \<and> F as ps ss = s)"
  by auto

lemma opened_is:
  "(\<exists>as ps ss. A = Inr as \<and> B = Inr ps \<and> C = Inr ss \<and> P as \<and> Q as \<and> R ps \<and> S ss \<and>
     \<lparr>accounts_file = accounts_file s, passkeys_file = passkeys_file s, sessions_file = sessions_file s,
      web_accounts = as, web_passkeys = ps, web_sessions = ss\<rparr> = s) \<longleftrightarrow>
   A = Inr (web_accounts s) \<and> B = Inr (web_passkeys s) \<and> C = Inr (web_sessions s) \<and>
   (P (web_accounts s) \<and> Q (web_accounts s)) \<and> R (web_passkeys s) \<and> S (web_sessions s)"
  by (cases s) auto

lemma web_synced_iff: "web_synced s \<longleftrightarrow>
   load_entries ''accounts'' (content (accounts_file s)) = Inr (web_accounts s) \<and>
   load_entries ''passkeys'' (content (passkeys_file s)) = Inr (web_passkeys s) \<and>
   load_entries ''sessions'' (content (sessions_file s)) = Inr (web_sessions s) \<and>
   accounts_ok (web_accounts s) \<and> list_all passkey_ok (web_passkeys s) \<and> list_all session_ok (web_sessions s)"
  unfolding web_synced_def open_web_def accounts_ok_def checked_loads opened_is ..

lemma emap_objects: "emap (as_obj e) (map JObj es) = Inr es"
  by (induction es) simp_all

lemma load_plain: "load_entries k (Plain (Some j)) = decode_entries k j"
  by (simp only: load_entries_def is_symlink.simps is_file.simps exists.simps follow.simps read_json_plain node.case
      sum.case option.case simp_thms if_False)

lemma decode_encoded: "k \<noteq> ''version'' \<Longrightarrow> decode_entries k (encode_entries k es) = Inr es"
proof -
  assume k: "k \<noteq> ''version''"
  have "dict_get [(''version'', JInt 1), (k, JArr (map JObj es))] k JNull = JArr (map JObj es)"
    using k by (simp add: dict_get_def)
  then show ?thesis
    by (simp only: decode_entries_def encode_entries_def json.case version_is_head simp_thms if_False as_arr.simps
        ebind.simps emap_objects)
qed

lemma load_encoded: "k \<noteq> ''version'' \<Longrightarrow> load_entries k (Plain (Some (encode_entries k es))) = Inr es"
  by (simp add: load_plain decode_encoded)

lemma save_entries_load:
  assumes "save_entries k es d = (r, d')" "load_entries k (content d) = Inr old" "k \<noteq> ''version''"
  shows "load_entries k (content d') = Inr (case r of Inl e \<Rightarrow> old | Inr u \<Rightarrow> es)"
proof (cases "is_symlink (content d)")
  case True
  with assms(1,2) show ?thesis by (simp only: save_entries_def if_True prod.inject) (metis sum.case(1))
next
  case False
  with assms(1) have w: "replace_file (encode_entries k es) d = (r, d')"
    by (simp only: save_entries_def if_False)
  show ?thesis
  proof (cases r)
    case (Inl e)
    with replace_file_InlD w assms(2) show ?thesis by (metis sum.case(1))
  next
    case (Inr u)
    with replace_file_InrD w load_encoded [OF assms(3)] show ?thesis by (metis sum.case(2))
  qed
qed

lemma commit_accounts_synced: "web_synced s \<Longrightarrow> accounts_ok es \<Longrightarrow> web_synced (snd (commit_accounts es s))"
  by (cases "save_entries ''accounts'' es (accounts_file s)"; cases "fst (save_entries ''accounts'' es (accounts_file s))")
    (simp_all add: web_synced_iff commit_accounts_def save_entries_load)

lemma commit_passkeys_synced: "web_synced s \<Longrightarrow> list_all passkey_ok es \<Longrightarrow> web_synced (snd (commit_passkeys es s))"
  by (cases "save_entries ''passkeys'' es (passkeys_file s)"; cases "fst (save_entries ''passkeys'' es (passkeys_file s))")
    (simp_all add: web_synced_iff commit_passkeys_def save_entries_load)

lemma commit_sessions_synced: "web_synced s \<Longrightarrow> list_all session_ok es \<Longrightarrow> web_synced (snd (commit_sessions es s))"
  by (cases "save_entries ''sessions'' es (sessions_file s)"; cases "fst (save_entries ''sessions'' es (sessions_file s))")
    (simp_all add: web_synced_iff commit_sessions_def save_entries_load)

lemma synced_sbind:
  "web_synced (snd (m s)) \<Longrightarrow> (\<And>x t. web_synced t \<Longrightarrow> web_synced (snd (f x t))) \<Longrightarrow> web_synced (snd (sbind m f s))"
  by (cases "m s"; cases "fst (m s)") (auto simp: sbind_def)

lemma syncedD: "web_synced s \<Longrightarrow> accounts_ok (web_accounts s)" "web_synced s \<Longrightarrow> list_all passkey_ok (web_passkeys s)"
  "web_synced s \<Longrightarrow> list_all session_ok (web_sessions s)"
  by (simp_all add: web_synced_iff)

lemmas synced_commits = commit_accounts_synced commit_passkeys_synced commit_sessions_synced

lemma list_all_filter: "list_all P xs \<Longrightarrow> list_all P (filter Q xs)"
  by (simp add: list_all_iff)

lemma accounts_ok_filter: "accounts_ok es \<Longrightarrow> accounts_ok (filter Q es)"
  by (simp add: accounts_ok_def list_all_iff distinct_map_filter)

lemma text_at_set [simp]: "text_at k (dict_set k' v e) = (if k = k' then (case v of JStr t \<Rightarrow> t | _ \<Rightarrow> []) else text_at k e)"
  by (simp add: text_at_def split: json.split)

lemma has_texts_set:
  "has_texts ks e \<Longrightarrow> (k \<in> set ks \<Longrightarrow> \<exists>t. v = JStr t \<and> t \<noteq> []) \<Longrightarrow> has_texts ks (dict_set k v e)"
  by (auto simp: has_texts_def list_all_iff)

lemma find_InD: "find P xs = Some x \<Longrightarrow> x \<in> set xs \<and> P x"
  by (auto simp: find_Some_iff)

text \<open>Replacing the account of an XUID by one of the same XUID.\<close>

lemma accounts_ok_instead:
  assumes "accounts_ok es" "account_ok b" "text_at ''xuid'' b = x"
  shows "accounts_ok (instead b x es)"
proof -
  have "map (text_at ''xuid'') (instead b x es) = map (text_at ''xuid'') es"
    using assms(3) by (auto simp: instead_def)
  moreover have "list_all account_ok (instead b x es)"
    using assms by (auto simp: accounts_ok_def instead_def list_all_iff)
  ultimately show ?thesis
    using assms by (simp add: accounts_ok_def)
qed

lemma account_for_xuid_ok:
  "web_synced s \<Longrightarrow> account_for_xuid x s = Some a \<Longrightarrow> account_ok a \<and> text_at ''xuid'' a = x"
  by (auto simp: account_for_xuid_def web_synced_iff accounts_ok_def list_all_iff dest!: find_InD)

section \<open>Every operation\<close>

datatype web_op =
    Ensure_Account string string rat string string string
  | Delete_Account string
  | Delete_Credentials
  | Add_Passkey entry
  | Count_Passkey string int rat
  | Delete_Passkey string
  | Add_Session entry
  | Touch_Session string rat
  | Delete_Session string
  | Delete_Sessions_Via string
  | Delete_Passkeys_Via string
  | End_For_Revoke rat string
  | Delete_Sessions string

definition forget_result :: "('s, 'a) action \<Rightarrow> ('s, unit) action" where
  "forget_result m = sbind m (\<lambda>_. ret ())"

fun web_step :: "web_op \<Rightarrow> (web_store, unit) action" where
  "web_step (Ensure_Account i h now x u g) = forget_result (ensure_account i h now x u g)"
| "web_step (Delete_Account x) = forget_result (delete_account x)"
| "web_step Delete_Credentials = forget_result delete_credentials"
| "web_step (Add_Passkey e) = add_passkey e"
| "web_step (Count_Passkey i n now) = update_passkey i [(''signCount'', JInt n), (''lastUsed'', JFloat (Finite now))]"
| "web_step (Delete_Passkey i) = delete_passkey i"
| "web_step (Add_Session e) = add_session e"
| "web_step (Touch_Session h now) = update_session h [(''lastSeen'', JFloat (Finite now))]"
| "web_step (Delete_Session h) = delete_session h"
| "web_step (Delete_Sessions_Via via) = forget_result (delete_sessions_via via)"
| "web_step (Delete_Passkeys_Via via) = forget_result (delete_passkeys_via via)"
| "web_step (End_For_Revoke now x) = forget_result (end_sessions_for_revoke now x)"
| "web_step (Delete_Sessions x) = forget_result (delete_sessions x)"

text \<open>What the callers pass: filled in fields, complete entries, counts that are not negative.\<close>

fun web_legal :: "web_op \<Rightarrow> bool" where
  "web_legal (Ensure_Account i h now x u g) \<longleftrightarrow> i \<noteq> [] \<and> h \<noteq> [] \<and> x \<noteq> [] \<and> u \<noteq> [] \<and> g \<noteq> []"
| "web_legal (Add_Passkey e) = passkey_ok e"
| "web_legal (Count_Passkey i n now) = (0 \<le> n)"
| "web_legal (Add_Session e) = session_ok e"
| "web_legal _ = True"

lemma synced_forget: "web_synced (snd (m s)) \<Longrightarrow> web_synced (snd (forget_result m s))"
  by (auto simp: forget_result_def intro: synced_sbind)

lemma synced_swhen: "web_synced s \<Longrightarrow> (c \<Longrightarrow> web_synced (snd (m s))) \<Longrightarrow> web_synced (snd (swhen c m s))"
  by (simp add: swhen_def)

lemma new_account_ok: "i \<noteq> [] \<Longrightarrow> h \<noteq> [] \<Longrightarrow> x \<noteq> [] \<Longrightarrow> u \<noteq> [] \<Longrightarrow> g \<noteq> [] \<Longrightarrow>
   account_ok (new_account i h now x u g) \<and> text_at ''xuid'' (new_account i h now x u g) = x"
  by (simp add: account_ok_def has_texts_def new_account_def text_at_def)

lemma fresh_xuid: "account_for_xuid x s = None \<Longrightarrow> x \<notin> text_at ''xuid'' ` set (web_accounts s)"
  by (auto simp: account_for_xuid_def find_None_iff)

lemma ensure_account_synced:
  assumes "web_synced s" "web_legal (Ensure_Account i h now x u g)"
  shows "web_synced (snd (ensure_account i h now x u g s))"
proof (cases "account_for_xuid x s")
  case None
  have "accounts_ok (web_accounts s @ [new_account i h now x u g])"
    using syncedD(1) [OF assms(1)] new_account_ok [of i h x u g now] assms(2) fresh_xuid [OF None]
    by (auto simp: accounts_ok_def)
  then show ?thesis
    using commit_accounts_synced [OF assms(1), of "web_accounts s @ [new_account i h now x u g]"]
    by (auto simp: ensure_account_def None sbind_def split: prod.split sum.split)
next
  case (Some a)
  let ?b = "dict_set ''gamertag'' (JStr g) (dict_set ''uuid'' (JStr u) a)"
  have "account_ok ?b \<and> text_at ''xuid'' ?b = x"
    using account_for_xuid_ok [OF assms(1) Some] assms(2)
    by (auto simp: account_ok_def has_texts_def)
  then have "accounts_ok (instead ?b x (web_accounts s))"
    using accounts_ok_instead [OF syncedD(1) [OF assms(1)]] by blast
  from commit_accounts_synced [OF assms(1) this] show ?thesis
    using assms(1) by (auto simp: ensure_account_def Some Let_def sbind_def split: prod.split sum.split)
qed

lemma delete_sessions_synced: "web_synced s \<Longrightarrow> web_synced (snd (delete_sessions x s))"
  unfolding delete_sessions_def Let_def
  by (auto split: option.split intro!: synced_sbind synced_swhen commit_sessions_synced list_all_filter syncedD)

lemma delete_account_synced: "web_synced s \<Longrightarrow> web_synced (snd (delete_account x s))"
  unfolding delete_account_def
  by (auto split: option.split intro!: synced_sbind commit_passkeys_synced commit_accounts_synced list_all_filter
      accounts_ok_filter syncedD delete_sessions_synced)

lemma via_synced:
  "web_synced s \<Longrightarrow> web_synced (snd (delete_credentials s))"
  "web_synced s \<Longrightarrow> web_synced (snd (delete_sessions_via via s))"
  "web_synced s \<Longrightarrow> web_synced (snd (delete_passkeys_via via s))"
  unfolding delete_credentials_def delete_sessions_via_def delete_passkeys_via_def Let_def
  by (auto intro!: synced_sbind synced_swhen commit_sessions_synced commit_passkeys_synced list_all_filter syncedD)

lemma revoke_synced:
  assumes "web_synced s"
  shows "web_synced (snd (end_sessions_for_revoke now x s))"
proof (cases "account_for_xuid x s")
  case None
  then show ?thesis using assms by (simp add: end_sessions_for_revoke_def)
next
  case (Some a)
  let ?b = "dict_set ''sessionsFrom'' (JFloat (Finite now)) a"
  have "account_ok ?b \<and> text_at ''xuid'' ?b = x"
    using account_for_xuid_ok [OF assms Some]
    by (auto simp: account_ok_def has_texts_def)
  then have ok: "accounts_ok (instead ?b x (web_accounts s))"
    using accounts_ok_instead [OF syncedD(1) [OF assms]] by blast
  then show ?thesis
    using assms ok
    by (auto simp: end_sessions_for_revoke_def Some Let_def intro!: synced_sbind commit_accounts_synced delete_sessions_synced)
qed

lemma list_all_changed:
  "list_all P es \<Longrightarrow> (\<And>e. P e \<Longrightarrow> P (f e)) \<Longrightarrow> list_all P (map (\<lambda>e. if Q e then f e else e) es)"
  by (auto simp: list_all_iff)

lemma counted_ok: "passkey_ok e \<Longrightarrow> 0 \<le> n \<Longrightarrow>
    passkey_ok (with_fields [(''signCount'', JInt n), (''lastUsed'', JFloat (Finite now))] e)"
  by (simp add: passkey_ok_def with_fields_def int_at_def has_texts_def)

lemma touched_ok: "session_ok e \<Longrightarrow> session_ok (with_fields [(''lastSeen'', JFloat (Finite now))] e)"
  by (simp add: session_ok_def with_fields_def int_at_def has_texts_def has_number_def)

lemma web_step_synced: "web_synced s \<Longrightarrow> web_legal op \<Longrightarrow> web_synced (snd (web_step op s))"
proof (cases op)
  case (Ensure_Account i h now x u g)
  then show "web_synced s \<Longrightarrow> web_legal op \<Longrightarrow> web_synced (snd (web_step op s))"
    by (simp only: web_step.simps) (rule synced_forget, rule ensure_account_synced)
qed (simp_all only: web_step.simps,
  auto intro!: synced_forget delete_account_synced via_synced revoke_synced delete_sessions_synced
    commit_passkeys_synced commit_sessions_synced list_all_changed counted_ok touched_ok syncedD list_all_filter
    simp: add_passkey_def add_session_def update_passkey_def update_session_def delete_passkey_def delete_session_def)

definition web_run :: "web_op list \<Rightarrow> web_store \<Rightarrow> web_store" where
  "web_run ops s = fold (\<lambda>op t. snd (web_step op t)) ops s"

text \<open>C25: Whatever the web store was asked to do since it was opened, and whichever of its writes failed, opening
  its three files again gives exactly the accounts, passkeys and sessions in memory: nothing reported as removed
  comes back, and every file stays readable.\<close>

theorem web_restart:
  assumes "open_web fa fp fs = Inr s" "list_all web_legal ops"
  shows "open_web (accounts_file (web_run ops s)) (passkeys_file (web_run ops s)) (sessions_file (web_run ops s)) =
    Inr (web_run ops s)"
proof -
  have "open_web (accounts_file s) (passkeys_file s) (sessions_file s) = Inr s"
    using assms(1) by (auto simp: open_web_def)
  then have "web_synced s" by (simp add: web_synced_def)
  with assms(2) have "web_synced (web_run ops s)"
    unfolding web_run_def by (induction ops arbitrary: s) (auto simp: web_step_synced)
  then show ?thesis by (simp add: web_synced_def)
qed

definition fresh_disk :: "bool list \<Rightarrow> disk" where
  "fresh_disk bs = \<lparr>content = Absent, outcomes = bs\<rparr>"

definition empty_web :: "bool list \<Rightarrow> web_store" where
  "empty_web bs = \<lparr>accounts_file = fresh_disk [], passkeys_file = fresh_disk bs, sessions_file = fresh_disk [],
     web_accounts = [], web_passkeys = [], web_sessions = []\<rparr>"

definition a_passkey :: entry where
  "a_passkey = [(''id'', JStr ''k''), (''account'', JStr ''a''), (''publicKey'', JStr ''p''), (''rpId'', JStr ''r''),
     (''signCount'', JInt 0), (''via'', JStr ''passkey'')]"

definition a_session :: entry where
  "a_session = [(''id'', JStr ''s''), (''hash'', JStr ''h''), (''account'', JStr ''a''), (''via'', JStr ''passkey''),
     (''created'', JInt 0), (''lastSeen'', JInt 0), (''assertedAt'', JInt 0), (''grantRevision'', JInt 0)]"

definition web_ops :: "web_op list" where
  "web_ops = [Ensure_Account ''a'' ''u'' 5 ''1'' ''p'' ''Alex'', Add_Passkey a_passkey, Add_Session a_session,
     Touch_Session ''h'' 9, Delete_Account ''1'']"

lemma empty_web_opens: "open_web (fresh_disk []) (fresh_disk [True, False]) (fresh_disk []) = Inr (empty_web [True, False])"
  and web_ops_legal: "list_all web_legal web_ops"
  by code_simp+

text \<open>The last operation ends the session, then fails to remove the passkey; the files agree with that.\<close>

theorem web_restart_witness:
  "open_web (accounts_file (web_run web_ops (empty_web [True, False]))) (passkeys_file (web_run web_ops (empty_web [True, False])))
     (sessions_file (web_run web_ops (empty_web [True, False]))) = Inr (web_run web_ops (empty_web [True, False]))"
  by (rule web_restart [OF empty_web_opens web_ops_legal])

lemma web_ops_end:
  "let t = web_run web_ops (empty_web [True, False]) in
   web_sessions t = [] \<and> web_passkeys t = [a_passkey] \<and> map (text_at ''gamertag'') (web_accounts t) = [''Alex'']"
  by code_simp

section \<open>Removing an account\<close>

lemma commit_accounts_result: "commit_accounts es s = (Inr u, t) \<Longrightarrow>
    web_accounts t = es \<and> web_passkeys t = web_passkeys s \<and> web_sessions t = web_sessions s"
  and commit_accounts_error: "commit_accounts es s = (Inl e, t) \<Longrightarrow>
    web_accounts t = web_accounts s \<and> web_passkeys t = web_passkeys s \<and> web_sessions t = web_sessions s"
  by (auto simp: commit_accounts_def split: prod.splits sum.splits)

lemma commit_passkeys_result: "commit_passkeys es s = (Inr u, t) \<Longrightarrow>
    web_passkeys t = es \<and> web_accounts t = web_accounts s \<and> web_sessions t = web_sessions s"
  and commit_passkeys_error: "commit_passkeys es s = (Inl e, t) \<Longrightarrow>
    web_passkeys t = web_passkeys s \<and> web_accounts t = web_accounts s \<and> web_sessions t = web_sessions s"
  by (auto simp: commit_passkeys_def split: prod.splits sum.splits)

lemma commit_sessions_result: "commit_sessions es s = (Inr u, t) \<Longrightarrow>
    web_sessions t = es \<and> web_accounts t = web_accounts s \<and> web_passkeys t = web_passkeys s"
  and commit_sessions_error: "commit_sessions es s = (Inl e, t) \<Longrightarrow>
    web_sessions t = web_sessions s \<and> web_accounts t = web_accounts s \<and> web_passkeys t = web_passkeys s"
  by (auto simp: commit_sessions_def split: prod.splits sum.splits)

lemmas commit_results = commit_accounts_result commit_passkeys_result commit_sessions_result
lemmas commit_errors = commit_accounts_error commit_passkeys_error commit_sessions_error

lemma of_account_eq: "of_account a = (\<lambda>e. text_at ''account'' e = text_at ''id'' a)"
  by (simp add: fun_eq_iff of_account_def)

lemma delete_sessions_result:
  assumes "delete_sessions x s = (Inr removed, t)" "account_for_xuid x s = Some a"
  shows "web_sessions t = filter (\<lambda>e. \<not> of_account a e) (web_sessions s) \<and> web_accounts t = web_accounts s \<and>
    web_passkeys t = web_passkeys s \<and> removed = hashes (filter (of_account a) (web_sessions s))"
proof (cases "hashes (filter (of_account a) (web_sessions s)) = []")
  case True
  then have "filter (\<lambda>e. \<not> of_account a e) (web_sessions s) = web_sessions s"
    by (simp add: hashes_def filter_empty_conv)
  with True assms show ?thesis by (simp add: delete_sessions_def swhen_def)
next
  case False
  with assms show ?thesis
    by (auto simp: delete_sessions_def swhen_def sbind_def split: prod.splits sum.splits dest!: commit_sessions_result)
qed

lemma delete_sessions_error:
  "delete_sessions x s = (Inl e, t) \<Longrightarrow> web_sessions t = web_sessions s \<and> web_accounts t = web_accounts s \<and> web_passkeys t = web_passkeys s"
  by (auto simp: delete_sessions_def swhen_def sbind_def Let_def split: option.splits prod.splits sum.splits if_splits
      dest!: commit_sessions_error)

definition same_memory :: "web_store \<Rightarrow> web_store \<Rightarrow> bool" where
  "same_memory s t \<longleftrightarrow> web_accounts t = web_accounts s \<and> web_passkeys t = web_passkeys s \<and> web_sessions t = web_sessions s"

text \<open>Removing the account of an XUID either reports the hashes of all its sessions and leaves no account, passkey
  or session of it, or fails with nothing changed or with its sessions already ended: nobody stays signed in on
  an account half removed.\<close>

theorem delete_account_is_safe:
  assumes "account_for_xuid x s = Some a"
  shows "case delete_account x s of
      (Inr removed, t) \<Rightarrow> account_for_xuid x t = None \<and> passkeys_of (text_at ''id'' a) t = [] \<and>
        sessions_of (text_at ''id'' a) t = [] \<and> removed = hashes (sessions_of (text_at ''id'' a) s)
    | (Inl e, t) \<Rightarrow> same_memory s t \<or> sessions_of (text_at ''id'' a) t = []"
proof (cases "delete_sessions x s")
  case (Pair r t)
  show ?thesis
  proof (cases r)
    case (Inl e)
    with Pair assms show ?thesis
      using delete_sessions_error [of x s e t]
      by (simp add: delete_account_def sbind_def same_memory_def)
  next
    case (Inr removed)
    note ended = delete_sessions_result [OF Pair [unfolded Inr] assms]
    have "sessions_of (text_at ''id'' a) t = []" "removed = hashes (sessions_of (text_at ''id'' a) s)"
      using ended by (auto simp: sessions_of_def of_account_eq filter_empty_conv)
    then show ?thesis
      using Pair Inr assms
      by (auto simp: delete_account_def sbind_def sessions_of_def passkeys_of_def account_for_xuid_def find_None_iff
          of_account_eq filter_empty_conv split: prod.split sum.split dest!: commit_results commit_errors)
  qed
qed

definition signed_in :: web_store where
  "signed_in = web_run [Ensure_Account ''a'' ''u'' 5 ''1'' ''p'' ''Alex'', Add_Passkey a_passkey, Add_Session a_session]
     (empty_web [True, False])"

definition alex_account :: entry where
  "alex_account = new_account ''a'' ''u'' 5 ''1'' ''p'' ''Alex''"

lemma signed_in_account: "account_for_xuid ''1'' signed_in = Some alex_account"
  by code_simp

theorem delete_account_is_safe_witness:
  "case delete_account ''1'' signed_in of
      (Inr removed, t) \<Rightarrow> account_for_xuid ''1'' t = None \<and> passkeys_of (text_at ''id'' alex_account) t = [] \<and>
        sessions_of (text_at ''id'' alex_account) t = [] \<and> removed = hashes (sessions_of (text_at ''id'' alex_account) signed_in)
    | (Inl e, t) \<Rightarrow> same_memory signed_in t \<or> sessions_of (text_at ''id'' alex_account) t = []"
  by (rule delete_account_is_safe [OF signed_in_account])

end
