(* ===== verification/Link_Codes.thy ===== *)
theory Link_Codes
  imports Effects
begin

text \<open>
  Link codes, \<open>LinkCodes\<close> of \<open>endbotd/web_store.py\<close>: single-use codes in memory, at most one live per XUID, and
  the limit on wrong codes for the whole server. The clock is an argument; so are the codes \<open>secrets\<close> draws, in
  order. The callback \<open>on_closed\<close> is the flag a redemption returns.
\<close>

definition code_alphabet :: string where
  "code_alphabet = ''0123456789ABCDEFGHJKMNPQRSTVWXYZ''"

definition code_symbols :: nat where
  "code_symbols = 6"

definition code_seconds :: rat where
  "code_seconds = 300"

definition wrong_code_limit :: nat where
  "wrong_code_limit = 10"

definition wrong_code_window :: rat where
  "wrong_code_window = 600"

record link_identity =
  link_xuid :: string
  link_player :: string
  link_gamertag :: string

record link_codes =
  live_codes :: "(string, link_identity \<times> rat) dict"
  wrong_codes :: "rat list"
  closed_until :: rat

definition no_codes :: link_codes where
  "no_codes = \<lparr>live_codes = [], wrong_codes = [], closed_until = 0\<rparr>"

definition purge_codes :: "rat \<Rightarrow> link_codes \<Rightarrow> link_codes" where
  "purge_codes now s = s\<lparr>live_codes := filter (\<lambda>(c, i, till). till > now) (live_codes s),
     wrong_codes := filter (\<lambda>t. t > now - wrong_code_window) (wrong_codes s)\<rparr>"

definition without_xuids :: "string list \<Rightarrow> (string, link_identity \<times> rat) dict \<Rightarrow> (string, link_identity \<times> rat) dict" where
  "without_xuids xs d = filter (\<lambda>(c, i, till). link_xuid i \<notin> set xs) d"

text \<open>The first code drawn that is not in use; \<open>None\<close> when all the given draws are.\<close>

definition issue_code :: "link_identity \<Rightarrow> rat \<Rightarrow> string list \<Rightarrow> link_codes \<Rightarrow> string option \<times> link_codes" where
  "issue_code i now draws s =
     (let t = purge_codes now s; d = without_xuids [link_xuid i] (live_codes t) in
      case find (\<lambda>c. c \<notin> set (keys d)) draws of
        None \<Rightarrow> (None, t\<lparr>live_codes := d\<rparr>)
      | Some c \<Rightarrow> (Some (take 3 c @ ''-'' @ drop 3 c), t\<lparr>live_codes := dict_set c (i, now + code_seconds) d\<rparr>))"

definition upper_char :: "char \<Rightarrow> char" where
  "upper_char c = (if 97 \<le> code c \<and> code c \<le> 122 then char_of (code c - 32) else c)"

definition code_reading :: "char \<Rightarrow> char" where
  "code_reading c = (if c = CHR ''O'' then CHR ''0'' else if c = CHR ''I'' \<or> c = CHR ''L'' then CHR ''1'' else c)"

definition read_code :: "string \<Rightarrow> string" where
  "read_code s = map code_reading (filter (\<lambda>c. c \<noteq> CHR ''-'' \<and> c \<noteq> CHR '' '') (map upper_char (strip s)))"

definition redeem_code :: "string \<Rightarrow> rat \<Rightarrow> link_codes \<Rightarrow> (py_error + link_identity option) \<times> bool \<times> link_codes" where
  "redeem_code text now s =
     (if now < closed_until s then (Inl LinkCodeEntryClosed, False, s)
      else (let t = purge_codes now s; c = read_code text in
        case map_of (live_codes t) c of
          Some (i, till) \<Rightarrow> (Inr (Some i), False, t\<lparr>live_codes := dict_pop c (live_codes t)\<rparr>)
        | None \<Rightarrow>
            (let w = wrong_codes t @ [now] in
             if length w \<ge> wrong_code_limit
             then (Inr None, True, t\<lparr>wrong_codes := [], closed_until := now + wrong_code_window\<rparr>)
             else (Inr None, False, t\<lparr>wrong_codes := w\<rparr>))))"

definition live_identities :: "rat \<Rightarrow> link_codes \<Rightarrow> link_identity list \<times> link_codes" where
  "live_identities now s = (let t = purge_codes now s in (map (\<lambda>(c, i, till). i) (live_codes t), t))"

definition void_codes :: "string list \<Rightarrow> link_codes \<Rightarrow> link_codes" where
  "void_codes xs s = s\<lparr>live_codes := without_xuids xs (live_codes s)\<rparr>"

section \<open>Wrong codes\<close>

datatype code_op = Issue link_identity "string list" | Redeem string | Live | Void "string list"

text \<open>One operation at a moment, with the log of the moments at which a wrong code was answered.\<close>

fun code_step :: "code_op \<times> rat \<Rightarrow> link_codes \<times> rat list \<Rightarrow> link_codes \<times> rat list" where
  "code_step (Issue i draws, now) (s, l) = (snd (issue_code i now draws s), l)"
| "code_step (Redeem text, now) (s, l) = (case redeem_code text now s of
     (r, shut, t) \<Rightarrow> (t, if r = Inr None then l @ [now] else l))"
| "code_step (Live, now) (s, l) = (snd (live_identities now s), l)"
| "code_step (Void xs, now) (s, l) = (void_codes xs s, l)"

definition code_run :: "(code_op \<times> rat) list \<Rightarrow> link_codes \<times> rat list \<Rightarrow> link_codes \<times> rat list" where
  "code_run ops s = fold code_step ops s"

definition in_window :: "rat \<Rightarrow> rat list \<Rightarrow> nat" where
  "in_window t l = length (filter (\<lambda>x. t - wrong_code_window < x \<and> x \<le> t) l)"

text \<open>
  What every moment of a run keeps: the attempts still counted are those of the last window since the entry was
  last closed, there are fewer than the limit, and no window of the log holds more than the limit.
\<close>

definition counted :: "rat \<Rightarrow> link_codes \<Rightarrow> rat list \<Rightarrow> rat list" where
  "counted now s l = filter (\<lambda>x. now - wrong_code_window < x \<and> closed_until s - wrong_code_window < x) l"

definition codes_inv :: "rat \<Rightarrow> link_codes \<times> rat list \<Rightarrow> bool" where
  "codes_inv now sl = (case sl of (s, l) \<Rightarrow>
     (\<forall>x\<in>set l. x \<le> now) \<and> length (wrong_codes s) < wrong_code_limit \<and>
     counted now s l = filter (\<lambda>x. now - wrong_code_window < x) (wrong_codes s) \<and>
     (\<forall>t. in_window t l \<le> wrong_code_limit))"

lemma codes_inv_later:
  assumes "codes_inv now (s, l)" "now \<le> now'"
  shows "codes_inv now' (s, l)"
proof -
  have eq: "filter (\<lambda>x. now' - wrong_code_window < x) (filter (\<lambda>x. now - wrong_code_window < x \<and> P x) xs) =
      filter (\<lambda>x. now' - wrong_code_window < x \<and> P x) xs" for P xs
    using assms(2) by (auto intro!: filter_cong)
  have "filter (\<lambda>x. now' - wrong_code_window < x) (counted now s l) =
      filter (\<lambda>x. now' - wrong_code_window < x) (filter (\<lambda>x. now - wrong_code_window < x) (wrong_codes s))"
    using assms(1) by (simp only: codes_inv_def prod.case)
  then have "counted now' s l = filter (\<lambda>x. now' - wrong_code_window < x) (wrong_codes s)"
    using eq [of "\<lambda>x. closed_until s - wrong_code_window < x" l] eq [of "\<lambda>x. True" "wrong_codes s"] by (simp add: counted_def)
  then show ?thesis
    using assms by (force simp: codes_inv_def)
qed

lemma codes_inv_purge: "codes_inv now (s, l) \<Longrightarrow> codes_inv now (purge_codes now s, l)"
  by (auto simp: codes_inv_def purge_codes_def counted_def intro: le_less_trans [OF length_filter_le])

lemma codes_inv_same: "codes_inv now (s, l) \<Longrightarrow> codes_inv now (s\<lparr>live_codes := d\<rparr>, l)"
  by (simp add: codes_inv_def counted_def)

lemma codes_inv_wrong:
  assumes inv: "codes_inv now (s, l)" and p: "wrong_codes s = filter (\<lambda>x. now - wrong_code_window < x) (wrong_codes s)"
    and o: "closed_until s \<le> now"
  shows "codes_inv now (if length (wrong_codes s @ [now]) \<ge> wrong_code_limit
      then s\<lparr>wrong_codes := [], closed_until := now + wrong_code_window\<rparr>
      else s\<lparr>wrong_codes := wrong_codes s @ [now]\<rparr>, l @ [now])"
proof -
  have recent: "counted now s l = filter (\<lambda>x. now - wrong_code_window < x) l"
    using o by (auto simp: counted_def intro!: filter_cong)
  have few: "length (filter (\<lambda>x. now - wrong_code_window < x) l) < wrong_code_limit"
    using inv p recent by (simp add: codes_inv_def)
  have "in_window t (l @ [now]) \<le> wrong_code_limit" for t
  proof (cases "now \<le> t")
    case True
    have "length (filter (\<lambda>x. t - wrong_code_window < x \<and> x \<le> t) l) \<le> length (filter (\<lambda>x. now - wrong_code_window < x) l)"
      using True by (auto simp: length_filter_conv_card intro!: card_mono)
    with few show ?thesis by (simp add: in_window_def)
  next
    case False
    then show ?thesis using inv by (simp add: codes_inv_def in_window_def)
  qed
  moreover have "0 < wrong_code_limit" "0 < wrong_code_window" by (simp_all add: wrong_code_limit_def wrong_code_window_def)
  ultimately show ?thesis
    using inv p o recent by (auto simp: codes_inv_def counted_def filter_empty_conv not_less)
qed

lemma codes_inv_step:
  assumes "codes_inv now (s, l)" "now \<le> now'"
  shows "codes_inv now' (code_step (op, now') (s, l))"
proof -
  note inv = codes_inv_later [OF assms]
  note purged = codes_inv_purge [OF inv]
  show ?thesis
  proof (cases op)
    case (Issue i draws)
    then show ?thesis
      using purged by (auto simp: issue_code_def Let_def codes_inv_same split: option.split)
  next
    case (Redeem typed)
    show ?thesis
    proof (cases "now' < closed_until s")
      case True
      then show ?thesis using inv Redeem by (simp add: redeem_code_def)
    next
      case False
      have "wrong_codes (purge_codes now' s) = filter (\<lambda>x. now' - wrong_code_window < x) (wrong_codes (purge_codes now' s))"
        by (simp add: purge_codes_def)
      moreover have "closed_until (purge_codes now' s) \<le> now'" using False by (simp add: purge_codes_def)
      ultimately show ?thesis
        using codes_inv_wrong [OF purged] codes_inv_same [OF purged] False Redeem
        by (auto simp: redeem_code_def Let_def split: option.split if_splits)
    qed
  next
    case Live
    then show ?thesis using purged by (simp add: live_identities_def Let_def)
  next
    case (Void xs)
    then show ?thesis using inv by (simp add: void_codes_def codes_inv_same)
  qed
qed

text \<open>C19: Whatever codes are issued, redeemed and voided, at moments that never go back, at most ten wrong codes
  are answered in any ten minutes of the whole run.\<close>

theorem wrong_codes_bounded:
  assumes "sorted (map snd ops)"
  shows "in_window t (snd (code_run ops (no_codes, []))) \<le> wrong_code_limit"
proof -
  have run: "\<exists>now'. codes_inv now' (fold code_step ops sl)"
    if "sorted (now # map snd ops)" "codes_inv now sl" for now ops sl
    using that
  proof (induction ops arbitrary: now sl)
    case (Cons x ops)
    obtain op now' where x: "x = (op, now')" by force
    obtain s l where "sl = (s, l)" by force
    with Cons.prems codes_inv_step [of now s l now' op] x have "codes_inv now' (code_step x sl)" by simp
    moreover have "sorted (now' # map snd ops)" using Cons.prems(1) x by simp
    ultimately show ?case using Cons.IH [of now' "code_step x sl"] by simp
  qed auto
  have "codes_inv now (no_codes, [])" for now
    by (simp add: codes_inv_def no_codes_def counted_def in_window_def wrong_code_limit_def)
  moreover have "\<exists>now. sorted (now # map snd ops)"
    using assms by (cases ops) auto
  ultimately obtain now' where "codes_inv now' (fold code_step ops (no_codes, []))"
    using run by blast
  then show ?thesis by (auto simp: codes_inv_def code_run_def split: prod.splits)
qed

lemma three_attempts: "sorted (map snd [(Redeem ''x'', 0), (Issue \<lparr>link_xuid = ''1'', link_player = ''p'', link_gamertag = ''Alex''\<rparr> [''K7Q4M2''], 1),
    (Redeem ''y'', 2), (Redeem ''k7q-4m2'', 2::rat)])"
  by simp

theorem wrong_codes_bounded_witness:
  "in_window 2 (snd (code_run [(Redeem ''x'', 0), (Issue \<lparr>link_xuid = ''1'', link_player = ''p'', link_gamertag = ''Alex''\<rparr> [''K7Q4M2''], 1),
    (Redeem ''y'', 2), (Redeem ''k7q-4m2'', 2)] (no_codes, []))) \<le> wrong_code_limit"
  by (rule wrong_codes_bounded [OF three_attempts])

section \<open>A code is read back, once\<close>

definition plain_symbol :: "char \<Rightarrow> bool" where
  "plain_symbol c \<longleftrightarrow> upper_char c = c \<and> code_reading c = c \<and> \<not> is_space c \<and> c \<noteq> CHR ''-'' \<and> c \<noteq> CHR '' ''"

definition drawn :: "string \<Rightarrow> bool" where
  "drawn c \<longleftrightarrow> length c = code_symbols \<and> list_all (\<lambda>x. x \<in> set code_alphabet) c"

lemma alphabet_plain: "list_all plain_symbol code_alphabet"
  by code_simp

lemma drawn_plain: "drawn c \<Longrightarrow> list_all plain_symbol c"
  using alphabet_plain by (auto simp: drawn_def list_all_iff)

lemma strip_plain: "list_all (\<lambda>c. \<not> is_space c) s \<Longrightarrow> strip s = s"
proof -
  assume s: "list_all (\<lambda>c. \<not> is_space c) s"
  have "dropWhile is_space t = t" if "list_all (\<lambda>c. \<not> is_space c) t" for t
    using that by (cases t) simp_all
  with s show ?thesis by (simp add: strip_def strip_by_def list_all_rev)
qed

lemma read_plain: "list_all plain_symbol c \<Longrightarrow> list_all plain_symbol d \<Longrightarrow> read_code (c @ ''-'' @ d) = c @ d"
proof -
  assume c: "list_all plain_symbol c" and d: "list_all plain_symbol d"
  have dash: "upper_char (CHR ''-'') = CHR ''-''" "\<not> is_space (CHR ''-'')" by code_simp+
  have "strip (c @ ''-'' @ d) = c @ ''-'' @ d"
    using c d dash by (intro strip_plain) (auto simp: list_all_iff plain_symbol_def)
  moreover have "map upper_char (c @ ''-'' @ d) = c @ ''-'' @ d"
    using c d dash by (auto simp: list_all_iff plain_symbol_def intro!: map_idI)
  moreover have "filter (\<lambda>x. x \<noteq> CHR ''-'' \<and> x \<noteq> CHR '' '') (c @ ''-'' @ d) = c @ d"
    using c d by (auto simp: list_all_iff plain_symbol_def filter_id_conv)
  moreover have "map code_reading (c @ d) = c @ d"
    using c d by (auto simp: list_all_iff plain_symbol_def intro!: map_idI)
  ultimately show ?thesis by (simp only: read_code_def)
qed

lemma read_shown:
  assumes "drawn c"
  shows "read_code (take 3 c @ ''-'' @ drop 3 c) = c"
proof -
  have "list_all plain_symbol (take 3 c)" "list_all plain_symbol (drop 3 c)"
    using drawn_plain [OF assms] by (auto simp: list_all_iff dest: in_set_takeD in_set_dropD)
  then show ?thesis by (simp only: read_plain append_take_drop_id)
qed

lemma no_key: "c \<notin> set (keys d) \<Longrightarrow> map_of (filter P d) c = None"
  by (auto simp: map_of_eq_None_iff)

text \<open>A code just issued is accepted as it is shown, within its five minutes and while entry is open, for the player
  it was issued to, and never again afterwards.\<close>

theorem issued_code_works_once:
  assumes "issue_code i now draws s = (Some shown, t)" "list_all drawn draws"
    and "now' < now + code_seconds" "closed_until s \<le> now'"
  shows "\<exists>u. redeem_code shown now' t = (Inr (Some i), False, u) \<and> (\<forall>j now''. fst (redeem_code shown now'' u) \<noteq> Inr (Some j))"
proof -
  let ?d = "without_xuids [link_xuid i] (live_codes (purge_codes now s))"
  obtain c where c: "find (\<lambda>c. c \<notin> set (keys ?d)) draws = Some c" and shown: "shown = take 3 c @ ''-'' @ drop 3 c"
    and t: "t = (purge_codes now s)\<lparr>live_codes := dict_set c (i, now + code_seconds) ?d\<rparr>"
    using assms(1) by (auto simp: issue_code_def Let_def split: option.splits)
  have "drawn c" using c assms(2) by (auto simp: find_Some_iff list_all_length)
  then have read: "read_code shown = c" using shown by (simp only: read_shown)
  have new: "c \<notin> set (keys ?d)" using c by (auto simp: find_Some_iff)
  let ?u = "(purge_codes now' t)\<lparr>live_codes := dict_pop c (live_codes (purge_codes now' t))\<rparr>"
  have live: "live_codes t = ?d @ [(c, i, now + code_seconds)]" using t dict_set_fresh [OF new] by simp
  have "map_of (live_codes (purge_codes now' t)) c = Some (i, now + code_seconds)"
    using no_key [OF new, of "\<lambda>(c, i, till). till > now'"] assms(3) live by (simp add: purge_codes_def map_add_def)
  moreover have "\<not> now' < closed_until t" using assms(4) t by (simp add: purge_codes_def)
  ultimately have "redeem_code shown now' t = (Inr (Some i), False, ?u)"
    by (simp add: redeem_code_def Let_def read)
  moreover have "map_of (live_codes (purge_codes now'' ?u)) c = None" for now''
  proof -
    have "map_of (live_codes ?u) c = None" by simp
    then have "c \<notin> set (keys (live_codes ?u))" by (simp only: map_of_eq_None_iff set_map simp_thms)
    from no_key [OF this, of "\<lambda>(c, i, till). till > now''"] show ?thesis by (simp add: purge_codes_def)
  qed
  then have "fst (redeem_code shown now'' ?u) \<noteq> Inr (Some j)" for j now''
    by (simp add: redeem_code_def Let_def read)
  ultimately show ?thesis by blast
qed

definition alex_link :: link_identity where
  "alex_link = \<lparr>link_xuid = ''1'', link_player = ''p'', link_gamertag = ''Alex''\<rparr>"

lemma alex_issued: "issue_code alex_link 0 [''K7Q4M2''] no_codes = (Some ''K7Q-4M2'', snd (issue_code alex_link 0 [''K7Q4M2''] no_codes))"
  and alex_drawn: "list_all drawn [''K7Q4M2'']"
  by code_simp+

theorem issued_code_works_once_witness:
  "\<exists>u. redeem_code ''K7Q-4M2'' 299 (snd (issue_code alex_link 0 [''K7Q4M2''] no_codes)) = (Inr (Some alex_link), False, u) \<and>
    (\<forall>j now''. fst (redeem_code ''K7Q-4M2'' now'' u) \<noteq> Inr (Some j))"
  by (rule issued_code_works_once [OF alex_issued alex_drawn]) (simp_all add: code_seconds_def no_codes_def)

end
