(* ===== verification/Enrollment.thy ===== *)
theory Enrollment
  imports Json_Store
begin

text \<open>
  GamerTag bootstrap enrollment, \<open>endbot_core/enrollment.py\<close>: the bindings file and its
  codec, the class \<open>ControllerEnrollment\<close> as the record \<open>enrollment\<close>, and \<open>authorize\<close>, which
  binds a configured GamerTag to the first authenticated XUID that joins under it.
\<close>

section \<open>Bindings and their file\<close>

record binding =
  gamertag :: string
  xuid :: string
  uuid :: string
  bound_at :: string

definition to_json :: "binding \<Rightarrow> json" where
  "to_json b = JObj [(''gamertag'', JStr (gamertag b)), (''xuid'', JStr (xuid b)),
     (''uuid'', JStr (uuid b)), (''boundAt'', JStr (bound_at b))]"

definition is_xuid :: "string \<Rightarrow> bool" where
  "is_xuid s \<longleftrightarrow> isdecimal s \<and> s \<noteq> ''0''"

fun json_is_xuid :: "json \<Rightarrow> bool" where
  "json_is_xuid (JStr s) = is_xuid s"
| "json_is_xuid _ = False"

text \<open>The loop of \<open>parse_gamertags\<close>: \<open>seen\<close> holds the folded tags already accepted.\<close>

fun parse_tags :: "string list \<Rightarrow> json list \<Rightarrow> py_error + string list" where
  "parse_tags seen [] = Inr []"
| "parse_tags seen (JStr s # vs) =
     (if strip s = [] then Inl (TypeError ''controller gamertags must be non-empty strings'')
      else if casefold (strip s) \<in> set seen then Inl (ValueError ''controller gamertag is listed twice'')
      else ebind (parse_tags (casefold (strip s) # seen) vs) (\<lambda>tags. Inr (strip s # tags)))"
| "parse_tags seen (_ # vs) = Inl (TypeError ''controller gamertags must be non-empty strings'')"

fun parse_gamertags :: "json \<Rightarrow> py_error + string list" where
  "parse_gamertags (JArr vs) = parse_tags [] vs"
| "parse_gamertags _ = Inl (TypeError ''controller gamertags must be an array of strings'')"

text \<open>\<open>str(value)\<close> as the UUID parser sees it: of the values that are no strings only an
  integer can print as hexadecimal digits.\<close>

fun uuid_source :: "json \<Rightarrow> string" where
  "uuid_source (JStr s) = s"
| "uuid_source (JInt i) = show_int i"
| "uuid_source _ = ''''"

definition malformed :: "py_error" where
  "malformed = EnrollmentError ''malformed controller binding''"

fun decode_binding :: "json \<Rightarrow> py_error + binding" where
  "decode_binding (JObj d) =
     (case (map_of d ''gamertag'', map_of d ''xuid'', map_of d ''boundAt'') of
       (Some (JStr g), Some (JStr x), Some (JStr t)) \<Rightarrow>
         (if g = [] \<or> \<not> is_xuid x then Inl malformed
          else (case norm_uuid (uuid_source (case map_of d ''uuid'' of None \<Rightarrow> JNull | Some u \<Rightarrow> u)) of
              Inl e \<Rightarrow> Inl (EnrollmentError ''malformed controller binding UUID'')
            | Inr u \<Rightarrow> Inr \<lparr>gamertag = g, xuid = x, uuid = u, bound_at = t\<rparr>))
     | _ \<Rightarrow> Inl malformed)"
| "decode_binding _ = Inl (EnrollmentError ''every binding must be an object'')"

fun decode_bindings :: "json \<Rightarrow> py_error + binding list" where
  "decode_bindings (JObj d) =
     (if \<not> version_is 1 d then Inl (EnrollmentError ''unsupported controller bindings version'')
      else (case map_of d ''bindings'' of
          Some (JArr es) \<Rightarrow> emap decode_binding es
        | _ \<Rightarrow> Inl (EnrollmentError ''bindings must be an array'')))"
| "decode_bindings _ = Inl (EnrollmentError ''unsupported controller bindings version'')"

definition load_bindings :: "node \<Rightarrow> py_error + binding list" where
  "load_bindings n = (case read_json n of
     Inr None \<Rightarrow> Inr []
   | Inr (Some d) \<Rightarrow> decode_bindings d
   | Inl (ValueError m) \<Rightarrow> Inl (EnrollmentError ''controller bindings are not valid JSON'')
   | Inl e \<Rightarrow> Inl e)"

definition encode_bindings :: "binding list \<Rightarrow> json" where
  "encode_bindings bs = JObj [(''version'', JInt 1), (''bindings'', JArr (map to_json bs))]"

definition write_bindings :: "binding list \<Rightarrow> disk \<Rightarrow> (py_error + unit) \<times> disk" where
  "write_bindings bs k = replace_file (encode_bindings bs) k"

section \<open>The enrollment\<close>

record enrollment =
  gamertags :: "string list"
  bindings_path :: "disk option"
  bound :: "(string, binding) dict"

definition bindings :: "enrollment \<Rightarrow> binding list" where
  "bindings e = map snd (bound e)"

text \<open>\<open>__init__\<close>: only stored bindings whose GamerTag is still configured are honoured.\<close>

definition open_enrollment :: "string list \<Rightarrow> disk option \<Rightarrow> py_error + enrollment" where
  "open_enrollment tags path =
     ebind (case path of None \<Rightarrow> Inr [] | Some k \<Rightarrow> load_bindings (content k)) (\<lambda>stored.
       Inr \<lparr>gamertags = tags, bindings_path = path,
         bound = fold (\<lambda>b. dict_set (casefold (gamertag b)) b)
           (filter (\<lambda>b. casefold (gamertag b) \<in> folded tags) stored) []\<rparr>)"

definition pending_tags :: "enrollment \<Rightarrow> string list" where
  "pending_tags e = filter (\<lambda>t. casefold t \<notin> set (keys (bound e))) (gamertags e)"

text \<open>\<open>authorize(name, xuid, player_uuid)\<close> at time \<open>now\<close>. The bindings reach the file before memory.\<close>

definition authorize_binding ::
    "string \<Rightarrow> string \<Rightarrow> string \<Rightarrow> string \<Rightarrow> enrollment \<Rightarrow> (py_error + bool \<times> binding option) \<times> enrollment" where
  "authorize_binding now name x player_uuid e =
     (if \<not> is_xuid x then (Inr (False, None), e)
      else if list_ex (\<lambda>b. xuid b = x) (bindings e) then (Inr (True, None), e)
      else if casefold name \<in> set (keys (bound e)) \<or> casefold name \<notin> folded (gamertags e)
        then (Inr (False, None), e)
      else (case (bindings_path e, find (\<lambda>t. casefold t = casefold name) (gamertags e)) of
          (Some k, Some tag) \<Rightarrow>
            (case norm_uuid player_uuid of
              Inl er \<Rightarrow> (Inl er, e)
            | Inr u \<Rightarrow>
                (let b = \<lparr>gamertag = tag, xuid = x, uuid = u, bound_at = now\<rparr>;
                     updated = dict_set (casefold name) b (bound e)
                 in (case write_bindings (map snd updated) k of
                      (Inl er, k') \<Rightarrow> (Inl er, e\<lparr>bindings_path := Some k'\<rparr>)
                    | (Inr _, k') \<Rightarrow> (Inr (True, Some b), e\<lparr>bindings_path := Some k', bound := updated\<rparr>))))
        | _ \<Rightarrow> (Inr (False, None), e)))"

section \<open>Well-formed bindings and the codec\<close>

definition wf_binding :: "binding \<Rightarrow> bool" where
  "wf_binding b \<longleftrightarrow> gamertag b \<noteq> [] \<and> is_xuid (xuid b) \<and> canonical (uuid b)"

lemma decode_to_json [codec_simps]: "wf_binding b \<Longrightarrow> decode_binding (to_json b) = Inr b"
  by (simp add: wf_binding_def to_json_def)

lemma decode_binding_wf: "decode_binding j = Inr b \<Longrightarrow> wf_binding b"
  by (cases j) (auto simp: wf_binding_def canonical_norm
    split: option.splits json.splits if_splits sum.splits)

interpretation bindings_codec: json_codec encode_bindings decode_bindings "list_all wf_binding" "\<lambda>bs. bs"
proof
  fix bs :: "binding list"
  assume "list_all wf_binding bs"
  then show "decode_bindings (encode_bindings bs) = Inr bs"
    by (auto simp: encode_bindings_def list_all_iff decode_to_json intro!: emap_inverse)
next
  fix j bs
  assume "decode_bindings j = Inr bs"
  then show "list_all wf_binding bs"
    by (cases j) (auto simp: list_all_iff split: if_splits option.splits json.splits
      dest: emap_InrD decode_binding_wf)
qed simp_all

section \<open>The invariant\<close>

text \<open>Every binding sits under its folded GamerTag, which is a configured one.\<close>

definition enrollment_inv :: "enrollment \<Rightarrow> bool" where
  "enrollment_inv e \<longleftrightarrow> distinct (keys (bound e)) \<and> [] \<notin> set (gamertags e) \<and>
     (\<forall>(k, b) \<in> set (bound e). k = casefold (gamertag b) \<and> k \<in> folded (gamertags e) \<and> wf_binding b)"

lemma enrollment_inv_fold:
  assumes "\<forall>b \<in> set bs. wf_binding b \<and> casefold (gamertag b) \<in> T"
    and "distinct (keys d)" "\<forall>(k, b) \<in> set d. k = casefold (gamertag b) \<and> k \<in> T \<and> wf_binding b"
  shows "distinct (keys (fold (\<lambda>b. dict_set (casefold (gamertag b)) b) bs d)) \<and>
    (\<forall>(k, b) \<in> set (fold (\<lambda>b. dict_set (casefold (gamertag b)) b) bs d).
       k = casefold (gamertag b) \<and> k \<in> T \<and> wf_binding b)"
  using assms
proof (induction bs arbitrary: d)
  case (Cons b bs)
  show ?case unfolding fold.simps comp_def
    by (rule Cons.IH) (use Cons.prems set_dict_set [OF Cons.prems(2)] in \<open>auto simp: distinct_dict_set\<close>)
qed auto

lemma load_bindings_wf: "load_bindings n = Inr bs \<Longrightarrow> list_all wf_binding bs"
  by (auto simp: load_bindings_def bindings_codec.dec_wf split: sum.splits option.splits py_error.splits)

lemma open_enrollment_inv:
  assumes "open_enrollment tags path = Inr e" "[] \<notin> set tags"
  shows "enrollment_inv e"
proof -
  obtain bs where bs: "(case path of None \<Rightarrow> Inr [] | Some k \<Rightarrow> load_bindings (content k)) = Inr bs"
    and e: "e = \<lparr>gamertags = tags, bindings_path = path,
      bound = fold (\<lambda>b. dict_set (casefold (gamertag b)) b) (filter (\<lambda>b. casefold (gamertag b) \<in> folded tags) bs) []\<rparr>"
    using assms(1) unfolding open_enrollment_def ebind_Inr by blast
  from bs have "list_all wf_binding bs" by (auto simp: load_bindings_wf split: option.splits)
  then show ?thesis
    using enrollment_inv_fold [of "filter (\<lambda>b. casefold (gamertag b) \<in> folded tags) bs" "folded tags" "[]"] assms(2)
    by (simp add: e enrollment_inv_def list_all_iff)
qed

lemma parse_tags_spec:
  "parse_tags seen vs = Inr tags \<Longrightarrow>
     [] \<notin> set tags \<and> distinct (map casefold tags) \<and> (\<forall>t \<in> set tags. casefold t \<notin> set seen) \<and> map strip tags = tags"
  by (induction seen vs arbitrary: tags rule: parse_tags.induct) (auto split: if_splits, metis)

text \<open>What a call of \<open>authorize\<close> can do: leave the bindings alone, or add one for a free configured tag.\<close>

lemma authorize_binding_cases:
  assumes "authorize_binding now name x u e = (r, e')"
  obtains (same) "bound e' = bound e" "gamertags e' = gamertags e"
      "r = Inr (True, None) \<Longrightarrow> is_xuid x \<and> x \<in> xuid ` set (bindings e)"
      "\<And>b. r \<noteq> Inr (True, Some b)"
      "map_option content (bindings_path e') = map_option content (bindings_path e)"
  | (new) tag u' k' where "is_xuid x" "x \<notin> xuid ` set (bindings e)"
      "casefold name \<notin> set (keys (bound e))" "tag \<in> set (gamertags e)" "casefold tag = casefold name"
      "norm_uuid u = Inr u'" "r = Inr (True, Some \<lparr>gamertag = tag, xuid = x, uuid = u', bound_at = now\<rparr>)"
      "bound e' = bound e @ [(casefold name, \<lparr>gamertag = tag, xuid = x, uuid = u', bound_at = now\<rparr>)]"
      "gamertags e' = gamertags e" "bindings_path e' = Some k'"
      "content k' = Plain (Some (encode_bindings (bindings e')))"
proof (cases "is_xuid x \<and> \<not> list_ex (\<lambda>b. xuid b = x) (bindings e) \<and> casefold name \<notin> set (keys (bound e)) \<and>
    casefold name \<in> folded (gamertags e)")
  case False
  with assms same show ?thesis by (auto simp: authorize_binding_def list_ex_iff split: if_splits)
next
  case True
  then obtain tag where tag: "find (\<lambda>t. casefold t = casefold name) (gamertags e) = Some tag"
    by (cases "find (\<lambda>t. casefold t = casefold name) (gamertags e)") (auto simp: find_None_iff folded_def)
  note tagD = find_SomeD [OF this]
  show ?thesis
  proof (cases "bindings_path e")
    case None
    with True assms same show ?thesis by (auto simp: authorize_binding_def)
  next
    case (Some k)
    show ?thesis
    proof (cases "norm_uuid u")
      case (Inl er)
      with Some True tag assms same show ?thesis by (auto simp: authorize_binding_def)
    next
      case (Inr u')
      let ?b = "\<lparr>gamertag = tag, xuid = x, uuid = u', bound_at = now\<rparr>"
      have upd: "dict_set (casefold name) ?b (bound e) = bound e @ [(casefold name, ?b)]"
        using True by (simp add: dict_set_fresh)
      obtain w k' where w: "write_bindings (map snd (bound e @ [(casefold name, ?b)])) k = (w, k')"
        by fastforce
      show ?thesis
      proof (cases w)
        case (Inl er)
        have c: "content k' = content k"
          using w Inl by (auto simp: write_bindings_def dest: replace_file_InlD)
        have "e' = e\<lparr>bindings_path := Some k'\<rparr>" "r = Inl er"
          using assms True Some \<open>norm_uuid u = Inr u'\<close> tag w Inl upd
          by (auto simp: authorize_binding_def Let_def)
        with c Some show ?thesis by (intro same) auto
      next
        case (Inr q)
        have c: "content k' = Plain (Some (encode_bindings (map snd (bound e @ [(casefold name, ?b)]))))"
          using w Inr by (auto simp: write_bindings_def dest: replace_file_InrD)
        have "e' = e\<lparr>bindings_path := Some k', bound := bound e @ [(casefold name, ?b)]\<rparr>"
            "r = Inr (True, Some ?b)"
          using assms True Some \<open>norm_uuid u = Inr u'\<close> tag w Inr upd
          by (auto simp: authorize_binding_def Let_def)
        with c True tagD \<open>norm_uuid u = Inr u'\<close> show ?thesis
          by (intro new [of tag u' k']) (auto simp: bindings_def list_ex_iff)
      qed
    qed
  qed
qed

lemma authorize_binding_inv:
  assumes "enrollment_inv e" "authorize_binding now name x u e = (r, e')"
  shows "enrollment_inv e'"
  using assms(2)
proof (cases rule: authorize_binding_cases)
  case same
  with assms(1) show ?thesis by (simp add: enrollment_inv_def)
next
  case (new tag u' k')
  have "tag \<noteq> []" using new(4) assms(1) by (auto simp: enrollment_inv_def)
  moreover have "casefold name \<in> casefold ` set (gamertags e)" using new(4,5) by (metis imageI)
  moreover note new assms(1)
  ultimately show ?thesis
    by (auto simp: enrollment_inv_def wf_binding_def canonical_norm folded_def)
qed

end
