(* ===== verification/Controller_Policy.thy ===== *)
theory Controller_Policy
  imports Enrollment
begin

text \<open>
  The console-managed grants and revocations, \<open>endbot_core/controller_policy.py\<close>: the
  record \<open>policy\<close> with its JSON codec, and the class \<open>ControllerPolicy\<close> as the record
  \<open>policy_store\<close> with the operations \<open>add\<close>, \<open>enroll\<close> and \<open>remove\<close>. Every operation
  replaces the file before it changes memory. Sets of text are lists without duplicates.
\<close>

section \<open>The policy and its document\<close>

record policy =
  grants_of :: "binding list"
  pending :: "string list"
  denied_names :: "string list"
  denied_xuids :: "string list"
  denied_uuids :: "string list"

definition empty_policy :: policy where
  "empty_policy = \<lparr>grants_of = [], pending = [], denied_names = [], denied_xuids = [], denied_uuids = []\<rparr>"

definition controller_name :: "string \<Rightarrow> py_error + string" where
  "controller_name v =
     (if strip v = [] \<or> \<not> isprintable v
      then Inl (ValueError ''Controller GamerTag must be non-empty printable text'') else Inr (strip v))"

fun json_controller_name :: "json \<Rightarrow> py_error + string" where
  "json_controller_name (JStr s) = controller_name s"
| "json_controller_name _ = Inl (ValueError ''Controller GamerTag must be non-empty printable text'')"

fun json_text :: "json \<Rightarrow> py_error + string" where
  "json_text (JStr s) = Inr s"
| "json_text _ = Inl (ValueError ''Controller policy field must be an array of strings'')"

definition strings_of :: "(string, json) dict \<Rightarrow> string \<Rightarrow> py_error + string list" where
  "strings_of d key = (case dict_get d key (JArr []) of
     JArr vs \<Rightarrow> emap json_text vs
   | _ \<Rightarrow> Inl (ValueError ''Controller policy field must be an array of strings''))"

definition grant_fields :: "string list" where
  "grant_fields = [''gamertag'', ''xuid'', ''uuid'', ''boundAt'']"

fun decode_grant :: "json \<Rightarrow> py_error + binding" where
  "decode_grant (JObj d) =
     (if set (keys d) \<noteq> set grant_fields then Inl (ValueError ''Malformed controller policy grant'')
      else (case (dict_get d ''xuid'' JNull, dict_get d ''boundAt'' JNull) of
          (JStr x, JStr t) \<Rightarrow>
            (if \<not> is_xuid x then Inl (ValueError ''Malformed controller policy identity'')
             else ebind (json_controller_name (dict_get d ''gamertag'' JNull)) (\<lambda>g.
               ebind (json_uuid (dict_get d ''uuid'' JNull)) (\<lambda>u.
                 Inr \<lparr>gamertag = g, xuid = x, uuid = u, bound_at = t\<rparr>)))
        | _ \<Rightarrow> Inl (ValueError ''Malformed controller policy identity'')))"
| "decode_grant _ = Inl (ValueError ''Malformed controller policy grant'')"

definition policy_fields :: "string list" where
  "policy_fields = [''version'', ''grants'', ''pending'', ''deniedNames'', ''deniedXuids'', ''deniedUuids'']"

fun decode_policy :: "json \<Rightarrow> py_error + policy" where
  "decode_policy (JObj d) =
     (if \<not> version_is 1 d then Inl (ValueError ''Unsupported controller policy version'')
      else if \<not> only_keys policy_fields d then Inl (ValueError ''Unknown controller policy field'')
      else (case dict_get d ''grants'' (JArr []) of
          JArr gs \<Rightarrow>
            ebind (emap decode_grant gs) (\<lambda>bs.
              if \<not> distinct (map xuid bs) then Inl (ValueError ''Duplicate controller policy XUID'')
              else ebind (ebind (strings_of d ''pending'') (emap controller_name)) (\<lambda>ps.
                ebind (ebind (strings_of d ''deniedNames'') (emap controller_name)) (\<lambda>dn.
                  ebind (strings_of d ''deniedXuids'') (\<lambda>dx.
                    if \<not> list_all is_xuid dx then Inl (ValueError ''Invalid revoked controller XUID'')
                    else ebind (ebind (strings_of d ''deniedUuids'') (emap norm_uuid)) (\<lambda>du.
                      Inr \<lparr>grants_of = bs, pending = ps, denied_names = dn, denied_xuids = dx, denied_uuids = du\<rparr>)))))
        | _ \<Rightarrow> Inl (TypeError ''Controller policy grants must be an array'')))"
| "decode_policy _ = Inl (ValueError ''Unsupported controller policy version'')"

definition encode_policy :: "policy \<Rightarrow> json" where
  "encode_policy p = JObj
     [(''version'', JInt 1),
      (''grants'', JArr (map to_json (grants_of p))),
      (''pending'', JArr (map JStr (pending p))),
      (''deniedNames'', JArr (map JStr (denied_names p))),
      (''deniedXuids'', JArr (map JStr (denied_xuids p))),
      (''deniedUuids'', JArr (map JStr (denied_uuids p)))]"

definition load_policy :: "node \<Rightarrow> py_error + policy" where
  "load_policy n = ebind (read_regular ''Controller policy must be a regular file'' n) (\<lambda>d.
     case d of None \<Rightarrow> Inr empty_policy | Some j \<Rightarrow> decode_policy j)"

section \<open>The store\<close>

record policy_store =
  policy_file :: disk
  state :: policy

definition open_policy :: "disk \<Rightarrow> py_error + policy_store" where
  "open_policy k = ebind (load_policy (content k)) (\<lambda>p. Inr \<lparr>policy_file = k, state = p\<rparr>)"

definition save_policy :: "policy \<Rightarrow> policy_store \<Rightarrow> (py_error + unit) \<times> policy_store" where
  "save_policy p s = (case save_doc ''Controller policy must not be a symlink'' (encode_policy p) (policy_file s) of
     (Inl e, k) \<Rightarrow> (Inl e, s\<lparr>policy_file := k\<rparr>)
   | (Inr _, k) \<Rightarrow> (Inr (), s\<lparr>policy_file := k, state := p\<rparr>))"

text \<open>\<open>denied\<close> normalises the UUID only when the XUID alone does not decide.\<close>

definition denied :: "policy \<Rightarrow> string \<Rightarrow> string \<Rightarrow> py_error + bool" where
  "denied p x u = (if x \<in> set (denied_xuids p) then Inr True
     else ebind (norm_uuid u) (\<lambda>i. Inr (i \<in> set (denied_uuids p))))"

definition name_denied :: "policy \<Rightarrow> string \<Rightarrow> bool" where
  "name_denied p name \<longleftrightarrow> casefold name \<in> folded (denied_names p)"

text \<open>\<open>any(binding.xuid == xuid and not self.denied(...) for binding in grants)\<close>.\<close>

fun any_grant :: "policy \<Rightarrow> string \<Rightarrow> binding list \<Rightarrow> py_error + bool" where
  "any_grant p x [] = Inr False"
| "any_grant p x (b # bs) =
     (if xuid b = x
      then ebind (denied p (xuid b) (uuid b)) (\<lambda>d. if \<not> d then Inr True else any_grant p x bs)
      else any_grant p x bs)"

definition grants :: "policy \<Rightarrow> string \<Rightarrow> py_error + bool" where
  "grants p x = (if is_xuid x then any_grant p x (grants_of p) else Inr False)"

definition without_name :: "string \<Rightarrow> string list \<Rightarrow> string list" where
  "without_name name names = filter (\<lambda>v. casefold v \<noteq> casefold name) names"

text \<open>\<open>add\<close> with an identity: the grant replaces any of the same XUID, and every mark
  against this name, XUID and UUID goes.\<close>

definition granted_policy :: "string \<Rightarrow> string \<Rightarrow> string \<Rightarrow> string \<Rightarrow> policy \<Rightarrow> policy" where
  "granted_policy now name x identity p = p\<lparr>
     grants_of := filter (\<lambda>b. xuid b \<noteq> x) (grants_of p) @
       [\<lparr>gamertag = name, xuid = x, uuid = identity, bound_at = now\<rparr>],
     pending := without_name name (pending p),
     denied_names := without_name name (denied_names p),
     denied_xuids := filter (\<lambda>v. v \<noteq> x) (denied_xuids p),
     denied_uuids := filter (\<lambda>v. v \<noteq> identity) (denied_uuids p)\<rparr>"

definition is_selector :: "string \<Rightarrow> bool" where
  "is_selector name \<longleftrightarrow> starts_with ''xuid:'' (casefold name) \<or> starts_with ''uuid:'' (casefold name)"

definition add_identity ::
    "string \<Rightarrow> string \<Rightarrow> string \<Rightarrow> string option \<Rightarrow> policy_store \<Rightarrow> (py_error + unit) \<times> policy_store" where
  "add_identity now raw x player_uuid s = (case controller_name raw of
     Inl e \<Rightarrow> (Inl e, s)
   | Inr name \<Rightarrow>
       (if is_selector name then (Inl (ValueError ''Add a GamerTag; identity selectors are for removal only''), s)
        else (case player_uuid of
          None \<Rightarrow> (Inl (ValueError ''Only normally authenticated players with an XUID can become controllers''), s)
        | Some u \<Rightarrow>
            (if \<not> is_xuid x
             then (Inl (ValueError ''Only normally authenticated players with an XUID can become controllers''), s)
             else (case norm_uuid u of
                 Inl e \<Rightarrow> (Inl e, s)
               | Inr identity \<Rightarrow> save_policy (granted_policy now name x identity (state s)) s)))))"

text \<open>\<open>add(name)\<close> with no identity: a name that a grant knows is granted again as that account.\<close>

definition add_name :: "string \<Rightarrow> string \<Rightarrow> policy_store \<Rightarrow> (py_error + unit) \<times> policy_store" where
  "add_name now raw s = (case controller_name raw of
     Inl e \<Rightarrow> (Inl e, s)
   | Inr name \<Rightarrow>
       (if is_selector name then (Inl (ValueError ''Add a GamerTag; identity selectors are for removal only''), s)
        else (case find (\<lambda>b. casefold (gamertag b) = casefold name) (grants_of (state s)) of
          Some b \<Rightarrow> add_identity now name (xuid b) (Some (uuid b)) s
        | None \<Rightarrow> save_policy ((state s)\<lparr>
            pending := without_name name (pending (state s)) @ [name],
            denied_names := without_name name (denied_names (state s))\<rparr>) s)))"

definition enroll ::
    "string \<Rightarrow> string \<Rightarrow> string \<Rightarrow> string \<Rightarrow> policy_store \<Rightarrow> (py_error + bool) \<times> policy_store" where
  "enroll now name x player_uuid s =
     (if \<not> is_xuid x \<or> casefold name \<notin> folded (pending (state s)) then (Inr False, s)
      else (case denied (state s) x player_uuid of
          Inl e \<Rightarrow> (Inl e, s)
        | Inr True \<Rightarrow> (Inr False, s)
        | Inr False \<Rightarrow> (case add_identity now name x (Some player_uuid) s of
              (Inl e, s') \<Rightarrow> (Inl e, s')
            | (Inr _, s') \<Rightarrow> (Inr True, s'))))"

section \<open>Removal\<close>

record closure =
  c_names :: "string list"
  c_xuids :: "string list"
  c_uuids :: "string list"

definition matches :: "closure \<Rightarrow> binding \<Rightarrow> bool" where
  "matches c b \<longleftrightarrow> casefold (gamertag b) \<in> set (c_names c) \<or> xuid b \<in> set (c_xuids c) \<or> uuid b \<in> set (c_uuids c)"

definition absorb :: "binding \<Rightarrow> closure \<Rightarrow> closure" where
  "absorb b c = (if matches c b
     then \<lparr>c_names = List.insert (casefold (gamertag b)) (c_names c),
           c_xuids = List.insert (xuid b) (c_xuids c), c_uuids = List.insert (uuid b) (c_uuids c)\<rparr>
     else c)"

text \<open>\<open>for _ in range(2): for entry in bindings: ...\<close>\<close>

definition closure_of :: "binding list \<Rightarrow> closure \<Rightarrow> closure" where
  "closure_of bs c = fold absorb bs (fold absorb bs c)"

text \<open>The name or selector, and the identity of the player when one is online under it.\<close>

definition selector :: "string \<Rightarrow> py_error + closure" where
  "selector target =
     (if starts_with ''xuid:'' (casefold target)
      then (if is_xuid (drop 5 target) then Inr \<lparr>c_names = [], c_xuids = [drop 5 target], c_uuids = []\<rparr>
            else Inl (ValueError ''Invalid XUID selector''))
      else if starts_with ''uuid:'' (casefold target)
      then ebind (norm_uuid (drop 5 target)) (\<lambda>u. Inr \<lparr>c_names = [], c_xuids = [], c_uuids = [u]\<rparr>)
      else Inr \<lparr>c_names = [casefold target], c_xuids = [], c_uuids = []\<rparr>)"

definition with_player :: "(string \<times> string option) option \<Rightarrow> closure \<Rightarrow> py_error + closure" where
  "with_player player c = (case player of
     None \<Rightarrow> Inr c
   | Some (x, u) \<Rightarrow> (case (is_xuid x, u) of
        (True, Some u') \<Rightarrow> ebind (norm_uuid u') (\<lambda>i.
          Inr (c\<lparr>c_xuids := List.insert x (c_xuids c), c_uuids := List.insert i (c_uuids c)\<rparr>))
      | _ \<Rightarrow> Inl (ValueError ''Local Bots cannot be controller targets'')))"

definition merged :: "string list \<Rightarrow> string list \<Rightarrow> string list" where
  "merged a b = sort (remdups (a @ b))"

definition revoked_policy :: "closure \<Rightarrow> policy \<Rightarrow> policy" where
  "revoked_policy c p = p\<lparr>
     pending := filter (\<lambda>v. casefold v \<notin> set (c_names c)) (pending p),
     denied_names := merged (denied_names p) (c_names c),
     denied_xuids := merged (denied_xuids p) (c_xuids c),
     denied_uuids := merged (denied_uuids p) (c_uuids c)\<rparr>"

definition removal_closure ::
    "string \<Rightarrow> binding list \<Rightarrow> (string \<times> string option) option \<Rightarrow> policy \<Rightarrow> py_error + closure" where
  "removal_closure target known player p =
     ebind (selector target) (\<lambda>c0. ebind (with_player player c0) (\<lambda>c1.
       Inr (closure_of (known @ grants_of p) c1)))"

definition remove ::
    "string \<Rightarrow> binding list \<Rightarrow> string list \<Rightarrow> (string \<times> string option) option \<Rightarrow> policy_store \<Rightarrow>
      (py_error + unit) \<times> policy_store" where
  "remove raw known configured player s =
     (case controller_name raw of
       Inl e \<Rightarrow> (Inl e, s)
     | Inr target \<Rightarrow>
        (case removal_closure target known player (state s) of
          Inl e \<Rightarrow> (Inl e, s)
        | Inr c \<Rightarrow>
           (if c_xuids c = [] \<and> c_uuids c = [] \<and>
               casefold target \<notin> folded (configured @ pending (state s) @ denied_names (state s))
            then (Inl (ValueError ''Unknown offline controller; use its bound GamerTag, xuid:<id>, or uuid:<id>''), s)
            else save_policy (revoked_policy c (state s)) s)))"

section \<open>Well-formed policies and the codec\<close>

definition valid_name :: "string \<Rightarrow> bool" where
  "valid_name v \<longleftrightarrow> controller_name v = Inr v"

definition wf_grant :: "binding \<Rightarrow> bool" where
  "wf_grant b \<longleftrightarrow> valid_name (gamertag b) \<and> is_xuid (xuid b) \<and> canonical (uuid b)"

definition wf_policy :: "policy \<Rightarrow> bool" where
  "wf_policy p \<longleftrightarrow> list_all wf_grant (grants_of p) \<and> distinct (map xuid (grants_of p)) \<and>
     list_all valid_name (pending p) \<and> list_all valid_name (denied_names p) \<and>
     list_all is_xuid (denied_xuids p) \<and> list_all canonical (denied_uuids p)"

lemma controller_name_valid: "controller_name v = Inr n \<Longrightarrow> valid_name n"
  by (auto simp: controller_name_def valid_name_def isprintable_strip split: if_splits)

lemma valid_nameD: "valid_name v \<Longrightarrow> controller_name v = Inr v \<and> strip v = v \<and> v \<noteq> [] \<and> isprintable v"
  by (auto simp: controller_name_def valid_name_def split: if_splits)

lemma valid_name_casefold: "valid_name v \<Longrightarrow> valid_name (casefold v)"
  by (drule valid_nameD) (auto simp: valid_name_def controller_name_def)

lemma decode_grant_to_json [codec_simps]: "wf_grant b \<Longrightarrow> decode_grant (to_json b) = Inr b"
  by (auto simp: wf_grant_def to_json_def dict_get_def grant_fields_def dest: valid_nameD)

lemma decode_grant_wf: "decode_grant j = Inr b \<Longrightarrow> wf_grant b"
proof (cases j)
  case (JObj d)
  assume "decode_grant j = Inr b"
  with JObj obtain x t u g where "dict_get d ''xuid'' JNull = JStr x" "is_xuid x"
      "json_controller_name (dict_get d ''gamertag'' JNull) = Inr g"
      "json_uuid (dict_get d ''uuid'' JNull) = Inr u" "b = \<lparr>gamertag = g, xuid = x, uuid = u, bound_at = t\<rparr>"
    by (auto split: if_splits json.splits)
  then show ?thesis
    by (cases "dict_get d ''gamertag'' JNull"; cases "dict_get d ''uuid'' JNull")
      (auto simp: wf_grant_def canonical_norm dest: controller_name_valid)
qed auto

lemma strings_of_encoded [codec_simps]:
  "map_of d key = Some (JArr (map JStr vs)) \<Longrightarrow> strings_of d key = Inr vs"
  by (auto simp: strings_of_def dict_get_def emap_inverse)

lemma emap_valid_name: "list_all valid_name vs \<Longrightarrow> emap controller_name vs = Inr vs"
  by (rule emap_id) (auto simp: list_all_iff dest: valid_nameD)

lemma emap_canonical: "list_all canonical vs \<Longrightarrow> emap norm_uuid vs = Inr vs"
  by (rule emap_id) (simp add: list_all_iff)

lemma decode_encode_policy:
  assumes "wf_policy p" shows "decode_policy (encode_policy p) = Inr p"
proof -
  have "emap decode_grant (map to_json (grants_of p)) = Inr (grants_of p)"
    using assms by (intro emap_inverse) (simp add: wf_policy_def list_all_iff decode_grant_to_json)
  with assms show ?thesis
    by (simp add: encode_policy_def wf_policy_def only_keys_def policy_fields_def dict_get_def
        strings_of_encoded emap_valid_name emap_canonical)
qed

lemma decode_policy_wf: "decode_policy j = Inr p \<Longrightarrow> wf_policy p"
  by (cases j) (auto simp: wf_policy_def list_all_iff split: if_splits json.splits
    dest: emap_InrD decode_grant_wf controller_name_valid canonical_norm)

interpretation policy_codec: json_codec encode_policy decode_policy wf_policy "\<lambda>p. p"
  by unfold_locales (auto simp: decode_encode_policy decode_policy_wf)

lemma wf_empty_policy [simp]: "wf_policy empty_policy"
  by (simp add: empty_policy_def wf_policy_def)

lemma load_policy_wf: "load_policy n = Inr p \<Longrightarrow> wf_policy p"
  by (auto simp: load_policy_def split: option.splits dest: decode_policy_wf)

section \<open>Every operation is one atomic replacement\<close>

lemma save_policy_InrD: "save_policy p s = (Inr u, s') \<Longrightarrow>
    state s' = p \<and> content (policy_file s') = Plain (Some (encode_policy p))"
  and save_policy_InlD: "save_policy p s = (Inl e, s') \<Longrightarrow>
    state s' = state s \<and> content (policy_file s') = content (policy_file s)"
  by (auto simp: save_policy_def split: prod.splits sum.splits dest: save_doc_InrD save_doc_InlD)

lemma add_identity_InrD:
  "add_identity now raw x pu s = (Inr u, s') \<Longrightarrow> \<exists>name i t. controller_name raw = Inr name \<and> \<not> is_selector name \<and>
     pu = Some i \<and> is_xuid x \<and> norm_uuid i = Inr t \<and> state s' = granted_policy now name x t (state s) \<and>
     content (policy_file s') = Plain (Some (encode_policy (state s')))"
  by (auto simp: add_identity_def split: sum.splits if_splits option.splits dest: save_policy_InrD)

lemma add_identity_InlD:
  "add_identity now raw x pu s = (Inl e, s') \<Longrightarrow>
     state s' = state s \<and> content (policy_file s') = content (policy_file s)"
  by (auto simp: add_identity_def split: sum.splits if_splits option.splits dest: save_policy_InlD)

lemma add_name_InrD:
  "add_name now raw s = (Inr u, s') \<Longrightarrow> \<exists>name. controller_name raw = Inr name \<and> \<not> is_selector name \<and>
     content (policy_file s') = Plain (Some (encode_policy (state s'))) \<and>
     (case find (\<lambda>b. casefold (gamertag b) = casefold name) (grants_of (state s)) of
        Some b \<Rightarrow> \<exists>t. is_xuid (xuid b) \<and> norm_uuid (uuid b) = Inr t \<and>
          state s' = granted_policy now name (xuid b) t (state s)
      | None \<Rightarrow> state s' = (state s)\<lparr>pending := without_name name (pending (state s)) @ [name],
          denied_names := without_name name (denied_names (state s))\<rparr>)"
proof -
  assume a: "add_name now raw s = (Inr u, s')"
  then obtain name where n: "controller_name raw = Inr name" "\<not> is_selector name"
    by (auto simp: add_name_def split: sum.splits if_splits)
  have "controller_name name = Inr name" using n(1) controller_name_valid valid_nameD by blast
  with a n show ?thesis
    by (auto simp: add_name_def split: option.splits dest!: add_identity_InrD save_policy_InrD)
qed

lemma add_name_InlD:
  "add_name now raw s = (Inl e, s') \<Longrightarrow>
     state s' = state s \<and> content (policy_file s') = content (policy_file s)"
  by (auto simp: add_name_def split: sum.splits if_splits option.splits
      dest: save_policy_InlD add_identity_InlD)

lemma wf_granted_policy:
  assumes "wf_policy p" "valid_name name" "is_xuid x" "canonical t"
  shows "wf_policy (granted_policy now name x t p)"
  using assms by (auto simp: wf_policy_def granted_policy_def wf_grant_def list_all_iff without_name_def
      distinct_map inj_on_def)

lemma wf_pending_policy:
  assumes "wf_policy p" "valid_name name"
  shows "wf_policy (p\<lparr>pending := without_name name (pending p) @ [name],
     denied_names := without_name name (denied_names p)\<rparr>)"
  using assms by (auto simp: wf_policy_def list_all_iff without_name_def)

lemma enroll_InrD:
  "enroll now name x u s = (Inr True, s') \<Longrightarrow> \<exists>n t. is_xuid x \<and> casefold name \<in> folded (pending (state s)) \<and>
     denied (state s) x u = Inr False \<and> controller_name name = Inr n \<and> norm_uuid u = Inr t \<and>
     state s' = granted_policy now n x t (state s) \<and>
     content (policy_file s') = Plain (Some (encode_policy (state s')))"
  by (auto simp: enroll_def split: if_splits sum.splits bool.splits prod.splits dest!: add_identity_InrD)

lemma enroll_other: "enroll now name x u s = (r, s') \<Longrightarrow> r \<noteq> Inr True \<Longrightarrow>
    state s' = state s \<and> content (policy_file s') = content (policy_file s)"
  by (auto simp: enroll_def split: if_splits sum.splits bool.splits prod.splits dest: add_identity_InlD)

section \<open>The closure of a removal\<close>

definition covers :: "closure \<Rightarrow> binding \<Rightarrow> bool" where
  "covers c b \<longleftrightarrow> casefold (gamertag b) \<in> set (c_names c) \<and> xuid b \<in> set (c_xuids c) \<and> uuid b \<in> set (c_uuids c)"

definition shares :: "binding \<Rightarrow> binding \<Rightarrow> bool" where
  "shares a b \<longleftrightarrow> casefold (gamertag a) = casefold (gamertag b) \<or> xuid a = xuid b \<or> uuid a = uuid b"

definition sub_closure :: "closure \<Rightarrow> closure \<Rightarrow> bool" where
  "sub_closure c d \<longleftrightarrow> set (c_names c) \<subseteq> set (c_names d) \<and> set (c_xuids c) \<subseteq> set (c_xuids d) \<and>
     set (c_uuids c) \<subseteq> set (c_uuids d)"

lemma sub_closure_trans: "sub_closure a b \<Longrightarrow> sub_closure b c \<Longrightarrow> sub_closure a c"
  by (auto simp: sub_closure_def)

lemma sub_closure_absorb: "sub_closure c (absorb b c)"
  by (auto simp: sub_closure_def absorb_def)

lemma sub_closure_fold: "sub_closure c (fold absorb bs c)"
proof (induction bs arbitrary: c)
  case (Cons b bs)
  then show ?case using sub_closure_trans [OF sub_closure_absorb [of c b]] by simp
qed (simp add: sub_closure_def)

lemma covers_mono: "covers c b \<Longrightarrow> sub_closure c d \<Longrightarrow> covers d b"
  and matches_mono: "matches c b \<Longrightarrow> sub_closure c d \<Longrightarrow> matches d b"
  by (auto simp: covers_def matches_def sub_closure_def)

lemma fold_absorb_covers: "b \<in> set bs \<Longrightarrow> matches c b \<Longrightarrow> covers (fold absorb bs c) b"
proof (induction bs arbitrary: c)
  case (Cons a bs)
  show ?case
  proof (cases "a = b")
    case True
    then have "covers (absorb a c) b" using Cons.prems by (simp add: absorb_def covers_def)
    then show ?thesis using covers_mono sub_closure_fold by simp
  next
    case False
    with Cons show ?thesis using matches_mono [OF _ sub_closure_absorb] by simp
  qed
qed simp

lemma closure_direct: "b \<in> set bs \<Longrightarrow> matches c b \<Longrightarrow> covers (closure_of bs c) b"
  unfolding closure_of_def using fold_absorb_covers covers_mono sub_closure_fold by blast

lemma closure_alias:
  assumes "a \<in> set bs" "matches c a" "b \<in> set bs" "shares a b"
  shows "covers (closure_of bs c) b"
proof -
  have "covers (fold absorb bs c) a" using assms by (simp add: fold_absorb_covers)
  with assms(4) have "matches (fold absorb bs c) b" by (auto simp: covers_def matches_def shares_def)
  with assms(3) show ?thesis by (simp add: closure_of_def fold_absorb_covers)
qed

text \<open>The bindings a removal reaches: one that the selector names, and one that shares a name, an
  XUID or a UUID with a binding reached.\<close>

inductive linked :: "binding list \<Rightarrow> closure \<Rightarrow> binding \<Rightarrow> bool" for bs c where
  named: "b \<in> set bs \<Longrightarrow> matches c b \<Longrightarrow> linked bs c b"
| shared: "linked bs c a \<Longrightarrow> b \<in> set bs \<Longrightarrow> shares a b \<Longrightarrow> linked bs c b"

definition justified :: "binding list \<Rightarrow> closure \<Rightarrow> closure \<Rightarrow> bool" where
  "justified bs c d \<longleftrightarrow>
     (\<forall>n \<in> set (c_names d). n \<in> set (c_names c) \<or> (\<exists>b. linked bs c b \<and> casefold (gamertag b) = n)) \<and>
     (\<forall>x \<in> set (c_xuids d). x \<in> set (c_xuids c) \<or> (\<exists>b. linked bs c b \<and> xuid b = x)) \<and>
     (\<forall>u \<in> set (c_uuids d). u \<in> set (c_uuids c) \<or> (\<exists>b. linked bs c b \<and> uuid b = u))"

lemma matches_linked: "justified bs c d \<Longrightarrow> b \<in> set bs \<Longrightarrow> matches d b \<Longrightarrow> linked bs c b"
  unfolding matches_def
proof (elim disjE)
  assume j: "justified bs c d" and b: "b \<in> set bs"
  { assume "casefold (gamertag b) \<in> set (c_names d)"
    with j consider "casefold (gamertag b) \<in> set (c_names c)" |
        a where "linked bs c a" "casefold (gamertag a) = casefold (gamertag b)"
      unfolding justified_def by metis
    then show "linked bs c b" using b by cases (auto intro: named shared simp: matches_def shares_def) }
  { assume "xuid b \<in> set (c_xuids d)"
    with j consider "xuid b \<in> set (c_xuids c)" | a where "linked bs c a" "xuid a = xuid b"
      unfolding justified_def by metis
    then show "linked bs c b" using b by cases (auto intro: named shared simp: matches_def shares_def) }
  { assume "uuid b \<in> set (c_uuids d)"
    with j consider "uuid b \<in> set (c_uuids c)" | a where "linked bs c a" "uuid a = uuid b"
      unfolding justified_def by metis
    then show "linked bs c b" using b by cases (auto intro: named shared simp: matches_def shares_def) }
qed

lemma justified_absorb:
  assumes "justified bs c d" "b \<in> set bs" shows "justified bs c (absorb b d)"
  using assms matches_linked [OF assms] by (auto simp: justified_def absorb_def)

lemma justified_fold: "justified bs c d \<Longrightarrow> set as \<subseteq> set bs \<Longrightarrow> justified bs c (fold absorb as d)"
  by (induction as arbitrary: d) (auto simp: justified_absorb)

lemma justified_closure: "justified bs c (closure_of bs c)"
  unfolding closure_of_def by (intro justified_fold) (auto simp: justified_def)

section \<open>What the decisions mean on a well-formed policy\<close>

definition granted :: "policy \<Rightarrow> string \<Rightarrow> bool" where
  "granted p x \<longleftrightarrow> is_xuid x \<and> x \<notin> set (denied_xuids p) \<and>
     (\<exists>b \<in> set (grants_of p). xuid b = x \<and> uuid b \<notin> set (denied_uuids p))"

lemma any_grant_spec:
  "list_all wf_grant bs \<Longrightarrow> any_grant p x bs =
     Inr (x \<notin> set (denied_xuids p) \<and> (\<exists>b \<in> set bs. xuid b = x \<and> uuid b \<notin> set (denied_uuids p)))"
proof (induction bs)
  case (Cons b bs)
  then show ?case by (cases "xuid b = x") (auto simp: denied_def wf_grant_def)
qed simp

lemma grants_granted: "wf_policy p \<Longrightarrow> grants p x = Inr (granted p x)"
  by (auto simp: grants_def granted_def any_grant_spec wf_policy_def)

lemma denied_Inr: "denied p x u = Inr d \<Longrightarrow>
    d \<longleftrightarrow> x \<in> set (denied_xuids p) \<or> (\<exists>i. norm_uuid u = Inr i \<and> i \<in> set (denied_uuids p))"
  by (auto simp: denied_def split: if_splits)

lemma set_merged [simp]: "set (merged a b) = set a \<union> set b"
  by (simp add: merged_def)

lemma name_denied_revoked: "n \<in> set (c_names c) \<Longrightarrow> casefold n = n \<Longrightarrow> n \<in> folded (denied_names (revoked_policy c p))"
  by (force simp: revoked_policy_def folded_def)

lemma revoked_not_granted: "x \<in> set (c_xuids c) \<Longrightarrow> \<not> granted (revoked_policy c p) x"
  by (simp add: granted_def revoked_policy_def)

section \<open>Removal\<close>

lemma remove_InrD:
  "remove raw known configured player s = (Inr u, s') \<Longrightarrow> \<exists>t c. controller_name raw = Inr t \<and>
     removal_closure t known player (state s) = Inr c \<and> state s' = revoked_policy c (state s) \<and>
     content (policy_file s') = Plain (Some (encode_policy (state s')))"
  by (auto simp: remove_def split: sum.splits if_splits dest: save_policy_InrD)

lemma remove_InlD:
  "remove raw known configured player s = (Inl e, s') \<Longrightarrow>
     state s' = state s \<and> content (policy_file s') = content (policy_file s)"
  by (auto simp: remove_def split: sum.splits if_splits dest: save_policy_InlD)

definition wf_closure :: "closure \<Rightarrow> bool" where
  "wf_closure c \<longleftrightarrow> list_all valid_name (c_names c) \<and> list_all is_xuid (c_xuids c) \<and> list_all canonical (c_uuids c)"

lemma wf_absorb: "wf_closure c \<Longrightarrow> wf_grant b \<Longrightarrow> wf_closure (absorb b c)"
  by (auto simp: wf_closure_def absorb_def wf_grant_def list_all_iff valid_name_casefold)

lemma wf_fold_absorb: "wf_closure c \<Longrightarrow> list_all wf_grant bs \<Longrightarrow> wf_closure (fold absorb bs c)"
  by (induction bs arbitrary: c) (auto simp: wf_absorb)

lemma selector_wf: "selector t = Inr c \<Longrightarrow> valid_name t \<Longrightarrow> wf_closure c"
  by (auto simp: selector_def wf_closure_def valid_name_casefold canonical_norm split: if_splits)

lemma with_player_wf: "with_player player c = Inr d \<Longrightarrow> wf_closure c \<Longrightarrow> wf_closure d"
  by (auto simp: with_player_def wf_closure_def list_all_iff canonical_norm split: option.splits bool.splits)

lemma removal_closure_wf:
  "removal_closure t known player p = Inr c \<Longrightarrow> valid_name t \<Longrightarrow> list_all wf_grant known \<Longrightarrow> wf_policy p \<Longrightarrow> wf_closure c"
  by (auto simp: removal_closure_def closure_of_def wf_policy_def
      intro!: wf_fold_absorb dest!: selector_wf with_player_wf)

lemma wf_revoked_policy: "wf_policy p \<Longrightarrow> wf_closure c \<Longrightarrow> wf_policy (revoked_policy c p)"
  by (auto simp: wf_policy_def revoked_policy_def wf_closure_def list_all_iff)

lemma with_player_sub: "with_player player c = Inr d \<Longrightarrow> sub_closure c d"
  by (auto simp: with_player_def sub_closure_def split: option.splits bool.splits)

lemma remove_wf:
  assumes "remove raw known configured player s = (Inr u, s')" "wf_policy (state s)" "list_all wf_grant known"
  shows "wf_policy (state s')"
  using remove_InrD [OF assms(1)] assms(2,3) wf_revoked_policy removal_closure_wf controller_name_valid by metis

section \<open>The store as a machine\<close>

datatype policy_op =
    Add_name string string
  | Add_identity string string string "string option"
  | Enroll string string string string
  | Remove string "binding list" "string list" "(string \<times> string option) option"

text \<open>A removal resolves its target against the bootstrap bindings, whose GamerTags must be names
  the policy file accepts.\<close>

fun legal_policy_op :: "policy_op \<Rightarrow> bool" where
  "legal_policy_op (Remove _ known _ _) = list_all wf_grant known"
| "legal_policy_op _ = True"

fun policy_step :: "policy_op \<Rightarrow> policy_store \<Rightarrow> (py_error + bool) \<times> policy_store" where
  "policy_step (Add_name now name) s = map_prod (map_sum id (\<lambda>_. True)) id (add_name now name s)"
| "policy_step (Add_identity now name x u) s = map_prod (map_sum id (\<lambda>_. True)) id (add_identity now name x u s)"
| "policy_step (Enroll now name x u) s = enroll now name x u s"
| "policy_step (Remove t known cfg pl) s = map_prod (map_sum id (\<lambda>_. True)) id (remove t known cfg pl s)"

lemma policy_step_commits:
  assumes "legal_policy_op op" "wf_policy (state s)" "policy_step op s = (r, s')"
  shows "(state s' = state s \<and> content (policy_file s') = content (policy_file s)) \<or>
    (wf_policy (state s') \<and> content (policy_file s') = Plain (Some (encode_policy (state s'))))"
proof (cases op)
  case (Add_name now name)
  obtain q t where q: "add_name now name s = (q, t)" by fastforce
  with assms Add_name have "s' = t" by simp
  with q assms(2) show ?thesis
    by (cases q) (auto dest!: add_name_InrD add_name_InlD split: option.splits
      intro!: wf_granted_policy wf_pending_policy controller_name_valid canonical_norm)
next
  case (Add_identity now name x u)
  obtain q t where q: "add_identity now name x u s = (q, t)" by fastforce
  with assms Add_identity have "s' = t" by simp
  with q assms(2) show ?thesis
    by (cases q) (auto dest!: add_identity_InrD add_identity_InlD
      intro!: wf_granted_policy controller_name_valid canonical_norm)
next
  case (Enroll now name x u)
  show ?thesis
  proof (cases "r = Inr True")
    case True
    with assms Enroll show ?thesis
      by (auto dest!: enroll_InrD intro!: wf_granted_policy controller_name_valid canonical_norm)
  next
    case False
    with assms Enroll show ?thesis by (auto dest: enroll_other)
  qed
next
  case (Remove t known cfg pl)
  obtain q s'' where q: "remove t known cfg pl s = (q, s'')" by fastforce
  with assms Remove have "s' = s''" by simp
  with q assms Remove show ?thesis
    by (cases q) (auto dest: remove_InrD remove_InlD remove_wf)
qed

interpretation policy_disk: disk_first encode_policy decode_policy wf_policy "\<lambda>p. p"
    state "\<lambda>s. content (policy_file s)" load_policy "\<lambda>op _. legal_policy_op op" policy_step
  by unfold_locales (auto simp: load_policy_def dest: policy_step_commits)

definition policy_run :: "policy_op list \<Rightarrow> policy_store \<Rightarrow> policy_store" where
  "policy_run ops s = fold (\<lambda>op s. snd (policy_step op s)) ops s"

lemma policy_run_eq: "policy_run ops s = policy_disk.run ops s"
  by (simp add: policy_run_def policy_disk.run_def)

lemma policy_legal: "list_all legal_policy_op ops \<Longrightarrow> policy_disk.legal_run ops s"
  by (rule policy_disk.legal_runI) (simp add: list_all_iff)

lemma open_policy_synced: "open_policy k = Inr s \<Longrightarrow> policy_disk.synced s"
  by (auto simp: open_policy_def policy_disk.synced_def load_policy_wf)

section \<open>Properties\<close>

text \<open>Whatever legal console operations run on the policy store, and whichever of its writes fail,
  a restart reads back exactly the policy that was in memory.\<close>

theorem policy_restart:
  assumes "open_policy k = Inr s" and "list_all legal_policy_op ops"
  shows "load_policy (content (policy_file (policy_run ops s))) = Inr (state (policy_run ops s))"
  using policy_disk.restart [OF policy_legal [OF assms(2)] open_policy_synced [OF assms(1)]] by (simp add: policy_run_eq)

definition example_store :: policy_store where
  "example_store = \<lparr>policy_file = \<lparr>content = Absent, outcomes = [True, False]\<rparr>, state = empty_policy\<rparr>"

lemma policy_restart_witness:
  "load_policy (content (policy_file (policy_run
      [Add_name ''now'' ''Steve'', Enroll ''now'' ''steve'' ''2535'' ''00000000-0000-0000-0000-000000000001'']
      example_store))) =
    Inr (state (policy_run
      [Add_name ''now'' ''Steve'', Enroll ''now'' ''steve'' ''2535'' ''00000000-0000-0000-0000-000000000001'']
      example_store))"
  by (rule policy_restart [where k = "policy_file example_store"])
    (simp_all add: open_policy_def example_store_def load_policy_def)

fun lifts :: "string \<Rightarrow> policy_op \<Rightarrow> bool" where
  "lifts x (Add_name _ _) = True"
| "lifts x (Add_identity _ _ x' _) = (x' = x)"
| "lifts x _ = False"

lemma granted_policy_denied: "x' \<noteq> x \<Longrightarrow> x \<in> set (denied_xuids (granted_policy now n x' t p)) \<longleftrightarrow> x \<in> set (denied_xuids p)"
  by (auto simp: granted_policy_def)

lemma policy_step_denied:
  assumes "\<not> lifts x op" "x \<in> set (denied_xuids (state s))"
  shows "x \<in> set (denied_xuids (state (snd (policy_step op s))))"
proof (cases op)
  case (Add_identity now n x' u)
  obtain q t where q: "add_identity now n x' u s = (q, t)" by fastforce
  show ?thesis using Add_identity assms q
    by (cases q) (auto dest!: add_identity_InrD add_identity_InlD simp: granted_policy_denied)
next
  case (Enroll now n x' u)
  obtain q t where q: "enroll now n x' u s = (q, t)" by fastforce
  show ?thesis
  proof (cases "q = Inr True")
    case True
    with q have "x' \<noteq> x" "\<exists>n t'. state t = granted_policy now n x' t' (state s)"
      using assms(2) by (auto dest!: enroll_InrD simp: denied_def)
    with Enroll assms q show ?thesis by (auto simp: granted_policy_denied)
  next
    case False
    with Enroll assms q show ?thesis by (auto dest: enroll_other)
  qed
next
  case (Remove t known cfg pl)
  obtain q s' where q: "remove t known cfg pl s = (q, s')" by fastforce
  show ?thesis using Remove assms q
    by (cases q) (auto dest!: remove_InrD remove_InlD simp: revoked_policy_def)
qed (use assms in auto)

text \<open>A revoked XUID stays revoked, and holds no grant, through any sequence of enrollments of claimable
  GamerTags, removals and grants of other accounts, with any writes failing: only a console add that
  names that account lifts the revocation.\<close>

theorem revocation_persists:
  assumes "open_policy k = Inr s" and "x \<in> set (denied_xuids (state s))"
    and "list_all legal_policy_op ops" and "list_all (\<lambda>op. \<not> lifts x op) ops"
  shows "x \<in> set (denied_xuids (state (policy_run ops s))) \<and> grants (state (policy_run ops s)) x = Inr False"
proof -
  have "x \<in> set (denied_xuids (state (policy_run ops s)))"
    using assms(2,4) unfolding policy_run_def
    by (induction ops arbitrary: s) (auto simp: policy_step_denied)
  moreover have "wf_policy (state (policy_run ops s))"
    using policy_disk.run_wf [OF policy_legal [OF assms(3)] open_policy_synced [OF assms(1)]] by (simp add: policy_run_eq)
  ultimately show ?thesis by (simp add: grants_granted granted_def)
qed

definition revoked_disk :: disk where
  "revoked_disk = \<lparr>content = Plain (Some (encode_policy
     (empty_policy\<lparr>pending := [''Steve''], denied_xuids := [''2535'']\<rparr>))), outcomes = []\<rparr>"

lemma revocation_persists_witness:
  "grants (state (policy_run [Enroll ''now'' ''steve'' ''2535'' ''00000000-0000-0000-0000-000000000001'']
     \<lparr>policy_file = revoked_disk, state = empty_policy\<lparr>pending := [''Steve''], denied_xuids := [''2535'']\<rparr>\<rparr>))
   ''2535'' = Inr False"
proof -
  let ?p = "empty_policy\<lparr>pending := [''Steve''], denied_xuids := [''2535'']\<rparr>"
  have "wf_policy ?p"
    by (simp add: wf_policy_def empty_policy_def valid_name_def controller_name_def strip_def strip_by_def
        is_space_def code_def isprintable_def is_printable_char_def is_xuid_def isdecimal_def is_digit_def)
  then have "open_policy revoked_disk = Inr \<lparr>policy_file = revoked_disk, state = ?p\<rparr>"
    by (simp add: open_policy_def revoked_disk_def load_policy_def decode_encode_policy)
  from revocation_persists [OF this] show ?thesis by simp
qed

lemma removal_closure_name:
  assumes "removal_closure t known player p = Inr c" "\<not> is_selector t"
  obtains c1 where "with_player player \<lparr>c_names = [casefold t], c_xuids = [], c_uuids = []\<rparr> = Inr c1"
    "c = closure_of (known @ grants_of p) c1"
  using assms by (auto simp: removal_closure_def selector_def is_selector_def)

text \<open>A removal by GamerTag revokes every account it can stand for: each known or granted binding under
  that name, and each binding that shares a name, an XUID or a UUID with one of those, loses its grant,
  has its XUID, UUID and name denied, and its name can no longer be claimed by a join.\<close>

theorem remove_revokes:
  assumes "wf_policy (state s)" and "controller_name raw = Inr t" and "\<not> is_selector t"
    and "remove raw known configured player s = (Inr u, s')"
    and "a \<in> set (known @ grants_of (state s))" and "casefold (gamertag a) = casefold t"
    and "b \<in> set (known @ grants_of (state s))" and "shares a b"
  shows "grants (state s') (xuid b) = Inr False \<and> xuid b \<in> set (denied_xuids (state s')) \<and>
    uuid b \<in> set (denied_uuids (state s')) \<and> name_denied (state s') (gamertag b) \<and>
    casefold (gamertag b) \<notin> folded (pending (state s'))"
proof -
  obtain c where c: "removal_closure t known player (state s) = Inr c" "state s' = revoked_policy c (state s)"
    using remove_InrD [OF assms(4)] assms(2) by auto
  obtain c1 where c1: "with_player player \<lparr>c_names = [casefold t], c_xuids = [], c_uuids = []\<rparr> = Inr c1"
    "c = closure_of (known @ grants_of (state s)) c1"
    using removal_closure_name [OF c(1) assms(3)] by blast
  have "matches c1 a" using with_player_sub [OF c1(1)] assms(6) by (auto simp: sub_closure_def matches_def)
  then have cov: "covers c b" unfolding c1(2) using assms(5,7,8) by (intro closure_alias)
  have "list_all wf_grant (grants_of (state s))" using assms(1) by (simp add: wf_policy_def)
  then have "grants (state s') (xuid b) = Inr False"
    using cov by (auto simp: c(2) grants_def revoked_policy_def any_grant_spec covers_def)
  with cov show ?thesis
    by (auto simp: c(2) covers_def name_denied_def folded_def revoked_policy_def image_iff intro!: bexI [of _ "casefold (gamertag b)"])
qed

definition example_policy :: policy where
  "example_policy = empty_policy\<lparr>grants_of :=
     [\<lparr>gamertag = ''Steve'', xuid = ''25'', uuid = ''00000000-0000-0000-0000-000000000001'', bound_at = ''t''\<rparr>]\<rparr>"

lemmas text_eval = controller_name_def strip_def strip_by_def is_space_def code_def isprintable_def
  is_printable_char_def is_xuid_def isdecimal_def is_digit_def casefold_def lower_char_def ascii_upper_def
  starts_with_def

lemma canonical_example: "canonical ''00000000-0000-0000-0000-000000000001''"
  by (rule looks_canonical) code_simp

lemma wf_example_policy: "wf_policy example_policy"
proof -
  have "valid_name ''Steve''" by code_simp
  moreover have "is_xuid ''25''" by code_simp
  ultimately show ?thesis using canonical_example
    by (simp add: wf_policy_def example_policy_def empty_policy_def wf_grant_def)
qed

definition example_policy_store :: policy_store where
  "example_policy_store = \<lparr>policy_file = \<lparr>content = Absent, outcomes = []\<rparr>, state = example_policy\<rparr>"

lemma remove_revokes_witness:
  "\<exists>s'. remove ''steve'' [] [] None example_policy_store = (Inr (), s') \<and> grants (state s') ''25'' = Inr False"
proof -
  have "fst (remove ''steve'' [] [] None example_policy_store) = Inr ()" by code_simp
  then obtain s' where s': "remove ''steve'' [] [] None example_policy_store = (Inr (), s')"
    by (cases "remove ''steve'' [] [] None example_policy_store") auto
  have n: "controller_name ''steve'' = Inr ''steve''" "\<not> is_selector ''steve''" by code_simp+
  have f: "casefold ''Steve'' = casefold ''steve''" by code_simp
  let ?b = "hd (grants_of example_policy)"
  have b: "?b \<in> set ([] @ grants_of (state example_policy_store))" "gamertag ?b = ''Steve''" "xuid ?b = ''25''"
    by (simp_all add: example_policy_store_def example_policy_def)
  have "grants (state s') (xuid ?b) = Inr False"
    using remove_revokes [OF _ n s' b(1) _ b(1)] wf_example_policy b(2) f
    by (simp add: example_policy_store_def shares_def)
  with s' b(3) show ?thesis by auto
qed

text \<open>A removal revokes nobody else: an XUID it newly denies was selected by the command, or belongs to
  a binding linked to the selection by a chain of shared names, XUIDs or UUIDs.\<close>

theorem remove_only_linked:
  assumes "remove raw known configured player s = (Inr u, s')"
    and "x \<in> set (denied_xuids (state s'))" and "x \<notin> set (denied_xuids (state s))"
  shows "\<exists>t c0 c1. controller_name raw = Inr t \<and> selector t = Inr c0 \<and> with_player player c0 = Inr c1 \<and>
    (x \<in> set (c_xuids c1) \<or> (\<exists>b. linked (known @ grants_of (state s)) c1 b \<and> xuid b = x))"
proof -
  obtain t c0 c1 where "controller_name raw = Inr t" "selector t = Inr c0" "with_player player c0 = Inr c1"
      "state s' = revoked_policy (closure_of (known @ grants_of (state s)) c1) (state s)"
    using remove_InrD [OF assms(1)] by (auto simp: removal_closure_def)
  moreover from this(4) assms(2,3) have "x \<in> set (c_xuids (closure_of (known @ grants_of (state s)) c1))"
    by (simp add: revoked_policy_def)
  ultimately show ?thesis using justified_closure [of "known @ grants_of (state s)" c1]
    unfolding justified_def by blast
qed

lemma remove_only_linked_witness:
  "\<exists>t c0 c1. controller_name ''xuid:25'' = Inr t \<and> selector t = Inr c0 \<and> with_player None c0 = Inr c1 \<and>
    (''25'' \<in> set (c_xuids c1) \<or> (\<exists>b. linked ([] @ grants_of (state example_policy_store)) c1 b \<and> xuid b = ''25''))"
proof -
  have "map_prod id (\<lambda>s'. ''25'' \<in> set (denied_xuids (state s')))
      (remove ''xuid:25'' [] [] None example_policy_store) = (Inr (), True)" by code_simp
  then obtain s' where s': "remove ''xuid:25'' [] [] None example_policy_store = (Inr (), s')"
      "''25'' \<in> set (denied_xuids (state s'))"
    by (cases "remove ''xuid:25'' [] [] None example_policy_store") auto
  have "''25'' \<notin> set (denied_xuids (state example_policy_store))"
    by (simp add: example_policy_store_def example_policy_def empty_policy_def)
  from remove_only_linked [OF s'(1,2) this] show ?thesis .
qed

text \<open>An offline regrant never makes a known account claimable again: adding a GamerTag that some grant
  carries leaves that account with a live grant and its old identity, and no join can claim the name.\<close>

theorem regrant_keeps_identity:
  assumes "wf_policy (state s)" and "controller_name raw = Inr t"
    and "b \<in> set (grants_of (state s))" and "casefold (gamertag b) = casefold t"
    and "add_name now raw s = (Inr u, s')"
  shows "\<exists>a \<in> set (grants_of (state s)). casefold (gamertag a) = casefold t \<and>
    grants (state s') (xuid a) = Inr True \<and>
    \<lparr>gamertag = t, xuid = xuid a, uuid = uuid a, bound_at = now\<rparr> \<in> set (grants_of (state s')) \<and>
    casefold t \<notin> folded (pending (state s'))"
proof -
  obtain a where a: "find (\<lambda>b. casefold (gamertag b) = casefold t) (grants_of (state s)) = Some a"
    using assms(3,4) by (cases "find (\<lambda>b. casefold (gamertag b) = casefold t) (grants_of (state s))")
      (auto simp: find_None_iff)
  note aD = find_SomeD [OF a]
  then have wa: "wf_grant a" using assms(1) by (simp add: wf_policy_def list_all_iff)
  have s': "state s' = granted_policy now t (xuid a) (uuid a) (state s)"
    using add_name_InrD [OF assms(5)] assms(2) a wa by (auto simp: wf_grant_def)
  have "wf_policy (state s')" unfolding s'
    using wf_granted_policy [OF assms(1) controller_name_valid [OF assms(2)]] wa by (simp add: wf_grant_def)
  moreover have "granted (state s') (xuid a)"
    using wa by (auto simp: s' granted_def granted_policy_def wf_grant_def)
  moreover have "casefold t \<notin> folded (pending (state s'))"
    by (auto simp: s' granted_policy_def without_name_def folded_def)
  ultimately show ?thesis using aD by (auto simp: grants_granted s' granted_policy_def)
qed

lemma regrant_keeps_identity_witness:
  "\<exists>s'. add_name ''now'' ''steve'' example_policy_store = (Inr (), s') \<and> grants (state s') ''25'' = Inr True"
proof -
  have "fst (add_name ''now'' ''steve'' example_policy_store) = Inr ()" by code_simp
  then obtain s' where s': "add_name ''now'' ''steve'' example_policy_store = (Inr (), s')"
    by (cases "add_name ''now'' ''steve'' example_policy_store") auto
  have n: "controller_name ''steve'' = Inr ''steve''" by code_simp
  have f: "casefold ''Steve'' = casefold ''steve''" by code_simp
  let ?b = "hd (grants_of example_policy)"
  have b: "?b \<in> set (grants_of (state example_policy_store))" "casefold (gamertag ?b) = casefold ''steve''"
    using f by (simp_all add: example_policy_store_def example_policy_def)
  have w: "wf_policy (state example_policy_store)"
    using wf_example_policy by (simp add: example_policy_store_def)
  have "\<exists>a \<in> set (grants_of (state example_policy_store)). grants (state s') (xuid a) = Inr True"
    using regrant_keeps_identity [OF w n b s'] by blast
  with s' show ?thesis by (auto simp: example_policy_store_def example_policy_def)
qed

definition bell_tag :: string where
  "bell_tag = [CHR ''A'', CHR 0x07, CHR ''B'']"

definition bell_binding :: binding where
  "bell_binding = \<lparr>gamertag = bell_tag, xuid = ''25'', uuid = ''00000000-0000-0000-0000-000000000001'', bound_at = ''t''\<rparr>"

definition fresh_store :: policy_store where
  "fresh_store = \<lparr>policy_file = \<lparr>content = Absent, outcomes = []\<rparr>, state = empty_policy\<rparr>"

text \<open>A bootstrap GamerTag may hold a character the policy file refuses: the configuration accepts it and
  a join binds it, but revoking that account writes a denied name that the next start cannot load, so
  the whole policy fails to open.\<close>

theorem unprintable_tag_poisons_policy:
  "parse_gamertags (JArr [JStr bell_tag]) = Inr [bell_tag] \<and>
   wf_binding bell_binding \<and>
   fst (remove ''xuid:25'' [bell_binding] [bell_tag] None fresh_store) = Inr () \<and>
   load_policy (content (policy_file (snd (remove ''xuid:25'' [bell_binding] [bell_tag] None fresh_store)))) =
     Inl (ValueError ''Controller GamerTag must be non-empty printable text'')"
proof (intro conjI)
  show "parse_gamertags (JArr [JStr bell_tag]) = Inr [bell_tag]" by code_simp
  have "is_xuid ''25''" by code_simp
  then show "wf_binding bell_binding"
    using canonical_example by (simp add: wf_binding_def bell_binding_def bell_tag_def)
  show "fst (remove ''xuid:25'' [bell_binding] [bell_tag] None fresh_store) = Inr ()" by code_simp
  show "load_policy (content (policy_file (snd (remove ''xuid:25'' [bell_binding] [bell_tag] None fresh_store)))) =
     Inl (ValueError ''Controller GamerTag must be non-empty printable text'')" by code_simp
qed

end
