(* ===== verification/Grant_Revisions.thy ===== *)
theory Grant_Revisions
  imports Json_Store
begin

text \<open>
  Persistent grant revisions, \<open>endbot_core/grant_revisions.py\<close>: a counter per controller
  identity that every revoke bumps. Memory changes first, so a failed write never leaves old
  work authorised; the file may lag behind but never runs ahead. The order in which Python
  walks the set of identities only moves new entries inside the dictionary; the model takes
  the order of their first occurrence.
\<close>

record revisions =
  rev_path :: "disk option"
  revs :: "(string, int) dict"

text \<open>One entry of the file: the revision is checked before the identity is parsed; \<open>type(revision)
  is int\<close> excludes booleans.\<close>

fun decode_revision :: "string \<times> json \<Rightarrow> py_error + string \<times> int" where
  "decode_revision (identity, JInt n) =
     (if n < 1 then Inl (ValueError ''Grant revision must be a positive integer'')
      else ebind (norm_uuid identity) (\<lambda>i. Inr (i, n)))"
| "decode_revision (identity, _) = Inl (ValueError ''Grant revision must be a positive integer'')"

fun decode_revisions :: "json \<Rightarrow> py_error + (string, int) dict" where
  "decode_revisions (JObj d) =
     (if \<not> version_is 1 d then Inl (ValueError ''Unsupported grant revisions version'')
      else if \<not> only_keys [''version'', ''revisions''] d then Inl (ValueError ''Unknown grant revisions field'')
      else (case dict_get d ''revisions'' (JObj []) of
          JObj es \<Rightarrow>
            ebind (emap decode_revision es) (\<lambda>rs.
              let result = fold (\<lambda>(i, n). dict_set i n) rs [] in
              if length result \<noteq> length es then Inl (ValueError ''Duplicate grant revision identity'')
              else Inr result)
        | _ \<Rightarrow> Inl (TypeError ''Grant revisions must be an object'')))"
| "decode_revisions _ = Inl (ValueError ''Unsupported grant revisions version'')"

definition encode_revisions :: "(string, int) dict \<Rightarrow> json" where
  "encode_revisions r = JObj [(''version'', JInt 1),
     (''revisions'', JObj (map (\<lambda>(i, n). (i, JInt n)) (dict_sorted r)))]"

definition load_revisions :: "node \<Rightarrow> py_error + (string, int) dict" where
  "load_revisions n = ebind (read_regular ''Grant revisions must be a regular file'' n) (\<lambda>d.
     case d of None \<Rightarrow> Inr [] | Some j \<Rightarrow> decode_revisions j)"

definition open_revisions :: "disk option \<Rightarrow> py_error + revisions" where
  "open_revisions path = ebind (case path of None \<Rightarrow> Inr [] | Some k \<Rightarrow> load_revisions (content k))
     (\<lambda>d. Inr \<lparr>rev_path = path, revs = d\<rparr>)"

definition get_revision :: "revisions \<Rightarrow> string \<Rightarrow> int" where
  "get_revision r identity = dict_get (revs r) identity 0"

definition save_revisions :: "revisions \<Rightarrow> (py_error + unit) \<times> revisions" where
  "save_revisions r = (case rev_path r of
     None \<Rightarrow> (Inr (), r)
   | Some k \<Rightarrow> (case save_doc ''Grant revisions must not be a symlink'' (encode_revisions (revs r)) k of
       (res, k') \<Rightarrow> (res, r\<lparr>rev_path := Some k'\<rparr>)))"

definition bump_one :: "string \<Rightarrow> (string, int) dict \<Rightarrow> (string, int) dict" where
  "bump_one i d = dict_set i (dict_get d i 0 + 1) d"

definition bump :: "string list \<Rightarrow> revisions \<Rightarrow> (py_error + unit) \<times> revisions" where
  "bump identities r =
     (if remdups identities = [] then (Inr (), r)
      else save_revisions (r\<lparr>revs := fold bump_one (remdups identities) (revs r)\<rparr>))"

section \<open>The codec\<close>

definition wf_revisions :: "(string, int) dict \<Rightarrow> bool" where
  "wf_revisions d \<longleftrightarrow> distinct (keys d) \<and> list_all (\<lambda>(i, n). canonical i \<and> 1 \<le> n) d"

lemma decode_revision_wf: "decode_revision e = Inr (i, n) \<Longrightarrow> canonical i \<and> 1 \<le> n"
  by (cases e rule: decode_revision.cases) (auto simp: canonical_norm split: if_splits)

lemma fold_dict_set_wf:
  "distinct (keys d) \<Longrightarrow> distinct (keys (fold (\<lambda>(i, n). dict_set i n) rs d)) \<and>
     set (fold (\<lambda>(i, n). dict_set i n) rs d) \<subseteq> set d \<union> set rs"
proof (induction rs arbitrary: d)
  case (Cons e rs)
  obtain i n where e: "e = (i, n)" by fastforce
  have "distinct (keys (dict_set i n d))" using Cons.prems by (rule distinct_dict_set)
  from Cons.IH [OF this] set_dict_set_subset [of i n d] show ?case by (auto simp: e)
qed simp

lemma decode_revisions_wf: "decode_revisions j = Inr d \<Longrightarrow> wf_revisions d"
proof -
  assume "decode_revisions j = Inr d"
  then obtain es rs where rs: "emap decode_revision es = Inr rs"
      "d = fold (\<lambda>(i, n). dict_set i n) rs []"
    by (cases j) (auto simp: Let_def split: if_splits json.splits)
  have "canonical i \<and> 1 \<le> n" if "(i, n) \<in> set d" for i n
    using that fold_dict_set_wf [of "[]" rs] emap_InrD [OF rs(1)] decode_revision_wf
    unfolding rs(2) by fastforce
  then show ?thesis using fold_dict_set_wf [of "[]" rs] by (auto simp: rs(2) wf_revisions_def list_all_iff)
qed

lemma decode_encode_revisions:
  assumes "wf_revisions d" shows "decode_revisions (encode_revisions d) = Inr (dict_sorted d)"
proof -
  let ?es = "map (\<lambda>(i, n). (i, JInt n)) (dict_sorted d)"
  have "emap decode_revision ?es = Inr (dict_sorted d)"
    using assms by (intro emap_inverse) (auto simp: wf_revisions_def list_all_iff)
  moreover have "fold (\<lambda>(i, n). dict_set i n) (dict_sorted d) [] = dict_sorted d"
    using fold_dict_set [of "[]" "dict_sorted d"] assms by (simp add: wf_revisions_def)
  ultimately show ?thesis
    by (simp add: encode_revisions_def only_keys_def dict_get_def)
qed

interpretation revisions_codec: json_codec encode_revisions decode_revisions wf_revisions dict_sorted
  by unfold_locales (auto simp: decode_encode_revisions decode_revisions_wf)

section \<open>Bumping\<close>

lemma dict_get_bump_one: "dict_get (bump_one i d) j 0 = dict_get d j 0 + (if i = j then 1 else 0)"
  by (simp add: bump_one_def dict_get_def)

lemma dict_get_fold_bump:
  "distinct ids \<Longrightarrow> dict_get (fold bump_one ids d) j 0 = dict_get d j 0 + (if j \<in> set ids then 1 else 0)"
  by (induction ids arbitrary: d) (auto simp: dict_get_bump_one)

lemma save_revisions_revs [simp]: "revs (snd (save_revisions r)) = revs r"
  by (auto simp: save_revisions_def split: option.splits prod.splits)

lemma bump_get: "get_revision (snd (bump ids r)) j = get_revision r j + (if j \<in> set ids then 1 else 0)"
  by (auto simp: bump_def get_revision_def dict_get_fold_bump)

lemma wf_bump_one: "wf_revisions d \<Longrightarrow> canonical i \<Longrightarrow> wf_revisions (bump_one i d)"
  unfolding wf_revisions_def bump_one_def
  by (intro conjI distinct_dict_set)
    (auto simp: set_dict_set list_all_iff dict_get_def split: option.splits dest!: map_of_SomeD)

lemma wf_fold_bump: "wf_revisions d \<Longrightarrow> list_all canonical ids \<Longrightarrow> wf_revisions (fold bump_one ids d)"
  by (induction ids arbitrary: d) (auto simp: wf_bump_one)

lemma wf_bump: "wf_revisions (revs r) \<Longrightarrow> list_all canonical ids \<Longrightarrow> wf_revisions (revs (snd (bump ids r)))"
  by (auto simp: bump_def list_all_iff intro!: wf_fold_bump)

text \<open>The file holds revisions that memory has reached: reading it back never gives a higher value.\<close>

definition file_behind :: "revisions \<Rightarrow> bool" where
  "file_behind r \<longleftrightarrow> wf_revisions (revs r) \<and>
     (case rev_path r of None \<Rightarrow> True | Some k \<Rightarrow>
        (\<exists>d. load_revisions (content k) = Inr d \<and> (\<forall>i. dict_get d i 0 \<le> get_revision r i)))"

lemma dict_get_sorted: "wf_revisions d \<Longrightarrow> dict_get (dict_sorted d) i v = dict_get d i v"
  by (simp add: dict_get_def wf_revisions_def)

lemma save_revisions_result:
  assumes "save_revisions r = (res, r')" "rev_path r = Some k" "wf_revisions (revs r)"
  obtains k' where "rev_path r' = Some k'"
    "res = Inr () \<Longrightarrow> load_revisions (content k') = Inr (dict_sorted (revs r))"
    "\<And>e. res = Inl e \<Longrightarrow> content k' = content k"
proof -
  obtain k' where s: "save_doc ''Grant revisions must not be a symlink'' (encode_revisions (revs r)) k = (res, k')"
      "r' = r\<lparr>rev_path := Some k'\<rparr>"
    using assms(1,2) by (auto simp: save_revisions_def split: prod.splits)
  show ?thesis
    by (rule that [of k']) (use s assms(3) in \<open>auto simp: load_revisions_def decode_encode_revisions
        dest: save_doc_InrD save_doc_InlD\<close>)
qed

lemma bump_file_behind:
  assumes "file_behind r" "list_all canonical ids"
  shows "file_behind (snd (bump ids r))"
proof (cases "remdups ids = [] \<or> rev_path r = None")
  case True
  have g: "get_revision r i \<le> get_revision (snd (bump ids r)) i" for i by (simp add: bump_get)
  from True have "rev_path (snd (bump ids r)) = rev_path r"
    by (auto simp: bump_def save_revisions_def)
  with assms wf_bump [of r ids] g show ?thesis
    by (fastforce simp: file_behind_def intro: order_trans split: option.splits)
next
  case False
  then obtain k where k: "rev_path r = Some k" by auto
  let ?r = "r\<lparr>revs := fold bump_one (remdups ids) (revs r)\<rparr>"
  obtain res r' where s: "save_revisions ?r = (res, r')" by fastforce
  have wf: "wf_revisions (revs ?r)"
    using wf_fold_bump [of "revs r" "remdups ids"] assms by (simp add: file_behind_def list_all_iff)
  have r': "snd (bump ids r) = r'" "revs r' = revs ?r"
    using False s save_revisions_revs [of ?r] by (auto simp: bump_def)
  obtain k' where k': "rev_path r' = Some k'"
      "res = Inr () \<Longrightarrow> load_revisions (content k') = Inr (dict_sorted (revs ?r))"
      "\<And>e. res = Inl e \<Longrightarrow> content k' = content k"
    using save_revisions_result [OF s _ wf] k by auto
  show ?thesis
  proof (cases res)
    case (Inl e)
    then obtain d where "load_revisions (content k') = Inr d" "\<forall>i. dict_get d i 0 \<le> get_revision r i"
      using assms(1) k k'(3) by (auto simp: file_behind_def)
    moreover have "get_revision r i \<le> get_revision r' i" for i using bump_get [of ids r i] by (simp add: r'(1))
    ultimately have "\<exists>d. load_revisions (content k') = Inr d \<and> (\<forall>i. dict_get d i 0 \<le> get_revision r' i)"
      by (blast intro: order_trans)
    then show ?thesis using wf k'(1) unfolding file_behind_def r'(1) by (simp add: r'(2))
  next
    case (Inr u)
    then show ?thesis using wf r' k'(1,2) by (auto simp: file_behind_def get_revision_def dict_get_sorted)
  qed
qed

section \<open>Properties\<close>

text \<open>A bump raises the revision of exactly the identities it names, by one, in memory, whether or not the
  write that follows succeeds: a full disk cannot leave revoked work authorised.\<close>

theorem bump_always_counts:
  "get_revision (snd (bump ids r)) j = get_revision r j + (if j \<in> set ids then 1 else 0)"
  by (rule bump_get)

definition revisions_run :: "string list list \<Rightarrow> revisions \<Rightarrow> revisions" where
  "revisions_run batches r = fold (\<lambda>ids r. snd (bump ids r)) batches r"

lemma revisions_run_file_behind:
  "file_behind r \<Longrightarrow> list_all (list_all canonical) batches \<Longrightarrow> file_behind (revisions_run batches r)"
  unfolding revisions_run_def by (induction batches arbitrary: r) (auto simp: bump_file_behind)

lemma load_revisions_wf: "load_revisions n = Inr d \<Longrightarrow> wf_revisions d"
  by (auto simp: load_revisions_def decode_revisions_wf split: option.splits)
    (simp add: wf_revisions_def)

lemma open_file_behind: "open_revisions path = Inr r \<Longrightarrow> file_behind r"
proof -
  have "wf_revisions []" by (simp add: wf_revisions_def)
  then show "open_revisions path = Inr r \<Longrightarrow> file_behind r"
    by (cases path) (auto simp: open_revisions_def file_behind_def get_revision_def load_revisions_wf)
qed

lemma open_revisions_wf: "open_revisions path = Inr r \<Longrightarrow> wf_revisions (revs r)"
  using open_file_behind by (auto simp: file_behind_def)

lemma revisions_run_mono: "get_revision r i \<le> get_revision (revisions_run batches r) i"
proof (induction batches arbitrary: r)
  case (Cons ids batches)
  have "get_revision r i \<le> get_revision (snd (bump ids r)) i" by (simp add: bump_get)
  with Cons.IH [of "snd (bump ids r)"] show ?case by (simp add: revisions_run_def)
qed (simp add: revisions_run_def)

text \<open>From an opened file, through any sequence of bumps with any writes failing, revisions never go down,
  the file stays readable and never holds a revision memory has not reached; and when the last write
  succeeds a restart sees exactly the revisions in memory.\<close>

theorem revisions_survive_restart:
  assumes "open_revisions (Some k) = Inr r" and "list_all (list_all canonical) batches"
    and "list_all canonical ids" and "ids \<noteq> []"
    and "bump ids (revisions_run batches r) = (Inr (), r')"
  shows "\<exists>k' d. rev_path r' = Some k' \<and> load_revisions (content k') = Inr d \<and>
    (\<forall>i. dict_get d i 0 = get_revision r' i \<and> get_revision r i \<le> dict_get d i 0) \<and>
    (\<forall>i \<in> set ids. get_revision r i < dict_get d i 0)"
proof -
  let ?q = "revisions_run batches r"
  have fb: "file_behind ?q" using revisions_run_file_behind open_file_behind assms(1,2) by blast
  have wf: "wf_revisions (fold bump_one (remdups ids) (revs ?q))"
    using fb assms(3) by (intro wf_fold_bump) (auto simp: file_behind_def list_all_iff)
  have path: "\<exists>k'. rev_path (revisions_run bs x) = Some k'" if "\<exists>k. rev_path x = Some k" for bs x
    using that unfolding revisions_run_def
    by (induction bs arbitrary: x) (auto simp: bump_def save_revisions_def split: prod.splits)
  obtain k0 where k0: "rev_path ?q = Some k0"
    using path [of r batches] assms(1) by (auto simp: open_revisions_def)
  have s: "save_revisions (?q\<lparr>revs := fold bump_one (remdups ids) (revs ?q)\<rparr>) = (Inr (), r')"
    using assms(4,5) by (simp add: bump_def)
  obtain k' where k': "rev_path r' = Some k'"
      "load_revisions (content k') = Inr (dict_sorted (fold bump_one (remdups ids) (revs ?q)))"
    using save_revisions_result [OF s] k0 wf by auto
  have r': "revs r' = fold bump_one (remdups ids) (revs ?q)"
    using save_revisions_revs [of "?q\<lparr>revs := fold bump_one (remdups ids) (revs ?q)\<rparr>"] s by simp
  have g: "dict_get (dict_sorted (revs r')) i 0 = get_revision r' i" for i
    using wf by (simp add: r' dict_get_sorted get_revision_def)
  have "get_revision r' i = get_revision ?q i + (if i \<in> set ids then 1 else 0)" for i
    using bump_get [of ids ?q i] assms(5) by simp
  with revisions_run_mono [of r _ batches] k' g r' show ?thesis
    by (intro exI [of _ k'] exI [of _ "dict_sorted (revs r')"])
      (auto simp: add_strict_increasing2 add_increasing2 intro: le_less_trans)
qed

definition example_id :: string where
  "example_id = ''00000000-0000-0000-0000-000000000001''"

lemma canonical_example_id: "canonical example_id"
  unfolding example_id_def by (rule looks_canonical) code_simp

lemma revisions_survive_restart_witness:
  "\<exists>r r' k' d. open_revisions (Some \<lparr>content = Absent, outcomes = [False, True]\<rparr>) = Inr r \<and>
     bump [example_id] (revisions_run [[example_id]] r) = (Inr (), r') \<and> rev_path r' = Some k' \<and>
     load_revisions (content k') = Inr d \<and> get_revision r example_id < dict_get d example_id 0"
proof -
  let ?k = "\<lparr>content = Absent, outcomes = [False, True]\<rparr>"
  let ?r = "\<lparr>rev_path = Some ?k, revs = []\<rparr>"
  have o: "open_revisions (Some ?k) = Inr ?r" by (simp add: open_revisions_def load_revisions_def)
  have "fst (bump [example_id] (revisions_run [[example_id]] ?r)) = Inr ()"
    by (simp add: bump_def revisions_run_def save_revisions_def save_doc_def replace_file_def)
  then obtain r' where r': "bump [example_id] (revisions_run [[example_id]] ?r) = (Inr (), r')"
    by (cases "bump [example_id] (revisions_run [[example_id]] ?r)") auto
  have c: "list_all (list_all canonical) [[example_id]]" "list_all canonical [example_id]" "[example_id] \<noteq> []"
    by (simp_all add: canonical_example_id)
  from revisions_survive_restart [OF o c r'] o r' show ?thesis by fastforce
qed

end
