(* ===== verification/Controller_Roles.thy ===== *)
theory Controller_Roles
  imports Enrollment
begin

text \<open>
  Controller roles, \<open>endbot_core/controller_roles.py\<close>: a role per XUID and roles waiting under a
  folded GamerTag for its first authenticated join. Memory changes before the file.
\<close>

type_synonym role_maps = "(string, string) dict \<times> (string, string) dict"

record roles_store =
  roles_path :: "disk option"
  roles :: "(string, string) dict"
  pending_roles :: "(string, string) dict"

definition roles_of :: "roles_store \<Rightarrow> role_maps" where
  "roles_of r = (roles r, pending_roles r)"

definition is_role :: "string \<Rightarrow> bool" where
  "is_role r \<longleftrightarrow> r = ''scripter'' \<or> r = ''controller''"

definition default_role :: string where
  "default_role = ''scripter''"

definition is_gamertag :: "string \<Rightarrow> bool" where
  "is_gamertag v \<longleftrightarrow> 0 < length v \<and> length v \<le> 256 \<and> isprintable v"

definition bad_role :: py_error where
  "bad_role = ValueError ''Controller role must be scripter or controller''"

definition bad_identity :: py_error where
  "bad_identity = ValueError ''Controller role identity must be an XUID''"

definition bad_gamertag :: py_error where
  "bad_gamertag = ValueError
     ''Pending controller GamerTag must be non-empty printable text of at most 256 characters''"

section \<open>The file\<close>

fun decode_role :: "string \<times> json \<Rightarrow> py_error + string \<times> string" where
  "decode_role (x, v) =
     (if \<not> is_xuid x then Inl bad_identity
      else (case v of JStr r \<Rightarrow> if is_role r then Inr (x, r) else Inl bad_role | _ \<Rightarrow> Inl bad_role))"

fun decode_pending_role :: "string \<times> json \<Rightarrow> py_error + string \<times> string" where
  "decode_pending_role (g, v) =
     (if \<not> is_gamertag g then Inl bad_gamertag
      else (case v of JStr r \<Rightarrow> if is_role r then Inr (casefold g, r) else Inl bad_role | _ \<Rightarrow> Inl bad_role))"

definition collect :: "(string \<times> string) list \<Rightarrow> (string, string) dict" where
  "collect es = fold (\<lambda>(k, v). dict_set k v) es []"

fun decode_roles :: "json \<Rightarrow> py_error + role_maps" where
  "decode_roles (JObj d) =
     (if \<not> version_is 1 d then Inl (ValueError ''Unsupported controller roles version'')
      else if \<not> only_keys [''version'', ''roles'', ''pending''] d
        then Inl (ValueError ''Unknown controller roles field'')
      else (case dict_get d ''roles'' (JObj []) of
          JObj es \<Rightarrow>
            ebind (emap decode_role es) (\<lambda>rs.
              case dict_get d ''pending'' (JObj []) of
                JObj ps \<Rightarrow> ebind (emap decode_pending_role ps) (\<lambda>qs. Inr (collect rs, collect qs))
              | _ \<Rightarrow> Inl (TypeError ''Pending controller roles must be an object''))
        | _ \<Rightarrow> Inl (TypeError ''Controller roles must be an object'')))"
| "decode_roles _ = Inl (ValueError ''Unsupported controller roles version'')"

definition role_object :: "(string, string) dict \<Rightarrow> json" where
  "role_object d = JObj (map (\<lambda>(k, v). (k, JStr v)) (dict_sorted d))"

definition encode_roles :: "role_maps \<Rightarrow> json" where
  "encode_roles rp = JObj ([(''version'', JInt 1), (''roles'', role_object (fst rp))] @
     (if snd rp = [] then [] else [(''pending'', role_object (snd rp))]))"

definition load_roles :: "node \<Rightarrow> py_error + role_maps" where
  "load_roles n = ebind (read_regular ''Controller roles must be a regular file'' n) (\<lambda>d.
     case d of None \<Rightarrow> Inr ([], []) | Some j \<Rightarrow> decode_roles j)"

definition open_roles :: "disk option \<Rightarrow> py_error + roles_store" where
  "open_roles path = ebind (case path of None \<Rightarrow> Inr ([], []) | Some k \<Rightarrow> load_roles (content k))
     (\<lambda>(rs, ps). Inr \<lparr>roles_path = path, roles = rs, pending_roles = ps\<rparr>)"

definition save_roles :: "roles_store \<Rightarrow> (py_error + unit) \<times> roles_store" where
  "save_roles r = (case roles_path r of
     None \<Rightarrow> (Inr (), r)
   | Some k \<Rightarrow> (case save_doc ''Controller roles must not be a symlink'' (encode_roles (roles_of r)) k of
       (res, k') \<Rightarrow> (res, r\<lparr>roles_path := Some k'\<rparr>)))"

section \<open>Operations\<close>

definition role_of :: "roles_store \<Rightarrow> string \<Rightarrow> string" where
  "role_of r x = dict_get (roles r) x default_role"

definition pending_role :: "roles_store \<Rightarrow> string \<Rightarrow> string option" where
  "pending_role r g = map_of (pending_roles r) (casefold g)"

definition set_role :: "string \<Rightarrow> string \<Rightarrow> roles_store \<Rightarrow> (py_error + unit) \<times> roles_store" where
  "set_role x role r =
     (if \<not> is_xuid x then (Inl bad_identity, r)
      else if \<not> is_role role then (Inl bad_role, r)
      else save_roles (r\<lparr>roles := dict_set x role (roles r)\<rparr>))"

definition forget_roles :: "string list \<Rightarrow> roles_store \<Rightarrow> (py_error + unit) \<times> roles_store" where
  "forget_roles xs r =
     (if list_ex (\<lambda>x. x \<in> set (keys (roles r))) xs
      then save_roles (r\<lparr>roles := fold dict_pop (remdups xs) (roles r)\<rparr>) else (Inr (), r))"

definition set_pending_role :: "string \<Rightarrow> string \<Rightarrow> roles_store \<Rightarrow> (py_error + unit) \<times> roles_store" where
  "set_pending_role g role r =
     (if \<not> is_gamertag g then (Inl bad_gamertag, r)
      else if \<not> is_role role then (Inl bad_role, r)
      else save_roles (r\<lparr>pending_roles := dict_set (casefold g) role (pending_roles r)\<rparr>))"

definition forget_pending_roles :: "string list \<Rightarrow> roles_store \<Rightarrow> (py_error + unit) \<times> roles_store" where
  "forget_pending_roles gs r =
     (if list_ex (\<lambda>g. casefold g \<in> set (keys (pending_roles r))) gs
      then save_roles (r\<lparr>pending_roles := fold (\<lambda>g. dict_pop (casefold g)) (remdups gs) (pending_roles r)\<rparr>)
      else (Inr (), r))"

section \<open>The codec\<close>

fun role_entry :: "string \<times> string \<Rightarrow> bool" where
  "role_entry (x, r) = (is_xuid x \<and> is_role r)"

fun pending_entry :: "string \<times> string \<Rightarrow> bool" where
  "pending_entry (g, r) = (is_gamertag g \<and> casefold g = g \<and> is_role r)"

definition wf_roles :: "role_maps \<Rightarrow> bool" where
  "wf_roles rp \<longleftrightarrow> dict_all role_entry (fst rp) \<and> dict_all pending_entry (snd rp)"

definition norm_roles :: "role_maps \<Rightarrow> role_maps" where
  "norm_roles rp = (dict_sorted (fst rp), dict_sorted (snd rp))"

lemma is_gamertag_casefold [simp]: "is_gamertag (casefold g) = is_gamertag g"
  by (simp add: is_gamertag_def)

lemma collect_distinct: "distinct (keys es) \<Longrightarrow> collect es = es"
  using fold_dict_set [of "[]" es] by (simp add: collect_def)

lemma decode_role_entry: "decode_role e = Inr x \<Longrightarrow> role_entry x"
  by (cases e) (auto split: if_splits json.splits)

lemma decode_pending_entry: "decode_pending_role e = Inr x \<Longrightarrow> pending_entry x"
  by (cases e) (auto split: if_splits json.splits)

lemma decode_roles_wf: "decode_roles j = Inr rp \<Longrightarrow> wf_roles rp"
proof -
  assume "decode_roles j = Inr rp"
  then obtain d where d: "j = JObj d" "decode_roles (JObj d) = Inr rp" by (cases j) auto
  from d(2) obtain es rs ps qs where *: "emap decode_role es = Inr rs" "emap decode_pending_role ps = Inr qs"
      "rp = (collect rs, collect qs)"
    by (cases "dict_get d ''pending'' (JObj [])") (auto split: if_splits json.splits)
  have "\<forall>e \<in> set rs. role_entry e" using emap_InrD [OF *(1)] decode_role_entry by blast
  moreover have "\<forall>e \<in> set qs. pending_entry e" using emap_InrD [OF *(2)] decode_pending_entry by blast
  ultimately show ?thesis by (simp add: *(3) wf_roles_def collect_def dict_all_fold_set)
qed

lemma decode_encode_roles:
  assumes "wf_roles rp" shows "decode_roles (encode_roles rp) = Inr (norm_roles rp)"
proof -
  have "emap decode_role (map (\<lambda>(k, v). (k, JStr v)) (dict_sorted (fst rp))) = Inr (dict_sorted (fst rp))"
    using assms by (intro emap_inverse) (auto simp: wf_roles_def dict_all_def list_all_iff)
  moreover have "emap decode_pending_role (map (\<lambda>(k, v). (k, JStr v)) (dict_sorted (snd rp))) =
      Inr (dict_sorted (snd rp))"
    using assms by (intro emap_inverse) (auto simp: wf_roles_def dict_all_def list_all_iff)
  ultimately show ?thesis using assms
    by (auto simp: encode_roles_def only_keys_def dict_get_def role_object_def norm_roles_def wf_roles_def
        collect_distinct dict_all_distinct)
qed

interpretation roles_codec: json_codec encode_roles decode_roles wf_roles norm_roles
  by unfold_locales (auto simp: decode_encode_roles decode_roles_wf norm_roles_def)

section \<open>The store as a machine\<close>

datatype roles_op =
    Set_role string string
  | Forget_roles "string list"
  | Set_pending_role string string
  | Forget_pending_roles "string list"

fun roles_step :: "roles_op \<Rightarrow> roles_store \<Rightarrow> (py_error + unit) \<times> roles_store" where
  "roles_step (Set_role x r) s = set_role x r s"
| "roles_step (Forget_roles xs) s = forget_roles xs s"
| "roles_step (Set_pending_role g r) s = set_pending_role g r s"
| "roles_step (Forget_pending_roles gs) s = forget_pending_roles gs s"

lemma save_roles_same [simp]: "roles (snd (save_roles r)) = roles r"
    "pending_roles (snd (save_roles r)) = pending_roles r"
    "(roles_path (snd (save_roles r)) = None) = (roles_path r = None)"
  by (auto simp: save_roles_def split: option.splits prod.splits)

definition stored_roles :: "roles_store \<Rightarrow> node" where
  "stored_roles r = (case roles_path r of None \<Rightarrow> Absent | Some k \<Rightarrow> content k)"

lemma save_roles_stored:
  assumes "roles_path r \<noteq> None"
  shows "(fst (save_roles r) = Inr () \<longrightarrow> stored_roles (snd (save_roles r)) = Plain (Some (encode_roles (roles_of r)))) \<and>
    (fst (save_roles r) \<noteq> Inr () \<longrightarrow> stored_roles (snd (save_roles r)) = stored_roles r)"
proof -
  obtain k where k: "roles_path r = Some k" using assms by auto
  obtain res k' where s: "save_doc ''Controller roles must not be a symlink'' (encode_roles (roles_of r)) k = (res, k')"
    by fastforce
  show ?thesis using s k
    by (cases res) (auto simp: save_roles_def stored_roles_def dest: save_doc_InrD save_doc_InlD)
qed

text \<open>Every operation keeps its memory or saves a changed copy of it.\<close>

lemma roles_step_cases:
  fixes s :: roles_store
  obtains (kept) "snd (roles_step op s) = s"
  | (saved) t where "roles_step op s = save_roles t" "roles_path t = roles_path s"
      "wf_roles (roles_of s) \<Longrightarrow> wf_roles (roles_of t)"
proof (cases op)
  case (Set_role x r)
  show ?thesis
  proof (cases "is_xuid x \<and> is_role r")
    case True
    with Set_role show ?thesis
      by (intro saved [of "s\<lparr>roles := dict_set x r (roles s)\<rparr>"])
        (auto simp: set_role_def wf_roles_def roles_of_def)
  qed (rule kept, use Set_role in \<open>auto simp: set_role_def\<close>)
next
  case (Forget_roles xs)
  show ?thesis
  proof (cases "list_ex (\<lambda>x. x \<in> set (keys (roles s))) xs")
    case True
    with Forget_roles show ?thesis
      using dict_all_fold_pop [of role_entry "roles s" "\<lambda>x. x" "remdups xs"]
      by (intro saved [of "s\<lparr>roles := fold dict_pop (remdups xs) (roles s)\<rparr>"])
        (auto simp: forget_roles_def wf_roles_def roles_of_def)
  qed (rule kept, use Forget_roles in \<open>auto simp: forget_roles_def\<close>)
next
  case (Set_pending_role g r)
  show ?thesis
  proof (cases "is_gamertag g \<and> is_role r")
    case True
    with Set_pending_role show ?thesis
      by (intro saved [of "s\<lparr>pending_roles := dict_set (casefold g) r (pending_roles s)\<rparr>"])
        (auto simp: set_pending_role_def wf_roles_def roles_of_def)
  qed (rule kept, use Set_pending_role in \<open>auto simp: set_pending_role_def\<close>)
next
  case (Forget_pending_roles gs)
  show ?thesis
  proof (cases "list_ex (\<lambda>g. casefold g \<in> set (keys (pending_roles s))) gs")
    case True
    with Forget_pending_roles show ?thesis
      by (intro saved [of "s\<lparr>pending_roles := fold (\<lambda>g. dict_pop (casefold g)) (remdups gs) (pending_roles s)\<rparr>"])
        (auto simp: forget_pending_roles_def wf_roles_def roles_of_def dict_all_fold_pop)
  qed (rule kept, use Forget_pending_roles in \<open>auto simp: forget_pending_roles_def\<close>)
qed

lemma roles_of_saved [simp]: "roles_of (snd (save_roles t)) = roles_of t"
  by (simp add: roles_of_def)

interpretation roles_disk: memory_first encode_roles decode_roles wf_roles norm_roles
    roles_of stored_roles load_roles "\<lambda>r. roles_path r \<noteq> None" "\<lambda>_. True" roles_step
proof
  fix j show "load_roles (Plain (Some j)) = decode_roles j" by (simp add: load_roles_def)
next
  fix s :: roles_store and op assume "roles_path s \<noteq> None"
  then show "roles_path (snd (roles_step op s)) \<noteq> None" by (cases rule: roles_step_cases [of op s]) auto
next
  fix op and s :: roles_store assume "wf_roles (roles_of s)"
  then show "wf_roles (roles_of (snd (roles_step op s)))" by (cases rule: roles_step_cases [of op s]) auto
next
  fix s :: roles_store and op assume "roles_path s \<noteq> None"
  then show "stored_roles (snd (roles_step op s)) = stored_roles s \<or>
      stored_roles (snd (roles_step op s)) = Plain (Some (encode_roles (roles_of (snd (roles_step op s)))))"
  proof (cases rule: roles_step_cases [of op s])
    case (saved t)
    then have "stored_roles t = stored_roles s" by (simp add: stored_roles_def)
    with saved \<open>roles_path s \<noteq> None\<close> save_roles_stored [of t] show ?thesis by auto
  qed auto
next
  fix s :: roles_store and op assume "roles_path s \<noteq> None" "fst (roles_step op s) = Inr ()"
  then show "roles_of (snd (roles_step op s)) = roles_of s \<and> stored_roles (snd (roles_step op s)) = stored_roles s \<or>
      stored_roles (snd (roles_step op s)) = Plain (Some (encode_roles (roles_of (snd (roles_step op s)))))"
    by (cases rule: roles_step_cases [of op s]) (use save_roles_stored in auto)
qed

section \<open>Properties\<close>

definition roles_run :: "roles_op list \<Rightarrow> roles_store \<Rightarrow> roles_store" where
  "roles_run ops s = fold (\<lambda>op s. snd (roles_step op s)) ops s"

lemma roles_run_eq: "roles_run ops s = roles_disk.run ops s"
  by (simp add: roles_run_def roles_disk.run_def)

lemma load_roles_wf: "load_roles n = Inr rp \<Longrightarrow> wf_roles rp"
  by (auto simp: load_roles_def wf_roles_def split: option.splits dest!: decode_roles_wf)

text \<open>Opening a store reads entries in file order; their sorted form is what the file will hold.\<close>

definition roles_agree :: "role_maps \<Rightarrow> role_maps \<Rightarrow> bool" where
  "roles_agree a b \<longleftrightarrow> map_of (fst a) = map_of (fst b) \<and> map_of (snd a) = map_of (snd b)"

lemma norm_roles_agree: "wf_roles rp \<Longrightarrow> roles_agree (norm_roles rp) rp"
  by (auto simp: roles_agree_def norm_roles_def wf_roles_def dest!: dict_all_distinct)

text \<open>The roles file never runs ahead of memory: after any sequence of role changes from an empty store,
  whatever writes fail, it loads, and to the roles memory held after some earlier part of the sequence.\<close>

theorem roles_file_is_earlier_memory:
  assumes "open_roles (Some k) = Inr s" and "content k = Absent"
  shows "\<exists>n \<le> length ops. \<exists>rp. load_roles (stored_roles (roles_run ops s)) = Inr rp \<and>
    roles_agree rp (roles_of (roles_run (take n ops) s))"
proof -
  have s: "s = \<lparr>roles_path = Some k, roles = [], pending_roles = []\<rparr>"
    using assms by (simp add: open_roles_def load_roles_def)
  then have "load_roles (stored_roles s) = Inr (norm_roles (roles_of s))" "wf_roles (roles_of s)"
      "roles_path s \<noteq> None"
    using assms(2) by (simp_all add: stored_roles_def load_roles_def roles_of_def norm_roles_def wf_roles_def)
  from roles_disk.file_is_a_prefix [OF this(3,2,1), of ops]
  obtain n where "n \<le> length ops" "load_roles (stored_roles (roles_disk.run ops s)) =
      Inr (norm_roles (roles_of (roles_disk.run (take n ops) s)))"
    by (auto simp: list_all_iff)
  moreover have "wf_roles (roles_of (roles_disk.run (take n ops) s))"
    using roles_disk.run_wf \<open>wf_roles (roles_of s)\<close> by (simp add: list_all_iff)
  ultimately show ?thesis using norm_roles_agree
    by (intro exI [of _ n] conjI exI [of _ "norm_roles (roles_of (roles_disk.run (take n ops) s))"])
      (simp_all add: roles_run_eq)
qed

lemma roles_file_is_earlier_memory_witness:
  "let s = \<lparr>roles_path = Some \<lparr>content = Absent, outcomes = [True, False]\<rparr>, roles = [], pending_roles = []\<rparr>;
       ops = [Set_role ''25'' ''controller'', Set_role ''25'' ''scripter''] in
     \<exists>n \<le> length ops. \<exists>rp. load_roles (stored_roles (roles_run ops s)) = Inr rp \<and>
      roles_agree rp (roles_of (roles_run (take n ops) s))"
  unfolding Let_def
  by (rule roles_file_is_earlier_memory [where k = "\<lparr>content = Absent, outcomes = [True, False]\<rparr>"])
    (simp_all add: open_roles_def load_roles_def)

end
