(* ===== verification/Presence.thy ===== *)
theory Presence
  imports Json_Store
begin

text \<open>
  Who is online, \<open>endbot_core/link.py\<close>, class \<open>Presence\<close>: every link starts a new epoch, and every
  join in it takes the next number. A session revision is the pair of the two. The lemmas show that a
  revision once replaced is never current again, which is what makes an old in-game command expire.
\<close>

record report =
  player_key :: string
  player_name :: "string option"
  player_xuid :: "string option"
  player_locale :: "string option"

record session = report +
  revision :: "string \<times> nat"

record presence =
  epoch :: "string option"
  joins :: nat
  players :: "(string, session) dict"

definition empty_presence :: presence where
  "empty_presence = \<lparr>epoch = None, joins = 0, players = []\<rparr>"

definition reset :: "string option \<Rightarrow> presence \<Rightarrow> presence" where
  "reset e p = \<lparr>epoch = e, joins = 0, players = []\<rparr>"

definition text_field :: "(string, json) dict \<Rightarrow> string \<Rightarrow> string option" where
  "text_field d k = (case map_of d k of Some (JStr s) \<Rightarrow> Some s | _ \<Rightarrow> None)"

definition no_player_id :: py_error where
  "no_player_id = LinkError ''invalid'' ''player needs playerId''"

fun player_record :: "json \<Rightarrow> py_error + report" where
  "player_record (JObj d) =
     (case text_field d ''playerId'' of
        None \<Rightarrow> Inl no_player_id
      | Some i \<Rightarrow> (if i = [] then Inl no_player_id
          else Inr \<lparr>player_key = i, player_name = text_field d ''name'', player_xuid = text_field d ''xuid'',
            player_locale = text_field d ''locale''\<rparr>))"
| "player_record _ = Inl no_player_id"

text \<open>\<open>_join\<close>: number the session and store it; the caller gets a copy.\<close>

definition join :: "report \<Rightarrow> presence \<Rightarrow> session \<times> presence" where
  "join r p =
     (let s = report.extend r \<lparr>revision = (case epoch p of None \<Rightarrow> '''' | Some e \<Rightarrow> e, Suc (joins p))\<rparr>
      in (s, p\<lparr>joins := Suc (joins p), players := dict_set (player_key r) s (players p)\<rparr>))"

text \<open>The snapshot's players join one by one; a malformed one stops it with the earlier ones joined.\<close>

fun join_all :: "json list \<Rightarrow> presence \<Rightarrow> (py_error + session list) \<times> presence" where
  "join_all [] p = (Inr [], p)"
| "join_all (j # js) p = (case player_record j of
     Inl e \<Rightarrow> (Inl e, p)
   | Inr r \<Rightarrow> (case join r p of (s, p1) \<Rightarrow>
       (case join_all js p1 of (Inl e, p2) \<Rightarrow> (Inl e, p2) | (Inr ss, p2) \<Rightarrow> (Inr (s # ss), p2))))"

definition json_field :: "(string, json) dict \<Rightarrow> string \<Rightarrow> json" where
  "json_field d k = dict_get d k JNull"

fun hashable :: "json \<Rightarrow> bool" where
  "hashable (JArr _) = False"
| "hashable (JObj _) = False"
| "hashable _ = True"

text \<open>A kind that is a list or an object cannot be looked up in the set of kinds.\<close>

definition apply_report :: "(string, json) dict \<Rightarrow> presence \<Rightarrow> (py_error + session list) \<times> presence" where
  "apply_report body p =
     (let k = json_field body ''kind'' in
      if \<not> hashable k then (Inl (TypeError ''unhashable type''), p)
      else if k \<notin> {JStr ''snapshot'', JStr ''join'', JStr ''quit'', JStr ''locale''}
        then (Inl (LinkError ''invalid'' ''unknown presence kind''), p)
      else if epoch p = None then (Inl (LinkError ''unavailable'' ''no plugin link''), p)
      else if k = JStr ''snapshot'' then
        (case json_field body ''players'' of
          JArr js \<Rightarrow> join_all js (p\<lparr>players := []\<rparr>)
        | _ \<Rightarrow> (Inl (LinkError ''invalid'' ''snapshot needs players''), p))
      else if k = JStr ''join'' then join_all [json_field body ''player''] p
      else (case text_field body ''playerId'' of
          None \<Rightarrow> (Inl (LinkError ''invalid'' ''presence needs playerId''), p)
        | Some i \<Rightarrow>
            (case map_of (players p) i of
              None \<Rightarrow> (Inr [], p)
            | Some s \<Rightarrow>
                (if k = JStr ''quit'' then (Inr [s], p\<lparr>players := dict_pop i (players p)\<rparr>)
                 else (let s' = s\<lparr>player_locale := text_field body ''locale''\<rparr>
                       in (Inr [s'], p\<lparr>players := dict_set i s' (players p)\<rparr>))))))"

definition bump_session :: "string \<Rightarrow> presence \<Rightarrow> presence" where
  "bump_session i p = (case map_of (players p) i of
     None \<Rightarrow> p | Some s \<Rightarrow> snd (join (report.truncate s) p))"

definition player :: "string \<Rightarrow> presence \<Rightarrow> session option" where
  "player i p = map_of (players p) i"

definition session_revision :: "string \<Rightarrow> presence \<Rightarrow> (string \<times> nat) option" where
  "session_revision i p = map_option revision (player i p)"

definition online :: "presence \<Rightarrow> session list" where
  "online p = map snd (players p)"

section \<open>The invariant\<close>

text \<open>Every session sits under its own id with a revision of this epoch already counted, and no two
  sessions share one. Without a link there are no sessions.\<close>

definition presence_inv :: "presence \<Rightarrow> bool" where
  "presence_inv p \<longleftrightarrow> distinct (keys (players p)) \<and>
     (\<forall>(i, s) \<in> set (players p). player_key s = i \<and> i \<noteq> [] \<and> epoch p = Some (fst (revision s)) \<and>
        1 \<le> snd (revision s) \<and> snd (revision s) \<le> joins p) \<and>
     distinct (map (snd \<circ> revision) (online p))"

lemma presence_inv_empty [simp]: "presence_inv empty_presence"
  and presence_inv_reset [simp]: "presence_inv (reset e p)"
  by (simp_all add: presence_inv_def empty_presence_def reset_def online_def)

lemma player_record_key: "player_record j = Inr r \<Longrightarrow> player_key r \<noteq> []"
  by (cases j) (auto split: option.splits if_splits)

lemma session_simps [simp]:
  "player_key (report.extend r t) = player_key r" "player_xuid (report.extend r t) = player_xuid r"
  "player_name (report.extend r t) = player_name r"
  "player_key (report.truncate s) = player_key s" "player_name (report.truncate s) = player_name s"
  "player_xuid (report.truncate s) = player_xuid s" "revision (report.extend r \<lparr>revision = v\<rparr>) = v"
  by (simp_all add: report.defs)

lemma join_simps [simp]:
  "epoch (snd (join r p)) = epoch p" "joins (snd (join r p)) = Suc (joins p)"
  "fst (join r p) = report.extend r \<lparr>revision = (case epoch p of None \<Rightarrow> '''' | Some e \<Rightarrow> e, Suc (joins p))\<rparr>"
  "map_of (players (snd (join r p))) = (map_of (players p))(player_key r \<mapsto> fst (join r p))"
  by (simp_all add: join_def Let_def)

text \<open>Values in a dictionary, read through \<open>map_of\<close>: the invariant without positions.\<close>

definition presence_ok :: "presence \<Rightarrow> bool" where
  "presence_ok p \<longleftrightarrow>
     (\<forall>i s. player i p = Some s \<longrightarrow> player_key s = i \<and> i \<noteq> [] \<and> epoch p = Some (fst (revision s)) \<and>
        1 \<le> snd (revision s) \<and> snd (revision s) \<le> joins p) \<and>
     (\<forall>i j s t. player i p = Some s \<longrightarrow> player j p = Some t \<longrightarrow> snd (revision s) = snd (revision t) \<longrightarrow> i = j)"

lemma presence_inv_alt: "presence_inv p \<longleftrightarrow> distinct (keys (players p)) \<and> presence_ok p"
proof (cases "distinct (keys (players p))")
  case True
  have m: "player i p = Some s \<longleftrightarrow> (i, s) \<in> set (players p)" for i s using True by (simp add: player_def)
  have "distinct (map (snd \<circ> revision) (online p)) \<longleftrightarrow>
      (\<forall>(i, s) \<in> set (players p). \<forall>(j, t) \<in> set (players p). snd (revision s) = snd (revision t) \<longrightarrow> i = j)"
  proof -
    have d: "distinct (players p)" using True by (simp add: distinct_map)
    then have "distinct (map (snd \<circ> revision) (online p)) \<longleftrightarrow>
        inj_on (snd \<circ> revision \<circ> snd) (set (players p))"
      by (simp add: online_def distinct_map map_map del: comp_apply)
    also have "\<dots> \<longleftrightarrow> (\<forall>(i, s) \<in> set (players p). \<forall>(j, t) \<in> set (players p). snd (revision s) = snd (revision t) \<longrightarrow> i = j)"
      using True by (fastforce simp: inj_on_def distinct_map)
    finally show ?thesis .
  qed
  with True show ?thesis unfolding presence_inv_def presence_ok_def m by fast
qed (simp add: presence_inv_def)

lemma presence_okD: "presence_ok p \<Longrightarrow> player i p = Some s \<Longrightarrow>
    player_key s = i \<and> i \<noteq> [] \<and> epoch p = Some (fst (revision s)) \<and> 1 \<le> snd (revision s) \<and> snd (revision s) \<le> joins p"
  by (simp add: presence_ok_def)

lemma join_inv:
  assumes "presence_inv p" "epoch p \<noteq> None" "player_key r \<noteq> []"
  shows "presence_inv (snd (join r p))"
proof -
  obtain e where e: "epoch p = Some e" using assms(2) by auto
  have d: "distinct (keys (players (snd (join r p))))"
    using assms(1) by (auto simp: presence_inv_def join_def Let_def intro: distinct_dict_set)
  have ok: "presence_ok p" using assms(1) by (simp add: presence_inv_alt)
  have old: "player i p = Some s \<Longrightarrow> snd (revision s) \<noteq> Suc (joins p)" for i s
    using presence_okD [OF ok, of i s] by simp
  have "presence_ok (snd (join r p))"
    unfolding presence_ok_def
  proof (intro conjI allI impI, goal_cases)
    case (6 i j s t)
    then show ?case using old [of i s] old [of j t] ok unfolding presence_ok_def
      by (auto simp: player_def e split: if_splits)
  qed (use presence_okD [OF ok] e assms(3) in \<open>auto simp: player_def le_Suc_eq split: if_splits\<close>)
  with d show ?thesis by (simp add: presence_inv_alt)
qed

lemma inv_subset:
  assumes "presence_inv p" "distinct (keys ps)" "\<And>i s. map_of ps i = Some s \<Longrightarrow>
      \<exists>t. player i p = Some t \<and> revision s = revision t \<and> player_key s = player_key t"
  shows "presence_inv (p\<lparr>players := ps\<rparr>)"
proof -
  have ok: "presence_ok p" using assms(1) by (simp add: presence_inv_alt)
  have "presence_ok (p\<lparr>players := ps\<rparr>)" unfolding presence_ok_def
  proof (intro conjI allI impI, goal_cases)
    case (6 i j s t)
    then show ?case using assms(3) [of i s] assms(3) [of j t] ok unfolding presence_ok_def player_def by fastforce
  qed (use assms(3) presence_okD [OF ok] in \<open>fastforce simp: player_def\<close>)+
  with assms(2) show ?thesis by (simp add: presence_inv_alt)
qed

section \<open>Elementary steps\<close>

text \<open>What a report or a bump does, as a sequence of elementary changes of the sessions.\<close>

inductive session_step :: "presence \<Rightarrow> presence \<Rightarrow> bool" where
  Joined: "player_key r \<noteq> [] \<Longrightarrow> epoch p \<noteq> None \<Longrightarrow> session_step p (snd (join r p))"
| Cleared: "session_step p (p\<lparr>players := []\<rparr>)"
| Left: "session_step p (p\<lparr>players := dict_pop i (players p)\<rparr>)"
| Relocated: "map_of (players p) i = Some s \<Longrightarrow>
    session_step p (p\<lparr>players := dict_set i (s\<lparr>player_locale := l\<rparr>) (players p)\<rparr>)"

inductive_cases session_stepE: "session_step p q"

lemma session_step_inv: "session_step p q \<Longrightarrow> presence_inv p \<Longrightarrow> presence_inv q"
proof (induction rule: session_step.induct)
  case (Relocated p i s l)
  then show ?case by (intro inv_subset) (auto simp: presence_inv_def player_def split: if_splits)
next
  case (Left p i)
  then show ?case by (intro inv_subset) (auto simp: presence_inv_def player_def split: if_splits)
next
  case (Cleared p)
  then show ?case by (intro inv_subset) auto
qed (simp add: join_inv)

lemma session_steps_inv: "session_step\<^sup>*\<^sup>* p q \<Longrightarrow> presence_inv p \<Longrightarrow> presence_inv q"
  by (induction rule: rtranclp_induct) (auto intro: session_step_inv)

lemma session_step_frame: "session_step p q \<Longrightarrow> epoch q = epoch p \<and> joins p \<le> joins q"
  by (auto elim: session_stepE)

lemma session_steps_frame: "session_step\<^sup>*\<^sup>* p q \<Longrightarrow> epoch q = epoch p \<and> joins p \<le> joins q"
  by (induction rule: rtranclp_induct) (auto dest: session_step_frame)

lemma join_all_steps: "epoch p \<noteq> None \<Longrightarrow> session_step\<^sup>*\<^sup>* p (snd (join_all js p))"
proof (induction js arbitrary: p)
  case (Cons j js)
  show ?case
  proof (cases "player_record j")
    case (Inr r)
    obtain s p1 where j: "join r p = (s, p1)" by fastforce
    have "epoch p1 \<noteq> None" "session_step p p1"
      using Joined [of r p] Cons.prems player_record_key [OF Inr] join_simps(1) [of r p] j by auto
    with Cons.IH [of p1] have "session_step\<^sup>*\<^sup>* p (snd (join_all js p1))"
      by (meson converse_rtranclp_into_rtranclp)
    then show ?thesis using Inr j by (auto split: prod.splits sum.splits)
  qed simp
qed simp

lemma apply_report_steps: "session_step\<^sup>*\<^sup>* p (snd (apply_report body p))"
proof (cases "epoch p")
  case (Some e)
  have snap: "session_step\<^sup>*\<^sup>* p (snd (join_all js (p\<lparr>players := []\<rparr>)))" for js
    using join_all_steps [of "p\<lparr>players := []\<rparr>" js] Cleared [of p] Some
    by (auto intro: converse_rtranclp_into_rtranclp)
  have joined: "session_step\<^sup>*\<^sup>* p (snd (join_all js p))" for js
    using join_all_steps Some by auto
  have left: "session_step\<^sup>*\<^sup>* p (p\<lparr>players := dict_pop i (players p)\<rparr>)" for i
    using Left [of p i] by blast
  have moved: "map_of (players p) i = Some s \<Longrightarrow>
      session_step\<^sup>*\<^sup>* p (p\<lparr>players := dict_set i (s\<lparr>player_locale := l\<rparr>) (players p)\<rparr>)" for i s l
    using Relocated [of p i s l] by blast
  show ?thesis
    using snap joined left moved
    by (simp add: apply_report_def Let_def del: join_all.simps split: json.split option.split)
qed (simp add: apply_report_def Let_def)

lemma bump_session_steps: "presence_inv p \<Longrightarrow> session_step\<^sup>*\<^sup>* p (bump_session i p)"
proof (cases "map_of (players p) i")
  case (Some s)
  assume "presence_inv p"
  then have "player_key s = i \<and> i \<noteq> [] \<and> epoch p \<noteq> None"
    using Some presence_okD [of p i s] by (auto simp: presence_inv_alt player_def)
  with Some show ?thesis by (auto simp: bump_session_def intro!: Joined)
qed (simp add: bump_session_def)

lemma apply_report_inv: "presence_inv p \<Longrightarrow> presence_inv (snd (apply_report body p))"
  using apply_report_steps session_steps_inv by blast

lemma bump_session_inv: "presence_inv p \<Longrightarrow> presence_inv (bump_session i p)"
  using bump_session_steps session_steps_inv by blast

lemma bump_session_epoch [simp]: "epoch (bump_session i p) = epoch p"
  by (simp add: bump_session_def split: option.split)

section \<open>A replaced revision stays replaced\<close>

text \<open>\<open>handed i r p\<close>: nobody but \<open>i\<close> holds revision \<open>r\<close>, which is of another epoch or already counted.
  \<open>spent r p\<close>: neither does \<open>i\<close>.\<close>

definition handed :: "string \<Rightarrow> string \<times> nat \<Rightarrow> presence \<Rightarrow> bool" where
  "handed i r p \<longleftrightarrow> (epoch p = Some (fst r) \<longrightarrow> snd r \<le> joins p) \<and> (\<forall>j. session_revision j p = Some r \<longrightarrow> j = i)"

definition spent :: "string \<times> nat \<Rightarrow> presence \<Rightarrow> bool" where
  "spent r p \<longleftrightarrow> (epoch p = Some (fst r) \<longrightarrow> snd r \<le> joins p) \<and> (\<forall>j. session_revision j p \<noteq> Some r)"

lemma step_revision:
  assumes "session_step p q" "session_revision j q = Some r"
  shows "session_revision j p = Some r \<or> (epoch p = Some (fst r) \<and> snd r = Suc (joins p))"
  using assms by (auto elim!: session_stepE simp: session_revision_def player_def split: if_splits)

lemma handed_step: "session_step p q \<Longrightarrow> handed i r p \<Longrightarrow> handed i r q"
  and spent_step: "session_step p q \<Longrightarrow> spent r p \<Longrightarrow> spent r q"
  using step_revision [of p q _ r] session_step_frame [of p q] by (fastforce simp: handed_def spent_def)+

lemma handed_steps: "session_step\<^sup>*\<^sup>* p q \<Longrightarrow> handed i r p \<Longrightarrow> handed i r q"
  by (induction rule: rtranclp_induct) (auto intro: handed_step)

lemma spent_steps: "session_step\<^sup>*\<^sup>* p q \<Longrightarrow> spent r p \<Longrightarrow> spent r q"
  by (induction rule: rtranclp_induct) (auto intro: spent_step)

lemma spent_reset: "e \<noteq> Some (fst r) \<Longrightarrow> spent r (reset e p)"
  by (simp add: spent_def reset_def session_revision_def player_def)

lemma current_handed:
  assumes "presence_inv p" "session_revision i p = Some r" shows "handed i r p"
proof -
  have ok: "presence_ok p" using assms(1) by (simp add: presence_inv_alt)
  obtain s where s: "player i p = Some s" "revision s = r" using assms(2) by (auto simp: session_revision_def)
  have "j = i" if "session_revision j p = Some r" for j
  proof -
    obtain t where t: "player j p = Some t" "revision t = r" using \<open>session_revision j p = Some r\<close>
      by (auto simp: session_revision_def)
    have "snd (revision t) = snd (revision s)" using s t by simp
    with s t ok show ?thesis unfolding presence_ok_def by blast
  qed
  with presence_okD [OF ok s(1)] s(2) show ?thesis by (simp add: handed_def)
qed

lemma replaced_spent:
  assumes "presence_inv p" "session_revision i p = Some r" "session_step\<^sup>*\<^sup>* p q" "session_revision i q \<noteq> Some r"
  shows "spent r q"
  using handed_steps [OF assms(3) current_handed [OF assms(1,2)]] assms(4) by (auto simp: handed_def spent_def)

end
