(* ===== verification/Principal.thy ===== *)
theory Principal
  imports Json_Store
begin

text \<open>
  Who an operation acts for, \<open>endbot_core/principal.py\<close>: the record \<open>principal\<close> is the frozen
  dataclass, \<open>make_principal\<close> its check of kind and role, \<open>console\<close> and \<open>can_author\<close> its two
  properties, \<open>as_job\<close> what a job keeps of the principal that started it.
\<close>

datatype kind = Player | Console | Run | Job | Web

fun kind_name :: "kind \<Rightarrow> string" where
  "kind_name Player = ''player''"
| "kind_name Console = ''console''"
| "kind_name Run = ''run''"
| "kind_name Job = ''job''"
| "kind_name Web = ''web''"

definition all_kinds :: "kind list" where
  "all_kinds = [Player, Console, Run, Job, Web]"

definition kind_of_name :: "string \<Rightarrow> kind option" where
  "kind_of_name s = find (\<lambda>k. kind_name k = s) all_kinds"

record principal =
  p_kind :: kind
  p_name :: "string option"
  p_xuid :: "string option"
  grant_revision :: "int option"
  p_language :: string
  p_origin :: "json option"
  player_id :: "string option"
  authorization_revision :: "(string \<times> nat) option"
  run_id :: "string option"
  p_role :: "string option"

text \<open>The defaults of the fields, for a principal of kind \<open>k\<close>.\<close>

definition principal_of :: "kind \<Rightarrow> principal" where
  "principal_of k = \<lparr>p_kind = k, p_name = None, p_xuid = None, grant_revision = None, p_language = ''en'',
     p_origin = None, player_id = None, authorization_revision = None, run_id = None, p_role = None\<rparr>"

definition known_role :: "string option \<Rightarrow> bool" where
  "known_role r \<longleftrightarrow> r = None \<or> r = Some ''scripter'' \<or> r = Some ''controller''"

text \<open>\<open>__post_init__\<close>, with the kind still as text.\<close>

definition make_principal :: "string \<Rightarrow> principal \<Rightarrow> py_error + principal" where
  "make_principal kind p = (case kind_of_name kind of
     None \<Rightarrow> Inl (ValueError ''unknown principal kind'')
   | Some k \<Rightarrow> (if known_role (p_role p) then Inr (p\<lparr>p_kind := k\<rparr>) else Inl (ValueError ''unknown role'')))"

definition console :: "principal \<Rightarrow> bool" where
  "console p \<longleftrightarrow> player_id p = None \<and> p_xuid p = None"

definition can_author :: "principal \<Rightarrow> bool" where
  "can_author p \<longleftrightarrow> console p \<or> p_role p \<noteq> Some ''controller''"

definition as_job :: "principal \<Rightarrow> principal" where
  "as_job p = (if p_kind p = Player then p\<lparr>p_kind := Job\<rparr> else p)"

lemma kind_of_kind_name [simp]: "kind_of_name (kind_name k) = Some k"
  by (cases k) (simp_all add: kind_of_name_def all_kinds_def)

lemma kind_of_name_SomeD: "kind_of_name s = Some k \<Longrightarrow> kind_name k = s"
  by (auto simp: kind_of_name_def all_kinds_def split: if_splits)

lemma make_principal_InrD:
  "make_principal k p = Inr q \<Longrightarrow> kind_name (p_kind q) = k \<and> known_role (p_role q) \<and> console q = console p"
  by (auto simp: make_principal_def console_def dest: kind_of_name_SomeD split: option.splits if_splits)

lemma as_job_simps [simp]:
  "player_id (as_job p) = player_id p" "p_xuid (as_job p) = p_xuid p" "p_name (as_job p) = p_name p"
  "grant_revision (as_job p) = grant_revision p" "p_role (as_job p) = p_role p" "console (as_job p) = console p"
  "p_kind (as_job p) \<noteq> Player" "as_job (as_job p) = as_job p"
  by (auto simp: as_job_def console_def)

end
