(* ===== verification/Authorization.thy ===== *)
theory Authorization
  imports Enrollment
begin

text \<open>
  The legacy identity allowlist, \<open>endbot_core/authorization.py\<close>: \<open>from_config\<close> reads the two lists of
  the configuration, \<open>list_allows\<close> decides for one player. Nothing that is not listed is allowed.
\<close>

record allowlist =
  allowed_uuids :: "string list"
  allowed_xuids :: "string list"

definition no_allowlist :: allowlist where
  "no_allowlist = \<lparr>allowed_uuids = [], allowed_xuids = []\<rparr>"

fun allowed_uuid :: "json \<Rightarrow> py_error + string" where
  "allowed_uuid (JStr s) = norm_uuid s"
| "allowed_uuid _ = Inl (TypeError ''allowed UUIDs must be strings'')"

definition isascii :: "string \<Rightarrow> bool" where
  "isascii s \<longleftrightarrow> list_all (\<lambda>c. code c < 128) s"

fun allowed_xuid :: "json \<Rightarrow> py_error + string" where
  "allowed_xuid (JStr s) =
     (if isascii s \<and> isdecimal s then Inr s else Inl (ValueError ''allowed XUIDs must be decimal strings''))"
| "allowed_xuid _ = Inl (TypeError ''allowed XUIDs must be strings'')"

definition allowlist_from_config :: "(string, json) dict \<Rightarrow> py_error + allowlist" where
  "allowlist_from_config config =
     (case (dict_get config ''allowed-uuids'' (JArr []), dict_get config ''allowed-xuids'' (JArr [])) of
        (JArr us, JArr xs) \<Rightarrow>
          ebind (emap allowed_uuid us) (\<lambda>uuids.
          ebind (emap allowed_xuid xs) (\<lambda>xuids.
            Inr \<lparr>allowed_uuids = remdups uuids, allowed_xuids = remdups xuids\<rparr>))
      | _ \<Rightarrow> Inl (TypeError ''authorization allowlists must be arrays''))"

definition list_allows :: "allowlist \<Rightarrow> string \<Rightarrow> string \<Rightarrow> bool" where
  "list_allows l player_uuid player_xuid =
     ((case norm_uuid player_uuid of Inl _ \<Rightarrow> '''' | Inr u \<Rightarrow> u) \<in> set (allowed_uuids l) \<or>
      player_xuid \<noteq> [] \<and> player_xuid \<in> set (allowed_xuids l))"

definition wf_allowlist :: "allowlist \<Rightarrow> bool" where
  "wf_allowlist l \<longleftrightarrow> list_all canonical (allowed_uuids l) \<and> list_all isdecimal (allowed_xuids l)"

lemma allowed_uuid_canonical: "allowed_uuid j = Inr u \<Longrightarrow> canonical u"
  by (cases j) (auto dest: canonical_norm)

lemma allowed_xuid_decimal: "allowed_xuid j = Inr x \<Longrightarrow> isdecimal x"
  by (cases j) (auto split: if_splits)

lemma allowlist_from_config_wf:
  assumes "allowlist_from_config c = Inr l" shows "wf_allowlist l"
proof -
  obtain us xs uuids xuids where *: "emap allowed_uuid us = Inr uuids" "emap allowed_xuid xs = Inr xuids"
    "l = \<lparr>allowed_uuids = remdups uuids, allowed_xuids = remdups xuids\<rparr>"
    using assms by (auto simp: allowlist_from_config_def split: json.splits)
  have "canonical u" if "u \<in> set uuids" for u
    using emap_InrD [OF *(1) that] by (auto dest: allowed_uuid_canonical)
  moreover have "isdecimal x" if "x \<in> set xuids" for x
    using emap_InrD [OF *(2) that] by (auto dest: allowed_xuid_decimal)
  ultimately show ?thesis by (simp add: *(3) wf_allowlist_def list_all_iff)
qed

end
