(* ===== verification/Shell_Words.thy ===== *)
theory Shell_Words
  imports Prelude
begin

text \<open>
  The standard library's \<open>shlex.split\<close> and \<open>shlex.quote\<close> as the program calls them: POSIX mode,
  split at whitespace, no comments. The automaton has the states of \<open>shlex.read_token\<close>:
  between words, in a word, in quotes (which of the two), and after a backslash (and what to go
  back to). Quoting a word and splitting the result gives the word back, also within a joined line.
\<close>

datatype shell_state = Between | Word | Quoted char | Escape shell_state

definition is_white :: "char \<Rightarrow> bool" where
  "is_white c \<longleftrightarrow> c = CHR '' '' \<or> c = CHR 0x09 \<or> c = CHR 0x0D \<or> c = CHR 0x0A"

definition is_quote :: "char \<Rightarrow> bool" where
  "is_quote c \<longleftrightarrow> c = CHR 0x27 \<or> c = CHR 0x22"

definition backslash :: char where
  "backslash = CHR 0x5C"

text \<open>\<open>started\<close>: the current word has a character or had a quote, so that it counts even when empty.\<close>

fun split_from :: "shell_state \<Rightarrow> bool \<Rightarrow> string \<Rightarrow> string \<Rightarrow> py_error + string list" where
  "split_from (Quoted q) st w [] = Inl (ValueError ''No closing quotation'')"
| "split_from (Escape b) st w [] = Inl (ValueError ''No escaped character'')"
| "split_from s st w [] = Inr (if st then [w] else [])"
| "split_from Between st w (c # cs) =
     (if is_white c then split_from Between False [] cs
      else if c = backslash then split_from (Escape Word) False [] cs
      else if is_quote c then split_from (Quoted c) False [] cs
      else split_from Word True [c] cs)"
| "split_from Word st w (c # cs) =
     (if is_white c then
        (if st then ebind (split_from Between False [] cs) (\<lambda>ws. Inr (w # ws)) else split_from Between False [] cs)
      else if is_quote c then split_from (Quoted c) st w cs
      else if c = backslash then split_from (Escape Word) st w cs
      else split_from Word True (w @ [c]) cs)"
| "split_from (Quoted q) st w (c # cs) =
     (if c = q then split_from Word True w cs
      else if c = backslash \<and> q = CHR 0x22 then split_from (Escape (Quoted q)) True w cs
      else split_from (Quoted q) True (w @ [c]) cs)"
| "split_from (Escape b) st w (c # cs) =
     (case b of
        Quoted q \<Rightarrow> split_from b True (if c \<noteq> backslash \<and> c \<noteq> q then w @ [backslash, c] else w @ [c]) cs
      | _ \<Rightarrow> split_from b True (w @ [c]) cs)"

definition shlex_split :: "string \<Rightarrow> py_error + string list" where
  "shlex_split s = split_from Between False [] s"

definition is_safe :: "char \<Rightarrow> bool" where
  "is_safe c \<longleftrightarrow> is_digit c \<or> (65 \<le> code c \<and> code c \<le> 90) \<or> (97 \<le> code c \<and> code c \<le> 122) \<or>
     c \<in> set ''_@%+=:,./-''"

fun escape_quotes :: "string \<Rightarrow> string" where
  "escape_quotes [] = []"
| "escape_quotes (c # cs) =
     (if c = CHR 0x27 then [CHR 0x27, CHR 0x22, CHR 0x27, CHR 0x22, CHR 0x27] else [c]) @ escape_quotes cs"

definition shlex_quote :: "string \<Rightarrow> string" where
  "shlex_quote s =
     (if s = [] then [CHR 0x27, CHR 0x27]
      else if list_all is_safe s then s
      else CHR 0x27 # escape_quotes s @ [CHR 0x27])"

definition join_with :: "string \<Rightarrow> string list \<Rightarrow> string" where
  "join_with sep ws = concat (case ws of [] \<Rightarrow> [] | v # vs \<Rightarrow> v # map ((@) sep) vs)"

section \<open>Quoting is undone by splitting\<close>

lemma is_safe_plain: "is_safe c \<Longrightarrow> \<not> is_white c \<and> \<not> is_quote c \<and> c \<noteq> backslash"
  by (auto simp: is_safe_def is_white_def is_quote_def backslash_def is_digit_def code_def)

lemma split_safe_word:
  "list_all is_safe s \<Longrightarrow> split_from Word True w (s @ rest) = split_from Word True (w @ s) rest"
  by (induction s arbitrary: w) (auto dest: is_safe_plain)

lemma split_safe:
  "s \<noteq> [] \<Longrightarrow> list_all is_safe s \<Longrightarrow> split_from Between False [] (s @ rest) = split_from Word True s rest"
  by (cases s) (auto dest: is_safe_plain simp: split_safe_word)

lemma split_escaped:
  "split_from (Quoted (CHR 0x27)) st w (escape_quotes s @ CHR 0x27 # rest) = split_from Word True (w @ s) rest"
proof (induction s arbitrary: st w)
  case (Cons c s)
  then show ?case by (auto simp: is_white_def is_quote_def backslash_def)
qed simp

lemma split_quoted: "split_from Between False [] (shlex_quote s @ rest) = split_from Word True s rest"
proof -
  consider "s = []" | "s \<noteq> []" "list_all is_safe s" | "s \<noteq> []" "\<not> list_all is_safe s" by blast
  then show ?thesis
  proof cases
    case 3
    have "split_from Between False [] (CHR 0x27 # escape_quotes s @ CHR 0x27 # rest) =
        split_from (Quoted (CHR 0x27)) False [] (escape_quotes s @ CHR 0x27 # rest)"
      by (simp add: is_white_def is_quote_def backslash_def)
    with 3 show ?thesis by (simp add: shlex_quote_def split_escaped)
  qed (simp_all add: shlex_quote_def split_safe is_white_def is_quote_def backslash_def)
qed

lemma split_quote: "shlex_split (shlex_quote s) = Inr [s]"
  using split_quoted [of s "[]"] by (simp add: shlex_split_def)

lemma split_joined_tail:
  "split_from Word True w (concat (map (\<lambda>v. CHR '' '' # shlex_quote v) vs)) = Inr (w # vs)"
  by (induction vs arbitrary: w) (auto simp: is_white_def split_quoted)

lemma split_join: "shlex_split (join_with '' '' (map shlex_quote ws)) = Inr ws"
proof (cases ws)
  case (Cons v vs)
  have "map ((@) '' '') (map shlex_quote vs) = map (\<lambda>v. CHR '' '' # shlex_quote v) vs" by simp
  with Cons show ?thesis
    by (simp add: shlex_split_def join_with_def split_quoted split_joined_tail comp_def)
qed (simp add: shlex_split_def join_with_def)

end
