(* ===== verification/Authority.thy ===== *)
theory Authority
  imports Controller_Policy Grant_Revisions Controller_Roles Presence Principal Authorization Effects Shell_Words
begin

text \<open>
  Who may control Bots, \<open>endbotd/authority.py\<close>. The record \<open>authority\<close> is the class \<open>Authority\<close>: it
  holds the presence, the legacy allowlist, the bootstrap enrollment, the controller policy, the grant
  revisions, the roles, and the control permission last sent to each player. Its methods run under one
  lock, so each is one step here. The time stamp a new binding gets is the argument \<open>now\<close>.
\<close>

record authority =
  a_presence :: presence
  a_allowed :: allowlist
  a_controllers :: enrollment
  a_policy :: policy_store
  a_revisions :: revisions
  a_roles :: roles_store
  a_granted :: "(string, bool) dict"

abbreviation on_presence :: "(presence, 'a) action \<Rightarrow> (authority, 'a) action" where
  "on_presence \<equiv> on_part a_presence (\<lambda>t. a_presence_update (\<lambda>_. t))"

abbreviation on_controllers :: "(enrollment, 'a) action \<Rightarrow> (authority, 'a) action" where
  "on_controllers \<equiv> on_part a_controllers (\<lambda>t. a_controllers_update (\<lambda>_. t))"

abbreviation on_policy :: "(policy_store, 'a) action \<Rightarrow> (authority, 'a) action" where
  "on_policy \<equiv> on_part a_policy (\<lambda>t. a_policy_update (\<lambda>_. t))"

abbreviation on_revisions :: "(revisions, 'a) action \<Rightarrow> (authority, 'a) action" where
  "on_revisions \<equiv> on_part a_revisions (\<lambda>t. a_revisions_update (\<lambda>_. t))"

abbreviation on_roles :: "(roles_store, 'a) action \<Rightarrow> (authority, 'a) action" where
  "on_roles \<equiv> on_part a_roles (\<lambda>t. a_roles_update (\<lambda>_. t))"

abbreviation policy_now :: "authority \<Rightarrow> policy" where
  "policy_now a \<equiv> state (a_policy a)"

text \<open>\<open>record.get(key) or ""\<close>.\<close>

definition or_empty :: "string option \<Rightarrow> string" where
  "or_empty v = (case v of None \<Rightarrow> '''' | Some s \<Rightarrow> s)"

section \<open>Decisions\<close>

definition control_decision :: "authority \<Rightarrow> string \<Rightarrow> string \<Rightarrow> string \<Rightarrow> py_error + bool \<times> string" where
  "control_decision a name x i =
     (let p = policy_now a in
      if \<not> is_xuid x then Inr (False, ''Xbox authentication required'')
      else if x \<in> set (denied_xuids p) then Inr (False, ''revoked XUID'')
      else if i \<in> set (denied_uuids p) then Inr (False, ''revoked UUID'')
      else ebind (grants p x) (\<lambda>g. Inr
       (if g then (True, ''runtime grant'')
        else if name_denied p name then (False, ''revoked GamerTag'')
        else if list_ex (\<lambda>b. xuid b = x) (bindings (a_controllers a)) then (True, ''bootstrap binding'')
        else if x \<in> set (allowed_xuids (a_allowed a)) then (True, ''legacy XUID allowlist'')
        else if i \<in> set (allowed_uuids (a_allowed a)) then (True, ''legacy UUID allowlist'')
        else (False, ''not enrolled''))))"

definition allows :: "authority \<Rightarrow> session \<Rightarrow> py_error + bool" where
  "allows a s = ebind (control_decision a (or_empty (player_name s)) (or_empty (player_xuid s)) (player_key s))
     (\<lambda>(ok, _). Inr ok)"

definition role_for :: "authority \<Rightarrow> string \<Rightarrow> string" where
  "role_for a x = role_of (a_roles a) x"

definition authorize :: "principal \<Rightarrow> authority \<Rightarrow> py_error + bool" where
  "authorize p a =
     (if console p then Inr True
      else (case player_id p of
          None \<Rightarrow> Inr False
        | Some i \<Rightarrow>
            (if grant_revision p \<noteq> Some (get_revision (a_revisions a) i) then Inr False
             else (case (p_kind p, player i (a_presence a)) of
                 (Player, None) \<Rightarrow> Inr False
               | (Player, Some s) \<Rightarrow>
                   ebind (allows a s) (\<lambda>ok. Inr (ok \<and> authorization_revision p = Some (revision s)))
               | (_, Some s) \<Rightarrow> allows a s
               | (_, None) \<Rightarrow>
                   ebind (control_decision a (or_empty (p_name p)) (or_empty (p_xuid p)) i) (\<lambda>(ok, _). Inr ok)))))"

section \<open>Presence\<close>

text \<open>\<open>_apply\<close>: a permission that changes ends what was queued under the old session revision.\<close>

definition apply_permission :: "string \<Rightarrow> (authority, string \<times> bool) action" where
  "apply_permission i a =
     (case (case player i (a_presence a) of None \<Rightarrow> Inr False | Some s \<Rightarrow> allows a s) of
        Inl e \<Rightarrow> (Inl e, a)
      | Inr ok \<Rightarrow>
          (let a1 = (if dict_get (a_granted a) i False \<noteq> ok
                     then a\<lparr>a_presence := bump_session i (a_presence a)\<rparr> else a)
           in (Inr (i, ok), a1\<lparr>a_granted := dict_set i ok (a_granted a1)\<rparr>)))"

text \<open>One player of \<open>joined\<close>: enroll a pending grant, bind a configured GamerTag, hand over a waiting role.\<close>

definition bind_joined :: "string \<Rightarrow> string \<Rightarrow> string \<Rightarrow> string \<Rightarrow> (authority, unit) action" where
  "bind_joined now name x i a =
     (if \<not> is_xuid x then (Inr (), a)
      else (case denied (policy_now a) x i of
          Inl e \<Rightarrow> (Inl e, a)
        | Inr d \<Rightarrow>
            (if d \<or> name_denied (policy_now a) name then (Inr (), a)
             else sbind (on_controllers (authorize_binding now name x i)) (\<lambda>_. ret ()) a)))"

definition hand_over_role :: "session \<Rightarrow> (authority, unit) action" where
  "hand_over_role s a =
     (let name = or_empty (player_name s); x = or_empty (player_xuid s) in
      if \<not> is_xuid x then (Inr (), a)
      else (case pending_role (a_roles a) name of
          None \<Rightarrow> (Inr (), a)
        | Some r \<Rightarrow> (case allows a s of
              Inl e \<Rightarrow> (Inl e, a)
            | Inr False \<Rightarrow> (Inr (), a)
            | Inr True \<Rightarrow> sthen (on_roles (set_role x r)) (on_roles (forget_pending_roles [name])) a)))"

definition join_one :: "string \<Rightarrow> session \<Rightarrow> (authority, string \<times> bool) action" where
  "join_one now s =
     (let name = or_empty (player_name s); x = or_empty (player_xuid s); i = player_key s in
      sbind (on_policy (enroll now name x i)) (\<lambda>_.
      sthen (bind_joined now name x i)
      (sthen (hand_over_role s) (apply_permission i))))"

definition joined :: "string \<Rightarrow> session list \<Rightarrow> bool \<Rightarrow> (authority, (string \<times> bool) list) action" where
  "joined now ss snapshot =
     sthen (swhen snapshot (update (\<lambda>a. a\<lparr>a_granted := []\<rparr>))) (smap (join_one now) ss)"

definition quit :: "string \<Rightarrow> authority \<Rightarrow> authority" where
  "quit i a = a\<lparr>a_granted := dict_pop i (a_granted a)\<rparr>"

definition refresh :: "(authority, (string \<times> bool) list) action" where
  "refresh a = smap apply_permission (map player_key (online (a_presence a))) a"

section \<open>The report\<close>

record row =
  row_name :: string
  row_state :: string
  row_reason :: string
  row_xuid :: "string option"
  row_uuid :: "string option"
  row_role :: "string option"
  row_online :: bool

text \<open>The rows so far and the identities they already show.\<close>

record tally =
  rows :: "row list"
  seen_xuids :: "string list"
  seen_names :: "string list"
  seen_uuids :: "string list"

definition row_of_binding :: "authority \<Rightarrow> binding \<Rightarrow> tally \<Rightarrow> py_error + tally" where
  "row_of_binding a b t =
     (if xuid b \<in> set (seen_xuids t) then Inr t
      else (let s = find (\<lambda>s. player_xuid s = Some (xuid b)) (online (a_presence a));
                name = (case s of None \<Rightarrow> gamertag b
                  | Some s' \<Rightarrow> (if or_empty (player_name s') = [] then gamertag b else or_empty (player_name s')));
                i = (case s of None \<Rightarrow> uuid b | Some s' \<Rightarrow> player_key s')
            in ebind (control_decision a name (xuid b) i) (\<lambda>(ok, why). Inr
              \<lparr>rows = rows t @ [\<lparr>row_name = name, row_state = (if ok then ''allowed'' else ''revoked''),
                 row_reason = why, row_xuid = Some (xuid b), row_uuid = Some i,
                 row_role = (if ok then Some (role_of (a_roles a) (xuid b)) else None), row_online = s \<noteq> None\<rparr>],
               seen_xuids = xuid b # seen_xuids t,
               seen_names = casefold name # casefold (gamertag b) # seen_names t,
               seen_uuids = i # seen_uuids t\<rparr>)))"

definition row_of_player :: "authority \<Rightarrow> session \<Rightarrow> tally \<Rightarrow> py_error + tally" where
  "row_of_player a s t =
     (let x = or_empty (player_xuid s); i = player_key s; name = or_empty (player_name s) in
      if \<not> is_xuid x \<or> x \<in> set (seen_xuids t) then Inr t
      else ebind (control_decision a name x i) (\<lambda>(ok, why). Inr
        \<lparr>rows = rows t @ [\<lparr>row_name = name, row_state = (if ok then ''allowed'' else ''denied''),
           row_reason = why, row_xuid = Some x, row_uuid = Some i,
           row_role = (if ok then Some (role_of (a_roles a) x) else None), row_online = True\<rparr>],
         seen_xuids = x # seen_xuids t, seen_names = casefold name # seen_names t,
         seen_uuids = i # seen_uuids t\<rparr>))"

definition plain_row :: "string \<Rightarrow> string \<Rightarrow> string \<Rightarrow> string option \<Rightarrow> row" where
  "plain_row name st why r = \<lparr>row_name = name, row_state = st, row_reason = why, row_xuid = None,
     row_uuid = None, row_role = r, row_online = False\<rparr>"

definition row_of_name :: "authority \<Rightarrow> string \<Rightarrow> tally \<Rightarrow> tally" where
  "row_of_name a name t =
     (if casefold name \<in> set (seen_names t) then t
      else t\<lparr>rows := rows t @ [if name_denied (policy_now a) name
          then plain_row name ''revoked'' ''revoked GamerTag'' None
          else plain_row name ''pending'' ''awaiting first Xbox-authenticated join''
            (Some (case pending_role (a_roles a) name of None \<Rightarrow> ''scripter'' | Some r \<Rightarrow> r))],
        seen_names := casefold name # seen_names t\<rparr>)"

definition identity_rows :: "string \<Rightarrow> string \<Rightarrow> string list \<Rightarrow> string list \<Rightarrow> string list \<Rightarrow> row list" where
  "identity_rows kind upper configured denied_ids seen =
     map (\<lambda>i. if i \<in> set denied_ids then plain_row (kind @ '':'' @ i) ''revoked'' (''revoked '' @ upper) None
           else plain_row (kind @ '':'' @ i) ''conditional''
             (''legacy '' @ upper @ '' allowlist; requires Xbox authentication and identity checks'') None)
       (filter (\<lambda>i. i \<notin> set seen) (merged configured denied_ids))"

definition rows_of_accounts :: "authority \<Rightarrow> py_error + tally" where
  "rows_of_accounts a =
     ebind (efold (row_of_binding a) (rev (bindings (a_controllers a) @ grants_of (policy_now a)))
       \<lparr>rows = [], seen_xuids = [], seen_names = [], seen_uuids = []\<rparr>)
       (efold (row_of_player a) (online (a_presence a)))"

definition controllers_report :: "authority \<Rightarrow> py_error + row list" where
  "controllers_report a =
     ebind (rows_of_accounts a) (\<lambda>t0.
       let t = fold (row_of_name a)
             (pending_tags (a_controllers a) @ pending (policy_now a) @ denied_names (policy_now a)) t0
       in Inr (sort_key (\<lambda>r. casefold (row_name r))
         (rows t @ identity_rows ''xuid'' ''XUID'' (allowed_xuids (a_allowed a)) (denied_xuids (policy_now a)) (seen_xuids t) @
          identity_rows ''uuid'' ''UUID'' (allowed_uuids (a_allowed a)) (denied_uuids (policy_now a)) (seen_uuids t))))"

section \<open>The console's operation\<close>

record outcome =
  o_ok :: bool
  o_messages :: "string list"
  o_entries :: "row list"

definition describe :: "row \<Rightarrow> string" where
  "describe r = row_name r @ '': '' @ row_state r @ '' - '' @ row_reason r @
     (case row_role r of None \<Rightarrow> '''' | Some v \<Rightarrow> if v = [] then '''' else '' (role '' @ v @ '')'')"

definition operation_usage :: py_error where
  "operation_usage = ValueError (''Use botcontrollers list|add <GamerTag> [--role scripter|controller]|remove '' @
     ''<GamerTag|xuid:id|uuid:id>'')"

text \<open>The words after the operation: \<open>(target, role)\<close>; a trailing \<open>--role r\<close> belongs to \<open>add\<close>.\<close>

definition console_words :: "string \<Rightarrow> string list \<Rightarrow> string option \<Rightarrow> string \<times> string option" where
  "console_words operation ws role =
     (if operation = ''add'' \<and> 3 \<le> length ws \<and> ws ! (length ws - 2) = ''--role''
      then (join_with '' '' (butlast (butlast ws)), case role of None \<Rightarrow> Some (last ws) | Some r \<Rightarrow> Some r)
      else (join_with '' '' ws, role))"

definition console_target ::
    "string \<Rightarrow> string list \<Rightarrow> string option \<Rightarrow> string option \<Rightarrow> py_error + string option \<times> string option" where
  "console_target operation args target role =
     (if target = None \<and> 2 \<le> length args
      then ebind (shlex_split (join_with '' '' (tl args))) (\<lambda>ws.
        case console_words operation ws role of (t, r) \<Rightarrow> Inr (Some t, r))
      else Inr (target, role))"

definition named_player :: "string \<Rightarrow> authority \<Rightarrow> session option" where
  "named_player target a =
     find (\<lambda>s. casefold (or_empty (player_name s)) = casefold target) (online (a_presence a))"

definition known_binding :: "string \<Rightarrow> authority \<Rightarrow> binding option" where
  "known_binding target a =
     find (\<lambda>b. casefold (gamertag b) = casefold target) (bindings (a_controllers a) @ grants_of (policy_now a))"

definition record_role :: "string option \<Rightarrow> string \<Rightarrow> string \<Rightarrow> (authority, unit) action" where
  "record_role x target effective =
     (case x of
        Some x' \<Rightarrow> (if is_xuid x'
          then sthen (on_roles (set_role x' effective)) (on_roles (forget_pending_roles [target]))
          else on_roles (set_pending_role target effective))
      | None \<Rightarrow> on_roles (set_pending_role target effective))"

definition effective_role :: "string \<Rightarrow> string option \<Rightarrow> row list \<Rightarrow> string option" where
  "effective_role target role rs = (case role of
     Some r \<Rightarrow> Some r
   | None \<Rightarrow> if find (\<lambda>r. casefold (row_name r) = casefold target \<and> row_state r = ''allowed'') rs = None
       then Some ''controller'' else None)"

text \<open>The account an \<open>add\<close> is about: of the player online under the name, else of a known binding.\<close>

definition added_xuid :: "string \<Rightarrow> authority \<Rightarrow> string option" where
  "added_xuid target a = (case named_player target a of
     Some s \<Rightarrow> player_xuid s | None \<Rightarrow> map_option xuid (known_binding target a))"

definition add_to_policy :: "string \<Rightarrow> string \<Rightarrow> session option \<Rightarrow> binding option \<Rightarrow> (policy_store, unit) action" where
  "add_to_policy now target pl b = (case pl of
     Some s \<Rightarrow> add_identity now target (or_empty (player_xuid s)) (Some (player_key s))
   | None \<Rightarrow> (case b of
       Some b' \<Rightarrow> add_identity now target (xuid b') (Some (uuid b'))
     | None \<Rightarrow> add_name now target))"

text \<open>\<open>add\<close>: the role first, then the grant.\<close>

definition console_add :: "string \<Rightarrow> string \<Rightarrow> string option \<Rightarrow> (authority, unit) action" where
  "console_add now target role a =
     (case controllers_report a of
        Inl e \<Rightarrow> (Inl e, a)
      | Inr rs \<Rightarrow>
          sthen (case effective_role target role rs of
              None \<Rightarrow> ret () | Some r \<Rightarrow> record_role (added_xuid target a) target r)
            (on_policy (add_to_policy now target (named_player target a) (known_binding target a))) a)"

text \<open>A row the policy now denies by XUID, UUID or name.\<close>

definition row_denied :: "policy \<Rightarrow> row \<Rightarrow> bool" where
  "row_denied p r \<longleftrightarrow>
     (case row_xuid r of None \<Rightarrow> False | Some x \<Rightarrow> x \<in> set (denied_xuids p)) \<or>
     (case row_uuid r of None \<Rightarrow> False | Some u \<Rightarrow> u \<in> set (denied_uuids p)) \<or>
     casefold (row_name r) \<in> set (denied_names p)"

definition row_identities :: "(row \<Rightarrow> string option) \<Rightarrow> policy \<Rightarrow> row list \<Rightarrow> string list" where
  "row_identities f p rs = List.map_filter (\<lambda>r. case f r of
     None \<Rightarrow> None | Some v \<Rightarrow> if v \<noteq> [] \<and> row_denied p r then Some v else None) rs"

definition console_remove :: "string \<Rightarrow> (authority, unit) action" where
  "console_remove target a =
     (case controllers_report a of
        Inl e \<Rightarrow> (Inl e, a)
      | Inr before \<Rightarrow>
          sthen (on_policy (remove target (bindings (a_controllers a)) (gamertags (a_controllers a))
              (map_option (\<lambda>s. (or_empty (player_xuid s), Some (player_key s))) (named_player target a))))
            (\<lambda>a1. sthen (on_revisions (bump (row_identities row_uuid (policy_now a1) before)))
              (sthen (on_roles (forget_roles (row_identities row_xuid (policy_now a1) before)))
                (on_roles (forget_pending_roles [target]))) a1) a)"

definition report_result :: "string \<Rightarrow> bool \<Rightarrow> (string \<times> bool) list \<Rightarrow> (authority, outcome \<times> (string \<times> bool) list) action" where
  "report_result target added ps = look (\<lambda>a. ebind (controllers_report a) (\<lambda>rs. Inr
     (\<lparr>o_ok = True, o_messages = (''Endbot: controller '' @ target @ (if added then '' updated'' else '' revoked'')) #
         map describe (filter (\<lambda>r. casefold (row_name r) = casefold target) rs), o_entries = rs\<rparr>, ps)))"

definition list_result :: "authority \<Rightarrow> py_error + outcome \<times> (string \<times> bool) list" where
  "list_result a = ebind (controllers_report a) (\<lambda>rs. Inr
     (\<lparr>o_ok = True, o_messages = ''Endbot controllers (live effective authorization):'' #
         map (\<lambda>r. describe r @ (if row_online r then '' (online)'' else '''')) rs @
         (if rs = [] then [''none; the server console remains authorized''] else []), o_entries = rs\<rparr>, []))"

definition console_operation ::
    "string \<Rightarrow> string list \<Rightarrow> string option \<Rightarrow> string option \<Rightarrow> (authority, outcome \<times> (string \<times> bool) list) action" where
  "console_operation now args target role a =
     (if args = [] \<or> args = [''list''] then (list_result a, a)
      else (let operation = casefold (hd args) in
        case console_target operation args target role of
          Inl e \<Rightarrow> (Inl e, a)
        | Inr (tgt, r) \<Rightarrow>
            (if operation = ''add'' \<and> (case r of None \<Rightarrow> False | Some v \<Rightarrow> \<not> is_role v)
             then (Inl (ValueError ''role must be scripter or controller''), a)
             else if operation \<notin> {''add'', ''remove''} \<or> or_empty tgt = [] then (Inl operation_usage, a)
             else sbind (sthen (if operation = ''add'' then console_add now (or_empty tgt) r
                          else console_remove (or_empty tgt)) refresh)
                    (report_result (or_empty tgt) (operation = ''add'')) a)))"

text \<open>\<open>operation\<close>: file, value and type errors become a failed result; what was done before them stays.\<close>

definition operation ::
    "string \<Rightarrow> string list \<Rightarrow> string option \<Rightarrow> string option \<Rightarrow> (authority, outcome \<times> (string \<times> bool) list) action" where
  "operation now args target role a =
     (case console_operation now args target role a of
        (Inl e, a') \<Rightarrow>
          (if is_os_error e \<or> is_value_error e \<or> is_type_error e
           then (Inr (\<lparr>o_ok = False, o_messages = [''Endbot: controller change failed: '' @ error_text e], o_entries = []\<rparr>, []), a')
           else (Inl e, a'))
      | (Inr r, a') \<Rightarrow> (Inr r, a'))"

end
