(* ===== verification/Web_Auth.thy ===== *)
theory Web_Auth
  imports Web_Store Link_Codes Authority
begin

text \<open>
  Ceremonies and sessions of the web, \<open>WebAuth\<close> of \<open>endbotd/web_auth.py\<close>. The state is the store, the link
  codes and the open ceremonies; the authority is read. The WebAuthn library is a parameter: what its two
  verifications answer (\<open>None\<close> for any of the exceptions that are a refusal), the options it generates and the
  hash of a token. A request brings the moment it runs at, one for all its reads of the clock, and the random
  values drawn for it. What a result sends to the callbacks is not modelled.
\<close>

record verified_passkey =
  v_id :: string
  v_key :: string
  v_count :: int

record webauthn =
  rp_id :: string
  verify_registration :: "entry \<Rightarrow> string \<Rightarrow> verified_passkey option"
  verify_authentication :: "entry \<Rightarrow> string \<Rightarrow> string \<Rightarrow> int \<Rightarrow> int option"
  registration_json :: "entry \<Rightarrow> string \<Rightarrow> string list \<Rightarrow> json"
  login_json :: "string \<Rightarrow> json"
  transport_names :: "string list"
  token_hash :: "string \<Rightarrow> string"

record draw =
  d_now :: rat
  d_mono :: rat
  d_ceremony :: string
  d_challenge :: string
  d_token :: string
  d_session :: string
  d_account :: string
  d_handle :: string

record ceremony =
  cer_kind :: string
  cer_challenge :: string
  cer_expires :: rat
  cer_identity :: "link_identity option"
  cer_via :: string

record web_auth =
  w_store :: web_store
  w_codes :: link_codes
  w_ceremonies :: "(string, ceremony) dict"

definition ceremony_seconds :: rat where "ceremony_seconds = 120"
definition max_ceremonies :: nat where "max_ceremonies = 100"
definition recent_assertion_seconds :: rat where "recent_assertion_seconds = 300"
definition session_idle_seconds :: rat where "session_idle_seconds = 7 * 86400"
definition session_absolute_seconds :: rat where "session_absolute_seconds = 30 * 86400"
definition last_seen_seconds :: rat where "last_seen_seconds = 3600"
definition label_characters :: nat where "label_characters = 64"
definition max_passkeys :: nat where "max_passkeys = 10"

abbreviation on_store :: "(web_store, 'a) action \<Rightarrow> (web_auth, 'a) action" where
  "on_store \<equiv> on_part w_store (\<lambda>t. w_store_update (\<lambda>_. t))"

definition refuse :: "nat \<Rightarrow> string \<Rightarrow> (web_auth, 'a) action" where
  "refuse n c = fail (AuthError n c)"

section \<open>Times\<close>

text \<open>\<open>now - value >= limit\<close> and \<open>value < other\<close> for numbers as JSON holds them.\<close>

fun elapsed :: "rat \<Rightarrow> rat \<Rightarrow> json option \<Rightarrow> bool" where
  "elapsed now limit (Some (JInt i)) = (now - of_int i \<ge> limit)"
| "elapsed now limit (Some (JFloat (Finite r))) = (now - r \<ge> limit)"
| "elapsed now limit (Some (JFloat (Infinite positive))) = (\<not> positive)"
| "elapsed now limit _ = False"

fun as_number :: "json \<Rightarrow> number option" where
  "as_number (JInt i) = Some (Finite (of_int i))"
| "as_number (JBool b) = Some (Finite (if b then 1 else 0))"
| "as_number (JFloat n) = Some n"
| "as_number _ = None"

fun number_less :: "number \<Rightarrow> number \<Rightarrow> bool" where
  "number_less (Finite a) (Finite b) = (a < b)"
| "number_less (Finite a) (Infinite p) = p"
| "number_less (Infinite p) (Finite b) = (\<not> p)"
| "number_less (Infinite p) (Infinite q) = (\<not> p \<and> q)"
| "number_less _ _ = False"

definition json_less :: "json \<Rightarrow> json \<Rightarrow> py_error + bool" where
  "json_less a b = (case (as_number a, as_number b) of
     (Some m, Some n) \<Rightarrow> Inr (number_less m n) | _ \<Rightarrow> Inl (TypeError ''not supported between instances''))"

section \<open>Request bodies\<close>

definition label_of :: "entry \<Rightarrow> string" where
  "label_of body = (case map_of body ''label'' of
     Some (JStr l) \<Rightarrow> if isprintable l then take label_characters l else [] | _ \<Rightarrow> [])"

definition credential_of :: "entry \<Rightarrow> (web_auth, entry) action" where
  "credential_of body = (case map_of body ''credential'' of
     Some (JObj c) \<Rightarrow> (case map_of c ''id'' of Some (JStr i) \<Rightarrow> ret c | _ \<Rightarrow> refuse 400 ''invalid_request'')
   | _ \<Rightarrow> refuse 400 ''invalid_request'')"

record response =
  status :: nat
  r_body :: json
  new_session :: "string option"
  clear_session :: bool

definition respond :: "nat \<Rightarrow> json \<Rightarrow> response" where
  "respond n b = \<lparr>status = n, r_body = b, new_session = None, clear_session = False\<rparr>"

definition code_body :: "string \<Rightarrow> json" where
  "code_body c = JObj [(''code'', JStr c)]"

section \<open>Ceremonies\<close>

definition begin_ceremony :: "draw \<Rightarrow> string \<Rightarrow> link_identity option \<Rightarrow> string \<Rightarrow> (web_auth, string) action" where
  "begin_ceremony q kind i via w =
     (let cs = filter (\<lambda>(k, c). cer_expires c > d_now q) (w_ceremonies w); w' = w\<lparr>w_ceremonies := cs\<rparr> in
      if length cs \<ge> max_ceremonies then refuse 429 ''busy'' w'
      else ret (d_ceremony q) (w'\<lparr>w_ceremonies := dict_set (d_ceremony q)
        \<lparr>cer_kind = kind, cer_challenge = d_challenge q, cer_expires = d_now q + ceremony_seconds, cer_identity = i, cer_via = via\<rparr> cs\<rparr>))"

text \<open>The ceremony is gone after the first attempt, valid or not.\<close>

definition finish_ceremony :: "draw \<Rightarrow> entry \<Rightarrow> string \<Rightarrow> (web_auth, ceremony) action" where
  "finish_ceremony q body kind w = (case map_of body ''ceremony'' of
     Some (JStr k) \<Rightarrow>
       (let w' = w\<lparr>w_ceremonies := dict_pop k (w_ceremonies w)\<rparr> in
        case map_of (w_ceremonies w) k of
          None \<Rightarrow> refuse 400 ''expired'' w'
        | Some c \<Rightarrow> if cer_kind c \<noteq> kind \<or> cer_expires c \<le> d_now q then refuse 400 ''expired'' w' else ret c w')
   | _ \<Rightarrow> refuse 400 ''expired'' w)"

definition permitted :: "authority \<Rightarrow> string \<Rightarrow> string \<Rightarrow> string \<Rightarrow> (web_auth, unit) action" where
  "permitted a tag x u = sbind (look (\<lambda>_. control_decision a tag x u)) (\<lambda>(ok, why).
     if ok then ret () else refuse 403 ''no_access'')"

definition check_passkeys :: "string \<Rightarrow> (web_auth, unit) action" where
  "check_passkeys i w = (if length (passkeys_of i (w_store w)) \<ge> max_passkeys then refuse 409 ''passkey_limit'' w else ret () w)"

definition registration_options :: "webauthn \<Rightarrow> draw \<Rightarrow> link_identity \<Rightarrow> string \<Rightarrow> (web_auth, response) action" where
  "registration_options l q i via =
     sbind (on_store (ensure_account (d_account q) (d_handle q) (d_now q) (link_xuid i) (link_player i) (link_gamertag i))) (\<lambda>a.
     sbind (check_passkeys (text_at ''id'' a)) (\<lambda>_.
     sbind (look (\<lambda>w. Inr (map (text_at ''id'') (passkeys_of (text_at ''id'' a) (w_store w))))) (\<lambda>known.
     sbind (begin_ceremony q ''register'' (Some i) via) (\<lambda>c.
       ret (respond 200 (JObj [(''ceremony'', JStr c), (''options'', registration_json l a (d_challenge q) known)]))))))"

definition link_options :: "webauthn \<Rightarrow> authority \<Rightarrow> draw \<Rightarrow> entry \<Rightarrow> (web_auth, response) action" where
  "link_options l a q body w = (case map_of body ''code'' of
     Some (JStr c) \<Rightarrow>
       if length c > 32 then refuse 400 ''invalid_code'' w
       else (case redeem_code c (d_mono q) (w_codes w) of (r, shut, cs) \<Rightarrow>
         let w' = w\<lparr>w_codes := cs\<rparr> in
         case r of
           Inl e \<Rightarrow> refuse 429 ''link_closed'' w'
         | Inr None \<Rightarrow> refuse 400 ''invalid_code'' w'
         | Inr (Some i) \<Rightarrow>
             sbind (permitted a (link_gamertag i) (link_xuid i) (link_player i)) (\<lambda>_. registration_options l q i ''passkey'') w')
   | _ \<Rightarrow> refuse 400 ''invalid_code'' w)"

section \<open>Sessions\<close>

definition issue_session :: "webauthn \<Rightarrow> authority \<Rightarrow> draw \<Rightarrow> entry \<Rightarrow> string \<Rightarrow> string \<Rightarrow> (web_auth, string) action" where
  "issue_session l a q acc via label =
     sbind (on_store (add_session
       [(''id'', JStr (d_session q)), (''hash'', JStr (token_hash l (d_token q))), (''account'', JStr (text_at ''id'' acc)),
        (''via'', JStr via), (''label'', JStr label), (''created'', JFloat (Finite (d_now q))), (''lastSeen'', JFloat (Finite (d_now q))),
        (''assertedAt'', JFloat (Finite (d_now q))), (''grantRevision'', JInt (get_revision (a_revisions a) (text_at ''uuid'' acc)))]))
     (\<lambda>_. ret (d_token q))"

definition signed_in_as :: "webauthn \<Rightarrow> authority \<Rightarrow> draw \<Rightarrow> entry \<Rightarrow> string \<Rightarrow> entry \<Rightarrow> (web_auth, response) action" where
  "signed_in_as l a q acc via body = sbind (issue_session l a q acc via (label_of body)) (\<lambda>token.
     ret ((respond 200 (JObj [(''gamertag'', JStr (text_at ''gamertag'' acc))]))\<lparr>new_session := Some token\<rparr>))"

definition end_session :: "entry \<Rightarrow> (web_auth, unit) action" where
  "end_session e = on_store (delete_session (text_at ''hash'' e))"

definition json_at :: "string \<Rightarrow> entry \<Rightarrow> json" where
  "json_at k e = dict_get e k JNull"

text \<open>Expired, orphaned, or older than the account's last revocation.\<close>

definition session_ended :: "rat \<Rightarrow> entry \<Rightarrow> entry option \<Rightarrow> py_error + bool" where
  "session_ended now e acc = (case acc of
     None \<Rightarrow> Inr True
   | Some a \<Rightarrow>
       if elapsed now session_idle_seconds (map_of e ''lastSeen'') \<or> elapsed now session_absolute_seconds (map_of e ''created'')
       then Inr True
       else json_less (json_at ''created'' e) (dict_get a ''sessionsFrom'' (JInt 0)))"

definition session_for :: "webauthn \<Rightarrow> rat \<Rightarrow> bool \<Rightarrow> string option \<Rightarrow> (web_auth, entry option) action" where
  "session_for l now active token w = (case token of
     None \<Rightarrow> (Inr None, w)
   | Some t \<Rightarrow>
       if t = [] then (Inr None, w)
       else (case find_session (token_hash l t) (w_store w) of
           None \<Rightarrow> (Inr None, w)
         | Some e \<Rightarrow> sbind (look (\<lambda>w. session_ended now e (account (text_at ''account'' e) (w_store w)))) (\<lambda>gone.
             if gone then sbind (end_session e) (\<lambda>_. ret None)
             else if active \<and> elapsed now last_seen_seconds (map_of e ''lastSeen'')
               then sbind (on_store (update_session (text_at ''hash'' e) [(''lastSeen'', JFloat (Finite now))])) (\<lambda>_. ret (Some e))
             else ret (Some e)) w))"

definition web_principal :: "authority \<Rightarrow> entry \<Rightarrow> entry \<Rightarrow> string \<Rightarrow> py_error + principal" where
  "web_principal a acc e lang = make_principal ''web'' ((principal_of Web)\<lparr>p_name := Some (text_at ''gamertag'' acc),
     p_xuid := Some (text_at ''xuid'' acc), player_id := Some (text_at ''uuid'' acc), grant_revision := int_at ''grantRevision'' e,
     p_language := lang, p_role := Some (role_for a (text_at ''xuid'' acc))\<rparr>)"

definition principal_for :: "webauthn \<Rightarrow> authority \<Rightarrow> rat \<Rightarrow> string \<Rightarrow> bool \<Rightarrow> string option \<Rightarrow> (web_auth, principal option) action" where
  "principal_for l a now lang active token =
     sbind (session_for l now active token) (\<lambda>s. case s of
       None \<Rightarrow> ret None
     | Some e \<Rightarrow> (\<lambda>w. case account (text_at ''account'' e) (w_store w) of
         None \<Rightarrow> (Inr None, w)
       | Some acc \<Rightarrow> (ebind (web_principal a acc e lang) (\<lambda>p. ebind (authorize p a) (\<lambda>ok.
             Inr (if ok then Some p else None))), w)))"

definition required_session :: "webauthn \<Rightarrow> authority \<Rightarrow> rat \<Rightarrow> string option \<Rightarrow> (web_auth, entry) action" where
  "required_session l a now token =
     sbind (session_for l now True token) (\<lambda>s. case s of
       None \<Rightarrow> refuse 401 ''signed_out''
     | Some e \<Rightarrow> sbind (principal_for l a now ''en'' True token) (\<lambda>p.
         if p = None then refuse 401 ''signed_out'' else ret e))"

definition recent_session :: "webauthn \<Rightarrow> authority \<Rightarrow> rat \<Rightarrow> string option \<Rightarrow> (web_auth, entry) action" where
  "recent_session l a now token =
     sbind (required_session l a now token) (\<lambda>e.
       if elapsed now recent_assertion_seconds (map_of e ''assertedAt'') then refuse 403 ''reauthenticate'' else ret e)"

section \<open>Proving who it is\<close>

definition transports_of :: "webauthn \<Rightarrow> entry \<Rightarrow> json list" where
  "transports_of l c = (case map_of c ''response'' of
     Some (JObj r) \<Rightarrow> (case map_of r ''transports'' of
         Some (JArr ts) \<Rightarrow> filter (\<lambda>t. case t of JStr s \<Rightarrow> s \<in> set (transport_names l) | _ \<Rightarrow> False) ts
       | _ \<Rightarrow> [])
   | _ \<Rightarrow> [])"

definition new_passkey :: "webauthn \<Rightarrow> draw \<Rightarrow> entry \<Rightarrow> verified_passkey \<Rightarrow> entry \<Rightarrow> string \<Rightarrow> entry \<Rightarrow> entry" where
  "new_passkey l q acc v c via body =
     [(''id'', JStr (v_id v)), (''account'', JStr (text_at ''id'' acc)), (''publicKey'', JStr (v_key v)), (''signCount'', JInt (v_count v)),
      (''rpId'', JStr (rp_id l)), (''transports'', JArr (transports_of l c)), (''label'', JStr (label_of body)),
      (''created'', JFloat (Finite (d_now q))), (''lastUsed'', JNull), (''via'', JStr via)]"

fun count_or_zero :: "int option \<Rightarrow> int" where
  "count_or_zero None = 0"
| "count_or_zero (Some n) = n"

definition link_verify :: "webauthn \<Rightarrow> authority \<Rightarrow> draw \<Rightarrow> entry \<Rightarrow> (web_auth, response) action" where
  "link_verify l a q body =
     sbind (finish_ceremony q body ''register'') (\<lambda>cer.
     sbind (credential_of body) (\<lambda>c. case cer_identity cer of
       None \<Rightarrow> fail (AttributeError ''xuid'')
     | Some i \<Rightarrow>
         sbind (look (\<lambda>w. Inr (account_for_xuid (link_xuid i) (w_store w)))) (\<lambda>found. case found of
           None \<Rightarrow> refuse 403 ''no_access''
         | Some acc \<Rightarrow>
             sbind (permitted a (link_gamertag i) (link_xuid i) (link_player i)) (\<lambda>_.
             case verify_registration l c (cer_challenge cer) of
               None \<Rightarrow> refuse 400 ''passkey_refused''
             | Some v \<Rightarrow>
                 sbind (check_passkeys (text_at ''id'' acc)) (\<lambda>_.
                 sbind (look (\<lambda>w. Inr (find_passkey (v_id v) (w_store w)))) (\<lambda>used.
                 if used \<noteq> None then refuse 400 ''passkey_refused''
                 else sbind (on_store (add_passkey (new_passkey l q acc v c (cer_via cer) body))) (\<lambda>_.
                   signed_in_as l a q acc (cer_via cer) body)))))))"

definition login_options :: "webauthn \<Rightarrow> draw \<Rightarrow> (web_auth, response) action" where
  "login_options l q = sbind (begin_ceremony q ''login'' None ''passkey'') (\<lambda>c.
     ret (respond 200 (JObj [(''ceremony'', JStr c), (''options'', login_json l (d_challenge q))])))"

definition login_verify :: "webauthn \<Rightarrow> authority \<Rightarrow> draw \<Rightarrow> entry \<Rightarrow> string option \<Rightarrow> (web_auth, response) action" where
  "login_verify l a q body token =
     sbind (finish_ceremony q body ''login'') (\<lambda>cer.
     sbind (credential_of body) (\<lambda>c.
     sbind (look (\<lambda>w. Inr (find_passkey (text_at ''id'' c) (w_store w)))) (\<lambda>found. case found of
       None \<Rightarrow> refuse 400 ''passkey_refused''
     | Some k \<Rightarrow>
         if text_at ''rpId'' k \<noteq> rp_id l then refuse 400 ''passkey_refused''
         else sbind (look (\<lambda>w. Inr (account (text_at ''account'' k) (w_store w)))) (\<lambda>acc. case acc of
           None \<Rightarrow> refuse 400 ''passkey_refused''
         | Some acc \<Rightarrow>
             (case verify_authentication l c (cer_challenge cer) (text_at ''publicKey'' k) (count_or_zero (int_at ''signCount'' k)) of
               None \<Rightarrow> refuse 400 ''passkey_refused''
             | Some n \<Rightarrow>
                 sbind (permitted a (text_at ''gamertag'' acc) (text_at ''xuid'' acc) (text_at ''uuid'' acc)) (\<lambda>_.
                 sbind (on_store (update_passkey (text_at ''id'' k) [(''signCount'', JInt n), (''lastUsed'', JFloat (Finite (d_now q)))])) (\<lambda>_.
                 sbind (session_for l (d_now q) True token) (\<lambda>previous.
                 sbind (case previous of
                     Some e \<Rightarrow> swhen (text_at ''account'' e = text_at ''id'' acc) (end_session e) | None \<Rightarrow> ret ()) (\<lambda>_.
                   signed_in_as l a q acc ''passkey'' body)))))))))"

section \<open>Signing out and devices\<close>

definition logout :: "webauthn \<Rightarrow> draw \<Rightarrow> string option \<Rightarrow> (web_auth, response) action" where
  "logout l q token =
     sbind (session_for l (d_now q) True token) (\<lambda>s w.
       case (case s of Some e \<Rightarrow> end_session e w | None \<Rightarrow> (Inr (), w)) of
         (Inl e, w') \<Rightarrow> (if is_os_error e then (Inr ((respond 503 (code_body ''unavailable''))\<lparr>clear_session := True\<rparr>), w')
             else (Inl e, w'))
       | (Inr _, w') \<Rightarrow> (Inr ((respond 200 (JObj []))\<lparr>clear_session := True\<rparr>), w'))"

text \<open>\<open>entry[field]\<close>.\<close>

definition field :: "entry \<Rightarrow> string \<Rightarrow> py_error + string \<times> json" where
  "field e k = (case map_of e k of None \<Rightarrow> Inl (KeyError k) | Some v \<Rightarrow> Inr (k, v))"

definition shown_session :: "entry \<Rightarrow> entry \<Rightarrow> py_error + json" where
  "shown_session e x = ebind (emap (field x) [''id'', ''label'', ''via'', ''created'', ''lastSeen'']) (\<lambda>d.
     Inr (JObj (d @ [(''current'', JBool (text_at ''hash'' x = text_at ''hash'' e))])))"

definition shown_passkey :: "entry \<Rightarrow> py_error + json" where
  "shown_passkey x = ebind (emap (field x) [''id'', ''label'', ''created'', ''lastUsed'']) (\<lambda>d. Inr (JObj d))"

definition devices :: "webauthn \<Rightarrow> authority \<Rightarrow> draw \<Rightarrow> string option \<Rightarrow> (web_auth, response) action" where
  "devices l a q token =
     sbind (required_session l a (d_now q) token) (\<lambda>e. look (\<lambda>w.
       ebind (emap (shown_session e) (sessions_of (text_at ''account'' e) (w_store w))) (\<lambda>ss.
       ebind (emap shown_passkey (passkeys_of (text_at ''account'' e) (w_store w))) (\<lambda>ks.
         Inr (respond 200 (JObj [(''sessions'', JArr ss), (''passkeys'', JArr ks)]))))))"

definition named_entry :: "entry \<Rightarrow> entry list \<Rightarrow> entry option" where
  "named_entry body es = find (\<lambda>x. map_of body ''id'' = Some (JStr (text_at ''id'' x))) es"

definition remove_session :: "webauthn \<Rightarrow> authority \<Rightarrow> draw \<Rightarrow> entry \<Rightarrow> string option \<Rightarrow> (web_auth, response) action" where
  "remove_session l a q body token =
     sbind (required_session l a (d_now q) token) (\<lambda>e.
     sbind (look (\<lambda>w. Inr (named_entry body (sessions_of (text_at ''account'' e) (w_store w))))) (\<lambda>target. case target of
       None \<Rightarrow> refuse 404 ''not_found''
     | Some x \<Rightarrow> sbind (end_session x) (\<lambda>_.
         ret ((respond 200 (JObj []))\<lparr>clear_session := (text_at ''hash'' x = text_at ''hash'' e)\<rparr>))))"

definition remove_passkey :: "webauthn \<Rightarrow> authority \<Rightarrow> draw \<Rightarrow> entry \<Rightarrow> string option \<Rightarrow> (web_auth, response) action" where
  "remove_passkey l a q body token =
     sbind (recent_session l a (d_now q) token) (\<lambda>e.
     sbind (look (\<lambda>w. Inr (named_entry body (passkeys_of (text_at ''account'' e) (w_store w))))) (\<lambda>target. case target of
       None \<Rightarrow> refuse 404 ''not_found''
     | Some x \<Rightarrow> sbind (on_store (delete_passkey (text_at ''id'' x))) (\<lambda>_. ret (respond 200 (JObj [])))))"

section \<open>The entry point\<close>

datatype route = Link_Options | Link_Verify | Login_Options | Login_Verify | Logout | Devices | Remove_Session | Remove_Passkey

definition route_of :: "string \<Rightarrow> route option" where
  "route_of path = map_of
     [(''/auth/link/options'', Link_Options), (''/auth/link/verify'', Link_Verify), (''/auth/login/options'', Login_Options),
      (''/auth/login/verify'', Login_Verify), (''/auth/logout'', Logout), (''/auth/devices'', Devices),
      (''/auth/session/remove'', Remove_Session), (''/auth/passkey/remove'', Remove_Passkey)] path"

fun run_route :: "webauthn \<Rightarrow> authority \<Rightarrow> draw \<Rightarrow> route \<Rightarrow> entry \<Rightarrow> string option \<Rightarrow> (web_auth, response) action" where
  "run_route l a q Link_Options body token = link_options l a q body"
| "run_route l a q Link_Verify body token = link_verify l a q body"
| "run_route l a q Login_Options body token = login_options l q"
| "run_route l a q Login_Verify body token = login_verify l a q body token"
| "run_route l a q Logout body token = logout l q token"
| "run_route l a q Devices body token = devices l a q token"
| "run_route l a q Remove_Session body token = remove_session l a q body token"
| "run_route l a q Remove_Passkey body token = remove_passkey l a q body token"

definition refused :: "nat \<Rightarrow> string \<Rightarrow> response" where
  "refused n c = (respond n (code_body c))\<lparr>clear_session := (n = 401)\<rparr>"

definition handle :: "webauthn \<Rightarrow> authority \<Rightarrow> draw \<Rightarrow> string \<Rightarrow> json \<Rightarrow> string option \<Rightarrow> (web_auth, response) action" where
  "handle l a q path j token w = (case route_of path of
     None \<Rightarrow> (Inr (respond 404 (code_body ''not_found'')), w)
   | Some r \<Rightarrow> (case j of
       JObj body \<Rightarrow> (case run_route l a q r body token w of
           (Inr x, w') \<Rightarrow> (Inr x, w')
         | (Inl e, w') \<Rightarrow> (case e of
             AuthError n c \<Rightarrow> (Inr (refused n c), w')
           | OSError m \<Rightarrow> (Inr (respond 503 (code_body ''unavailable'')), w')
           | _ \<Rightarrow> (Inl e, w')))
     | _ \<Rightarrow> (Inr (respond 400 (code_body ''invalid_request'')), w)))"

end
