(* ===== verification/Authority_Laws.thy ===== *)
theory Authority_Laws
  imports Authority
begin

text \<open>
  What every method of \<open>Authority\<close> keeps: the well-formedness of its parts, the session numbering and
  the grant revisions, which only grow. Then the decision in its declarative form.
\<close>

section \<open>Well-formed authorities\<close>

definition enrollment_ok :: "enrollment \<Rightarrow> bool" where
  "enrollment_ok e \<longleftrightarrow> enrollment_inv e \<and> list_all valid_name (gamertags e)"

definition wf_authority :: "authority \<Rightarrow> bool" where
  "wf_authority a \<longleftrightarrow> presence_inv (a_presence a) \<and> enrollment_ok (a_controllers a) \<and>
     wf_policy (policy_now a)"

lemma dropWhile_same: "length (dropWhile p xs) = length xs \<Longrightarrow> dropWhile p xs = xs"
  by (cases xs) (use length_dropWhile_le [of p "tl xs"] in \<open>auto split: if_splits\<close>)

lemma strip_same: "length (strip v) = length v \<Longrightarrow> strip v = v"
proof -
  assume len: "length (strip v) = length v"
  let ?d = "dropWhile is_space v"
  have "length (dropWhile is_space (rev ?d)) \<le> length (rev ?d)" "length ?d \<le> length v"
    by (rule length_dropWhile_le)+
  with len have "length (dropWhile is_space (rev ?d)) = length (rev ?d)" "length ?d = length v"
    by (auto simp: strip_def strip_by_def)
  then show ?thesis by (simp add: dropWhile_same strip_def strip_by_def)
qed

lemma valid_name_casefold_iff: "valid_name (casefold v) = valid_name v"
proof
  assume "valid_name (casefold v)"
  then have "casefold (strip v) = casefold v" "casefold v \<noteq> []" "isprintable v"
    by (auto dest!: valid_nameD)
  moreover from this have "strip v = v" by (intro strip_same) (metis length_casefold)
  ultimately show "valid_name v" by (simp add: valid_name_def controller_name_def)
qed (rule valid_name_casefold)

lemma valid_name_fold: "casefold v = casefold w \<Longrightarrow> valid_name v = valid_name w"
  using valid_name_casefold_iff [of v] valid_name_casefold_iff [of w] by simp

lemma known_wf:
  assumes "enrollment_ok e" shows "list_all wf_grant (bindings e)"
proof -
  have "wf_grant b" if kb: "(k, b) \<in> set (bound e)" for k b
  proof -
    have inv: "k = casefold (gamertag b)" "k \<in> folded (gamertags e)" "wf_binding b"
      using assms kb by (auto simp: enrollment_ok_def enrollment_inv_def)
    then obtain t where t: "t \<in> set (gamertags e)" "casefold t = casefold (gamertag b)"
      by (auto simp: folded_def)
    then have "valid_name t" using assms by (simp add: enrollment_ok_def list_all_iff)
    with valid_name_fold [OF t(2)] inv(3) show ?thesis by (simp add: wf_grant_def wf_binding_def)
  qed
  then show ?thesis by (auto simp: bindings_def list_all_iff)
qed

lemma authorize_binding_ok: "enrollment_ok e \<Longrightarrow> enrollment_ok (snd (authorize_binding now n x u e))"
proof -
  assume e: "enrollment_ok e"
  obtain r e' where a: "authorize_binding now n x u e = (r, e')" by fastforce
  have "gamertags e' = gamertags e" using a by (cases rule: authorize_binding_cases) auto
  with authorize_binding_inv [OF _ a] e a show ?thesis by (simp add: enrollment_ok_def)
qed

lemma policy_step_wf: "legal_policy_op op \<Longrightarrow> wf_policy (state s) \<Longrightarrow> wf_policy (state (snd (policy_step op s)))"
  using policy_step_commits [of op s "fst (policy_step op s)" "snd (policy_step op s)"] by auto

lemma policy_ops_wf:
  assumes "wf_policy (state s)"
  shows "wf_policy (state (snd (enroll now n x u s)))"
    and "wf_policy (state (snd (add_to_policy now n pl b s)))"
    and "list_all wf_grant known \<Longrightarrow> wf_policy (state (snd (remove n known cfg p s)))"
proof -
  show "wf_policy (state (snd (enroll now n x u s)))"
    using policy_step_wf [of "Enroll now n x u" s] assms by simp
  have "wf_policy (state (snd (add_identity now n x' u' s)))" for x' u'
    using policy_step_wf [of "Add_identity now n x' u'" s] assms by simp
  moreover have "wf_policy (state (snd (add_name now n s)))"
    using policy_step_wf [of "Add_name now n" s] assms by simp
  ultimately show "wf_policy (state (snd (add_to_policy now n pl b s)))"
    by (simp add: add_to_policy_def split: option.split)
  show "list_all wf_grant known \<Longrightarrow> wf_policy (state (snd (remove n known cfg p s)))"
    using policy_step_wf [of "Remove n known cfg p" s] assms by simp
qed

section \<open>What every method keeps\<close>

text \<open>\<open>after a b\<close>: \<open>b\<close> is well-formed and reached from \<open>a\<close> by session steps and growing revisions.\<close>

definition after :: "authority \<Rightarrow> authority \<Rightarrow> bool" where
  "after a b \<longleftrightarrow> wf_authority b \<and> session_step\<^sup>*\<^sup>* (a_presence a) (a_presence b) \<and>
     (\<forall>i. get_revision (a_revisions a) i \<le> get_revision (a_revisions b) i)"

lemma after_refl: "wf_authority a \<Longrightarrow> after a a"
  by (simp add: after_def)

lemma after_trans: "after a b \<Longrightarrow> after b c \<Longrightarrow> after a c"
  unfolding after_def by (meson order_trans rtranclp_trans)

lemma after_policy:
  "(\<And>s. wf_policy (state s) \<Longrightarrow> wf_policy (state (snd (m s)))) \<Longrightarrow> keeps (after a) (on_policy m)"
  by (rule keeps_on_part) (simp add: after_def wf_authority_def)

lemma after_controllers:
  "(\<And>e. enrollment_ok e \<Longrightarrow> enrollment_ok (snd (m e))) \<Longrightarrow> keeps (after a) (on_controllers m)"
  by (rule keeps_on_part) (simp add: after_def wf_authority_def)

lemma after_roles: "keeps (after a) (on_roles m)"
  by (rule keeps_on_part) (simp add: after_def wf_authority_def)

lemma after_bump: "keeps (after a) (on_revisions (bump ids))"
  by (rule keeps_on_part) (auto simp: after_def wf_authority_def bump_get intro: add_increasing2)

lemma after_enroll: "keeps (after a) (on_policy (enroll now n x u))"
  by (rule after_policy) (rule policy_ops_wf)

lemma after_add: "keeps (after a) (on_policy (add_to_policy now n pl b))"
  by (rule after_policy) (rule policy_ops_wf)

lemma after_apply: "keeps (after a) (apply_permission i)"
proof (unfold keeps_def, intro allI impI)
  fix b assume b: "after a b"
  then have "presence_inv (a_presence b)" by (simp add: after_def wf_authority_def)
  note inv = bump_session_inv [OF this, of i] and steps = bump_session_steps [OF this, of i]
  from b steps have "session_step\<^sup>*\<^sup>* (a_presence a) (bump_session i (a_presence b))"
    unfolding after_def by (meson rtranclp_trans)
  with b inv show "after a (snd (apply_permission i b))"
    by (auto simp: after_def wf_authority_def apply_permission_def Let_def split: sum.split)
qed

lemmas after_part = after_roles after_bump after_enroll after_add after_apply

lemma keepsI: "(\<And>s. I s \<Longrightarrow> I (snd (m s))) \<Longrightarrow> keeps I m"
  by (simp add: keeps_def)

lemma after_bind: "keeps (after a) (bind_joined now n x i)"
proof (rule keepsI)
  fix b assume b: "after a b"
  have "keeps (after a) (sbind (on_controllers (authorize_binding now n x i)) (\<lambda>_. ret ()))"
    by (intro keeps_sbind after_controllers authorize_binding_ok keeps_ret)
  from keepsD [OF this b] b show "after a (snd (bind_joined now n x i b))"
    by (simp add: bind_joined_def split: sum.split)
qed

lemma after_hand_over: "keeps (after a) (hand_over_role s)"
proof (rule keepsI)
  fix b assume b: "after a b"
  have "keeps (after a) (sthen (on_roles (set_role x r)) (on_roles (forget_pending_roles ns)))" for x r ns
    by (intro keeps_sthen after_roles)
  from keepsD [OF this b] b show "after a (snd (hand_over_role s b))"
    by (auto simp: hand_over_role_def Let_def split: sum.split option.split bool.split)
qed

lemma after_join_one: "keeps (after a) (join_one now s)"
  unfolding join_one_def Let_def
  by (rule keeps_sbind [OF after_enroll keeps_sthen [OF after_bind keeps_sthen [OF after_hand_over after_apply]]])

lemma after_joined: "keeps (after a) (joined now ss snapshot)"
proof -
  have "keeps (after a) (update (\<lambda>a. a\<lparr>a_granted := []\<rparr>))"
    by (rule keeps_update) (simp add: after_def wf_authority_def)
  then show ?thesis unfolding joined_def
    by (rule keeps_sthen [OF keeps_swhen keeps_smap [OF after_join_one]])
qed

lemma after_refresh: "keeps (after a) refresh"
proof (rule keepsI)
  fix b assume b: "after a b"
  have "keeps (after a) (smap apply_permission (map player_key (online (a_presence b))))"
    by (rule keeps_smap) (rule after_apply)
  from keepsD [OF this b] show "after a (snd (refresh b))" by (simp add: refresh_def)
qed

lemma after_console_add: "keeps (after a) (console_add now t r)"
proof (rule keepsI)
  fix b assume b: "after a b"
  have "keeps (after a) (record_role x t v)" for x v
    unfolding record_role_def by (intro keeps_option keeps_if keeps_sthen after_roles)
  then have "keeps (after a) (sthen (case f of None \<Rightarrow> ret () | Some v \<Rightarrow> record_role x t v)
      (on_policy (add_to_policy now t pl k)))" for f x pl k
    by (intro keeps_sthen after_add keeps_option keeps_ret)
  from keepsD [OF this b] b show "after a (snd (console_add now t r b))"
    by (simp add: console_add_def split: sum.split)
qed

lemma after_console_remove: "keeps (after a) (console_remove t)"
proof (rule keepsI)
  fix b assume b: "after a b"
  show "after a (snd (console_remove t b))"
  proof (cases "controllers_report b")
    case (Inr before)
    let ?m = "on_policy (remove t (bindings (a_controllers b)) (gamertags (a_controllers b))
        (map_option (\<lambda>s. (or_empty (player_xuid s), Some (player_key s))) (named_player t b)))"
    have "list_all wf_grant (bindings (a_controllers b))"
      using b known_wf by (simp add: after_def wf_authority_def)
    then have m: "keeps (after a) ?m" by (intro after_policy policy_ops_wf)
    have "keeps (after a) (\<lambda>a1. sthen (on_revisions (bump (f a1)))
        (sthen (on_roles (forget_roles (g a1))) (on_roles (forget_pending_roles [t]))) a1)" for f g
      using keepsD [OF keeps_sthen [OF after_bump keeps_sthen [OF after_roles after_roles]]]
      by (intro keepsI) blast
    from keepsD [OF keeps_sthen [OF m this] b] Inr show ?thesis by (simp add: console_remove_def)
  qed (use b in \<open>simp add: console_remove_def\<close>)
qed

lemma after_operation: "keeps (after a) (operation now args target r)"
proof (rule keepsI)
  fix b assume b: "after a b"
  have "keeps (after a) (sbind (sthen (if c then console_add now t v else console_remove t) refresh)
      (report_result t c))" for c t v
    unfolding report_result_def
    by (intro keeps_sbind keeps_sthen keeps_if after_console_add after_console_remove after_refresh keeps_look)
  from keepsD [OF this b] b have "after a (snd (console_operation now args target r b))"
    by (auto simp: console_operation_def Let_def split: sum.split prod.split)
  then show "after a (snd (operation now args target r b))"
    by (auto simp: operation_def split: prod.splits sum.splits)
qed

lemma after_quit: "after a b \<Longrightarrow> after a (quit i b)"
  by (simp add: after_def wf_authority_def quit_def)

section \<open>The decision, declaratively\<close>

definition may_control :: "authority \<Rightarrow> string \<Rightarrow> string \<Rightarrow> string \<Rightarrow> bool" where
  "may_control a name x i \<longleftrightarrow> is_xuid x \<and> x \<notin> set (denied_xuids (policy_now a)) \<and> i \<notin> set (denied_uuids (policy_now a)) \<and>
     (granted (policy_now a) x \<or>
      \<not> name_denied (policy_now a) name \<and>
        (x \<in> xuid ` set (bindings (a_controllers a)) \<or> x \<in> set (allowed_xuids (a_allowed a)) \<or>
         i \<in> set (allowed_uuids (a_allowed a))))"

lemma control_decision_spec:
  assumes "wf_policy (policy_now a)"
  shows "\<exists>why. control_decision a name x i = Inr (may_control a name x i, why)"
  using grants_granted [OF assms, of x]
  by (auto simp: control_decision_def Let_def may_control_def list_ex_iff)

lemma allows_spec:
  "wf_policy (policy_now a) \<Longrightarrow>
    allows a s = Inr (may_control a (or_empty (player_name s)) (or_empty (player_xuid s)) (player_key s))"
  using control_decision_spec [of a] unfolding allows_def by fastforce

end
