(* ===== verification/Link_Sessions.thy ===== *)
theory Link_Sessions
  imports Authority_Laws
begin

text \<open>
  How the plugin link reaches the authority, \<open>endbot_core/link.py\<close> (\<open>LinkServer\<close>: handshake, presence
  reports, the sender of a submission) and \<open>endbotd/service.py\<close> (what a report changes, which
  submissions are accepted, the CLI's controllers request). \<open>link_event\<close> is one thing that can happen,
  \<open>link_step\<close> its effect; every history of the authority is a list of them.
\<close>

section \<open>The handshake\<close>

record link_setup =
  link_token :: string
  registry :: string
  takes_cli :: bool

datatype peer = Plugin_link string | Cli_link

definition protocol_version :: int where
  "protocol_version = 2"

definition token_matches :: "string \<Rightarrow> json \<Rightarrow> bool" where
  "token_matches expected supplied = (case supplied of JStr s \<Rightarrow> s = expected | _ \<Rightarrow> False)"

text \<open>What \<open>_handshake\<close> makes of the first frame, in the order of its checks.\<close>

definition handshake :: "link_setup \<Rightarrow> (string, json) dict \<Rightarrow> py_error + peer" where
  "handshake ls message =
     (case json_field message ''body'' of
        JObj body \<Rightarrow>
          (if json_field message ''type'' \<noteq> JStr ''hello''
           then Inl (LinkError ''protocol'' ''the link must open with hello'')
           else if \<not> token_matches (link_token ls) (json_field body ''token'')
           then Inl (LinkError ''unauthorized'' ''invalid endbotd token'')
           else if \<not> json_eq_int (json_field body ''protocol'') protocol_version
           then Inl (LinkError ''protocol_mismatch'' ''the peer speaks another link protocol'')
           else if json_field body ''client'' = JStr ''cli''
           then (if takes_cli ls then Inr Cli_link
                 else Inl (LinkError ''unsupported'' ''this endbotd takes no CLI connections''))
           else if json_field body ''registryHash'' \<noteq> JStr (registry ls)
           then Inl (LinkError ''registry_mismatch'' ''plugin and endbotd carry different operation registries'')
           else (case json_field body ''epoch'' of
               JStr e \<Rightarrow> (if e = [] then Inl (LinkError ''invalid'' ''hello needs an epoch'') else Inr (Plugin_link e))
             | _ \<Rightarrow> Inl (LinkError ''invalid'' ''hello needs an epoch'')))
      | _ \<Rightarrow> Inl (LinkError ''protocol'' ''the link must open with hello''))"

text \<open>A plugin link starts a new epoch with nobody online; a CLI connection changes nothing.\<close>

definition open_link :: "link_setup \<Rightarrow> (string, json) dict \<Rightarrow> (authority, peer) action" where
  "open_link ls message a = (case handshake ls message of
     Inl e \<Rightarrow> (Inl e, a)
   | Inr Cli_link \<Rightarrow> (Inr Cli_link, a)
   | Inr (Plugin_link e) \<Rightarrow> (Inr (Plugin_link e), a\<lparr>a_presence := reset (Some e) (a_presence a)\<rparr>))"

definition close_link :: "authority \<Rightarrow> authority" where
  "close_link a = a\<lparr>a_presence := reset None (a_presence a)\<rparr>"

section \<open>Presence reports\<close>

definition quit_all :: "session list \<Rightarrow> authority \<Rightarrow> authority" where
  "quit_all ss a = fold (\<lambda>s. quit (player_key s)) ss a"

definition presence_report ::
    "string \<Rightarrow> (string, json) dict \<Rightarrow> (authority, (string \<times> bool) list) action" where
  "presence_report now body =
     sbind (on_presence (apply_report body)) (\<lambda>ss.
       let kind = json_field body ''kind'' in
       if kind = JStr ''snapshot'' \<or> kind = JStr ''join'' then joined now ss (kind = JStr ''snapshot'')
       else sthen (if kind = JStr ''quit'' then update (quit_all ss) else ret ()) (ret []))"

section \<open>The sender of a submission\<close>

definition wire_origin :: "(string, json) dict \<Rightarrow> json option" where
  "wire_origin d = (case json_field d ''origin'' of JObj z \<Rightarrow> Some (JObj z) | _ \<Rightarrow> None)"

text \<open>The principal of player \<open>i\<close>: only the language and the origin come from the wire.\<close>

definition claimed_player :: "authority \<Rightarrow> (string, json) dict \<Rightarrow> string \<Rightarrow> principal" where
  "claimed_player a d i =
     (let s = player i (a_presence a); x = Option.bind s player_xuid
      in \<lparr>p_kind = Player, p_name = Option.bind s player_name, p_xuid = x,
           grant_revision = Some (get_revision (a_revisions a) i),
           p_language = (case json_field d ''language'' of JStr l \<Rightarrow> l | _ \<Rightarrow> ''en''),
           p_origin = wire_origin d, player_id = Some i, authorization_revision = map_option revision s,
           run_id = None,
           p_role = (case x of None \<Rightarrow> None | Some x' \<Rightarrow> if x' = [] then None else Some (role_for a x'))\<rparr>)"

definition bad_sender :: py_error where
  "bad_sender = LinkError ''invalid'' ''sender must be a player or the console''"

definition nameless_sender :: py_error where
  "nameless_sender = LinkError ''invalid'' ''a player sender needs playerId''"

definition sender :: "authority \<Rightarrow> json \<Rightarrow> py_error + principal" where
  "sender a wire =
     (case wire of
        JObj d \<Rightarrow>
          (let kind = json_field d ''kind'' in
           if \<not> hashable kind then Inl (TypeError ''unhashable type'')
           else if kind = JStr ''console'' then Inr ((principal_of Console)\<lparr>p_origin := wire_origin d\<rparr>)
           else if kind = JStr ''player'' then
             (case json_field d ''playerId'' of
                JStr i \<Rightarrow> (if i = [] then Inl nameless_sender else make_principal ''player'' (claimed_player a d i))
              | _ \<Rightarrow> Inl nameless_sender)
           else Inl bad_sender)
      | _ \<Rightarrow> Inl bad_sender)"

record submission =
  root :: string
  principal :: principal
  argv :: "string list option"
  form :: "json option"

definition roots :: "string list" where
  "roots = [''bot'', ''botgroup'', ''botscript'', ''botcontrollers'', ''botweb'']"

definition string_list :: "json list \<Rightarrow> py_error + string list" where
  "string_list js = emap (\<lambda>j. case j of JStr s \<Rightarrow> Inr s
     | _ \<Rightarrow> Inl (LinkError ''invalid'' ''argv must be a list of strings'')) js"

text \<open>\<open>LinkServer._submit\<close>, for a submission without a form guard.\<close>

definition parse_submission :: "authority \<Rightarrow> (string, json) dict \<Rightarrow> py_error + submission" where
  "parse_submission a body =
     (let r = json_field body ''root''; av = json_field body ''argv''; form = json_field body ''operation'' in
      case r of
        JStr r' \<Rightarrow>
          (if r' \<notin> set roots then Inl (LinkError ''invalid'' ''unknown command root'')
           else if (av = JNull) = (form = JNull) then Inl (LinkError ''invalid'' ''submit needs argv or operation'')
           else ebind (case av of JNull \<Rightarrow> Inr None | JArr js \<Rightarrow> ebind (string_list js) (\<lambda>ws. Inr (Some ws))
               | _ \<Rightarrow> Inl (LinkError ''invalid'' ''argv must be a list of strings'')) (\<lambda>ws.
             ebind (case form of JNull \<Rightarrow> Inr None | JObj z \<Rightarrow> Inr (Some (JObj z))
               | _ \<Rightarrow> Inl (LinkError ''invalid'' ''operation must be an object'')) (\<lambda>f.
             ebind (sender a (json_field body ''sender'')) (\<lambda>p. Inr
               \<lparr>root = r', principal = p, argv = ws, form = f\<rparr>))))
      | _ \<Rightarrow> (if hashable r then Inl (LinkError ''invalid'' ''unknown command root'')
             else Inl (TypeError ''unhashable type'')))"

section \<open>Which submissions are accepted\<close>

datatype verdict =
    Refused string
  | Managed "string list" "(string \<times> bool) list"
  | Web_command session "string list"
  | Queued principal "string list" string

definition unsupported_form :: py_error where
  "unsupported_form = LinkError ''unsupported'' ''operation submissions are not supported yet''"

text \<open>\<open>EndbotService._submit\<close>: the control check of a player, then the root.\<close>

definition accept_submission :: "string \<Rightarrow> submission \<Rightarrow> (authority, verdict) action" where
  "accept_submission now s a =
     (let p = principal s; here = (case player_id p of None \<Rightarrow> None | Some i \<Rightarrow> player i (a_presence a)) in
      case (if p_kind p = Player then (case here of None \<Rightarrow> Inr False | Some t \<Rightarrow> allows a t) else Inr True) of
        Inl e \<Rightarrow> (Inl e, a)
      | Inr allowed \<Rightarrow>
          (if \<not> allowed then (Inr (Refused ''unauthorized''), a)
           else if root s = ''botcontrollers'' then
             (if \<not> console p then (Inr (Refused ''unauthorized''), a)
              else sbind (operation now (case argv s of None \<Rightarrow> [] | Some ws \<Rightarrow> ws) None None)
                     (\<lambda>(out, ps). ret (Managed (o_messages out) ps)) a)
           else if root s = ''botweb'' then
             (if p_kind p \<noteq> Player then (Inr (Refused ''unauthorized''), a)
              else (case (argv s, here) of
                  (None, _) \<Rightarrow> (Inl unsupported_form, a)
                | (Some ws, Some t) \<Rightarrow> (Inr (Web_command t ws), a)
                | (Some ws, None) \<Rightarrow> (Inr (Refused ''unauthorized''), a)))
           else (case argv s of
               None \<Rightarrow> (Inl unsupported_form, a)
             | Some ws \<Rightarrow> (Inr (Queued p ws (root s)), a))))"

definition submit :: "string \<Rightarrow> (string, json) dict \<Rightarrow> (authority, verdict) action" where
  "submit now body a = (case parse_submission a body of
     Inl e \<Rightarrow> (Inl e, a) | Inr s \<Rightarrow> accept_submission now s a)"

section \<open>The CLI\<close>

definition cli_target_error :: py_error where
  "cli_target_error = ValueError ''a non-empty printable target of at most 256 characters is required''"

definition cli_target :: "json \<Rightarrow> py_error + string" where
  "cli_target v = (case v of
     JStr t \<Rightarrow> (if strip t = [] \<or> \<not> isprintable t \<or> length t > 256 then Inl cli_target_error else Inr t)
   | _ \<Rightarrow> Inl cli_target_error)"

text \<open>\<open>_cli_controllers\<close>: the operation, its target and the role of an \<open>add\<close>.\<close>

definition cli_request :: "(string, json) dict \<Rightarrow> py_error + string \<times> string option \<times> string option" where
  "cli_request body =
     (let op = json_field body ''operation''; t = json_field body ''target''; r = json_field body ''role'' in
      if \<not> hashable op then Inl (TypeError ''unhashable type'')
      else (case op of
          JStr o' \<Rightarrow>
            (if o' \<notin> {''add'', ''remove'', ''list''} then Inl (ValueError ''expected add, remove or list'')
             else ebind (if o' = ''list''
                 then (if t = JNull then Inr None else Inl (ValueError ''list takes no target''))
                 else ebind (cli_target t) (\<lambda>v. Inr (Some v))) (\<lambda>tgt.
               (case r of
                  JNull \<Rightarrow> Inr (o', tgt, None)
                | JStr v \<Rightarrow> (if \<not> is_role v then Inl (ValueError ''role must be scripter or controller'')
                    else if o' \<noteq> ''add'' then Inl (ValueError ''role is only accepted for add'')
                    else Inr (o', tgt, Some v))
                | _ \<Rightarrow> Inl (ValueError ''role must be scripter or controller''))))
        | _ \<Rightarrow> Inl (ValueError ''expected add, remove or list'')))"

definition cli_controllers :: "string \<Rightarrow> (string, json) dict \<Rightarrow> (authority, outcome \<times> (string \<times> bool) list) action" where
  "cli_controllers now body a = (case cli_request body of
     Inl e \<Rightarrow> (Inl e, a)
   | Inr (op, t, r) \<Rightarrow> operation now [op] t r a)"

section \<open>Histories\<close>

datatype link_event =
    Hello link_setup "(string, json) dict"
  | Closed
  | Report string "(string, json) dict"
  | Submit string "(string, json) dict"
  | Cli string "(string, json) dict"

fun link_step :: "link_event \<Rightarrow> authority \<Rightarrow> authority" where
  "link_step (Hello ls m) a = snd (open_link ls m a)"
| "link_step Closed a = close_link a"
| "link_step (Report now body) a = snd (presence_report now body a)"
| "link_step (Submit now body) a = snd (submit now body a)"
| "link_step (Cli now body) a = snd (cli_controllers now body a)"

definition history :: "link_event list \<Rightarrow> authority \<Rightarrow> authority" where
  "history es a = fold link_step es a"

lemma history_simps [simp]: "history [] a = a" "history (e # es) a = history es (link_step e a)"
    "history (es @ fs) a = history fs (history es a)"
  by (simp_all add: history_def)

end
