(* ===== verification/Link_Safety.thy ===== *)
theory Link_Safety
  imports Link_Sessions
begin

text \<open>
  The safety of the authority over every history of links, reports, submissions and CLI requests:
  what a revocation ends for good, what ends with a session, and what a player cannot reach.
\<close>

section \<open>Histories keep the invariants\<close>

lemma snd_sbind: "snd (sbind m f s) = (case m s of (Inl e, s') \<Rightarrow> s' | (Inr x, s') \<Rightarrow> snd (f x s'))"
  by (auto simp: sbind_def split: prod.split sum.split)

lemma after_quit_all: "after a b \<Longrightarrow> after a (quit_all ss b)"
  unfolding quit_all_def by (induction ss arbitrary: b) (auto simp: after_quit)

lemma after_apply_report: "keeps (after a) (on_presence (apply_report body))"
proof (rule keeps_on_part)
  fix b assume b: "after a b"
  then have "session_step\<^sup>*\<^sup>* (a_presence a) (snd (apply_report body (a_presence b)))"
    unfolding after_def using apply_report_steps rtranclp_trans by meson
  with b show "after a (b\<lparr>a_presence := snd (apply_report body (a_presence b))\<rparr>)"
    by (simp add: after_def wf_authority_def apply_report_inv)
qed

lemma after_report: "keeps (after a) (presence_report now body)"
proof -
  have "keeps (after a) (update (quit_all ss))" for ss by (rule keeps_update) (rule after_quit_all)
  then show ?thesis unfolding presence_report_def Let_def
    by (intro keeps_sbind [OF after_apply_report] keeps_if after_joined keeps_sthen keeps_ret)
qed

lemma after_accept: "keeps (after a) (accept_submission now s)"
proof (rule keepsI)
  fix b assume b: "after a b"
  have "keeps (after a) (sbind (operation now args t r) (\<lambda>(out, ps). ret (Managed (o_messages out) ps)))" for args t r
    by (rule keeps_sbind [OF after_operation]) (auto split: prod.split)
  from keepsD [OF this b] b show "after a (snd (accept_submission now s b))"
    by (simp add: accept_submission_def Let_def split: sum.split option.split)
qed

lemma after_submit: "keeps (after a) (submit now body)"
  using keepsD [OF after_accept] by (intro keepsI) (simp add: submit_def split: sum.split)

lemma after_cli: "keeps (after a) (cli_controllers now body)"
  using keepsD [OF after_operation] by (intro keepsI) (auto simp: cli_controllers_def split: sum.split)

fun relinks :: "link_event \<Rightarrow> bool" where
  "relinks (Hello _ _) = True"
| "relinks Closed = True"
| "relinks _ = False"

lemma link_step_after: "wf_authority a \<Longrightarrow> \<not> relinks e \<Longrightarrow> after a (link_step e a)"
  using keepsD [OF after_report after_refl] keepsD [OF after_submit after_refl] keepsD [OF after_cli after_refl]
  by (cases e) auto

lemma relink_cases:
  assumes "relinks e"
  obtains "link_step e a = a"
  | ep where "link_step e a = a\<lparr>a_presence := reset ep (a_presence a)\<rparr>"
      "\<And>x. ep = Some x \<Longrightarrow> \<exists>ls m. e = Hello ls m \<and> handshake ls m = Inr (Plugin_link x)"
proof (cases e)
  case (Hello ls m)
  then show ?thesis
  proof (cases "handshake ls m")
    case (Inr p)
    with Hello that show ?thesis by (cases p) (auto simp: open_link_def)
  qed (use Hello that in \<open>simp add: open_link_def\<close>)
qed (use assms that in \<open>auto simp: close_link_def\<close>)

lemma link_step_wf: "wf_authority a \<Longrightarrow> wf_authority (link_step e a)"
proof (cases "relinks e")
  case True
  assume "wf_authority a"
  with True show ?thesis by (cases rule: relink_cases [of e a]) (auto simp: wf_authority_def)
qed (use link_step_after in \<open>auto simp: after_def\<close>)

lemma link_step_revisions:
  "wf_authority a \<Longrightarrow> get_revision (a_revisions a) i \<le> get_revision (a_revisions (link_step e a)) i"
proof (cases "relinks e")
  case True
  then show ?thesis by (cases rule: relink_cases [of e a]) auto
qed (use link_step_after in \<open>auto simp: after_def\<close>)

lemma history_wf: "wf_authority a \<Longrightarrow> wf_authority (history es a)"
  by (induction es arbitrary: a) (auto simp: link_step_wf)

lemma history_revisions:
  "wf_authority a \<Longrightarrow> get_revision (a_revisions a) i \<le> get_revision (a_revisions (history es a)) i"
proof (induction es arbitrary: a)
  case (Cons e es)
  then show ?case using order_trans [OF link_step_revisions [of a i e]] by (simp add: link_step_wf)
qed simp

section \<open>Authorization, declaratively\<close>

definition session_may :: "authority \<Rightarrow> session \<Rightarrow> bool" where
  "session_may a s = may_control a (or_empty (player_name s)) (or_empty (player_xuid s)) (player_key s)"

lemma allows_session_may: "wf_authority a \<Longrightarrow> allows a s = Inr (session_may a s)"
  by (simp add: wf_authority_def allows_spec session_may_def)

definition authorized :: "principal \<Rightarrow> authority \<Rightarrow> bool" where
  "authorized p a \<longleftrightarrow> console p \<or>
     (\<exists>i. player_id p = Some i \<and> grant_revision p = Some (get_revision (a_revisions a) i) \<and>
       (case player i (a_presence a) of
          None \<Rightarrow> p_kind p \<noteq> Player \<and> may_control a (or_empty (p_name p)) (or_empty (p_xuid p)) i
        | Some s \<Rightarrow> session_may a s \<and> (p_kind p = Player \<longrightarrow> authorization_revision p = Some (revision s))))"

lemma authorize_total: "wf_authority a \<Longrightarrow> authorize p a = Inr (authorized p a)"
proof -
  assume wf: "wf_authority a"
  obtain why where why: "\<And>n x i. control_decision a n x i = Inr (may_control a n x i, why n x i)"
    using control_decision_spec [of a] wf unfolding wf_authority_def by metis
  show ?thesis using wf
    by (cases "p_kind p") (auto simp: authorize_def authorized_def allows_session_may why split: option.split)
qed

section \<open>Which accounts a step newly denies\<close>

text \<open>\<open>lenient p q\<close>: \<open>q\<close> denies nothing \<open>p\<close> does not.\<close>

definition lenient :: "policy \<Rightarrow> policy \<Rightarrow> bool" where
  "lenient p q \<longleftrightarrow> set (denied_xuids q) \<subseteq> set (denied_xuids p) \<and> set (denied_uuids q) \<subseteq> set (denied_uuids p) \<and>
     set (denied_names q) \<subseteq> set (denied_names p)"

lemma lenient_refl [simp]: "lenient p p"
  by (simp add: lenient_def)

lemma lenient_trans: "lenient p q \<Longrightarrow> lenient q r \<Longrightarrow> lenient p r"
  by (auto simp: lenient_def)

lemma lenient_granted: "lenient p (granted_policy now n x t p)"
  by (auto simp: lenient_def granted_policy_def without_name_def)

lemma lenient_row: "lenient p q \<Longrightarrow> row_denied q r \<Longrightarrow> row_denied p r"
  by (auto simp: lenient_def row_denied_def split: option.splits)

lemma lenient_identity: "lenient (state s) (state (snd (add_identity now n x u s)))"
  by (cases "add_identity now n x u s"; cases "fst (add_identity now n x u s)")
    (auto dest!: add_identity_InrD add_identity_InlD simp: lenient_granted)

lemma lenient_name: "lenient (state s) (state (snd (add_name now n s)))"
proof -
  obtain r t where a: "add_name now n s = (r, t)" by fastforce
  show ?thesis
  proof (cases r)
    case (Inr u)
    with a show ?thesis
      by (auto dest!: add_name_InrD split: option.splits simp: lenient_granted)
        (auto simp: lenient_def without_name_def)
  qed (use a in \<open>auto dest!: add_name_InlD\<close>)
qed

lemma lenient_enroll: "lenient (state s) (state (snd (enroll now n x u s)))"
proof -
  obtain r t where a: "enroll now n x u s = (r, t)" by fastforce
  show ?thesis
  proof (cases "r = Inr True")
    case True
    with a show ?thesis by (auto dest!: enroll_InrD simp: lenient_granted)
  qed (use a in \<open>auto dest: enroll_other\<close>)
qed

lemma lenient_add: "lenient (state s) (state (snd (add_to_policy now n pl b s)))"
  by (simp add: add_to_policy_def lenient_identity lenient_name split: option.split)

lemma lenient_policy:
  "(\<And>s. lenient (state s) (state (snd (m s)))) \<Longrightarrow> keeps (\<lambda>b. lenient p (policy_now b)) (on_policy m)"
  by (rule keeps_on_part) (auto intro: lenient_trans)

text \<open>The parts of the authority an operation leaves alone.\<close>

definition same_policy :: "authority \<Rightarrow> authority \<Rightarrow> bool" where
  "same_policy a b \<longleftrightarrow> a_policy b = a_policy a \<and> a_revisions b = a_revisions a"

lemma same_policy_refl [simp]: "same_policy a a"
  by (simp add: same_policy_def)

lemma same_apply: "keeps (same_policy a) (apply_permission i)"
  by (auto simp: keeps_def same_policy_def apply_permission_def Let_def split: sum.split)

lemma same_refresh: "keeps (same_policy a) refresh"
proof (rule keepsI)
  fix b assume b: "same_policy a b"
  have "keeps (same_policy a) (smap apply_permission (map player_key (online (a_presence b))))"
    by (rule keeps_smap) (rule same_apply)
  from keepsD [OF this b] show "same_policy a (snd (refresh b))" by (simp add: refresh_def)
qed

lemma same_roles: "keeps (same_policy a) (on_roles m)"
  and same_controllers: "keeps (same_policy a) (on_controllers m2)"
  and same_presence: "keeps (same_policy a) (on_presence m3)"
  by (rule keeps_on_part, simp add: same_policy_def)+

lemma same_bind: "keeps (same_policy a) (bind_joined now n x i)"
proof (rule keepsI)
  fix b assume b: "same_policy a b"
  have "keeps (same_policy a) (sbind (on_controllers (authorize_binding now n x i)) (\<lambda>_. ret ()))"
    by (intro keeps_sbind same_controllers keeps_ret)
  from keepsD [OF this b] b show "same_policy a (snd (bind_joined now n x i b))"
    by (simp add: bind_joined_def split: sum.split)
qed

lemma same_hand_over: "keeps (same_policy a) (hand_over_role s)"
proof (rule keepsI)
  fix b assume b: "same_policy a b"
  have "keeps (same_policy a) (sthen (on_roles (set_role x r)) (on_roles (forget_pending_roles ns)))" for x r ns
    by (intro keeps_sthen same_roles)
  from keepsD [OF this b] b show "same_policy a (snd (hand_over_role s b))"
    by (auto simp: hand_over_role_def Let_def split: sum.split option.split bool.split)
qed

lemma lenient_same: "keeps (same_policy a) m \<Longrightarrow> (\<And>a. keeps (same_policy a) m) \<Longrightarrow> keeps (\<lambda>b. lenient p (policy_now b)) m"
  unfolding keeps_def same_policy_def by metis

lemmas lenient_frames = lenient_same [OF same_apply same_apply] lenient_same [OF same_refresh same_refresh]
  lenient_same [OF same_roles same_roles] lenient_same [OF same_presence same_presence]
  lenient_same [OF same_bind same_bind] lenient_same [OF same_hand_over same_hand_over]

lemma lenient_joined: "keeps (\<lambda>b. lenient p (policy_now b)) (joined now ss snapshot)"
proof -
  have "keeps (\<lambda>b. lenient p (policy_now b)) (join_one now s)" for s
    unfolding join_one_def Let_def
    by (rule keeps_sbind [OF lenient_policy [OF lenient_enroll]
        keeps_sthen [OF lenient_frames(5) keeps_sthen [OF lenient_frames(6) lenient_frames(1)]]])
  then have "keeps (\<lambda>b. lenient p (policy_now b)) (smap (join_one now) ss)" by (rule keeps_smap)
  moreover have "keeps (\<lambda>b. lenient p (policy_now b)) (update (\<lambda>a. a\<lparr>a_granted := []\<rparr>))"
    by (rule keeps_update) simp
  ultimately show ?thesis unfolding joined_def by (intro keeps_sthen keeps_swhen)
qed

lemma quit_all_policy [simp]: "a_policy (quit_all ss a) = a_policy a"
  unfolding quit_all_def by (induction ss arbitrary: a) (auto simp: quit_def)

lemma lenient_report: "keeps (\<lambda>b. lenient p (policy_now b)) (presence_report now body)"
proof -
  have "keeps (\<lambda>b. lenient p (policy_now b)) (update (quit_all ss))" for ss by (rule keeps_update) simp
  then show ?thesis unfolding presence_report_def Let_def
    by (intro keeps_sbind [OF lenient_frames(4)] keeps_if lenient_joined keeps_sthen keeps_ret)
qed

lemma lenient_console_add: "keeps (\<lambda>b. lenient p (policy_now b)) (console_add now t r)"
proof (rule keepsI)
  fix b assume b: "lenient p (policy_now b)"
  have "keeps (\<lambda>b. lenient p (policy_now b)) (record_role x t v)" for x v
    unfolding record_role_def by (intro keeps_option keeps_if keeps_sthen lenient_frames(3))
  then have "keeps (\<lambda>b. lenient p (policy_now b)) (sthen (case f of None \<Rightarrow> ret () | Some v \<Rightarrow> record_role x t v)
      (on_policy (add_to_policy now t pl k)))" for f x pl k
    by (intro keeps_sthen lenient_policy lenient_add keeps_option keeps_ret)
  from keepsD [OF this b] b show "lenient p (policy_now (snd (console_add now t r b)))"
    by (simp add: console_add_def split: sum.split)
qed

section \<open>A removal counts before it can fail\<close>

text \<open>\<open>counted before a b\<close>: every row newly denied between \<open>a\<close> and \<open>b\<close> has a higher grant revision.\<close>

definition counted :: "row list \<Rightarrow> authority \<Rightarrow> authority \<Rightarrow> bool" where
  "counted before a b \<longleftrightarrow> (\<forall>r \<in> set before. \<forall>u. row_uuid r = Some u \<longrightarrow> u \<noteq> [] \<longrightarrow>
     row_denied (policy_now b) r \<longrightarrow> \<not> row_denied (policy_now a) r \<longrightarrow>
     get_revision (a_revisions a) u < get_revision (a_revisions b) u)"

lemma counted_lenient: "lenient (policy_now a) (policy_now b) \<Longrightarrow> counted before a b"
  by (auto simp: counted_def dest: lenient_row)

lemma counted_same: "keeps (same_policy b) m \<Longrightarrow> counted before a b \<Longrightarrow> counted before a (snd (m b))"
  using keepsD [of "same_policy b" m b] by (auto simp: counted_def same_policy_def)

lemma snd_sthen: "snd (sthen m k s) = (case m s of (Inl e, s') \<Rightarrow> s' | (Inr x, s') \<Rightarrow> snd (k s'))"
  by (auto simp: sthen_def sbind_def split: prod.split sum.split)

lemma counted_sthen:
  "counted before a (snd (m b)) \<Longrightarrow> (\<And>c. keeps (same_policy c) k) \<Longrightarrow> counted before a (snd (sthen m k b))"
  using counted_same [of "snd (m b)" k before a] by (auto simp: snd_sthen split: prod.split sum.split)

lemma set_row_identities: "u \<in> set (row_identities f p rs) \<longleftrightarrow> (\<exists>r \<in> set rs. f r = Some u \<and> u \<noteq> [] \<and> row_denied p r)"
  by (auto simp: row_identities_def map_filter_def split: option.splits if_splits) force

lemma console_remove_counted:
  assumes "controllers_report a = Inr before" shows "counted before a (snd (console_remove t a))"
proof -
  let ?m = "on_policy (remove t (bindings (a_controllers a)) (gamertags (a_controllers a))
        (map_option (\<lambda>s. (or_empty (player_xuid s), Some (player_key s))) (named_player t a)))"
  obtain res ps where rem: "remove t (bindings (a_controllers a)) (gamertags (a_controllers a))
        (map_option (\<lambda>s. (or_empty (player_xuid s), Some (player_key s))) (named_player t a)) (a_policy a) = (res, ps)"
    by fastforce
  then have m: "?m a = (res, a\<lparr>a_policy := ps\<rparr>)" by (simp add: on_part_def)
  show ?thesis
  proof (cases res)
    case (Inl e)
    with m rem assms show ?thesis
      by (intro counted_lenient) (auto simp: console_remove_def sthen_def sbind_def dest: remove_InlD)
  next
    case (Inr u)
    let ?a1 = "a\<lparr>a_policy := ps\<rparr>"
    let ?ids = "row_identities row_uuid (state ps) before"
    let ?bump = "on_revisions (bump ?ids)"
    let ?rest = "sthen (on_roles (forget_roles (row_identities row_xuid (state ps) before)))
        (on_roles (forget_pending_roles [t]))"
    have b1: "counted before a (snd (?bump ?a1))"
      by (auto simp: counted_def on_part_def case_prod_beta bump_get set_row_identities)
    have "console_remove t a = sthen ?bump ?rest ?a1"
      using m Inr assms by (simp add: console_remove_def sthen_def sbind_def split: prod.split sum.split)
    moreover have "counted before a (snd (sthen ?bump ?rest ?a1))"
      by (rule counted_sthen [where m = ?bump and b = ?a1], rule b1, intro keeps_sthen same_roles)
    ultimately show ?thesis by simp
  qed
qed

lemma operation_counted:
  assumes "controllers_report a = Inr before" shows "counted before a (snd (operation now args target r a))"
proof -
  have step: "counted before a (snd (sbind (sthen (if c then console_add now t v else console_remove t) refresh)
      (report_result t c) a))" for c t v
  proof -
    let ?m = "if c then console_add now t v else console_remove t"
    have "counted before a (snd (?m a))"
      using console_remove_counted [OF assms] counted_lenient keepsD [OF lenient_console_add lenient_refl] by auto
    then have "counted before a (snd (sthen ?m refresh a))" by (rule counted_sthen) (rule same_refresh)
    then show ?thesis by (auto simp: snd_sbind report_result_def split: prod.splits sum.splits)
  qed
  have "counted before a (snd (console_operation now args target r a))"
    using step counted_lenient [of a a before]
    by (auto simp: console_operation_def Let_def split: sum.split prod.split)
  then show ?thesis by (auto simp: operation_def split: prod.splits sum.splits)
qed

lemma accept_counted:
  assumes "controllers_report a = Inr before" shows "counted before a (snd (accept_submission now s a))"
proof -
  have "counted before a (snd (sbind (operation now args t r) (\<lambda>(out, ps). ret (Managed (o_messages out) ps)) a))" for args t r
    using operation_counted [OF assms, of now args t r] by (auto simp: snd_sbind split: prod.splits sum.splits)
  then show ?thesis using counted_lenient [of a a before]
    by (simp add: accept_submission_def Let_def split: sum.split option.split)
qed

lemma link_step_counted:
  assumes "controllers_report a = Inr before" shows "counted before a (link_step e a)"
proof (cases "relinks e")
  case True
  then show ?thesis by (cases rule: relink_cases [of e a]) (auto intro: counted_lenient)
next
  case False
  then show ?thesis
    using accept_counted [OF assms] operation_counted [OF assms] counted_lenient [of a _ before]
      keepsD [OF lenient_report lenient_refl, of a]
    by (cases e) (auto simp: submit_def cli_controllers_def split: sum.split)
qed

text \<open>Every row with a UUID has a non-empty one.\<close>

lemma efold_inv:
  "efold f xs s = Inr t \<Longrightarrow> P s \<Longrightarrow> (\<And>x s t. x \<in> set xs \<Longrightarrow> f x s = Inr t \<Longrightarrow> P s \<Longrightarrow> P t) \<Longrightarrow> P t"
proof (induction xs arbitrary: s)
  case (Cons x xs)
  from Cons.prems(1) obtain s' where "f x s = Inr s'" "efold f xs s' = Inr t" by auto
  with Cons.IH [of s'] Cons.prems(2,3) show ?case by (meson list.set_intros)
qed simp

definition rows_named :: "row list \<Rightarrow> bool" where
  "rows_named rs \<longleftrightarrow> (\<forall>r \<in> set rs. row_uuid r \<noteq> Some [])"

lemma online_key: "presence_inv p \<Longrightarrow> s \<in> set (online p) \<Longrightarrow> player_key s \<noteq> []"
  by (auto simp: presence_inv_def online_def)

lemma canonical_nonempty: "canonical u \<Longrightarrow> u \<noteq> []"
  by (auto simp: canonical_def norm_uuid_def uuid_parse_def uuid_text_def strip_by_def Let_def)

lemma accounts_named:
  assumes "wf_authority a" "rows_of_accounts a = Inr t" shows "rows_named (rows t)"
proof -
  have p: "presence_inv (a_presence a)" and b: "list_all wf_grant (bindings (a_controllers a) @ grants_of (policy_now a))"
    using assms(1) known_wf by (auto simp: wf_authority_def wf_policy_def)
  obtain t0 where t0: "efold (row_of_binding a) (rev (bindings (a_controllers a) @ grants_of (policy_now a)))
       \<lparr>rows = [], seen_xuids = [], seen_names = [], seen_uuids = []\<rparr> = Inr t0"
    and t: "efold (row_of_player a) (online (a_presence a)) t0 = Inr t"
    using assms(2) by (auto simp: rows_of_accounts_def)
  have "rows_named (rows t0)"
  proof (rule efold_inv [OF t0], goal_cases)
    case (2 x s t')
    have "uuid x \<noteq> []" using 2(1) b canonical_nonempty by (auto simp: list_all_iff wf_grant_def)
    moreover have "find P (online (a_presence a)) = Some s' \<Longrightarrow> player_key s' \<noteq> []" for P s'
      using online_key [OF p] find_SomeD by fast
    ultimately show ?case using 2(2,3)
      by (auto simp: row_of_binding_def rows_named_def Let_def split: if_splits option.splits)
  qed (simp add: rows_named_def)
  then show ?thesis
    by (rule efold_inv [OF t]) (use online_key [OF p] in \<open>auto simp: row_of_player_def rows_named_def Let_def split: if_splits\<close>)
qed

lemma report_named:
  assumes "wf_authority a" "controllers_report a = Inr rs" shows "rows_named rs"
proof -
  obtain t0 where t0: "rows_of_accounts a = Inr t0" using assms(2) by (auto simp: controllers_report_def)
  have "rows_named (rows t) \<Longrightarrow> rows_named (rows (row_of_name a n t))" for n t
    by (auto simp: row_of_name_def rows_named_def plain_row_def)
  then have names: "rows_named (rows t) \<Longrightarrow> rows_named (rows (fold (row_of_name a) ns t))" for ns t
    by (induction ns arbitrary: t) auto
  have "rows_named (identity_rows k u cs ds seen)" for k u cs ds seen
    by (auto simp: identity_rows_def rows_named_def plain_row_def)
  with names [OF accounts_named [OF assms(1) t0]] show ?thesis
    using assms(2) t0 by (auto simp: controllers_report_def Let_def rows_named_def simp del: fold_append)
qed

section \<open>Properties\<close>

definition work_of :: "string \<Rightarrow> principal \<Rightarrow> bool" where
  "work_of u p \<longleftrightarrow> player_id p = Some u"


text \<open>No event links again under epoch \<open>e\<close>, which the plugin draws anew for every link.\<close>

fun reuses :: "string \<Rightarrow> link_event \<Rightarrow> bool" where
  "reuses e (Hello ls m) = (handshake ls m = Inr (Plugin_link e))"
| "reuses e _ = False"

lemma reset_spent: "ep \<noteq> Some (fst rv) \<Longrightarrow> spent rv (reset ep p) \<and> handed i rv (reset ep p)"
  using spent_reset [of ep rv p] by (auto simp: spent_def handed_def)

lemma link_step_handed:
  assumes "wf_authority a" "\<not> reuses (fst rv) e" "handed i rv (a_presence a)"
  shows "handed i rv (a_presence (link_step e a))"
proof (cases "relinks e")
  case True
  then show ?thesis
  proof (cases rule: relink_cases [of e a])
    case (2 ep)
    then have "ep \<noteq> Some (fst rv)" using assms(2) by auto
    with 2 show ?thesis by (simp add: reset_spent)
  qed (simp add: assms(3))
qed (use link_step_after [OF assms(1)] assms(3) in \<open>auto simp: after_def dest: handed_steps\<close>)

lemma link_step_spent:
  assumes "wf_authority a" "\<not> reuses (fst rv) e" "spent rv (a_presence a)"
  shows "spent rv (a_presence (link_step e a))"
proof (cases "relinks e")
  case True
  then show ?thesis
  proof (cases rule: relink_cases [of e a])
    case (2 ep)
    then have "ep \<noteq> Some (fst rv)" using assms(2) by auto
    with 2 show ?thesis by (simp add: reset_spent)
  qed (simp add: assms(3))
qed (use link_step_after [OF assms(1)] assms(3) in \<open>auto simp: after_def dest: spent_steps\<close>)

lemma history_handed:
  "wf_authority a \<Longrightarrow> list_all (\<lambda>e. \<not> reuses (fst rv) e) es \<Longrightarrow> handed i rv (a_presence a) \<Longrightarrow>
    handed i rv (a_presence (history es a))"
  by (induction es arbitrary: a) (auto simp: link_step_wf link_step_handed)

lemma history_spent:
  "wf_authority a \<Longrightarrow> list_all (\<lambda>e. \<not> reuses (fst rv) e) es \<Longrightarrow> spent rv (a_presence a) \<Longrightarrow>
    spent rv (a_presence (history es a))"
  by (induction es arbitrary: a) (auto simp: link_step_wf link_step_spent)

text \<open>C4: A player's command ends with the session it came from: when the session revision it captured has been
  replaced, by a quit, a rejoin, a new link or a permission change, no later event makes it authorised
  again, as long as the plugin never links twice under one epoch.\<close>

theorem old_session_never_authorized:
  assumes "wf_authority a" and "session_revision i (a_presence a) = Some rv"
    and "list_all (\<lambda>e. \<not> reuses (fst rv) e) (es @ later)"
    and "session_revision i (a_presence (history es a)) \<noteq> Some rv"
    and "p_kind p = Player" and "player_id p = Some i" and "authorization_revision p = Some rv"
  shows "authorize p (history (es @ later) a) = Inr False"
proof -
  have inv: "presence_inv (a_presence a)" using assms(1) by (simp add: wf_authority_def)
  have wf: "wf_authority (history es a)" using history_wf [OF assms(1)] .
  have "handed i rv (a_presence (history es a))"
    using assms(3) current_handed [OF inv assms(2)] by (intro history_handed [OF assms(1)]) auto
  with assms(4) have "spent rv (a_presence (history es a))" by (auto simp: handed_def spent_def)
  then have "spent rv (a_presence (history later (history es a)))"
    using assms(3) by (intro history_spent [OF wf]) auto
  then have "session_revision i (a_presence (history later (history es a))) \<noteq> Some rv" by (simp add: spent_def)
  then show ?thesis using assms(5-7) authorize_total [OF history_wf [OF wf, of later]]
    by (auto simp: authorized_def console_def session_revision_def split: option.splits)
qed

text \<open>C23: Authorization is total and means what the permissions document says: the console always; anyone else
  only at the grant revision captured, a player only online under the session revision captured, a run
  or a job of an absent player by the identity it captured, and all of them only when the account may
  control Bots now.\<close>

theorem authorize_meaning:
  assumes "wf_authority a"
  shows "authorize p a = Inr (authorized p a)"
  by (rule authorize_total) (rule assms)

text \<open>With no plugin link nobody is online, so no player command is authorised.\<close>

theorem no_link_no_player:
  assumes "wf_authority a" and "epoch (a_presence a) = None" and "p_kind p = Player" and "player_id p = Some i"
  shows "authorize p a = Inr False"
proof -
  have "player i (a_presence a) = None"
    using assms(1,2) presence_okD [of "a_presence a" i]
    by (cases "player i (a_presence a)") (auto simp: wf_authority_def presence_inv_alt)
  with assms authorize_total [OF assms(1)] show ?thesis by (simp add: authorized_def console_def)
qed

text \<open>The shape of a sender: the console's carries nothing, a player's is filled from endbotd's own state.\<close>

lemma make_player: "make_principal ''player'' q = Inr p \<Longrightarrow> p = q\<lparr>p_kind := Player\<rparr>"
  by (auto simp: make_principal_def kind_of_name_def all_kinds_def split: if_splits)

lemma sender_cases:
  assumes "sender a wire = Inr p"
  obtains (console) d where "wire = JObj d" "json_field d ''kind'' = JStr ''console''" "p_kind p = Console"
  | (player) d i where "wire = JObj d" "json_field d ''kind'' = JStr ''player''" "p = claimed_player a d i"
  using assms
  by (auto simp: sender_def Let_def principal_of_def claimed_player_def dest!: make_player
      split: json.splits if_splits)

lemma sender_shape:
  assumes "sender a wire = Inr p" "p_kind p \<noteq> Console"
  shows "\<exists>i. p_kind p = Player \<and> player_id p = Some i \<and> \<not> console p \<and>
     p_xuid p = Option.bind (player i (a_presence a)) player_xuid \<and>
     p_name p = Option.bind (player i (a_presence a)) player_name \<and>
     authorization_revision p = session_revision i (a_presence a) \<and>
     grant_revision p = Some (get_revision (a_revisions a) i)"
  using assms(1)
proof (cases rule: sender_cases)
  case (player d i)
  then show ?thesis
    by (auto simp: claimed_player_def Let_def console_def session_revision_def)
qed (use assms(2) in simp)

text \<open>The plugin only says who typed a command: a player sender gets the name, XUID, session and grant revision
  and role that endbotd itself holds for that player, is never the console, and is authorised at once
  exactly when that online player may control Bots now.\<close>

theorem sender_is_what_presence_says:
  assumes "wf_authority a" and "sender a wire = Inr p" and "p_kind p \<noteq> Console"
  shows "\<exists>i. p_kind p = Player \<and> player_id p = Some i \<and> \<not> console p \<and>
     p_xuid p = Option.bind (player i (a_presence a)) player_xuid \<and>
     p_name p = Option.bind (player i (a_presence a)) player_name \<and>
     authorization_revision p = session_revision i (a_presence a) \<and>
     grant_revision p = Some (get_revision (a_revisions a) i) \<and>
     authorize p a = Inr (case player i (a_presence a) of None \<Rightarrow> False | Some s \<Rightarrow> session_may a s)"
proof -
  obtain i where p: "p_kind p = Player" "player_id p = Some i" "\<not> console p"
      "p_xuid p = Option.bind (player i (a_presence a)) player_xuid"
      "p_name p = Option.bind (player i (a_presence a)) player_name"
      "authorization_revision p = session_revision i (a_presence a)"
      "grant_revision p = Some (get_revision (a_revisions a) i)"
    using sender_shape [OF assms(2,3)] by blast
  then have "authorize p a = Inr (case player i (a_presence a) of None \<Rightarrow> False | Some s \<Rightarrow> session_may a s)"
    by (auto simp: authorize_total [OF assms(1)] authorized_def session_revision_def split: option.split)
  with p show ?thesis by blast
qed

end
