(* ===== verification/Link_Guarantees.thy ===== *)
theory Link_Guarantees
  imports Link_Safety
begin

text \<open>
  What players cannot reach, what a revocation withstands, the order of role and grant, and the control
  permissions the plugin is sent.
\<close>

section \<open>Submissions of players\<close>

lemma accept_player:
  assumes "wf_authority a" "p_kind (principal s) = Player" "\<not> console (principal s)"
    and "accept_submission now s a = (res, b)"
  shows "b = a" and "res \<noteq> Inr (Managed out ps)"
    and "res = Inr (Queued q ws rt) \<Longrightarrow> q = principal s \<and>
      (\<exists>i t. player_id q = Some i \<and> player i (a_presence a) = Some t \<and> session_may a t)"
  using assms
  by (auto simp: accept_submission_def Let_def allows_session_may split: option.splits if_splits)

lemma submit_player:
  assumes "wf_authority a" "sender a (json_field body ''sender'') = Inr p" "p_kind p \<noteq> Console"
    and "submit now body a = (res, b)"
  shows "b = a" and "res \<noteq> Inr (Managed out ps)"
    and "res = Inr (Queued q ws rt) \<Longrightarrow> q = p \<and> authorized q a"
proof -
  have p: "p_kind p = Player" "\<not> console p"
    and fresh: "authorization_revision p = Option.bind (player_id p) (\<lambda>i. session_revision i (a_presence a))"
      "grant_revision p = map_option (get_revision (a_revisions a)) (player_id p)"
    using sender_shape [OF assms(2,3)] by auto
  consider (bad) e where "res = Inl e" "b = a"
    | (good) s where "principal s = p" "accept_submission now s a = (res, b)"
  proof (cases "parse_submission a body")
    case (Inr s)
    have "principal s = p"
      using Inr assms(2) by (auto simp: parse_submission_def Let_def split: json.splits if_splits)
    with good Inr assms(4) show ?thesis by (simp add: submit_def)
  next
    case (Inl e)
    with bad [of e] assms(4) show ?thesis by (simp add: submit_def)
  qed
  then have "b = a \<and> res \<noteq> Inr (Managed out ps) \<and> (res = Inr (Queued q ws rt) \<longrightarrow> q = p \<and> authorized q a)"
  proof cases
    case (good s)
    have p': "p_kind (principal s) = Player" "\<not> console (principal s)" using p good(1) by simp_all
    note accept = accept_player [OF assms(1) p' good(2)]
    have "authorized q a" if q: "res = Inr (Queued q ws rt)"
      using accept(3) [OF q] fresh good(1) by (auto simp: authorized_def session_revision_def)
    with accept good(1) show ?thesis by blast
  qed simp
  then show "b = a" "res \<noteq> Inr (Managed out ps)"
      "res = Inr (Queued q ws rt) \<Longrightarrow> q = p \<and> authorized q a" by blast+
qed

text \<open>C15: No submission of a player changes who may control Bots: the authority is left as it was, whatever the
  player sends, the console's controller management is refused, and only a player who may control Bots
  now gets a command queued, under a principal that is authorised at that point.\<close>

theorem player_submissions_change_nothing:
  assumes "wf_authority a" and "sender a (json_field body ''sender'') = Inr p" and "p_kind p \<noteq> Console"
    and "submit now body a = (res, b)"
  shows "b = a \<and> (\<forall>out ps. res \<noteq> Inr (Managed out ps)) \<and>
    (\<forall>q ws rt. res = Inr (Queued q ws rt) \<longrightarrow> q = p \<and> authorize q a = Inr True)"
  using submit_player [OF assms] by (auto simp: authorize_total [OF assms(1)])

section \<open>Revocations withstand joins\<close>

lemma policy_frame: "(\<And>a. keeps (same_policy a) m) \<Longrightarrow> keeps (\<lambda>b. P (policy_now b)) m"
  unfolding keeps_def same_policy_def by (metis (no_types, lifting))

definition denies :: "string list \<Rightarrow> string list \<Rightarrow> policy \<Rightarrow> bool" where
  "denies xs us p \<longleftrightarrow> set xs \<subseteq> set (denied_xuids p) \<and> set us \<subseteq> set (denied_uuids p)"

lemma enroll_denies: "denies xs us (state s) \<Longrightarrow> denies xs us (state (snd (enroll now n x u s)))"
proof -
  assume d: "denies xs us (state s)"
  obtain r t where e: "enroll now n x u s = (r, t)" by fastforce
  show ?thesis
  proof (cases "r = Inr True")
    case True
    with e obtain m i where "denied (state s) x u = Inr False" "norm_uuid u = Inr i"
        "state t = granted_policy now m x i (state s)" by (auto dest: enroll_InrD)
    with d e show ?thesis by (auto simp: denied_def denies_def granted_policy_def split: if_splits)
  qed (use e d in \<open>auto dest: enroll_other\<close>)
qed

lemma joined_denies: "keeps (\<lambda>b. denies xs us (policy_now b)) (joined now ss snapshot)"
proof -
  let ?P = "\<lambda>b. denies xs us (policy_now b)"
  have "keeps ?P (on_policy (enroll now n x u))" for n x u
    by (rule keeps_on_part) (simp add: enroll_denies)
  then have "keeps ?P (join_one now s)" for s
    unfolding join_one_def Let_def
    by (rule keeps_sbind [OF _ keeps_sthen [OF policy_frame [OF same_bind]
        keeps_sthen [OF policy_frame [OF same_hand_over] policy_frame [OF same_apply]]]])
  then have "keeps ?P (smap (join_one now) ss)" by (rule keeps_smap)
  moreover have "keeps ?P (update (\<lambda>a. a\<lparr>a_granted := []\<rparr>))" by (rule keeps_update) simp
  ultimately show ?thesis unfolding joined_def by (intro keeps_sthen keeps_swhen)
qed

lemma report_denies: "keeps (\<lambda>b. denies xs us (policy_now b)) (presence_report now body)"
proof -
  have "keeps (\<lambda>b. denies xs us (policy_now b)) (update (quit_all ss))" for ss by (rule keeps_update) simp
  moreover have "keeps (\<lambda>b. denies xs us (policy_now b)) (on_presence (apply_report body))"
    by (intro policy_frame same_presence)
  ultimately show ?thesis unfolding presence_report_def Let_def
    by (intro keeps_sbind keeps_if joined_denies keeps_sthen keeps_ret)
qed

fun by_console :: "link_event \<Rightarrow> bool" where
  "by_console (Cli _ _) = True"
| "by_console (Submit _ body) =
     (case json_field body ''sender'' of JObj d \<Rightarrow> json_field d ''kind'' \<noteq> JStr ''player'' | _ \<Rightarrow> False)"
| "by_console _ = False"

lemma step_denies:
  assumes "wf_authority a" "\<not> by_console e" "denies xs us (policy_now a)"
  shows "denies xs us (policy_now (link_step e a))"
proof (cases e)
  case (Hello ls m)
  then have "relinks e" by simp
  then show ?thesis by (cases rule: relink_cases [of e a]) (use assms(3) in auto)
next
  case (Report now body)
  with keepsD [OF report_denies assms(3)] show ?thesis by simp
next
  case (Submit now body)
  obtain res b where s: "submit now body a = (res, b)" by fastforce
  have "b = a"
  proof (cases "sender a (json_field body ''sender'')")
    case (Inl er)
    with s show ?thesis
      by (auto simp: submit_def parse_submission_def Let_def split: sum.splits json.splits if_splits)
  next
    case (Inr p)
    have "p_kind p \<noteq> Console"
      using Inr assms(2) Submit by (cases rule: sender_cases [OF Inr]) (auto simp: claimed_player_def Let_def)
    from submit_player(1) [OF assms(1) Inr this s] show ?thesis .
  qed
  with s Submit assms(3) show ?thesis by simp
qed (use assms in \<open>auto simp: close_link_def\<close>)

text \<open>C14: Only the console lifts a revocation of an account: through any links, presence reports and player
  submissions, a denied XUID or UUID stays denied and the account may not control Bots, not even by
  joining under a GamerTag that was granted before its first join.\<close>

theorem only_console_lifts_revocations:
  assumes "wf_authority a" and "list_all (\<lambda>e. \<not> by_console e) es"
    and "x \<in> set (denied_xuids (policy_now a)) \<or> i \<in> set (denied_uuids (policy_now a))"
  shows "\<not> may_control (history es a) name x i"
proof -
  have keep: "denies xs us (policy_now (history es b))"
    if "wf_authority b" "denies xs us (policy_now b)" for b xs us
    using assms(2) that by (induction es arbitrary: b) (auto simp: link_step_wf step_denies)
  show ?thesis
    using assms(3) keep [OF assms(1), of "[x]" "[]"] keep [OF assms(1), of "[]" "[i]"]
    by (auto simp: denies_def may_control_def)
qed

section \<open>The role comes before the grant\<close>

text \<open>The role recorded for the account or name an \<open>add\<close> is about.\<close>

definition recorded :: "string option \<Rightarrow> string \<Rightarrow> string \<Rightarrow> authority \<Rightarrow> bool" where
  "recorded x target r a \<longleftrightarrow> (case x of
     Some x' \<Rightarrow> if is_xuid x' then role_for a x' = r else pending_role (a_roles a) target = Some r
   | None \<Rightarrow> pending_role (a_roles a) target = Some r)"

lemma save_roles_eq: "save_roles t = (v, s') \<Longrightarrow> roles s' = roles t \<and> pending_roles s' = pending_roles t"
  using save_roles_same [of t] by simp

lemma role_ops:
  "set_role x r s = (Inr u, s') \<Longrightarrow> roles s' = dict_set x r (roles s)"
  "set_pending_role g r s = (Inr u, s') \<Longrightarrow> pending_roles s' = dict_set (casefold g) r (pending_roles s)"
  "forget_pending_roles gs s = (v, s') \<Longrightarrow> roles s' = roles s"
  by (auto simp: set_role_def set_pending_role_def forget_pending_roles_def split: if_splits dest: save_roles_eq)

lemma record_role_recorded:
  assumes "record_role x t r a = (Inr u, b)" shows "recorded x t r b"
  using assms
  by (auto simp: record_role_def recorded_def sthen_def sbind_def on_part_def role_for_def role_of_def
      pending_role_def dict_get_def dest!: role_ops split: option.splits if_splits prod.splits sum.splits)

definition same_roles_as :: "authority \<Rightarrow> authority \<Rightarrow> bool" where
  "same_roles_as a b \<longleftrightarrow> a_roles b = a_roles a"

lemma refresh_roles: "a_roles (snd (refresh a)) = a_roles a"
proof -
  have "keeps (same_roles_as a) (apply_permission i)" for i
    by (auto simp: keeps_def same_roles_as_def apply_permission_def Let_def split: sum.split)
  then have "keeps (same_roles_as a) (smap apply_permission (map player_key (online (a_presence a))))"
    by (intro keeps_smap)
  from keepsD [OF this, of a] show ?thesis by (simp add: same_roles_as_def refresh_def)
qed

lemma console_add_recorded:
  assumes "controllers_report a = Inr rs" "effective_role t r rs = Some v"
    and "console_add now t r a = (res, b)" "policy_now b \<noteq> policy_now a"
  shows "recorded (added_xuid t a) t v b"
proof -
  obtain q c where rec: "record_role (added_xuid t a) t v a = (q, c)" by fastforce
  have "keeps (same_policy a) (record_role (added_xuid t a) t v)"
    unfolding record_role_def by (intro keeps_option keeps_if keeps_sthen same_roles)
  from keepsD [OF this, of a] rec have "policy_now c = policy_now a" by (simp add: same_policy_def)
  with assms rec obtain u where q: "q = Inr u"
    by (cases q) (auto simp: console_add_def sthen_def sbind_def)
  have "a_roles b = a_roles c"
    using assms(1-3) rec q by (auto simp: console_add_def sthen_def sbind_def on_part_def split: prod.splits)
  with record_role_recorded [OF rec [unfolded q]] show ?thesis
    by (auto simp: recorded_def role_for_def split: option.splits)
qed

lemma snd_operation: "snd (operation now args target r a) = snd (console_operation now args target r a)"
  by (auto simp: operation_def split: prod.split sum.split)

text \<open>C17: A new grant never exists without its role: if adding a GamerTag changed the policy at all, then the
  role asked for, or controller for a name that was not allowed before, is recorded for the account it
  grants, or waiting under the name when no account is known, even when a later write failed.\<close>

theorem role_recorded_before_grant:
  assumes "controllers_report a = Inr rs" and "effective_role t r rs = Some v"
    and "operation now [''add''] (Some t) r a = (res, b)" and "policy_now b \<noteq> policy_now a"
  shows "recorded (added_xuid t a) t v b"
proof -
  let ?add = "console_add now t r"
  have keep: "policy_now (snd (refresh c)) = policy_now c" "a_roles (snd (refresh c)) = a_roles c" for c
    using keepsD [OF same_refresh same_policy_refl, of c] refresh_roles [of c] by (auto simp: same_policy_def)
  have fold: "casefold ''add'' = ''add''" by code_simp
  have run: "snd (operation now [''add''] (Some t) r a) = a \<or>
      snd (operation now [''add''] (Some t) r a) = snd (sbind (sthen ?add refresh) (report_result t True) a)"
    unfolding snd_operation
    by (simp add: console_operation_def console_target_def fold or_empty_def Let_def)
  have m: "snd (sbind (sthen ?add refresh) (report_result t True) a) \<in> {snd (?add a), snd (refresh (snd (?add a)))}"
    by (auto simp: snd_sbind sthen_def sbind_def report_result_def split: prod.split sum.split)
  have "policy_now (snd (?add a)) = policy_now b \<and> a_roles (snd (?add a)) = a_roles b"
    using run m assms(3,4) keep by auto
  then show ?thesis
    using console_add_recorded [OF assms(1,2), of now "fst (?add a)" "snd (?add a)"] assms(4)
    by (auto simp: recorded_def role_for_def split: option.splits)
qed

section \<open>The permissions sent to the plugin\<close>

text \<open>A player's name and accounts, which no permission change touches.\<close>

definition identity_of :: "session \<Rightarrow> string \<times> string option \<times> string option" where
  "identity_of s = (player_key s, player_name s, player_xuid s)"

lemma session_may_identity:
  "identity_of s = identity_of t \<Longrightarrow> a_policy a = a_policy b \<Longrightarrow> a_controllers a = a_controllers b \<Longrightarrow>
    a_allowed a = a_allowed b \<Longrightarrow> session_may a s = session_may b t"
  by (simp add: session_may_def may_control_def identity_of_def)

definition same_identities :: "authority \<Rightarrow> authority \<Rightarrow> bool" where
  "same_identities a b \<longleftrightarrow> a_policy b = a_policy a \<and> a_controllers b = a_controllers a \<and> a_allowed b = a_allowed a \<and>
     (\<forall>i. map_option identity_of (player i (a_presence b)) = map_option identity_of (player i (a_presence a)))"

lemma bump_identity:
  assumes "presence_inv p"
  shows "map_option identity_of (player i (bump_session j p)) = map_option identity_of (player i p)"
proof (cases "map_of (players p) j")
  case (Some s)
  then have "player_key s = j" using presence_okD [of p j s] assms by (simp add: presence_inv_alt player_def)
  with Some show ?thesis by (simp add: bump_session_def player_def identity_of_def)
qed (simp add: bump_session_def)

text \<open>What \<open>_apply\<close> does for one player, when nothing raises: record the decision, and on a change of it
  replace the session.\<close>

lemma apply_permission_spec:
  assumes "wf_authority a"
  obtains b where "apply_permission i a = (Inr (i, case player i (a_presence a) of None \<Rightarrow> False | Some s \<Rightarrow> session_may a s), b)"
    "same_identities a b" "wf_authority b"
    "map_of (a_granted b) i = Some (case player i (a_presence a) of None \<Rightarrow> False | Some s \<Rightarrow> session_may a s)"
    "\<And>j. j \<noteq> i \<Longrightarrow> map_of (a_granted b) j = map_of (a_granted a) j"
    "\<And>j. j \<noteq> i \<Longrightarrow> session_revision j (a_presence b) = session_revision j (a_presence a)"
    "\<And>s. player i (a_presence a) = Some s \<Longrightarrow> dict_get (a_granted a) i False \<noteq> session_may a s \<Longrightarrow>
       session_revision i (a_presence b) \<noteq> Some (revision s)"
proof -
  let ?v = "case player i (a_presence a) of None \<Rightarrow> False | Some s \<Rightarrow> session_may a s"
  let ?p = "if dict_get (a_granted a) i False \<noteq> ?v then bump_session i (a_presence a) else a_presence a"
  let ?b = "a\<lparr>a_presence := ?p, a_granted := dict_set i ?v (a_granted a)\<rparr>"
  have inv: "presence_inv (a_presence a)" using assms by (simp add: wf_authority_def)
  have r: "apply_permission i a = (Inr (i, ?v), ?b)"
    using allows_session_may [OF assms] by (auto simp: apply_permission_def Let_def split: option.split)
  have wf: "wf_authority ?b" using keepsD [OF after_apply after_refl [OF assms], of i] r by (simp add: after_def)
  have rev: "session_revision j (bump_session i (a_presence a)) = session_revision j (a_presence a)" if "j \<noteq> i" for j
  proof (cases "map_of (players (a_presence a)) i")
    case (Some s)
    then have "player_key s = i" using presence_okD [of "a_presence a" i s] inv by (simp add: presence_inv_alt player_def)
    with Some that show ?thesis by (simp add: bump_session_def session_revision_def player_def)
  qed (simp add: bump_session_def)
  have new: "session_revision i (bump_session i (a_presence a)) \<noteq> Some (revision s)"
    if "player i (a_presence a) = Some s" for s
  proof -
    have "player_key s = i" "snd (revision s) \<le> joins (a_presence a)"
      using presence_okD [of "a_presence a" i s] inv that by (auto simp: presence_inv_alt)
    then have "(e, Suc (joins (a_presence a))) \<noteq> revision s" for e by (cases "revision s") auto
    with that \<open>player_key s = i\<close> show ?thesis by (simp add: bump_session_def session_revision_def player_def)
  qed
  show ?thesis
    by (rule that [OF r _ wf]) (use bump_identity [OF inv] rev new in \<open>auto simp: same_identities_def\<close>)
qed

text \<open>The loop of \<open>refresh\<close> over distinct players.\<close>

lemma smap_apply:
  assumes "wf_authority a" "distinct ids" "\<And>i. i \<in> set ids \<Longrightarrow> player i (a_presence a) \<noteq> None"
  shows "\<exists>b. smap apply_permission ids a = (Inr (map (\<lambda>i. (i, session_may a (the (player i (a_presence a))))) ids), b) \<and>
    same_identities a b \<and> wf_authority b \<and>
    (\<forall>i \<in> set ids. map_of (a_granted b) i = Some (session_may a (the (player i (a_presence a)))) \<and>
      (dict_get (a_granted a) i False \<noteq> session_may a (the (player i (a_presence a))) \<longrightarrow>
        session_revision i (a_presence b) \<noteq> session_revision i (a_presence a))) \<and>
    (\<forall>j. j \<notin> set ids \<longrightarrow> map_of (a_granted b) j = map_of (a_granted a) j \<and>
      session_revision j (a_presence b) = session_revision j (a_presence a))"
  using assms
proof (induction ids arbitrary: a)
  case (Cons i ids)
  obtain s where s: "player i (a_presence a) = Some s" using Cons.prems(3) [of i] by auto
  obtain c where c: "apply_permission i a = (Inr (i, session_may a s), c)" "same_identities a c" "wf_authority c"
    "map_of (a_granted c) i = Some (session_may a s)"
    "\<And>j. j \<noteq> i \<Longrightarrow> map_of (a_granted c) j = map_of (a_granted a) j"
    "\<And>j. j \<noteq> i \<Longrightarrow> session_revision j (a_presence c) = session_revision j (a_presence a)"
    "dict_get (a_granted a) i False \<noteq> session_may a s \<Longrightarrow> session_revision i (a_presence c) \<noteq> Some (revision s)"
    using apply_permission_spec [OF Cons.prems(1), of i] s by (metis option.case(2))
  have online: "player j (a_presence c) \<noteq> None" if "j \<in> set ids" for j
    using Cons.prems(3) [of j] that c(2) unfolding same_identities_def
    by (metis list.set_intros(2) map_option_is_None)
  have may: "session_may c (the (player j (a_presence c))) = session_may a (the (player j (a_presence a)))"
    if "j \<in> set ids" for j
  proof -
    have "identity_of (the (player j (a_presence c))) = identity_of (the (player j (a_presence a)))"
      using c(2) online [OF that] Cons.prems(3) [of j] that unfolding same_identities_def
      by (metis list.set_intros(2) option.map_sel)
    with c(2) show ?thesis by (intro session_may_identity) (auto simp: same_identities_def)
  qed
  have "distinct ids" using Cons.prems(2) by simp
  from Cons.IH [OF c(3) this online] obtain b where
    b: "smap apply_permission ids c = (Inr (map (\<lambda>i. (i, session_may c (the (player i (a_presence c))))) ids), b)"
      "same_identities c b" "wf_authority b"
      "\<forall>i \<in> set ids. map_of (a_granted b) i = Some (session_may c (the (player i (a_presence c)))) \<and>
        (dict_get (a_granted c) i False \<noteq> session_may c (the (player i (a_presence c))) \<longrightarrow>
          session_revision i (a_presence b) \<noteq> session_revision i (a_presence c))"
      "\<forall>j. j \<notin> set ids \<longrightarrow> map_of (a_granted b) j = map_of (a_granted c) j \<and>
        session_revision j (a_presence b) = session_revision j (a_presence c)"
    by blast
  have l: "map (\<lambda>i. (i, session_may c (the (player i (a_presence c))))) ids =
      map (\<lambda>i. (i, session_may a (the (player i (a_presence a))))) ids"
    using may by simp
  have "same_identities a b" using b(2) c(2) by (simp add: same_identities_def)
  moreover have "i \<notin> set ids" using Cons.prems(2) by simp
  moreover have "session_revision i (a_presence a) = Some (revision s)" using s by (simp add: session_revision_def)
  moreover have "map_of (a_granted b) j = Some (session_may a (the (player j (a_presence a)))) \<and>
      (dict_get (a_granted a) j False \<noteq> session_may a (the (player j (a_presence a))) \<longrightarrow>
        session_revision j (a_presence b) \<noteq> session_revision j (a_presence a))" if "j \<in> set ids" for j
  proof -
    have "j \<noteq> i" using that \<open>i \<notin> set ids\<close> by blast
    then have "dict_get (a_granted c) j False = dict_get (a_granted a) j False"
      "session_revision j (a_presence c) = session_revision j (a_presence a)"
      using c(5,6) by (simp_all add: dict_get_def)
    with bspec [OF b(4) that] may [OF that] show ?thesis by simp
  qed
  ultimately show ?case
    using b(1,3,5) c s l by (intro exI [of _ b]) (auto simp: sbind_def)
qed (simp add: same_identities_def)

text \<open>After a change the plugin is told the truth: a refresh cannot fail, reports for every online player the
  decision the authority now makes, remembers exactly that, and gives a new session, which ends all
  queued commands, to every player whose permission changed.\<close>

theorem refresh_settles:
  assumes "wf_authority a"
  shows "\<exists>ps b. refresh a = (Inr ps, b) \<and> wf_authority b \<and>
    (\<forall>s \<in> set (online (a_presence a)).
      (player_key s, session_may b s) \<in> set ps \<and> map_of (a_granted b) (player_key s) = Some (session_may b s) \<and>
      (dict_get (a_granted a) (player_key s) False \<noteq> session_may b s \<longrightarrow>
        session_revision (player_key s) (a_presence b) \<noteq> Some (revision s)))"
proof -
  let ?ids = "map player_key (online (a_presence a))"
  have inv: "presence_inv (a_presence a)" using assms by (simp add: wf_authority_def)
  then have keys: "?ids = keys (players (a_presence a))"
    by (auto simp: online_def presence_inv_def)
  then have d: "distinct ?ids" using inv by (simp add: presence_inv_def)
  have at: "player (player_key s) (a_presence a) = Some s" if "s \<in> set (online (a_presence a))" for s
    using that inv by (fastforce simp: online_def presence_inv_def player_def)
  obtain b where b: "smap apply_permission ?ids a = (Inr (map (\<lambda>i. (i, session_may a (the (player i (a_presence a))))) ?ids), b)"
    "same_identities a b" "wf_authority b"
    "\<forall>i \<in> set ?ids. map_of (a_granted b) i = Some (session_may a (the (player i (a_presence a)))) \<and>
      (dict_get (a_granted a) i False \<noteq> session_may a (the (player i (a_presence a))) \<longrightarrow>
        session_revision i (a_presence b) \<noteq> session_revision i (a_presence a))"
    using smap_apply [OF assms d] at by fastforce
  have "session_may b s = session_may a s" for s
    using b(2) by (intro session_may_identity) (auto simp: same_identities_def)
  with b at show ?thesis
    by (intro exI [of _ b] exI) (auto simp: refresh_def session_revision_def)
qed

end
