(* ===== verification/Link_Examples.thy ===== *)
theory Link_Examples
  imports Link_Guarantees
begin

text \<open>
  One concrete authority and the histories the witnesses of the link theorems run: the player Steve is
  online with a runtime grant, and his account is revoked and granted again.
\<close>

definition steve_id :: string where
  "steve_id = ''00000000-0000-0000-0000-000000000001''"

definition steve_report :: json where
  "steve_report = JObj [(''playerId'', JStr steve_id), (''name'', JStr ''Steve''), (''xuid'', JStr ''2535'')]"

definition example_link :: link_setup where
  "example_link = \<lparr>link_token = ''secret'', registry = ''hash'', takes_cli = True\<rparr>"

definition hello :: "string \<Rightarrow> link_event" where
  "hello e = Hello example_link [(''type'', JStr ''hello''), (''body'', JObj [(''token'', JStr ''secret''),
     (''protocol'', JInt 2), (''registryHash'', JStr ''hash''), (''epoch'', JStr e)])]"

definition joins_now :: link_event where
  "joins_now = Report ''t'' [(''kind'', JStr ''join''), (''player'', steve_report)]"

definition quits_now :: link_event where
  "quits_now = Report ''t'' [(''kind'', JStr ''quit''), (''playerId'', JStr steve_id)]"

definition cli :: "string \<Rightarrow> string \<Rightarrow> link_event" where
  "cli op target = Cli ''t'' [(''operation'', JStr op), (''target'', JStr target)]"

definition blank_authority :: authority where
  "blank_authority = \<lparr>a_presence = empty_presence, a_allowed = no_allowlist,
     a_controllers = \<lparr>gamertags = [], bindings_path = None, bound = []\<rparr>,
     a_policy = \<lparr>policy_file = \<lparr>content = Absent, outcomes = []\<rparr>, state = empty_policy\<rparr>,
     a_revisions = \<lparr>rev_path = None, revs = []\<rparr>,
     a_roles = \<lparr>roles_path = None, roles = [], pending_roles = []\<rparr>, a_granted = []\<rparr>"

text \<open>Steve has joined under epoch \<open>e1\<close> and been granted control.\<close>

definition steve :: session where
  "steve = \<lparr>player_key = steve_id, player_name = Some ''Steve'', player_xuid = Some ''2535'',
     player_locale = None, revision = (''e1'', 2)\<rparr>"

definition steve_grant :: binding where
  "steve_grant = \<lparr>gamertag = ''Steve'', xuid = ''2535'', uuid = steve_id, bound_at = ''t''\<rparr>"

definition granted_state :: policy where
  "granted_state = empty_policy\<lparr>grants_of := [steve_grant]\<rparr>"

definition steve_authority :: authority where
  "steve_authority = \<lparr>a_presence = \<lparr>epoch = Some ''e1'', joins = 2, players = [(steve_id, steve)]\<rparr>,
     a_allowed = no_allowlist, a_controllers = \<lparr>gamertags = [], bindings_path = None, bound = []\<rparr>,
     a_policy = \<lparr>policy_file = \<lparr>content = Plain (Some (encode_policy granted_state)), outcomes = []\<rparr>,
       state = granted_state\<rparr>,
     a_revisions = \<lparr>rev_path = None, revs = []\<rparr>,
     a_roles = \<lparr>roles_path = None, roles = [(''2535'', ''controller'')], pending_roles = []\<rparr>,
     a_granted = [(steve_id, True)]\<rparr>"

lemma steve_reached: "history [hello ''e1'', joins_now, cli ''add'' ''Steve''] blank_authority = steve_authority"
  by code_simp

lemma wf_blank: "wf_authority blank_authority"
  by (simp add: wf_authority_def blank_authority_def enrollment_ok_def enrollment_inv_def)

lemma wf_steve: "wf_authority steve_authority"
  using history_wf [OF wf_blank] steve_reached by metis

definition revoked_state :: policy where
  "revoked_state = granted_state\<lparr>denied_names := [''steve''], denied_xuids := [''2535''], denied_uuids := [steve_id]\<rparr>"

definition revoked_authority :: authority where
  "revoked_authority = steve_authority\<lparr>
     a_presence := \<lparr>epoch = Some ''e1'', joins = 3, players = [(steve_id, steve\<lparr>revision := (''e1'', 3)\<rparr>)]\<rparr>,
     a_policy := \<lparr>policy_file = \<lparr>content = Plain (Some (encode_policy revoked_state)), outcomes = []\<rparr>,
       state = revoked_state\<rparr>,
     a_revisions := \<lparr>rev_path = None, revs = [(steve_id, 1)]\<rparr>,
     a_roles := \<lparr>roles_path = None, roles = [], pending_roles = []\<rparr>, a_granted := [(steve_id, False)]\<rparr>"

lemma revoked_reached: "link_step (cli ''remove'' ''Steve'') steve_authority = revoked_authority"
  by code_simp

definition steve_row :: row where
  "steve_row = \<lparr>row_name = ''Steve'', row_state = ''allowed'', row_reason = ''runtime grant'',
     row_xuid = Some ''2535'', row_uuid = Some steve_id, row_role = Some ''controller'', row_online = True\<rparr>"

lemma steve_listed: "controllers_report steve_authority = Inr [steve_row]"
  by code_simp

text \<open>A command Steve typed while he was allowed, and the job it started.\<close>

definition steve_command :: principal where
  "steve_command = (principal_of Player)\<lparr>p_name := Some ''Steve'', p_xuid := Some ''2535'', grant_revision := Some 0,
     player_id := Some steve_id, authorization_revision := Some (''e1'', 2), p_role := Some ''controller''\<rparr>"

definition wire_of_steve :: json where
  "wire_of_steve = JObj [(''kind'', JStr ''player''), (''playerId'', JStr steve_id)]"

section \<open>Witnesses\<close>


lemma old_session_never_authorized_witness:
  "authorize steve_command (history ([cli ''remove'' ''Steve''] @ [cli ''add'' ''Steve'']) steve_authority) = Inr False"
proof (rule old_session_never_authorized [OF wf_steve, where rv = "(''e1'', 2)"])
  show "session_revision steve_id (a_presence steve_authority) = Some (''e1'', 2)" by code_simp
  show "session_revision steve_id (a_presence (history [cli ''remove'' ''Steve''] steve_authority)) \<noteq> Some (''e1'', 2)"
    unfolding history_simps revoked_reached by code_simp
qed (simp_all add: cli_def steve_command_def principal_of_def)

lemma authorize_meaning_witness: "authorize steve_command steve_authority = Inr (authorized steve_command steve_authority)"
  by (rule authorize_meaning) (rule wf_steve)

lemma no_link_no_player_witness: "authorize steve_command (link_step Closed steve_authority) = Inr False"
  by (rule no_link_no_player [OF link_step_wf [OF wf_steve], where i = steve_id])
    (simp_all add: close_link_def reset_def steve_command_def principal_of_def)

lemma steve_sends: "sender steve_authority wire_of_steve = Inr steve_command"
  by code_simp

lemma sender_is_what_presence_says_witness:
  "\<exists>i. player_id steve_command = Some i \<and>
     authorize steve_command steve_authority = Inr (case player i (a_presence steve_authority) of
       None \<Rightarrow> False | Some s \<Rightarrow> session_may steve_authority s)"
  using sender_is_what_presence_says [OF wf_steve steve_sends] by (auto simp: steve_command_def principal_of_def)

definition steve_types :: "(string, json) dict" where
  "steve_types = [(''root'', JStr ''botcontrollers''), (''argv'', JArr [JStr ''add'', JStr ''Alex'']), (''sender'', wire_of_steve)]"

lemma player_submissions_change_nothing_witness:
  "snd (submit ''t'' steve_types steve_authority) = steve_authority"
proof -
  have "sender steve_authority (json_field steve_types ''sender'') = Inr steve_command"
    using steve_sends by (simp add: steve_types_def json_field_def dict_get_def)
  from player_submissions_change_nothing [OF wf_steve this, of "''t''" "fst (submit ''t'' steve_types steve_authority)"
      "snd (submit ''t'' steve_types steve_authority)"]
  show ?thesis by (simp add: steve_command_def principal_of_def)
qed

lemma only_console_lifts_revocations_witness:
  "\<not> may_control (history [quits_now, joins_now, Submit ''t'' steve_types] revoked_authority) ''Steve'' ''2535'' steve_id"
proof (rule only_console_lifts_revocations)
  show "wf_authority revoked_authority" using link_step_wf [OF wf_steve] revoked_reached by metis
qed (simp_all add: quits_now_def joins_now_def steve_types_def wire_of_steve_def json_field_def dict_get_def
    revoked_authority_def steve_authority_def revoked_state_def)

lemma role_recorded_before_grant_witness:
  "recorded None ''Alex'' ''controller'' (snd (operation ''t'' [''add''] (Some ''Alex'') None blank_authority))"
proof -
  let ?op = "operation ''t'' [''add''] (Some ''Alex'') None blank_authority"
  have r: "controllers_report blank_authority = Inr []" by code_simp
  have e: "effective_role ''Alex'' None [] = Some ''controller''" by code_simp
  have x: "added_xuid ''Alex'' blank_authority = None" by code_simp
  have p: "policy_now (snd ?op) \<noteq> policy_now blank_authority" by code_simp
  from role_recorded_before_grant [OF r e surjective_pairing p] show ?thesis by (simp add: x)
qed

lemma refresh_settles_witness: "\<exists>ps b. refresh steve_authority = (Inr ps, b) \<and> wf_authority b"
  using refresh_settles [OF wf_steve] by blast

section \<open>A gap\<close>

text \<open>An authority that allows Steve's account only through the legacy XUID list.\<close>

definition listed_authority :: authority where
  "listed_authority = blank_authority\<lparr>a_allowed := \<lparr>allowed_uuids = [], allowed_xuids = [''2535'']\<rparr>\<rparr>"

text \<open>An offline account that only the legacy allowlist names has no row with a UUID, so revoking it by XUID
  raises no grant revision: a job its player started before is refused while the account is revoked, and
  runs on under its old revision once the account is granted again.\<close>

theorem allowlisted_job_revives:
  "let job = as_job steve_command;
       revoked = history [cli ''remove'' ''xuid:2535''] listed_authority;
       regranted = history [hello ''e2'', joins_now, cli ''add'' ''Steve''] revoked
   in authorize job listed_authority = Inr True \<and> authorize job revoked = Inr False \<and>
      authorize job regranted = Inr True"
  by code_simp

end
