(* ===== verification/Web_Safety.thy ===== *)
theory Web_Safety
  imports Web_Auth Link_Examples
begin

text \<open>
  What the web's sessions and passkeys promise, over \<open>Web_Auth\<close>: a token acts for somebody only while its
  session is live, a session is issued only on a verified assertion to a challenge of this server, a ceremony
  serves once, and no account holds more than ten passkeys. The witnesses run Steve's authority.
\<close>

section \<open>A web principal\<close>

lemma update_session_accounts: "web_accounts (snd (update_session h d s)) = web_accounts s"
  and delete_session_accounts: "web_accounts (snd (delete_session h s)) = web_accounts s"
  by (auto simp: update_session_def delete_session_def commit_sessions_def split: prod.split sum.split)

lemma session_for_live:
  assumes "session_for l now active token w = (Inr (Some e), w')"
  shows "\<exists>t. token = Some t \<and> find_session (token_hash l t) (w_store w) = Some e \<and>
    session_ended now e (account (text_at ''account'' e) (w_store w)) = Inr False \<and>
    web_accounts (w_store w') = web_accounts (w_store w)"
  using assms
  by (auto simp: session_for_def sbind_def on_part_def end_session_def
      split: option.splits if_splits prod.splits sum.splits dest!: arg_cong [of "(_, _)" _ snd]
      simp: update_session_accounts)
    (metis snd_conv update_session_accounts)+

lemma session_not_ended:
  "session_ended now e acc = Inr False \<Longrightarrow>
    \<exists>a. acc = Some a \<and> \<not> elapsed now session_idle_seconds (map_of e ''lastSeen'') \<and>
      \<not> elapsed now session_absolute_seconds (map_of e ''created'') \<and>
      json_less (json_at ''created'' e) (dict_get a ''sessionsFrom'' (JInt 0)) = Inr False"
  by (auto simp: session_ended_def split: option.splits if_splits)

lemma authorized_revision:
  "authorize p a = Inr True \<Longrightarrow> \<not> console p \<Longrightarrow> \<exists>i. player_id p = Some i \<and> grant_revision p = Some (get_revision (a_revisions a) i)"
  by (auto simp: authorize_def split: option.splits if_splits)

text \<open>What a web session has to be to act for its account now.\<close>

definition live_session :: "webauthn \<Rightarrow> authority \<Rightarrow> rat \<Rightarrow> string option \<Rightarrow> web_auth \<Rightarrow> entry \<Rightarrow> entry \<Rightarrow> bool" where
  "live_session l a now token w e acc \<longleftrightarrow>
     (case token of None \<Rightarrow> False | Some t \<Rightarrow> find_session (token_hash l t) (w_store w) = Some e) \<and>
     account (text_at ''account'' e) (w_store w) = Some acc \<and>
     \<not> elapsed now session_idle_seconds (map_of e ''lastSeen'') \<and>
     \<not> elapsed now session_absolute_seconds (map_of e ''created'') \<and>
     json_less (json_at ''created'' e) (dict_get acc ''sessionsFrom'' (JInt 0)) = Inr False \<and>
     int_at ''grantRevision'' e = Some (get_revision (a_revisions a) (text_at ''uuid'' acc))"

text \<open>C9: A token acts for somebody only while its session is stored, belongs to an account, was used within the last
  seven days, is under thirty days old, is no older than the account's last revocation and carries the grant
  revision that holds now; then the principal is that account's, and the authority authorises it at that moment.\<close>

theorem web_principal_is_live:
  assumes "fst (principal_for l a now lang active token w) = Inr (Some p)"
  shows "authorize p a = Inr True \<and> p_kind p = Web \<and> \<not> console p \<and>
    (\<exists>e acc. live_session l a now token w e acc \<and> p_xuid p = Some (text_at ''xuid'' acc) \<and>
      player_id p = Some (text_at ''uuid'' acc))"
proof -
  from assms obtain e w' acc where s: "session_for l now active token w = (Inr (Some e), w')"
    and acc: "account (text_at ''account'' e) (w_store w') = Some acc"
    and p: "web_principal a acc e lang = Inr p" and ok: "authorize p a = Inr True"
    by (auto simp: principal_for_def sbind_def split: prod.splits sum.splits option.splits if_splits)
  obtain t where t: "token = Some t" "find_session (token_hash l t) (w_store w) = Some e"
    and gone: "session_ended now e (account (text_at ''account'' e) (w_store w)) = Inr False"
    and same: "web_accounts (w_store w') = web_accounts (w_store w)"
    using session_for_live [OF s] by auto
  have acc': "account (text_at ''account'' e) (w_store w) = Some acc"
    using acc same by (simp add: account_def)
  have fields: "p_kind p = Web" "\<not> console p" "p_xuid p = Some (text_at ''xuid'' acc)" "player_id p = Some (text_at ''uuid'' acc)"
    "grant_revision p = int_at ''grantRevision'' e"
    using p by (auto simp: web_principal_def make_principal_def kind_of_name_def all_kinds_def console_def principal_of_def
        split: if_splits)
  have "live_session l a now token w e acc"
    using session_not_ended [OF gone] authorized_revision [OF ok fields(2)] fields t acc'
    by (auto simp: live_session_def)
  with ok fields show ?thesis by blast
qed

section \<open>Runs of requests\<close>

definition serve :: "webauthn \<Rightarrow> (authority \<times> draw \<times> string \<times> json \<times> string option) list \<Rightarrow> web_auth \<Rightarrow> web_auth" where
  "serve l rs w = fold (\<lambda>(a, q, path, j, token) w. snd (handle l a q path j token w)) rs w"

section \<open>Invariants of the service\<close>

lemma keeps_refuse [simp, intro]: "keeps I (refuse n c)"
  by (simp add: refuse_def)

lemma keeps_credential [intro]: "keeps I (credential_of body)"
  by (auto simp: credential_of_def refuse_def keeps_def split: option.split json.split)

lemma keeps_permitted [intro]: "keeps I (permitted a tag x u)"
  by (auto simp: permitted_def intro!: keeps_sbind)

lemma keeps_check [intro]: "keeps I (check_passkeys i)"
  by (simp add: keeps_def check_passkeys_def refuse_def)

text \<open>
  The contract between the service and an invariant: the writes of the store, the link codes and the ceremonies keep
  it, for draws that satisfy \<open>P\<close>; a passkey may be added while its account is under the limit.
\<close>

locale web_kept =
  fixes I :: "web_auth \<Rightarrow> bool" and P :: "draw \<Rightarrow> bool"
  assumes codes: "\<And>w d. I w \<Longrightarrow> I (w\<lparr>w_codes := d\<rparr>)"
    and opens: "\<And>q kind i via. P q \<Longrightarrow> keeps I (begin_ceremony q kind i via)"
    and finishes: "\<And>q body kind. keeps I (finish_ceremony q body kind)"
    and ensures: "\<And>i h now x u g. keeps I (on_store (ensure_account i h now x u g))"
    and adds_session: "\<And>e. keeps I (on_store (add_session e))"
    and deletes_session: "\<And>t. keeps I (on_store (delete_session t))"
    and updates_session: "\<And>t c. keeps I (on_store (update_session t c))"
    and deletes_passkey: "\<And>k. keeps I (on_store (delete_passkey k))"
    and counts_passkey: "\<And>k n m. keeps I (on_store (update_passkey k [(''signCount'', n), (''lastUsed'', m)]))"
    and adds_passkey: "\<And>w e. I w \<Longrightarrow> length (passkeys_of (text_at ''account'' e) (w_store w)) < max_passkeys \<Longrightarrow>
      I (snd (on_store (add_passkey e) w))"
begin

lemma keeps_registration: "P q \<Longrightarrow> keeps I (registration_options l q i via)"
  unfolding registration_options_def by (intro keeps_sbind ensures keeps_check keeps_look opens keeps_ret)

lemma keeps_link_options: "P q \<Longrightarrow> keeps I (link_options l a q body)"
proof -
  assume "P q"
  then have "keeps I (sbind (permitted a g x u) (\<lambda>_. registration_options l q i via))" for g x u i via
    by (intro keeps_sbind keeps_permitted keeps_registration)
  then show ?thesis
    unfolding keeps_def link_options_def
    by (auto simp: refuse_def Let_def codes split: option.split json.split prod.split sum.split)
qed

lemma keeps_end: "keeps I (end_session e)"
  unfolding end_session_def by (rule deletes_session)

lemma keeps_session: "keeps I (session_for l now active token)"
proof -
  have "keeps I (sbind (look f) (\<lambda>gone. if gone then sbind (end_session e) (\<lambda>_. ret None)
      else if c then sbind (on_store (update_session h d)) (\<lambda>_. ret (Some e)) else ret (Some e)))" for f e c h d
    by (intro keeps_sbind keeps_look keeps_if keeps_end updates_session keeps_ret)
  then show ?thesis
    unfolding session_for_def keeps_def by (simp split: option.split)
qed

lemma keeps_principal: "keeps I (principal_for l a now lang active token)"
  unfolding principal_for_def
  by (intro keeps_sbind keeps_session keeps_option keeps_ret) (simp add: keeps_def split: option.split)

lemma keeps_required: "keeps I (required_session l a now token)"
  unfolding required_session_def
  by (intro keeps_sbind keeps_session keeps_option keeps_ret keeps_refuse keeps_principal keeps_if)

lemma keeps_recent: "keeps I (recent_session l a now token)"
  unfolding recent_session_def by (intro keeps_sbind keeps_required keeps_if keeps_refuse keeps_ret)

lemma keeps_signed_in: "keeps I (signed_in_as l a q acc via body)"
  unfolding signed_in_as_def issue_session_def by (intro keeps_sbind adds_session keeps_ret)

lemma keeps_login: "keeps I (login_verify l a q body token)"
  unfolding login_verify_def
  by (intro keeps_sbind finishes keeps_credential keeps_look keeps_option keeps_if keeps_refuse keeps_permitted
      counts_passkey keeps_session keeps_swhen keeps_end keeps_ret keeps_signed_in)

lemma keeps_logout: "keeps I (logout l q token)"
proof -
  have ends: "I w \<Longrightarrow> I (snd (case (case s of Some e \<Rightarrow> end_session e w | None \<Rightarrow> (Inr (), w)) of
         (Inl e, w') \<Rightarrow> (if is_os_error e then (Inr r1, w') else (Inl e, w')) | (Inr _, w') \<Rightarrow> (Inr r2, w')))" for w s r1 r2
    using keepsD [OF keeps_end] by (auto split: option.split prod.split sum.split) (metis snd_conv)+
  then show ?thesis
    unfolding logout_def by (intro keeps_sbind keeps_session) (unfold keeps_def, intro allI impI, rule ends)
qed

lemma keeps_devices: "keeps I (devices l a q token)"
  unfolding devices_def by (intro keeps_sbind keeps_required keeps_look)

lemma keeps_removals: "keeps I (remove_session l a q body token)" "keeps I (remove_passkey l a q body token)"
  unfolding remove_session_def remove_passkey_def
  by (intro keeps_sbind keeps_required keeps_recent keeps_look keeps_option keeps_refuse keeps_end keeps_ret deletes_passkey)+

text \<open>A passkey is added right behind the look at how many there are.\<close>

lemma keeps_guarded_add:
  assumes "text_at ''account'' e = i" "\<And>x. keeps I (k x)"
  shows "keeps I (sbind (check_passkeys i) (\<lambda>_. sbind (look f) (\<lambda>used. if used \<noteq> None then refuse n c
      else sbind (on_store (add_passkey e)) k)))"
proof -
  have "I (snd (sbind (on_store (add_passkey e)) k w))" if "I w" "length (passkeys_of i (w_store w)) < max_passkeys" for w
    using adds_passkey [of w e] that assms(1) keepsD [OF assms(2)]
    by (cases "on_store (add_passkey e) w"; cases "fst (on_store (add_passkey e) w)") (auto simp: sbind_def)
  then show ?thesis
    by (auto simp: keeps_def sbind_def check_passkeys_def refuse_def split: sum.split if_splits)
qed

lemma keeps_link_verify: "keeps I (link_verify l a q body)"
proof -
  have "text_at ''account'' (new_passkey l q acc v c via body) = text_at ''id'' acc" for acc v c via
    by (simp add: new_passkey_def text_at_def)
  note add = keeps_guarded_add [OF this keeps_signed_in]
  show ?thesis
    unfolding link_verify_def
    by (intro keeps_sbind finishes keeps_credential keeps_option keeps_fail keeps_look keeps_refuse keeps_permitted add)
qed

lemma keeps_route: "P q \<Longrightarrow> keeps I (run_route l a q r body token)"
  by (cases r) (auto simp: login_options_def intro!: keeps_sbind keeps_link_options keeps_link_verify opens keeps_login
      keeps_logout keeps_devices keeps_removals)

lemma handle_keeps: "P q \<Longrightarrow> I w \<Longrightarrow> I (snd (handle l a q path j token w))"
  using keepsD [OF keeps_route]
  by (auto simp: handle_def split: option.split json.split prod.split sum.split py_error.split) (metis snd_conv)+

lemma serve_keeps: "list_all (\<lambda>(a, q, path, j, token). P q) rs \<Longrightarrow> I w \<Longrightarrow> I (serve l rs w)"
  unfolding serve_def by (induction rs arbitrary: w) (auto simp: handle_keeps)

end

section \<open>Ten passkeys\<close>

text \<open>No account holds more passkeys than the limit.\<close>

definition capped :: "web_auth \<Rightarrow> bool" where
  "capped w \<longleftrightarrow> (\<forall>i. length (passkeys_of i (w_store w)) \<le> max_passkeys)"

definition same_passkeys :: "web_auth \<Rightarrow> web_auth \<Rightarrow> bool" where
  "same_passkeys w w' \<longleftrightarrow> web_passkeys (w_store w') = web_passkeys (w_store w)"

lemma commits_passkeys:
  "web_passkeys (snd (commit_accounts es s)) = web_passkeys s"
  "web_passkeys (snd (commit_sessions es s)) = web_passkeys s"
  "web_passkeys (snd (commit_passkeys es s)) \<in> {web_passkeys s, es}"
  by (auto simp: commit_accounts_def commit_sessions_def commit_passkeys_def split: prod.split sum.split)

lemma keeps_on_store: "(\<And>w. capped w \<Longrightarrow> capped (w\<lparr>w_store := snd (m (w_store w))\<rparr>)) \<Longrightarrow> keeps capped (on_store m)"
  by (simp add: keeps_def on_part_def split: prod.split) (metis snd_conv)

lemma capped_ceremonies [simp]: "capped (w\<lparr>w_ceremonies := c\<rparr>) = capped w" "capped (w\<lparr>w_codes := d\<rparr>) = capped w"
  by (simp_all add: capped_def)

lemma capped_same: "capped w \<Longrightarrow> web_passkeys s = web_passkeys (w_store w) \<Longrightarrow> capped (w\<lparr>w_store := s\<rparr>)"
  by (simp add: capped_def passkeys_of_def)

lemma capped_fewer:
  assumes "capped w" "\<And>i. length (filter (\<lambda>e. text_at ''account'' e = i) (web_passkeys s)) \<le> length (passkeys_of i (w_store w))"
  shows "capped (w\<lparr>w_store := s\<rparr>)"
  using assms by (force simp: capped_def passkeys_of_def intro: order_trans)

lemma store_passkeys:
  "web_passkeys (snd (ensure_account i h now x u g s)) = web_passkeys s"
  "web_passkeys (snd (add_session e s)) = web_passkeys s"
  "web_passkeys (snd (delete_session t s)) = web_passkeys s"
  "web_passkeys (snd (update_session t d s)) = web_passkeys s"
  using commits_passkeys(1,2)
  by (auto simp: ensure_account_def sbind_def Let_def add_session_def delete_session_def update_session_def
      split: option.split prod.split sum.split) (metis snd_conv)+

lemma capped_session_store:
  "keeps capped (on_store (ensure_account i h now x u g))" "keeps capped (on_store (add_session e))"
  "keeps capped (on_store (delete_session t))" "keeps capped (on_store (update_session t d))"
  by (auto intro!: keeps_on_store capped_same simp: store_passkeys)

lemma filter_twice: "length (filter P (filter Q xs)) \<le> length (filter P xs)"
  by (induction xs) auto

lemma capped_delete_passkey: "keeps capped (on_store (delete_passkey i))"
proof (rule keeps_on_store)
  fix w assume "capped w"
  moreover have "length (filter (\<lambda>e. text_at ''account'' e = j) (web_passkeys (snd (delete_passkey i (w_store w)))))
      \<le> length (passkeys_of j (w_store w))" for j
    using commits_passkeys(3) [of "filter (\<lambda>e. text_at ''id'' e \<noteq> i) (web_passkeys (w_store w))" "w_store w"] filter_twice
    unfolding delete_passkey_def passkeys_of_def by (metis (no_types, lifting) insertE order_refl singletonD)
  ultimately show "capped (w\<lparr>w_store := snd (delete_passkey i (w_store w))\<rparr>)" by (rule capped_fewer)
qed

lemma capped_count_passkey:
  "keeps capped (on_store (update_passkey i [(''signCount'', n), (''lastUsed'', t)]))"
proof (rule keeps_on_store)
  fix w assume "capped w"
  let ?f = "\<lambda>e. if text_at ''id'' e = i then with_fields [(''signCount'', n), (''lastUsed'', t)] e else e"
  have "text_at ''account'' (?f e) = text_at ''account'' e" for e
    by (simp add: with_fields_def)
  then have "length (filter (\<lambda>e. text_at ''account'' e = j) (map ?f es)) = length (filter (\<lambda>e. text_at ''account'' e = j) es)" for j es
    by (simp add: filter_map comp_def)
  with \<open>capped w\<close> show "capped (w\<lparr>w_store := snd (update_passkey i [(''signCount'', n), (''lastUsed'', t)] (w_store w))\<rparr>)"
    using commits_passkeys(3) [of "map ?f (web_passkeys (w_store w))" "w_store w"]
    by (intro capped_fewer) (auto simp: update_passkey_def passkeys_of_def)
qed

lemma capped_add:
  assumes "capped w" "length (passkeys_of i (w_store w)) < max_passkeys" "text_at ''account'' e = i"
  shows "capped (snd (on_store (add_passkey e) w))"
proof -
  have "length (filter (\<lambda>x. text_at ''account'' x = j) (web_passkeys (w_store w) @ [e])) \<le> max_passkeys" for j
    using assms by (auto simp: capped_def passkeys_of_def)
  then show ?thesis
    using assms(1) commits_passkeys(3) [of "web_passkeys (w_store w) @ [e]" "w_store w"]
    by (auto simp: on_part_def add_passkey_def capped_def passkeys_of_def split: prod.split)
qed

interpretation cap: web_kept capped "\<lambda>q. True"
proof unfold_locales
  show "keeps capped (begin_ceremony q kind i via)" for q kind i via
    by (simp add: keeps_def begin_ceremony_def Let_def refuse_def)
  show "keeps capped (finish_ceremony q body kind)" for q body kind
    by (auto simp: keeps_def finish_ceremony_def Let_def refuse_def split: option.split json.split)
qed (rule capped_session_store capped_delete_passkey capped_count_passkey | simp add: capped_add)+


section \<open>A ceremony serves once\<close>

definition ceremony_gone :: "string \<Rightarrow> web_auth \<Rightarrow> bool" where
  "ceremony_gone k w \<longleftrightarrow> map_of (w_ceremonies w) k = None"

lemma gone_filter: "map_of cs k = None \<Longrightarrow> map_of (filter p cs) k = None"
  by (auto simp: map_of_eq_None_iff)

lemma gone_store: "keeps (ceremony_gone k) (on_store m)"
  by (simp add: keeps_def on_part_def ceremony_gone_def split: prod.split)

interpretation gone: web_kept "ceremony_gone k" "\<lambda>q. d_ceremony q \<noteq> k" for k
proof unfold_locales
  show "d_ceremony q \<noteq> k \<Longrightarrow> keeps (ceremony_gone k) (begin_ceremony q kind i via)" for q kind i via
    by (simp add: keeps_def begin_ceremony_def ceremony_gone_def Let_def refuse_def gone_filter)
  show "keeps (ceremony_gone k) (finish_ceremony q body kind)" for q body kind
    by (auto simp: keeps_def finish_ceremony_def ceremony_gone_def Let_def refuse_def split: option.split json.split)
qed (simp_all add: gone_store keepsD [OF gone_store], simp add: ceremony_gone_def)

section \<open>Sessions need proof\<close>

definition allowed_now :: "authority \<Rightarrow> string \<Rightarrow> string \<Rightarrow> string \<Rightarrow> bool" where
  "allowed_now a tag x u = (case control_decision a tag x u of Inr (ok, why) \<Rightarrow> ok | Inl e \<Rightarrow> False)"

definition registers :: "webauthn \<Rightarrow> authority \<Rightarrow> ceremony \<Rightarrow> bool" where
  "registers l a cer \<longleftrightarrow> cer_kind cer = ''register'' \<and>
     (\<exists>i c v. cer_identity cer = Some i \<and> verify_registration l c (cer_challenge cer) = Some v \<and>
       allowed_now a (link_gamertag i) (link_xuid i) (link_player i))"

definition logs_in :: "webauthn \<Rightarrow> authority \<Rightarrow> web_store \<Rightarrow> ceremony \<Rightarrow> bool" where
  "logs_in l a s cer \<longleftrightarrow> cer_kind cer = ''login'' \<and>
     (\<exists>k acc c n. k \<in> set (web_passkeys s) \<and> text_at ''rpId'' k = rp_id l \<and>
       acc \<in> set (web_accounts s) \<and> text_at ''id'' acc = text_at ''account'' k \<and>
       verify_authentication l c (cer_challenge cer) (text_at ''publicKey'' k) (count_or_zero (int_at ''signCount'' k)) = Some n \<and>
       allowed_now a (text_at ''gamertag'' acc) (text_at ''xuid'' acc) (text_at ''uuid'' acc))"

text \<open>An open ceremony of this server whose challenge an authenticator has answered, for somebody who may control Bots now.\<close>

definition proven :: "webauthn \<Rightarrow> authority \<Rightarrow> draw \<Rightarrow> web_auth \<Rightarrow> bool" where
  "proven l a q w \<longleftrightarrow> (\<exists>k cer. map_of (w_ceremonies w) k = Some cer \<and> d_now q < cer_expires cer \<and>
     (registers l a cer \<or> logs_in l a (w_store w) cer))"

lemma finish_ceremony_ok:
  "finish_ceremony q body kind w = (Inr c, w') \<Longrightarrow>
    \<exists>k. map_of (w_ceremonies w) k = Some c \<and> cer_kind c = kind \<and> d_now q < cer_expires c \<and> w_store w' = w_store w"
  by (auto simp: finish_ceremony_def Let_def refuse_def not_le split: option.splits json.splits if_splits)

lemma credential_ok: "credential_of body w = (Inr c, w') \<Longrightarrow> w' = w"
  by (auto simp: credential_of_def refuse_def split: option.splits json.splits)

lemma permitted_ok: "permitted a g x u w = (Inr y, w') \<Longrightarrow> w' = w \<and> allowed_now a g x u"
  by (auto simp: permitted_def allowed_now_def sbind_def refuse_def split: sum.splits prod.splits if_splits)

lemma proven_registration:
  "map_of (w_ceremonies w) k = Some cer \<Longrightarrow> d_now q < cer_expires cer \<Longrightarrow> cer_kind cer = ''register'' \<Longrightarrow>
   cer_identity cer = Some i \<Longrightarrow> verify_registration l c (cer_challenge cer) = Some v \<Longrightarrow>
   allowed_now a (link_gamertag i) (link_xuid i) (link_player i) \<Longrightarrow> proven l a q w"
  unfolding proven_def registers_def by blast

lemma proven_login:
  "map_of (w_ceremonies w) k = Some cer \<Longrightarrow> d_now q < cer_expires cer \<Longrightarrow> cer_kind cer = ''login'' \<Longrightarrow>
   p \<in> set (web_passkeys (w_store w)) \<Longrightarrow> text_at ''rpId'' p = rp_id l \<Longrightarrow>
   acc \<in> set (web_accounts (w_store w)) \<Longrightarrow> text_at ''id'' acc = text_at ''account'' p \<Longrightarrow>
   verify_authentication l c (cer_challenge cer) (text_at ''publicKey'' p) (count_or_zero (int_at ''signCount'' p)) = Some n \<Longrightarrow>
   allowed_now a (text_at ''gamertag'' acc) (text_at ''xuid'' acc) (text_at ''uuid'' acc) \<Longrightarrow> proven l a q w"
  unfolding proven_def logs_in_def by blast

lemma link_verify_proof: "link_verify l a q body w = (Inr r, w') \<Longrightarrow> proven l a q w"
  unfolding link_verify_def
  by (drule sbind_InrD, elim exE conjE, drule finish_ceremony_ok, drule sbind_InrD,
    (auto simp: refuse_def split: option.splits dest!: credential_ok sbind_InrD permitted_ok))
     ((rule proven_registration; assumption)+)

lemma login_verify_proof: "login_verify l a q body token w = (Inr r, w') \<Longrightarrow> proven l a q w"
  unfolding login_verify_def
  by (drule sbind_InrD, elim exE conjE, drule finish_ceremony_ok, drule sbind_InrD,
    auto simp: refuse_def find_passkey_def account_def split: option.splits if_splits
      dest!: credential_ok sbind_InrD permitted_ok find_InD)
    ((rule proven_login; assumption)+)

definition no_token :: "(web_auth, response) action \<Rightarrow> bool" where
  "no_token m \<longleftrightarrow> (\<forall>w r w'. m w = (Inr r, w') \<longrightarrow> new_session r = None)"

lemma no_token_sbind: "(\<And>x. no_token (f x)) \<Longrightarrow> no_token (sbind m f)"
  by (auto simp: no_token_def dest!: sbind_InrD)

lemma no_token_basic [simp]: "no_token (refuse n c)" "no_token (ret r) = (new_session r = None)" "new_session (respond n b) = None"
  by (auto simp: no_token_def refuse_def respond_def)

lemma no_token_routes:
  "no_token (link_options l a q body)" "no_token (login_options l q)" "no_token (logout l q token)" "no_token (devices l a q token)"
  "no_token (remove_session l a q body token)" "no_token (remove_passkey l a q body token)"
proof -
  have reg: "no_token (registration_options l q i via)" for i via
    unfolding registration_options_def by (intro no_token_sbind) simp
  have "no_token (sbind (permitted a g x u) (\<lambda>_. registration_options l q i via))" for g x u i via
    by (intro no_token_sbind reg)
  then show "no_token (link_options l a q body)"
    unfolding no_token_def link_options_def Let_def
    by (auto simp: refuse_def split: option.splits json.splits if_splits prod.splits sum.splits)
  show "no_token (login_options l q)" unfolding login_options_def by (intro no_token_sbind) simp
  show "no_token (logout l q token)"
    unfolding logout_def by (intro no_token_sbind) (auto simp: no_token_def respond_def split: prod.splits sum.splits if_splits)
  show "no_token (devices l a q token)"
    unfolding devices_def by (intro no_token_sbind) (auto simp: no_token_def)
  show "no_token (remove_session l a q body token)" "no_token (remove_passkey l a q body token)"
    unfolding remove_session_def remove_passkey_def
    by (auto intro!: no_token_sbind split: option.split)
qed



lemma finish_gone:
  "map_of body ''ceremony'' = Some (JStr k) \<Longrightarrow> ceremony_gone k (snd (finish_ceremony q body kind w))"
  by (simp add: finish_ceremony_def ceremony_gone_def Let_def refuse_def split: option.split)

lemma sbind_gone:
  "ceremony_gone k (snd (m w)) \<Longrightarrow> (\<And>x. keeps (ceremony_gone k) (f x)) \<Longrightarrow> ceremony_gone k (snd (sbind m f w))"
  by (cases "m w"; cases "fst (m w)") (auto simp: sbind_def keeps_def)

lemma verify_gone:
  assumes "map_of body ''ceremony'' = Some (JStr k)"
  shows "ceremony_gone k (snd (link_verify l a q body w))" "ceremony_gone k (snd (login_verify l a q body token w))"
proof -
  have "text_at ''account'' (new_passkey l q acc v c via body) = text_at ''id'' acc" for acc v c via
    by (simp add: new_passkey_def text_at_def)
  note add = gone.keeps_guarded_add [OF this gone.keeps_signed_in]
  show "ceremony_gone k (snd (link_verify l a q body w))"
    unfolding link_verify_def
    by (intro sbind_gone finish_gone assms keeps_sbind keeps_credential keeps_option keeps_fail keeps_look keeps_refuse
        keeps_permitted add)
  show "ceremony_gone k (snd (login_verify l a q body token w))"
    unfolding login_verify_def
    by (intro sbind_gone finish_gone assms keeps_sbind keeps_credential keeps_look keeps_option keeps_if keeps_refuse
        keeps_permitted gone_store gone.keeps_session keeps_swhen gone.keeps_end keeps_ret gone.keeps_signed_in)
qed

definition names_ceremony :: "string \<Rightarrow> string \<Rightarrow> json \<Rightarrow> bool" where
  "names_ceremony k path j \<longleftrightarrow> (route_of path = Some Link_Verify \<or> route_of path = Some Login_Verify) \<and>
     (case j of JObj body \<Rightarrow> map_of body ''ceremony'' = Some (JStr k) | _ \<Rightarrow> False)"

lemma handle_gone: "names_ceremony k path j \<Longrightarrow> ceremony_gone k (snd (handle l a q path j token w))"
proof -
  assume n: "names_ceremony k path j"
  then obtain r body where r: "route_of path = Some r" "r = Link_Verify \<or> r = Login_Verify" and j: "j = JObj body"
    and b: "map_of body ''ceremony'' = Some (JStr k)"
    by (auto simp: names_ceremony_def split: json.splits)
  have "ceremony_gone k (snd (run_route l a q r body token w))"
    using r(2) verify_gone [OF b] by auto
  then show ?thesis
    using r(1) j by (auto simp: handle_def split: prod.split sum.split py_error.split)
qed

text \<open>A ceremony serves one attempt: after a request that names it to be verified, valid or not, it is gone, and no
  later requests bring it back unless its random id is drawn again.\<close>

theorem ceremony_serves_once:
  assumes "names_ceremony k path j" "list_all (\<lambda>(a, q, path, j, token). d_ceremony q \<noteq> k) rs"
  shows "ceremony_gone k (serve l ((a, q, path, j, token) # rs) w)"
  using gone.serve_keeps [OF assms(2) handle_gone [OF assms(1)]] by (simp add: serve_def)

section \<open>Steve signs in\<close>

text \<open>A library for the witnesses: it accepts the credential whose signature names the challenge.\<close>

definition signed_for :: "entry \<Rightarrow> string \<Rightarrow> bool" where
  "signed_for c ch \<longleftrightarrow> map_of c ''signature'' = Some (JStr ch)"

definition example_library :: webauthn where
  "example_library = \<lparr>rp_id = ''example.org'',
     verify_registration = (\<lambda>c ch. if signed_for c ch then Some \<lparr>v_id = text_at ''id'' c, v_key = ''pk'', v_count = 0\<rparr> else None),
     verify_authentication = (\<lambda>c ch k n. if signed_for c ch then Some (n + 1) else None),
     registration_json = (\<lambda>e ch ks. JNull), login_json = (\<lambda>ch. JNull), transport_names = [''usb''],
     token_hash = (\<lambda>t. CHR ''h'' # t)\<rparr>"

definition drawing :: "rat \<Rightarrow> string \<Rightarrow> draw" where
  "drawing now c = \<lparr>d_now = now, d_mono = now, d_ceremony = c, d_challenge = ''ch'', d_token = ''token'', d_session = ''sid'',
     d_account = ''acc'', d_handle = ''handle''\<rparr>"

definition web_start :: web_auth where
  "web_start = \<lparr>w_store = empty_web [], w_codes = no_codes\<lparr>live_codes := [(''K7Q4M2'',
     \<lparr>link_xuid = ''2535'', link_player = steve_id, link_gamertag = ''Steve''\<rparr>, 300)]\<rparr>, w_ceremonies = []\<rparr>"

definition enters_code :: "authority \<times> draw \<times> string \<times> json \<times> string option" where
  "enters_code = (steve_authority, drawing 1 ''c1'', ''/auth/link/options'', JObj [(''code'', JStr ''k7q-4m2'')], None)"

definition answer_body :: json where
  "answer_body = JObj [(''ceremony'', JStr ''c1''),
     (''credential'', JObj [(''id'', JStr ''k1''), (''signature'', JStr ''ch'')])]"

definition code_entered :: web_auth where
  "code_entered = serve example_library [enters_code] web_start"

definition answers :: "authority \<times> draw \<times> string \<times> json \<times> string option" where
  "answers = (steve_authority, drawing 2 ''c2'', ''/auth/link/verify'', answer_body, None)"

definition web_signed_in :: web_auth where
  "web_signed_in = serve example_library [answers] code_entered"

definition steve_on_the_web :: principal where
  "steve_on_the_web = (principal_of Web)\<lparr>p_name := Some ''Steve'', p_xuid := Some ''2535'', player_id := Some steve_id,
     grant_revision := Some 0, p_role := Some ''controller''\<rparr>"

lemma steve_acts: "fst (principal_for example_library steve_authority 5000 ''en'' True (Some ''token'') web_signed_in) =
    Inr (Some steve_on_the_web)"
  by code_simp

theorem web_principal_is_live_witness:
  "authorize steve_on_the_web steve_authority = Inr True \<and> p_kind steve_on_the_web = Web \<and> \<not> console steve_on_the_web \<and>
    (\<exists>e acc. live_session example_library steve_authority 5000 (Some ''token'') web_signed_in e acc \<and>
      p_xuid steve_on_the_web = Some (text_at ''xuid'' acc) \<and> player_id steve_on_the_web = Some (text_at ''uuid'' acc))"
  by (rule web_principal_is_live [OF steve_acts])

lemma steve_answer:
  "fst (handle example_library steve_authority (drawing 2 ''c2'') ''/auth/link/verify'' answer_body None code_entered) =
    Inr ((respond 200 (JObj [(''gamertag'', JStr ''Steve'')]))\<lparr>new_session := Some ''token''\<rparr>)"
  by code_simp


lemma web_start_few: "length (passkeys_of i (w_store web_start)) \<le> max_passkeys"
  by (simp add: web_start_def empty_web_def passkeys_of_def)


lemma answer_names: "names_ceremony ''c1'' ''/auth/link/verify'' answer_body"
  and answers_again: "list_all (\<lambda>(a, q, path, j, token). d_ceremony q \<noteq> ''c1'') [answers]"
  by code_simp+

theorem ceremony_serves_once_witness:
  "ceremony_gone ''c1'' (serve example_library ((steve_authority, drawing 2 ''c2'', ''/auth/link/verify'', answer_body, None) # [answers]) code_entered)"
  by (rule ceremony_serves_once [OF answer_names answers_again])

text \<open>After his revocation Steve's token acts for nobody, though its session is still stored.\<close>

lemma revoked_token_acts_for_nobody:
  "fst (principal_for example_library revoked_authority 5000 ''en'' True (Some ''token'') web_signed_in) = Inr None \<and>
   web_sessions (w_store web_signed_in) \<noteq> []"
  by code_simp

end
