(* ===== verification/Control.thy ===== *)
theory Control
  imports Json_Store Effects
begin

text \<open>
  Code that talks to the Bot runtime, from \<open>endbot_core/control.py\<close>: a \<open>prog\<close> is what such code does from
  outside, the requests it sends one after another, each chosen from the answers so far, until it returns
  or raises. The runtime itself is no part of the program, so a \<open>prog\<close> says what happens for every
  answer. Exceptions carry their class, as the outcome code of an error depends on it.
\<close>

type_synonym params = "(string, json) dict"

text \<open>
  The exceptions an operation ends with: \<open>_GroupCanceled\<close>, \<open>_MissingProfile\<close>, \<open>OwnershipRefused\<close>,
  \<open>ControllerLimitReached\<close>, \<open>BotNotObserved\<close>, \<open>LookNotObserved\<close>, \<open>RuntimeControlError\<close>, another
  \<open>RuntimeError\<close>, another \<open>ValueError\<close>, and any other exception.
\<close>

datatype failure =
    Canceled
  | Missing_Profile
  | Refused string "(string \<times> string) list"
  | Limit_Reached string "(string \<times> string) list"
  | Not_Observed string "(string \<times> string) list"
  | Look_Timeout string "(string \<times> string) list"
  | Control_Error string string
  | Runtime_Error string
  | Invalid py_error
  | Crash string

datatype 'a prog = Done 'a | Fail failure | Ask string params "failure + json \<Rightarrow> 'a prog"

primrec bind_prog :: "'a prog \<Rightarrow> ('a \<Rightarrow> 'b prog) \<Rightarrow> 'b prog" where
  "bind_prog (Done x) f = f x"
| "bind_prog (Fail e) f = Fail e"
| "bind_prog (Ask m ps k) f = Ask m ps (\<lambda>r. bind_prog (k r) f)"

fun lift_error :: "py_error + 'a \<Rightarrow> 'a prog" where
  "lift_error (Inl e) = Fail (Invalid e)"
| "lift_error (Inr x) = Done x"

section \<open>Outcome codes\<close>

definition error_codes :: "(string, string) dict" where
  "error_codes =
     [(''not_found'', ''not_found''), (''missing_profile'', ''not_found''), (''server_not_found'', ''not_found''),
      (''name_conflict'', ''conflict''), (''online'', ''conflict''), (''offline'', ''conflict''), (''not_online'', ''conflict''),
      (''identity_changed'', ''conflict''),
      (''invalid_name'', ''invalid_argument''), (''invalid_request'', ''invalid_argument''), (''unknown_method'', ''invalid_argument''),
      (''unauthorized'', ''unavailable''), (''unavailable'', ''unavailable''), (''protocol'', ''unavailable''),
      (''runtime_error'', ''unavailable''), (''disconnect_failed'', ''unavailable'')]"

definition outcome_codes :: "string list" where
  "outcome_codes = [''ok'', ''unauthorized'', ''not_found'', ''invalid_argument'', ''unavailable'', ''conflict'', ''timeout'',
     ''not_a_target'', ''out_of_reach'', ''blocked'', ''unbreakable'']"

text \<open>\<open>getattr(error, 'code', None)\<close>. Of the errors a store or the parser raises only those of the link carry a code.\<close>

fun failure_code :: "failure \<Rightarrow> string option" where
  "failure_code Canceled = Some ''unauthorized''"
| "failure_code Missing_Profile = Some ''missing_profile''"
| "failure_code (Refused _ _) = Some ''unauthorized''"
| "failure_code (Limit_Reached _ _) = Some ''conflict''"
| "failure_code (Not_Observed _ _) = Some ''not_found''"
| "failure_code (Look_Timeout _ _) = Some ''timeout''"
| "failure_code (Control_Error c _) = Some c"
| "failure_code _ = None"

fun is_control_error :: "failure \<Rightarrow> bool" where
  "is_control_error (Control_Error _ _) = True"
| "is_control_error _ = False"

fun is_runtime_error :: "failure \<Rightarrow> bool" where
  "is_runtime_error (Control_Error _ _) = True"
| "is_runtime_error (Runtime_Error _) = True"
| "is_runtime_error _ = False"

fun is_refused :: "failure \<Rightarrow> bool" where
  "is_refused (Refused _ _) = True"
| "is_refused _ = False"

definition error_code :: "failure \<Rightarrow> string" where
  "error_code e =
     (if is_refused e then ''unauthorized''
      else if is_control_error e \<or> (case failure_code e of None \<Rightarrow> False | Some c \<Rightarrow> c \<in> set (keys error_codes))
        then (case failure_code e of Some c \<Rightarrow> dict_get error_codes c ''unavailable'' | None \<Rightarrow> ''unavailable'')
      else (case failure_code e of
          Some c \<Rightarrow> if c \<in> set outcome_codes then c
            else if is_runtime_error e then ''unavailable'' else ''invalid_argument''
        | None \<Rightarrow> if is_runtime_error e then ''unavailable'' else ''invalid_argument''))"

text \<open>\<open>except (RuntimeError, ValueError)\<close>; the stores also raise \<open>OSError\<close>, \<open>TypeError\<close> and \<open>KeyError\<close>.\<close>

fun caught :: "failure \<Rightarrow> bool" where
  "caught (Crash _) = False"
| "caught (Invalid e) = is_value_error e"
| "caught _ = True"

fun failure_text :: "failure \<Rightarrow> string" where
  "failure_text Canceled = ''Bot control permission was revoked; command canceled''"
| "failure_text Missing_Profile = ''missing Bot profile; membership retained''"
| "failure_text (Refused t ps) = error_text (LocalizedError t ps)"
| "failure_text (Limit_Reached t ps) = error_text (LocalizedError t ps)"
| "failure_text (Not_Observed t ps) = error_text (LocalizedError t ps)"
| "failure_text (Look_Timeout t ps) = error_text (LocalizedError t ps)"
| "failure_text (Control_Error _ m) = m"
| "failure_text (Runtime_Error m) = m"
| "failure_text (Invalid e) = error_text e"
| "failure_text (Crash m) = m"

section \<open>Answers of the runtime\<close>

text \<open>Truth of a value, a field or \<open>None\<close>, a field that must be there, and \<open>str\<close> of a scalar.\<close>

fun truthy :: "json \<Rightarrow> bool" where
  "truthy JNull = False"
| "truthy (JBool b) = b"
| "truthy (JInt i) = (i \<noteq> 0)"
| "truthy (JFloat (Finite r)) = (r \<noteq> 0)"
| "truthy (JFloat _) = True"
| "truthy (JStr s) = (s \<noteq> [])"
| "truthy (JArr js) = (js \<noteq> [])"
| "truthy (JObj d) = (d \<noteq> [])"

definition get_json :: "params \<Rightarrow> string \<Rightarrow> json" where
  "get_json d k = dict_get d k JNull"

definition need :: "params \<Rightarrow> string \<Rightarrow> failure + json" where
  "need d k = (case map_of d k of None \<Rightarrow> Inl (Crash k) | Some v \<Rightarrow> Inr v)"

fun scalar_text :: "json \<Rightarrow> string" where
  "scalar_text (JStr s) = s"
| "scalar_text (JInt i) = show_int i"
| "scalar_text (JBool b) = (if b then ''True'' else ''False'')"
| "scalar_text JNull = ''None''"
| "scalar_text _ = []"

section \<open>Bot profiles\<close>

text \<open>
  A profile as the runtime lists it: an object whose \<open>identityId\<close>, \<open>name\<close> and \<open>connectionState\<close> are text.
  A list that holds anything else raises what Python raises on it.
\<close>

record profile =
  profile_id :: string
  profile_name :: string
  profile_state :: string

fun text_field :: "string \<Rightarrow> (string, json) dict \<Rightarrow> failure + string" where
  "text_field k d = (case map_of d k of Some (JStr s) \<Rightarrow> Inr s | _ \<Rightarrow> Inl (Crash k))"

fun decode_profile :: "json \<Rightarrow> failure + profile" where
  "decode_profile (JObj d) =
     ebind (text_field ''identityId'' d) (\<lambda>i. ebind (text_field ''name'' d) (\<lambda>n. ebind (text_field ''connectionState'' d) (\<lambda>c.
       Inr \<lparr>profile_id = i, profile_name = n, profile_state = c\<rparr>)))"
| "decode_profile _ = Inl (Crash ''profile'')"

fun decode_profiles :: "json \<Rightarrow> failure + profile list" where
  "decode_profiles (JArr js) = emap decode_profile js"
| "decode_profiles _ = Inl (Crash ''profiles'')"

definition return_profiles :: "json \<Rightarrow> profile list prog" where
  "return_profiles j = (case decode_profiles j of Inl e \<Rightarrow> Fail e | Inr ps \<Rightarrow> Done ps)"

definition bot_profiles :: "profile list prog" where
  "bot_profiles = Ask ''profiles'' [] (\<lambda>r. case r of
     Inr j \<Rightarrow> return_profiles j
   | Inl e \<Rightarrow> (case e of
       Control_Error c m \<Rightarrow>
         (if c \<noteq> ''unknown_method'' then Fail e
          else Ask ''list'' [] (\<lambda>r'. case r' of Inl e' \<Rightarrow> Fail e' | Inr j \<Rightarrow> return_profiles j))
     | _ \<Rightarrow> Fail e))"

section \<open>Running a program\<close>

text \<open>
  A handler answers one request and may change a state. \<open>run_prog h p\<close> is \<open>p\<close> with its requests answered by \<open>h\<close>.
\<close>

type_synonym 's handler = "string \<Rightarrow> params \<Rightarrow> 's \<Rightarrow> (failure + json) \<times> 's"

primrec run_prog :: "'s handler \<Rightarrow> 'a prog \<Rightarrow> 's \<Rightarrow> (failure + 'a) \<times> 's" where
  "run_prog h (Done x) = (\<lambda>s. (Inr x, s))"
| "run_prog h (Fail e) = (\<lambda>s. (Inl e, s))"
| "run_prog h (Ask m ps k) = (\<lambda>s. case h m ps s of (r, s') \<Rightarrow> run_prog h (k r) s')"

text \<open>A relation that every answer of the handler keeps holds across the whole run.\<close>

lemma run_prog_invariant:
  assumes "\<And>m ps s. R s (snd (h m ps s))" "\<And>s. R s s" "\<And>s t u. R s t \<Longrightarrow> R t u \<Longrightarrow> R s u"
  shows "R s (snd (run_prog h p s))"
proof (induction p arbitrary: s)
  case (Ask m ps k)
  obtain r s' where h: "h m ps s = (r, s')" by force
  have "R s s'" using assms(1) [of s m ps] by (simp add: h)
  moreover have "R s' (snd (run_prog h (k r) s'))" using Ask by simp
  ultimately show ?case using assms(3) by (simp add: h)
qed (simp_all add: assms(2))

lemma run_bind:
  "run_prog h (bind_prog p f) s = (case run_prog h p s of (Inl e, s') \<Rightarrow> (Inl e, s') | (Inr x, s') \<Rightarrow> run_prog h (f x) s')"
  by (induction p arbitrary: s) (auto split: prod.split)

end
