(* ===== verification/Ownership.thy ===== *)
theory Ownership
  imports Principal Effects
begin

text \<open>
  Owners and visibility of Bots and Groups, \<open>endbot_core/ownership.py\<close>: the class \<open>OwnershipStore\<close> is
  the record \<open>ownership_store\<close>, with one table per kind. Memory changes before the file.
\<close>

datatype item = Bots | Groups

record ownership =
  owner :: string
  owner_name :: "string option"
  visibility :: string

record owner_tables =
  bot_owners :: "(string, ownership) dict"
  group_owners :: "(string, ownership) dict"

record ownership_store =
  owners_path :: "disk option"
  bots_default :: string
  groups_default :: string
  tables :: owner_tables

definition no_owners :: owner_tables where
  "no_owners = \<lparr>bot_owners = [], group_owners = []\<rparr>"

fun table :: "item \<Rightarrow> owner_tables \<Rightarrow> (string, ownership) dict" where
  "table Bots t = bot_owners t"
| "table Groups t = group_owners t"

fun with_table :: "item \<Rightarrow> (string, ownership) dict \<Rightarrow> owner_tables \<Rightarrow> owner_tables" where
  "with_table Bots d t = t\<lparr>bot_owners := d\<rparr>"
| "with_table Groups d t = t\<lparr>group_owners := d\<rparr>"

fun default_visibility :: "item \<Rightarrow> ownership_store \<Rightarrow> string" where
  "default_visibility Bots s = bots_default s"
| "default_visibility Groups s = groups_default s"

definition is_visibility :: "string \<Rightarrow> bool" where
  "is_visibility v \<longleftrightarrow> v = ''shared'' \<or> v = ''private''"

text \<open>\<open>owner_key\<close>: the console owns nothing; an empty XUID falls back to the player id, even to none.\<close>

definition owner_key :: "principal \<Rightarrow> string option" where
  "owner_key p =
     (if player_id p = None \<and> p_xuid p = None then None
      else (case p_xuid p of
          Some x \<Rightarrow> if x \<noteq> [] then Some (''xuid:'' @ x)
            else Some (''player:'' @ (case player_id p of None \<Rightarrow> ''None'' | Some i \<Rightarrow> i))
        | None \<Rightarrow> Some (''player:'' @ (case player_id p of None \<Rightarrow> ''None'' | Some i \<Rightarrow> i))))"

definition item_kind :: "string \<Rightarrow> py_error + item" where
  "item_kind k = (if k = ''bots'' then Inr Bots else if k = ''groups'' then Inr Groups
     else Inl (ValueError ''Ownership kind must be bots or groups''))"

definition item_identity :: "string \<Rightarrow> py_error + string" where
  "item_identity i = (case norm_uuid i of
     Inl e \<Rightarrow> Inl (ValueError ''Ownership identity must be a UUID'') | Inr u \<Rightarrow> Inr u)"

definition is_owner_text :: "string \<Rightarrow> bool" where
  "is_owner_text v \<longleftrightarrow> 0 < length v \<and> length v \<le> 128 \<and>
     (starts_with ''xuid:'' v \<or> starts_with ''player:'' v) \<and> v \<noteq> ''xuid:'' \<and> v \<noteq> ''player:''"

definition is_owner_name :: "string option \<Rightarrow> bool" where
  "is_owner_name v = (case v of None \<Rightarrow> True | Some n \<Rightarrow> length n \<le> 64)"

definition bad_owner :: py_error where
  "bad_owner = ValueError ''Ownership owner must start with xuid: or player:''"

definition bad_owner_name :: py_error where
  "bad_owner_name = ValueError ''Ownership ownerName must be a string of at most 64 characters or null''"

definition bad_visibility :: py_error where
  "bad_visibility = ValueError ''Ownership visibility must be shared or private''"

section \<open>The file\<close>

fun decode_owner_name :: "json \<Rightarrow> py_error + string option" where
  "decode_owner_name JNull = Inr None"
| "decode_owner_name (JStr n) = (if length n \<le> 64 then Inr (Some n) else Inl bad_owner_name)"
| "decode_owner_name _ = Inl bad_owner_name"

definition decode_ownership :: "json \<Rightarrow> py_error + ownership" where
  "decode_ownership j =
     ebind (as_obj (TypeError ''Ownership entry must be an object'') j) (\<lambda>d.
     ebind (check (only_keys [''owner'', ''ownerName'', ''visibility''] d) (ValueError ''Unknown ownership entry field'')) (\<lambda>_.
     ebind (as_str bad_owner (dict_get d ''owner'' JNull)) (\<lambda>v.
     ebind (check (is_owner_text v) bad_owner) (\<lambda>_.
     ebind (decode_owner_name (dict_get d ''ownerName'' JNull)) (\<lambda>n.
     ebind (as_str bad_visibility (dict_get d ''visibility'' JNull)) (\<lambda>w.
     ebind (check (is_visibility w) bad_visibility) (\<lambda>_.
       Inr \<lparr>owner = v, owner_name = n, visibility = w\<rparr>)))))))"

fun decode_table :: "(string, json) dict \<Rightarrow> (string, ownership) dict \<Rightarrow> py_error + (string, ownership) dict" where
  "decode_table [] t = Inr t"
| "decode_table ((k, v) # es) t =
     ebind (item_identity k) (\<lambda>i.
       if i \<in> set (keys t) then Inl (ValueError ''Duplicate ownership identity'')
       else ebind (decode_ownership v) (\<lambda>e. decode_table es (t @ [(i, e)])))"

definition decode_owners :: "json \<Rightarrow> py_error + owner_tables" where
  "decode_owners j =
     ebind (as_obj (ValueError ''Unsupported ownership version'') j) (\<lambda>d.
     ebind (check (version_is 1 d) (ValueError ''Unsupported ownership version'')) (\<lambda>_.
     ebind (check (only_keys [''version'', ''bots'', ''groups''] d) (ValueError ''Unknown ownership field'')) (\<lambda>_.
     ebind (as_obj (TypeError ''Ownership bots must be an object'') (dict_get d ''bots'' (JObj []))) (\<lambda>bs.
     ebind (decode_table bs []) (\<lambda>b.
     ebind (as_obj (TypeError ''Ownership groups must be an object'') (dict_get d ''groups'' (JObj []))) (\<lambda>gs.
     ebind (decode_table gs []) (\<lambda>g. Inr \<lparr>bot_owners = b, group_owners = g\<rparr>)))))))"

definition encode_ownership :: "ownership \<Rightarrow> json" where
  "encode_ownership e = JObj [(''owner'', JStr (owner e)), (''ownerName'', str_or_null (owner_name e)),
     (''visibility'', JStr (visibility e))]"

definition encode_table :: "(string, ownership) dict \<Rightarrow> json" where
  "encode_table t = JObj (map (\<lambda>(i, e). (i, encode_ownership e)) (dict_sorted t))"

definition encode_owners :: "owner_tables \<Rightarrow> json" where
  "encode_owners t = JObj [(''version'', JInt 1), (''bots'', encode_table (bot_owners t)),
     (''groups'', encode_table (group_owners t))]"

definition load_owners :: "node \<Rightarrow> py_error + owner_tables" where
  "load_owners n = ebind (read_regular ''Ownership must be a regular file'' n) (\<lambda>d.
     case d of None \<Rightarrow> Inr no_owners | Some j \<Rightarrow> decode_owners j)"

definition open_owners :: "disk option \<Rightarrow> string \<Rightarrow> string \<Rightarrow> py_error + ownership_store" where
  "open_owners path bd gd =
     (if \<not> is_visibility bd then Inl (ValueError ''Ownership bots-default must be shared or private'')
      else if \<not> is_visibility gd then Inl (ValueError ''Ownership groups-default must be shared or private'')
      else ebind (case path of None \<Rightarrow> Inr no_owners | Some k \<Rightarrow> load_owners (content k)) (\<lambda>t.
        Inr \<lparr>owners_path = path, bots_default = bd, groups_default = gd, tables = t\<rparr>))"

definition save_owners :: "(ownership_store, unit) action" where
  "save_owners s = (case owners_path s of
     None \<Rightarrow> (Inr (), s)
   | Some k \<Rightarrow> (case save_doc ''Ownership must not be a symlink'' (encode_owners (tables s)) k of
       (r, k') \<Rightarrow> (r, s\<lparr>owners_path := Some k'\<rparr>)))"

section \<open>Operations\<close>

definition find_owner :: "item \<Rightarrow> string \<Rightarrow> owner_tables \<Rightarrow> ownership option" where
  "find_owner k i t = map_of (table k t) i"

definition get_owner :: "string \<Rightarrow> string \<Rightarrow> ownership_store \<Rightarrow> py_error + ownership option" where
  "get_owner kind identity s = ebind (item_kind kind) (\<lambda>k. ebind (item_identity identity) (\<lambda>i.
     Inr (find_owner k i (tables s))))"

definition has_entries :: "string \<Rightarrow> ownership_store \<Rightarrow> py_error + bool" where
  "has_entries kind s = ebind (item_kind kind) (\<lambda>k. Inr (table k (tables s) \<noteq> []))"

definition count_owned :: "string \<Rightarrow> string option \<Rightarrow> ownership_store \<Rightarrow> py_error + nat" where
  "count_owned kind key s = ebind (item_kind kind) (\<lambda>k.
     Inr (length (filter (\<lambda>e. Some (owner e) = key) (map snd (table k (tables s))))))"

definition put_owner :: "item \<Rightarrow> string \<Rightarrow> ownership \<Rightarrow> (ownership_store, unit) action" where
  "put_owner k i e s = save_owners (s\<lparr>tables := with_table k (dict_set i e (table k (tables s))) (tables s)\<rparr>)"

text \<open>\<open>_kind\<close> and \<open>_identity\<close> in front of an operation.\<close>

definition on_item :: "string \<Rightarrow> string \<Rightarrow> (item \<Rightarrow> string \<Rightarrow> (ownership_store, unit) action) \<Rightarrow> (ownership_store, unit) action" where
  "on_item kind identity f s = (case item_kind kind of
     Inl e \<Rightarrow> (Inl e, s)
   | Inr k \<Rightarrow> (case item_identity identity of Inl e \<Rightarrow> (Inl e, s) | Inr i \<Rightarrow> f k i s))"

definition known_owner_name :: "principal \<Rightarrow> string option" where
  "known_owner_name p = (case p_name p of None \<Rightarrow> None | Some n \<Rightarrow> if length n \<le> 64 then Some n else None)"

definition record_owner :: "string \<Rightarrow> string \<Rightarrow> principal \<Rightarrow> (ownership_store, unit) action" where
  "record_owner kind identity p s = (case item_kind kind of
     Inl e \<Rightarrow> (Inl e, s)
   | Inr k \<Rightarrow> (case owner_key p of
       None \<Rightarrow> (Inr (), s)
     | Some key \<Rightarrow> on_item kind identity (\<lambda>k i s.
         if find_owner k i (tables s) \<noteq> None then (Inr (), s)
         else put_owner k i \<lparr>owner = key, owner_name = known_owner_name p, visibility = default_visibility k s\<rparr> s) s))"

definition set_visibility :: "string \<Rightarrow> string \<Rightarrow> string \<Rightarrow> (ownership_store, unit) action" where
  "set_visibility kind identity v s = (case item_kind kind of
     Inl e \<Rightarrow> (Inl e, s)
   | Inr k \<Rightarrow>
       (if \<not> is_visibility v then (Inl bad_visibility, s)
        else on_item kind identity (\<lambda>k i s. case find_owner k i (tables s) of
            None \<Rightarrow> (Inl (ValueError ''Ownership entry does not exist''), s)
          | Some e \<Rightarrow> put_owner k i (e\<lparr>visibility := v\<rparr>) s) s))"

definition set_owner :: "string \<Rightarrow> string \<Rightarrow> string \<Rightarrow> string option \<Rightarrow> (ownership_store, unit) action" where
  "set_owner kind identity key name s = (case item_kind kind of
     Inl e \<Rightarrow> (Inl e, s)
   | Inr k \<Rightarrow>
       (if \<not> is_owner_text key then (Inl bad_owner, s)
        else if \<not> is_owner_name name then (Inl bad_owner_name, s)
        else on_item kind identity (\<lambda>k i s. put_owner k i \<lparr>owner = key, owner_name = name,
            visibility = (case find_owner k i (tables s) of None \<Rightarrow> default_visibility k s | Some e \<Rightarrow> visibility e)\<rparr> s) s))"

definition forget_owner :: "string \<Rightarrow> string \<Rightarrow> (ownership_store, unit) action" where
  "forget_owner kind identity = on_item kind identity (\<lambda>k i s.
     if find_owner k i (tables s) = None then (Inr (), s)
     else save_owners (s\<lparr>tables := with_table k (dict_pop i (table k (tables s))) (tables s)\<rparr>))"

definition visible_to :: "string \<Rightarrow> string \<Rightarrow> principal \<Rightarrow> ownership_store \<Rightarrow> py_error + bool" where
  "visible_to kind identity p s = ebind (get_owner kind identity s) (\<lambda>e. case e of
     None \<Rightarrow> Inr True
   | Some e' \<Rightarrow> Inr (visibility e' = ''shared'' \<or> owner_key p = None \<or> Some (owner e') = owner_key p))"

definition is_owner :: "string \<Rightarrow> string \<Rightarrow> principal \<Rightarrow> ownership_store \<Rightarrow> py_error + bool" where
  "is_owner kind identity p s = ebind (get_owner kind identity s) (\<lambda>e. case e of
     None \<Rightarrow> Inr True | Some e' \<Rightarrow> Inr (owner_key p = None \<or> Some (owner e') = owner_key p))"

text \<open>\<open>owner_for_gamertag\<close>; the resolver is the adapter's lookup.\<close>

definition owner_for_gamertag :: "(string \<Rightarrow> (string \<times> string) option) \<Rightarrow> string \<Rightarrow> py_error + string \<times> string" where
  "owner_for_gamertag resolver tag = (case resolver tag of
     None \<Rightarrow> Inl (LocalizedError ''{gamertag} is not a known player; they must have joined or be a controller''
       [(''gamertag'', tag)])
   | Some r \<Rightarrow> Inr r)"

section \<open>The codec\<close>

fun owner_entry :: "string \<times> ownership \<Rightarrow> bool" where
  "owner_entry (i, e) = (canonical i \<and> is_owner_text (owner e) \<and> is_owner_name (owner_name e) \<and> is_visibility (visibility e))"

definition wf_owners :: "owner_tables \<Rightarrow> bool" where
  "wf_owners t \<longleftrightarrow> dict_all owner_entry (bot_owners t) \<and> dict_all owner_entry (group_owners t)"

definition norm_owners :: "owner_tables \<Rightarrow> owner_tables" where
  "norm_owners t = \<lparr>bot_owners = dict_sorted (bot_owners t), group_owners = dict_sorted (group_owners t)\<rparr>"

lemma wf_owners_table: "wf_owners t \<longleftrightarrow> (\<forall>k. dict_all owner_entry (table k t))"
  by (metis (full_types) item.exhaust table.simps wf_owners_def)

lemma table_with [simp]: "table k (with_table k' d t) = (if k = k' then d else table k t)"
  by (cases k; cases k') auto

lemma decode_encode_ownership: "owner_entry (i, e) \<Longrightarrow> decode_ownership (encode_ownership e) = Inr e"
  by (cases e) (auto simp: decode_ownership_def encode_ownership_def only_keys_def dict_get_def is_owner_name_def
      str_or_null_def check_def split: option.splits)

lemma decode_ownership_wf: "decode_ownership j = Inr e \<Longrightarrow> canonical i \<Longrightarrow> owner_entry (i, e)"
proof -
  have n: "decode_owner_name x = Inr n \<Longrightarrow> is_owner_name n" for x n
    by (cases x) (auto simp: is_owner_name_def split: if_splits)
  show "decode_ownership j = Inr e \<Longrightarrow> canonical i \<Longrightarrow> owner_entry (i, e)"
    by (auto simp: decode_ownership_def dest: n)
qed

lemma decode_table_wf: "decode_table es t = Inr u \<Longrightarrow> dict_all owner_entry t \<Longrightarrow> dict_all owner_entry u"
proof (induction es t rule: decode_table.induct)
  case (2 k v es t)
  then obtain i e where i: "item_identity k = Inr i" "i \<notin> set (keys t)" "decode_ownership v = Inr e"
      "decode_table es (t @ [(i, e)]) = Inr u" by (auto split: if_splits)
  moreover have "canonical i" using i(1) by (auto simp: item_identity_def canonical_norm split: sum.splits)
  ultimately have "dict_all owner_entry (t @ [(i, e)])"
    using 2(3) i(2) decode_ownership_wf [OF i(3)] dict_set_fresh [OF i(2)] dict_all_set by metis
  with 2(1) i show ?case by auto
qed simp

lemma decode_table_encoded:
  "dict_all owner_entry (t @ es) \<Longrightarrow> decode_table (map (\<lambda>(i, e). (i, encode_ownership e)) es) t = Inr (t @ es)"
proof (induction es arbitrary: t)
  case (Cons x es)
  obtain i e where x: "x = (i, e)" by fastforce
  have "owner_entry (i, e)" "i \<notin> set (keys t)"
    using Cons.prems by (auto simp: x dict_all_def)
  moreover from this have "item_identity i = Inr i" by (simp add: item_identity_def)
  ultimately show ?case
    using Cons.IH [of "t @ [x]"] Cons.prems decode_encode_ownership [of i e] by (simp add: x)
qed simp

lemma decode_encode_owners: "wf_owners t \<Longrightarrow> decode_owners (encode_owners t) = Inr (norm_owners t)"
  using decode_table_encoded [of "[]" "dict_sorted (bot_owners t)"] decode_table_encoded [of "[]" "dict_sorted (group_owners t)"]
  by (simp add: wf_owners_def decode_owners_def encode_owners_def encode_table_def only_keys_def dict_get_def norm_owners_def)

lemma decode_owners_wf: "decode_owners j = Inr t \<Longrightarrow> wf_owners t"
  by (auto simp: wf_owners_def decode_owners_def dest: decode_table_wf)

interpretation owners_codec: json_codec encode_owners decode_owners wf_owners norm_owners
  by unfold_locales (auto simp: decode_encode_owners decode_owners_wf norm_owners_def)

section \<open>The store as a machine\<close>

datatype owner_op =
    Record_owner string string principal
  | Set_visibility string string string
  | Set_owner string string string "string option"
  | Forget_owner string string

fun owner_step :: "owner_op \<Rightarrow> (ownership_store, unit) action" where
  "owner_step (Record_owner k i p) = record_owner k i p"
| "owner_step (Set_visibility k i v) = set_visibility k i v"
| "owner_step (Set_owner k i key n) = set_owner k i key n"
| "owner_step (Forget_owner k i) = forget_owner k i"

text \<open>Principals whose XUID fits the file: an owner key of at most 128 characters.\<close>

fun legal_owner_op :: "owner_op \<Rightarrow> bool" where
  "legal_owner_op (Record_owner _ _ p) = (case owner_key p of None \<Rightarrow> True | Some key \<Rightarrow> is_owner_text key)"
| "legal_owner_op _ = True"

definition defaults_ok :: "ownership_store \<Rightarrow> bool" where
  "defaults_ok s \<longleftrightarrow> is_visibility (bots_default s) \<and> is_visibility (groups_default s)"

definition stored_owners :: "ownership_store \<Rightarrow> node" where
  "stored_owners s = (case owners_path s of None \<Rightarrow> Absent | Some k \<Rightarrow> content k)"

lemma save_owners_same [simp]: "tables (snd (save_owners s)) = tables s"
    "bots_default (snd (save_owners s)) = bots_default s" "groups_default (snd (save_owners s)) = groups_default s"
    "(owners_path (snd (save_owners s)) = None) = (owners_path s = None)"
  by (auto simp: save_owners_def split: option.splits prod.splits)

lemma save_owners_stored:
  assumes "owners_path s \<noteq> None"
  shows "(fst (save_owners s) = Inr () \<longrightarrow> stored_owners (snd (save_owners s)) = Plain (Some (encode_owners (tables s)))) \<and>
    (fst (save_owners s) \<noteq> Inr () \<longrightarrow> stored_owners (snd (save_owners s)) = stored_owners s)"
proof -
  obtain k where k: "owners_path s = Some k" using assms by auto
  obtain r k' where "save_doc ''Ownership must not be a symlink'' (encode_owners (tables s)) k = (r, k')" by fastforce
  with k show ?thesis
    by (cases r) (auto simp: save_owners_def stored_owners_def dest: save_doc_InrD save_doc_InlD)
qed

lemma default_ok: "defaults_ok s \<Longrightarrow> is_visibility (default_visibility k s)"
  by (cases k) (auto simp: defaults_ok_def)

lemma item_identity_canonical: "item_identity i = Inr u \<Longrightarrow> canonical u"
  by (auto simp: item_identity_def canonical_norm split: sum.splits)

lemma known_owner_name_ok: "is_owner_name (known_owner_name p)"
  by (simp add: known_owner_name_def is_owner_name_def split: option.split)

lemma find_owner_entry: "wf_owners t \<Longrightarrow> find_owner k i t = Some e \<Longrightarrow> owner_entry (i, e)"
  using dict_allD [of owner_entry "table k t" i e] by (auto simp: wf_owners_table find_owner_def)

text \<open>An operation keeps its memory, or saves a memory in which the table of one item changed.\<close>

lemma owner_step_cases:
  fixes s :: ownership_store
  obtains (kept) "snd (owner_step op s) = s"
  | (put) k i e where "owner_step op s = save_owners (s\<lparr>tables := with_table k (dict_set i e (table k (tables s))) (tables s)\<rparr>)"
      "canonical i" "legal_owner_op op \<Longrightarrow> defaults_ok s \<Longrightarrow> wf_owners (tables s) \<Longrightarrow> owner_entry (i, e)"
  | (popped) k i where "owner_step op s = save_owners (s\<lparr>tables := with_table k (dict_pop i (table k (tables s))) (tables s)\<rparr>)"
proof (cases op)
  case (Record_owner kd id p)
  show ?thesis
  proof (cases "snd (owner_step op s) = s")
    case False
    then obtain k i key where "item_kind kd = Inr k" "owner_key p = Some key" "item_identity id = Inr i"
        "find_owner k i (tables s) = None"
      using Record_owner by (auto simp: record_owner_def on_item_def split: sum.splits option.splits if_splits)
    with Record_owner show ?thesis
      by (intro put [of k i "\<lparr>owner = key, owner_name = known_owner_name p, visibility = default_visibility k s\<rparr>"])
        (auto simp: record_owner_def on_item_def put_owner_def item_identity_canonical known_owner_name_ok default_ok)
  qed (rule kept)
next
  case (Set_visibility kd id v)
  show ?thesis
  proof (cases "snd (owner_step op s) = s")
    case False
    then obtain k i e where h: "item_kind kd = Inr k" "is_visibility v" "item_identity id = Inr i"
        "find_owner k i (tables s) = Some e"
      using Set_visibility by (auto simp: set_visibility_def on_item_def split: sum.splits option.splits if_splits)
    have "wf_owners (tables s) \<Longrightarrow> owner_entry (i, e)"
      using h(4) find_owner_entry by blast
    with Set_visibility h show ?thesis
      by (intro put [of k i "e\<lparr>visibility := v\<rparr>"])
        (auto simp: set_visibility_def on_item_def put_owner_def item_identity_canonical)
  qed (rule kept)
next
  case (Set_owner kd id key n)
  show ?thesis
  proof (cases "snd (owner_step op s) = s")
    case False
    then obtain k i where h: "item_kind kd = Inr k" "is_owner_text key" "is_owner_name n" "item_identity id = Inr i"
      using Set_owner by (auto simp: set_owner_def on_item_def split: sum.splits if_splits)
    let ?v = "case find_owner k i (tables s) of None \<Rightarrow> default_visibility k s | Some e \<Rightarrow> visibility e"
    have "wf_owners (tables s) \<Longrightarrow> defaults_ok s \<Longrightarrow> is_visibility ?v"
      using find_owner_entry [of "tables s" k i] by (auto simp: default_ok split: option.split)
    with Set_owner h show ?thesis
      by (intro put [of k i "\<lparr>owner = key, owner_name = n, visibility = ?v\<rparr>"])
        (auto simp: set_owner_def on_item_def put_owner_def item_identity_canonical)
  qed (rule kept)
next
  case (Forget_owner kd id)
  show ?thesis
  proof (cases "snd (owner_step op s) = s")
    case False
    then obtain k i where "item_kind kd = Inr k" "item_identity id = Inr i" "find_owner k i (tables s) \<noteq> None"
      using Forget_owner by (auto simp: forget_owner_def on_item_def split: sum.splits if_splits)
    with Forget_owner show ?thesis by (intro popped [of k i]) (auto simp: forget_owner_def on_item_def)
  qed (rule kept)
qed

lemma owner_step_frame:
  "owners_path s \<noteq> None \<Longrightarrow> owners_path (snd (owner_step op s)) \<noteq> None"
  "defaults_ok s \<Longrightarrow> defaults_ok (snd (owner_step op s))"
  by (cases rule: owner_step_cases [of op s]; auto simp: defaults_ok_def)+

text \<open>The memory the contract speaks of is the store's tables together with its defaults, which no operation changes.\<close>

definition owners_wf :: "ownership_store \<Rightarrow> bool" where
  "owners_wf s \<longleftrightarrow> defaults_ok s \<and> wf_owners (tables s)"

lemma owner_step_wf: "legal_owner_op op \<Longrightarrow> owners_wf s \<Longrightarrow> owners_wf (snd (owner_step op s))"
proof (cases rule: owner_step_cases [of op s])
  case (put k i e)
  assume "legal_owner_op op" "owners_wf s"
  with put show ?thesis by (auto simp: owners_wf_def defaults_ok_def wf_owners_table intro!: dict_all_set)
next
  case (popped k i)
  assume "owners_wf s"
  with popped show ?thesis by (auto simp: owners_wf_def defaults_ok_def wf_owners_table)
qed auto

lemma owner_step_file:
  assumes "owners_path s \<noteq> None"
  shows "stored_owners (snd (owner_step op s)) = stored_owners s \<or>
    stored_owners (snd (owner_step op s)) = Plain (Some (encode_owners (tables (snd (owner_step op s)))))"
proof (cases rule: owner_step_cases [of op s])
  case (put k i e)
  let ?t = "s\<lparr>tables := with_table k (dict_set i e (table k (tables s))) (tables s)\<rparr>"
  have "stored_owners ?t = stored_owners s" by (simp add: stored_owners_def)
  with put(1) save_owners_stored [of ?t] assms show ?thesis by auto
next
  case (popped k i)
  let ?t = "s\<lparr>tables := with_table k (dict_pop i (table k (tables s))) (tables s)\<rparr>"
  have "stored_owners ?t = stored_owners s" by (simp add: stored_owners_def)
  with popped save_owners_stored [of ?t] assms show ?thesis by auto
qed auto

lemma owner_step_saved:
  assumes "owners_path s \<noteq> None" "fst (owner_step op s) = Inr ()"
  shows "tables (snd (owner_step op s)) = tables s \<and> stored_owners (snd (owner_step op s)) = stored_owners s \<or>
    stored_owners (snd (owner_step op s)) = Plain (Some (encode_owners (tables (snd (owner_step op s)))))"
  by (cases rule: owner_step_cases [of op s]) (use assms save_owners_stored in auto)

text \<open>A store over defaults that are words the file accepts.\<close>

typedef sound_store = "{s. defaults_ok s}"
  by (rule exI [of _ "\<lparr>owners_path = None, bots_default = ''shared'', groups_default = ''shared'', tables = no_owners\<rparr>"])
    (simp add: defaults_ok_def is_visibility_def)

setup_lifting type_definition_sound_store

lift_definition sound_tables :: "sound_store \<Rightarrow> owner_tables" is tables .
lift_definition sound_file :: "sound_store \<Rightarrow> node" is stored_owners .
lift_definition sound_path :: "sound_store \<Rightarrow> bool" is "\<lambda>s. owners_path s \<noteq> None" .
lift_definition sound_step :: "owner_op \<Rightarrow> sound_store \<Rightarrow> (py_error + unit) \<times> sound_store" is owner_step
  by (auto simp: pred_prod_beta owner_step_frame)

interpretation owners_disk: memory_first encode_owners decode_owners wf_owners norm_owners
    sound_tables sound_file load_owners sound_path legal_owner_op sound_step
proof
  fix j show "load_owners (Plain (Some j)) = decode_owners j" by (simp add: load_owners_def)
next
  fix s op show "sound_path s \<Longrightarrow> sound_path (snd (sound_step op s))"
    by transfer (simp add: owner_step_frame)
next
  fix op s show "legal_owner_op op \<Longrightarrow> wf_owners (sound_tables s) \<Longrightarrow> wf_owners (sound_tables (snd (sound_step op s)))"
    by transfer (use owner_step_wf in \<open>auto simp: owners_wf_def\<close>)
next
  fix s op
  show "sound_path s \<Longrightarrow> sound_file (snd (sound_step op s)) = sound_file s \<or>
      sound_file (snd (sound_step op s)) = Plain (Some (encode_owners (sound_tables (snd (sound_step op s)))))"
    by transfer (rule owner_step_file)
next
  fix s op
  show "sound_path s \<Longrightarrow> fst (sound_step op s) = Inr () \<Longrightarrow>
      sound_tables (snd (sound_step op s)) = sound_tables s \<and> sound_file (snd (sound_step op s)) = sound_file s \<or>
      sound_file (snd (sound_step op s)) = Plain (Some (encode_owners (sound_tables (snd (sound_step op s)))))"
    by transfer (rule owner_step_saved)
qed

section \<open>Properties\<close>

definition owners_run :: "owner_op list \<Rightarrow> ownership_store \<Rightarrow> ownership_store" where
  "owners_run ops s = fold (\<lambda>op s. snd (owner_step op s)) ops s"

lemma owners_run_simps [simp]: "owners_run [] s = s" "owners_run (op # ops) s = owners_run ops (snd (owner_step op s))"
  by (simp_all add: owners_run_def)

lemma sound_run: "Rep_sound_store (owners_disk.run ops x) = owners_run ops (Rep_sound_store x)"
proof (induction ops arbitrary: x)
  case (Cons op ops)
  have "Rep_sound_store (snd (sound_step op x)) = snd (owner_step op (Rep_sound_store x))" by transfer simp
  with Cons [of "snd (sound_step op x)"] show ?case by (simp add: owners_disk.run_def)
qed (simp add: owners_disk.run_def)

definition owners_agree :: "owner_tables \<Rightarrow> owner_tables \<Rightarrow> bool" where
  "owners_agree t u \<longleftrightarrow> (\<forall>k i. find_owner k i t = find_owner k i u)"

lemma norm_owners_agree: "wf_owners t \<Longrightarrow> owners_agree (norm_owners t) t"
proof -
  assume "wf_owners t"
  then have "map_of (table k (norm_owners t)) = map_of (table k t)" for k
    by (cases k) (auto simp: wf_owners_def norm_owners_def dest!: dict_all_distinct)
  then show ?thesis by (simp add: owners_agree_def find_owner_def)
qed

text \<open>Whatever ownership changes run on a freshly opened store and whichever writes fail, the file loads and
  names the owners and visibility that memory held at some earlier point of the run.\<close>

theorem owners_file_is_earlier_memory:
  assumes "open_owners (Some k) bd gd = Inr s" and "content k = Absent \<or> content k = Plain (Some (encode_owners t)) \<and> wf_owners t"
    and "list_all legal_owner_op ops"
  shows "\<exists>n \<le> length ops. \<exists>u. load_owners (stored_owners (owners_run ops s)) = Inr u \<and>
    owners_agree u (tables (owners_run (take n ops) s))"
proof -
  define x where "x = Abs_sound_store s"
  have d: "defaults_ok s" and path: "owners_path s = Some k"
    and ld: "(case content k of Absent \<Rightarrow> tables s = no_owners | _ \<Rightarrow> tables s = norm_owners t)"
    using assms(1,2) by (auto simp: open_owners_def defaults_ok_def load_owners_def decode_encode_owners split: if_splits)
  have rep: "Rep_sound_store x = s" using d by (simp add: x_def Abs_sound_store_inverse)
  have conv: "sound_tables y = tables (Rep_sound_store y)" "sound_file y = stored_owners (Rep_sound_store y)"
      "sound_path y = (owners_path (Rep_sound_store y) \<noteq> None)" for y
    by (transfer; simp)+
  have wf: "wf_owners (tables s)" "load_owners (stored_owners s) = Inr (norm_owners (tables s))"
    using assms(2) ld path owners_codec.norm_wf [of t] owners_codec.norm_idem [of t]
    by (auto simp: stored_owners_def load_owners_def decode_encode_owners wf_owners_def no_owners_def norm_owners_def)
  obtain n where n: "n \<le> length ops" "load_owners (sound_file (owners_disk.run ops x)) =
      Inr (norm_owners (sound_tables (owners_disk.run (take n ops) x)))"
    using owners_disk.file_is_a_prefix [of x ops] wf path assms(3) by (auto simp: conv rep)
  have "list_all legal_owner_op (take n ops)" using assms(3) by (auto simp: list_all_iff dest: in_set_takeD)
  from owners_disk.run_wf [OF this, of x] have "wf_owners (tables (owners_run (take n ops) s))"
    using wf(1) by (simp add: conv sound_run rep)
  with n show ?thesis
    by (intro exI [of _ n] exI [of _ "norm_owners (tables (owners_run (take n ops) s))"] conjI)
      (simp_all add: conv sound_run rep norm_owners_agree)
qed

text \<open>The operations that name item \<open>i\<close> of kind \<open>k\<close> and may change its owner or visibility.\<close>

definition names_item :: "item \<Rightarrow> string \<Rightarrow> string \<Rightarrow> string \<Rightarrow> bool" where
  "names_item k i kind identity \<longleftrightarrow> item_kind kind = Inr k \<and> item_identity identity = Inr i"

fun reassigns :: "item \<Rightarrow> string \<Rightarrow> owner_op \<Rightarrow> bool" where
  "reassigns k i (Record_owner _ _ _) = False"
| "reassigns k i (Set_visibility kd it _) = names_item k i kd it"
| "reassigns k i (Set_owner kd it _ _) = names_item k i kd it"
| "reassigns k i (Forget_owner kd it) = names_item k i kd it"

lemma find_put: "find_owner k i (tables (snd (put_owner k' i' e s))) = (if k = k' \<and> i = i' then Some e else find_owner k i (tables s))"
  by (cases "k = k'") (auto simp: put_owner_def find_owner_def)

lemma find_pop: "find_owner k i (with_table k' (dict_pop i' (table k' t)) t) = (if k = k' \<and> i = i' then None else find_owner k i t)"
  by (cases "k = k'") (auto simp: find_owner_def)

lemma owner_step_keeps:
  assumes "find_owner k i (tables s) = Some e" "\<not> reassigns k i op"
  shows "find_owner k i (tables (snd (owner_step op s))) = Some e"
  using assms
  by (cases op)
    (auto simp: record_owner_def set_visibility_def set_owner_def forget_owner_def on_item_def find_put find_pop names_item_def
      split: sum.split option.split)

text \<open>C13: The creator stays the owner: whatever anybody records, and whatever happens to other items, an owned item
  keeps its owner and visibility until an operation names it; while it is private only its owner and the
  console see it, and only they count as its owner, by any spelling of its UUID.\<close>

theorem private_item_stays_private:
  assumes "find_owner k i (tables s) = Some e" and "visibility e = ''private''"
    and "list_all (\<lambda>op. \<not> reassigns k i op) ops" and "names_item k i kind identity"
  shows "visible_to kind identity p (owners_run ops s) = Inr (owner_key p = None \<or> owner_key p = Some (owner e)) \<and>
    is_owner kind identity p (owners_run ops s) = Inr (owner_key p = None \<or> owner_key p = Some (owner e))"
proof -
  have "find_owner k i (tables (owners_run ops s)) = Some e"
    using assms(1,3) by (induction ops arbitrary: s) (auto simp: owner_step_keeps)
  with assms(2,4) show ?thesis
    by (auto simp: visible_to_def is_owner_def get_owner_def names_item_def)
qed

definition example_item :: string where
  "example_item = ''00000000-0000-0000-0000-00000000000a''"

definition alex :: principal where
  "alex = (principal_of Player)\<lparr>p_name := Some ''Alex'', p_xuid := Some ''77'', player_id := Some example_item\<rparr>"

definition empty_owners :: ownership_store where
  "empty_owners = \<lparr>owners_path = Some \<lparr>content = Absent, outcomes = [True, False]\<rparr>, bots_default = ''private'',
     groups_default = ''shared'', tables = no_owners\<rparr>"

lemma owners_file_is_earlier_memory_witness:
  "\<exists>n \<le> 2. \<exists>u. load_owners (stored_owners (owners_run
       [Record_owner ''bots'' example_item alex, Set_visibility ''bots'' example_item ''shared''] empty_owners)) = Inr u \<and>
     owners_agree u (tables (owners_run
       (take n [Record_owner ''bots'' example_item alex, Set_visibility ''bots'' example_item ''shared'']) empty_owners))"
proof -
  have "open_owners (Some \<lparr>content = Absent, outcomes = [True, False]\<rparr>) ''private'' ''shared'' = Inr empty_owners"
    by (simp add: open_owners_def is_visibility_def load_owners_def empty_owners_def)
  from owners_file_is_earlier_memory [OF this, of no_owners
      "[Record_owner ''bots'' example_item alex, Set_visibility ''bots'' example_item ''shared'']"]
  show ?thesis by (simp add: alex_def principal_of_def owner_key_def is_owner_text_def starts_with_def numeral_2_eq_2)
qed

lemma private_item_stays_private_witness:
  "visible_to ''bots'' example_item (principal_of Player\<lparr>p_xuid := Some ''9''\<rparr>)
     (owners_run [Record_owner ''bots'' example_item (principal_of Player\<lparr>p_xuid := Some ''9''\<rparr>)]
       (snd (record_owner ''bots'' example_item alex empty_owners))) = Inr False"
proof -
  let ?s = "snd (record_owner ''bots'' example_item alex empty_owners)"
  let ?e = "\<lparr>owner = ''xuid:77'', owner_name = Some ''Alex'', visibility = ''private''\<rparr>"
  have f: "find_owner Bots example_item (tables ?s) = Some ?e" by code_simp
  have n: "names_item Bots example_item ''bots'' example_item" by code_simp
  from private_item_stays_private [OF f _ _ n, of "[Record_owner ''bots'' example_item (principal_of Player\<lparr>p_xuid := Some ''9''\<rparr>)]"]
  show ?thesis by (simp add: owner_key_def principal_of_def)
qed

end
