(* ===== verification/Bot_Guards.thy ===== *)
theory Bot_Guards
  imports Control Ownership
begin

text \<open>
  What is checked before a Bot acts: the slot budget (\<open>endbot_core/limits.py\<close>, \<open>check_seat\<close> and
  \<open>check_controller_limit\<close> of \<open>endbot_core/commands.py\<close>), the owner of the Bot (\<open>owner_check\<close>), and the
  name index of \<open>endbot_core/registry.py\<close>. The server's capacity is what its adapter reports.
\<close>

section \<open>Limits\<close>

record bot_limits =
  max_bots :: int
  reserved_player_slots :: int
  max_bots_per_controller :: int

definition default_limits :: bot_limits where
  "default_limits = \<lparr>max_bots = 0, reserved_player_slots = 1, max_bots_per_controller = 0\<rparr>"

definition limit_keys :: "string list" where
  "limit_keys = [''max-bots'', ''reserved-player-slots'', ''max-bots-per-controller'']"

text \<open>A missing key takes its default; a boolean is no integer here.\<close>

definition whole_key :: "(string, json) dict \<Rightarrow> string \<Rightarrow> int \<Rightarrow> py_error + int" where
  "whole_key d k n = (case dict_get d k (JInt n) of
     JInt i \<Rightarrow> Inr i
   | _ \<Rightarrow> Inl (ValueError (''[limits] '' @ k @ '' must be an integer'')))"

definition limits_from_config :: "json option \<Rightarrow> py_error + bot_limits" where
  "limits_from_config t = (case t of
     None \<Rightarrow> Inr default_limits
   | Some j \<Rightarrow> ebind (as_obj (ValueError ''[limits] must be a table'') j) (\<lambda>d.
       let unknown = filter (\<lambda>k. k \<notin> set limit_keys) (keys d) in
       if unknown \<noteq> [] then Inl (ValueError (''unknown [limits] key: '' @ Min (set unknown)))
       else ebind (whole_key d ''max-bots'' 0) (\<lambda>m.
            ebind (whole_key d ''reserved-player-slots'' 1) (\<lambda>r.
            ebind (whole_key d ''max-bots-per-controller'' 0) (\<lambda>c.
            ebind (check (0 \<le> m) (ValueError ''[limits] max-bots must be 0 or a positive integer'')) (\<lambda>_.
            ebind (check (0 \<le> r) (ValueError ''[limits] reserved-player-slots must be 0 or more'')) (\<lambda>_.
            ebind (check (0 \<le> c) (ValueError ''[limits] max-bots-per-controller must be 0 or a positive integer'')) (\<lambda>_.
              Inr \<lparr>max_bots = m, reserved_player_slots = r, max_bots_per_controller = c\<rparr>))))))))"

definition limits_enabled :: "bot_limits \<Rightarrow> bool" where
  "limits_enabled l \<longleftrightarrow> max_bots l \<noteq> 0 \<or> reserved_player_slots l > 0"

section \<open>The seat check\<close>

definition active_state :: "string \<Rightarrow> bool" where
  "active_state c \<longleftrightarrow> c \<in> {''online'', ''connecting'', ''reconnecting''}"

definition addressed :: "string \<Rightarrow> profile list \<Rightarrow> string" where
  "addressed name ps = (case find (\<lambda>p. casefold (profile_name p) = casefold name) ps of
     None \<Rightarrow> [] | Some p \<Rightarrow> profile_id p)"

definition others_active :: "string \<Rightarrow> profile list \<Rightarrow> nat" where
  "others_active i ps = length (filter (\<lambda>p. profile_id p \<noteq> i \<and> active_state (profile_state p)) ps)"

text \<open>\<open>capacity(bot_ids)\<close> returns the server's slots and the humans online.\<close>

type_synonym capacity = "string set \<Rightarrow> int \<times> int"

definition seat_decision :: "bot_limits \<Rightarrow> capacity \<Rightarrow> string \<Rightarrow> profile list \<Rightarrow> py_error + unit" where
  "seat_decision l cap name ps =
     (let active = int (others_active (addressed name ps) ps);
          (slots, humans) = cap (set (filter (\<lambda>i. i \<noteq> []) (map profile_id ps)));
          room = slots - reserved_player_slots l; used = active + humans in
      if max_bots l > 0 \<and> active + 1 > max_bots l
      then Inl (LocalizedError ''Bot limit reached: {bots} online or connecting, max-bots is {limit}''
             [(''bots'', show_int active), (''limit'', show_int (max_bots l))])
      else if room \<le> 0
      then Inl (LocalizedError ''No Bot can join: all {players} slots are kept for players (reserved-player-slots = {reserved})''
             [(''players'', show_int slots), (''reserved'', show_int (reserved_player_slots l))])
      else if used + 1 > room
      then Inl (LocalizedError ''No free slot for another Bot: {used} of {players} slots in use, {reserved} kept for players''
             [(''used'', show_int used), (''players'', show_int slots), (''reserved'', show_int (reserved_player_slots l))])
      else Inr ())"

definition check_seat :: "bot_limits \<Rightarrow> capacity option \<Rightarrow> string \<Rightarrow> unit prog" where
  "check_seat l cap name = (case cap of
     None \<Rightarrow> Done ()
   | Some c \<Rightarrow> if \<not> limits_enabled l then Done ()
       else bind_prog bot_profiles (\<lambda>ps. lift_error (seat_decision l c name ps)))"

definition check_controller_limit :: "bot_limits \<Rightarrow> ownership_store option \<Rightarrow> principal \<Rightarrow> unit prog" where
  "check_controller_limit l store p = (case store of
     None \<Rightarrow> Done ()
   | Some st \<Rightarrow>
       if max_bots_per_controller l \<le> 0 \<or> owner_key p = None then Done ()
       else bind_prog (lift_error (count_owned ''bots'' (owner_key p) st)) (\<lambda>n.
         if int n \<ge> max_bots_per_controller l
         then Fail (Limit_Reached
           ''You own {count} Bots, the most a controller may own on this server ({limit}); forget one first''
           [(''count'', show_nat n), (''limit'', show_int (max_bots_per_controller l))])
         else Done ()))"

section \<open>The owner check\<close>

definition unowned_operations :: "string set" where
  "unowned_operations = {''ping'', ''help'', ''list''}"

definition owner_operations :: "string set" where
  "owner_operations = {''forget'', ''rename'', ''visibility''}"

definition refusal :: "ownership_store \<Rightarrow> principal \<Rightarrow> string \<Rightarrow> string \<Rightarrow> string \<Rightarrow> unit prog" where
  "refusal st p operation name i =
     bind_prog (lift_error (get_owner ''bots'' i st)) (\<lambda>e. case e of
       None \<Rightarrow> Done ()
     | Some entry \<Rightarrow>
         (let who = (case owner_name entry of None \<Rightarrow> ''?'' | Some n \<Rightarrow> if n = [] then ''?'' else n) in
          bind_prog (lift_error (visible_to ''bots'' i p st)) (\<lambda>seen.
            if \<not> seen then Fail (Refused ''Bot {name} is private to {owner}'' [(''name'', name), (''owner'', who)])
            else if operation \<notin> owner_operations then Done ()
            else bind_prog (lift_error (is_owner ''bots'' i p st)) (\<lambda>own.
              if own then Done ()
              else if operation = ''visibility''
                then Fail (Refused ''Only {owner} or the console can change the visibility of Bot {name}''
                       [(''owner'', who), (''name'', name)])
              else Fail (Refused ''Only {owner} or the console can {operation} Bot {name}''
                       [(''owner'', who), (''operation'', operation), (''name'', name)])))))"

definition owner_check :: "ownership_store option \<Rightarrow> principal \<Rightarrow> string \<Rightarrow> string option \<Rightarrow> string option \<Rightarrow> unit prog" where
  "owner_check store p operation name pinned = (case (store, name) of
     (Some st, Some n) \<Rightarrow>
       (if operation \<in> unowned_operations \<or> operation = ''owner'' \<or> owner_key p = None then Done ()
        else bind_prog (lift_error (has_entries ''bots'' st)) (\<lambda>any.
          if \<not> any then Done ()
          else (case pinned of
              Some i \<Rightarrow> refusal st p operation n i
            | None \<Rightarrow> bind_prog bot_profiles (\<lambda>ps.
                case find (\<lambda>b. profile_id b \<noteq> [] \<and> casefold (profile_name b) = casefold n) ps of
                  None \<Rightarrow> Done ()
                | Some b \<Rightarrow> refusal st p operation n (profile_id b)))))
   | _ \<Rightarrow> Done ())"

section \<open>The registry\<close>

record registry =
  by_id :: "(string, string) dict"
  name_to_id :: "(string, string) dict"

definition utf8_length :: "string \<Rightarrow> nat" where
  "utf8_length s = sum_list (map (\<lambda>c. if code c < 128 then 1 else 2) s)"

definition register :: "string \<Rightarrow> string \<Rightarrow> (registry, unit) action" where
  "register i name r =
     (if name = [] \<or> utf8_length name > 64
      then (Inl (ValueError ''bot name must contain between 1 and 64 UTF-8 bytes''), r)
      else if i \<in> set (keys (by_id r)) then (Inl (ValueError ''bot UUID is already registered''), r)
      else if casefold name \<in> set (keys (name_to_id r)) then (Inl (ValueError ''bot name is already registered''), r)
      else (Inr (), \<lparr>by_id = dict_set i name (by_id r), name_to_id = dict_set (casefold name) i (name_to_id r)\<rparr>))"

definition get_by_name :: "string \<Rightarrow> registry \<Rightarrow> (string \<times> string) option" where
  "get_by_name name r = (case map_of (name_to_id r) (casefold name) of
     None \<Rightarrow> None
   | Some i \<Rightarrow> (case map_of (by_id r) i of None \<Rightarrow> None | Some n \<Rightarrow> Some (i, n)))"

definition get_by_id :: "string \<Rightarrow> registry \<Rightarrow> (string \<times> string) option" where
  "get_by_id i r = (case map_of (by_id r) i of None \<Rightarrow> None | Some n \<Rightarrow> Some (i, n))"

section \<open>An admitted Bot fits\<close>

text \<open>The profiles once the Bot that was checked is online.\<close>

definition brought_online :: "string \<Rightarrow> profile list \<Rightarrow> profile list" where
  "brought_online i ps = map (\<lambda>p. if profile_id p = i then p\<lparr>profile_state := ''online''\<rparr> else p) ps"

definition active_count :: "profile list \<Rightarrow> nat" where
  "active_count ps = length (filter (\<lambda>p. active_state (profile_state p)) ps)"

lemma find_in: "find P xs = Some x \<Longrightarrow> x \<in> set xs"
  by (auto simp: find_Some_iff)

lemma addressed_in: "addressed name ps \<noteq> [] \<Longrightarrow> addressed name ps \<in> set (map profile_id ps)"
  by (auto simp: addressed_def dest: find_in split: option.splits)

lemma active_online:
  "distinct (map profile_id ps) \<Longrightarrow> i \<in> set (map profile_id ps) \<Longrightarrow>
   active_count (brought_online i ps) = Suc (others_active i ps)"
proof (induction ps)
  case (Cons p ps)
  have none: "brought_online i ps = ps \<and> others_active i ps = active_count ps" if "i \<notin> set (map profile_id ps)"
    using that by (induction ps) (auto simp: brought_online_def others_active_def active_count_def)
  show ?case
  proof (cases "profile_id p = i")
    case True
    then have "i \<notin> set (map profile_id ps)" using Cons.prems by auto
    from none [OF this] True show ?thesis
      by (simp add: brought_online_def others_active_def active_count_def active_state_def)
  next
    case False
    then show ?thesis
      using Cons by (auto simp: brought_online_def others_active_def active_count_def)
  qed
qed simp

lemma seat_decision_ok:
  "seat_decision l cap name ps = Inr () \<Longrightarrow>
   (max_bots l \<le> 0 \<or> int (others_active (addressed name ps) ps) + 1 \<le> max_bots l) \<and>
   (case cap (set (filter (\<lambda>i. i \<noteq> []) (map profile_id ps))) of (slots, humans) \<Rightarrow>
     int (others_active (addressed name ps) ps) + 1 + humans + reserved_player_slots l \<le> slots)"
  by (auto simp: seat_decision_def Let_def split: prod.splits if_splits)

text \<open>When the seat check lets a listed Bot join, then with that Bot online the active Bots stay within
  \<open>max-bots\<close>, and with the humans online they leave the reserved slots free.\<close>

theorem admitted_bot_fits:
  assumes "seat_decision l cap name ps = Inr ()" "distinct (map profile_id ps)" "addressed name ps \<noteq> []"
  shows "(max_bots l \<le> 0 \<or> int (active_count (brought_online (addressed name ps) ps)) \<le> max_bots l) \<and>
    (case cap (set (filter (\<lambda>i. i \<noteq> []) (map profile_id ps))) of (slots, humans) \<Rightarrow>
      int (active_count (brought_online (addressed name ps) ps)) + humans + reserved_player_slots l \<le> slots)"
  using seat_decision_ok [OF assms(1)] active_online [OF assms(2) addressed_in [OF assms(3)]]
  by (auto split: prod.splits)

definition three_bots :: "profile list" where
  "three_bots = [\<lparr>profile_id = ''a'', profile_name = ''Ann'', profile_state = ''online''\<rparr>,
     \<lparr>profile_id = ''b'', profile_name = ''Bob'', profile_state = ''offline''\<rparr>,
     \<lparr>profile_id = ''c'', profile_name = ''Cid'', profile_state = ''connecting''\<rparr>]"

definition some_limits :: bot_limits where
  "some_limits = \<lparr>max_bots = 3, reserved_player_slots = 2, max_bots_per_controller = 0\<rparr>"

lemma three_bots_seat:
  "seat_decision some_limits (\<lambda>_. (10, 5)) ''bob'' three_bots = Inr ()" "distinct (map profile_id three_bots)"
  "addressed ''bob'' three_bots \<noteq> []"
  by code_simp+

theorem admitted_bot_fits_witness:
  "(max_bots some_limits \<le> 0 \<or> int (active_count (brought_online (addressed ''bob'' three_bots) three_bots)) \<le> max_bots some_limits) \<and>
   (case (10, 5) of (slots, humans) \<Rightarrow>
      int (active_count (brought_online (addressed ''bob'' three_bots) three_bots)) + humans + reserved_player_slots some_limits \<le> slots)"
  by (rule admitted_bot_fits [OF three_bots_seat])

section \<open>The registry's invariant\<close>

definition registry_wf :: "registry \<Rightarrow> bool" where
  "registry_wf r \<longleftrightarrow> (\<forall>k i. map_of (name_to_id r) k = Some i \<longleftrightarrow> (\<exists>n. map_of (by_id r) i = Some n \<and> casefold n = k))"

definition empty_registry :: registry where
  "empty_registry = \<lparr>by_id = [], name_to_id = []\<rparr>"

lemma empty_registry_wf: "registry_wf empty_registry"
  by (simp add: registry_wf_def empty_registry_def)

lemma new_key: "k \<notin> set (keys d) \<Longrightarrow> map_of d k = None"
  by (simp add: map_of_eq_None_iff)

lemma register_wf:
  assumes "registry_wf r"
  shows "registry_wf (snd (register i name r))"
proof (cases "i \<in> set (keys (by_id r)) \<or> casefold name \<in> set (keys (name_to_id r))")
  case True
  then show ?thesis using assms by (auto simp: register_def)
next
  case False
  then have "map_of (by_id r) i = None" "map_of (name_to_id r) (casefold name) = None"
    by (simp_all add: new_key del: set_map)
  moreover from this assms have "map_of (by_id r) j = Some n \<Longrightarrow> casefold n \<noteq> casefold name" for j n
    unfolding registry_wf_def by (metis option.distinct(1))
  ultimately show ?thesis
    using assms unfolding registry_wf_def register_def
    by (auto split: if_splits)
qed

definition register_all :: "(string \<times> string) list \<Rightarrow> registry \<Rightarrow> registry" where
  "register_all bots r = fold (\<lambda>(i, name) s. snd (register i name s)) bots r"

lemma register_all_wf: "registry_wf r \<Longrightarrow> registry_wf (register_all bots r)"
  unfolding register_all_def by (induction bots arbitrary: r) (auto simp: register_wf)

text \<open>Whatever registrations were attempted since the registry was empty, a name finds a Bot exactly when
  its UUID does, under a name equal to it up to case: no Bot is lost behind another's name and no name leads to two.\<close>

theorem registry_lookups_agree:
  "get_by_name name (register_all bots empty_registry) = Some (i, n) \<longleftrightarrow>
   get_by_id i (register_all bots empty_registry) = Some (i, n) \<and> casefold n = casefold name"
proof -
  define r where "r = register_all bots empty_registry"
  have wf: "map_of (name_to_id r) k = Some j \<longleftrightarrow> (\<exists>m. map_of (by_id r) j = Some m \<and> casefold m = k)" for k j
    using register_all_wf [OF empty_registry_wf, of bots] by (simp add: registry_wf_def r_def)
  have "get_by_name name r = Some (i, n) \<longleftrightarrow> map_of (name_to_id r) (casefold name) = Some i \<and> map_of (by_id r) i = Some n"
    by (auto simp: get_by_name_def split: option.splits)
  moreover have "get_by_id i r = Some (i, n) \<longleftrightarrow> map_of (by_id r) i = Some n"
    by (auto simp: get_by_id_def split: option.splits)
  ultimately show ?thesis by (auto simp: wf simp flip: r_def)
qed

end
