(* ===== verification/Numbers.thy ===== *)
theory Numbers
  imports Json_Store Shell_Words
begin

text \<open>
  Python's numbers as the program reads them from text: \<open>int\<close>, \<open>float\<close>, \<open>math.floor\<close> and the
  shortest text of a float. A float is the exact rational its decimal literal names; what lies beyond the
  largest double is infinite, and rounding to the nearest double is not modelled, so two literals that
  round to one double stay apart.
\<close>

section \<open>Decimal digits\<close>

definition digit_value :: "char \<Rightarrow> nat" where
  "digit_value c = code c - 48"

definition decimal :: "string \<Rightarrow> nat" where
  "decimal s = foldl (\<lambda>n c. 10 * n + digit_value c) 0 s"

text \<open>Digits with single underscores between them, as \<open>int\<close> and \<open>float\<close> accept.\<close>

fun grouped_digits :: "bool \<Rightarrow> string \<Rightarrow> bool" where
  "grouped_digits after [] = after"
| "grouped_digits after (c # cs) =
     (if is_digit c then grouped_digits True cs else c = CHR ''_'' \<and> after \<and> grouped_digits False cs)"

definition digits_only :: "string \<Rightarrow> string" where
  "digits_only s = filter is_digit s"

definition is_sign :: "char \<Rightarrow> bool" where
  "is_sign c \<longleftrightarrow> c = CHR ''+'' \<or> c = CHR ''-''"

fun drop_sign :: "string \<Rightarrow> string" where
  "drop_sign [] = []"
| "drop_sign (c # cs) = (if is_sign c then cs else c # cs)"

definition is_negative :: "string \<Rightarrow> bool" where
  "is_negative s \<longleftrightarrow> s \<noteq> [] \<and> hd s = CHR ''-''"

text \<open>\<open>int(text)\<close>: surrounding space, a sign, at most 4300 digits.\<close>

definition py_int :: "string \<Rightarrow> py_error + int" where
  "py_int s = (let t = strip s; u = drop_sign t; ds = digits_only u in
     if \<not> grouped_digits False u then Inl (ValueError ''invalid literal for int() with base 10'')
     else if length ds > 4300 then Inl (ValueError ''Exceeds the limit (4300 digits) for integer string conversion'')
     else Inr (if is_negative t then - int (decimal ds) else int (decimal ds)))"

text \<open>Past half a unit above the largest double a literal is infinite.\<close>

definition float_bound :: rat where
  "float_bound = 2 ^ 1024 - 2 ^ 970"

definition to_float :: "rat \<Rightarrow> number" where
  "to_float r = (if r \<ge> float_bound then Infinite True else if r \<le> - float_bound then Infinite False else Finite r)"

text \<open>Small numbers are evaluated without the bound.\<close>

lemma to_float_code [code]:
  "to_float r = (if \<bar>r\<bar> \<le> 1000000000 then Finite r
     else if r \<ge> float_bound then Infinite True else if r \<le> - float_bound then Infinite False else Finite r)"
proof -
  have "(1000000000 :: rat) < float_bound" by (simp add: float_bound_def)
  then show ?thesis by (auto simp: to_float_def)
qed

definition not_a_float :: py_error where
  "not_a_float = ValueError ''could not convert string to float''"

definition is_exponent_mark :: "char \<Rightarrow> bool" where
  "is_exponent_mark c \<longleftrightarrow> c = CHR ''e'' \<or> c = CHR ''E''"

text \<open>The digits before and after the point; one side may be empty, not both.\<close>

definition mantissa :: "string \<Rightarrow> rat option" where
  "mantissa s =
     (let a = takeWhile (\<lambda>c. c \<noteq> CHR ''.'') s; r = dropWhile (\<lambda>c. c \<noteq> CHR ''.'') s; b = tl r;
          part = (\<lambda>p. p = [] \<or> grouped_digits False p) in
      if a = [] \<and> b = [] \<or> \<not> part a \<or> \<not> part b then None
      else Some (of_nat (decimal (digits_only a)) +
                 of_nat (decimal (digits_only b)) / 10 ^ length (digits_only b)))"

definition ten_to :: "int \<Rightarrow> rat" where
  "ten_to e = (if e < 0 then 1 / 10 ^ nat (- e) else 10 ^ nat e)"

definition py_float :: "string \<Rightarrow> py_error + number" where
  "py_float s =
     (let t = strip s; u = drop_sign t; neg = is_negative t; w = casefold u;
          m = takeWhile (\<lambda>c. \<not> is_exponent_mark c) u; r = dropWhile (\<lambda>c. \<not> is_exponent_mark c) u; x = tl r in
      if w = ''inf'' \<or> w = ''infinity'' then Inr (Infinite (\<not> neg))
      else if w = ''nan'' then Inr Not_a_number
      else case mantissa m of
        None \<Rightarrow> Inl not_a_float
      | Some v \<Rightarrow>
          (if r = [] then Inr (to_float (if neg then - v else v))
           else if \<not> grouped_digits False (drop_sign x) then Inl not_a_float
           else (let e = int (decimal (digits_only (drop_sign x)));
                     f = v * ten_to (if is_negative x then - e else e)
                 in Inr (to_float (if neg then - f else f)))))"

section \<open>Text of a number\<close>

text \<open>\<open>int(text)\<close> of what \<open>str\<close> writes.\<close>

lemma show_nat_digits: "list_all is_digit (show_nat n)" "show_nat n \<noteq> []"
proof -
  have d: "d < 10 \<Longrightarrow> is_digit (char_of (48 + d))" for d :: nat
    by (simp add: is_digit_def code_def)
  show "list_all is_digit (show_nat n)"
    by (induction n rule: show_nat.induct) (subst show_nat.simps, simp add: d)
  show "show_nat n \<noteq> []" by (subst show_nat.simps) simp
qed

lemma decimal_snoc [simp]: "decimal (s @ [c]) = 10 * decimal s + digit_value c"
  by (simp add: decimal_def)

lemma decimal_Nil [simp]: "decimal [] = 0"
  by (simp add: decimal_def)

lemma digit_value_of [simp]: "d < 10 \<Longrightarrow> digit_value (char_of (48 + d)) = d" for d :: nat
  by (simp add: digit_value_def code_def)

lemma decimal_show_nat [simp]: "decimal (show_nat n) = n"
proof (induction n rule: show_nat.induct)
  case (1 n)
  show ?case
  proof (cases "n < 10")
    case True
    then show ?thesis using decimal_snoc [of "[]" "char_of (48 + n)"] by (subst show_nat.simps) simp
  next
    case False
    then show ?thesis using 1 by (subst show_nat.simps) simp
  qed
qed

lemma grouped_digits_all: "list_all is_digit s \<Longrightarrow> grouped_digits a s \<longleftrightarrow> s \<noteq> [] \<or> a"
  by (induction s arbitrary: a) auto

lemma digits_only_all: "list_all is_digit s \<Longrightarrow> digits_only s = s"
  by (simp add: digits_only_def filter_id_conv list_all_iff)

lemma digit_not_special: "is_digit c \<Longrightarrow> \<not> is_space c \<and> \<not> is_sign c \<and> \<not> is_exponent_mark c \<and> c \<noteq> CHR ''.'' \<and> c \<noteq> CHR ''~'' \<and> c \<noteq> CHR ''_''"
  by (auto simp: is_digit_def is_space_def is_sign_def is_exponent_mark_def code_def)

lemma strip_digits: "list_all is_digit s \<Longrightarrow> strip s = s"
  unfolding strip_def by (rule strip_by_id) (simp add: list_all_iff digit_not_special)



end
