(* ===== verification/Group_Store.thy ===== *)
theory Group_Store
  imports Ownership Numbers
begin

text \<open>
  Bot groups and their file, \<open>endbot_core/groups.py\<close>: the names and targets a command may write, the
  class \<open>GroupStore\<close> as the record \<open>group_store\<close>, and the view one principal has of it
  (\<open>_VisibleGroups\<close>). The file is written before memory changes. The identity a new group gets is the
  argument \<open>fresh\<close>.
\<close>

record group =
  group_id :: string
  group_label :: string
  members :: "string list"

record group_store =
  groups_file :: disk
  groups :: "group list"

section \<open>Names and targets\<close>

definition is_letter :: "char \<Rightarrow> bool" where
  "is_letter c \<longleftrightarrow> (65 \<le> code c \<and> code c \<le> 90) \<or> (97 \<le> code c \<and> code c \<le> 122) \<or> c = CHR ''_''"

definition is_word_char :: "char \<Rightarrow> bool" where
  "is_word_char c \<longleftrightarrow> is_letter c \<or> is_digit c"

text \<open>\<open>[A-Za-z_][A-Za-z0-9_]{0,15}\<close> as a whole match.\<close>

definition is_group_name :: "string \<Rightarrow> bool" where
  "is_group_name s \<longleftrightarrow> s \<noteq> [] \<and> is_letter (hd s) \<and> length s \<le> 16 \<and> list_all is_word_char s"

definition bad_group_name :: py_error where
  "bad_group_name = ValueError
     ''Group names must start with a letter/underscore and contain 1-16 letters, digits or underscores''"

definition group_name :: "string \<Rightarrow> py_error + string" where
  "group_name v = (if is_group_name v then Inr v else Inl bad_group_name)"

definition group_reference :: "string \<Rightarrow> py_error + string" where
  "group_reference v = (if v \<noteq> [] \<and> hd v = CHR ''#'' \<and> is_group_name (tl v) then Inr (tl v)
     else Inl (LocalizedError ''Group syntax: #group (for example #miners)'' []))"

definition is_index :: "string \<Rightarrow> bool" where
  "is_index s \<longleftrightarrow> s \<noteq> [] \<and> length s \<le> 9 \<and> list_all is_digit s \<and> hd s \<noteq> CHR ''0''"

text \<open>\<open>#name\<close> or \<open>#name[index]\<close>.\<close>

definition parse_target :: "string \<Rightarrow> (string \<times> nat option) option" where
  "parse_target s =
     (case s of
        [] \<Rightarrow> None
      | c # r \<Rightarrow>
          (let name = takeWhile is_word_char r; t = dropWhile is_word_char r in
           if c \<noteq> CHR ''#'' \<or> \<not> is_group_name name then None
           else if t = [] then Some (name, None)
           else if hd t = CHR ''['' \<and> last t = CHR '']'' \<and> is_index (butlast (tl t))
             then Some (name, Some (decimal (butlast (tl t))))
           else None))"

section \<open>The file\<close>

definition bad_entry :: py_error where
  "bad_entry = ValueError ''Invalid group entry''"

text \<open>A UUID that is no text is an invalid entry; text that is no UUID raises as it is.\<close>

fun entry_uuid :: "json option \<Rightarrow> py_error + string" where
  "entry_uuid (Some (JStr s)) = norm_uuid s"
| "entry_uuid _ = Inl bad_entry"

definition decode_group :: "json \<Rightarrow> py_error + group" where
  "decode_group j =
     ebind (as_obj bad_entry j) (\<lambda>d.
     ebind (as_arr bad_entry (dict_get d ''members'' JNull)) (\<lambda>ms.
     ebind (entry_uuid (map_of d ''identityId'')) (\<lambda>i.
     ebind (case map_of d ''name'' of None \<Rightarrow> Inl bad_entry | Some (JStr n) \<Rightarrow> group_name n | Some _ \<Rightarrow> Inl bad_group_name) (\<lambda>n.
     ebind (emap (\<lambda>m. entry_uuid (Some m)) ms) (\<lambda>us.
     ebind (check (distinct us) (ValueError ''Duplicate group member'')) (\<lambda>_.
       Inr \<lparr>group_id = i, group_label = n, members = us\<rparr>))))))"

definition decode_groups :: "json \<Rightarrow> py_error + group list" where
  "decode_groups j =
     ebind (as_obj (ValueError ''Invalid groups file'') j) (\<lambda>d.
     ebind (check (version_is 1 d) (ValueError ''Invalid groups file'')) (\<lambda>_.
     ebind (as_arr (ValueError ''Invalid groups file'') (dict_get d ''groups'' JNull)) (\<lambda>rs.
     ebind (emap decode_group rs) (\<lambda>gs.
     ebind (check (distinct (map (\<lambda>g. casefold (group_label g)) gs)) (ValueError ''Duplicate group name'')) (\<lambda>_.
     ebind (check (distinct (map group_id gs)) (ValueError ''Duplicate group identity'')) (\<lambda>_. Inr gs))))))"

definition encode_group :: "group \<Rightarrow> json" where
  "encode_group g = JObj [(''identityId'', JStr (group_id g)), (''name'', JStr (group_label g)),
     (''members'', JArr (map JStr (members g)))]"

definition encode_groups :: "group list \<Rightarrow> json" where
  "encode_groups gs = JObj [(''version'', JInt 1), (''groups'', JArr (map encode_group gs))]"

definition load_groups :: "node \<Rightarrow> py_error + group list" where
  "load_groups n = ebind (read_regular ''Groups must be stored in a regular file'' n) (\<lambda>d.
     case d of None \<Rightarrow> Inr [] | Some j \<Rightarrow> decode_groups j)"

definition open_groups :: "disk \<Rightarrow> py_error + group_store" where
  "open_groups k = ebind (load_groups (content k)) (\<lambda>gs. Inr \<lparr>groups_file = k, groups = gs\<rparr>)"

definition save_groups :: "group list \<Rightarrow> (group_store, unit) action" where
  "save_groups gs s = (case save_doc ''Groups file must not be a symlink'' (encode_groups gs) (groups_file s) of
     (Inl e, k) \<Rightarrow> (Inl e, s\<lparr>groups_file := k\<rparr>)
   | (Inr _, k) \<Rightarrow> (Inr (), s\<lparr>groups_file := k, groups := gs\<rparr>))"

section \<open>Operations\<close>

definition no_group :: "string \<Rightarrow> py_error" where
  "no_group name = LocalizedError ''Group {name} does not exist'' [(''name'', name)]"

definition find_group :: "string \<Rightarrow> group list \<Rightarrow> group option" where
  "find_group name gs = find (\<lambda>g. casefold (group_label g) = casefold name) gs"

definition get_group :: "string \<Rightarrow> group list \<Rightarrow> py_error + group" where
  "get_group name gs = ebind (group_name name) (\<lambda>n.
     case find_group n gs of None \<Rightarrow> Inl (no_group n) | Some g \<Rightarrow> Inr g)"

definition create_group :: "string \<Rightarrow> string \<Rightarrow> (group_store, group) action" where
  "create_group fresh name s = (case group_name name of
     Inl e \<Rightarrow> (Inl e, s)
   | Inr n \<Rightarrow>
       (if find_group n (groups s) \<noteq> None
        then (Inl (LocalizedError ''Group {name} already exists'' [(''name'', n)]), s)
        else (let g = \<lparr>group_id = fresh, group_label = n, members = []\<rparr>
              in sthen (save_groups (groups s @ [g])) (ret g) s)))"

definition delete_group :: "string \<Rightarrow> (group_store, unit) action" where
  "delete_group name s = (case get_group name (groups s) of
     Inl e \<Rightarrow> (Inl e, s)
   | Inr g \<Rightarrow> save_groups (filter (\<lambda>h. group_id h \<noteq> group_id g) (groups s)) s)"

definition replace_group :: "group \<Rightarrow> group list \<Rightarrow> group list" where
  "replace_group g gs = map (\<lambda>h. if group_id h = group_id g then g else h) gs"

definition add_member :: "string \<Rightarrow> string \<Rightarrow> (group_store, unit) action" where
  "add_member name identity s = (case get_group name (groups s) of
     Inl e \<Rightarrow> (Inl e, s)
   | Inr g \<Rightarrow> (case norm_uuid identity of
       Inl e \<Rightarrow> (Inl e, s)
     | Inr i \<Rightarrow>
         (if i \<in> set (members g) then (Inl (ValueError ''Bot is already a group member''), s)
          else save_groups (replace_group (g\<lparr>members := members g @ [i]\<rparr>) (groups s)) s)))"

definition remove_member :: "string \<Rightarrow> string \<Rightarrow> (group_store, unit) action" where
  "remove_member name identity s = (case get_group name (groups s) of
     Inl e \<Rightarrow> (Inl e, s)
   | Inr g \<Rightarrow> (case norm_uuid identity of
       Inl e \<Rightarrow> (Inl e, s)
     | Inr i \<Rightarrow>
         (if i \<notin> set (members g) then (Inl (ValueError ''Bot is not a group member''), s)
          else save_groups (replace_group (g\<lparr>members := filter (\<lambda>m. m \<noteq> i) (members g)\<rparr>) (groups s)) s)))"

definition select_members :: "string \<Rightarrow> group list \<Rightarrow> py_error + group \<times> (nat \<times> string) list \<times> bool" where
  "select_members target gs = (case parse_target target of
     None \<Rightarrow> Inl (ValueError ''Group target syntax: #group or #group[1] (one-based)'')
   | Some (name, index) \<Rightarrow> ebind (get_group name gs) (\<lambda>g.
       case index of
         None \<Rightarrow> Inr (g, enumerate 1 (members g), False)
       | Some n \<Rightarrow>
           (if n > length (members g)
            then Inl (LocalizedError ''{target}: member index is out of range'' [(''target'', target)])
            else Inr (g, [(n, members g ! (n - 1))], True))))"

section \<open>What one principal sees\<close>

type_synonym sight = "group \<Rightarrow> py_error + bool"

fun visible_groups :: "sight \<Rightarrow> group list \<Rightarrow> py_error + group list" where
  "visible_groups see [] = Inr []"
| "visible_groups see (g # gs) = ebind (see g) (\<lambda>v. ebind (visible_groups see gs) (\<lambda>hs. Inr (if v then g # hs else hs)))"

definition seen_group :: "sight \<Rightarrow> string \<Rightarrow> group \<Rightarrow> py_error + group" where
  "seen_group see name g = ebind (see g) (\<lambda>v. if v then Inr g else Inl (no_group name))"

definition get_visible :: "sight \<Rightarrow> string \<Rightarrow> group list \<Rightarrow> py_error + group" where
  "get_visible see name gs = ebind (get_group name gs) (seen_group see name)"

definition select_visible :: "sight \<Rightarrow> string \<Rightarrow> group list \<Rightarrow> py_error + group \<times> (nat \<times> string) list \<times> bool" where
  "select_visible see target gs = ebind (select_members target gs) (\<lambda>(g, ms, indexed).
     ebind (seen_group see (case parse_target target of Some (name, _) \<Rightarrow> name | None \<Rightarrow> []) g) (\<lambda>_. Inr (g, ms, indexed)))"

text \<open>\<open>any(... and not visible(group) for group in groups)\<close>.\<close>

fun hidden_name :: "sight \<Rightarrow> string \<Rightarrow> group list \<Rightarrow> py_error + bool" where
  "hidden_name see name [] = Inr False"
| "hidden_name see name (g # gs) =
     (if casefold (group_label g) = casefold name
      then ebind (see g) (\<lambda>v. if \<not> v then Inr True else hidden_name see name gs)
      else hidden_name see name gs)"

definition create_visible :: "sight \<Rightarrow> string \<Rightarrow> string \<Rightarrow> (group_store, group) action" where
  "create_visible see fresh name s = (case hidden_name see name (groups s) of
     Inl e \<Rightarrow> (Inl e, s)
   | Inr True \<Rightarrow> (Inl (LocalizedError ''Group name {name} is not available'' [(''name'', name)]), s)
   | Inr False \<Rightarrow> create_group fresh name s)"

definition on_visible :: "sight \<Rightarrow> string \<Rightarrow> (string \<Rightarrow> (group_store, unit) action) \<Rightarrow> (group_store, unit) action" where
  "on_visible see name f s = (case get_visible see name (groups s) of
     Inl e \<Rightarrow> (Inl e, s) | Inr g \<Rightarrow> f (group_label g) s)"

definition delete_visible :: "sight \<Rightarrow> string \<Rightarrow> (group_store, unit) action" where
  "delete_visible see name = on_visible see name delete_group"

definition add_visible :: "sight \<Rightarrow> string \<Rightarrow> string \<Rightarrow> (group_store, unit) action" where
  "add_visible see name identity = on_visible see name (\<lambda>n. add_member n identity)"

definition remove_visible :: "sight \<Rightarrow> string \<Rightarrow> string \<Rightarrow> (group_store, unit) action" where
  "remove_visible see name identity = on_visible see name (\<lambda>n. remove_member n identity)"

text \<open>\<open>_store(sender)\<close>: the console, and everybody while nothing has an owner, sees every group.\<close>

definition sight_of :: "ownership_store option \<Rightarrow> principal \<Rightarrow> sight" where
  "sight_of owners p g = (case owners of
     None \<Rightarrow> Inr True
   | Some o' \<Rightarrow> ebind (has_entries ''groups'' o') (\<lambda>any.
       if \<not> any \<or> owner_key p = None then Inr True else visible_to ''groups'' (group_id g) p o'))"

section \<open>The codec and the invariant\<close>

definition wf_group :: "group \<Rightarrow> bool" where
  "wf_group g \<longleftrightarrow> canonical (group_id g) \<and> is_group_name (group_label g) \<and> list_all canonical (members g) \<and> distinct (members g)"

definition wf_groups :: "group list \<Rightarrow> bool" where
  "wf_groups gs \<longleftrightarrow> list_all wf_group gs \<and> distinct (map (\<lambda>g. casefold (group_label g)) gs) \<and> distinct (map group_id gs)"

lemma decode_group_wf: "decode_group j = Inr g \<Longrightarrow> wf_group g"
proof -
  assume "decode_group j = Inr g"
  then obtain d i n us ms where *: "entry_uuid (map_of d ''identityId'') = Inr i"
      "(case map_of d ''name'' of None \<Rightarrow> Inl bad_entry | Some (JStr n) \<Rightarrow> group_name n | Some _ \<Rightarrow> Inl bad_group_name) = Inr n"
      "emap (\<lambda>m. entry_uuid (Some m)) ms = Inr us" "distinct us" "g = \<lparr>group_id = i, group_label = n, members = us\<rparr>"
    by (auto simp: decode_group_def)
  have e: "entry_uuid v = Inr u \<Longrightarrow> canonical u" for v u
    by (cases v rule: entry_uuid.cases) (auto simp: canonical_norm)
  have "\<forall>u \<in> set us. canonical u" using emap_InrD [OF *(3)] e by blast
  moreover have "is_group_name n" using *(2) by (auto simp: group_name_def split: option.splits json.splits if_splits)
  ultimately show ?thesis using e [OF *(1)] *(4) by (simp add: *(5) wf_group_def list_all_iff)
qed

lemma decode_encode_group: "wf_group g \<Longrightarrow> decode_group (encode_group g) = Inr g"
  by (cases g) (auto simp: decode_group_def encode_group_def wf_group_def dict_get_def group_name_def check_def emap_map
      list_all_iff intro!: emap_id)

lemma decode_groups_wf: "decode_groups j = Inr gs \<Longrightarrow> wf_groups gs"
  by (auto simp: decode_groups_def wf_groups_def list_all_iff dest: emap_InrD decode_group_wf)

lemma decode_encode_groups: "wf_groups gs \<Longrightarrow> decode_groups (encode_groups gs) = Inr gs"
proof -
  assume wf: "wf_groups gs"
  then have "emap decode_group (map encode_group gs) = Inr gs"
    by (intro emap_inverse) (simp add: wf_groups_def list_all_iff decode_encode_group)
  with wf show ?thesis by (simp add: decode_groups_def encode_groups_def wf_groups_def dict_get_def)
qed

interpretation groups_codec: json_codec encode_groups decode_groups wf_groups "\<lambda>gs. gs"
  by unfold_locales (auto simp: decode_encode_groups decode_groups_wf)

lemma load_groups_wf: "load_groups n = Inr gs \<Longrightarrow> wf_groups gs"
  by (auto simp: load_groups_def wf_groups_def split: option.splits dest!: decode_groups_wf)

section \<open>The store as a machine\<close>

datatype group_op =
    Create_group string string
  | Delete_group string
  | Add_member string string
  | Remove_member string string

text \<open>A new identity is a UUID no group has.\<close>

fun legal_group_op :: "group_op \<Rightarrow> group list \<Rightarrow> bool" where
  "legal_group_op (Create_group fresh _) gs \<longleftrightarrow> canonical fresh \<and> fresh \<notin> group_id ` set gs"
| "legal_group_op _ _ \<longleftrightarrow> True"

fun group_step :: "group_op \<Rightarrow> group_store \<Rightarrow> (py_error + unit) \<times> group_store" where
  "group_step (Create_group fresh name) s = map_prod (map_sum id (\<lambda>_. ())) id (create_group fresh name s)"
| "group_step (Delete_group name) s = delete_group name s"
| "group_step (Add_member name i) s = add_member name i s"
| "group_step (Remove_member name i) s = remove_member name i s"

lemma get_groupD:
  "get_group name gs = Inr g \<Longrightarrow> g \<in> set gs \<and> casefold (group_label g) = casefold name \<and> is_group_name name"
  by (auto simp: get_group_def group_name_def find_group_def dest: find_SomeD split: option.splits if_splits)

lemma save_groups_snd: "snd (save_groups gs s) = s\<lparr>groups_file := snd (save_doc ''Groups file must not be a symlink'' (encode_groups gs) (groups_file s)),
    groups := (case fst (save_doc ''Groups file must not be a symlink'' (encode_groups gs) (groups_file s)) of Inl _ \<Rightarrow> groups s | Inr _ \<Rightarrow> gs)\<rparr>"
  by (auto simp: save_groups_def split: prod.split sum.split)

text \<open>Every operation leaves the store's memory and file alone, or saves one new list of groups.\<close>

lemma save_groups_commits:
  assumes "wf_groups gs"
  shows "(groups (snd (save_groups gs s)) = groups s \<and> content (groups_file (snd (save_groups gs s))) = content (groups_file s)) \<or>
    (wf_groups (groups (snd (save_groups gs s))) \<and>
      content (groups_file (snd (save_groups gs s))) = Plain (Some (encode_groups (groups (snd (save_groups gs s))))))"
proof -
  obtain r k where s: "save_doc ''Groups file must not be a symlink'' (encode_groups gs) (groups_file s) = (r, k)" by fastforce
  with assms show ?thesis
    by (cases r) (auto simp: save_groups_snd dest: save_doc_InrD save_doc_InlD)
qed

lemma wf_replace:
  assumes "wf_groups gs" "g \<in> set gs" "wf_group (g\<lparr>members := ms\<rparr>)"
  shows "wf_groups (replace_group (g\<lparr>members := ms\<rparr>) gs)"
proof -
  let ?r = "replace_group (g\<lparr>members := ms\<rparr>) gs"
  have "h = g" if "h \<in> set gs" "group_id h = group_id g" for h
    using assms(1,2) that by (auto simp: wf_groups_def distinct_map inj_on_def)
  then have "map (\<lambda>g. casefold (group_label g)) ?r = map (\<lambda>g. casefold (group_label g)) gs"
      "map group_id ?r = map group_id gs"
    by (auto simp: replace_group_def)
  moreover have "list_all wf_group ?r"
    using assms by (auto simp: wf_groups_def list_all_iff replace_group_def)
  ultimately show ?thesis using assms(1) unfolding wf_groups_def by metis
qed

lemma wf_groups_filter: "wf_groups gs \<Longrightarrow> wf_groups (filter P gs)"
  by (auto simp: wf_groups_def list_all_iff distinct_map_filter)

lemma wf_groups_create:
  assumes "wf_groups gs" "is_group_name n" "find_group n gs = None" "canonical i" "i \<notin> group_id ` set gs"
  shows "wf_groups (gs @ [\<lparr>group_id = i, group_label = n, members = []\<rparr>])"
  using assms by (auto simp: wf_groups_def wf_group_def find_group_def find_None_iff)

text \<open>An operation keeps the store, or is the save of one well-formed list.\<close>

lemma group_step_cases:
  assumes "legal_group_op op (groups s)" "wf_groups (groups s)"
  obtains (kept) "snd (group_step op s) = s"
  | (saved) gs where "snd (group_step op s) = snd (save_groups gs s)" "wf_groups gs"
proof (cases op)
  case (Create_group i n)
  show ?thesis
  proof (cases "snd (group_step op s) = s")
    case False
    with Create_group have n: "is_group_name n" "find_group n (groups s) = None"
      by (auto simp: create_group_def group_name_def split: if_splits)
    with Create_group assms show ?thesis
      by (intro saved [of "groups s @ [\<lparr>group_id = i, group_label = n, members = []\<rparr>]"] wf_groups_create)
        (auto simp: create_group_def group_name_def sthen_def sbind_def Let_def split: prod.split sum.split)
  qed (rule kept)
next
  case (Delete_group n)
  show ?thesis
  proof (cases "get_group n (groups s)")
    case (Inr g)
    with Delete_group assms(2) show ?thesis
      by (intro saved [of "filter (\<lambda>h. group_id h \<noteq> group_id g) (groups s)"] wf_groups_filter) (simp_all add: delete_group_def)
  qed (use Delete_group kept in \<open>simp add: delete_group_def\<close>)
next
  case (Add_member n i)
  show ?thesis
  proof (cases "snd (group_step op s) = s")
    case False
    with Add_member obtain g u where g: "get_group n (groups s) = Inr g" "norm_uuid i = Inr u" "u \<notin> set (members g)"
      by (auto simp: add_member_def split: sum.splits if_splits)
    note gin = get_groupD [OF g(1)]
    then have "wf_group g" using assms(2) by (simp add: wf_groups_def list_all_iff)
    then have "wf_group (g\<lparr>members := members g @ [u]\<rparr>)" using g(2,3) by (auto simp: wf_group_def canonical_norm)
    from wf_replace [OF assms(2) _ this] gin Add_member g show ?thesis
      by (intro saved [of "replace_group (g\<lparr>members := members g @ [u]\<rparr>) (groups s)"]) (auto simp: add_member_def)
  qed (rule kept)
next
  case (Remove_member n i)
  show ?thesis
  proof (cases "snd (group_step op s) = s")
    case False
    with Remove_member obtain g u where g: "get_group n (groups s) = Inr g" "norm_uuid i = Inr u" "u \<in> set (members g)"
      by (auto simp: remove_member_def split: sum.splits if_splits)
    note gin = get_groupD [OF g(1)]
    then have "wf_group g" using assms(2) by (simp add: wf_groups_def list_all_iff)
    then have "wf_group (g\<lparr>members := filter (\<lambda>m. m \<noteq> u) (members g)\<rparr>)" by (auto simp: wf_group_def list_all_iff)
    from wf_replace [OF assms(2) _ this] gin Remove_member g show ?thesis
      by (intro saved [of "replace_group (g\<lparr>members := filter (\<lambda>m. m \<noteq> u) (members g)\<rparr>) (groups s)"])
        (auto simp: remove_member_def)
  qed (rule kept)
qed

interpretation groups_disk: disk_first encode_groups decode_groups wf_groups "\<lambda>gs. gs"
    groups "\<lambda>s. content (groups_file s)" load_groups legal_group_op group_step
proof
  fix op and st :: group_store and r st'
  assume "legal_group_op op (groups st)" "wf_groups (groups st)" "group_step op st = (r, st')"
  then show "(groups st' = groups st \<and> content (groups_file st') = content (groups_file st)) \<or>
      (wf_groups (groups st') \<and> content (groups_file st') = Plain (Some (encode_groups (groups st'))))"
    using save_groups_commits by (cases rule: group_step_cases [of op st]) auto
qed (simp add: load_groups_def)

section \<open>Properties\<close>

definition groups_run :: "group_op list \<Rightarrow> group_store \<Rightarrow> group_store" where
  "groups_run ops s = fold (\<lambda>op s. snd (group_step op s)) ops s"

fun fresh_run :: "group_op list \<Rightarrow> group_store \<Rightarrow> bool" where
  "fresh_run [] s = True"
| "fresh_run (op # ops) s = (legal_group_op op (groups s) \<and> fresh_run ops (snd (group_step op s)))"

lemma groups_run_eq: "groups_run ops s = groups_disk.run ops s"
  and fresh_run_eq: "fresh_run ops s = groups_disk.legal_run ops s"
  by (simp add: groups_run_def groups_disk.run_def) (induction ops arbitrary: s; simp)

text \<open>Groups stay well-formed and on disk: through any creations under fresh identities, deletions and membership
  changes, with any writes failing, every group keeps a valid name no other group has, its members stay
  distinct Bots, and a restart reads back exactly the groups in memory.\<close>

theorem groups_restart:
  assumes "open_groups k = Inr s" and "fresh_run ops s"
  shows "wf_groups (groups (groups_run ops s)) \<and>
    load_groups (content (groups_file (groups_run ops s))) = Inr (groups (groups_run ops s))"
proof -
  have "groups_disk.synced s"
    using assms(1) load_groups_wf by (auto simp: open_groups_def groups_disk.synced_def)
  with assms(2) show ?thesis
    using groups_disk.restart [of ops s] groups_disk.run_wf [of ops s] by (simp add: groups_run_eq fresh_run_eq)
qed

lemma parse_decimal: "is_index s \<Longrightarrow> 0 < decimal s"
proof -
  assume s: "is_index s"
  then obtain c r where c: "s = c # r" "is_digit c" "c \<noteq> CHR ''0''" by (cases s) (auto simp: is_index_def)
  have "code c \<noteq> 48"
  proof
    assume "code c = 48"
    then have "c = char_of (48 :: nat)" using char_of_code [of c] by simp
    also have "\<dots> = CHR ''0''" by code_simp
    finally show False using c(3) by simp
  qed
  then have "0 < digit_value c" using c(2) by (simp add: is_digit_def digit_value_def)
  moreover have "n \<le> foldl (\<lambda>n c. 10 * n + digit_value c) n r" for n
  proof (induction r arbitrary: n)
    case (Cons c r)
    from Cons [of "10 * n + digit_value c"] show ?case by simp
  qed simp
  ultimately show ?thesis using c(1) by (auto simp: decimal_def intro: less_le_trans)
qed

lemma parse_target_index: "parse_target t = Some (name, Some n) \<Longrightarrow> 0 < n"
  by (auto simp: parse_target_def Let_def parse_decimal split: list.splits if_splits)

text \<open>A target selects exactly what it writes: a bare group all its members in order, numbered from one; an
  indexed one the member with that number, and nothing outside the group.\<close>

theorem select_is_exact:
  assumes "select_members target gs = Inr (g, ms, indexed)"
  shows "g \<in> set gs \<and> (\<forall>(n, m) \<in> set ms. 1 \<le> n \<and> n \<le> length (members g) \<and> members g ! (n - 1) = m) \<and>
    (\<not> indexed \<longrightarrow> map snd ms = members g) \<and> (indexed \<longrightarrow> length ms = 1)"
proof -
  obtain name index where p: "parse_target target = Some (name, index)" "get_group name gs = Inr g"
    using assms
  proof (cases "parse_target target")
    case (Some q)
    with assms that [of "fst q" "snd q"] show ?thesis
      by (cases q; cases "snd q") (auto simp: select_members_def split: if_splits)
  qed (simp add: select_members_def)
  show ?thesis
  proof (cases index)
    case None
    with p assms have "ms = enumerate 1 (members g)" "\<not> indexed" by (auto simp: select_members_def)
    with get_groupD [OF p(2)] show ?thesis
      by (auto simp: in_set_enumerate_eq)
  next
    case (Some n)
    with p assms have "ms = [(n, members g ! (n - 1))]" "n \<le> length (members g)" "indexed"
      by (auto simp: select_members_def split: if_splits)
    with get_groupD [OF p(2)] parse_target_index [of target name n] p(1) Some show ?thesis by auto
  qed
qed

text \<open>Visibility that can be decided, as a predicate.\<close>

lemma visible_groups_filter: "(\<And>g. g \<in> set gs \<Longrightarrow> see g = Inr (vis g)) \<Longrightarrow> visible_groups see gs = Inr (filter vis gs)"
  by (induction gs) auto

lemma find_group_filter:
  assumes "distinct (map (\<lambda>g. casefold (group_label g)) gs)"
  shows "find_group n (filter vis gs) = (case find_group n gs of None \<Rightarrow> None | Some g \<Rightarrow> if vis g then Some g else None)"
  using assms
proof (induction gs)
  case (Cons g gs)
  have "find_group n gs = None" if "casefold (group_label g) = casefold n"
    using Cons.prems that by (force simp: find_group_def find_None_iff)
  with Cons show ?case by (auto simp: find_group_def split: option.splits)
qed (simp add: find_group_def)

text \<open>A private group of somebody else is not there: to a principal who cannot see it, looking a group up,
  listing, deleting it and changing its members answer exactly as if the store held only the groups the
  principal sees, and leave the hidden group alone.\<close>

theorem hidden_groups_do_not_exist:
  assumes "wf_groups (groups s)" and "\<And>g. g \<in> set (groups s) \<Longrightarrow> see g = Inr (vis g)"
  shows "get_visible see name (groups s) = get_group name (filter vis (groups s)) \<and>
    visible_groups see (groups s) = Inr (filter vis (groups s)) \<and>
    (get_visible see name (groups s) = Inl e \<longrightarrow>
      delete_visible see name s = (Inl e, s) \<and> add_visible see name i s = (Inl e, s) \<and>
      remove_visible see name i s = (Inl e, s))"
proof -
  have d: "distinct (map (\<lambda>g. casefold (group_label g)) (groups s))" using assms(1) by (simp add: wf_groups_def)
  have "get_visible see name (groups s) = get_group name (filter vis (groups s))"
  proof (cases "find_group name (groups s)")
    case (Some g)
    then have "see g = Inr (vis g)" using assms(2) find_SomeD by (fastforce simp: find_group_def)
    with Some show ?thesis
      by (auto simp: get_visible_def get_group_def group_name_def find_group_filter [OF d] seen_group_def)
  qed (auto simp: get_visible_def get_group_def group_name_def find_group_filter [OF d])
  with visible_groups_filter [OF assms(2)] show ?thesis
    by (auto simp: delete_visible_def add_visible_def remove_visible_def on_visible_def)
qed

text \<open>Two groups, the first private to Alex, and what Steve sees of them.\<close>

definition miners :: group where
  "miners = \<lparr>group_id = example_item, group_label = ''Miners'', members = []\<rparr>"

definition builders :: group where
  "builders = \<lparr>group_id = ''00000000-0000-0000-0000-00000000000b'', group_label = ''builders'', members = [example_item]\<rparr>"

definition two_groups :: group_store where
  "two_groups = \<lparr>groups_file = \<lparr>content = Absent, outcomes = []\<rparr>, groups = [miners, builders]\<rparr>"

definition alex_owns_miners :: ownership_store where
  "alex_owns_miners = \<lparr>owners_path = None, bots_default = ''shared'', groups_default = ''shared'',
     tables = \<lparr>bot_owners = [], group_owners = [(example_item,
       \<lparr>owner = ''xuid:77'', owner_name = None, visibility = ''private''\<rparr>)]\<rparr>\<rparr>"

definition other_player :: principal where
  "other_player = (principal_of Player)\<lparr>p_xuid := Some ''2535''\<rparr>"

text \<open>An index gives a private group away: a target past its end is answered with the range error of an existing
  group, while the same target of a group that does not exist, and the group's bare name, are answered with
  its not existing.\<close>

theorem hidden_group_index_leaks:
  "let see = sight_of (Some alex_owns_miners) other_player in
     get_visible see ''miners'' (groups two_groups) = Inl (no_group ''miners'') \<and>
     select_visible see ''#miners'' (groups two_groups) = Inl (no_group ''miners'') \<and>
     select_visible see ''#nobody[1]'' (groups two_groups) = Inl (no_group ''nobody'') \<and>
     select_visible see ''#miners[1]'' (groups two_groups) =
       Inl (LocalizedError ''{target}: member index is out of range'' [(''target'', ''#miners[1]'')])"
  by code_simp

lemma groups_restart_witness:
  "let s = \<lparr>groups_file = \<lparr>content = Absent, outcomes = [True, False]\<rparr>, groups = []\<rparr>;
       ops = [Create_group example_item ''Miners'', Add_member ''miners'' example_item] in
     load_groups (content (groups_file (groups_run ops s))) = Inr (groups (groups_run ops s))"
proof -
  let ?s = "\<lparr>groups_file = \<lparr>content = Absent, outcomes = [True, False]\<rparr>, groups = []\<rparr>"
  let ?ops = "[Create_group example_item ''Miners'', Add_member ''miners'' example_item]"
  have o': "open_groups \<lparr>content = Absent, outcomes = [True, False]\<rparr> = Inr ?s"
    by (simp add: open_groups_def load_groups_def)
  have "canonical example_item" unfolding example_item_def by (rule looks_canonical) code_simp
  then have f: "fresh_run ?ops ?s" by simp
  from groups_restart [OF o' f] show ?thesis by (simp add: Let_def)
qed

lemma select_is_exact_witness: "select_members ''#builders[1]'' (groups two_groups) = Inr (builders, [(1, example_item)], True) \<and>
    members builders ! 0 = example_item"
proof -
  have s: "select_members ''#builders[1]'' (groups two_groups) = Inr (builders, [(1, example_item)], True)" by code_simp
  from select_is_exact [OF s] s show ?thesis by simp
qed

lemma hidden_groups_do_not_exist_witness:
  "get_visible (sight_of (Some alex_owns_miners) other_player) ''Miners'' (groups two_groups) =
     get_group ''Miners'' (filter (\<lambda>g. group_label g = ''builders'') (groups two_groups))"
proof -
  have wf: "wf_groups (groups two_groups)"
  proof -
    have "canonical example_item" "canonical (group_id builders)"
      unfolding example_item_def builders_def by (rule looks_canonical, code_simp)+
    moreover have "is_group_name ''Miners'' \<and> is_group_name ''builders'' \<and> casefold ''Miners'' \<noteq> casefold ''builders''" by code_simp
    moreover have "example_item \<noteq> group_id builders" by code_simp
    ultimately show ?thesis by (simp add: wf_groups_def wf_group_def two_groups_def miners_def builders_def)
  qed
  have see: "sight_of (Some alex_owns_miners) other_player g = Inr (group_label g = ''builders'')"
    if "g \<in> set (groups two_groups)" for g
  proof -
    have "sight_of (Some alex_owns_miners) other_player miners = Inr (group_label miners = ''builders'')"
      "sight_of (Some alex_owns_miners) other_player builders = Inr (group_label builders = ''builders'')" by code_simp+
    with that show ?thesis by (auto simp: two_groups_def)
  qed
  show ?thesis
    using hidden_groups_do_not_exist [where see = "sight_of (Some alex_owns_miners) other_player"
        and vis = "\<lambda>g. group_label g = ''builders''", OF wf see] by blast
qed

end
