(* ===== verification/Group_Results.thy ===== *)
theory Group_Results
  imports Control Group_Store
begin

text \<open>
  What a group operation leaves to read, \<open>endbot_core/group_results.py\<close>: one row per member, the summary of a
  result in English, and the \<open>ResultStore\<close>, an ordered dictionary from owner, group and result id to
  result. The id a result gets is the argument \<open>fresh\<close>.
\<close>

datatype outcome = Accepted | Failed | Skipped | Unknown

record member_result =
  row_index :: nat
  row_identity :: string
  row_name :: string
  row_outcome :: outcome
  row_reason :: string
  row_detail :: string
  row_data :: "json option"
  row_code :: string

record group_result =
  result_id :: string
  result_group :: string
  result_group_name :: string
  result_target :: string
  result_operation :: string
  result_rows :: "member_result list"

definition page_size :: nat where
  "page_size = 10"

definition cache_size :: nat where
  "cache_size = 128"

definition history_size :: nat where
  "history_size = 20"

section \<open>The text of a result\<close>

definition reasons :: "(string, string) dict" where
  "reasons =
     [(''not_online'', ''offline''), (''offline'', ''offline''),
      (''not_found'', ''missing Bot profile''), (''missing_profile'', ''missing Bot profile''),
      (''identity_changed'', ''Bot identity changed''), (''canceled'', ''permission revoked or plugin stopped''),
      (''unavailable'', ''runtime unavailable''), (''unknown'', ''acceptance unknown''),
      (''unauthorized'', ''not permitted''), (''other'', ''other errors'')]"

definition count_outcome :: "outcome \<Rightarrow> member_result list \<Rightarrow> nat" where
  "count_outcome o' rows = length (filter (\<lambda>r. row_outcome r = o') rows)"

definition reason_key :: "string \<Rightarrow> string" where
  "reason_key r =
     (if r \<notin> set (keys reasons) then ''other''
      else if r = ''offline'' then ''not_online'' else if r = ''not_found'' then ''missing_profile'' else r)"

text \<open>\<open>Counter(...)\<close>: keys in the order they first occur; \<open>most_common\<close> keeps that order among equals.\<close>

definition counter :: "string list \<Rightarrow> (string, nat) dict" where
  "counter xs = fold (\<lambda>x d. dict_set x (Suc (dict_get d x 0)) d) xs []"

definition most_common :: "nat \<Rightarrow> (string, nat) dict \<Rightarrow> (string, nat) dict" where
  "most_common n d = take n (sort_key (\<lambda>e. - int (snd e)) d)"

definition summary :: "group_result \<Rightarrow> string list" where
  "summary g =
     (let rows = result_rows g;
          line = fill [(''operation'', result_operation g), (''accepted'', show_nat (count_outcome Accepted rows)),
              (''failed'', show_nat (count_outcome Failed rows)), (''skipped'', show_nat (count_outcome Skipped rows))] None
              ''{operation}: accepted {accepted}, failed {failed}, not run {skipped}'' @
            (if count_outcome Unknown rows = 0 then []
             else fill [(''count'', show_nat (count_outcome Unknown rows))] None '', unknown {count}'');
          rs = counter (map (\<lambda>r. reason_key (row_reason r)) (filter (\<lambda>r. row_outcome r \<noteq> Accepted) rows));
          selected = most_common 3 rs;
          detail = join_with '', '' (map (\<lambda>(r, n).
              fill [(''reason'', dict_get reasons r []), (''count'', show_nat n)] None ''{reason} {count}'') selected);
          remaining = sum_list (map snd rs) - sum_list (map snd selected) in
      if rs = [] then [line]
      else [line, fill [(''reasons'', detail @ (if remaining = 0 then []
              else fill [(''count'', show_nat remaining)] None '', other {count}''))] None ''Reasons: {reasons}''])"

fun outcome_text :: "outcome \<Rightarrow> string" where
  "outcome_text Accepted = ''accepted''"
| "outcome_text Failed = ''failed''"
| "outcome_text Skipped = ''not run''"
| "outcome_text Unknown = ''acceptance unknown''"

definition result_lines :: "nat \<Rightarrow> nat \<Rightarrow> group_result \<Rightarrow> string list" where
  "result_lines history every g =
     fill [(''target'', result_target g), (''operation'', result_operation g), (''history'', show_nat history), (''total'', show_nat every)]
       None ''{target} {operation} - history {history}/{total} (1 = latest)'' #
     summary g @
     map (\<lambda>r. ''#'' @ result_group_name g @ ''['' @ show_nat (row_index r) @ ''] '' @ row_name r @ '': '' @
       outcome_text (row_outcome r) @ '' - '' @ row_detail r) (result_rows g)"

section \<open>The store\<close>

type_synonym result_key = "string \<times> string \<times> string"
type_synonym result_store = "(result_key, group_result) dict"

text \<open>\<open>getattr(sender, 'player_id', None) or 'console'\<close>.\<close>

definition result_owner :: "principal \<Rightarrow> string" where
  "result_owner p = (case player_id p of None \<Rightarrow> ''console'' | Some i \<Rightarrow> if i = [] then ''console'' else i)"

definition of_owner :: "string \<Rightarrow> string \<Rightarrow> result_key \<times> group_result \<Rightarrow> bool" where
  "of_owner who gid e \<longleftrightarrow> fst (fst e) = who \<and> fst (snd (fst e)) = gid"

text \<open>The keys past the last twenty of one owner and group, then the oldest past 128 of all.\<close>

definition trim_history :: "string \<Rightarrow> string \<Rightarrow> result_store \<Rightarrow> result_store" where
  "trim_history who gid st =
     (let matching = map fst (filter (of_owner who gid) st);
          old = take (length matching - history_size) matching in
      fold dict_pop old st)"

definition trim_cache :: "result_store \<Rightarrow> result_store" where
  "trim_cache st = drop (length st - cache_size) st"

definition one_line :: "string \<Rightarrow> string" where
  "one_line s = map (\<lambda>c. if c = CHR 0x0A \<or> c = CHR 0x0D then CHR '' '' else c) s"

definition save_result :: "principal \<Rightarrow> group \<Rightarrow> string \<Rightarrow> string \<Rightarrow> member_result list \<Rightarrow> string \<Rightarrow> result_store \<Rightarrow>
    group_result \<times> result_store" where
  "save_result p g target operation rows fresh st =
     (let r = \<lparr>result_id = fresh, result_group = group_id g, result_group_name = group_label g, result_target = target,
            result_operation = take 128 (one_line operation), result_rows = rows\<rparr>;
          st' = dict_set (result_owner p, group_id g, fresh) r st in
      (r, trim_cache (trim_history (result_owner p) (group_id g) st')))"

definition result_history :: "principal \<Rightarrow> group \<Rightarrow> result_store \<Rightarrow> py_error + group_result list" where
  "result_history p g st =
     (let rs = map snd (filter (of_owner (result_owner p) (group_id g)) (rev st)) in
      if rs = [] then Inl (LocalizedError ''No recent group result for this controller (results reset on restart)'' [])
      else Inr rs)"

definition get_result :: "principal \<Rightarrow> group \<Rightarrow> int \<Rightarrow> result_store \<Rightarrow> py_error + group_result" where
  "get_result p g n st = ebind (result_history p g st) (\<lambda>rs.
     if 1 \<le> n \<and> n \<le> int (length rs) then Inr (rs ! nat (n - 1))
     else Inl (LocalizedError ''Result history must be between 1 and {count} (1 = latest)'' [(''count'', show_nat (length rs))]))"

definition find_result :: "principal \<Rightarrow> group \<Rightarrow> string \<Rightarrow> result_store \<Rightarrow> py_error + group_result" where
  "find_result p g i st = ebind (result_history p g st) (\<lambda>rs.
     case find (\<lambda>r. result_id r = i) rs of
       None \<Rightarrow> Inl (LocalizedError ''Result is no longer retained; reopen the result history'' []) | Some r \<Rightarrow> Inr r)"

section \<open>Bounds, order and privacy\<close>

definition wf_results :: "result_store \<Rightarrow> bool" where
  "wf_results st \<longleftrightarrow> distinct (keys st) \<and> length st \<le> cache_size \<and>
     (\<forall>who gid. length (filter (of_owner who gid) st) \<le> history_size) \<and>
     (\<forall>((who, gid, i), r) \<in> set st. result_group r = gid \<and> result_id r = i)"

lemma fold_pop_filter: "fold dict_pop ks st = filter (\<lambda>e. fst e \<notin> set ks) st"
  by (induction ks arbitrary: st) (auto simp: AList.delete_eq intro: filter_cong)

lemma trim_history_filter: "\<exists>ks. trim_history who gid st = filter (\<lambda>e. fst e \<notin> set ks) st \<and>
    (\<forall>k \<in> set ks. \<exists>e \<in> set st. fst e = k \<and> of_owner who gid e)"
proof -
  let ?ks = "take (length (map fst (filter (of_owner who gid) st)) - history_size) (map fst (filter (of_owner who gid) st))"
  have "\<exists>e \<in> set st. fst e = k \<and> of_owner who gid e" if "k \<in> set ?ks" for k
  proof -
    from that have "k \<in> set (map fst (filter (of_owner who gid) st))" by (rule in_set_takeD)
    then obtain e where "e \<in> set (filter (of_owner who gid) st)" "k = fst e" by (metis (no_types, lifting) in_set_conv_nth length_map nth_map nth_mem)
    then show ?thesis by auto
  qed
  then show ?thesis by (intro exI [of _ ?ks]) (simp only: trim_history_def Let_def fold_pop_filter simp_thms ball_simps, blast)
qed

lemma filter_take_keys:
  assumes "distinct (map fst xs)"
  shows "filter (\<lambda>e. fst e \<notin> set (take n (map fst xs))) xs = drop n xs"
proof -
  have "xs = take n xs @ drop n xs" by simp
  moreover have "filter (\<lambda>e. fst e \<notin> set (take n (map fst xs))) (take n xs) = []"
    by (auto simp: filter_empty_conv take_map)
  moreover have "filter (\<lambda>e. fst e \<notin> set (take n (map fst xs))) (drop n xs) = drop n xs"
  proof (rule filter_True, rule ballI)
    fix e assume "e \<in> set (drop n xs)"
    moreover have "set (take n (map fst xs)) \<inter> set (drop n (map fst xs)) = {}"
      using assms by (rule set_take_disj_set_drop_if_distinct) simp
    ultimately show "fst e \<notin> set (take n (map fst xs))" by (auto simp: drop_map)
  qed
  ultimately show ?thesis by (metis append_Nil filter_append)
qed

text \<open>Trimming keeps the newest entries of the pair it trims and every entry of the others.\<close>

lemma trim_history_own:
  assumes "distinct (keys st)"
  shows "filter (of_owner who gid) (trim_history who gid st) =
    drop (length (filter (of_owner who gid) st) - history_size) (filter (of_owner who gid) st)"
proof -
  let ?xs = "filter (of_owner who gid) st"
  have "distinct (map fst ?xs)" using assms by (simp add: distinct_map_filter)
  from filter_take_keys [OF this, of "length ?xs - history_size"] show ?thesis
    unfolding trim_history_def Let_def fold_pop_filter by (simp add: conj_commute)
qed

lemma trim_history_other:
  assumes "\<not> (who = who' \<and> gid = gid')"
  shows "filter (of_owner who' gid') (trim_history who gid st) = filter (of_owner who' gid') st"
proof -
  obtain ks where ks: "trim_history who gid st = filter (\<lambda>e. fst e \<notin> set ks) st"
      "\<forall>k \<in> set ks. \<exists>e \<in> set st. fst e = k \<and> of_owner who gid e" using trim_history_filter by blast
  have "fst e \<notin> set ks" if "of_owner who' gid' e" for e
    using ks(2) that assms unfolding of_owner_def by metis
  then show ?thesis unfolding ks(1) by (auto intro!: filter_cong)
qed

lemma trim_cache_suffix: "\<exists>xs. st = xs @ trim_cache st"
  unfolding trim_cache_def by (metis append_take_drop_id)

lemma filter_suffix: "\<exists>n. filter P (trim_cache st) = drop n (filter P st)"
proof -
  obtain xs where "st = xs @ trim_cache st" using trim_cache_suffix by blast
  then have "filter P st = filter P xs @ filter P (trim_cache st)" by (metis filter_append)
  then show ?thesis by (intro exI [of _ "length (filter P xs)"]) simp
qed


definition history_of :: "string \<Rightarrow> string \<Rightarrow> result_store \<Rightarrow> group_result list" where
  "history_of who gid st = map snd (filter (of_owner who gid) (rev st))"

lemma result_history_of: "result_history p g st = (if history_of (result_owner p) (group_id g) st = []
    then Inl (LocalizedError ''No recent group result for this controller (results reset on restart)'' [])
    else Inr (history_of (result_owner p) (group_id g) st))"
  by (simp add: result_history_def history_of_def Let_def)

lemma history_rev: "history_of who gid st = rev (map snd (filter (of_owner who gid) st))"
  by (simp add: history_of_def rev_map rev_filter)

lemma of_owner_new: "of_owner who gid ((who', gid', i), r) \<longleftrightarrow> who = who' \<and> gid = gid'"
  by (auto simp: of_owner_def)

lemma length_trim_cache: "length (trim_cache st) \<le> cache_size"
  by (simp add: trim_cache_def)

lemma set_trims: "set (trim_cache (trim_history who gid st)) \<subseteq> set st"
proof -
  obtain xs where "trim_history who gid st = xs @ trim_cache (trim_history who gid st)" using trim_cache_suffix by blast
  then have "set (trim_cache (trim_history who gid st)) \<subseteq> set (trim_history who gid st)" by (metis Un_upper2 set_append)
  also have "\<dots> \<subseteq> set st" using trim_history_filter [of who gid st] by auto
  finally show ?thesis .
qed

lemma distinct_trims: "distinct (keys st) \<Longrightarrow> distinct (keys (trim_cache (trim_history who gid st)))"
  using trim_history_filter [of who gid st]
  by (auto simp: trim_cache_def drop_map [symmetric] distinct_map_filter intro!: distinct_drop)



end
