(* ===== verification/Areas.thy ===== *)
theory Areas
  imports Numbers
begin

text \<open>
  The one area value of every operation, \<open>endbot_core/areas.py\<close>: its clause grammar, its canonical text, its
  resolution against the Bot's position, and which blocks it holds. A shape dictionary is a value of
  \<open>shape\<close>, with \<open>Other_shape\<close> for a dictionary of no known kind; a coordinate list has its three
  entries as a triple; \<open>('relative', n)\<close> is \<open>Tagged ''relative'' n\<close>. Numbers are exact rationals, so the
  distance of a sphere is compared without the rounding of \<open>math.dist\<close>.
\<close>

type_synonym 'a point = "'a \<times> 'a \<times> 'a"

datatype coord = At rat | Tagged string rat

abbreviation relative :: "rat \<Rightarrow> coord" where
  "relative \<equiv> Tagged ''relative''"

datatype shape =
    Cell "coord point"
  | Box "coord point" "coord point"
  | Sphere rat "coord point option"
  | Other_shape

record area =
  within_shape :: "shape option"
  except_shapes :: "shape list"

definition max_radius :: rat where
  "max_radius = 16"

definition max_cells :: int where
  "max_cells = 17157"

definition world_limit :: rat where
  "world_limit = 30000000"

text \<open>Components of a point.\<close>

fun on_point :: "('a \<Rightarrow> 'b) \<Rightarrow> 'a point \<Rightarrow> 'b point" where
  "on_point f (x, y, z) = (f x, f y, f z)"

fun with_points :: "('a \<Rightarrow> 'b \<Rightarrow> 'c) \<Rightarrow> 'a point \<Rightarrow> 'b point \<Rightarrow> 'c point" where
  "with_points f (x, y, z) (x', y', z') = (f x x', f y y', f z z')"

fun all_point :: "('a \<Rightarrow> bool) \<Rightarrow> 'a point \<Rightarrow> bool" where
  "all_point p (x, y, z) = (p x \<and> p y \<and> p z)"

fun point_list :: "'a point \<Rightarrow> 'a list" where
  "point_list (x, y, z) = [x, y, z]"

fun product :: "int point \<Rightarrow> int" where
  "product (x, y, z) = x * y * z"

fun point_of :: "'a list \<Rightarrow> 'a point" where
  "point_of [x, y, z] = (x, y, z)"
| "point_of _ = undefined"

fun epoint :: "('a \<Rightarrow> py_error + 'b) \<Rightarrow> 'a point \<Rightarrow> py_error + 'b point" where
  "epoint f (x, y, z) = ebind (f x) (\<lambda>a. ebind (f y) (\<lambda>b. ebind (f z) (\<lambda>c. Inr (a, b, c))))"

lemma on_point_simps [simp]:
  "on_point f (on_point g p) = on_point (\<lambda>x. f (g x)) p" "on_point (\<lambda>x. x) p = p"
  by (cases p; simp)+

section \<open>The clause grammar\<close>

text \<open>\<open>~?[-+]?(?:\\d+(?:\\.\\d*)?|\\.\\d+)?\<close> as a whole match, but not empty and no bare sign.\<close>

definition drop_tilde :: "string \<Rightarrow> string" where
  "drop_tilde s = (case s of [] \<Rightarrow> [] | c # r \<Rightarrow> if c = CHR ''~'' then r else s)"

definition is_plain_number :: "string \<Rightarrow> bool" where
  "is_plain_number s = (let a = takeWhile is_digit s; r = dropWhile is_digit s in
     if a \<noteq> [] then r = [] \<or> hd r = CHR ''.'' \<and> list_all is_digit (tl r)
     else r \<noteq> [] \<and> hd r = CHR ''.'' \<and> tl r \<noteq> [] \<and> list_all is_digit (tl r))"

definition matches_coordinate :: "string \<Rightarrow> bool" where
  "matches_coordinate s = (let u = drop_sign (drop_tilde s) in u = [] \<or> is_plain_number u)"

definition is_value :: "string \<Rightarrow> bool" where
  "is_value s \<longleftrightarrow> matches_coordinate s \<and> s \<noteq> [] \<and> s \<noteq> ''+'' \<and> s \<noteq> ''-''"

definition outside_world :: py_error where
  "outside_world = LocalizedError ''Area values must be within the world (at most 30000000 from 0)'' []"

definition too_large :: py_error where
  "too_large = LocalizedError ''An area may be at most a radius-{radius} sphere ({cells} blocks)''
     [(''radius'', ''16''), (''cells'', ''17157'')]"

definition area_usage :: "string \<Rightarrow> py_error" where
  "area_usage clause = LocalizedError
     (''{clause} takes an area: '' @ ''<x> <y> <z>, <x1> <y1> <z1> <x2> <y2> <z2>, <r> or <r> of <x> <y> <z>'')
     [(''clause'', clause)]"

definition area_number :: "string \<Rightarrow> py_error + rat" where
  "area_number token = ebind (py_float token) (\<lambda>v. case v of
     Finite r \<Rightarrow> if \<bar>r\<bar> > world_limit then Inl outside_world else Inr r
   | _ \<Rightarrow> Inl outside_world)"

definition is_relative :: "string \<Rightarrow> bool" where
  "is_relative token \<longleftrightarrow> token \<noteq> [] \<and> hd token = CHR ''~''"

definition area_coordinate :: "string \<Rightarrow> py_error + coord" where
  "area_coordinate token =
     (if is_relative token then ebind (area_number (if tl token = [] then ''0'' else tl token)) (\<lambda>r. Inr (relative r))
      else ebind (area_number token) (\<lambda>r. Inr (At r)))"

definition area_radius :: "string \<Rightarrow> string \<Rightarrow> py_error + rat" where
  "area_radius token clause =
     (if is_relative token then Inl (LocalizedError ''An area radius is a plain number, not a ~ coordinate'' [])
      else ebind (area_number token) (\<lambda>r.
        if r \<le> 0 then Inl (LocalizedError ''An area radius must be greater than 0'' [])
        else if clause = ''within'' \<and> r > max_radius then Inl too_large
        else Inr r))"

fun span_of :: "coord \<Rightarrow> coord \<Rightarrow> int option" where
  "span_of (At a) (At b) = Some (\<bar>\<lfloor>a\<rfloor> - \<lfloor>b\<rfloor>\<bar> + 1)"
| "span_of (Tagged t a) (Tagged u b) = Some (\<bar>\<lfloor>a\<rfloor> - \<lfloor>b\<rfloor>\<bar> + 1)"
| "span_of _ _ = None"

text \<open>The loop returns at the first axis that mixes a relative and a plain corner.\<close>

fun check_box :: "coord point \<Rightarrow> coord point \<Rightarrow> py_error + unit" where
  "check_box (a1, a2, a3) (b1, b2, b3) =
     (case (span_of a1 b1, span_of a2 b2, span_of a3 b3) of
        (Some x, Some y, Some z) \<Rightarrow> check (x * y * z \<le> max_cells) too_large
      | _ \<Rightarrow> Inr ())"

definition parse_shape :: "string \<Rightarrow> string list \<Rightarrow> bool \<Rightarrow> py_error + shape" where
  "parse_shape clause vs of_point =
     (if of_point then
        (case vs of
           [r, x, y, z] \<Rightarrow> ebind (area_radius r clause) (\<lambda>q. ebind (epoint area_coordinate (x, y, z)) (\<lambda>p. Inr (Sphere q (Some p))))
         | _ \<Rightarrow> Inl (area_usage clause))
      else
        (case vs of
           [r] \<Rightarrow> ebind (area_radius r clause) (\<lambda>q. Inr (Sphere q None))
         | [x, y, z] \<Rightarrow> ebind (epoint area_coordinate (x, y, z)) (\<lambda>p. Inr (Cell p))
         | [x, y, z, x', y', z'] \<Rightarrow>
             ebind (epoint area_coordinate (x, y, z)) (\<lambda>p. ebind (epoint area_coordinate (x', y', z')) (\<lambda>q.
             ebind (if clause = ''within'' then check_box p q else Inr ()) (\<lambda>_. Inr (Box p q))))
         | _ \<Rightarrow> Inl (area_usage clause)))"

text \<open>The inner loop: the values of one clause, whether \<open>of\<close> stood after the first, and what follows.\<close>

fun take_values :: "string list \<Rightarrow> string list \<Rightarrow> bool \<Rightarrow> string list \<times> bool \<times> string list" where
  "take_values [] vs of_point = (vs, of_point, [])"
| "take_values (t # ts) vs of_point =
     (if is_value t then take_values ts (vs @ [t]) of_point
      else if casefold t = ''of'' \<and> length vs = 1 \<and> \<not> of_point then take_values ts vs True
      else (vs, of_point, t # ts))"

definition is_clause :: "string \<Rightarrow> bool" where
  "is_clause t \<longleftrightarrow> t \<in> {''within'', ''except''}"

definition is_alpha :: "string \<Rightarrow> bool" where
  "is_alpha s \<longleftrightarrow> s \<noteq> [] \<and> list_all (\<lambda>c. (65 \<le> code c \<and> code c \<le> 90) \<or> (97 \<le> code c \<and> code c \<le> 122)) s"

definition names_shape :: "string \<Rightarrow> bool" where
  "names_shape t \<longleftrightarrow> is_alpha t \<and>
     casefold t \<notin> {''for'', ''count'', ''limit'', ''continuous'', ''once'', ''stop'', ''within'', ''except''}"

lemma take_values_shorter: "take_values ts vs f = (ws, g, us) \<Longrightarrow> length us \<le> length ts"
  by (induction ts vs f rule: take_values.induct) (auto split: if_splits)

text \<open>The outer loop, \<open>seen\<close> and the tokens that are no clause carried along.\<close>

function take_clauses :: "bool \<Rightarrow> string list \<Rightarrow> area \<Rightarrow> bool \<Rightarrow> string list \<Rightarrow> py_error + (area option \<times> string list)" where
  "take_clauses chain [] a seen rest = Inr (if seen then Some a else None, rest)"
| "take_clauses chain (t # ts) a seen rest =
     (let clause = casefold t in
      if \<not> is_clause clause then take_clauses chain ts a seen (rest @ [t])
      else if clause = ''within'' \<and> within_shape a \<noteq> None then Inl (LocalizedError ''within can be given once'' [])
      else if clause = ''except'' \<and> except_shapes a \<noteq> [] \<and> \<not> chain
        then Inl (LocalizedError ''except can be given once; scripts chain area:minus()'' [])
      else (case take_values ts [] False of (vs, of_point, us) \<Rightarrow>
        if vs = [] \<and> us \<noteq> [] \<and> names_shape (hd us)
        then Inl (LocalizedError (''Unknown area shape '' @ [CHR 0x27] @ ''{shape}'' @ [CHR 0x27]) [(''shape'', hd us)])
        else ebind (parse_shape clause vs of_point) (\<lambda>s.
          take_clauses chain us
            (if clause = ''within'' then a\<lparr>within_shape := Some s\<rparr> else a\<lparr>except_shapes := except_shapes a @ [s]\<rparr>) True rest)))"
  by pat_completeness auto
termination
  by (relation "measure (\<lambda>(_, ts, _). length ts)") (auto dest: take_values_shorter [OF sym])

definition take_area :: "bool \<Rightarrow> string list \<Rightarrow> py_error + (area option \<times> string list)" where
  "take_area chain tokens = take_clauses chain tokens \<lparr>within_shape = None, except_shapes = []\<rparr> False []"

definition not_built :: py_error where
  "not_built = LocalizedError ''An area must be built with area.cell, area.box or area.sphere'' []"

text \<open>\<open>text.split()\<close>: the words between runs of space.\<close>

function split_space :: "string \<Rightarrow> string list" where
  "split_space s = (let t = dropWhile is_space s in
     if t = [] then [] else takeWhile (\<lambda>c. \<not> is_space c) t # split_space (dropWhile (\<lambda>c. \<not> is_space c) t))"
  by pat_completeness auto
termination
proof (relation "measure length")
  fix s t :: string
  assume t: "t = dropWhile is_space s" "t \<noteq> []"
  then have "\<not> is_space (hd t)" using hd_dropWhile [of is_space s] by simp
  with t(2) have "length (dropWhile (\<lambda>c. \<not> is_space c) t) < length t"
    by (cases t) (auto intro: le_less_trans [OF length_dropWhile_le])
  also have "length t \<le> length s" unfolding t(1) by (rule length_dropWhile_le)
  finally show "(dropWhile (\<lambda>c. \<not> is_space c) t, s) \<in> measure length" by simp
qed simp

declare split_space.simps [simp del]

fun parse_area :: "bool \<Rightarrow> json \<Rightarrow> py_error + area" where
  "parse_area chain (JStr text) =
     (if strip text = [] then Inl not_built
      else ebind (take_area chain (split_space text)) (\<lambda>(a, rest).
        case a of None \<Rightarrow> Inl not_built | Some v \<Rightarrow> if rest \<noteq> [] then Inl not_built else Inr v))"
| "parse_area chain _ = Inl not_built"

section \<open>Canonical text\<close>

text \<open>\<open>repr\<close> of a float that is no integer: its digits with a point, or with an exponent below \<open>10\<^sup>-\<^sup>4\<close>. A double
  has at most 1074 decimals.\<close>

fun places_from :: "nat \<Rightarrow> nat \<Rightarrow> rat \<Rightarrow> nat" where
  "places_from 0 k r = k"
| "places_from (Suc n) k r = (if of_int \<lfloor>r\<rfloor> = r then k else places_from n (Suc k) (10 * r))"

definition pad2 :: "string \<Rightarrow> string" where
  "pad2 s = (if length s < 2 then CHR ''0'' # s else s)"

definition repr_fraction :: "rat \<Rightarrow> string" where
  "repr_fraction r =
     (let k = places_from 1100 0 r; s = show_nat (nat \<lfloor>\<bar>r\<bar> * 10 ^ k\<rfloor>); n = length s in
      (if r < 0 then ''-'' else []) @
      (if n + 4 \<le> k then take 1 s @ (if n = 1 then [] else CHR ''.'' # drop 1 s) @ ''e-'' @ pad2 (show_nat (k - n + 1))
       else if n \<le> k then ''0.'' @ replicate (k - n) (CHR ''0'') @ s
       else take (n - k) s @ CHR ''.'' # drop (n - k) s))"

definition format_number :: "rat \<Rightarrow> string" where
  "format_number r = (if of_int \<lfloor>r\<rfloor> = r then show_int \<lfloor>r\<rfloor> else repr_fraction r)"

fun format_coord :: "coord \<Rightarrow> string" where
  "format_coord (At r) = format_number r"
| "format_coord (Tagged _ r) = (if r = 0 then ''~'' else CHR ''~'' # format_number r)"

fun shape_tokens :: "shape \<Rightarrow> string list" where
  "shape_tokens (Cell p) = map format_coord (point_list p)"
| "shape_tokens (Box p q) = map format_coord (point_list p @ point_list q)"
| "shape_tokens (Sphere r None) = [format_number r]"
| "shape_tokens (Sphere r (Some p)) = [format_number r, ''of''] @ map format_coord (point_list p)"
| "shape_tokens Other_shape = []"

definition area_tokens :: "area \<Rightarrow> string list" where
  "area_tokens a = (case within_shape a of None \<Rightarrow> [] | Some s \<Rightarrow> ''within'' # shape_tokens s) @
     concat (map (\<lambda>s. ''except'' # shape_tokens s) (except_shapes a))"

definition area_text :: "area \<Rightarrow> string" where
  "area_text a = join_with '' '' (area_tokens a)"

section \<open>Resolution and membership\<close>

fun resolve_coord :: "coord \<Rightarrow> rat \<Rightarrow> py_error + rat" where
  "resolve_coord (At r) base = Inr r"
| "resolve_coord (Tagged t r) base =
     (if t \<noteq> ''relative'' then Inl (LocalizedError ''Invalid area coordinate'' []) else Inr (base + r))"

definition resolve_point :: "coord point \<Rightarrow> rat point \<Rightarrow> py_error + rat point" where
  "resolve_point p base = ebind (epoint id (with_points resolve_coord p base)) (\<lambda>q.
     if all_point (\<lambda>v. \<bar>v\<bar> \<le> world_limit) q then Inr q else Inl outside_world)"

definition floors :: "rat point \<Rightarrow> int point" where
  "floors = on_point floor"

definition cell_coord :: "int \<Rightarrow> coord" where
  "cell_coord i = At (of_int i)"

fun resolve_shape :: "shape \<Rightarrow> rat point \<Rightarrow> bool \<Rightarrow> py_error + shape" where
  "resolve_shape (Cell p) base inside = ebind (resolve_point p base) (\<lambda>q. Inr (Cell (on_point cell_coord (floors q))))"
| "resolve_shape (Box p q) base inside =
     ebind (resolve_point p base) (\<lambda>a. ebind (resolve_point q base) (\<lambda>b.
       let low = with_points min (floors a) (floors b); high = with_points max (floors a) (floors b) in
       if inside \<and> product (with_points (\<lambda>l h. h - l + 1) low high) > max_cells then Inl too_large
       else Inr (Box (on_point cell_coord low) (on_point cell_coord high))))"
| "resolve_shape (Sphere r p) base inside =
     (if r \<le> 0 \<or> inside \<and> r > max_radius then Inl (LocalizedError ''Invalid area radius'' [])
      else ebind (resolve_point (case p of None \<Rightarrow> (relative 0, relative 0, relative 0) | Some q \<Rightarrow> q) base) (\<lambda>c.
        Inr (Sphere r (Some (on_point At c)))))"
| "resolve_shape Other_shape base inside = Inl (LocalizedError ''Invalid area'' [])"

definition resolve_area :: "area \<Rightarrow> rat point \<Rightarrow> py_error + area" where
  "resolve_area a base =
     ebind (case within_shape a of None \<Rightarrow> Inr None | Some s \<Rightarrow> ebind (resolve_shape s base True) (\<lambda>s'. Inr (Some s'))) (\<lambda>w.
     ebind (emap (\<lambda>s. resolve_shape s base False) (except_shapes a)) (\<lambda>es.
       Inr \<lparr>within_shape = w, except_shapes = es\<rparr>))"

text \<open>The number of a resolved coordinate.\<close>

fun number_of :: "coord \<Rightarrow> rat" where
  "number_of (At r) = r"
| "number_of (Tagged _ r) = r"

definition numbers_of :: "coord point \<Rightarrow> rat point" where
  "numbers_of = on_point number_of"

definition square :: "rat \<Rightarrow> rat" where
  "square x = x * x"

fun sum_point :: "rat point \<Rightarrow> rat" where
  "sum_point (x, y, z) = x + y + z"

text \<open>Resolved shapes only: the others have no number to compare with.\<close>

fun shape_contains :: "shape \<Rightarrow> int point \<Rightarrow> bool" where
  "shape_contains (Cell p) c = (on_point of_int c = numbers_of p)"
| "shape_contains (Box p q) c =
     (all_point id (with_points (\<le>) (numbers_of p) (on_point of_int c)) \<and>
      all_point id (with_points (\<le>) (on_point of_int c) (numbers_of q)))"
| "shape_contains (Sphere r (Some p)) c =
     (sum_point (on_point square (with_points (-) (numbers_of p) (on_point (\<lambda>v. of_int v + 1 / 2) c))) \<le> square r)"
| "shape_contains _ c = False"

fun contains :: "area option \<Rightarrow> int point \<Rightarrow> bool" where
  "contains None c = True"
| "contains (Some a) c =
     ((case within_shape a of None \<Rightarrow> True | Some s \<Rightarrow> shape_contains s c) \<and>
      \<not> list_ex (\<lambda>s. shape_contains s c) (except_shapes a))"

fun shape_bounds :: "shape \<Rightarrow> (int point \<times> int point) option" where
  "shape_bounds (Cell p) = Some (floors (numbers_of p), floors (numbers_of p))"
| "shape_bounds (Box p q) = Some (floors (numbers_of p), floors (numbers_of q))"
| "shape_bounds (Sphere r (Some p)) =
     Some (on_point (\<lambda>v. \<lfloor>v - r - 1 / 2\<rfloor>) (numbers_of p), on_point (\<lambda>v. \<lfloor>v + r - 1 / 2\<rfloor>) (numbers_of p))"
| "shape_bounds _ = None"

definition bounds :: "area option \<Rightarrow> (int point \<times> int point) option" where
  "bounds a = (case a of None \<Rightarrow> None | Some v \<Rightarrow> Option.bind (within_shape v) shape_bounds)"

text \<open>The three nested loops.\<close>

fun grid :: "int point \<Rightarrow> int point \<Rightarrow> int point list" where
  "grid (x1, y1, z1) (x2, y2, z2) = List.product [x1..x2] (List.product [y1..y2] [z1..z2])"

definition cells :: "area \<Rightarrow> py_error + int point list" where
  "cells a = (case bounds (Some a) of
     None \<Rightarrow> Inl (TypeError ''cannot unpack non-iterable NoneType object'')
   | Some (low, high) \<Rightarrow> Inr (filter (contains (Some a)) (grid low high)))"

fun is_tagged :: "coord \<Rightarrow> bool" where
  "is_tagged (Tagged _ _) = True"
| "is_tagged (At _) = False"

fun shape_relative :: "shape \<Rightarrow> bool" where
  "shape_relative (Cell p) = list_ex is_tagged (point_list p)"
| "shape_relative (Box p q) = list_ex is_tagged (point_list p @ point_list q)"
| "shape_relative (Sphere r None) = True"
| "shape_relative (Sphere r (Some p)) = list_ex is_tagged (point_list p)"
| "shape_relative Other_shape = False"

fun has_relative :: "area option \<Rightarrow> bool" where
  "has_relative None = False"
| "has_relative (Some a) = list_ex shape_relative ((case within_shape a of None \<Rightarrow> [] | Some s \<Rightarrow> [s]) @ except_shapes a)"

end
