(* ===== verification/Command_Clauses.thy ===== *)
theory Command_Clauses
  imports Areas
begin

text \<open>
  The words of a \<open>/bot\<close> command and the clauses they form, from \<open>endbot_core/commands.py\<close>: splitting arguments
  into tokens, numbers, coordinates, block types, entity selectors, and the clauses of actions, placements
  and teleports. A parsed command is a \<open>bot_command\<close> whose parameters are a JSON dictionary: numbers are
  floats, a relative coordinate is the pair of \<open>'relative'\<close> and its offset, an area its dictionary.
\<close>

record bot_command =
  op_name :: string
  op_bot :: "string option"
  op_params :: "(string, json) dict"

definition bot_command :: "string \<Rightarrow> string \<Rightarrow> (string, json) dict \<Rightarrow> bot_command" where
  "bot_command operation name ps = \<lparr>op_name = operation, op_bot = Some name, op_params = ps\<rparr>"

text \<open>\<open>CommandSyntaxError\<close> is a \<open>LocalizedError\<close>; \<open>plain_error\<close> has no parameters.\<close>

abbreviation syntax_error :: "string \<Rightarrow> (string \<times> string) list \<Rightarrow> py_error" where
  "syntax_error \<equiv> LocalizedError"

abbreviation plain_error :: "string \<Rightarrow> py_error" where
  "plain_error t \<equiv> LocalizedError t []"

text \<open>\<open>except ValueError: raise CommandSyntaxError\<close>.\<close>

fun or_error :: "py_error + 'a \<Rightarrow> py_error \<Rightarrow> py_error + 'a" where
  "or_error (Inl e) d = Inl d"
| "or_error (Inr x) d = Inr x"

section \<open>Areas in a command\<close>

fun coord_json :: "coord \<Rightarrow> json" where
  "coord_json (At r) = JFloat (Finite r)"
| "coord_json (Tagged t r) = JArr [JStr t, JFloat (Finite r)]"

definition point_json :: "coord point \<Rightarrow> json" where
  "point_json p = JArr (map coord_json (point_list p))"

fun shape_json :: "shape \<Rightarrow> json" where
  "shape_json (Cell p) = JObj [(''shape'', JStr ''cell''), (''at'', point_json p)]"
| "shape_json (Box p q) = JObj [(''shape'', JStr ''box''), (''from'', point_json p), (''to'', point_json q)]"
| "shape_json (Sphere r p) = JObj ([(''shape'', JStr ''sphere''), (''radius'', JFloat (Finite r))] @
     (case p of None \<Rightarrow> [] | Some c \<Rightarrow> [(''at'', point_json c)]))"
| "shape_json Other_shape = JObj []"

definition area_json :: "area \<Rightarrow> json" where
  "area_json a = JObj [(''within'', case within_shape a of None \<Rightarrow> JNull | Some s \<Rightarrow> shape_json s),
     (''except'', JArr (map shape_json (except_shapes a)))]"

text \<open>The message lists the operations an area applies to.\<close>

definition area_targets :: py_error where
  "area_targets = plain_error (''An area applies to a block type (blocks, destroy and interact <type>) '' @
     ''or to destroy continuous'')"

definition with_area :: "bot_command \<Rightarrow> area \<Rightarrow> py_error + bot_command" where
  "with_area c a =
     (let typed = ''blockType'' \<in> set (keys (op_params c));
          loop = op_name c = ''destroy'' \<and> dict_get (op_params c) ''mode'' JNull = JStr ''continuous'' in
      if op_name c \<notin> {''destroy'', ''interact''} \<or> \<not> (typed \<or> loop) then Inl area_targets
      else Inr (c\<lparr>op_params := dict_set ''area'' (area_json a) (op_params c)\<rparr>))"

section \<open>Tokens\<close>

text \<open>\<open>~~-1~\<close> is three relative coordinates: two or three pieces, each from one \<open>~\<close> to the next.\<close>

fun tilde_pieces :: "string \<Rightarrow> string list" where
  "tilde_pieces [] = []"
| "tilde_pieces (c # cs) = (case tilde_pieces cs of
     [] \<Rightarrow> [[c]]
   | p # ps \<Rightarrow> if p \<noteq> [] \<and> hd p = CHR ''~'' then [c] # p # ps else (c # p) # ps)"

definition relative_part :: "string \<Rightarrow> bool" where
  "relative_part s \<longleftrightarrow> s \<noteq> [] \<and> hd s = CHR ''~'' \<and> matches_coordinate s"

definition expand_relative :: "string \<Rightarrow> string list" where
  "expand_relative t = (let ps = tilde_pieces t in
     if length ps \<in> {2, 3} \<and> list_all relative_part ps then ps else [t])"

definition tokens_of :: "string list \<Rightarrow> py_error + string list" where
  "tokens_of args =
     ebind (emap (\<lambda>a. if list_ex is_space a then shlex_split a else Inr [a]) args)
       (\<lambda>tss. Inr (concat (map expand_relative (concat tss))))"

section \<open>Values\<close>

definition finite_number :: "string \<Rightarrow> string \<Rightarrow> py_error + number" where
  "finite_number v label =
     ebind (or_error (py_float v) (syntax_error ''{label} must be a number'' [(''label'', label)])) (\<lambda>n.
       case n of Finite r \<Rightarrow> Inr n | _ \<Rightarrow> Inl (syntax_error ''{label} must be finite'' [(''label'', label)]))"

definition coordinate :: "string \<Rightarrow> py_error + json" where
  "coordinate v =
     (if is_relative v
      then ebind (finite_number (if tl v = [] then ''0'' else tl v) ''relative coordinate'')
             (\<lambda>n. Inr (JArr [JStr ''relative'', JFloat n]))
      else ebind (finite_number v ''coordinate'') (\<lambda>n. Inr (JFloat n)))"

definition is_id_char :: "char \<Rightarrow> bool" where
  "is_id_char c \<longleftrightarrow> (97 \<le> code c \<and> code c \<le> 122) \<or> is_digit c \<or> c \<in> set ''_.-''"

definition is_path_char :: "char \<Rightarrow> bool" where
  "is_path_char c \<longleftrightarrow> is_id_char c \<or> c = CHR ''/''"

text \<open>\<open>[a-z0-9_.-]+:[a-z0-9_./-]+\<close> as a whole match.\<close>

definition is_identifier :: "string \<Rightarrow> bool" where
  "is_identifier s = (let a = takeWhile (\<lambda>c. c \<noteq> CHR '':'') s; r = dropWhile (\<lambda>c. c \<noteq> CHR '':'') s in
     a \<noteq> [] \<and> list_all is_id_char a \<and> r \<noteq> [] \<and> tl r \<noteq> [] \<and> list_all is_path_char (tl r))"

definition namespaced :: "string \<Rightarrow> string" where
  "namespaced s = (if CHR '':'' \<in> set s then s else ''minecraft:'' @ s)"

definition block_type :: "string \<Rightarrow> py_error + string" where
  "block_type raw = (let t = namespaced (casefold raw) in
     if is_identifier t then Inr t else Inl (plain_error ''Invalid block type''))"

text \<open>\<open>@\<close> selectors: the nearest entity, a runtime id, or a type.\<close>

definition entity_selector :: "string \<Rightarrow> py_error + (string, json) dict" where
  "entity_selector raw =
     (let s = casefold raw; t = namespaced s in
      if s = ''nearest'' then Inr [(''entity'', JStr ''nearest'')]
      else if isdecimal s \<and> length s \<le> 19
        then Inr [(''entity'', JStr ''id''), (''runtimeId'', JStr (show_nat (decimal s)))]
      else if is_identifier t then Inr [(''entity'', JStr ''type''), (''type'', JStr t)]
      else Inl (plain_error ''Invalid entity type''))"

definition is_selector :: "string \<Rightarrow> bool" where
  "is_selector s \<longleftrightarrow> s \<noteq> [] \<and> hd s = CHR ''@''"

definition target_token :: "string \<Rightarrow> py_error + (string, json) dict" where
  "target_token raw =
     (if is_selector raw then entity_selector (tl raw)
      else if isdecimal raw then Inl (syntax_error (''Entities take @: use @'' @ ''{id}'') [(''id'', raw)])
      else ebind (block_type raw) (\<lambda>t. Inr [(''blockType'', JStr t)]))"

definition runtime_selector :: "(string, json) dict \<Rightarrow> (string, json) dict" where
  "runtime_selector ps = concat (map (\<lambda>k. case map_of ps k of None \<Rightarrow> [] | Some v \<Rightarrow> [(k, v)]) [''runtimeId'', ''type''])"

definition is_coordinate :: "string \<Rightarrow> bool" where
  "is_coordinate v \<longleftrightarrow> matches_coordinate v \<and> v \<noteq> [] \<and> v \<noteq> ''+'' \<and> v \<noteq> ''-''"

definition position :: "string list \<Rightarrow> py_error + ((string, json) dict \<times> string list)" where
  "position ts =
     (if length ts < 3 then Inl (plain_error ''Expected x y z coordinates'')
      else ebind (emap coordinate (take 3 ts)) (\<lambda>cs. Inr ([(''coordinates'', JArr cs)], drop 3 ts)))"

fun placement_clauses :: "string list \<Rightarrow> (string, json) dict \<Rightarrow> py_error + (string, json) dict" where
  "placement_clauses [] ps = Inr ps"
| "placement_clauses (t # ts) ps =
     (case (casefold t, ts) of
        (c, yaw # pitch # us) \<Rightarrow>
          (if c = ''facing'' then
             ebind (finite_number yaw ''yaw'') (\<lambda>y. ebind (finite_number pitch ''pitch'') (\<lambda>p.
               placement_clauses us (dict_set ''rotation'' (JArr [JFloat y, JFloat p]) ps)))
           else if c = ''in'' then placement_clauses (pitch # us) (dict_set ''dimension'' (JStr yaw) ps)
           else Inl (plain_error ''Spawn syntax: at <x> <y> <z> [facing <yaw> <pitch>] [in <dimension>]''))
      | (c, [d]) \<Rightarrow>
          (if c = ''in'' then placement_clauses [] (dict_set ''dimension'' (JStr d) ps)
           else Inl (plain_error ''Spawn syntax: at <x> <y> <z> [facing <yaw> <pitch>] [in <dimension>]''))
      | _ \<Rightarrow> Inl (plain_error ''Spawn syntax: at <x> <y> <z> [facing <yaw> <pitch>] [in <dimension>]''))"

definition placement :: "string list \<Rightarrow> py_error + (string, json) dict" where
  "placement ts = ebind (position ts) (\<lambda>(ps, rest). placement_clauses rest ps)"

definition ticks :: "string \<Rightarrow> string \<Rightarrow> py_error + int" where
  "ticks v label =
     ebind (or_error (py_int v) (syntax_error ''{label} must be an integer number of ticks'' [(''label'', label)])) (\<lambda>n.
       if 1 \<le> n \<and> n \<le> 72000 then Inr n
       else Inl (syntax_error ''{label} must be between 1 and 72000 ticks'' [(''label'', label)]))"

definition blocks :: "string \<Rightarrow> string \<Rightarrow> py_error + int" where
  "blocks v label =
     ebind (or_error (py_int v) (syntax_error ''{label} must be an integer number of blocks'' [(''label'', label)])) (\<lambda>n.
       if 1 \<le> n \<and> n \<le> 72000 then Inr n
       else Inl (syntax_error ''{label} must be between 1 and 72000 blocks'' [(''label'', label)]))"

section \<open>Actions\<close>

definition tick_clause :: "string \<Rightarrow> (string \<times> string) option" where
  "tick_clause = map_of [(''interval'', ''intervalTicks'', ''Action interval''), (''hold'', ''holdTicks'', ''Hold''),
     (''for'', ''durationTicks'', ''Duration'')]"

definition action_usage :: "string \<Rightarrow> py_error" where
  "action_usage action = syntax_error ''{action} accepts [once|continuous|interval <ticks>|stop]{hold} [for <ticks>]''
     [(''action'', action), (''hold'', if action = ''use'' then '' [hold <ticks>]'' else [])]"

fun action_clauses :: "string \<Rightarrow> string list \<Rightarrow> (string, int) dict \<Rightarrow> py_error + (string, int) dict" where
  "action_clauses action [] ps = Inr ps"
| "action_clauses action [c] ps = Inl (action_usage action)"
| "action_clauses action (c # v # ts) ps =
     (case tick_clause c of
        None \<Rightarrow> Inl (action_usage action)
      | Some (key, label) \<Rightarrow>
          if c = ''hold'' \<and> action \<noteq> ''use'' \<or> key \<in> set (keys ps) then Inl (action_usage action)
          else ebind (ticks v label) (\<lambda>n. action_clauses action ts (dict_set key n ps)))"

definition action_command :: "string \<Rightarrow> string \<Rightarrow> string list \<Rightarrow> py_error + bot_command" where
  "action_command name action remaining =
     (let ts = map casefold remaining;
          given = (if ts \<noteq> [] \<and> hd ts \<in> {''once'', ''continuous'', ''stop''} then Some (hd ts) else None) in
      ebind (action_clauses action (if given = None then ts else tl ts) []) (\<lambda>ps.
      if given = Some ''stop'' \<and> ps \<noteq> [] then Inl (syntax_error ''{action} stop takes no ticks'' [(''action'', action)])
      else if ''intervalTicks'' \<in> set (keys ps) \<and> given \<noteq> None
        then Inl (syntax_error ''{action} interval replaces once/continuous'' [(''action'', action)])
      else (let mode = (if ''intervalTicks'' \<in> set (keys ps) then ''interval''
                        else case given of Some m \<Rightarrow> m
                             | None \<Rightarrow> if ''durationTicks'' \<in> set (keys ps) then ''continuous'' else ''once'') in
        if mode = ''once'' \<and> ''durationTicks'' \<in> set (keys ps)
          then Inl (syntax_error ''{action} once runs one time; use continuous or interval with for <ticks>'' [(''action'', action)])
        else if (case map_of ps ''intervalTicks'' of None \<Rightarrow> False | Some i \<Rightarrow> i \<le> dict_get ps ''holdTicks'' 0)
          then Inl (plain_error ''Use interval must be longer than hold'')
        else Inr (bot_command ''action'' name
          ([(''action'', JStr action), (''mode'', JStr mode)] @ map (\<lambda>(k, n). (k, JInt n)) ps)))))"

definition repeat_usage :: "string \<Rightarrow> py_error" where
  "repeat_usage action = syntax_error ''Repeat {action} @<entity> with continuous, interval <ticks>, for <ticks> or count <n>''
     [(''action'', action)]"

text \<open>The \<open>count\<close> clause: its value, and the tokens without it.\<close>

definition take_count :: "string \<Rightarrow> string list \<Rightarrow> py_error + (int option \<times> string list)" where
  "take_count operation ts =
     (let i = length (takeWhile (\<lambda>t. casefold t \<noteq> ''count'') ts) in
      if i = length ts then Inr (None, ts)
      else if length ts \<le> i + 1 \<or> ''count'' \<in> set (map casefold (drop (i + 1) ts)) then Inl (repeat_usage operation)
      else if \<not> isdecimal (ts ! (i + 1)) then Inl (plain_error ''Count must be an integer from 1 to 10000'')
      else ebind (py_int (ts ! (i + 1))) (\<lambda>n.
        if 1 \<le> n \<and> n \<le> 10000 then Inr (Some n, take i ts @ drop (i + 2) ts)
        else Inl (plain_error ''Count must be an integer from 1 to 10000'')))"

definition targeted_action :: "string \<Rightarrow> string \<Rightarrow> string list \<Rightarrow> py_error + bot_command" where
  "targeted_action name operation remaining =
     ebind (entity_selector (tl (hd remaining))) (\<lambda>sel.
     let ts = tl remaining; modes = map casefold ts in
     if ts = [] \<or> modes = [''once''] then Inr (bot_command operation name sel)
     else if modes = [''stop''] then Inr (bot_command ''action'' name [(''action'', JStr operation), (''mode'', JStr ''stop'')])
     else ebind (take_count operation ts) (\<lambda>(count, us).
       ebind (action_command name operation (if count \<noteq> None \<and> us = [] then [''continuous''] else us)) (\<lambda>c.
         if dict_get (op_params c) ''mode'' JNull \<in> {JStr ''once'', JStr ''stop''} then Inl (repeat_usage operation)
         else Inr (bot_command ''action'' name (op_params c @ [(''target'', JObj (runtime_selector sel))] @
           (case count of None \<Rightarrow> [] | Some n \<Rightarrow> [(''count'', JInt n)]))))))"

section \<open>Teleport\<close>

definition teleport_suffix :: "string list \<Rightarrow> (string, json) dict \<Rightarrow> py_error + (string, json) dict" where
  "teleport_suffix rest ps =
     (if length rest = 2 \<and> casefold (hd rest) \<noteq> ''facing'' then
        ebind (finite_number (rest ! 0) ''yaw'') (\<lambda>y. ebind (finite_number (rest ! 1) ''pitch'') (\<lambda>p.
          Inr (dict_set ''rotation'' (JArr [JFloat y, JFloat p]) ps)))
      else if rest \<noteq> [] \<and> casefold (hd rest) = ''facing'' then
        (if length (tl rest) = 1 then Inr (dict_set ''facingTarget'' (JStr (rest ! 1)) ps)
         else if length (tl rest) = 3
           then ebind (emap coordinate (tl rest)) (\<lambda>cs. Inr (dict_set ''facingCoordinates'' (JArr cs) ps))
         else Inl (plain_error ''facing requires a player or x y z''))
      else if rest \<noteq> [] then Inl (plain_error ''Invalid teleport suffix'')
      else Inr ps)"

definition teleport :: "string \<Rightarrow> string list \<Rightarrow> py_error + bot_command" where
  "teleport name ts =
     (if ts = [] then Inl (plain_error ''Teleport requires a player or destination'')
      else if casefold (hd ts) = ''in'' \<and> length ts < 5
        then Inl (plain_error ''Teleport dimension syntax: in <dimension> <x> <y> <z>'')
      else (let (dimension, us) = (if casefold (hd ts) = ''in'' then (ts ! 1, drop 2 ts) else ([], ts)) in
        if length us = 1 then Inr (bot_command ''teleport'' name [(''target'', JStr (hd us))])
        else ebind (position us) (\<lambda>(ps, rest).
          ebind (teleport_suffix rest (if dimension \<noteq> [] then dict_set ''dimension'' (JStr dimension) ps else ps)) (\<lambda>qs.
            Inr (bot_command ''teleport'' name qs)))))"

end
