(* ===== verification/Command_Parser.thy ===== *)
theory Command_Parser
  imports Command_Clauses Ownership
begin

text \<open>
  \<open>parse_command\<close> of \<open>endbot_core/commands.py\<close>, one definition per operation. The typed areas of a script
  (\<open>typed_areas\<close>) are the flag \<open>chain\<close>. The source calls itself for \<open>destroy\<close> and \<open>interact\<close> on fewer
  words; here the call is the argument \<open>again\<close> and its depth is bounded by the characters of the
  command, which are shown to be enough.
\<close>

text \<open>The keys of \<open>operations.json\<close> (\<open>OPERATIONS\<close>) and \<open>ALIASES\<close>.\<close>

definition operations :: "string list" where
  "operations = [''status'', ''inventory'', ''entities'', ''entity'', ''target'', ''block'', ''blocks'', ''resume'', ''reconnect'',
     ''despawn'', ''forget'', ''visibility'', ''stop'', ''dismount'', ''menu'', ''spawn'', ''rename'', ''owner'', ''tp'', ''move'',
     ''look'', ''swap'', ''hold'', ''hotbar'', ''radius'', ''interact'', ''destroy'', ''drop'', ''jump'', ''attack'', ''use'',
     ''sprint'', ''sneak'', ''list'', ''ping'', ''help'']"

definition alias_of :: "string \<Rightarrow> string" where
  "alias_of op = (if op = ''teleport'' then ''tp'' else op)"

definition unknown_action :: "string \<Rightarrow> py_error" where
  "unknown_action op = syntax_error ''Unknown or invalid Bot action: {operation}'' [(''operation'', op)]"

section \<open>Help, list and menu\<close>

definition help_topics :: "string list" where
  "help_topics = [''spawn'', ''resume'', ''reconnect'', ''despawn'', ''forget'', ''rename'', ''visibility'', ''owner'', ''status'',
     ''teleport'', ''move'', ''look'', ''jump'', ''attack'', ''use'', ''sprint'', ''sneak'', ''hotbar'', ''swap'', ''hold'',
     ''inventory'', ''radius'', ''interact'', ''entities'', ''entity'', ''target'', ''block'', ''blocks'', ''dismount'',
     ''destroy'', ''drop'', ''stop'', ''ping'', ''list'', ''menu'', ''area'', ''help'']"

definition help_pages :: "string list list" where
  "help_pages =
     [[''spawn'', ''resume'', ''reconnect'', ''despawn'', ''status'', ''teleport''],
      [''move'', ''look'', ''jump'', ''attack'', ''use'', ''sprint'', ''sneak'', ''stop''],
      [''inventory'', ''hotbar'', ''swap'', ''hold'', ''interact'', ''destroy'', ''drop'', ''radius'', ''rename'', ''forget'',
       ''visibility'', ''owner''],
      [''entities'', ''entity'', ''target'', ''block'', ''blocks'', ''dismount'']]"

definition root_command :: "string \<Rightarrow> (string, json) dict \<Rightarrow> bot_command" where
  "root_command op ps = \<lparr>op_name = op, op_bot = None, op_params = ps\<rparr>"

definition help_topic :: "string \<Rightarrow> py_error + bot_command" where
  "help_topic raw =
     (let t = casefold raw; key = (if t = ''tp'' then ''teleport'' else t) in
      if t = ''advanced'' then Inr (root_command ''help'' [(''page'', JInt (int (length help_pages)))])
      else if isdecimal t then
        ebind (py_int t) (\<lambda>page.
          if 1 \<le> page \<and> page \<le> int (length help_pages) then Inr (root_command ''help'' [(''page'', JInt page)])
          else Inl (syntax_error ''Help page must be from 1 to {total}'' [(''total'', show_nat (length help_pages))]))
      else if key \<in> set help_topics then Inr (root_command ''help'' [(''topic'', JStr key)])
      else Inl (syntax_error (''Unknown help topic '' @ [CHR 0x27] @ ''{topic}'' @ [CHR 0x27] @
        ''. Use /bot help <page> or /bot help <command>'') [(''topic'', raw)]))"

text \<open>The commands that name no Bot, and a bare name.\<close>

definition parse_short :: "string list \<Rightarrow> (py_error + bot_command) option" where
  "parse_short ts =
     (if ts = [] then Some (Inr (root_command ''menu'' [(''default'', JBool True)]))
      else (let first = casefold (hd ts); n = length ts in
        if first = ''ping'' \<and> n = 1 then Some (Inr (root_command ''ping'' []))
        else if first = ''help'' then
          Some (if n = 1 then Inr (root_command ''help'' [(''page'', JInt 1)])
                else if n = 2 then help_topic (ts ! 1)
                else Inl (plain_error ''Use /bot help <page> or /bot help <command>''))
        else if first = ''list'' \<and> n = 1 then Some (Inr (root_command ''list'' []))
        else if first = ''menu'' \<and> n = 1 then Some (Inr (root_command ''menu'' []))
        else if n = 1 then Some (Inr (bot_command ''menu'' (hd ts) []))
        else None))"

section \<open>One operation each\<close>

definition bare_operations :: "string set" where
  "bare_operations = {''status'', ''inventory'', ''entities'', ''entity'', ''target'', ''resume'', ''reconnect'', ''despawn'',
     ''forget'', ''stop'', ''menu'', ''dismount''}"

definition parse_spawn :: "string \<Rightarrow> string list \<Rightarrow> py_error + bot_command" where
  "parse_spawn name rest =
     (if rest = [] then Inr (bot_command ''spawn'' name [])
      else if casefold (hd rest) = ''at'' then ebind (placement (tl rest)) (\<lambda>ps. Inr (bot_command ''spawn'' name ps))
      else Inl (plain_error ''Spawn accepts no arguments or: at <x> <y> <z> ...''))"

definition parse_visibility :: "string \<Rightarrow> string list \<Rightarrow> py_error + bot_command" where
  "parse_visibility name rest =
     (if length rest \<noteq> 1 \<or> \<not> is_visibility (casefold (hd rest))
      then Inl (plain_error ''Use visibility shared or visibility private'')
      else Inr (bot_command ''visibility'' name [(''visibility'', JStr (casefold (hd rest)))]))"

definition parse_move :: "string \<Rightarrow> string list \<Rightarrow> py_error + bot_command" where
  "parse_move name rest =
     (if rest = [] \<or> casefold (hd rest) \<notin> {''forward'', ''backward'', ''left'', ''right'', ''stop''}
      then Inl (unknown_action ''move'')
      else (let direction = casefold (hd rest) in
        if length rest = 1 then Inr (bot_command ''move'' name [(''direction'', JStr direction)])
        else if length rest = 3 \<and> casefold (rest ! 1) = ''for'' \<and> direction \<noteq> ''stop''
          then ebind (ticks (rest ! 2) ''Duration'') (\<lambda>n.
            Inr (bot_command ''move'' name [(''direction'', JStr direction), (''durationTicks'', JInt n)]))
        else Inl (plain_error ''move accepts forward|backward|left|right [for <ticks>], or stop'')))"

definition parse_look :: "string \<Rightarrow> string list \<Rightarrow> py_error + bot_command" where
  "parse_look name rest =
     (if length rest = 2 then
        ebind (finite_number (rest ! 0) ''yaw'') (\<lambda>y. ebind (finite_number (rest ! 1) ''pitch'') (\<lambda>p.
          Inr (bot_command ''look'' name [(''yaw'', JFloat y), (''pitch'', JFloat p)])))
      else if length rest = 4 \<and> casefold (hd rest) = ''at'' then
        ebind (emap coordinate (tl rest)) (\<lambda>cs. Inr (bot_command ''look'' name [(''targetCoordinates'', JArr cs)]))
      else Inl (unknown_action ''look''))"

definition slot_names :: "string list" where
  "slot_names = map show_nat [1..<37]"

definition parse_swap :: "string \<Rightarrow> string list \<Rightarrow> py_error + bot_command" where
  "parse_swap name rest =
     (if length rest \<noteq> 2 then Inl (plain_error ''Use swap <a> <b>'')
      else if \<not> list_all (\<lambda>v. v \<in> set slot_names) rest then Inl (plain_error ''Inventory slots must be from 1 to 36'')
      else (let a = decimal (rest ! 0); b = decimal (rest ! 1) in
        if a = b then Inl (plain_error ''Swap requires two different slots'')
        else Inr (bot_command ''swap'' name [(''a'', JInt (int a)), (''b'', JInt (int b))])))"

definition parse_hold :: "string \<Rightarrow> string list \<Rightarrow> py_error + bot_command" where
  "parse_hold name rest =
     (if length rest \<noteq> 1 then Inl (plain_error ''Use hold <item>'')
      else (let item = hd rest; body = (if starts_with ''minecraft:'' item then drop 10 item else item) in
        if body = [] \<or> \<not> list_all is_path_char body then Inl (plain_error ''Invalid hold item identifier'')
        else Inr (bot_command ''hold'' name [(''item'', JStr item)])))"

definition parse_hotbar :: "string \<Rightarrow> string list \<Rightarrow> py_error + bot_command" where
  "parse_hotbar name rest =
     (if rest = [] then Inr (bot_command ''hotbar'' name [])
      else if length rest = 1 then
        ebind (or_error (py_int (hd rest)) (plain_error ''Hotbar slot must be an integer from 1 to 9'')) (\<lambda>n.
          if 1 \<le> n \<and> n \<le> 9 then Inr (bot_command ''hotbar'' name [(''slot'', JInt n)])
          else Inl (plain_error ''Hotbar slot must be from 1 to 9''))
      else Inl (unknown_action ''hotbar''))"

definition radius_usage :: py_error where
  "radius_usage = plain_error ''radius accepts an integer from 2 to 32, or default''"

definition parse_radius :: "string \<Rightarrow> string list \<Rightarrow> py_error + bot_command" where
  "parse_radius name rest =
     (if rest = [] then Inr (bot_command ''radius'' name [])
      else if length rest \<noteq> 1 then Inl radius_usage
      else if casefold (hd rest) = ''default'' then Inr (bot_command ''radius'' name [(''value'', JStr ''default'')])
      else ebind (or_error (py_int (hd rest)) radius_usage) (\<lambda>n.
        if 2 \<le> n \<and> n \<le> 32 then Inr (bot_command ''radius'' name [(''value'', JInt n)])
        else Inl (plain_error ''Chunk radius must be from 2 to 32'')))"

definition parse_block :: "string \<Rightarrow> string list \<Rightarrow> py_error + bot_command" where
  "parse_block name rest =
     (if length rest \<noteq> 3 then Inl (plain_error ''Use block <x> <y> <z>'')
      else ebind (position rest) (\<lambda>(ps, _). Inr (bot_command ''block'' name ps)))"

definition blocks_usage :: py_error where
  "blocks_usage = plain_error ''Use blocks <type> [limit <1-64>] [within <area>] [except <area>]''"

definition bad_limit :: py_error where
  "bad_limit = syntax_error ''{clause} must be an integer from {low} to {high}''
     [(''clause'', ''limit''), (''low'', ''1''), (''high'', ''64'')]"

text \<open>\<open>[limit <1-64>]\<close> after the type.\<close>

definition blocks_limit :: "string list \<Rightarrow> py_error + int" where
  "blocks_limit ts =
     (if ts = [] then Inr 10
      else if length ts \<noteq> 2 \<or> casefold (hd ts) \<noteq> ''limit'' then Inl blocks_usage
      else if \<not> isdecimal (ts ! 1) then Inl bad_limit
      else ebind (py_int (ts ! 1)) (\<lambda>n. if 1 \<le> n \<and> n \<le> 64 then Inr n else Inl bad_limit))"

definition parse_blocks :: "bool \<Rightarrow> string \<Rightarrow> string list \<Rightarrow> py_error + bot_command" where
  "parse_blocks chain name rest =
     (if list_ex (\<lambda>t. casefold t \<in> {''radius'', ''at''}) (tl rest)
      then Inl (plain_error ''blocks radius and at were replaced by areas: use blocks <type> within <r> [of <x> <y> <z>]'')
      else ebind (take_area chain rest) (\<lambda>(a, ts).
        if ts = [] then Inl blocks_usage
        else ebind (block_type (hd ts)) (\<lambda>t. ebind (blocks_limit (tl ts)) (\<lambda>n.
          Inr (bot_command ''blocks'' name ([(''type'', JStr t), (''limit'', JInt n)] @
            (case a of None \<Rightarrow> [] | Some v \<Rightarrow> [(''area'', area_json v)])))))))"

definition parse_entity :: "string \<Rightarrow> string list \<Rightarrow> py_error + bot_command" where
  "parse_entity name rest =
     (if length rest \<noteq> 1 then Inl (unknown_action ''entity'')
      else if \<not> is_selector (hd rest) then Inl (plain_error ''Use entity @<type|id|nearest>'')
      else ebind (entity_selector (tl (hd rest))) (\<lambda>ps. Inr (bot_command ''entity'' name ps)))"

definition block_faces :: "(string, int) dict" where
  "block_faces = [(''down'', 0), (''up'', 1), (''north'', 2), (''south'', 3), (''west'', 4), (''east'', 5)]"

definition interact_usage :: py_error where
  "interact_usage = plain_error (''Use interact, interact <x> <y> <z> [face], interact <block type>, '' @
     ''or interact @<entity> [continuous|interval <ticks>] [for <ticks>] [count <n>]'')"

text \<open>\<open>interact\<close> once no area is left in its words.\<close>

definition parse_interact :: "string \<Rightarrow> string list \<Rightarrow> py_error + bot_command" where
  "parse_interact name rest =
     (if rest = [] then Inr (bot_command ''interact'' name [(''crosshair'', JBool True)])
      else if map casefold rest = [''stop'']
        then Inr (bot_command ''action'' name [(''action'', JStr ''interact''), (''mode'', JStr ''stop'')])
      else if is_selector (hd rest) then targeted_action name ''interact'' rest
      else if length rest = 1 then ebind (target_token (hd rest)) (\<lambda>ps. Inr (bot_command ''interact'' name ps))
      else if length rest = 3 then ebind (position rest) (\<lambda>(ps, _). Inr (bot_command ''interact'' name ps))
      else (case map_of block_faces (casefold (last rest)) of
        Some f \<Rightarrow>
          if length rest = 4 then
            ebind (position (take 3 rest)) (\<lambda>(ps, _).
              Inr (bot_command ''interact'' name (ps @ [(''face'', JInt f), (''faceName'', JStr (casefold (last rest)))])))
          else Inl interact_usage
      | None \<Rightarrow> Inl interact_usage))"

definition destroy_usage :: py_error where
  "destroy_usage = plain_error
     ''destroy accepts once, continuous, stop, [continuous] for <ticks> [count <blocks>], or x y z [face]''"

definition destroy_single :: py_error where
  "destroy_single = plain_error ''destroy for <ticks> and count <blocks> run continuous mining; one block has no duration''"

definition is_destroy_clause :: "string \<Rightarrow> bool" where
  "is_destroy_clause t \<longleftrightarrow> casefold t \<in> {''for'', ''count''}"

text \<open>The limits of continuous mining, and the words behind them.\<close>

fun destroy_clauses :: "string list \<Rightarrow> (string, json) dict \<Rightarrow> py_error + ((string, json) dict \<times> string list)" where
  "destroy_clauses [] ps = Inr (ps, [])"
| "destroy_clauses (c # ts) ps =
     (if \<not> is_destroy_clause c then Inr (ps, c # ts)
      else (let key = (if casefold c = ''for'' then ''durationTicks'' else ''blockCount'') in
        case ts of
          [] \<Rightarrow> Inl destroy_usage
        | v # us \<Rightarrow>
            if key \<in> set (keys ps) \<or> is_destroy_clause v then Inl destroy_usage
            else ebind (if casefold c = ''for'' then ticks v ''Duration'' else blocks v ''Block count'') (\<lambda>n.
              destroy_clauses us (dict_set key (JInt n) ps))))"

definition destroy_block :: "string \<Rightarrow> string list \<Rightarrow> py_error + bot_command" where
  "destroy_block name ts =
     ebind (position (take 3 ts)) (\<lambda>(ps, _).
       if length ts = 4 then
         (case map_of block_faces (casefold (ts ! 3)) of
            None \<Rightarrow> Inl (plain_error ''Invalid block face'')
          | Some f \<Rightarrow> Inr (bot_command ''destroy'' name (ps @ [(''face'', JInt f)])))
       else Inr (bot_command ''destroy'' name ps))"

definition destroy_limits :: "string \<Rightarrow> string list \<Rightarrow> py_error + bot_command" where
  "destroy_limits name rest =
     (let mode = (if casefold (hd rest) \<in> {''once'', ''continuous'', ''stop''} then Some (casefold (hd rest)) else None) in
      ebind (destroy_clauses (if mode = None then rest else tl rest) []) (\<lambda>(ps, ts).
        if ps \<noteq> [] then
          (if mode \<noteq> None \<and> mode \<noteq> Some ''continuous'' then Inl destroy_single
           else if ts \<noteq> [] then Inl destroy_usage
           else Inr (bot_command ''destroy'' name ((''mode'', JStr ''continuous'') # ps)))
        else if mode = None \<and> length ts \<in> {3, 4} \<and> \<not> list_ex is_destroy_clause ts then destroy_block name ts
        else if list_ex is_destroy_clause ts then Inl destroy_single
        else Inl destroy_usage))"

definition parse_destroy :: "(string list \<Rightarrow> py_error + bot_command) \<Rightarrow> string \<Rightarrow> string list \<Rightarrow> py_error + bot_command" where
  "parse_destroy again name rest =
     (let modes = map casefold rest in
      if rest = [] \<or> modes = [''once''] then Inr (bot_command ''destroy'' name [])
      else if length rest = 1 \<and> is_selector (hd rest)
        then Inl (plain_error ''destroy breaks blocks; use attack @<entity>'')
      else if hd modes \<notin> {''once'', ''continuous'', ''stop'', ''interval'', ''for'', ''count''} \<and>
              \<not> (length rest \<in> {3, 4} \<and> is_coordinate (hd rest)) then
        ebind (block_type (hd rest)) (\<lambda>t.
          if length rest = 1 then Inr (bot_command ''destroy'' name [(''blockType'', JStr t)])
          else ebind (again (name # ''destroy'' # tl rest)) (\<lambda>loop.
            if dict_get (op_params loop) ''mode'' JNull \<noteq> JStr ''continuous''
            then Inl (plain_error ''Use destroy <block type> [continuous] [for <ticks>] [count <blocks>]'')
            else Inr (bot_command ''destroy'' name (dict_set ''blockType'' (JStr t) (op_params loop)))))
      else if modes = [''continuous''] \<or> modes = [''stop'']
        then Inr (bot_command ''destroy'' name [(''mode'', JStr (hd modes))])
      else if hd modes = ''interval''
        then Inl (plain_error ''destroy has no interval mode; destroy continuous waits for the next block automatically'')
      else destroy_limits name rest)"

definition drop_slots :: "string list" where
  "drop_slots = slot_names @ [''offhand'', ''head'', ''chest'', ''legs'', ''feet'']"

definition drop_count :: "string list \<Rightarrow> py_error + (string, json) dict" where
  "drop_count ts =
     (case ts of
        [t] \<Rightarrow>
          if isdecimal t \<and> length t \<le> 5 \<and> 1 \<le> decimal t \<and> decimal t \<le> 10455 then Inr [(''count'', JInt (int (decimal t)))]
          else Inl (plain_error ''Drop count must be an integer from 1 to 10455'')
      | _ \<Rightarrow> Inr [])"

definition parse_drop :: "string \<Rightarrow> string list \<Rightarrow> py_error + bot_command" where
  "parse_drop name rest =
     (if rest = [] \<or> rest = [''stack''] then Inr (bot_command ''drop'' name [(''stack'', JBool (rest \<noteq> []))])
      else if length rest > 2 then Inl (plain_error ''Use drop [stack|all|<slot>|<item> [count]]'')
      else (let sel = hd rest; item = namespaced sel; body = drop 10 item in
        if sel \<in> set drop_slots \<or> sel = ''all'' then
          (if length rest \<noteq> 1 then Inl (plain_error ''A slot or all does not accept a count'')
           else Inr (bot_command ''drop'' name [(''selector'', JStr sel)]))
        else if sel = ''stack'' then Inl (plain_error ''A slot or all does not accept a count'')
        else if isdecimal sel then Inl (plain_error ''Drop slots are 1 to 36, offhand, head, chest, legs or feet'')
        else if \<not> starts_with ''minecraft:'' item \<or> body = [] \<or> \<not> list_all is_path_char body
          then Inl (plain_error ''Invalid drop item identifier'')
        else ebind (drop_count (tl rest)) (\<lambda>ps. Inr (bot_command ''drop'' name ((''selector'', JStr item) # ps)))))"

definition parse_flag :: "string \<Rightarrow> string \<Rightarrow> string list \<Rightarrow> py_error + bot_command" where
  "parse_flag op name rest =
     (if length rest = 1 \<and> casefold (hd rest) \<in> {''on'', ''off''}
      then Inr (bot_command ''flag'' name [(''flag'', JStr op), (''value'', JBool (casefold (hd rest) = ''on''))])
      else Inl (unknown_action op))"

text \<open>\<open>destroy\<close> and \<open>interact\<close> first take their areas out and parse what is left.\<close>

definition parse_target_op :: "bool \<Rightarrow> (string list \<Rightarrow> py_error + bot_command) \<Rightarrow> string \<Rightarrow> string \<Rightarrow> string list \<Rightarrow>
    py_error + bot_command" where
  "parse_target_op chain again op name rest =
     ebind (take_area chain rest) (\<lambda>(a, ts).
       case a of
         Some v \<Rightarrow> ebind (again (name # op # ts)) (\<lambda>c. with_area c v)
       | None \<Rightarrow> if op = ''interact'' then parse_interact name rest else parse_destroy again name rest)"

section \<open>The parser\<close>

definition parse_operation_words :: "bool \<Rightarrow> (string list \<Rightarrow> py_error + bot_command) \<Rightarrow> string \<Rightarrow> string \<Rightarrow> string list \<Rightarrow>
    py_error + bot_command" where
  "parse_operation_words chain again op name rest =
     (if op \<notin> set operations then Inl (unknown_action op)
      else if op \<in> bare_operations \<and> rest = [] then Inr (bot_command op name [])
      else if op = ''spawn'' then parse_spawn name rest
      else if op = ''rename'' \<and> length rest = 1 then Inr (bot_command op name [(''newName'', JStr (hd rest))])
      else if op = ''owner'' \<and> length rest = 1 then Inr (bot_command op name [(''gamertag'', JStr (hd rest))])
      else if op = ''visibility'' then parse_visibility name rest
      else if op = ''tp'' then teleport name rest
      else if op = ''move'' then parse_move name rest
      else if op = ''look'' then parse_look name rest
      else if op = ''swap'' then parse_swap name rest
      else if op = ''hold'' then parse_hold name rest
      else if op = ''hotbar'' then parse_hotbar name rest
      else if op = ''radius'' then parse_radius name rest
      else if op = ''block'' then parse_block name rest
      else if op = ''blocks'' then parse_blocks chain name rest
      else if op = ''destroy'' \<or> op = ''interact'' then parse_target_op chain again op name rest
      else if op = ''entity'' then parse_entity name rest
      else if op = ''attack'' \<and> rest \<noteq> [] \<and> is_selector (hd rest) then targeted_action name op rest
      else if op = ''drop'' then parse_drop name rest
      else if op = ''jump'' \<or> op = ''attack'' \<or> op = ''use'' then action_command name op rest
      else if op = ''sprint'' \<or> op = ''sneak'' then parse_flag op name rest
      else Inl (unknown_action op))"

definition parse_words :: "bool \<Rightarrow> (string list \<Rightarrow> py_error + bot_command) \<Rightarrow> string list \<Rightarrow> py_error + bot_command" where
  "parse_words chain again ts =
     (case parse_short ts of
        Some r \<Rightarrow> r
      | None \<Rightarrow> parse_operation_words chain again (alias_of (casefold (ts ! 1))) (hd ts) (drop 2 ts))"

definition recursion_error :: py_error where
  "recursion_error = RuntimeControlError [] ''maximum recursion depth exceeded''"

primrec parse_at :: "nat \<Rightarrow> bool \<Rightarrow> string list \<Rightarrow> py_error + bot_command" where
  "parse_at 0 chain args = Inl recursion_error"
| "parse_at (Suc n) chain args = ebind (tokens_of args) (parse_words chain (parse_at n chain))"

definition characters :: "string list \<Rightarrow> nat" where
  "characters ts = sum_list (map length ts)"

definition parse_command :: "bool \<Rightarrow> string list \<Rightarrow> py_error + bot_command" where
  "parse_command chain args = parse_at (Suc (characters args)) chain args"

end
