(* ===== verification/Group_Execution.thy ===== *)
theory Group_Execution
  imports Bot_Guards Group_Results Command_Parser
begin

text \<open>
  A Bot command sent to a group, \<open>GroupCommandService\<close> of \<open>endbot_core/groups.py\<close>: for each member in
  order or as one batch, with the controller's permission looked at again before every request.

  \<open>may\<close> answers the \<open>n\<close>-th look at the permission (service open and sender authorized), \<open>runtime\<close> the request
  made at a moment; \<open>now\<close> counts both. What \<open>BotCommandService._execute\<close> does for one Bot is the program
  \<open>carry_out\<close> of the service, any program at all, so the theorems hold for every command it carries out. Senders
  without a menu guard are modelled; opening a menu is the answer \<open>Opens_Menu\<close>.
\<close>

record command_result =
  messages :: "string list"
  log_messages :: "string list"
  accepted :: bool
  res_code :: string
  res_data :: "json option"

record service =
  may :: "nat \<Rightarrow> bool"
  runtime :: "nat \<Rightarrow> string \<Rightarrow> params \<Rightarrow> failure + json"
  carry_out :: "bot_command \<Rightarrow> command_result prog"
  look_at :: "string \<Rightarrow> json \<Rightarrow> failure + (number \<times> number)"
  group_list :: "group list option"
  bot_owners_store :: "ownership_store option"

record service_state =
  now :: nat
  sent :: "(nat \<times> string \<times> params) list"
  results :: result_store

type_synonym 'a service_action = "service_state \<Rightarrow> (failure + 'a) \<times> service_state"

definition andthen :: "'a service_action \<Rightarrow> ('a \<Rightarrow> 'b service_action) \<Rightarrow> 'b service_action" where
  "andthen m f s = (case m s of (Inl e, s') \<Rightarrow> (Inl e, s') | (Inr x, s') \<Rightarrow> f x s')"

definition give :: "failure + 'a \<Rightarrow> 'a service_action" where
  "give r s = (r, s)"

text \<open>\<open>_check(sender)\<close>.\<close>

definition check_sender :: "service \<Rightarrow> unit service_action" where
  "check_sender v s = (if may v (now s) then Inr () else Inl Canceled, s\<lparr>now := Suc (now s)\<rparr>)"

definition send :: "service \<Rightarrow> service_state handler" where
  "send v m ps s = (runtime v (now s) m ps, s\<lparr>now := Suc (now s), sent := sent s @ [(now s, m, ps)]\<rparr>)"

text \<open>\<open>_MemberControl\<close>: look at the permission, then send with the member's UUID.\<close>

definition member_control :: "service \<Rightarrow> string \<Rightarrow> service_state handler" where
  "member_control v identity m ps = andthen (check_sender v) (\<lambda>_. send v m (ps @ [(''expectedIdentityId'', JStr identity)]))"

section \<open>Profiles\<close>

definition old_runtime :: failure where
  "old_runtime = Invalid (LocalizedError ''Groups require the matching updated Endbot runtime'' [])"

definition capable :: "bool \<Rightarrow> json \<Rightarrow> failure + unit" where
  "capable batch j = (case j of
     JObj d \<Rightarrow> (if map_of d ''identityPinnedRequests'' \<noteq> Some (JBool True) \<or>
                   batch \<and> map_of d ''groupInputBatch'' \<noteq> Some (JBool True) then Inl old_runtime else Inr ())
   | _ \<Rightarrow> Inl (Crash ''get''))"

definition capabilities :: "service \<Rightarrow> json service_action" where
  "capabilities v s = (case send v ''capabilities'' [] s of
     (Inl e, s') \<Rightarrow> ((case e of
         Control_Error c _ \<Rightarrow> if c \<noteq> ''unknown_method'' then Inl e else Inl old_runtime
       | _ \<Rightarrow> Inl e), s')
   | (Inr j, s') \<Rightarrow> (Inr j, s'))"

definition by_identity :: "profile list \<Rightarrow> (string, profile) dict" where
  "by_identity ps = fold (\<lambda>p. dict_set (profile_id p) p) ps []"

definition group_profiles :: "service \<Rightarrow> bool \<Rightarrow> (string, profile) dict service_action" where
  "group_profiles v batch =
     andthen (check_sender v) (\<lambda>_. andthen (capabilities v) (\<lambda>j. andthen (give (capable batch j)) (\<lambda>_.
     andthen (check_sender v) (\<lambda>_. andthen (run_prog (send v) bot_profiles) (\<lambda>ps.
     andthen (check_sender v) (\<lambda>_. give (Inr (by_identity ps))))))))"

section \<open>Rows\<close>

definition section_sign :: char where
  "section_sign = CHR 0xA7"

text \<open>\<open>strip_colors\<close>: each section sign goes with the character behind it.\<close>

fun strip_colors :: "string \<Rightarrow> string" where
  "strip_colors [] = []"
| "strip_colors (c # cs) = (if c = section_sign then strip_colors (drop 1 cs) else c # strip_colors cs)"

definition remove_prefix :: "string \<Rightarrow> string \<Rightarrow> string" where
  "remove_prefix p s = (if starts_with p s then drop (length p) s else s)"

definition clean_detail :: "string \<Rightarrow> string \<Rightarrow> string" where
  "clean_detail name detail = remove_prefix (name @ '': '') (remove_prefix ''Endbot: '' (one_line (strip_colors detail)))"

definition failure_row :: "nat \<Rightarrow> string \<Rightarrow> string \<Rightarrow> outcome option \<Rightarrow> failure \<Rightarrow> member_result" where
  "failure_row index identity name out e =
     \<lparr>row_index = index, row_identity = identity, row_name = name,
      row_outcome = (if e = Canceled then Skipped else case out of Some x \<Rightarrow> x | None \<Rightarrow> Failed),
      row_reason = (if e = Canceled then ''canceled'' else case failure_code e of Some c \<Rightarrow> c | None \<Rightarrow> ''other''),
      row_detail = clean_detail name (failure_text e), row_data = None,
      row_code = (if out = Some Unknown then ''unavailable'' else error_code e)\<rparr>"

definition success_row :: "nat \<Rightarrow> string \<Rightarrow> string \<Rightarrow> command_result \<Rightarrow> member_result" where
  "success_row index identity name r =
     \<lparr>row_index = index, row_identity = identity, row_name = name, row_outcome = Accepted, row_reason = ''other'',
      row_detail = clean_detail name (join_with '' '' (messages r)), row_data = res_data r, row_code = res_code r\<rparr>"

section \<open>Member by member\<close>

definition for_member :: "bot_command \<Rightarrow> string \<Rightarrow> bot_command" where
  "for_member c name = c\<lparr>op_bot := Some name\<rparr>"

text \<open>One member's program: its owner is checked, then the command is carried out with the member's UUID.\<close>

definition member_action :: "service \<Rightarrow> principal \<Rightarrow> bot_command \<Rightarrow> string \<Rightarrow> string \<Rightarrow> command_result service_action" where
  "member_action v p c identity name =
     (let run = (\<lambda>m. run_prog (member_control v identity)
            (bind_prog (owner_check (bot_owners_store v) p (op_name m) (op_bot m) (Some identity)) (\<lambda>_. carry_out v m))) in
      if op_name c = ''inventory''
      then andthen (check_sender v) (\<lambda>_. run ((for_member c name)\<lparr>op_params := [(''identityId'', JStr identity)]\<rparr>))
      else run (for_member c name))"

definition lost_answer :: "failure \<Rightarrow> outcome option" where
  "lost_answer e = (case e of Control_Error c _ \<Rightarrow> if c = ''unavailable'' then Some Unknown else None | _ \<Rightarrow> None)"

definition one_member :: "service \<Rightarrow> principal \<Rightarrow> bot_command \<Rightarrow> (string, profile) dict \<Rightarrow> nat \<Rightarrow> string \<Rightarrow>
    service_state \<Rightarrow> member_result \<times> failure option \<times> service_state" where
  "one_member v p c profiles index identity s =
     (let name = (case map_of profiles identity of None \<Rightarrow> ''?'' | Some b \<Rightarrow> profile_name b);
          (r, s') = (case map_of profiles identity of
              None \<Rightarrow> (Inl Missing_Profile, s) | Some b \<Rightarrow> member_action v p c identity (profile_name b) s) in
      case r of
        Inr x \<Rightarrow> (success_row index identity name x, None, s')
      | Inl e \<Rightarrow>
          if caught e then
            (case check_sender v s' of
               (Inl e', s'') \<Rightarrow> (failure_row index identity name (lost_answer e) e, Some e', s'')
             | (Inr _, s'') \<Rightarrow> (failure_row index identity name (lost_answer e) e, None, s''))
          else (failure_row index identity name (Some Unknown) e, None, s'))"

fun run_members :: "service \<Rightarrow> principal \<Rightarrow> bot_command \<Rightarrow> (string, profile) dict \<Rightarrow> (nat \<times> string) list \<Rightarrow> failure option \<Rightarrow>
    service_state \<Rightarrow> member_result list \<times> service_state" where
  "run_members v p c profiles [] canceled s = ([], s)"
| "run_members v p c profiles ((index, identity) # ms) (Some e) s =
     (case run_members v p c profiles ms (Some e) s of (rows, s') \<Rightarrow> (failure_row index identity ''?'' None e # rows, s'))"
| "run_members v p c profiles ((index, identity) # ms) None s =
     (case one_member v p c profiles index identity s of (row, canceled, s') \<Rightarrow>
      case run_members v p c profiles ms canceled s' of (rows, s'') \<Rightarrow> (row # rows, s''))"

section \<open>One batch\<close>

datatype prepared = Ready nat string bot_command | Settled member_result

text \<open>\<open>look at\<close> is turned into angles by the world's adapter before the batch goes out.\<close>

definition turned :: "service \<Rightarrow> string \<Rightarrow> bot_command \<Rightarrow> failure + bot_command" where
  "turned v identity m = (case map_of (op_params m) ''targetCoordinates'' of
     Some t \<Rightarrow>
       (if op_name m = ''look''
        then ebind (look_at v identity t) (\<lambda>(yaw, pitch). Inr (m\<lparr>op_params := [(''yaw'', JFloat yaw), (''pitch'', JFloat pitch)]\<rparr>))
        else Inr m)
   | None \<Rightarrow> Inr m)"

definition prepare_member :: "service \<Rightarrow> principal \<Rightarrow> bot_command \<Rightarrow> nat \<Rightarrow> string \<Rightarrow> profile \<Rightarrow> prepared service_action" where
  "prepare_member v p c index identity b s =
     (let m = for_member c (profile_name b) in
      case andthen (run_prog (send v) (owner_check (bot_owners_store v) p (op_name m) (op_bot m) (Some identity)))
             (\<lambda>_. give (turned v identity m)) s of
        (Inr m', s') \<Rightarrow> (Inr (Ready index identity m'), s')
      | (Inl e, s') \<Rightarrow> (if caught e then Inr (Settled (failure_row index identity (profile_name b) None e)) else Inl e, s'))"

fun prepare_members :: "service \<Rightarrow> principal \<Rightarrow> bot_command \<Rightarrow> (string, profile) dict \<Rightarrow> (nat \<times> string) list \<Rightarrow>
    prepared list service_action" where
  "prepare_members v p c profiles [] s = (Inr [], s)"
| "prepare_members v p c profiles ((index, identity) # ms) s =
     andthen (check_sender v) (\<lambda>_.
     andthen (case map_of profiles identity of
         None \<Rightarrow> give (Inr (Settled (failure_row index identity ''?'' None Missing_Profile)))
       | Some b \<Rightarrow> prepare_member v p c index identity b) (\<lambda>x.
     andthen (prepare_members v p c profiles ms) (\<lambda>xs. give (Inr (x # xs))))) s"

fun batch_request :: "prepared \<Rightarrow> json list" where
  "batch_request (Ready index identity m) =
     [JObj [(''method'', JStr (op_name m)),
            (''params'', JObj (dict_set ''expectedIdentityId'' (JStr identity) (dict_set ''name''
               (case op_bot m of None \<Rightarrow> JNull | Some n \<Rightarrow> JStr n) (op_params m))))]]"
| "batch_request (Settled row) = []"

text \<open>A \<open>results\<close> that is no array counts as the \<open>TypeError\<close> of \<open>len(...)\<close> on it.\<close>

definition batch_answers :: "nat \<Rightarrow> failure + json \<Rightarrow> failure + json list" where
  "batch_answers n r = ebind r (\<lambda>j. case j of
     JObj d \<Rightarrow> (case map_of d ''results'' of
         Some (JArr js) \<Rightarrow> if length js = n then Inr js else Inl (Runtime_Error ''Invalid group input batch response'')
       | Some _ \<Rightarrow> Inl (Invalid (TypeError ''results''))
       | None \<Rightarrow> Inl (Invalid (KeyError ''results'')))
   | _ \<Rightarrow> Inl (Invalid (TypeError ''results'')))"

text \<open>\<open>except (RuntimeError, ValueError, KeyError, TypeError)\<close>, around the batch only.\<close>

definition caught_lookup :: "failure \<Rightarrow> bool" where
  "caught_lookup e \<longleftrightarrow> caught e \<or> (case e of Invalid (KeyError _) \<Rightarrow> True | Invalid (TypeError _) \<Rightarrow> True | _ \<Rightarrow> False)"

text \<open>\<open>_BatchReplyControl\<close>: the one request of the command is answered from the batch.\<close>

definition replay :: "string \<Rightarrow> json \<Rightarrow> string \<Rightarrow> failure + json" where
  "replay wanted answer m =
     (if m \<noteq> wanted then Inl (Runtime_Error ''Unexpected request while rendering group input result'')
      else (case answer of
          JObj d \<Rightarrow>
            (if truthy (dict_get d ''ok'' JNull) then (case map_of d ''result'' of Some j \<Rightarrow> Inr j | None \<Rightarrow> Inl (Crash ''result''))
             else (case map_of d ''error'' of
                 Some (JObj e) \<Rightarrow> (case (map_of e ''code'', map_of e ''message'') of
                     (Some (JStr c), Some (JStr t)) \<Rightarrow> Inl (Control_Error c t) | _ \<Rightarrow> Inl (Crash ''error''))
               | _ \<Rightarrow> Inl (Crash ''error'')))
        | _ \<Rightarrow> Inl (Crash ''get'')))"

definition batch_control :: "string \<Rightarrow> json \<Rightarrow> service_state handler" where
  "batch_control wanted answer m ps s = (replay wanted answer m, s)"

definition bot_name :: "bot_command \<Rightarrow> string" where
  "bot_name m = (case op_bot m of None \<Rightarrow> ''?'' | Some n \<Rightarrow> n)"

fun render :: "service \<Rightarrow> prepared list \<Rightarrow> json list \<Rightarrow> service_state \<Rightarrow> member_result list \<times> service_state" where
  "render v [] answers s = ([], s)"
| "render v (Settled row # xs) answers s = (case render v xs answers s of (rows, s') \<Rightarrow> (row # rows, s'))"
| "render v (Ready index identity m # xs) answers s =
     (case run_prog (batch_control (op_name m) (hd answers)) (carry_out v m) s of (r, s') \<Rightarrow>
      case render v xs (tl answers) s' of (rows, s'') \<Rightarrow>
        ((case r of
            Inr x \<Rightarrow> success_row index identity (bot_name m) x
          | Inl e \<Rightarrow> failure_row index identity (bot_name m) (if caught e then None else Some Unknown) e) # rows, s''))"

fun unknown_row :: "failure \<Rightarrow> prepared \<Rightarrow> member_result" where
  "unknown_row e (Settled row) = row"
| "unknown_row e (Ready index identity m) = failure_row index identity (bot_name m) (Some Unknown) e"

definition skipped_rows :: "(string, profile) dict \<Rightarrow> failure \<Rightarrow> (nat \<times> string) list \<Rightarrow> member_result list" where
  "skipped_rows profiles e ms = map (\<lambda>(index, identity). failure_row index identity
     (case map_of profiles identity of None \<Rightarrow> ''?'' | Some b \<Rightarrow> profile_name b) (Some Skipped) e) ms"

definition send_batch :: "service \<Rightarrow> prepared list \<Rightarrow> service_state \<Rightarrow> (failure + json list) \<times> service_state" where
  "send_batch v xs s =
     (let requests = concat (map batch_request xs) in
      if requests = [] then (Inr [], s)
      else (case send v ''groupInputBatch'' [(''requests'', JArr requests)] s of
          (r, s') \<Rightarrow> (batch_answers (length requests) r, s')))"

definition execute_inputs :: "service \<Rightarrow> principal \<Rightarrow> bot_command \<Rightarrow> (nat \<times> string) list \<Rightarrow> member_result list service_action" where
  "execute_inputs v p c ms s =
     (case group_profiles v True s of
        (Inl e, s1) \<Rightarrow> (if caught e then Inr (skipped_rows [] e ms) else Inl e, s1)
      | (Inr profiles, s1) \<Rightarrow>
          (case andthen (prepare_members v p c profiles ms) (\<lambda>xs. andthen (check_sender v) (\<lambda>_. give (Inr xs))) s1 of
             (Inl e, s2) \<Rightarrow> (if caught e then Inr (skipped_rows profiles e ms) else Inl e, s2)
           | (Inr xs, s2) \<Rightarrow>
               (case send_batch v xs s2 of
                  (Inl e, s3) \<Rightarrow> (if caught_lookup e then Inr (map (unknown_row e) xs) else Inl e, s3)
                | (Inr answers, s3) \<Rightarrow> (case render v xs answers s3 of (rows, s4) \<Rightarrow> (Inr rows, s4)))))"

section \<open>The result of the command\<close>

definition error_color :: string where
  "error_color = [section_sign, CHR ''c'']"

definition reset_color :: string where
  "reset_color = [section_sign, CHR ''r'']"

definition reply :: "string \<Rightarrow> string option \<Rightarrow> string \<Rightarrow> string" where
  "reply detail name color =
     [section_sign, CHR ''3''] @ (case name of None \<Rightarrow> ''Endbot:'' | Some n \<Rightarrow> if n = [] then ''Endbot:'' else ''Endbot: '' @ n @ '':'') @
     reset_color @ '' '' @ color @ detail @ (if color = [] then [] else reset_color)"

definition rows_code :: "member_result list \<Rightarrow> string" where
  "rows_code rows = (case find (\<lambda>r. row_outcome r \<noteq> Accepted) rows of None \<Rightarrow> ''ok'' | Some r \<Rightarrow> row_code r)"

definition all_accepted :: "member_result list \<Rightarrow> bool" where
  "all_accepted rows = list_all (\<lambda>r. row_outcome r = Accepted) rows"

definition row_color :: "member_result \<Rightarrow> string" where
  "row_color r = (if row_outcome r \<noteq> Accepted then error_color else [])"

definition json_option :: "json option \<Rightarrow> json" where
  "json_option x = (case x of None \<Rightarrow> JNull | Some j \<Rightarrow> j)"

text \<open>A query answers with its rows and leaves no result behind.\<close>

definition query_result :: "group \<Rightarrow> member_result list \<Rightarrow> command_result" where
  "query_result g rows =
     \<lparr>messages = map (\<lambda>r. reply (row_detail r) (Some (''#'' @ group_label g @ ''['' @ show_nat (row_index r) @ ''] '' @ row_name r))
          (row_color r)) rows,
      log_messages = [], accepted = all_accepted rows, res_code = rows_code rows,
      res_data = Some (JObj [(''results'', JArr (map (\<lambda>r. JObj
        [(''index'', JInt (int (row_index r))), (''identityId'', JStr (row_identity r)), (''name'', JStr (row_name r)),
         (''ok'', JBool (row_outcome r = Accepted)), (''code'', JStr (row_code r)),
         (''reason'', if row_outcome r = Accepted then JNull else JStr (row_reason r)), (''data'', json_option (row_data r))]) rows))])\<rparr>"

definition actor_name :: "principal \<Rightarrow> string" where
  "actor_name p = take 32 (one_line (strip_colors (case p_name p of None \<Rightarrow> ''console'' | Some n \<Rightarrow> if n = [] then ''console'' else n)))"

text \<open>The jobs the members' commands left running.\<close>

fun row_job :: "member_result \<Rightarrow> json list" where
  "row_job r = (case row_data r of
     Some (JObj d) \<Rightarrow> (case map_of d ''job'' of
         Some (JObj job) \<Rightarrow> [JObj (fold (\<lambda>(k, x). dict_set k x) job [(''identityId'', JStr (row_identity r)), (''name'', JStr (row_name r))])]
       | _ \<Rightarrow> [])
   | _ \<Rightarrow> [])"

definition count_data :: "member_result list \<Rightarrow> json" where
  "count_data rows = JObj ((let jobs = concat (map row_job rows) in if jobs = [] then [] else [(''jobs'', JArr jobs)]) @
     [(''accepted'', JInt (int (count_outcome Accepted rows))), (''failed'', JInt (int (count_outcome Failed rows))),
      (''notRun'', JInt (int (count_outcome Skipped rows))), (''unknown'', JInt (int (count_outcome Unknown rows)))])"

definition finish :: "principal \<Rightarrow> group \<Rightarrow> string \<Rightarrow> string \<Rightarrow> bool \<Rightarrow> bool \<Rightarrow> string \<Rightarrow> member_result list \<Rightarrow> service_state \<Rightarrow>
    command_result \<times> service_state" where
  "finish p g target operation indexed query fresh rows s =
     (if query then (query_result g rows, s)
      else (let short = map (\<lambda>r. r\<lparr>row_detail := take 512 (row_detail r)\<rparr>) rows;
                (saved, store) = save_result p g target operation short fresh (results s);
                row = hd short;
                actor = actor_name p @ (if indexed then '' '' @ row_name row else []) in
        (\<lparr>messages = (if indexed then [reply (row_detail row) (Some (target @ '' '' @ row_name row)) (row_color row)]
             else map (\<lambda>l. reply l (Some target) []) (summary saved)),
          log_messages = map (\<lambda>l. reply (actor @ '': '' @ l) (Some target) []) (summary saved) @
             (if indexed then [reply (strip_colors (row_detail row)) (Some (target @ '' '' @ row_name row)) []] else []),
          accepted = all_accepted short, res_code = rows_code short, res_data = Some (count_data short)\<rparr>,
         s\<lparr>results := store\<rparr>)))"

definition error_result :: "failure \<Rightarrow> string option \<Rightarrow> command_result" where
  "error_result e target = \<lparr>messages = [reply (failure_text e) target error_color], log_messages = [], accepted = False,
     res_code = error_code e, res_data = None\<rparr>"

section \<open>The command\<close>

datatype answer = Answer command_result | Opens_Menu

definition input_operations :: "string set" where
  "input_operations = {''move'', ''look'', ''action'', ''flag'', ''stop'', ''hotbar'', ''drop'', ''swap'', ''hold''}"

definition is_query :: "bot_command \<Rightarrow> bool" where
  "is_query c \<longleftrightarrow> op_name c \<in> {''status'', ''inventory'', ''entities'', ''entity'', ''target'', ''block'', ''blocks''} \<or>
     op_name c \<in> {''hotbar'', ''radius''} \<and> op_params c = []"

definition lift_py :: "py_error + 'a \<Rightarrow> 'a service_action" where
  "lift_py r s = (case r of Inl e \<Rightarrow> (Inl (Invalid e), s) | Inr x \<Rightarrow> (Inr x, s))"

definition select_for :: "service \<Rightarrow> principal \<Rightarrow> string \<Rightarrow> py_error + group \<times> (nat \<times> string) list \<times> bool" where
  "select_for v p target = (case group_list v of
     None \<Rightarrow> Inl (LocalizedError ''Groups are unavailable because the groups file could not be loaded; see the server log'' [])
   | Some gs \<Rightarrow> select_visible (sight_of (bot_owners_store v) p) target gs)"

text \<open>Members in order, unless the profiles cannot be read.\<close>

definition execute_members :: "service \<Rightarrow> principal \<Rightarrow> bot_command \<Rightarrow> (nat \<times> string) list \<Rightarrow> member_result list service_action" where
  "execute_members v p c ms s = (case group_profiles v False s of
     (Inl e, s') \<Rightarrow> (if caught e then Inr (skipped_rows [] e ms) else Inl e, s')
   | (Inr profiles, s') \<Rightarrow> (case run_members v p c profiles ms None s' of (rows, s'') \<Rightarrow> (Inr rows, s'')))"

definition execute_target :: "service \<Rightarrow> principal \<Rightarrow> string \<Rightarrow> string list \<Rightarrow> bot_command \<Rightarrow> answer service_action" where
  "execute_target v p fresh tokens c =
     andthen (lift_py (select_for v p (hd tokens))) (\<lambda>(g, ms, indexed).
     andthen (check_sender v) (\<lambda>_.
       let operation = take 128 (join_with '' '' (tl tokens));
           answer = (\<lambda>rows s. case finish p g (hd tokens) operation indexed (is_query c) fresh rows s of
               (r, s') \<Rightarrow> (Inr (Answer r), s')) in
       if \<not> indexed \<and> op_name c = ''menu'' then give (Inr Opens_Menu)
       else if \<not> indexed \<and> op_name c \<in> {''rename'', ''forget''} then
         give (Inl (Invalid (LocalizedError ''{operation} requires one Bot; use #group[1] or a Bot name'' [(''operation'', op_name c)])))
       else if ms = [] then give (Inl (Invalid (ValueError ''Group has no members'')))
       else if \<not> indexed \<and> op_name c \<in> input_operations then andthen (execute_inputs v p c ms) answer
       else andthen (execute_members v p c ms) (\<lambda>rows.
         if op_name c = ''menu'' \<and> list_ex (\<lambda>r. row_outcome r = Accepted) rows then give (Inr Opens_Menu) else answer rows)))"

definition group_execute :: "service \<Rightarrow> principal \<Rightarrow> string \<Rightarrow> string list \<Rightarrow> answer service_action" where
  "group_execute v p fresh args s =
     (case andthen (lift_py (tokens_of args)) (\<lambda>tokens. andthen (lift_py (parse_command False args)) (execute_target v p fresh tokens)) s of
        (Inl e, s') \<Rightarrow> (if caught e then Inr (Answer (error_result e (if args = [] then None else Some (hd args)))) else Inl e, s')
      | (Inr a, s') \<Rightarrow> (Inr a, s'))"

section \<open>Requests and the permission looked at before them\<close>

text \<open>
  A request sent at moment \<open>n\<close> is covered when the look at moment \<open>n - 1\<close> found the permission; the
  fallback to \<open>list\<close> of an older runtime follows the refused \<open>profiles\<close> with no look of its own.
\<close>

definition covered :: "service \<Rightarrow> nat \<times> string \<times> params \<Rightarrow> bool" where
  "covered v x = (case x of (n, m, ps) \<Rightarrow> 0 < n \<and> may v (n - 1) \<or> m = ''list'' \<and> 1 < n \<and> may v (n - 2))"

definition pinned_to :: "string set \<Rightarrow> nat \<times> string \<times> params \<Rightarrow> bool" where
  "pinned_to ids x = (case x of (n, m, ps) \<Rightarrow> \<exists>i\<in>ids. ps \<noteq> [] \<and> last ps = (''expectedIdentityId'', JStr i))"

text \<open>What a step sent all satisfies \<open>Q\<close>.\<close>

definition sends_only :: "(nat \<times> string \<times> params \<Rightarrow> bool) \<Rightarrow> service_state \<Rightarrow> service_state \<Rightarrow> bool" where
  "sends_only Q s t = (\<exists>new. sent t = sent s @ new \<and> list_all Q new)"

lemma sends_only_refl [simp, intro]: "sends_only Q s s"
  by (simp add: sends_only_def)

lemma sends_only_trans: "sends_only Q s t \<Longrightarrow> sends_only Q t u \<Longrightarrow> sends_only Q s u"
  unfolding sends_only_def by (metis append.assoc list_all_append)

lemma sends_only_same: "sent t = sent s \<Longrightarrow> sends_only Q s t"
  by (simp add: sends_only_def)

lemma sends_only_andthen:
  assumes "sends_only Q s (snd (m s))" "\<And>x t. m s = (Inr x, t) \<Longrightarrow> sends_only Q t (snd (f x t))"
  shows "sends_only Q s (snd (andthen m f s))"
proof (cases "m s")
  case (Pair r t)
  with assms show ?thesis by (cases r) (auto simp: andthen_def intro: sends_only_trans)
qed

lemma sent_check [simp]: "sent (snd (check_sender v s)) = sent s"
  by (simp add: check_sender_def)

lemma check_passed: "check_sender v s = (Inr x, t) \<Longrightarrow> 0 < now t \<and> may v (now t - 1) \<and> sent t = sent s"
  by (auto simp: check_sender_def split: if_splits)

lemma snd_give [simp]: "snd (give r s) = s"
  by (simp add: give_def)

lemma snd_lift_py [simp]: "snd (lift_py r s) = s"
  by (cases r) (simp_all add: lift_py_def)

lemma sends_only_check [simp, intro]: "sends_only Q s (snd (check_sender v s))"
  by (simp add: sends_only_same)

lemma send_covered: "0 < now s \<Longrightarrow> may v (now s - 1) \<Longrightarrow> sends_only (covered v) s (snd (send v m ps s))"
  by (simp add: send_def sends_only_def covered_def)

lemma member_control_sends:
  "sends_only (\<lambda>x. covered v x \<and> pinned_to {i} x) s (snd (member_control v i m ps s))"
  by (auto simp: member_control_def andthen_def check_sender_def send_def sends_only_def covered_def pinned_to_def)

lemma run_member_sends:
  "sends_only (\<lambda>x. covered v x \<and> pinned_to {i} x) s (snd (run_prog (member_control v i) q s))"
  by (rule run_prog_invariant [where R = "sends_only (\<lambda>x. covered v x \<and> pinned_to {i} x)"])
    (auto intro: member_control_sends sends_only_trans)

lemma member_action_sends:
  "sends_only (\<lambda>x. covered v x \<and> pinned_to {i} x) s (snd (member_action v p c i name s))"
  unfolding member_action_def Let_def
  by (auto intro!: sends_only_andthen simp: run_member_sends)

lemma sends_only_mono: "sends_only Q s t \<Longrightarrow> (\<And>x. Q x \<Longrightarrow> Q' x) \<Longrightarrow> sends_only Q' s t"
  unfolding sends_only_def by (metis list.pred_mono_strong)

lemma sends_only_end: "sends_only Q s t \<Longrightarrow> sent u = sent t \<Longrightarrow> sends_only Q s u"
  by (simp add: sends_only_def)

lemma pinned_to_mono: "pinned_to I x \<Longrightarrow> I \<subseteq> J \<Longrightarrow> pinned_to J x"
  by (auto simp: pinned_to_def)

lemma one_member_sends:
  "sends_only (\<lambda>x. covered v x \<and> pinned_to {i} x) s (snd (snd (one_member v p c profiles n i s)))"
proof (cases "map_of profiles i")
  case None
  then show ?thesis
    by (auto simp: one_member_def check_sender_def sends_only_same)
next
  case (Some b)
  obtain r t where a: "member_action v p c i (profile_name b) s = (r, t)" by force
  have "sends_only (\<lambda>x. covered v x \<and> pinned_to {i} x) s t"
    using member_action_sends [of v i s p c "profile_name b"] by (simp add: a)
  moreover have "sent (snd (snd (one_member v p c profiles n i s))) = sent t"
    by (cases r) (simp_all add: one_member_def Some a check_sender_def Let_def)
  ultimately show ?thesis by (rule sends_only_end)
qed

lemma run_members_sends:
  "sends_only (\<lambda>x. covered v x \<and> pinned_to (snd ` set ms) x) s (snd (run_members v p c profiles ms canceled s))"
proof (induction v p c profiles ms canceled s rule: run_members.induct)
  case (1 v p c profiles canceled s)
  then show ?case by simp
next
  case (2 v p c profiles index identity ms e s)
  then show ?case
    by (auto split: prod.split elim!: sends_only_mono pinned_to_mono)
next
  case (3 v p c profiles index identity ms s)
  obtain row canceled t where m: "one_member v p c profiles index identity s = (row, canceled, t)"
    by (metis prod_cases3)
  let ?Q = "\<lambda>x. covered v x \<and> pinned_to (snd ` set ((index, identity) # ms)) x"
  have "sends_only ?Q s t"
    by (rule sends_only_mono [OF one_member_sends [of v identity s p c profiles index, unfolded m, simplified]])
      (auto elim: pinned_to_mono)
  moreover have "sends_only ?Q t (snd (run_members v p c profiles ms canceled t))"
    by (rule sends_only_mono [OF 3(1)]) (auto simp: m elim: pinned_to_mono)
  ultimately have "sends_only ?Q s (snd (run_members v p c profiles ms canceled t))"
    by (rule sends_only_trans)
  then show ?case by (auto simp: m split: prod.split)
qed


subsection \<open>The whole command\<close>

primrec silent :: "'a prog \<Rightarrow> bool" where
  "silent (Done x) = True"
| "silent (Fail e) = True"
| "silent (Ask m ps k) = False"

lemma silent_bind: "silent p \<Longrightarrow> (\<And>x. silent (f x)) \<Longrightarrow> silent (bind_prog p f)"
  by (cases p) simp_all

lemma silent_lift [simp]: "silent (lift_error r)"
  by (cases r) simp_all

lemma run_silent: "silent p \<Longrightarrow> snd (run_prog h p s) = s"
  by (cases p) simp_all

lemma silent_refusal: "silent (refusal st p operation name i)"
  unfolding refusal_def Let_def
  by (rule silent_bind [OF silent_lift]) (auto split: option.split intro!: silent_bind [OF silent_lift])

lemma silent_owner_check: "silent (owner_check store p operation name (Some i))"
  unfolding owner_check_def
  by (auto split: option.split intro!: silent_bind [OF silent_lift] silent_refusal)

lemma snd_andthen_same: "snd (m s) = s \<Longrightarrow> (\<And>x. snd (f x s) = s) \<Longrightarrow> snd (andthen m f s) = s"
  by (cases "m s"; cases "fst (m s)") (simp_all add: andthen_def)

lemma prepare_member_same: "snd (prepare_member v p c index i b s) = s"
proof -
  have "snd (andthen (run_prog (send v) (owner_check (bot_owners_store v) p (op_name (for_member c (profile_name b)))
      (op_bot (for_member c (profile_name b))) (Some i))) (\<lambda>_. give (turned v i (for_member c (profile_name b)))) s) = s"
    by (rule snd_andthen_same) (simp_all add: run_silent silent_owner_check)
  then show ?thesis
    unfolding prepare_member_def Let_def
    by (auto split: prod.split sum.split)
qed

lemma prepare_members_sends: "sends_only Q s (snd (prepare_members v p c profiles ms s))"
proof (induction ms arbitrary: s)
  case (Cons x ms)
  obtain index identity where x: "x = (index, identity)" by force
  have step: "snd ((case map_of profiles identity of
         None \<Rightarrow> give (Inr (Settled (failure_row index identity ''?'' None Missing_Profile)))
       | Some b \<Rightarrow> prepare_member v p c index identity b) t) = t" for t
    by (simp add: prepare_member_same split: option.split)
  have last: "sends_only Q u (snd (andthen (prepare_members v p c profiles ms) (\<lambda>xs. give (Inr (y # xs))) u))" for u y
    by (rule sends_only_andthen) (simp_all add: Cons)
  show ?case
    unfolding x prepare_members.simps
    by (intro sends_only_andthen sends_only_check last) (simp add: step)
qed simp

lemma group_profiles_sends: "sends_only (covered v) s (snd (group_profiles v batch s))"
proof -
  have list: "sends_only (covered v) t (snd (run_prog (send v) bot_profiles t))"
    if c: "check_sender v u = (Inr x, t)" for x t u
  proof -
    have n: "0 < now t" "may v (now t - 1)" using check_passed [OF c] by simp_all
    have ret: "run_prog h (return_profiles j) w = (case decode_profiles j of Inl e \<Rightarrow> (Inl e, w) | Inr ps \<Rightarrow> (Inr ps, w))" for h :: "service_state handler" and j w
      by (simp add: return_profiles_def split: sum.split)
    show ?thesis
      unfolding bot_profiles_def using n
      by (auto simp: send_def sends_only_def covered_def ret split: sum.split failure.split)
  qed
  have caps: "sends_only (covered v) t (snd (capabilities v t))"
    if c: "check_sender v u = (Inr x, t)" for x t u
    using send_covered [of t v "''capabilities''" "[]"] check_passed [OF c]
    by (auto simp: capabilities_def split: prod.split sum.split)
  show ?thesis
    unfolding group_profiles_def
    by (intro sends_only_andthen sends_only_check; (rule caps list | simp)?; assumption?)
qed

lemma send_batch_sends:
  "check_sender v u = (Inr x, t) \<Longrightarrow> sends_only (covered v) t (snd (send_batch v xs t))"
  using send_covered [of t v "''groupInputBatch''"] check_passed [of v u x t]
  by (simp add: send_batch_def Let_def split: prod.split) (metis snd_conv)

lemma run_batch_same: "snd (run_prog (batch_control w a) q s) = s"
  by (rule run_prog_invariant [where R = "\<lambda>s t. t = s"]) (simp_all add: batch_control_def)

lemma render_same: "snd (render v xs answers s) = s"
proof (induction v xs answers s rule: render.induct)
  case (3 v index identity m xs answers s)
  then show ?case
    using run_batch_same [of "op_name m" "hd answers" "carry_out v m" s]
    by (auto split: prod.split)
qed (auto split: prod.split)

lemma render_end: "render v xs answers s = (rows, t) \<Longrightarrow> t = s"
  using render_same [of v xs answers s] by simp

lemma execute_inputs_sends: "sends_only (covered v) s (snd (execute_inputs v p c ms s))"
proof -
  obtain r1 s1 where g: "group_profiles v True s = (r1, s1)" by force
  have 1: "sends_only (covered v) s s1" using group_profiles_sends [of v s True] by (simp add: g)
  show ?thesis
  proof (cases r1)
    case (Inl e)
    then show ?thesis using 1 by (simp add: execute_inputs_def g)
  next
    case (Inr profiles)
    let ?m = "andthen (prepare_members v p c profiles ms) (\<lambda>xs. andthen (check_sender v) (\<lambda>_. give (Inr xs)))"
    obtain r2 s2 where m: "?m s1 = (r2, s2)" by force
    have "sends_only (covered v) s1 (snd (?m s1))"
      by (intro sends_only_andthen prepare_members_sends sends_only_check) simp
    then have 2: "sends_only (covered v) s s2" using 1 by (auto simp: m intro: sends_only_trans)
    show ?thesis
    proof (cases r2)
      case (Inl e)
      then show ?thesis using 2 by (simp add: execute_inputs_def g \<open>r1 = Inr profiles\<close> m)
    next
      case (Inr xs)
      obtain u x where u: "check_sender v u = (Inr x, s2)"
        using m by (auto simp: Inr andthen_def give_def split: prod.splits sum.splits)
      obtain r3 s3 where b: "send_batch v xs s2 = (r3, s3)" by force
      have "sends_only (covered v) s s3"
        using send_batch_sends [OF u, of xs] 2 by (auto simp: b intro: sends_only_trans)
      moreover have "sent (snd (execute_inputs v p c ms s)) = sent s3"
        by (cases r3)
          (auto simp: execute_inputs_def g \<open>r1 = Inr profiles\<close> m Inr b split: prod.split dest: render_end)
      ultimately show ?thesis by (rule sends_only_end)
    qed
  qed
qed

lemma execute_members_sends: "sends_only (covered v) s (snd (execute_members v p c ms s))"
proof -
  obtain r1 s1 where g: "group_profiles v False s = (r1, s1)" by force
  have 1: "sends_only (covered v) s s1" using group_profiles_sends [of v s False] by (simp add: g)
  show ?thesis
  proof (cases r1)
    case (Inl e)
    then show ?thesis using 1 by (simp add: execute_members_def g)
  next
    case (Inr profiles)
    have "sends_only (covered v) s1 (snd (run_members v p c profiles ms None s1))"
      by (rule sends_only_mono [OF run_members_sends]) simp
    then show ?thesis
      using 1 by (auto simp: execute_members_def g Inr split: prod.split intro: sends_only_trans)
  qed
qed

lemma finish_same: "sent (snd (finish p g target operation indexed query fresh rows s)) = sent s"
  by (simp add: finish_def Let_def split: prod.split)

lemma execute_target_sends: "sends_only (covered v) s (snd (execute_target v p fresh tokens c s))"
proof -
  have fin: "sends_only Q t (snd (case finish p g target operation indexed query fresh rows t of (r, u) \<Rightarrow> (Inr (Answer r), u)))"
    for Q t g target operation indexed query rows
    using finish_same [of p g target operation indexed query fresh rows t]
    by (auto split: prod.split intro: sends_only_same)
  show ?thesis
    unfolding execute_target_def Let_def
    by (intro sends_only_andthen; clarsimp?)
      (auto intro!: sends_only_andthen execute_inputs_sends execute_members_sends fin)
qed


section \<open>Rows and codes\<close>

definition row_key :: "member_result \<Rightarrow> nat \<times> string" where
  "row_key r = (row_index r, row_identity r)"

text \<open>A row is sound when its code is \<open>ok\<close> only if its outcome is \<open>Accepted\<close>.\<close>

definition sound_row :: "member_result \<Rightarrow> bool" where
  "sound_row r \<longleftrightarrow> row_outcome r = Accepted \<or> row_code r \<noteq> ''ok''"

lemma key_failure [simp]: "row_key (failure_row n i name out e) = (n, i)"
  by (simp add: row_key_def failure_row_def)

lemma key_success [simp]: "row_key (success_row n i name r) = (n, i)"
  by (simp add: row_key_def success_row_def)

lemma error_codes_not_ok: "dict_get error_codes c ''unavailable'' \<noteq> ''ok''"
  by (simp add: dict_get_def error_codes_def)

lemma error_code_not_ok: "error_code e \<noteq> ''ok''"
proof (cases "is_refused e")
  case False
  then show ?thesis
    by (cases e) (simp_all add: error_code_def error_codes_not_ok)
qed (simp add: error_code_def)

lemma sound_failure [simp]: "sound_row (failure_row n i name out e)"
  by (simp add: sound_row_def failure_row_def error_code_not_ok)

lemma sound_success [simp]: "sound_row (success_row n i name r)"
  by (simp add: sound_row_def success_row_def)

lemma one_member_row:
  "row_key (fst (one_member v p c profiles n i s)) = (n, i) \<and> sound_row (fst (one_member v p c profiles n i s))"
  by (simp add: one_member_def Let_def split: prod.split sum.split)

lemma run_members_rows:
  "map row_key (fst (run_members v p c profiles ms canceled s)) = ms \<and>
   list_all sound_row (fst (run_members v p c profiles ms canceled s))"
proof (induction v p c profiles ms canceled s rule: run_members.induct)
  case (3 v p c profiles index identity ms s)
  obtain row canceled t where m: "one_member v p c profiles index identity s = (row, canceled, t)"
    by (metis prod_cases3)
  show ?case
    using 3 [OF m [symmetric] refl] one_member_row [of v p c profiles index identity s]
    by (auto simp: m split: prod.split)
qed (auto split: prod.split)

lemma skipped_rows_rows: "map row_key (skipped_rows profiles e ms) = ms \<and> list_all sound_row (skipped_rows profiles e ms)"
  by (induction ms) (auto simp: skipped_rows_def)

fun prepared_key :: "prepared \<Rightarrow> nat \<times> string" where
  "prepared_key (Ready n i m) = (n, i)"
| "prepared_key (Settled r) = row_key r"

fun prepared_sound :: "prepared \<Rightarrow> bool" where
  "prepared_sound (Ready n i m) = True"
| "prepared_sound (Settled r) = (sound_row r \<and> row_outcome r \<noteq> Accepted)"

lemma andthen_Inr: "andthen m f s = (Inr y, u) \<Longrightarrow> (\<And>x t. m s = (Inr x, t) \<Longrightarrow> f x t = (Inr y, u) \<Longrightarrow> thesis) \<Longrightarrow> thesis"
  by (auto simp: andthen_def split: prod.splits sum.splits)

lemma failure_not_accepted: "out \<noteq> Some Accepted \<Longrightarrow> row_outcome (failure_row n i name out e) \<noteq> Accepted"
  by (auto simp: failure_row_def split: option.split)

lemma prepare_member_row:
  "prepare_member v p c n i b s = (Inr x, t) \<Longrightarrow> prepared_key x = (n, i) \<and> prepared_sound x"
  by (auto simp: prepare_member_def Let_def failure_not_accepted split: prod.splits sum.splits if_splits)

lemma prepare_members_rows:
  "prepare_members v p c profiles ms s = (Inr xs, t) \<Longrightarrow> map prepared_key xs = ms \<and> list_all prepared_sound xs"
proof (induction ms arbitrary: s xs t)
  case (Cons x ms)
  obtain n i where x: "x = (n, i)" by force
  from Cons.prems show ?case
    unfolding x prepare_members.simps
    by (elim andthen_Inr)
      (auto simp: give_def failure_not_accepted dest!: prepare_member_row dest: Cons.IH split: option.splits)
qed simp

lemma render_rows:
  assumes "list_all prepared_sound xs"
  shows "map row_key (fst (render v xs answers s)) = map prepared_key xs \<and> list_all sound_row (fst (render v xs answers s))"
  using assms
proof (induction v xs answers s rule: render.induct)
  case (3 v n i m xs answers s)
  then show ?case by (auto split: prod.split sum.split)
qed (auto split: prod.split)

lemma unknown_rows:
  assumes "list_all prepared_sound xs"
  shows "map row_key (map (unknown_row e) xs) = map prepared_key xs \<and> list_all sound_row (map (unknown_row e) xs) \<and>
    list_all (\<lambda>r. row_outcome r \<noteq> Accepted) (map (unknown_row e) xs)"
proof -
  have "row_key (unknown_row e x) = prepared_key x \<and> sound_row (unknown_row e x) \<and> row_outcome (unknown_row e x) \<noteq> Accepted"
    if "prepared_sound x" for x
    using that by (cases x) (simp_all add: failure_not_accepted)
  with assms show ?thesis by (simp add: list_all_iff)
qed

definition row_per_member :: "(nat \<times> string) list \<Rightarrow> failure + member_result list \<Rightarrow> bool" where
  "row_per_member ms r = (case r of Inr rows \<Rightarrow> map row_key rows = ms \<and> list_all sound_row rows | Inl e \<Rightarrow> True)"

lemma execute_inputs_rows: "row_per_member ms (fst (execute_inputs v p c ms s))"
proof -
  have prep: "map prepared_key xs = ms \<and> list_all prepared_sound xs"
    if "andthen (prepare_members v p c profiles ms) (\<lambda>xs. andthen (check_sender v) (\<lambda>_. give (Inr xs))) t = (Inr xs, u)"
    for profiles t u xs
    using that by (elim andthen_Inr) (auto simp: give_def dest: prepare_members_rows)
  have ren: "render v xs answers t = (rows, u) \<Longrightarrow> list_all prepared_sound xs \<Longrightarrow>
      map row_key rows = map prepared_key xs \<and> list_all sound_row rows" for xs answers t rows u
    using render_rows [of xs v answers t] by simp
  show ?thesis
    using skipped_rows_rows unknown_rows
    by (auto simp: execute_inputs_def row_per_member_def simp del: list.map_comp dest!: prep ren split: prod.split sum.split)
qed

lemma execute_members_rows: "row_per_member ms (fst (execute_members v p c ms s))"
proof -
  have "run_members v p c profiles ms None t = (rows, u) \<Longrightarrow> map row_key rows = ms \<and> list_all sound_row rows"
    for profiles t rows u
    using run_members_rows [of v p c profiles ms None t] by simp
  then show ?thesis
    using skipped_rows_rows
    by (auto simp: execute_members_def row_per_member_def split: prod.split sum.split)
qed

text \<open>However a group command ends, as one batch or member by member, it reports exactly one row for each
  selected member, in their order, with the member's index and UUID, and a row's code is \<open>ok\<close> only when it was accepted.\<close>

theorem every_member_reported_once:
  "row_per_member ms (fst (execute_inputs v p c ms s)) \<and> row_per_member ms (fst (execute_members v p c ms s))"
  by (simp add: execute_inputs_rows execute_members_rows)

lemma rows_code_ok: "list_all sound_row rows \<Longrightarrow> all_accepted rows \<longleftrightarrow> rows_code rows = ''ok''"
  by (induction rows) (auto simp: rows_code_def all_accepted_def sound_row_def)

lemma sound_rows_short: "list_all sound_row rows \<Longrightarrow> list_all sound_row (map (\<lambda>r. r\<lparr>row_detail := take 512 (row_detail r)\<rparr>) rows)"
  by (simp add: list_all_iff sound_row_def)

definition code_agrees :: "failure + answer \<Rightarrow> bool" where
  "code_agrees r = (case r of Inr (Answer x) \<Rightarrow> accepted x = (res_code x = ''ok'') | _ \<Rightarrow> True)"

lemma finish_code:
  assumes "list_all sound_row rows"
  shows "accepted (fst (finish p g target operation indexed query fresh rows s)) =
    (res_code (fst (finish p g target operation indexed query fresh rows s)) = ''ok'')"
proof (cases query)
  case True
  then show ?thesis using rows_code_ok [OF assms] by (simp add: finish_def query_result_def)
next
  case False
  then show ?thesis
    using rows_code_ok [OF sound_rows_short [OF assms]]
    by (simp add: finish_def Let_def split: prod.split)
qed

lemma code_agrees_andthen:
  assumes "\<And>x t. m s = (Inr x, t) \<Longrightarrow> code_agrees (fst (f x t))"
  shows "code_agrees (fst (andthen m f s))"
proof (cases "m s")
  case (Pair r t)
  with assms show ?thesis by (cases r) (auto simp: andthen_def code_agrees_def)
qed

lemma code_agrees_give [simp]: "code_agrees (fst (give (Inl e) s))" "code_agrees (fst (give (Inr Opens_Menu) s))"
  by (simp_all add: give_def code_agrees_def)

lemma execute_target_code: "code_agrees (fst (execute_target v p fresh tokens c s))"
proof -
  have fin: "code_agrees (fst (case finish p g target operation indexed query fresh rows t of (r, u) \<Rightarrow> (Inr (Answer r), u)))"
    if "list_all sound_row rows" for g target operation indexed query rows t
    using finish_code [OF that, of p g target operation indexed query fresh t]
    by (auto simp: code_agrees_def split: prod.split)
  have rows: "list_all sound_row rows" if "execute_inputs v p c ms t = (Inr rows, u)" for ms t rows u
    using execute_inputs_rows [of ms v p c t] by (simp add: that row_per_member_def)
  have rows': "list_all sound_row rows" if "execute_members v p c ms t = (Inr rows, u)" for ms t rows u
    using execute_members_rows [of ms v p c t] by (simp add: that row_per_member_def)
  show ?thesis
    unfolding execute_target_def Let_def
    by (intro code_agrees_andthen; clarsimp?)
      (auto intro!: code_agrees_andthen fin dest: rows rows')
qed

text \<open>The answer to a group command is marked accepted exactly when its code is \<open>ok\<close>, so for errors of the
  command itself never, and for its rows when each one was accepted.\<close>

theorem group_code_agrees_with_acceptance:
  "code_agrees (fst (group_execute v p fresh args s))"
proof -
  let ?m = "andthen (lift_py (tokens_of args)) (\<lambda>tokens. andthen (lift_py (parse_command False args)) (execute_target v p fresh tokens))"
  have "code_agrees (fst (?m s))"
    by (intro code_agrees_andthen execute_target_code)
  then show ?thesis
    by (auto simp: group_execute_def code_agrees_def error_result_def error_code_not_ok split: prod.split sum.split)
qed

section \<open>A batch whose answer is lost\<close>

definition is_batch :: "nat \<times> string \<times> params \<Rightarrow> bool" where
  "is_batch x = (fst (snd x) = ''groupInputBatch'')"

definition none_accepted :: "member_result list \<Rightarrow> bool" where
  "none_accepted rows = list_all (\<lambda>r. row_outcome r \<noteq> Accepted) rows"

text \<open>The last request sent was the batch, and the runtime answered it.\<close>

definition batch_answered :: "service \<Rightarrow> service_state \<Rightarrow> bool" where
  "batch_answered v s = (case rev (sent s) of
     (n, m, ps) # _ \<Rightarrow> m = ''groupInputBatch'' \<and> (case runtime v n m ps of Inr j \<Rightarrow> True | Inl e \<Rightarrow> False)
   | [] \<Rightarrow> False)"

lemma send_other: "m \<noteq> ''groupInputBatch'' \<Longrightarrow> sends_only (\<lambda>x. \<not> is_batch x) s (snd (send v m ps s))"
  by (simp add: send_def sends_only_def is_batch_def)

lemma group_profiles_no_batch: "sends_only (\<lambda>x. \<not> is_batch x) s (snd (group_profiles v batch s))"
proof -
  have ret: "run_prog h (return_profiles j) w = (case decode_profiles j of Inl e \<Rightarrow> (Inl e, w) | Inr ps \<Rightarrow> (Inr ps, w))"
    for h :: "service_state handler" and j w
    by (simp add: return_profiles_def split: sum.split)
  have "sends_only (\<lambda>x. \<not> is_batch x) t (snd (run_prog (send v) bot_profiles t))" for t
    unfolding bot_profiles_def
    by (auto simp: send_def sends_only_def is_batch_def ret split: sum.split failure.split)
  moreover have "sends_only (\<lambda>x. \<not> is_batch x) t (snd (capabilities v t))" for t
    using send_other [of "''capabilities''" t v "[]"]
    by (auto simp: capabilities_def split: prod.split sum.split)
  ultimately show ?thesis
    unfolding group_profiles_def by (intro sends_only_andthen sends_only_check) simp_all
qed

lemma skipped_none: "none_accepted (skipped_rows profiles e ms)"
  by (auto simp: none_accepted_def skipped_rows_def list_all_iff failure_not_accepted)

lemma settled_none:
  assumes "list_all prepared_sound xs" "concat (map batch_request xs) = []"
  shows "none_accepted (fst (render v xs answers s))"
  using assms
proof (induction xs)
  case (Cons x xs)
  then show ?case by (cases x) (auto simp: none_accepted_def split: prod.split)
qed (simp add: none_accepted_def)

lemma send_batch_answered:
  assumes "send_batch v xs s = (Inr answers, t)"
  shows "batch_answered v t \<or> concat (map batch_request xs) = []"
  using assms
  by (auto simp: send_batch_def Let_def send_def batch_answers_def batch_answered_def split: if_splits sum.splits)

text \<open>A group's input command is never reported as accepted on its own account: whenever one of its rows is
  accepted, the last request it sent was the batch and the runtime answered it; a batch that was lost, refused or
  never sent leaves no accepted row.\<close>

theorem accepted_inputs_were_answered:
  "case execute_inputs v p c ms s of (Inr rows, t) \<Rightarrow> none_accepted rows \<or> batch_answered v t | (Inl e, t) \<Rightarrow> True"
proof -
  have prep: "list_all prepared_sound xs"
    if "andthen (prepare_members v p c profiles ms) (\<lambda>xs. andthen (check_sender v) (\<lambda>_. give (Inr xs))) t = (Inr xs, u)"
    for profiles t u xs
    using that by (elim andthen_Inr) (auto simp: give_def dest: prepare_members_rows)
  have lost: "none_accepted (map (unknown_row e) xs)" if "list_all prepared_sound xs" for e xs
    using unknown_rows [OF that, of e] by (simp add: none_accepted_def)
  have got: "none_accepted rows \<or> batch_answered v u"
    if "list_all prepared_sound xs" "send_batch v xs t = (Inr answers, t')" "render v xs answers t' = (rows, u)"
    for xs t answers t' rows u
    using send_batch_answered [OF that(2)] settled_none [OF that(1), of v answers t'] render_end [OF that(3)] that(3) by auto
  show ?thesis
    by (auto simp: execute_inputs_def skipped_none lost prep split: prod.split sum.split dest: got [OF prep])
qed

text \<open>A group's input command sends at most one batch, as its last request.\<close>

theorem one_batch_last:
  "\<exists>new. sent (snd (execute_inputs v p c ms s)) = sent s @ new \<and> list_all (\<lambda>x. \<not> is_batch x) (butlast new)"
proof -
  have last: "\<exists>new. sent u = sent s @ new \<and> list_all Q (butlast new)" 
    if "sends_only Q s t" "sent u = sent t \<or> (\<exists>x. sent u = sent t @ [x])" for Q and t u :: service_state
    using that unfolding sends_only_def list_all_iff by (auto dest: in_set_butlastD simp: butlast_append; metis in_set_butlastD)
  obtain r1 s1 where g: "group_profiles v True s = (r1, s1)" by force
  have 1: "sends_only (\<lambda>x. \<not> is_batch x) s s1" using group_profiles_no_batch [of s v True] by (simp add: g)
  show ?thesis
  proof (cases r1)
    case (Inl e)
    then show ?thesis using last [OF 1, of s1] by (simp add: execute_inputs_def g)
  next
    case (Inr profiles)
    let ?m = "andthen (prepare_members v p c profiles ms) (\<lambda>xs. andthen (check_sender v) (\<lambda>_. give (Inr xs)))"
    obtain r2 s2 where m: "?m s1 = (r2, s2)" by force
    have "sends_only (\<lambda>x. \<not> is_batch x) s1 (snd (?m s1))"
      by (intro sends_only_andthen prepare_members_sends sends_only_check) simp
    then have 2: "sends_only (\<lambda>x. \<not> is_batch x) s s2" using 1 by (auto simp: m intro: sends_only_trans)
    have "sent (snd (send_batch v xs s2)) = sent s2 \<or> (\<exists>x. sent (snd (send_batch v xs s2)) = sent s2 @ [x])" for xs
      by (simp add: send_batch_def Let_def send_def)
    then have b: "sent t = sent s2 \<or> (\<exists>x. sent t = sent s2 @ [x])" if "send_batch v xs s2 = (r, t)" for xs r t
      using that by (metis snd_conv)
    have "sent (snd (execute_inputs v p c ms s)) = sent s2 \<or> (\<exists>x. sent (snd (execute_inputs v p c ms s)) = sent s2 @ [x])"
    proof (cases r2)
      case (Inl e)
      then show ?thesis by (simp add: execute_inputs_def g \<open>r1 = Inr profiles\<close> m)
    next
      case (Inr xs)
      obtain r3 s3 where s3: "send_batch v xs s2 = (r3, s3)" by force
      have "sent (snd (execute_inputs v p c ms s)) = sent s3"
        by (cases r3)
          (auto simp: execute_inputs_def g \<open>r1 = Inr profiles\<close> m Inr s3 split: prod.split dest: render_end)
      then show ?thesis using b [OF s3] by simp
    qed
    then show ?thesis by (rule last [OF 2])
  qed
qed

end
