(* ===== verification/Script_Inputs.thy ===== *)
theory Script_Inputs
  imports Group_Execution
begin

text \<open>
  Which script run owns which input channel of which Bot, \<open>OwnedInputs\<close> of \<open>endbot_core/script_inputs.py\<close>. A
  scope is the run, its check (a look at the permission, as \<open>check_sender\<close>) and the UUIDs its Bots are pinned to;
  requests go through \<open>send\<close>. UUIDs and channels are JSON values as they come, compared as such. What the
  source finds missing in an answer or a request and raises on is a \<open>Crash\<close>.
\<close>

record input_owner =
  own_run :: string
  own_name :: json
  own_loop :: json

type_synonym channel_key = "json \<times> json"

record input_state =
  io :: service_state
  owned :: "(channel_key, input_owner) dict"

type_synonym 'a input_action = "input_state \<Rightarrow> (failure + 'a) \<times> input_state"

text \<open>The run and its pins; \<open>None\<close> outside every scope.\<close>

type_synonym scope = "(string \<times> (string, string) dict) option"

definition ibind :: "'a input_action \<Rightarrow> ('a \<Rightarrow> 'b input_action) \<Rightarrow> 'b input_action" where
  "ibind m f s = (case m s of (Inl e, s') \<Rightarrow> (Inl e, s') | (Inr x, s') \<Rightarrow> f x s')"

definition on_io :: "'a service_action \<Rightarrow> 'a input_action" where
  "on_io m s = (case m (io s) of (r, t) \<Rightarrow> (r, s\<lparr>io := t\<rparr>))"

section \<open>Who owns a channel after an operation\<close>

definition all_channels :: "json list" where
  "all_channels = map JStr [''move'', ''jump'', ''attack'', ''use'', ''sprint'', ''sneak'', ''mine'']"

definition whole_stop :: "string \<Rightarrow> bool" where
  "whole_stop m \<longleftrightarrow> m \<in> {''stop'', ''despawn'', ''reconnect'', ''forget'', ''rename''}"

definition set_channels :: "string \<Rightarrow> params \<Rightarrow> failure + json list" where
  "set_channels m ps =
     (if m = ''move'' then Inr [JStr ''move'']
      else if m = ''action'' then ebind (need ps ''action'') (\<lambda>c. Inr [c])
      else if m = ''flag'' then ebind (need ps ''flag'') (\<lambda>c. Inr [c])
      else if m = ''mine'' \<and> get_json ps ''mode'' \<noteq> JStr ''continue'' then Inr [JStr ''mine'']
      else if whole_stop m then Inr all_channels
      else Inr [])"

text \<open>The operations that end an input instead of keeping it running.\<close>

definition ends_input :: "string \<Rightarrow> params \<Rightarrow> bool" where
  "ends_input m ps \<longleftrightarrow> whole_stop m \<or>
     m = ''move'' \<and> get_json ps ''direction'' = JStr ''stop'' \<or>
     m = ''action'' \<and> (get_json ps ''mode'' = JStr ''stop'' \<or>
       get_json ps ''mode'' = JStr ''once'' \<and> ''holdTicks'' \<notin> set (keys ps)) \<or>
     m = ''flag'' \<and> \<not> truthy (get_json ps ''value'') \<or>
     m = ''mine'' \<and> get_json ps ''mode'' = JStr ''stop''"

text \<open>A conditional stop of an older mining loop leaves the newer one alone.\<close>

definition stale_stop :: "string \<Rightarrow> params \<Rightarrow> json \<Rightarrow> (channel_key, input_owner) dict \<Rightarrow> bool" where
  "stale_stop m ps i d \<longleftrightarrow> m = ''mine'' \<and> get_json ps ''mode'' = JStr ''stop'' \<and> truthy (get_json ps ''loopId'') \<and>
     (case map_of d (i, JStr ''mine'') of None \<Rightarrow> False | Some o' \<Rightarrow> own_loop o' \<noteq> get_json ps ''loopId'')"

definition loop_of :: "params \<Rightarrow> failure + json" where
  "loop_of r = (let m = get_json r ''mining'' in
     if \<not> truthy m then Inr JNull else (case m of JObj d \<Rightarrow> Inr (get_json d ''loopId'') | _ \<Rightarrow> Inl (Crash ''get'')))"

definition answered_identity :: "params \<Rightarrow> params \<Rightarrow> json" where
  "answered_identity r ps = (if truthy (get_json r ''identityId'') then get_json r ''identityId'' else get_json ps ''expectedIdentityId'')"

text \<open>The channels are popped, or go to the run; an answer whose \<open>mining\<close> is no object raises when it is read.\<close>

definition give_channels :: "string option \<Rightarrow> json \<Rightarrow> params \<Rightarrow> params \<Rightarrow> json list \<Rightarrow> (channel_key, input_owner) dict \<Rightarrow>
    failure + (channel_key, input_owner) dict" where
  "give_channels who i ps r cs d = (case who of
     None \<Rightarrow> Inr (fold (\<lambda>c. dict_pop (i, c)) cs d)
   | Some run \<Rightarrow>
       (if cs = [] then Inr d
        else ebind (loop_of r) (\<lambda>l. Inr (fold (\<lambda>c. dict_set (i, c) \<lparr>own_run = run,
          own_name = (case map_of r ''name'' of None \<Rightarrow> get_json ps ''name'' | Some n \<Rightarrow> n), own_loop = l\<rparr>) cs d))))"

definition cleared :: "string \<Rightarrow> params \<Rightarrow> json \<Rightarrow> bool \<Rightarrow> (channel_key, input_owner) dict \<Rightarrow> (channel_key, input_owner) dict" where
  "cleared m ps i uncertain d =
     (if m = ''mine'' \<and> get_json ps ''mode'' \<noteq> JStr ''continue'' \<and> get_json ps ''mode'' \<noteq> JStr ''stop'' \<and> \<not> uncertain
      then fold (\<lambda>c. dict_pop (i, c)) (map JStr [''move'', ''attack'', ''use'']) d else d)"

text \<open>\<open>_record\<close>: what it raised, if it did, and the owners after it.\<close>

definition record_input :: "string \<Rightarrow> params \<Rightarrow> json \<Rightarrow> scope \<Rightarrow> bool \<Rightarrow> (channel_key, input_owner) dict \<Rightarrow>
    (failure + unit) \<times> (channel_key, input_owner) dict" where
  "record_input m ps result sc uncertain d = (case result of
     JObj r \<Rightarrow>
       (let i = answered_identity r ps in
        if \<not> truthy i \<or> stale_stop m ps i d then (Inr (), d)
        else (case set_channels m ps of
          Inl e \<Rightarrow> (Inl e, d)
        | Inr cs \<Rightarrow>
           (let d' = cleared m ps i uncertain d;
                who = (if ends_input m ps then None else map_option fst sc) in
            if uncertain \<and> who = None then (Inr (), d')
            else (case give_channels who i ps r cs d' of Inl e \<Rightarrow> (Inl e, d') | Inr d'' \<Rightarrow> (Inr (), d'')))))
   | _ \<Rightarrow> (Inr (), d))"

section \<open>Requests\<close>

definition record_action :: "string \<Rightarrow> params \<Rightarrow> json \<Rightarrow> scope \<Rightarrow> bool \<Rightarrow> unit input_action" where
  "record_action m ps result sc uncertain s =
     (case record_input m ps result sc uncertain (owned s) of (r, d) \<Rightarrow> (r, s\<lparr>owned := d\<rparr>))"

definition pinned_params :: "(string, string) dict \<Rightarrow> params \<Rightarrow> params" where
  "pinned_params pins ps = (case map_of ps ''name'' of
     Some (JStr n) \<Rightarrow> (case map_of pins (casefold n) of
         Some i \<Rightarrow> if ''expectedIdentityId'' \<in> set (keys ps) then ps else dict_set ''expectedIdentityId'' (JStr i) ps
       | None \<Rightarrow> ps)
   | _ \<Rightarrow> ps)"

definition continuing :: "string \<Rightarrow> bool" where
  "continuing m \<longleftrightarrow> m \<in> {''move'', ''action'', ''flag'', ''mine'', ''stop''}"

definition status_identity :: "json \<Rightarrow> failure + json" where
  "status_identity j = (case j of JObj d \<Rightarrow> need d ''identityId'' | _ \<Rightarrow> Inl (Crash ''identityId''))"

text \<open>Inside a scope: check, pin the target, and look its UUID up when nothing pins it.\<close>

definition prepare_params :: "service \<Rightarrow> scope \<Rightarrow> string \<Rightarrow> params \<Rightarrow> params input_action" where
  "prepare_params v sc m ps = (case sc of
     None \<Rightarrow> (\<lambda>s. (Inr ps, s))
   | Some (run, pins) \<Rightarrow> ibind (on_io (check_sender v)) (\<lambda>_.
       let qs = pinned_params pins ps in
       if continuing m \<and> ''expectedIdentityId'' \<notin> set (keys qs)
       then ibind (on_io (send v ''status'' [(''name'', get_json qs ''name'')])) (\<lambda>j.
            ibind (on_io (give (status_identity j))) (\<lambda>i.
            ibind (on_io (check_sender v)) (\<lambda>_ s. (Inr (dict_set ''expectedIdentityId'' i qs), s))))
       else (\<lambda>s. (Inr qs, s))))"

text \<open>The requests of a batch, each a method with its parameters.\<close>

definition one_request :: "json \<Rightarrow> failure + string \<times> params" where
  "one_request j = (case j of
     JObj d \<Rightarrow> (case (map_of d ''method'', map_of d ''params'') of
         (Some (JStr m), Some (JObj ps)) \<Rightarrow> Inr (m, ps) | _ \<Rightarrow> Inl (Crash ''request''))
   | _ \<Rightarrow> Inl (Crash ''request''))"

definition pending_requests :: "string \<Rightarrow> params \<Rightarrow> failure + (string \<times> params) list" where
  "pending_requests m ps =
     (if m = ''groupInputBatch'' then ebind (need ps ''requests'') (\<lambda>j. case j of
          JArr js \<Rightarrow> emap one_request js | _ \<Rightarrow> Inl (Crash ''requests''))
      else Inr [(m, ps)])"

fun record_uncertain :: "scope \<Rightarrow> (string \<times> params) list \<Rightarrow> unit input_action" where
  "record_uncertain sc [] s = (Inr (), s)"
| "record_uncertain sc ((m, ps) # rs) s =
     ibind (if truthy (get_json ps ''expectedIdentityId'')
        then record_action m ps (JObj [(''identityId'', get_json ps ''expectedIdentityId''), (''name'', get_json ps ''name'')]) sc True
        else (\<lambda>s. (Inr (), s))) (\<lambda>_. record_uncertain sc rs) s"

definition batch_results :: "json \<Rightarrow> failure + json list" where
  "batch_results j = (case j of
     JObj d \<Rightarrow> (case map_of d ''results'' of Some (JArr js) \<Rightarrow> Inr js | _ \<Rightarrow> Inl (Crash ''results''))
   | _ \<Rightarrow> Inl (Crash ''results''))"

text \<open>\<open>zip\<close> of the requests and the answers; only an answer that is \<open>ok\<close> counts.\<close>

fun record_answers :: "scope \<Rightarrow> (string \<times> params) list \<Rightarrow> json list \<Rightarrow> unit input_action" where
  "record_answers sc ((m, ps) # rs) (j # js) s =
     (case j of
        JObj d \<Rightarrow>
          if truthy (get_json d ''ok'')
          then (case map_of d ''result'' of
              None \<Rightarrow> (Inl (Crash ''result''), s)
            | Some r \<Rightarrow> ibind (record_action m ps r sc False) (\<lambda>_. record_answers sc rs js) s)
          else record_answers sc rs js s
      | _ \<Rightarrow> (Inl (Crash ''get''), s))"
| "record_answers sc _ _ s = (Inr (), s)"

definition answer_lost :: "failure \<Rightarrow> bool" where
  "answer_lost e = (case e of Control_Error c _ \<Rightarrow> c = ''unavailable'' \<or> c = ''protocol'' | _ \<Rightarrow> False)"

definition owned_request :: "service \<Rightarrow> scope \<Rightarrow> string \<Rightarrow> params \<Rightarrow> json input_action" where
  "owned_request v sc m ps0 = ibind (prepare_params v sc m ps0) (\<lambda>ps s.
     case on_io (send v m ps) s of
       (Inl e, s') \<Rightarrow>
         (if answer_lost e \<and> sc \<noteq> None
          then ibind (on_io (give (pending_requests m ps))) (\<lambda>rs. ibind (record_uncertain sc rs) (\<lambda>_ t. (Inl e, t))) s'
          else (Inl e, s'))
     | (Inr j, s') \<Rightarrow>
         ibind (if m = ''groupInputBatch''
            then ibind (on_io (give (pending_requests m ps))) (\<lambda>rs. ibind (on_io (give (batch_results j))) (record_answers sc rs))
            else record_action m ps j sc False) (\<lambda>_ t. (Inr j, t)) s')"

section \<open>Ownership of a run\<close>

definition owned_by :: "string \<Rightarrow> (channel_key, input_owner) dict \<Rightarrow> (channel_key \<times> input_owner) list" where
  "owned_by run d = filter (\<lambda>(k, o'). own_run o' = run) d"

text \<open>What \<open>owned\<close> lists and \<open>adopt\<close> takes back: UUID, channel, name and loop.\<close>

definition owned_rows :: "string \<Rightarrow> input_state \<Rightarrow> (json \<times> json \<times> json \<times> json) list" where
  "owned_rows run s = map (\<lambda>((i, c), o'). (i, c, own_name o', own_loop o')) (owned_by run (owned s))"

definition adopt_rows :: "string \<Rightarrow> (json \<times> json \<times> json \<times> json) list \<Rightarrow> input_state \<Rightarrow> input_state" where
  "adopt_rows run rows s = s\<lparr>owned := fold (\<lambda>(i, c, n, l). dict_set (i, c) \<lparr>own_run = run, own_name = n, own_loop = l\<rparr>) rows (owned s)\<rparr>"

definition stop_request :: "channel_key \<Rightarrow> input_owner \<Rightarrow> string \<times> params" where
  "stop_request k o' = (case k of (i, c) \<Rightarrow>
     let ps = [(''name'', own_name o'), (''expectedIdentityId'', i)] in
     if c = JStr ''move'' then (''move'', ps @ [(''direction'', JStr ''stop'')])
     else if c = JStr ''mine'' then (''mine'', ps @ [(''mode'', JStr ''stop'')] @ (if truthy (own_loop o') then [(''loopId'', own_loop o')] else []))
     else if c = JStr ''sprint'' \<or> c = JStr ''sneak'' then (''flag'', ps @ [(''flag'', c), (''value'', JBool False)])
     else (''action'', ps @ [(''action'', c), (''mode'', JStr ''stop'')]))"

definition disown :: "string \<Rightarrow> input_state \<Rightarrow> input_state" where
  "disown run s = s\<lparr>owned := filter (\<lambda>(k, o'). own_run o' \<noteq> run) (owned s)\<rparr>"

text \<open>Over a copy of the entries; a transport failure gives up the rest of the run.\<close>

fun clean_up :: "service \<Rightarrow> string \<Rightarrow> (channel_key \<times> input_owner) list \<Rightarrow> string list input_action" where
  "clean_up v run [] s = (Inr [], s)"
| "clean_up v run ((k, o') # es) s =
     (if own_run o' \<noteq> run then clean_up v run es s
      else (case stop_request k o' of (m, ps) \<Rightarrow>
        case on_io (send v m ps) (s\<lparr>owned := dict_pop k (owned s)\<rparr>) of
          (Inl e, s') \<Rightarrow>
            if \<not> caught e then (Inl e, s')
            else if lost_answer e \<noteq> None then (Inr [failure_text e], disown run s')
            else ibind (clean_up v run es) (\<lambda>fs t. (Inr (failure_text e # fs), t)) s'
        | (Inr j, s') \<Rightarrow> clean_up v run es s'))"

definition cleanup :: "service \<Rightarrow> string \<Rightarrow> string list input_action" where
  "cleanup v run s = clean_up v run (owned s) s"

section \<open>What a run leaves behind\<close>

lemma ibind_simps [simp]: "ibind m f s = (case m s of (Inl e, s') \<Rightarrow> (Inl e, s') | (Inr x, s') \<Rightarrow> f x s')"
  by (simp add: ibind_def)

lemma on_io_give [simp]: "on_io (give r) s = (r, s)"
  by (simp add: on_io_def give_def)

lemma sent_send [simp]: "sent (snd (send v m ps s)) = sent s @ [(now s, m, ps)]" "fst (send v m ps s) = runtime v (now s) m ps"
  by (simp_all add: send_def)

text \<open>The entries of other runs.\<close>

definition others :: "string \<Rightarrow> (channel_key, input_owner) dict \<Rightarrow> (channel_key \<times> input_owner) list" where
  "others run d = filter (\<lambda>(k, o'). own_run o' \<noteq> run) d"

definition is_stop_of :: "(channel_key \<times> input_owner) list \<Rightarrow> nat \<times> string \<times> params \<Rightarrow> bool" where
  "is_stop_of es x \<longleftrightarrow> snd x \<in> set (map (\<lambda>(k, o'). stop_request k o') es)"

lemma others_pop: "distinct (keys d) \<Longrightarrow> (k, o') \<in> set d \<Longrightarrow> own_run o' = run \<Longrightarrow> others run (dict_pop k d) = others run d"
  by (induction d) (auto simp: others_def rev_image_eqI)

lemma owned_by_pop: "owned_by run (dict_pop k d) = dict_pop k (owned_by run d)"
  by (induction d) (auto simp: owned_by_def)

lemma others_disown [simp]: "others run (owned (disown run s)) = others run (owned s)" "owned_by run (owned (disown run s)) = []"
  "io (disown run s) = io s"
  by (auto simp: others_def owned_by_def disown_def filter_empty_conv)

lemma disown_subset: "set (owned (disown run s)) \<subseteq> set (owned s)"
  by (auto simp: disown_def)

lemma is_stop_mono: "is_stop_of es x \<Longrightarrow> set es \<subseteq> set es' \<Longrightarrow> is_stop_of es' x"
  by (force simp: is_stop_of_def)

lemma clean_up_step:
  assumes "distinct (keys (owned s))" "(k, o') \<in> set (owned s)" "own_run o' = run"
    "on_io (send v (fst (stop_request k o')) (snd (stop_request k o'))) (s\<lparr>owned := dict_pop k (owned s)\<rparr>) = (r, t)"
  shows "owned t = dict_pop k (owned s)" "others run (owned t) = others run (owned s)"
    "sends_only (is_stop_of (owned_by run (owned s))) (io s) (io t)"
  using assms others_pop [OF assms(1-3)]
  by (force simp: on_io_def send_def sends_only_def is_stop_of_def owned_by_def split: prod.splits)+

definition frees :: "string \<Rightarrow> input_state \<Rightarrow> (failure + string list) \<times> input_state \<Rightarrow> bool" where
  "frees run s z \<longleftrightarrow> (case z of (r, t) \<Rightarrow> others run (owned t) = others run (owned s) \<and>
     sends_only (is_stop_of (owned_by run (owned s))) (io s) (io t) \<and>
     (case r of Inr fs \<Rightarrow> owned_by run (owned t) = [] | Inl e \<Rightarrow> True))"

lemma clean_up_frees:
  assumes "distinct (keys (owned s))" "distinct (keys es)" "set (owned_by run (owned s)) = set (owned_by run es)"
  shows "frees run s (clean_up v run es s)"
  using assms
proof (induction es arbitrary: s)
  case Nil
  then show ?case by (auto simp: frees_def owned_by_def filter_empty_conv)
next
  case (Cons e es)
  obtain k o' where e: "e = (k, o')" by (rule prod.exhaust)
  show ?case
  proof (cases "own_run o' = run")
    case False
    with Cons show ?thesis by (simp add: e owned_by_def)
  next
    case True
    have k: "(k, o') \<in> set (owned s)"
      using Cons.prems(3) True by (auto simp: e owned_by_def)
    obtain r t where t: "on_io (send v (fst (stop_request k o')) (snd (stop_request k o'))) (s\<lparr>owned := dict_pop k (owned s)\<rparr>) = (r, t)"
      by force
    note st = clean_up_step [OF Cons.prems(1) k True t]
    have sub: "set (owned_by run (owned t)) \<subseteq> set (owned_by run (owned s))"
      by (auto simp: st(1) owned_by_pop dest: set_dict_pop_subset [THEN subsetD])
    have "set (owned_by run (owned t)) = {x \<in> set (owned_by run (e # es)). fst x \<noteq> k}"
      unfolding Cons.prems(3) [symmetric] by (auto simp: st(1) owned_by_def AList.delete_eq)
    also have "\<dots> = set (owned_by run es)"
      using Cons.prems(2) by (force simp: e owned_by_def)
    finally have "frees run t (clean_up v run es t)"
      using Cons.IH [of t] Cons.prems(1,2) by (simp add: st(1) distinct_dict_pop owned_by_def)
    then have ok: "frees run s (r', u)" if "clean_up v run es t = (r', u)" for r' u
      using that st(2,3) sub
      by (auto simp: frees_def elim!: sends_only_trans sends_only_mono is_stop_mono)
    show ?thesis
      using ok st t True
      by (auto simp: e frees_def split: prod.split sum.split)
  qed
qed

text \<open>Cleaning up after a run takes away every channel it owned and no channel of another run, however the
  stops are answered, and the only requests it makes are the stops of channels the run owned, each pinned to the
  UUID of its Bot; when a stop raises something that is not caught, what other runs own is still untouched.\<close>

theorem cleanup_frees_only_its_run:
  assumes "distinct (keys (owned s))"
  shows "frees run s (cleanup v run s)"
  unfolding cleanup_def using assms by (intro clean_up_frees) simp_all

definition steve_inputs :: input_state where
  "steve_inputs = \<lparr>io = \<lparr>now = 0, sent = [], results = []\<rparr>,
     owned = [((JStr ''b1'', JStr ''move''), \<lparr>own_run = ''r1'', own_name = JStr ''Bot1'', own_loop = JNull\<rparr>),
              ((JStr ''b1'', JStr ''mine''), \<lparr>own_run = ''r2'', own_name = JStr ''Bot1'', own_loop = JStr ''L''\<rparr>),
              ((JStr ''b2'', JStr ''sneak''), \<lparr>own_run = ''r1'', own_name = JStr ''Bot2'', own_loop = JNull\<rparr>)]\<rparr>"

definition echo_service :: service where
  "echo_service = \<lparr>may = (\<lambda>n. True), runtime = (\<lambda>n m ps. Inr (JObj [])), carry_out = (\<lambda>c. Done \<lparr>messages = [],
     log_messages = [], accepted = True, res_code = ''ok'', res_data = None\<rparr>), look_at = (\<lambda>i j. Inl Canceled),
     group_list = None, bot_owners_store = None\<rparr>"

lemma cleanup_frees_only_its_run_witness:
  "distinct (keys (owned steve_inputs)) \<and> frees ''r1'' steve_inputs (cleanup echo_service ''r1'' steve_inputs)"
proof
  show d: "distinct (keys (owned steve_inputs))" by code_simp
  show "frees ''r1'' steve_inputs (cleanup echo_service ''r1'' steve_inputs)"
    by (rule cleanup_frees_only_its_run [OF d])
qed

text \<open>As long as no request is given up, a clean up asks for every stop, in the order of the entries.\<close>

lemma clean_up_asks:
  assumes "\<And>n m ps. case runtime v n m ps of Inr j \<Rightarrow> True | Inl e \<Rightarrow> caught e \<and> lost_answer e = None"
  shows "\<exists>new. sent (io (snd (clean_up v run es s))) = sent (io s) @ new \<and>
    map snd new = map (\<lambda>(k, o'). stop_request k o') (owned_by run es) \<and> (case fst (clean_up v run es s) of Inr fs \<Rightarrow> True | Inl e \<Rightarrow> False)"
proof (induction es arbitrary: s)
  case (Cons e es)
  obtain k o' where e: "e = (k, o')" by (rule prod.exhaust)
  obtain m ps where mp: "stop_request k o' = (m, ps)" by force
  let ?s = "s\<lparr>owned := dict_pop k (owned s)\<rparr>"
  obtain r t where t: "on_io (send v m ps) ?s = (r, t)" by force
  have r: "r = runtime v (now (io s)) m ps" and sent: "sent (io t) = sent (io s) @ [(now (io s), m, ps)]"
    using t by (auto simp: on_io_def send_def)
  show ?case
    using Cons.IH [of s] Cons.IH [of t] assms [of "now (io s)" m ps] sent mp
    by (auto simp: e t owned_by_def r [symmetric] split: prod.split sum.splits) 
qed (simp add: owned_by_def)

text \<open>
  An operation that starts an input of channel \<open>c\<close> on the Bot with UUID \<open>i\<close>, and an outcome after which the input
  may be running: the runtime accepted it for that Bot, or its answer was lost.
\<close>

definition starts :: "string \<Rightarrow> params \<Rightarrow> json \<Rightarrow> json \<Rightarrow> bool" where
  "starts m ps i c \<longleftrightarrow> truthy i \<and> map_of ps ''expectedIdentityId'' = Some i \<and> set_channels m ps = Inr [c] \<and> \<not> ends_input m ps"

definition may_run :: "failure + json \<Rightarrow> json \<Rightarrow> bool" where
  "may_run r i = (case r of
     Inr (JObj d) \<Rightarrow> get_json d ''identityId'' = i \<and> (case loop_of d of Inr l \<Rightarrow> True | Inl e \<Rightarrow> False)
   | Inr j \<Rightarrow> False
   | Inl e \<Rightarrow> answer_lost e)"

definition owns :: "string \<Rightarrow> (channel_key, input_owner) dict \<Rightarrow> channel_key \<Rightarrow> bool" where
  "owns run d k = (case map_of d k of Some o' \<Rightarrow> own_run o' = run | None \<Rightarrow> False)"

lemma starts_fresh: "starts m ps i c \<Longrightarrow> \<not> stale_stop m ps j d \<and> \<not> whole_stop m"
  by (auto simp: starts_def stale_stop_def ends_input_def)

lemma record_started:
  assumes "starts m ps i c" "answered_identity r ps = i" "uncertain \<or> (case loop_of r of Inr l \<Rightarrow> True | Inl e \<Rightarrow> False)"
    "uncertain \<Longrightarrow> map_of r ''mining'' = None"
  shows "owns run (snd (record_input m ps (JObj r) (Some (run, pins)) uncertain d)) (i, c)"
proof -
  have l: "\<exists>l. loop_of r = Inr l"
    using assms(3,4) by (auto simp: loop_of_def get_json_def dict_get_def split: sum.splits)
  show ?thesis
    using assms(1,2) starts_fresh [OF assms(1)] l
    by (auto simp: record_input_def starts_def give_channels_def owns_def Let_def)
qed

lemma starts_not_batch: "starts m ps i c \<Longrightarrow> m \<noteq> ''groupInputBatch''"
  by (auto simp: starts_def set_channels_def whole_stop_def)

lemma starts_keys: "starts m ps i c \<Longrightarrow> ''expectedIdentityId'' \<in> set (keys ps)"
  by (auto simp: starts_def dest!: map_of_SomeD intro: rev_image_eqI)

lemma starts_pinned: "starts m ps i c \<Longrightarrow> pinned_params pins ps = ps"
  by (auto simp: starts_def pinned_params_def map_of_eq_None_iff [symmetric] simp del: map_of_eq_None_iff
      split: option.splits json.splits if_splits)

lemma request_owns:
  assumes "starts m ps i c" "may v (now (io s))" "may_run (runtime v (Suc (now (io s))) m ps) i"
  shows "owns run (owned (snd (owned_request v (Some (run, pins)) m ps s))) (i, c)"
proof -
  let ?t = "(io s)\<lparr>now := Suc (now (io s))\<rparr>"
  let ?u = "snd (send v m ps ?t)"
  have prep: "prepare_params v (Some (run, pins)) m ps s = (Inr ps, s\<lparr>io := ?t\<rparr>)"
    using assms(2) starts_keys [OF assms(1)] by (simp add: prepare_params_def starts_pinned [OF assms(1)] on_io_def check_sender_def Let_def)
  have send: "on_io (send v m ps) (s\<lparr>io := ?t\<rparr>) = (runtime v (Suc (now (io s))) m ps, s\<lparr>io := ?u\<rparr>)"
    by (simp add: on_io_def send_def)
  have ans: "truthy i" "map_of ps ''expectedIdentityId'' = Some i" using assms(1) by (simp_all add: starts_def)
  show ?thesis
  proof (cases "runtime v (Suc (now (io s))) m ps")
    case (Inl e)
    have "owns run (snd (record_input m ps (JObj [(''identityId'', i), (''name'', get_json ps ''name'')]) (Some (run, pins)) True (owned s))) (i, c)"
      by (rule record_started [OF assms(1)]) (simp_all add: answered_identity_def get_json_def dict_get_def ans)
    moreover have "answer_lost e" using assms(3) by (simp add: Inl may_run_def)
    ultimately show ?thesis
      using starts_not_batch [OF assms(1)] ans
      by (auto simp: owned_request_def prep send [unfolded Inl] pending_requests_def record_action_def
          get_json_def dict_get_def split: prod.split sum.split)
  next
    case (Inr j)
    then obtain r where j: "j = JObj r" "get_json r ''identityId'' = i" "case loop_of r of Inr l \<Rightarrow> True | Inl e \<Rightarrow> False"
      using assms(3) by (auto simp: may_run_def split: json.splits)
    have "owns run (snd (record_input m ps (JObj r) (Some (run, pins)) False (owned s))) (i, c)"
      by (rule record_started [OF assms(1)]) (simp_all add: answered_identity_def j ans)
    then show ?thesis
      using starts_not_batch [OF assms(1)]
      by (auto simp: owned_request_def prep send [unfolded Inr j] record_action_def split: prod.split sum.split)
  qed
qed

lemma owns_owned_by: "owns run d k \<Longrightarrow> \<exists>o'. (k, o') \<in> set (owned_by run d)"
  by (auto simp: owns_def owned_by_def dest: map_of_SomeD split: option.splits)

definition stop_sent :: "service_state \<Rightarrow> service_state \<Rightarrow> channel_key \<Rightarrow> bool" where
  "stop_sent s t k = list_ex (\<lambda>(n, r). \<exists>o'. r = stop_request k o') (drop (length (sent s)) (sent t))"


definition move_params :: params where
  "move_params = [(''name'', JStr ''Bot3''), (''direction'', JStr ''forward''), (''expectedIdentityId'', JStr ''b3'')]"

definition lost_service :: service where
  "lost_service = echo_service\<lparr>runtime := (\<lambda>n m ps. Inl (Control_Error ''unavailable'' ''gone''))\<rparr>"


text \<open>Each request of a scope follows a look at the permission, and a continuing input names its Bot's UUID.\<close>

definition looked_at :: "service \<Rightarrow> nat \<times> string \<times> params \<Rightarrow> bool" where
  "looked_at v x = (case x of (n, m, ps) \<Rightarrow> 0 < n \<and> may v (n - 1) \<and> (continuing m \<longrightarrow> ''expectedIdentityId'' \<in> set (keys ps)))"

definition just_looked :: "service \<Rightarrow> service_state \<Rightarrow> bool" where
  "just_looked v s \<longleftrightarrow> 0 < now s \<and> may v (now s - 1)"

lemma looked_at_send:
  "just_looked v t \<Longrightarrow> (continuing m \<Longrightarrow> ''expectedIdentityId'' \<in> set (keys ps)) \<Longrightarrow> sends_only (looked_at v) t (snd (send v m ps t))"
  by (simp add: sends_only_def looked_at_def just_looked_def)

lemma io_record_action [simp]: "io (snd (record_action m ps j sc u s)) = io s"
  by (simp add: record_action_def split: prod.split)

lemma io_record_uncertain [simp]: "io (snd (record_uncertain sc rs s)) = io s"
proof (induction sc rs s rule: record_uncertain.induct)
  case (2 sc m ps rs s)
  then show ?case
    using io_record_action by (auto split: prod.split sum.split; metis snd_conv)
qed simp

lemma io_record_answers [simp]: "io (snd (record_answers sc rs js s)) = io s"
proof (induction sc rs js s rule: record_answers.induct)
  case (1 sc m ps rs j js s)
  then show ?case
    using io_record_action by (auto split: json.split option.split prod.split sum.split; metis snd_conv)
qed simp_all

lemma sends_only_ibind:
  assumes "sends_only Q (io s) (io (snd (m s)))" "\<And>x t. m s = (Inr x, t) \<Longrightarrow> sends_only Q (io t) (io (snd (f x t)))"
  shows "sends_only Q (io s) (io (snd (ibind m f s)))"
proof (cases "m s")
  case (Pair r t)
  with assms show ?thesis by (cases r) (auto intro: sends_only_trans)
qed

lemma ibind_InrE:
  assumes "ibind m f s = (Inr y, u)"
  obtains x t where "m s = (Inr x, t)" "f x t = (Inr y, u)"
  using assms by (auto split: prod.splits sum.splits)

lemma on_io_InrE:
  assumes "on_io m s = (Inr x, t)"
  obtains w where "m (io s) = (Inr x, w)" "t = s\<lparr>io := w\<rparr>"
  using assms by (auto simp: on_io_def split: prod.splits)

lemma io_on_io [simp]: "io (snd (on_io m s)) = snd (m (io s))"
  by (simp add: on_io_def split: prod.split)

lemma checked: "check_sender v s = (Inr x, t) \<Longrightarrow> just_looked v t"
  by (auto simp: just_looked_def dest: check_passed)

lemma in_keys_dict_set [simp]: "k \<in> fst ` set (dict_set k x d)"
  by (induction d) auto

lemma prepare_params_sends: "sends_only (looked_at v) (io s) (io (snd (prepare_params v (Some (run, pins)) m ps s)))"
proof -
  have st: "\<not> continuing ''status''" by (simp add: continuing_def)
  show ?thesis
    unfolding prepare_params_def Let_def option.case prod.case
    by (intro sends_only_ibind) (auto simp del: ibind_simps intro!: sends_only_ibind looked_at_send simp: st elim!: on_io_InrE dest: checked)
qed

lemma prepare_params_ready:
  assumes "prepare_params v (Some (run, pins)) m ps s = (Inr qs, t)"
  shows "just_looked v (io t)" "continuing m \<Longrightarrow> ''expectedIdentityId'' \<in> set (keys qs)"
  using assms unfolding prepare_params_def Let_def option.case prod.case
  by (auto simp del: ibind_simps elim!: ibind_InrE on_io_InrE dest: checked split: if_splits)

text \<open>Inside a run's scope every request, the lookup of a UUID included, follows with nothing in between a look
  that found the permission, and a request that keeps an input running names the UUID of its Bot, whatever the
  parameters and the answers are.\<close>

theorem scoped_requests_are_checked:
  "sends_only (looked_at v) (io s) (io (snd (owned_request v (Some (run, pins)) m ps s)))"
proof -
  have tail: "sends_only (looked_at v) (io t) (io (snd (case on_io (send v m qs) t of
       (Inl e, s') \<Rightarrow> (if answer_lost e \<and> Some (run, pins) \<noteq> None
          then ibind (on_io (give (pending_requests m qs))) (\<lambda>rs. ibind (record_uncertain (Some (run, pins)) rs) (\<lambda>_ t. (Inl e, t))) s'
          else (Inl e, s'))
     | (Inr j, s') \<Rightarrow> ibind (if m = ''groupInputBatch''
            then ibind (on_io (give (pending_requests m qs))) (\<lambda>rs. ibind (on_io (give (batch_results j))) (record_answers (Some (run, pins)) rs))
            else record_action m qs j (Some (run, pins)) False) (\<lambda>_ t. (Inr j, t)) s')))"
    if "prepare_params v (Some (run, pins)) m ps s = (Inr qs, t)" for qs t
  proof -
    have "sends_only (looked_at v) (io t) (snd (send v m qs (io t)))"
      by (rule looked_at_send) (use prepare_params_ready [OF that] in auto)
    then have *: "sends_only (looked_at v) (io t) (io u)" if "on_io (send v m qs) t = (r, u)" for r u
      using that by (metis io_on_io snd_conv)
    have rec: "record_uncertain sc rs u = (r, w) \<Longrightarrow> io w = io u" "record_answers sc rs js u = (r, w) \<Longrightarrow> io w = io u"
      "record_action m qs j sc False u = (r, w) \<Longrightarrow> io w = io u" for sc rs js j u r w
      by (metis io_record_uncertain snd_conv, metis io_record_answers snd_conv, metis io_record_action snd_conv)
    show ?thesis
      using * by (auto split: prod.split sum.split dest!: rec)
  qed
  show ?thesis
    unfolding owned_request_def
    by (rule sends_only_ibind [OF prepare_params_sends tail])
qed

end
