(* ===== verification/Operations.thy ===== *)
theory Operations
  imports Areas Effects
begin

text \<open>
  Typed operations, \<open>endbot_core/operations.py\<close>: the command arguments of an operation (\<open>operation_argv\<close>) and
  the operation that canonical arguments spell (\<open>parse_operation\<close>). The shared table of \<open>operations.json\<close> is
  the argument \<open>table\<close>; a value is a JSON value. Characters are ASCII, floats exact rationals.
\<close>

record field_spec =
  spec_type :: string
  clause :: "string option"
  choices :: "string list option"

record op_shape =
  positional :: "(string \<times> field_spec) list"
  options :: "(string, field_spec) dict"
  prefix :: "string list"

type_synonym table = "(string, op_shape list) dict"
type_synonym fields = "(string, json) dict"

definition real_operation :: "string \<Rightarrow> string" where
  "real_operation op = (if op = ''teleport'' then ''tp'' else op)"

definition root_operations :: "string set" where
  "root_operations = {''list'', ''ping'', ''help''}"

definition option_groups :: "string list list" where
  "option_groups = [[''yaw'', ''pitch''], [''facingX'', ''facingY'', ''facingZ'']]"

section \<open>Regular expressions\<close>

definition player_char :: "char \<Rightarrow> bool" where
  "player_char c \<longleftrightarrow> \<not> is_space c \<and> c \<notin> {CHR 0x22, CHR 0x27, CHR 0x5C, CHR ''~''}"

text \<open>Words of such characters between single spaces; \<open>started\<close> says that the current word has one.\<close>

fun player_words :: "bool \<Rightarrow> string \<Rightarrow> bool" where
  "player_words started [] = started"
| "player_words started (c # cs) =
     (if c = CHR '' '' then started \<and> player_words False cs else player_char c \<and> player_words True cs)"

definition name_char :: "char \<Rightarrow> bool" where
  "name_char c \<longleftrightarrow> is_digit c \<or> ascii_upper c \<or> 97 \<le> code c \<and> code c \<le> 122 \<or> c = CHR ''_''"

text \<open>\<open>(?:\\[[1-9][0-9]*\\])?\<close> as the whole rest.\<close>

definition index_suffix :: "string \<Rightarrow> bool" where
  "index_suffix s \<longleftrightarrow> s = [] \<or>
     (length s \<ge> 3 \<and> hd s = CHR ''['' \<and> last s = CHR '']'' \<and>
      list_all is_digit (butlast (tl s)) \<and> hd (tl s) \<noteq> CHR ''0'')"

definition is_target :: "string \<Rightarrow> bool" where
  "is_target s \<longleftrightarrow> (1 \<le> length s \<and> length s \<le> 16 \<and> list_all name_char s) \<or>
     (case s of [] \<Rightarrow> False | h # r \<Rightarrow>
        h = CHR ''#'' \<and>
        (let n = takeWhile name_char r in
         1 \<le> length n \<and> length n \<le> 16 \<and> \<not> is_digit (hd n) \<and> index_suffix (dropWhile name_char r)))"

definition unsigned :: "string \<Rightarrow> string" where
  "unsigned s = (case s of [] \<Rightarrow> [] | c # r \<Rightarrow> if c = CHR ''-'' then r else s)"

definition int_token :: "string \<Rightarrow> bool" where
  "int_token s \<longleftrightarrow> isdecimal (unsigned s)"

text \<open>\<open>-?\\d+(?:\\.\\d+)?\<close>.\<close>

definition number_token :: "string \<Rightarrow> bool" where
  "number_token s = (let u = unsigned s; r = dropWhile is_digit u in
     takeWhile is_digit u \<noteq> [] \<and> (r = [] \<or> hd r = CHR ''.'' \<and> isdecimal (tl r)))"

definition tilde_token :: "string \<Rightarrow> bool" where
  "tilde_token s = (case s of [] \<Rightarrow> False | c # r \<Rightarrow> c = CHR ''~'' \<and> (r = [] \<or> number_token r))"

section \<open>Values to tokens\<close>

definition bad_argument :: py_error where
  "bad_argument = ValueError ''Invalid typed operation argument''"

definition area_argument :: "json \<Rightarrow> py_error + string list" where
  "area_argument v = (case parse_area True v of Inl e \<Rightarrow> Inl (ValueError (error_text e)) | Inr a \<Rightarrow> Inr (area_tokens a))"

fun finite_value :: "json \<Rightarrow> rat option" where
  "finite_value (JInt i) = Some (of_int i)"
| "finite_value (JFloat (Finite r)) = Some r"
| "finite_value _ = None"

fun text_value :: "json \<Rightarrow> string option" where
  "text_value (JStr s) = Some s"
| "text_value _ = None"

fun is_bool :: "json \<Rightarrow> bool" where
  "is_bool (JBool b) = True"
| "is_bool _ = False"

definition whole_value :: "json \<Rightarrow> bool" where
  "whole_value v = (case finite_value v of None \<Rightarrow> False | Some r \<Rightarrow> of_int \<lfloor>r\<rfloor> = r)"

definition valid_for :: "string \<Rightarrow> json \<Rightarrow> bool" where
  "valid_for kind v =
     (if kind = ''string'' then text_value v \<noteq> None
      else if kind = ''number'' then finite_value v \<noteq> None
      else if kind = ''integer'' then whole_value v
      else if kind = ''boolean'' then is_bool v
      else if kind = ''coordinate'' then finite_value v \<noteq> None \<or> (case text_value v of None \<Rightarrow> False | Some s \<Rightarrow> tilde_token s)
      else if kind = ''stringOrInteger'' then text_value v \<noteq> None \<or> whole_value v
      else if kind = ''player'' then (case text_value v of None \<Rightarrow> False | Some s \<Rightarrow> player_words False s)
      else if kind = ''integerOrDefault'' then text_value v = Some ''default'' \<or> whole_value v
      else False)"

definition chosen :: "field_spec \<Rightarrow> json \<Rightarrow> bool" where
  "chosen sp v = (case choices sp of None \<Rightarrow> True | Some cs \<Rightarrow>
     (case text_value v of None \<Rightarrow> False | Some s \<Rightarrow> s \<in> set cs))"

definition single_token :: "string \<Rightarrow> bool" where
  "single_token s \<longleftrightarrow> s \<noteq> [] \<and> list_all (\<lambda>c. \<not> is_space c \<and> c \<notin> {CHR 0x22, CHR 0x27, CHR 0x5C}) s"

definition scalar :: "json \<Rightarrow> field_spec \<Rightarrow> py_error + string" where
  "scalar v sp =
     (if \<not> valid_for (spec_type sp) v \<or> \<not> chosen sp v then Inl bad_argument
      else (case v of
          JStr s \<Rightarrow>
            if spec_type sp = ''player'' then Inr (if CHR '' '' \<in> set s then shlex_quote s else s)
            else if single_token s then Inr s
            else Inl (ValueError ''Operation arguments must be single tokens'')
        | JBool b \<Rightarrow> Inr (if b then ''on'' else ''off'')
        | _ \<Rightarrow> (case finite_value v of Some r \<Rightarrow> Inr (format_number r) | None \<Rightarrow> Inl bad_argument)))"

section \<open>Arguments of an operation\<close>

definition allowed_fields :: "op_shape \<Rightarrow> (string, field_spec) dict" where
  "allowed_fields sh = fold (\<lambda>(k, sp). dict_set k sp) (options sh) (fold (\<lambda>(k, sp). dict_set k sp) (positional sh) [])"

definition fits :: "op_shape \<Rightarrow> fields \<Rightarrow> bool" where
  "fits sh d \<longleftrightarrow> list_all (\<lambda>k. k \<in> set (keys d)) (keys (positional sh)) \<and>
     list_all (\<lambda>k. k \<in> set (keys (allowed_fields sh))) (keys d)"

definition field_tokens :: "string \<Rightarrow> fields \<Rightarrow> string \<times> field_spec \<Rightarrow> py_error + string list" where
  "field_tokens op d ksp = (case ksp of (k, sp) \<Rightarrow>
     case map_of d k of
       None \<Rightarrow> Inr []
     | Some v \<Rightarrow>
         if op = ''tp'' \<and> k = ''dimension'' then Inr []
         else if spec_type sp = ''area'' then area_argument v
         else ebind (scalar v sp) (\<lambda>t. Inr ((case clause sp of None \<Rightarrow> [] | Some c \<Rightarrow> [c]) @ [t])))"

text \<open>Teleport's dimension is a leading clause.\<close>

definition leading_tokens :: "string \<Rightarrow> op_shape \<Rightarrow> fields \<Rightarrow> py_error + string list" where
  "leading_tokens op sh d = (case (if op = ''tp'' then map_of d ''dimension'' else None) of
     None \<Rightarrow> Inr (prefix sh)
   | Some v \<Rightarrow> (case map_of (allowed_fields sh) ''dimension'' of
         None \<Rightarrow> Inl (KeyError ''dimension'')
       | Some sp \<Rightarrow> ebind (scalar v sp) (\<lambda>t. Inr (''in'' # t # prefix sh))))"

definition shape_argv :: "string \<Rightarrow> op_shape \<Rightarrow> fields \<Rightarrow> py_error + string list" where
  "shape_argv op sh d = ebind (leading_tokens op sh d) (\<lambda>ts.
     ebind (emap (field_tokens op d) (positional sh @ options sh)) (\<lambda>tss. Inr (ts @ concat tss)))"

definition operation_argv :: "table \<Rightarrow> string option \<Rightarrow> string \<Rightarrow> json \<Rightarrow> py_error + string list" where
  "operation_argv table target op0 params =
     (let op = real_operation op0 in
      case (map_of table op, params) of
        (Some shapes, JObj d) \<Rightarrow>
          (if \<not> (op \<in> root_operations \<and> target = None) \<and> (case target of None \<Rightarrow> True | Some t \<Rightarrow> \<not> is_target t)
           then Inl (ValueError ''Invalid Bot or Group name'')
           else (case find (\<lambda>sh. fits sh d) shapes of
               None \<Rightarrow> Inl (ValueError ''Invalid typed operation fields'')
             | Some sh \<Rightarrow> ebind (shape_argv op sh d) (\<lambda>ts. Inr
                 (if op \<in> root_operations then op # ts
                  else (case target of None \<Rightarrow> [] | Some t \<Rightarrow> [t]) @ op # ts))))
      | _ \<Rightarrow> Inl (ValueError ''Unknown typed operation''))"

section \<open>The operation that arguments spell\<close>

definition token_value :: "string \<Rightarrow> field_spec \<Rightarrow> py_error + json" where
  "token_value t sp =
     (let kind = spec_type sp in
      ebind (if kind = ''player''
        then ebind (shlex_split t) (\<lambda>ps. case ps of [p] \<Rightarrow> Inr (JStr p) | _ \<Rightarrow> Inl (ValueError ''Expected one player name''))
        else if kind = ''boolean'' \<and> (t = ''on'' \<or> t = ''off'') then Inr (JBool (t = ''on''))
        else if kind = ''string'' \<or> (kind = ''coordinate'' \<and> starts_with ''~'' t) \<or>
                ((kind = ''stringOrInteger'' \<or> kind = ''integerOrDefault'') \<and> \<not> int_token t)
        then Inr (JStr t)
        else if kind = ''integer'' \<or> kind = ''stringOrInteger'' \<or> kind = ''integerOrDefault''
        then (if int_token t then ebind (py_int t) (\<lambda>i. Inr (JInt i)) else Inl (ValueError ''Expected an integer''))
        else if (kind = ''number'' \<or> kind = ''coordinate'') \<and> number_token t
        then (if CHR ''.'' \<in> set t then ebind (py_float t) (\<lambda>x. Inr (JFloat x)) else ebind (py_int t) (\<lambda>i. Inr (JInt i)))
        else Inl (ValueError ''Unexpected token'')) (\<lambda>v.
      ebind (scalar v sp) (\<lambda>_. Inr v)))"

definition area_clauses :: "string list" where
  "area_clauses = [''within'', ''except'']"

text \<open>Every way to read the tokens as the options, in order.\<close>

fun option_readings :: "(string \<times> field_spec) list \<Rightarrow> string list \<Rightarrow> fields list" where
  "option_readings [] ts = (if ts = [] then [[]] else [])"
| "option_readings ((k, sp) # rest) ts =
     (if spec_type sp = ''area'' then
        (if ts \<noteq> [] \<and> hd ts \<in> set area_clauses \<and> rest = []
         then (case area_argument (JStr (join_with '' '' ts)) of Inl e \<Rightarrow> [] | Inr ws \<Rightarrow> [[(k, JStr (join_with '' '' ws))]])
         else []) @ option_readings rest ts
      else
        (let c = (case clause sp of None \<Rightarrow> [] | Some w \<Rightarrow> [w]) in
         (if take (length c) ts = c \<and> length ts > length c
          then (case token_value (ts ! length c) sp of
              Inl e \<Rightarrow> []
            | Inr v \<Rightarrow> map (\<lambda>d. fold (\<lambda>(i, x). dict_set i x) d [(k, v)]) (option_readings rest (drop (length c + 1) ts)))
          else []) @ option_readings rest ts))"

fun take_words :: "string list \<Rightarrow> string list \<Rightarrow> py_error + string list" where
  "take_words [] ts = Inr ts"
| "take_words (w # ws) ts = (if ts = [] \<or> hd ts \<noteq> w then Inl (ValueError ''Missing literal'') else take_words ws (tl ts))"

fun take_positional :: "(string \<times> field_spec) list \<Rightarrow> string list \<Rightarrow> fields \<Rightarrow> py_error + fields \<times> string list" where
  "take_positional [] ts d = Inr (d, ts)"
| "take_positional ((k, sp) # ps) ts d =
     ebind (case clause sp of
         None \<Rightarrow> Inr ts
       | Some c \<Rightarrow> if ts = [] \<or> hd ts \<noteq> c then Inl (ValueError ''Missing clause'') else Inr (tl ts)) (\<lambda>us.
     if us = [] then Inl (ValueError ''Missing field'')
     else ebind (token_value (hd us) sp) (\<lambda>v. take_positional ps (tl us) (dict_set k v d)))"

definition shape_readings :: "string \<Rightarrow> op_shape \<Rightarrow> string list \<Rightarrow> py_error + fields list" where
  "shape_readings op sh ts =
     (let dimension = (if op = ''tp'' then map_of (options sh) ''dimension'' else None);
          opts = (if dimension = None then options sh else dict_pop ''dimension'' (options sh)) in
      ebind (case dimension of
          None \<Rightarrow> Inr ([], ts)
        | Some sp \<Rightarrow>
            if take 1 ts = [''in''] then ebind (token_value (if length ts > 1 then ts ! 1 else []) sp) (\<lambda>v. Inr ([(''dimension'', v)], drop 2 ts))
            else Inr ([], ts)) (\<lambda>(d, us).
      ebind (take_words (prefix sh) us) (\<lambda>us.
      ebind (take_positional (positional sh) us d) (\<lambda>(d, us).
        Inr (map (\<lambda>found. fold (\<lambda>(i, x). dict_set i x) found d) (option_readings opts us))))))"

record typed_operation =
  op_code :: string
  op_target :: "string option"
  op_fields :: fields

definition argv_of :: "table \<Rightarrow> typed_operation \<Rightarrow> py_error + string list" where
  "argv_of table o' = operation_argv table (op_target o') (op_code o') (JObj (op_fields o'))"

definition part_of_group :: "fields \<Rightarrow> bool" where
  "part_of_group d = list_ex (\<lambda>g. let n = length (filter (\<lambda>k. k \<in> set (keys d)) g) in 0 < n \<and> n < length g) option_groups"

fun first_reading :: "table \<Rightarrow> string list \<Rightarrow> string option \<Rightarrow> string \<Rightarrow> fields list \<Rightarrow> py_error + typed_operation option" where
  "first_reading table tokens target op [] = Inr None"
| "first_reading table tokens target op (d # ds) =
     (let o' = \<lparr>op_code = op, op_target = target, op_fields = d\<rparr> in
      if part_of_group d then first_reading table tokens target op ds
      else ebind (argv_of table o') (\<lambda>ts. if ts = tokens then Inr (Some o') else first_reading table tokens target op ds))"

fun first_shape :: "table \<Rightarrow> string list \<Rightarrow> string option \<Rightarrow> string \<Rightarrow> string list \<Rightarrow> op_shape list \<Rightarrow> py_error + typed_operation option" where
  "first_shape table tokens target op rest [] = Inr None"
| "first_shape table tokens target op rest (sh # shs) =
     (case shape_readings op sh rest of
        Inl e \<Rightarrow> first_shape table tokens target op rest shs
      | Inr ds \<Rightarrow> ebind (first_reading table tokens target op ds) (\<lambda>r. case r of
            None \<Rightarrow> first_shape table tokens target op rest shs | Some o' \<Rightarrow> Inr (Some o')))"

definition parse_operation :: "table \<Rightarrow> string list \<Rightarrow> py_error + typed_operation" where
  "parse_operation table tokens =
     ebind (if tokens \<noteq> [] \<and> hd tokens \<in> root_operations then Inr (None, hd tokens, tl tokens)
            else if length tokens \<ge> 2 \<and> is_target (hd tokens)
              then Inr (Some (hd tokens), real_operation (tokens ! 1), drop 2 tokens)
            else Inl (ValueError ''Not an operation'')) (\<lambda>(target, op, rest).
     ebind (first_shape table tokens target op rest (dict_get table op [])) (\<lambda>r. case r of
       None \<Rightarrow> Inl (ValueError ''Not a canonical operation'') | Some o' \<Rightarrow> Inr o'))"

definition operation_text :: "table \<Rightarrow> typed_operation \<Rightarrow> py_error + string" where
  "operation_text table o' = ebind (argv_of table o') (\<lambda>ts. Inr (''/bot '' @ join_with '' '' ts))"

text \<open>Free text that is no operation is passed on as it is.\<close>

definition command_text :: "table \<Rightarrow> string \<Rightarrow> string list \<Rightarrow> string" where
  "command_text table command_root args =
     (let plain = ''/'' @ command_root @ '' '' @ join_with '' '' args in
      if command_root = ''bot'' then (case ebind (parse_operation table args) (operation_text table) of Inl e \<Rightarrow> plain | Inr t \<Rightarrow> t)
      else plain)"

end
