(* ===== verification/Operation_Laws.thy ===== *)
theory Operation_Laws
  imports Operations
begin

text \<open>
  The table of \<open>operations.json\<close>, and what operations promise over \<open>Operations\<close>: the arguments of an operation stay
  what they are when they are joined to a command line and split again, so no value can become another command or
  another argument; and what \<open>parse_operation\<close> reads is written back as it was.
\<close>

section \<open>The shipped table\<close>

definition typed :: "string \<Rightarrow> string \<Rightarrow> string \<times> field_spec" where
  "typed k t = (k, \<lparr>spec_type = t, clause = None, choices = None\<rparr>)"

definition led :: "string \<Rightarrow> string \<Rightarrow> string \<Rightarrow> string \<times> field_spec" where
  "led k c t = (k, \<lparr>spec_type = t, clause = Some c, choices = None\<rparr>)"

definition choice :: "string \<Rightarrow> string list \<Rightarrow> string \<times> field_spec" where
  "choice k cs = (k, \<lparr>spec_type = ''string'', clause = None, choices = Some cs\<rparr>)"

definition table_shape :: "(string \<times> field_spec) list \<Rightarrow> (string, field_spec) dict \<Rightarrow> string list \<Rightarrow> op_shape" where
  "table_shape ps os ws = \<lparr>positional = ps, options = os, prefix = ws\<rparr>"

definition shipped_table :: table where
  "shipped_table =
   [(''status'', [table_shape [] [] []]),
    (''inventory'', [table_shape [] [] []]),
    (''entities'', [table_shape [] [] []]),
    (''entity'', [table_shape [] [] [],
      table_shape [typed ''target'' ''string''] [] []]),
    (''target'', [table_shape [] [] []]),
    (''block'', [table_shape [typed ''x'' ''coordinate'', typed ''y'' ''coordinate'', typed ''z'' ''coordinate''] [] []]),
    (''blocks'', [table_shape [typed ''type'' ''string''] [led ''limit'' ''limit'' ''integer'', typed ''area'' ''area''] []]),
    (''resume'', [table_shape [] [] []]),
    (''reconnect'', [table_shape [] [] []]),
    (''despawn'', [table_shape [] [] []]),
    (''forget'', [table_shape [] [] []]),
    (''visibility'', [table_shape [choice ''visibility'' [''shared'', ''private'']] [] []]),
    (''stop'', [table_shape [] [] []]),
    (''dismount'', [table_shape [] [] []]),
    (''menu'', [table_shape [] [] []]),
    (''spawn'', [table_shape [] [] [],
      table_shape [typed ''x'' ''coordinate'', typed ''y'' ''coordinate'', typed ''z'' ''coordinate''] [led ''yaw'' ''facing'' ''number'', typed ''pitch'' ''number'', led ''dimension'' ''in'' ''string''] [''at'']]),
    (''rename'', [table_shape [typed ''name'' ''string''] [] []]),
    (''owner'', [table_shape [typed ''gamertag'' ''string''] [] []]),
    (''tp'', [table_shape [typed ''target'' ''player''] [] [],
      table_shape [typed ''x'' ''coordinate'', typed ''y'' ''coordinate'', typed ''z'' ''coordinate''] [typed ''yaw'' ''number'', typed ''pitch'' ''number'', led ''dimension'' ''in'' ''string'', led ''facing'' ''facing'' ''player'', led ''facingX'' ''facing'' ''coordinate'', typed ''facingY'' ''coordinate'', typed ''facingZ'' ''coordinate''] []]),
    (''move'', [table_shape [choice ''direction'' [''forward'', ''backward'', ''left'', ''right'', ''stop'']] [led ''ticks'' ''for'' ''integer''] []]),
    (''look'', [table_shape [typed ''yaw'' ''number'', typed ''pitch'' ''number''] [] [],
      table_shape [typed ''x'' ''coordinate'', typed ''y'' ''coordinate'', typed ''z'' ''coordinate''] [] [''at'']]),
    (''swap'', [table_shape [typed ''a'' ''integer'', typed ''b'' ''integer''] [] []]),
    (''hold'', [table_shape [typed ''item'' ''string''] [] []]),
    (''hotbar'', [table_shape [] [] [],
      table_shape [typed ''slot'' ''integer''] [] []]),
    (''radius'', [table_shape [] [] [],
      table_shape [typed ''value'' ''integerOrDefault''] [] []]),
    (''interact'', [table_shape [] [] [],
      table_shape [typed ''x'' ''coordinate'', typed ''y'' ''coordinate'', typed ''z'' ''coordinate''] [] [],
      table_shape [typed ''x'' ''coordinate'', typed ''y'' ''coordinate'', typed ''z'' ''coordinate'', choice ''face'' [''down'', ''up'', ''north'', ''south'', ''west'', ''east'']] [] [],
      table_shape [typed ''target'' ''string''] [choice ''mode'' [''once'', ''continuous'', ''stop''], led ''interval'' ''interval'' ''integer'', led ''ticks'' ''for'' ''integer'', led ''count'' ''count'' ''integer'', typed ''area'' ''area''] []]),
    (''destroy'', [table_shape [] [choice ''mode'' [''once'', ''continuous'', ''stop''], led ''ticks'' ''for'' ''integer'', led ''count'' ''count'' ''integer'', typed ''area'' ''area''] [],
      table_shape [typed ''x'' ''coordinate'', typed ''y'' ''coordinate'', typed ''z'' ''coordinate''] [choice ''face'' [''down'', ''up'', ''north'', ''south'', ''west'', ''east'']] [],
      table_shape [typed ''type'' ''string''] [choice ''mode'' [''continuous''], led ''ticks'' ''for'' ''integer'', led ''count'' ''count'' ''integer'', typed ''area'' ''area''] []]),
    (''drop'', [table_shape [] [] [],
      table_shape [typed ''selector'' ''stringOrInteger''] [typed ''count'' ''integer''] []]),
    (''jump'', [table_shape [] [choice ''mode'' [''once'', ''continuous'', ''stop''], led ''interval'' ''interval'' ''integer'', led ''ticks'' ''for'' ''integer''] []]),
    (''attack'', [table_shape [] [choice ''mode'' [''once'', ''continuous'', ''stop''], led ''interval'' ''interval'' ''integer'', led ''ticks'' ''for'' ''integer''] [],
      table_shape [typed ''target'' ''string''] [choice ''mode'' [''once'', ''continuous'', ''stop''], led ''interval'' ''interval'' ''integer'', led ''ticks'' ''for'' ''integer'', led ''count'' ''count'' ''integer''] []]),
    (''use'', [table_shape [] [choice ''mode'' [''once'', ''continuous'', ''stop''], led ''interval'' ''interval'' ''integer'', led ''hold'' ''hold'' ''integer'', led ''ticks'' ''for'' ''integer''] []]),
    (''sprint'', [table_shape [typed ''value'' ''boolean''] [] []]),
    (''sneak'', [table_shape [typed ''value'' ''boolean''] [] []]),
    (''list'', [table_shape [] [] []]),
    (''ping'', [table_shape [] [] []]),
    (''help'', [table_shape [] [] [],
      table_shape [typed ''topic'' ''stringOrInteger''] [] []])]"

section \<open>Tokens that read back\<close>

definition plain_char :: "char \<Rightarrow> bool" where
  "plain_char c \<longleftrightarrow> \<not> is_white c \<and> \<not> is_quote c \<and> c \<noteq> backslash"

definition plain :: "string \<Rightarrow> bool" where
  "plain s \<longleftrightarrow> s \<noteq> [] \<and> list_all plain_char s"

text \<open>A token as it stands on a line, and the word that splitting the line makes of it.\<close>

definition reads :: "string \<Rightarrow> string \<Rightarrow> bool" where
  "reads s v \<longleftrightarrow> (\<forall>rest. split_from Between False [] (s @ rest) = split_from Word True v rest)"

lemma split_plain_word:
  "list_all plain_char s \<Longrightarrow> split_from Word True w (s @ rest) = split_from Word True (w @ s) rest"
  by (induction s arbitrary: w) (auto simp: plain_char_def)

lemma reads_plain: "plain s \<Longrightarrow> reads s s"
proof (cases s)
  case (Cons c cs)
  assume "plain s"
  with Cons have "\<not> is_white c" "\<not> is_quote c" "c \<noteq> backslash" "list_all plain_char cs"
    by (simp_all add: plain_def plain_char_def)
  with Cons show ?thesis by (simp add: reads_def split_plain_word)
qed (simp add: plain_def)

lemma reads_quote: "reads (shlex_quote v) v"
  by (simp add: reads_def split_quoted)

lemma split_reads:
  "list_all2 reads ts vs \<Longrightarrow> split_from Word True w (concat (map (\<lambda>t. CHR '' '' # t) ts)) = Inr (w # vs)"
proof (induction arbitrary: w rule: list_all2_induct)
  case (Cons t ts v vs)
  then show ?case by (simp add: reads_def is_white_def)
qed simp

lemma shlex_reads: "list_all2 reads ts vs \<Longrightarrow> shlex_split (join_with '' '' ts) = Inr vs"
proof (cases ts)
  case (Cons t us)
  assume "list_all2 reads ts vs"
  with Cons obtain v ws where v: "vs = v # ws" "reads t v" "list_all2 reads us ws" by (auto simp: list_all2_Cons1)
  have m: "(@) '' '' = (#) (CHR '' '')" by (simp add: fun_eq_iff)
  from Cons v split_reads [of us ws v] show ?thesis
    by (simp add: shlex_split_def join_with_def reads_def m)
qed (simp add: shlex_split_def join_with_def)

definition readable_token :: "string \<Rightarrow> bool" where
  "readable_token t \<longleftrightarrow> (\<exists>v. reads t v)"

lemma readable_plain [intro]: "plain t \<Longrightarrow> readable_token t"
  using reads_plain by (auto simp: readable_token_def)

lemma readable_list: "list_all readable_token ts \<Longrightarrow> \<exists>vs. list_all2 reads ts vs"
proof (induction ts)
  case (Cons t ts)
  then show ?case by (auto simp: readable_token_def intro: list_all2_Cons [THEN iffD2])
qed (auto intro: exI [of _ "[]"])

section \<open>What the tokens are\<close>

lemma plain_digit: "is_digit c \<Longrightarrow> plain_char c"
  by (auto simp: plain_char_def is_white_def is_quote_def backslash_def is_digit_def code_def)

lemma plain_chars_nat: "list_all plain_char (show_nat n)"
  using show_nat_digits(1) [of n] plain_digit by (auto simp: list_all_iff)

lemma plain_marks: "plain_char (CHR ''-'')" "plain_char (CHR ''.'')" "plain_char (CHR ''e'')" "plain_char (CHR ''0'')"
  "plain_char (CHR ''~'')" "plain_char (CHR ''#'')"
  by code_simp+

lemma list_all_take: "list_all P xs \<Longrightarrow> list_all P (take n xs)" and list_all_drop: "list_all P xs \<Longrightarrow> list_all P (drop n xs)"
  by (auto simp: list_all_iff dest: in_set_takeD in_set_dropD)

lemma plain_format: "plain (format_number r)"
proof -
  have "list_all plain_char (show_int i)" for i
    by (auto simp: show_int_def plain_chars_nat plain_marks)
  moreover have "list_all plain_char (repr_fraction q)" for q
    by (auto simp: repr_fraction_def Let_def pad2_def plain_chars_nat plain_marks list_all_take list_all_drop list_all_iff [of _ "replicate _ _"])
  moreover have "show_int i \<noteq> []" for i by (auto simp: show_int_def show_nat_digits)
  moreover have "repr_fraction q \<noteq> []" for q
    using show_nat_digits(2) by (auto simp: repr_fraction_def Let_def)
  ultimately show ?thesis by (auto simp: plain_def format_number_def)
qed

lemma plain_coord: "plain (format_coord c)"
proof (cases c)
  case (Tagged t r)
  then show ?thesis using plain_format [of r] plain_marks by (auto simp: plain_def)
qed (simp add: plain_format)

lemma plain_words: "plain ''of''" "plain ''within''" "plain ''except''" "plain ''on''" "plain ''off''" "plain ''in''"
  by code_simp+

lemma plain_shape: "list_all plain (shape_tokens s)"
proof (cases s rule: shape_tokens.cases)
  case (1 p)
  then show ?thesis by (cases p) (simp add: plain_coord)
next
  case (2 p q)
  then show ?thesis by (cases p; cases q) (simp add: plain_coord)
next
  case (4 r p)
  then show ?thesis by (cases p) (simp add: plain_coord plain_format plain_words)
qed (simp_all add: plain_format)

lemma plain_area: "list_all plain (area_tokens a)"
proof -
  have "list_all plain (concat (map (\<lambda>s. ''except'' # shape_tokens s) es))" for es
    by (induction es) (simp_all add: plain_shape plain_words)
  then show ?thesis by (auto simp: area_tokens_def plain_shape plain_words split: option.split)
qed

lemma space_white: "\<not> is_space c \<Longrightarrow> \<not> is_white c"
  by (auto simp: is_white_def is_space_def code_def)

lemma plain_single: "single_token s \<Longrightarrow> plain s"
  by (auto simp: single_token_def plain_def list_all_iff plain_char_def is_quote_def backslash_def dest: space_white)

lemma plain_player: "player_words st s \<Longrightarrow> CHR '' '' \<notin> set s \<Longrightarrow> list_all plain_char s \<and> (s = [] \<longrightarrow> st)"
  by (induction st s rule: player_words.induct)
    (auto simp: player_char_def plain_char_def is_quote_def backslash_def dest: space_white)

lemma scalar_readable: "scalar v sp = Inr t \<Longrightarrow> readable_token t"
proof (cases v)
  case (JStr s)
  assume t: "scalar v sp = Inr t"
  show ?thesis
  proof (cases "spec_type sp = ''player''")
    case True
    with t JStr have w: "player_words False s" by (auto simp: scalar_def valid_for_def split: if_splits)
    show ?thesis
    proof (cases "CHR '' '' \<in> set s")
      case True
      with t JStr \<open>spec_type sp = ''player''\<close> have "t = shlex_quote s" by (simp add: scalar_def split: if_splits)
      then show ?thesis using reads_quote by (auto simp: readable_token_def)
    next
      case False
      with plain_player [OF w] have "plain s" by (auto simp: plain_def)
      moreover have "t = s" using t JStr True False by (simp add: scalar_def split: if_splits)
      ultimately show ?thesis by blast
    qed
  next
    case False
    with t JStr have "t = s \<and> single_token s" by (auto simp: scalar_def split: if_splits)
    then show ?thesis using plain_single by blast
  qed
next
  case (JBool b)
  assume "scalar v sp = Inr t"
  with JBool have "t = ''on'' \<or> t = ''off''" by (auto simp: scalar_def split: if_splits)
  then show ?thesis using plain_words by blast
qed (auto simp: scalar_def plain_format split: if_splits option.splits)

definition clause_plain :: "string \<times> field_spec \<Rightarrow> bool" where
  "clause_plain ksp = (case clause (snd ksp) of None \<Rightarrow> True | Some c \<Rightarrow> plain c)"

definition table_plain :: "table \<Rightarrow> bool" where
  "table_plain table = list_all (\<lambda>(op, shs). plain op \<and>
     list_all (\<lambda>sh. list_all plain (prefix sh) \<and> list_all clause_plain (positional sh @ options sh)) shs) table"

lemma shipped_plain: "table_plain shipped_table"
  by code_simp

lemma readable_all: "list_all plain ts \<Longrightarrow> list_all readable_token ts"
  by (auto simp: list_all_iff)

lemma field_tokens_readable:
  "field_tokens op d ksp = Inr ts \<Longrightarrow> clause_plain ksp \<Longrightarrow> list_all readable_token ts"
  by (auto simp: field_tokens_def area_argument_def clause_plain_def readable_all [OF plain_area] scalar_readable
      split: prod.splits option.splits if_splits sum.splits)

lemma emap_concat:
  "emap f xs = Inr yss \<Longrightarrow> \<forall>x\<in>set xs. \<forall>ys. f x = Inr ys \<longrightarrow> list_all P ys \<Longrightarrow> list_all P (concat yss)"
  by (induction xs arbitrary: yss) auto

lemma shape_argv_readable:
  assumes "shape_argv op sh d = Inr ts" "list_all plain (prefix sh)" "list_all clause_plain (positional sh @ options sh)"
  shows "list_all readable_token ts"
proof -
  obtain us tss where us: "leading_tokens op sh d = Inr us" and tss: "emap (field_tokens op d) (positional sh @ options sh) = Inr tss"
    and ts: "ts = us @ concat tss"
    using assms(1) by (auto simp: shape_argv_def)
  have "list_all readable_token us"
    using us assms(2) plain_words
    by (auto simp: leading_tokens_def readable_all scalar_readable split: option.splits)
  moreover have "list_all readable_token (concat tss)"
    by (rule emap_concat [OF tss]) (use assms(3) field_tokens_readable in \<open>auto simp: list_all_iff\<close>)
  ultimately show ?thesis using ts by simp
qed

lemma name_plain: "name_char c \<Longrightarrow> plain_char c"
  by (auto simp: name_char_def plain_char_def is_white_def is_quote_def backslash_def is_digit_def ascii_upper_def code_def)

lemma target_plain: "is_target t \<Longrightarrow> plain t"
proof -
  have index: "list_all plain_char s" if "index_suffix s" for s
  proof (cases "s = []")
    case False
    with that obtain c r where s: "s = c # r" "c = CHR ''[''" "r \<noteq> []" "last r = CHR '']''" "list_all is_digit (butlast r)"
      by (cases s) (auto simp: index_suffix_def split: if_splits)
    have marks: "plain_char (CHR ''['')" "plain_char (CHR '']'')" by code_simp+
    have "list_all plain_char (butlast r @ [last r])"
      using s(4,5) marks by (auto simp: list_all_iff plain_digit)
    then show ?thesis using s(1-3) marks by simp
  qed simp
  assume t: "is_target t"
  then consider "list_all name_char t" "t \<noteq> []" | r where "t = CHR ''#'' # r" "index_suffix (dropWhile name_char r)"
    by (cases t) (auto simp: is_target_def Let_def)
  then show "plain t"
  proof cases
    case 1
    then show ?thesis by (auto simp: plain_def list_all_iff name_plain)
  next
    case 2
    have "list_all plain_char (takeWhile name_char r)" by (auto simp: list_all_iff name_plain dest: set_takeWhileD)
    with index [OF 2(2)] have "list_all plain_char (takeWhile name_char r @ dropWhile name_char r)"
      by (simp only: list_all_append simp_thms)
    then have "list_all plain_char r" by (simp only: takeWhile_dropWhile_id)
    then show ?thesis using 2(1) plain_marks by (simp add: plain_def)
  qed
qed

text \<open>What stands in front of an operation's own arguments.\<close>

definition head_words :: "string option \<Rightarrow> string \<Rightarrow> string list" where
  "head_words target op = (if op \<in> root_operations then [op] else (case target of None \<Rightarrow> [] | Some t \<Rightarrow> [t]) @ [op])"

text \<open>C21: The arguments of an operation, joined to a line and split as the command parser splits it, come back one for
  one, behind the operation's own target and name: whatever a script or form puts into a field, it stays one argument of
  this operation and never becomes another command, target or argument.\<close>

theorem arguments_stay_arguments:
  assumes "operation_argv table target op params = Inr ts" "table_plain table"
  shows "\<exists>vs. shlex_split (join_with '' '' ts) = Inr (head_words target (real_operation op) @ vs) \<and>
    length ts = length (head_words target (real_operation op)) + length vs"
proof -
  obtain shs d sh us where shs: "map_of table (real_operation op) = Some shs" and sh: "find (\<lambda>sh. fits sh d) shs = Some sh"
    and us: "shape_argv (real_operation op) sh d = Inr us" and ts: "ts = head_words target (real_operation op) @ us"
    and t: "real_operation op \<in> root_operations \<or> (\<exists>t. target = Some t \<and> is_target t)"
    using assms(1) by (auto simp: operation_argv_def Let_def head_words_def split: option.splits json.splits if_splits)
  have row: "plain (real_operation op)" "list_all plain (prefix sh)" "list_all clause_plain (positional sh @ options sh)"
    using assms(2) map_of_SomeD [OF shs] sh by (auto simp: table_plain_def list_all_iff find_Some_iff dest!: bspec)
  have heads: "list_all2 reads (head_words target (real_operation op)) (head_words target (real_operation op))"
    using reads_plain [OF row(1)] t by (auto simp: head_words_def reads_plain target_plain)
  obtain vs where vs: "list_all2 reads us vs"
    using readable_list [OF shape_argv_readable [OF us row(2,3)]] by blast
  have "list_all2 reads ts (head_words target (real_operation op) @ vs)"
    unfolding ts by (rule list_all2_appendI [OF heads vs])
  from shlex_reads [OF this] show ?thesis using ts list_all2_lengthD [OF vs] by auto
qed

definition steve_teleports :: json where
  "steve_teleports = JObj [(''target'', JStr ''Alex the Great'')]"

lemma teleport_words: "operation_argv shipped_table (Some ''Miner'') ''teleport'' steve_teleports =
    Inr [''Miner'', ''tp'', shlex_quote ''Alex the Great'']"
  by code_simp

theorem arguments_stay_arguments_witness:
  "\<exists>vs. shlex_split (join_with '' '' [''Miner'', ''tp'', shlex_quote ''Alex the Great'']) =
      Inr (head_words (Some ''Miner'') (real_operation ''teleport'') @ vs) \<and>
    length [''Miner'', ''tp'', shlex_quote ''Alex the Great''] = length (head_words (Some ''Miner'') (real_operation ''teleport'')) + length vs"
  by (rule arguments_stay_arguments [OF teleport_words shipped_plain])

section \<open>Reading an operation back\<close>

lemma first_reading_argv: "first_reading table tokens target op ds = Inr (Some o') \<Longrightarrow> argv_of table o' = Inr tokens"
  by (induction ds) (auto simp: Let_def split: if_splits)

lemma first_shape_argv: "first_shape table tokens target op rest shs = Inr (Some o') \<Longrightarrow> argv_of table o' = Inr tokens"
  by (induction shs) (auto split: sum.splits option.splits dest: first_reading_argv)

text \<open>Arguments that are read as an operation are exactly the arguments that operation is written with.\<close>

theorem parsed_operation_writes_back:
  assumes "parse_operation table tokens = Inr o'"
  shows "operation_argv table (op_target o') (op_code o') (JObj (op_fields o')) = Inr tokens"
  using assms first_shape_argv [unfolded argv_of_def]
  by (auto simp: parse_operation_def split: if_splits option.splits)

lemma destroy_reads: "parse_operation shipped_table [''Alice'', ''destroy'', ''oak_log'', ''count'', ''5'', ''within'', ''6''] =
    Inr \<lparr>op_code = ''destroy'', op_target = Some ''Alice'',
      op_fields = [(''type'', JStr ''oak_log''), (''count'', JInt 5), (''area'', JStr ''within 6'')]\<rparr>"
  by code_simp

theorem parsed_operation_writes_back_witness:
  "operation_argv shipped_table (Some ''Alice'') ''destroy''
     (JObj [(''type'', JStr ''oak_log''), (''count'', JInt 5), (''area'', JStr ''within 6'')]) =
   Inr [''Alice'', ''destroy'', ''oak_log'', ''count'', ''5'', ''within'', ''6'']"
  using parsed_operation_writes_back [OF destroy_reads] by simp

end
