(* ===== verification/Area_Laws.thy ===== *)
theory Area_Laws
  imports Areas
begin

text \<open>
  What areas promise: a resolved area resolves to itself against any position, and \<open>cells\<close> lists exactly
  the blocks \<open>contains\<close> admits, each once and boundedly many.
\<close>

section \<open>Resolution\<close>

text \<open>Shapes as \<open>resolve_shape\<close> leaves them.\<close>

definition in_world :: "rat point \<Rightarrow> bool" where
  "in_world p \<longleftrightarrow> all_point (\<lambda>v. \<bar>v\<bar> \<le> world_limit) p"

fun resolved_shape :: "bool \<Rightarrow> shape \<Rightarrow> bool" where
  "resolved_shape inside (Cell p) = (\<exists>c. p = on_point cell_coord c \<and> in_world (on_point of_int c))"
| "resolved_shape inside (Box p q) = (\<exists>l h. p = on_point cell_coord l \<and> q = on_point cell_coord h \<and>
     in_world (on_point of_int l) \<and> in_world (on_point of_int h) \<and> all_point id (with_points (\<le>) l h) \<and>
     (inside \<longrightarrow> product (with_points (\<lambda>l h. h - l + 1) l h) \<le> max_cells))"
| "resolved_shape inside (Sphere r p) = (0 < r \<and> (inside \<longrightarrow> r \<le> max_radius) \<and>
     (\<exists>c. p = Some (on_point At c) \<and> in_world c))"
| "resolved_shape inside Other_shape = False"

lemma world_floor: "\<bar>v\<bar> \<le> world_limit \<Longrightarrow> \<bar>of_int \<lfloor>v\<rfloor>\<bar> \<le> world_limit"
proof -
  assume v: "\<bar>v\<bar> \<le> world_limit"
  then have "of_int (- 30000000) \<le> v" "v \<le> of_int 30000000" by (auto simp: world_limit_def)
  then have "- 30000000 \<le> \<lfloor>v\<rfloor>" "\<lfloor>v\<rfloor> \<le> 30000000"
    using floor_mono [OF \<open>v \<le> of_int 30000000\<close>] by (simp_all add: le_floor_iff)
  then have "\<bar>\<lfloor>v\<rfloor>\<bar> \<le> 30000000" by linarith
  then have "\<bar>of_int \<lfloor>v\<rfloor>\<bar> \<le> (of_int 30000000 :: rat)" by (simp only: of_int_abs [symmetric] of_int_le_iff)
  then show ?thesis by (simp add: world_limit_def)
qed

lemma resolve_point_in_world: "resolve_point p base = Inr q \<Longrightarrow> in_world q"
  by (auto simp: resolve_point_def in_world_def split: if_splits)

lemma in_world_floors: "in_world q \<Longrightarrow> in_world (on_point of_int (floors q))"
  by (cases q) (auto simp: in_world_def floors_def world_floor)

lemma in_world_min_max:
  "in_world (on_point of_int a) \<Longrightarrow> in_world (on_point of_int b) \<Longrightarrow>
   in_world (on_point of_int (with_points min a b)) \<and> in_world (on_point of_int (with_points max a b))"
  by (cases a; cases b) (auto simp: in_world_def min_def max_def)

lemma resolved_by_resolve: "resolve_shape s base inside = Inr s' \<Longrightarrow> resolved_shape inside s'"
proof (cases s)
  case (Cell p)
  assume "resolve_shape s base inside = Inr s'"
  then obtain q where q: "resolve_point p base = Inr q" "s' = Cell (on_point cell_coord (floors q))" using Cell by auto
  then show ?thesis using in_world_floors [OF resolve_point_in_world [OF q(1)]] unfolding q(2) resolved_shape.simps by blast
next
  case (Box p q)
  assume "resolve_shape s base inside = Inr s'"
  then obtain a b where *: "resolve_point p base = Inr a" "resolve_point q base = Inr b"
    "inside \<longrightarrow> product (with_points (\<lambda>l h. h - l + 1) (with_points min (floors a) (floors b)) (with_points max (floors a) (floors b))) \<le> max_cells"
    "s' = Box (on_point cell_coord (with_points min (floors a) (floors b))) (on_point cell_coord (with_points max (floors a) (floors b)))"
    using Box by (auto simp: Let_def split: if_splits)
  have "all_point id (with_points (\<le>) (with_points min (floors a) (floors b)) (with_points max (floors a) (floors b)))"
    by (cases "floors a"; cases "floors b") auto
  then show ?thesis using * in_world_min_max [of "floors a" "floors b"] in_world_floors resolve_point_in_world
    unfolding *(4) resolved_shape.simps by blast
next
  case (Sphere r p)
  assume "resolve_shape s base inside = Inr s'"
  then show ?thesis using Sphere by (auto split: if_splits dest: resolve_point_in_world)
qed simp

lemma resolve_plain_point: "in_world c \<Longrightarrow> resolve_point (on_point At c) base = Inr c"
  by (cases c; cases base) (simp add: resolve_point_def in_world_def)

lemma cell_coord_At: "on_point cell_coord c = on_point At (on_point of_int c)"
  by (cases c) (simp add: cell_coord_def)

lemma floors_of_int [simp]: "floors (on_point of_int c) = c"
  by (cases c) (simp add: floors_def)

lemma resolve_resolved: "resolved_shape inside s \<Longrightarrow> resolve_shape s base inside = Inr s"
proof (cases s)
  case (Box p q)
  assume "resolved_shape inside s"
  then obtain l h where *: "p = on_point cell_coord l" "q = on_point cell_coord h" "in_world (on_point of_int l)"
      "in_world (on_point of_int h)" "all_point id (with_points (\<le>) l h)"
      "inside \<longrightarrow> product (with_points (\<lambda>l h. h - l + 1) l h) \<le> max_cells"
    using Box by auto
  have "with_points min l h = l" "with_points max l h = h"
    using *(5) by (cases l; cases h; auto)+
  then show ?thesis using * unfolding Box by (simp add: cell_coord_At resolve_plain_point Let_def not_less del: on_point_simps)
next
  case (Cell p)
  assume "resolved_shape inside s"
  then obtain c where "p = on_point cell_coord c" "in_world (on_point of_int c)" using Cell by auto
  then show ?thesis unfolding Cell by (simp add: cell_coord_At resolve_plain_point del: on_point_simps)
next
  case (Sphere r p)
  assume "resolved_shape inside s"
  then obtain c where "p = Some (on_point At c)" "in_world c" "0 < r" "inside \<longrightarrow> r \<le> max_radius" using Sphere by auto
  then show ?thesis unfolding Sphere by (simp add: resolve_plain_point not_le not_less)
qed simp

lemma resolved_not_relative: "resolved_shape inside s \<Longrightarrow> \<not> shape_relative s"
proof -
  have "\<not> list_ex is_tagged (point_list (on_point cell_coord c))" for c
    by (cases c) (simp add: cell_coord_def)
  moreover have "\<not> list_ex is_tagged (point_list (on_point At c))" for c by (cases c) simp
  ultimately show "resolved_shape inside s \<Longrightarrow> \<not> shape_relative s" by (cases s) auto
qed

definition resolved_area :: "area \<Rightarrow> bool" where
  "resolved_area a \<longleftrightarrow> (\<forall>s. within_shape a = Some s \<longrightarrow> resolved_shape True s) \<and> list_all (resolved_shape False) (except_shapes a)"

lemma resolve_area_resolved: "resolve_area a base = Inr b \<Longrightarrow> resolved_area b"
  by (auto simp: resolve_area_def resolved_area_def list_all_iff resolved_by_resolve split: option.splits dest: emap_InrD)

text \<open>Resolution is final: an area resolved against one position has no relative coordinate left and resolves to
  itself against every other position, so a continuous job keeps its area while the Bot moves.\<close>

theorem resolution_is_final:
  assumes "resolve_area a base = Inr b"
  shows "resolve_area b base' = Inr b \<and> \<not> has_relative (Some b)"
proof
  from assms have r: "resolved_area b" by (rule resolve_area_resolved)
  then have "emap (\<lambda>s. resolve_shape s base' False) (except_shapes b) = Inr (except_shapes b)"
    by (intro emap_id) (auto simp: resolved_area_def list_all_iff resolve_resolved)
  with r show "resolve_area b base' = Inr b"
    by (auto simp: resolve_area_def resolved_area_def resolve_resolved split: option.splits)
  show "\<not> has_relative (Some b)"
    using r by (cases "within_shape b") (auto simp: resolved_area_def list_ex_iff list_all_iff dest: resolved_not_relative)
qed

section \<open>The blocks of an area\<close>

lemma grid_set: "c \<in> set (grid l h) \<longleftrightarrow> all_point id (with_points (\<le>) l c) \<and> all_point id (with_points (\<le>) c h)"
  by (cases l; cases h; cases c) auto

lemma distinct_grid: "distinct (grid l h)"
  by (cases l; cases h) (simp add: distinct_product)

lemma length_grid: "int (length (grid l h)) = product (with_points (\<lambda>l h. max 0 (h - l + 1)) l h)"
  by (cases l; cases h) (simp add: max_def)

definition axis_cap :: int where
  "axis_cap = 34"

lemma product_le: "all_point (\<lambda>n. 0 \<le> n \<and> n \<le> m) p \<Longrightarrow> product p \<le> m * m * m"
  by (cases p) (auto intro!: mult_mono)

lemma le_of_int_cases: "(of_int i :: rat) \<le> v \<longleftrightarrow> i \<le> \<lfloor>v\<rfloor>"
  by (simp add: le_floor_iff)

lemma abs_le_square: "square x \<le> square r \<Longrightarrow> 0 \<le> r \<Longrightarrow> \<bar>x\<bar> \<le> r"
  by (metis square_def abs_le_square_iff power2_eq_square abs_of_nonneg)

lemma sum_of_squares:
  assumes "square a + square b + square c \<le> square r" "0 < r"
  shows "\<bar>a\<bar> \<le> r" and "\<bar>b\<bar> \<le> r" and "\<bar>c\<bar> \<le> r"
proof -
  have "0 \<le> square a" "0 \<le> square b" "0 \<le> square c" by (simp_all add: square_def)
  then have "square a \<le> square r" "square b \<le> square r" "square c \<le> square r" using assms(1) by linarith+
  then show "\<bar>a\<bar> \<le> r" "\<bar>b\<bar> \<le> r" "\<bar>c\<bar> \<le> r" using assms(2) by (auto intro: abs_le_square)
qed

lemma near_centre:
  fixes v r :: rat
  assumes "\<bar>v - (of_int i + 1 / 2)\<bar> \<le> r"
  shows "\<lfloor>v - r - 1 / 2\<rfloor> \<le> i \<and> i \<le> \<lfloor>v + r - 1 / 2\<rfloor>"
proof -
  from assms have "v - r - 1 / 2 \<le> of_int i" "of_int i \<le> v + r - 1 / 2" by linarith+
  then show ?thesis using floor_mono [of "v - r - 1 / 2" "of_int i"] by (simp add: le_floor_iff)
qed

lemma sphere_axis: "r \<le> max_radius \<Longrightarrow> 0 < r \<Longrightarrow> 0 \<le> max 0 (\<lfloor>v + r - 1 / 2\<rfloor> - \<lfloor>v - r - 1 / 2\<rfloor> + 1) \<and>
   max 0 (\<lfloor>v + r - 1 / 2\<rfloor> - \<lfloor>v - r - 1 / 2\<rfloor> + 1) \<le> axis_cap" for v r :: rat
proof -
  assume r: "r \<le> max_radius" "0 < r"
  have "of_int \<lfloor>v + r - 1 / 2\<rfloor> \<le> v + r - 1 / 2" "v - r - 1 / 2 < of_int \<lfloor>v - r - 1 / 2\<rfloor> + 1" by linarith+
  then have "of_int (\<lfloor>v + r - 1 / 2\<rfloor> - \<lfloor>v - r - 1 / 2\<rfloor> + 1) < 2 * r + 2" unfolding of_int_add of_int_diff of_int_1 by linarith
  also have "2 * r + 2 \<le> of_int 34" using r by (simp add: max_radius_def)
  finally show ?thesis by (simp only: of_int_less_iff axis_cap_def) linarith
qed

text \<open>What the bounds of a resolved shape promise.\<close>

lemma bounds_cover:
  assumes "resolved_shape True s"
  obtains l h where "shape_bounds s = Some (l, h)" "\<And>c. shape_contains s c \<Longrightarrow> c \<in> set (grid l h)"
    "int (length (grid l h)) \<le> axis_cap * axis_cap * axis_cap"
proof (cases s)
  case (Cell p)
  with assms obtain c where c: "p = on_point cell_coord c" by auto
  have f: "floors (numbers_of p) = c" by (cases c) (simp add: c numbers_of_def cell_coord_def floors_def)
  show ?thesis
  proof (rule that)
    show "shape_bounds s = Some (c, c)" by (simp add: Cell f)
    show "d \<in> set (grid c c)" if "shape_contains s d" for d
      using that by (cases c; cases d) (auto simp: Cell c numbers_of_def cell_coord_def)
    show "int (length (grid c c)) \<le> axis_cap * axis_cap * axis_cap" by (cases c) (simp add: axis_cap_def)
  qed
next
  case (Box p q)
  with assms obtain l h where lh: "p = on_point cell_coord l" "q = on_point cell_coord h" "all_point id (with_points (\<le>) l h)"
      "product (with_points (\<lambda>l h. h - l + 1) l h) \<le> max_cells" by auto
  have f: "floors (numbers_of p) = l" "floors (numbers_of q) = h"
    by (cases l; cases h; simp add: lh numbers_of_def cell_coord_def floors_def)+
  have e: "with_points (\<lambda>l h. max 0 (h - l + 1)) l h = with_points (\<lambda>l h. h - l + 1) l h"
    using lh(3) by (cases l; cases h) auto
  show ?thesis
  proof (rule that)
    show "shape_bounds s = Some (l, h)" by (simp add: Box f)
    show "d \<in> set (grid l h)" if "shape_contains s d" for d
      using that by (cases l; cases h; cases d) (auto simp: Box lh numbers_of_def cell_coord_def)
    show "int (length (grid l h)) \<le> axis_cap * axis_cap * axis_cap"
      using lh(4) by (simp add: length_grid e axis_cap_def max_cells_def)
  qed
next
  case (Sphere r p)
  with assms obtain x y z where c: "p = Some (At x, At y, At z)" "0 < r" "r \<le> max_radius" by fastforce
  let ?l = "on_point (\<lambda>v. \<lfloor>v - r - 1 / 2\<rfloor>) (x, y, z)" and ?h = "on_point (\<lambda>v. \<lfloor>v + r - 1 / 2\<rfloor>) (x, y, z)"
  show ?thesis
  proof (rule that)
    show "shape_bounds s = Some (?l, ?h)" by (simp add: Sphere c numbers_of_def)
    show "d \<in> set (grid ?l ?h)" if "shape_contains s d" for d
    proof (cases d)
      case (fields i j k)
      with that have "square (x - (of_int i + 1 / 2)) + square (y - (of_int j + 1 / 2)) + square (z - (of_int k + 1 / 2)) \<le> square r"
        by (simp add: Sphere c numbers_of_def)
      from sum_of_squares [OF this c(2)] show ?thesis unfolding fields grid_set by (simp add: near_centre)
    qed
    show "int (length (grid ?l ?h)) \<le> axis_cap * axis_cap * axis_cap"
      unfolding length_grid
      by (rule product_le) (simp only: on_point.simps with_points.simps all_point.simps sphere_axis [OF c(3,2)] simp_thms)
  qed
qed (use assms in auto)

text \<open>\<open>cells\<close> enumerates an area exactly: for every area resolved with a \<open>within\<close> clause it returns, without an
  error, each block that \<open>contains\<close> admits once and no other, and never more than 34 per axis.\<close>

theorem cells_are_exactly_the_area:
  assumes "resolve_area a base = Inr b" and "within_shape b \<noteq> None"
  shows "\<exists>cs. cells b = Inr cs \<and> distinct cs \<and> (\<forall>c. c \<in> set cs \<longleftrightarrow> contains (Some b) c) \<and> length cs \<le> 34 * 34 * 34"
proof -
  from assms obtain s where s: "within_shape b = Some s" "resolved_shape True s"
    by (auto simp: resolved_area_def dest: resolve_area_resolved)
  from bounds_cover [OF s(2)] obtain l h where lh: "shape_bounds s = Some (l, h)"
      "\<And>c. shape_contains s c \<Longrightarrow> c \<in> set (grid l h)" "int (length (grid l h)) \<le> axis_cap * axis_cap * axis_cap" by blast
  let ?cs = "filter (contains (Some b)) (grid l h)"
  have "length ?cs \<le> length (grid l h)" by (rule length_filter_le)
  also have "length (grid l h) \<le> 34 * 34 * 34" using lh(3) by (simp add: axis_cap_def)
  finally have "length ?cs \<le> 34 * 34 * 34" .
  moreover have "cells b = Inr ?cs" by (simp add: cells_def bounds_def s(1) lh(1))
  moreover have "c \<in> set ?cs \<longleftrightarrow> contains (Some b) c" for c using lh(2) [of c] s(1) by simp blast
  ultimately show ?thesis using distinct_grid by (intro exI [of _ ?cs]) auto
qed

section \<open>Witnesses\<close>

text \<open>\<open>within ~ ~-1 ~ ~2.5 ~ ~ except ~1 ~ ~\<close> for a Bot at \<open>(0.5, 64, -3.25)\<close>.\<close>

definition example_area :: area where
  "example_area = \<lparr>within_shape = Some (Box (relative 0, relative (-1), relative 0) (relative (5/2), relative 0, relative 0)),
     except_shapes = [Cell (relative 1, relative 0, relative 0)]\<rparr>"

definition example_base :: "rat point" where
  "example_base = (1/2, 64, -13/4)"

definition example_resolved :: area where
  "example_resolved = \<lparr>within_shape = Some (Box (At 0, At 63, At (-4)) (At 3, At 64, At (-4))),
     except_shapes = [Cell (At 1, At 64, At (-4))]\<rparr>"

lemma example_resolves: "resolve_area example_area example_base = Inr example_resolved"
  by code_simp

theorem resolution_is_final_witness:
  "resolve_area example_resolved (7, 8, 9) = Inr example_resolved \<and> \<not> has_relative (Some example_resolved)"
  by (rule resolution_is_final [OF example_resolves])

theorem cells_are_exactly_the_area_witness:
  "\<exists>cs. cells example_resolved = Inr cs \<and> distinct cs \<and>
     (\<forall>c. c \<in> set cs \<longleftrightarrow> contains (Some example_resolved) c) \<and> length cs \<le> 34 * 34 * 34"
  by (rule cells_are_exactly_the_area [OF example_resolves]) (simp add: example_resolved_def)

end
