(* ===== verification/Area_Text.thy ===== *)
theory Area_Text
  imports Area_Laws
begin

text \<open>
  The canonical text of an area and what the parser makes of it: reading it gives the area back, except for
  numbers that Python prints with an exponent, which the clause grammar does not read.
\<close>

section \<open>Text of a number\<close>

definition whole :: "rat \<Rightarrow> bool" where
  "whole r \<longleftrightarrow> of_int \<lfloor>r\<rfloor> = r"

text \<open>At most 1100 decimals, and no exponent in the text.\<close>

definition readable :: "rat \<Rightarrow> bool" where
  "readable r \<longleftrightarrow> (\<exists>k \<le> 1100. whole (10 ^ k * r)) \<and> (whole r \<or> 1 / 10 ^ 4 \<le> \<bar>r\<bar>)"

lemma places_from_whole: "whole (10 ^ n * r) \<Longrightarrow> n \<le> m \<Longrightarrow>
    \<exists>d. places_from m k r = k + d \<and> whole (10 ^ d * r) \<and> (\<forall>e < d. \<not> whole (10 ^ e * r))"
proof (induction m arbitrary: n k r)
  case (Suc m)
  show ?case
  proof (cases "whole r")
    case True
    then show ?thesis by (intro exI [of _ 0]) (simp add: whole_def)
  next
    case False
    then obtain n' where n: "n = Suc n'" using Suc.prems by (cases n) auto
    then have "whole (10 ^ n' * (10 * r))" "n' \<le> m" using Suc.prems by (auto simp: mult.assoc mult.left_commute)
    from Suc.IH [OF this, of "Suc k"] obtain d where d: "places_from m (Suc k) (10 * r) = Suc k + d"
        "whole (10 ^ d * (10 * r))" "\<forall>e < d. \<not> whole (10 ^ e * (10 * r))" by blast
    have "\<not> whole (10 ^ e * r)" if "e < Suc d" for e
      using that False d(3) by (cases e) (auto simp: mult.assoc mult.left_commute)
    then show ?thesis using d False
      by (intro exI [of _ "Suc d"]) (auto simp: whole_def mult.assoc mult.left_commute)
  qed
qed (auto simp: whole_def)

lemma no_digits [simp]: "\<not> is_digit (CHR ''+'')" "\<not> is_digit (CHR ''-'')" "\<not> is_digit (CHR ''~'')" "\<not> is_digit (CHR ''.'')"
  "\<not> is_digit (CHR ''e'')" "\<not> is_digit (CHR ''E'')"
  by (simp_all add: is_digit_def code_def)

text \<open>Unsigned text the grammar accepts, with its value.\<close>

definition reads_as :: "string \<Rightarrow> rat \<Rightarrow> bool" where
  "reads_as b v \<longleftrightarrow> b \<noteq> [] \<and> is_digit (hd b) \<and> is_digit (last b) \<and> list_all (\<lambda>c. is_digit c \<or> c = CHR ''.'') b \<and>
     is_plain_number b \<and> mantissa b = Some v"

lemma takeWhile_digits: "list_all is_digit s \<Longrightarrow> takeWhile (\<lambda>c. c \<noteq> CHR ''.'') s = s \<and> dropWhile (\<lambda>c. c \<noteq> CHR ''.'') s = [] \<and>
    takeWhile (\<lambda>c. c \<noteq> CHR ''.'') (s @ CHR ''.'' # t) = s \<and> dropWhile (\<lambda>c. c \<noteq> CHR ''.'') (s @ CHR ''.'' # t) = CHR ''.'' # t \<and>
    takeWhile is_digit (s @ CHR ''.'' # t) = s \<and> dropWhile is_digit (s @ CHR ''.'' # t) = CHR ''.'' # t"
  by (induction s) (auto simp: digit_not_special)

lemma digits_or_dot: "list_all is_digit s \<Longrightarrow> list_all (\<lambda>c. is_digit c \<or> c = CHR ''.'') s"
  by (auto simp: list_all_iff)

lemma reads_digits:
  assumes "list_all is_digit s" "s \<noteq> []"
  shows "reads_as s (of_nat (decimal s))"
proof -
  have d: "takeWhile is_digit s = s" "dropWhile is_digit s = []" using assms by (simp_all add: list_all_iff)
  have "is_plain_number s" using assms(2) by (simp add: is_plain_number_def d)
  with assms show ?thesis unfolding reads_as_def
    by (simp add: mantissa_def Let_def takeWhile_digits grouped_digits_all digits_only_all digits_or_dot)
      (simp add: list_all_iff)
qed

lemma reads_decimal:
  assumes "list_all is_digit s" "s \<noteq> []" "list_all is_digit t" "t \<noteq> []"
  shows "reads_as (s @ CHR ''.'' # t) (of_nat (decimal s) + of_nat (decimal t) / 10 ^ length t)"
  using assms unfolding reads_as_def
  by (auto simp: mantissa_def is_plain_number_def Let_def takeWhile_digits grouped_digits_all digits_only_all digits_or_dot)
    (auto simp: list_all_iff)

lemma decimal_append: "decimal (s @ t) = decimal s * 10 ^ length t + decimal t"
  by (induction t rule: rev_induct) (auto simp: append_assoc [symmetric] algebra_simps simp del: append_assoc)

lemma decimal_zeros [simp]: "decimal (replicate n (CHR ''0'')) = 0"
  by (induction n) (simp_all add: replicate_append_same [symmetric] digit_value_def code_def del: replicate_append_same)

lemma py_float_reads:
  assumes b: "reads_as b v" and v: "\<bar>v\<bar> \<le> world_limit"
  shows "py_float b = Inr (Finite v)" and "py_float (CHR ''-'' # b) = Inr (Finite (- v))"
proof -
  have cs: "list_all (\<lambda>c. \<not> is_space c \<and> \<not> is_exponent_mark c) b"
  proof -
    have "\<not> is_space (CHR ''.'')" "\<not> is_exponent_mark (CHR ''.'')" by (simp_all add: is_space_def is_exponent_mark_def code_def)
    then show ?thesis using b digit_not_special unfolding reads_as_def list_all_iff by blast
  qed
  obtain c cs' where bc: "b = c # cs'" and d: "is_digit c" using b by (cases b) (auto simp: reads_as_def)
  have lc: "lower_char c = c" using d by (simp add: lower_char_def ascii_upper_def is_digit_def)
  have notword: "casefold b \<noteq> ''inf'' \<and> casefold b \<noteq> ''infinity'' \<and> casefold b \<noteq> ''nan''"
    using d by (auto simp: bc casefold_def lc is_digit_def code_def)
  have strip: "strip b = b" "strip (CHR ''-'' # b) = CHR ''-'' # b"
    unfolding strip_def using b cs by (auto intro!: strip_by_id simp: reads_as_def list_all_iff is_space_def code_def)
  have exp: "takeWhile (\<lambda>c. \<not> is_exponent_mark c) b = b" "dropWhile (\<lambda>c. \<not> is_exponent_mark c) b = []"
    using cs by (auto simp: list_all_iff)
  have sign: "drop_sign b = b" "\<not> is_negative b" "drop_sign (CHR ''-'' # b) = b" "is_negative (CHR ''-'' # b)"
    using d by (auto simp: bc is_negative_def is_sign_def digit_not_special)
  have minus: "casefold (CHR ''-'' # b) \<noteq> ''inf'' \<and> casefold (CHR ''-'' # b) \<noteq> ''infinity'' \<and> casefold (CHR ''-'' # b) \<noteq> ''nan''"
    by (simp add: casefold_def lower_char_def ascii_upper_def code_def)
  have bound: "to_float v = Finite v" "to_float (- v) = Finite (- v)"
  proof -
    have "world_limit < float_bound" by (simp add: world_limit_def float_bound_def)
    with v show "to_float v = Finite v" "to_float (- v) = Finite (- v)" by (auto simp: to_float_def)
  qed
  have m: "mantissa b = Some v" using b by (simp add: reads_as_def)
  show "py_float b = Inr (Finite v)" "py_float (CHR ''-'' # b) = Inr (Finite (- v))"
    using notword minus by (simp_all add: py_float_def Let_def strip sign exp m bound del: strip_casefold drop_sign.simps)
qed

lemma is_value_reads:
  assumes "reads_as b v"
  shows "is_value b" "is_value (CHR ''-'' # b)" "is_value (CHR ''~'' # b)" "is_value (CHR ''~'' # CHR ''-'' # b)" "\<not> is_relative b"
proof -
  obtain c cs where "b = c # cs" and d: "is_digit c" using assms by (cases b) (auto simp: reads_as_def)
  with assms show "is_value b" "is_value (CHR ''-'' # b)" "is_value (CHR ''~'' # b)" "is_value (CHR ''~'' # CHR ''-'' # b)" "\<not> is_relative b"
    by (auto simp: is_value_def matches_coordinate_def drop_tilde_def reads_as_def is_sign_def is_relative_def digit_not_special)
qed

lemma show_nat_zero [simp]: "show_nat 0 = ''0''"
  by code_simp

lemma show_nat_length: "n < 10 ^ length (show_nat n)"
proof (induction n rule: show_nat.induct)
  case (1 n)
  then show ?case by (subst show_nat.simps) auto
qed

text \<open>Every readable number has a text that reads back.\<close>

lemma format_magnitude:
  assumes "readable r"
  obtains b where "reads_as b \<bar>r\<bar>" "format_number r = (if r < 0 then CHR ''-'' # b else b)"
proof (cases "whole r")
  case True
  let ?b = "show_nat (nat \<bar>\<lfloor>r\<rfloor>\<bar>)"
  have "reads_as ?b (of_nat (nat \<bar>\<lfloor>r\<rfloor>\<bar>))"
    using reads_digits [OF show_nat_digits, of "nat \<bar>\<lfloor>r\<rfloor>\<bar>"] by simp
  moreover have "of_nat (nat \<bar>\<lfloor>r\<rfloor>\<bar>) = \<bar>r\<bar>"
  proof -
    have "of_nat (nat \<bar>\<lfloor>r\<rfloor>\<bar>) = \<bar>of_int \<lfloor>r\<rfloor> :: rat\<bar>" by simp
    then show ?thesis using True unfolding whole_def by metis
  qed
  moreover have "format_number r = (if r < 0 then CHR ''-'' # ?b else ?b)"
    using True by (auto simp: format_number_def show_int_def whole_def)
  ultimately show ?thesis using that by metis
next
  case False
  then have big: "1 / 10 ^ 4 \<le> \<bar>r\<bar>" using assms by (simp add: readable_def)
  from assms obtain n where "whole (10 ^ n * r)" "n \<le> 1100" by (auto simp: readable_def)
  from places_from_whole [OF this, of 0] obtain k where k: "places_from 1100 0 r = k" "whole (10 ^ k * r)" by auto
  define m where "m = nat \<lfloor>\<bar>r\<bar> * 10 ^ k\<rfloor>"
  define s where "s = show_nat m"
  have m: "of_nat m = \<bar>r\<bar> * 10 ^ k"
  proof -
    have "whole (10 ^ k * \<bar>r\<bar>)"
    proof (cases "r < 0")
      case True
      then have "10 ^ k * \<bar>r\<bar> = - (10 ^ k * r)" by simp
      also have "\<dots> = of_int (- \<lfloor>10 ^ k * r\<rfloor>)" using k(2) unfolding whole_def of_int_minus by metis
      finally show ?thesis unfolding whole_def by (metis floor_of_int)
    qed (use k(2) in simp)
    then show ?thesis unfolding m_def whole_def by (simp add: mult.commute)
  qed
  have digits: "list_all is_digit s" "s \<noteq> []" unfolding s_def by (rule show_nat_digits)+
  have "0 < k" using False k(2) by (cases k) auto
  have "k < length s + 4"
  proof -
    have "of_nat m < (of_nat (10 ^ length s) :: rat)" unfolding s_def using show_nat_length of_nat_less_iff by blast
    then have "\<bar>r\<bar> * 10 ^ k < 10 ^ length s" by (simp add: m)
    moreover have "1 / 10 ^ 4 * 10 ^ k \<le> \<bar>r\<bar> * 10 ^ k" using big by (intro mult_right_mono) auto
    ultimately have "1 / 10 ^ 4 * 10 ^ k < (10 :: rat) ^ length s" by linarith
    then have "(10 :: rat) ^ k < 10 ^ (length s + 4)" by (simp add: power_add field_simps)
    then show ?thesis by (rule power_less_imp_less_exp [rotated]) simp
  qed
  have val: "\<bar>r\<bar> = of_nat m / 10 ^ k" by (simp add: m)
  consider (small) "length s \<le> k" | (large) "k < length s" by linarith
  then show ?thesis
  proof cases
    case small
    let ?t = "replicate (k - length s) (CHR ''0'') @ s"
    have "list_all is_digit ?t" using digits by (auto simp: list_all_iff is_digit_def code_def)
    from reads_decimal [OF _ _ this, of "''0''"] digits small
    have "reads_as (''0'' @ CHR ''.'' # ?t) \<bar>r\<bar>"
      using decimal_zeros [of 1] by (simp add: decimal_append s_def val is_digit_def code_def)
    moreover have "format_number r = (if r < 0 then CHR ''-'' # ''0'' @ CHR ''.'' # ?t else ''0'' @ CHR ''.'' # ?t)"
      using small \<open>k < length s + 4\<close> False
      by (simp add: format_number_def whole_def repr_fraction_def Let_def k m_def [symmetric] s_def [symmetric])
    ultimately show ?thesis using that by metis
  next
    case large
    let ?a = "take (length s - k) s" and ?t = "drop (length s - k) s"
    have "list_all is_digit ?a" "list_all is_digit ?t" using digits(1) by (auto simp: list_all_iff dest: in_set_takeD in_set_dropD)
    moreover have "?a \<noteq> []" "?t \<noteq> []" using large \<open>0 < k\<close> digits(2) by auto
    moreover have "m = decimal ?a * 10 ^ k + decimal ?t"
      using decimal_append [of ?a ?t] large by (simp add: s_def)
    then have "\<bar>r\<bar> = of_nat (decimal ?a) + of_nat (decimal ?t) / 10 ^ length ?t"
      using large by (simp add: val field_simps)
    ultimately have "reads_as (?a @ CHR ''.'' # ?t) \<bar>r\<bar>" using reads_decimal by metis
    moreover have "format_number r = (if r < 0 then CHR ''-'' # ?a @ CHR ''.'' # ?t else ?a @ CHR ''.'' # ?t)"
      using large \<open>k < length s + 4\<close> False
      by (simp add: format_number_def whole_def repr_fraction_def Let_def k m_def [symmetric] s_def [symmetric])
    ultimately show ?thesis using that by metis
  qed
qed

lemma area_number_format:
  assumes "readable r" "\<bar>r\<bar> \<le> world_limit"
  shows "area_number (format_number r) = Inr r" "is_value (format_number r)" "\<not> is_relative (format_number r)"
    "is_value (CHR ''~'' # format_number r)"
proof -
  from assms(1) obtain b where b: "reads_as b \<bar>r\<bar>" "format_number r = (if r < 0 then CHR ''-'' # b else b)"
    by (rule format_magnitude)
  have "py_float (format_number r) = Inr (Finite r)"
    using py_float_reads [OF b(1)] assms(2) unfolding b(2) by auto
  with assms(2) show "area_number (format_number r) = Inr r" by (simp add: area_number_def)
  show "is_value (format_number r)" "\<not> is_relative (format_number r)" "is_value (CHR ''~'' # format_number r)"
    using is_value_reads [OF b(1)] unfolding b(2) by (auto simp: is_relative_def)
qed

section \<open>Text of an area\<close>

fun number_in :: "coord \<Rightarrow> rat" where
  "number_in (At r) = r"
| "number_in (Tagged t r) = r"

definition good_number :: "rat \<Rightarrow> bool" where
  "good_number r \<longleftrightarrow> readable r \<and> \<bar>r\<bar> \<le> world_limit"

fun good_coord :: "coord \<Rightarrow> bool" where
  "good_coord (At r) = good_number r"
| "good_coord (Tagged t r) = (t = ''relative'' \<and> good_number r)"

text \<open>What a clause can hold.\<close>

fun good_shape :: "string \<Rightarrow> shape \<Rightarrow> bool" where
  "good_shape clause (Cell p) = all_point good_coord p"
| "good_shape clause (Box p q) = (all_point good_coord p \<and> all_point good_coord q \<and>
     (clause = ''within'' \<longrightarrow> check_box p q = Inr ()))"
| "good_shape clause (Sphere r p) = (0 < r \<and> good_number r \<and> (clause = ''within'' \<longrightarrow> r \<le> max_radius) \<and>
     (case p of None \<Rightarrow> True | Some q \<Rightarrow> all_point good_coord q))"
| "good_shape clause Other_shape = False"

lemma good_zero: "is_value ''~''" "area_number ''0'' = Inr 0" "area_coordinate ''~'' = Inr (relative 0)"
proof -
  show "is_value ''~''" by code_simp
  have "reads_as ''0'' 0" by code_simp
  from py_float_reads(1) [OF this] show *: "area_number ''0'' = Inr 0" by (simp add: area_number_def world_limit_def)
  show "area_coordinate ''~'' = Inr (relative 0)" by (simp add: area_coordinate_def is_relative_def *)
qed

lemma format_coord_value: "good_coord c \<Longrightarrow> is_value (format_coord c)"
  by (cases c) (auto simp: good_number_def area_number_format good_zero)

lemma format_coord_reads: "good_coord c \<Longrightarrow> area_coordinate (format_coord c) = Inr c"
proof (cases c)
  case (Tagged t r)
  assume "good_coord c"
  with Tagged have *: "t = ''relative''" "area_number (format_number r) = Inr r" "is_value (format_number r)"
    by (simp_all add: good_number_def area_number_format)
  from *(3) have "format_number r \<noteq> []" by (auto simp: is_value_def)
  with * Tagged show ?thesis by (auto simp: good_zero area_coordinate_def is_relative_def)
qed (auto simp: good_number_def area_coordinate_def area_number_format)

lemma area_radius_reads:
  "good_number r \<Longrightarrow> 0 < r \<Longrightarrow> clause = ''within'' \<longrightarrow> r \<le> max_radius \<Longrightarrow> area_radius (format_number r) clause = Inr r"
  by (auto simp: good_number_def area_radius_def area_number_format)

lemma epoint_reads: "all_point good_coord p \<Longrightarrow> epoint area_coordinate (on_point format_coord p) = Inr p"
  by (cases p) (simp add: format_coord_reads)

lemma is_value_of: "\<not> is_value ''of''"
  by code_simp

lemma take_values_append:
  "list_all is_value vs \<Longrightarrow> take_values (vs @ ts) ws f = take_values ts (ws @ vs) f"
  by (induction vs arbitrary: ws) auto

definition next_clause :: "string list \<Rightarrow> bool" where
  "next_clause ts \<longleftrightarrow> ts = [] \<or> hd ts = ''except''"

lemma take_values_stop: "next_clause ts \<Longrightarrow> take_values ts ws f = (ws, f, ts)"
proof -
  have "\<not> is_value ''except''" "casefold ''except'' \<noteq> ''of''" by code_simp+
  then show "next_clause ts \<Longrightarrow> take_values ts ws f = (ws, f, ts)" by (cases ts) (auto simp: next_clause_def)
qed

text \<open>The values of a clause, and whether the shape has a centre.\<close>

fun shape_values :: "shape \<Rightarrow> string list" where
  "shape_values (Sphere r (Some p)) = format_number r # map format_coord (point_list p)"
| "shape_values s = shape_tokens s"

fun has_centre :: "shape \<Rightarrow> bool" where
  "has_centre (Sphere r (Some p)) = True"
| "has_centre s = False"

lemma take_shape_values:
  assumes "good_shape clause s" "next_clause ts"
  shows "take_values (shape_tokens s @ ts) [] False = (shape_values s, has_centre s, ts)"
proof -
  have p: "all_point good_coord p \<Longrightarrow> list_all is_value (map format_coord (point_list p))" for p
    by (cases p) (simp add: format_coord_value)
  have r: "good_number r \<Longrightarrow> is_value (format_number r)" for r
    by (simp add: good_number_def area_number_format)
  have of': "casefold ''of'' = ''of''" by code_simp
  show ?thesis
  proof (cases s)
    case (Cell q)
    with assms p [of q] show ?thesis
      using take_values_append [of "map format_coord (point_list q)" ts "[]" False] by (simp add: take_values_stop)
  next
    case (Box q q')
    with assms have "list_all is_value (map format_coord (point_list q @ point_list q'))" using p by simp
    from take_values_append [OF this, of ts "[]" False] Box assms show ?thesis by (simp add: take_values_stop)
  next
    case (Sphere q c)
    with assms p r show ?thesis
      by (cases c) (simp_all add: take_values_stop is_value_of of' take_values_append)
  qed (use assms in simp)
qed

lemma parse_shape_reads: "good_shape clause s \<Longrightarrow> parse_shape clause (shape_values s) (has_centre s) = Inr s"
proof (cases s)
  case (Cell p)
  assume "good_shape clause s"
  then show ?thesis using Cell epoint_reads [of p] by (cases p) (auto simp: parse_shape_def)
next
  case (Box p q)
  assume "good_shape clause s"
  then show ?thesis using Box epoint_reads [of p] epoint_reads [of q] by (cases p; cases q) (auto simp: parse_shape_def)
next
  case (Sphere r c)
  assume "good_shape clause s"
  then show ?thesis using Sphere epoint_reads [of "the c"] area_radius_reads [of r clause]
    by (cases c; cases "the c") (auto simp: parse_shape_def)
qed simp

definition good_area :: "area \<Rightarrow> bool" where
  "good_area a \<longleftrightarrow> (\<forall>s. within_shape a = Some s \<longrightarrow> good_shape ''within'' s) \<and> list_all (good_shape ''except'') (except_shapes a)"

definition except_tokens :: "shape list \<Rightarrow> string list" where
  "except_tokens es = concat (map (\<lambda>s. ''except'' # shape_tokens s) es)"

lemma except_tokens_simps [simp]: "except_tokens [] = []" "except_tokens (s # es) = ''except'' # shape_tokens s @ except_tokens es"
  by (simp_all add: except_tokens_def)

lemma next_clause_except [simp]: "next_clause (except_tokens es)"
  by (cases es) (simp_all add: next_clause_def)

lemma names_no_shape: "next_clause ts \<Longrightarrow> \<not> (vs = [] \<and> ts \<noteq> [] \<and> names_shape (hd ts))"
proof -
  have "\<not> names_shape ''except''" by code_simp
  then show "next_clause ts \<Longrightarrow> \<not> (vs = [] \<and> ts \<noteq> [] \<and> names_shape (hd ts))" by (auto simp: next_clause_def)
qed

lemma clause_words: "casefold ''except'' = ''except''" "is_clause ''except''" "casefold ''within'' = ''within''" "is_clause ''within''"
  by code_simp+

lemma take_excepts:
  "list_all (good_shape ''except'') es \<Longrightarrow>
   take_clauses True (except_tokens es) a seen [] = Inr (if seen \<or> es \<noteq> [] then Some (a\<lparr>except_shapes := except_shapes a @ es\<rparr>) else None, [])"
proof (induction es arbitrary: a seen)
  case (Cons s es)
  then have "take_values (shape_tokens s @ except_tokens es) [] False = (shape_values s, has_centre s, except_tokens es)"
    by (intro take_shape_values [of "''except''"]) auto
  with Cons show ?case
    using parse_shape_reads [of "''except''" s] names_no_shape [OF next_clause_except]
    by (simp add: clause_words Let_def)
qed simp

lemma take_area_reads:
  assumes "good_area a" "within_shape a \<noteq> None \<or> except_shapes a \<noteq> []"
  shows "take_area True (area_tokens a) = Inr (Some a, [])"
proof (cases "within_shape a")
  case None
  with assms take_excepts [of "except_shapes a" "\<lparr>within_shape = None, except_shapes = []\<rparr>" False] show ?thesis
    by (cases a) (simp add: take_area_def area_tokens_def except_tokens_def good_area_def)
next
  case (Some s)
  have tv: "take_values (shape_tokens s @ except_tokens (except_shapes a)) [] False =
      (shape_values s, has_centre s, except_tokens (except_shapes a))"
    using assms(1) Some by (intro take_shape_values [of "''within''"]) (auto simp: good_area_def)
  have "take_clauses True (''within'' # shape_tokens s @ except_tokens (except_shapes a)) \<lparr>within_shape = None, except_shapes = []\<rparr> False [] =
      take_clauses True (except_tokens (except_shapes a)) \<lparr>within_shape = Some s, except_shapes = []\<rparr> True []"
    using assms(1) Some parse_shape_reads [of "''within''" s]
      names_no_shape [OF next_clause_except, of "shape_values s" "except_shapes a"] tv
    by (auto simp: clause_words Let_def good_area_def)
  with assms(1) Some show ?thesis
    by (cases a) (simp add: take_area_def area_tokens_def except_tokens_def [symmetric] good_area_def take_excepts)
qed

section \<open>Words of the text\<close>

definition word :: "string \<Rightarrow> bool" where
  "word t \<longleftrightarrow> t \<noteq> [] \<and> list_all (\<lambda>c. \<not> is_space c) t"

lemma is_value_word: "is_value t \<Longrightarrow> word t"
proof -
  have plain: "is_plain_number s \<Longrightarrow> list_all (\<lambda>c. is_digit c \<or> c = CHR ''.'') s" for s
  proof -
    assume s: "is_plain_number s"
    have "list_all is_digit (takeWhile is_digit s)" by (auto simp: list_all_iff dest: set_takeWhileD)
    moreover have "dropWhile is_digit s = [] \<or> hd (dropWhile is_digit s) = CHR ''.'' \<and> list_all is_digit (tl (dropWhile is_digit s))"
      using s by (auto simp: is_plain_number_def Let_def split: if_splits)
    then have "list_all (\<lambda>c. is_digit c \<or> c = CHR ''.'') (dropWhile is_digit s)"
      by (cases "dropWhile is_digit s") (auto simp: digits_or_dot list_all_iff dest: set_dropWhileD)
    ultimately have "list_all (\<lambda>c. is_digit c \<or> c = CHR ''.'') (takeWhile is_digit s @ dropWhile is_digit s)"
      unfolding list_all_append by (simp only: digits_or_dot simp_thms)
    then show ?thesis unfolding takeWhile_dropWhile_id .
  qed
  have "\<not> is_space (CHR ''.'')" "\<not> is_space (CHR ''~'')" "\<not> is_space (CHR ''+'')" "\<not> is_space (CHR ''-'')"
    by (simp_all add: is_space_def code_def)
  note marks = this
  have free: "is_plain_number s \<Longrightarrow> list_all (\<lambda>c. \<not> is_space c) s" for s
    using plain [of s] marks digit_not_special by (auto simp: list_all_iff)
  have sign: "list_all (\<lambda>c. \<not> is_space c) s" if "drop_sign s = [] \<or> is_plain_number (drop_sign s)" for s
    using that marks by (cases s) (auto simp: is_sign_def split: if_splits dest: free)
  have *: "list_all (\<lambda>c. \<not> is_space c) s" if "drop_sign (drop_tilde s) = [] \<or> is_plain_number (drop_sign (drop_tilde s))" for s
    using sign [OF that] marks by (cases s) (auto simp: drop_tilde_def split: if_splits)
  show "is_value t \<Longrightarrow> word t" by (auto simp: is_value_def matches_coordinate_def Let_def word_def intro!: *)
qed

lemma split_space_Nil [simp]: "split_space [] = []"
  by (subst split_space.simps) simp

lemma split_space_word:
  assumes "word t" "rest = [] \<or> is_space (hd rest)"
  shows "split_space (t @ rest) = t # split_space rest"
proof -
  obtain c cs where t: "t = c # cs" using assms(1) by (cases t) (auto simp: word_def)
  then have "dropWhile is_space (t @ rest) = t @ rest" using assms(1) by (simp add: word_def)
  moreover have "takeWhile (\<lambda>c. \<not> is_space c) (t @ rest) = t" "dropWhile (\<lambda>c. \<not> is_space c) (t @ rest) = rest"
    using assms by (auto simp: word_def list_all_iff takeWhile_append dropWhile_append; cases rest; auto)+
  ultimately show ?thesis by (subst split_space.simps) (simp add: Let_def t)
qed

lemma split_space_space: "split_space (CHR '' '' # s) = split_space s"
  by (subst (1 2) split_space.simps) (simp add: is_space_def code_def)

lemma join_space: "join_with '' '' (t # ts) = t @ concat (map ((#) (CHR '' '')) ts)"
proof -
  have "(@) '' '' = (#) (CHR '' '')" by (rule ext) simp
  then show ?thesis by (simp add: join_with_def)
qed

lemma split_joined: "list_all word ts \<Longrightarrow> split_space (join_with '' '' ts) = ts"
proof -
  have tail: "split_space (concat (map ((#) (CHR '' '')) ts)) = ts" if "list_all word ts" for ts
    using that
  proof (induction ts)
    case (Cons t ts)
    have "concat (map ((#) (CHR '' '')) ts) = [] \<or> is_space (hd (concat (map ((#) (CHR '' '')) ts)))"
      by (cases ts) (auto simp: is_space_def code_def)
    with Cons show ?case by (simp add: split_space_space split_space_word)
  qed simp
  show "list_all word ts \<Longrightarrow> split_space (join_with '' '' ts) = ts"
  proof (cases ts)
    case (Cons t us)
    assume "list_all word ts"
    moreover have "concat (map ((#) (CHR '' '')) us) = [] \<or> is_space (hd (concat (map ((#) (CHR '' '')) us)))"
      by (cases us) (auto simp: is_space_def code_def)
    ultimately show ?thesis using Cons by (simp add: join_space split_space_word tail)
  qed (simp add: join_with_def)
qed

lemma shape_words: "good_shape clause s \<Longrightarrow> list_all word (shape_tokens s)"
proof -
  have p: "all_point good_coord p \<Longrightarrow> list_all word (map format_coord (point_list p))" for p
    by (cases p) (simp add: format_coord_value is_value_word)
  have r: "good_number r \<Longrightarrow> word (format_number r)" for r
    by (simp add: good_number_def area_number_format is_value_word)
  have "word ''of''" by code_simp
  with p r show "good_shape clause s \<Longrightarrow> list_all word (shape_tokens s)"
    by (cases s; cases "case s of Sphere r c \<Rightarrow> c | _ \<Rightarrow> None") auto
qed

lemma area_words: "good_area a \<Longrightarrow> list_all word (area_tokens a)"
proof -
  have w: "word ''within''" "word ''except''" by code_simp+
  have "list_all (good_shape ''except'') es \<Longrightarrow> list_all word (except_tokens es)" for es
    by (induction es) (auto simp: w shape_words)
  then show "good_area a \<Longrightarrow> list_all word (area_tokens a)"
    by (auto simp: area_tokens_def except_tokens_def [symmetric] good_area_def w shape_words split: option.split)
qed

lemma strip_Nil: "strip s = [] \<Longrightarrow> dropWhile is_space s = []"
proof (rule ccontr)
  assume *: "strip s = []" "dropWhile is_space s \<noteq> []"
  then have "\<forall>c \<in> set (dropWhile is_space s). is_space c" by (auto simp: strip_def strip_by_def dropWhile_eq_Nil_conv)
  with hd_dropWhile [OF *(2)] *(2) show False by simp
qed

lemma good_area_text:
  assumes "good_area a" "within_shape a \<noteq> None \<or> except_shapes a \<noteq> []"
  shows "parse_area True (JStr (area_text a)) = Inr a"
proof -
  have ts: "split_space (area_text a) = area_tokens a"
    unfolding area_text_def by (rule split_joined [OF area_words [OF assms(1)]])
  moreover have "area_tokens a \<noteq> []" using assms(2) by (cases "except_shapes a") (auto simp: area_tokens_def split: option.splits)
  moreover have "strip (area_text a) \<noteq> []"
  proof
    assume "strip (area_text a) = []"
    then have "dropWhile is_space (area_text a) = []" by (rule strip_Nil)
    then have "split_space (area_text a) = []" by (subst split_space.simps) simp
    with \<open>area_tokens a \<noteq> []\<close> ts show False by simp
  qed
  ultimately show ?thesis using take_area_reads [OF assms] by simp
qed

section \<open>Parsed areas\<close>

fun shape_numbers :: "shape \<Rightarrow> rat list" where
  "shape_numbers (Cell p) = map number_in (point_list p)"
| "shape_numbers (Box p q) = map number_in (point_list p @ point_list q)"
| "shape_numbers (Sphere r p) = r # (case p of None \<Rightarrow> [] | Some q \<Rightarrow> map number_in (point_list q))"
| "shape_numbers Other_shape = []"

definition area_numbers :: "area \<Rightarrow> rat list" where
  "area_numbers a = (case within_shape a of None \<Rightarrow> [] | Some s \<Rightarrow> shape_numbers s) @ concat (map shape_numbers (except_shapes a))"

lemma area_number_in: "area_number t = Inr r \<Longrightarrow> \<bar>r\<bar> \<le> world_limit"
proof -
  assume "area_number t = Inr r"
  then obtain v where "(case v of Finite r \<Rightarrow> if \<bar>r\<bar> > world_limit then Inl outside_world else Inr r | _ \<Rightarrow> Inl outside_world) = Inr r"
    by (auto simp: area_number_def)
  then show ?thesis by (cases v) (auto split: if_splits)
qed

lemma area_coordinate_good: "area_coordinate t = Inr c \<Longrightarrow> readable (number_in c) \<Longrightarrow> good_coord c"
  by (auto simp: area_coordinate_def good_number_def area_number_in split: if_splits)

lemma epoint_good: "epoint area_coordinate p = Inr q \<Longrightarrow> list_all readable (map number_in (point_list q)) \<Longrightarrow> all_point good_coord q"
  by (cases p) (auto dest: area_coordinate_good)

lemma area_radius_good: "area_radius t clause = Inr r \<Longrightarrow> 0 < r \<and> \<bar>r\<bar> \<le> world_limit \<and> (clause = ''within'' \<longrightarrow> r \<le> max_radius)"
  by (auto simp: area_radius_def dest: area_number_in split: if_splits)

lemma parse_shape_good: "parse_shape clause vs f = Inr s \<Longrightarrow> list_all readable (shape_numbers s) \<Longrightarrow> good_shape clause s"
  unfolding parse_shape_def
  by (auto simp: good_number_def simp del: epoint.simps split: if_splits list.splits dest!: epoint_good area_radius_good)

lemma take_clauses_good:
  "take_clauses chain ts a seen rest = Inr (Some b, rest') \<Longrightarrow> list_all readable (area_numbers b) \<Longrightarrow>
   (list_all readable (area_numbers a) \<Longrightarrow> good_area a) \<Longrightarrow> seen \<longrightarrow> within_shape a \<noteq> None \<or> except_shapes a \<noteq> [] \<Longrightarrow>
   good_area b \<and> (within_shape b \<noteq> None \<or> except_shapes b \<noteq> [])"
proof (induction chain ts a seen rest rule: take_clauses.induct)
  case (2 chain t ts a seen rest)
  obtain vs f us where tv: "take_values ts [] False = (vs, f, us)" by (cases "take_values ts [] False")
  show ?case
  proof (cases "is_clause (casefold t)")
    case False
    with 2 show ?thesis by (auto simp: Let_def)
  next
    case True
    let ?a = "\<lambda>s. if casefold t = ''within'' then a\<lparr>within_shape := Some s\<rparr> else a\<lparr>except_shapes := except_shapes a @ [s]\<rparr>"
    from 2(3) True tv obtain s where s: "parse_shape (casefold t) vs f = Inr s"
        "take_clauses chain us (?a s) True rest = Inr (Some b, rest')"
        "\<not> (casefold t = ''within'' \<and> within_shape a \<noteq> None)" "\<not> (casefold t = ''except'' \<and> except_shapes a \<noteq> [] \<and> \<not> chain)"
        "\<not> (vs = [] \<and> us \<noteq> [] \<and> names_shape (hd us))"
      by (auto simp: Let_def split: if_splits)
    have "good_area (?a s)" if "list_all readable (area_numbers (?a s))"
      using that 2(5) parse_shape_good [OF s(1)] True s(3)
      by (auto simp: area_numbers_def good_area_def is_clause_def split: if_splits option.splits)
    with 2(2) [OF refl _ s(3,4) tv [symmetric] refl s(5,1,2) 2(4)] True show ?thesis by simp
  qed
qed (auto split: if_splits)


definition roundtrip_text :: string where
  "roundtrip_text = ''except ~1 ~ ~ within 2.50 of ~ -7 0.0625''"

definition roundtrip_area :: area where
  "roundtrip_area = \<lparr>within_shape = Some (Sphere (5/2) (Some (relative 0, At (-7), At (1/16)))),
     except_shapes = [Cell (relative 1, relative 0, relative 0)]\<rparr>"

lemma roundtrip_parses: "parse_area True (JStr roundtrip_text) = Inr roundtrip_area"
  by code_simp


text \<open>A tiny area does not survive its text: \<open>within 0.00001\<close> is accepted, its canonical text is \<open>within 1e-05\<close>, and
  that text is refused.\<close>

theorem tiny_area_text_unreadable:
  "(case parse_area True (JStr ''within 0.00001'') of Inl _ \<Rightarrow> False
    | Inr a \<Rightarrow> area_text a = ''within 1e-05'' \<and> parse_area True (JStr (area_text a)) = Inl (area_usage ''within''))"
  by code_simp

end
