(* ===== verification/Command_Laws.thy ===== *)
theory Command_Laws
  imports Command_Parser
begin

text \<open>
  What the command parser promises: whatever text is typed it returns, fails with nothing but a \<open>ValueError\<close>,
  and every number it hands on lies in the documented range of its parameter.
\<close>

section \<open>Results and their errors\<close>

definition yields :: "('a \<Rightarrow> bool) \<Rightarrow> py_error + 'a \<Rightarrow> bool" where
  "yields P r \<longleftrightarrow> (case r of Inl e \<Rightarrow> is_value_error e | Inr x \<Rightarrow> P x)"

named_theorems yields_rules "what a step of the parser returns"

lemma yields_simps [simp]: "yields P (Inr x) \<longleftrightarrow> P x" "yields P (Inl e) \<longleftrightarrow> is_value_error e"
  by (simp_all add: yields_def)

lemma yields_ebind: "yields Q m \<Longrightarrow> (\<And>x. Q x \<Longrightarrow> yields P (f x)) \<Longrightarrow> yields P (ebind m f)"
  by (cases m) auto

lemma yields_mono: "yields Q m \<Longrightarrow> (\<And>x. Q x \<Longrightarrow> P x) \<Longrightarrow> yields P m"
  by (cases m) auto

lemma yields_bind_eq: "yields Q m \<Longrightarrow> (\<And>x. m = Inr x \<Longrightarrow> Q x \<Longrightarrow> yields P (f x)) \<Longrightarrow> yields P (ebind m f)"
  by (cases m) auto

lemma yields_any: "yields Q m \<Longrightarrow> yields (\<lambda>_. True) m"
  by (erule yields_mono) simp

lemma yields_or_error: "yields P m \<Longrightarrow> is_value_error e \<Longrightarrow> yields P (or_error m e)"
  by (cases m) auto

lemma yields_emap: "(\<And>x. x \<in> set xs \<Longrightarrow> yields (\<lambda>_. True) (f x)) \<Longrightarrow> yields (\<lambda>_. True) (emap f xs)"
  by (induction xs) (auto intro!: yields_ebind [where Q = "\<lambda>_. True"])

lemma yields_if: "(c \<Longrightarrow> yields P x) \<Longrightarrow> (\<not> c \<Longrightarrow> yields P y) \<Longrightarrow> yields P (if c then x else y)"
  by simp

lemma yields_Let: "(\<And>x. yields P (f x)) \<Longrightarrow> yields P (Let v f)"
  by simp

lemma yields_py_int [yields_rules]: "yields (\<lambda>_. True) (py_int s)"
  by (simp add: py_int_def Let_def)

lemma yields_py_float [yields_rules]: "yields (\<lambda>_. True) (py_float s)"
  by (simp add: py_float_def Let_def not_a_float_def split: option.split)

section \<open>Ranges\<close>

text \<open>The documented range of a numeric parameter.\<close>

definition int_range :: "string \<Rightarrow> int \<times> int" where
  "int_range k =
     (if k \<in> {''durationTicks'', ''intervalTicks'', ''holdTicks'', ''blockCount''} then (1, 72000)
      else if k = ''slot'' then (1, 9)
      else if k = ''value'' then (2, 32)
      else if k \<in> {''a'', ''b''} then (1, 36)
      else if k = ''count'' then (1, 10455)
      else if k = ''limit'' then (1, 64)
      else if k = ''page'' then (1, 4)
      else if k = ''face'' then (0, 5)
      else (1, 0))"

fun entry_ok :: "string \<times> json \<Rightarrow> bool" where
  "entry_ok (k, JInt n) = (fst (int_range k) \<le> n \<and> n \<le> snd (int_range k))"
| "entry_ok (k, _) = True"

definition params_ok :: "(string, json) dict \<Rightarrow> bool" where
  "params_ok ps \<longleftrightarrow> list_all entry_ok ps"

lemma params_ok_simps [simp]:
  "params_ok []" "params_ok (e # ps) \<longleftrightarrow> entry_ok e \<and> params_ok ps" "params_ok (ps @ qs) \<longleftrightarrow> params_ok ps \<and> params_ok qs"
  by (simp_all add: params_ok_def)

lemma params_ok_set [simp]: "params_ok ps \<Longrightarrow> entry_ok (k, v) \<Longrightarrow> params_ok (dict_set k v ps)"
  using set_dict_set_subset [of k v ps] by (auto simp: params_ok_def list_all_iff)

abbreviation command_ok :: "bot_command \<Rightarrow> bool" where
  "command_ok c \<equiv> params_ok (op_params c)"

lemma bot_command_simps [simp]:
  "op_params (bot_command op n ps) = ps" "op_params (root_command op ps) = ps" "op_name (bot_command op n ps) = op"
  by (simp_all add: bot_command_def root_command_def)

lemma yields_finite_number [yields_rules]: "yields (\<lambda>_. True) (finite_number v l)"
  unfolding finite_number_def
  by (rule yields_ebind [OF yields_or_error [OF yields_py_float]]) (auto split: number.split)

lemma yields_coordinate [yields_rules]: "yields (\<lambda>j. entry_ok (k, j)) (coordinate v)"
  unfolding coordinate_def by (auto intro!: yields_ebind [OF yields_finite_number])

lemma yields_coordinates: "yields (\<lambda>_. True) (emap coordinate vs)"
  by (rule yields_emap) (rule yields_any [OF yields_coordinate])

lemma yields_ticks [yields_rules]: "yields (\<lambda>n. 1 \<le> n \<and> n \<le> 72000) (ticks v l)"
  unfolding ticks_def by (rule yields_ebind [OF yields_or_error [OF yields_py_int]]) auto

lemma yields_blocks [yields_rules]: "yields (\<lambda>n. 1 \<le> n \<and> n \<le> 72000) (blocks v l)"
  unfolding blocks_def by (rule yields_ebind [OF yields_or_error [OF yields_py_int]]) auto

lemma yields_block_type [yields_rules]: "yields (\<lambda>_. True) (block_type v)"
  by (simp add: block_type_def Let_def)

lemma yields_entity_selector [yields_rules]: "yields params_ok (entity_selector v)"
  by (simp add: entity_selector_def Let_def)

lemma yields_target_token [yields_rules]: "yields params_ok (target_token v)"
  unfolding target_token_def by (auto intro!: yields_ebind [OF yields_block_type] yields_entity_selector)

lemma yields_position: "yields (\<lambda>(ps, _). params_ok ps) (position ts)"
  unfolding position_def by (auto intro!: yields_ebind [OF yields_coordinates])

lemma yields_placement_clauses: "params_ok ps \<Longrightarrow> yields params_ok (placement_clauses ts ps)"
proof (induction ts ps rule: placement_clauses.induct)
  case (2 t ts ps)
  consider "ts = []" | d where "ts = [d]" | y p us where "ts = y # p # us"
    by (cases ts rule: remdups_adj.cases) auto
  then show ?case
  proof cases
    case 3
    have "yields params_ok (ebind (finite_number y ''yaw'') (\<lambda>v. ebind (finite_number p ''pitch'') (\<lambda>w.
        placement_clauses us (dict_set ''rotation'' (JArr [JFloat v, JFloat w]) ps))))" if "casefold t = ''facing''"
      by (rule yields_bind_eq [OF yields_finite_number], rule yields_bind_eq [OF yields_finite_number],
          rule "2.IH"(2) [OF refl 3 refl that]) (use 2(4) in simp_all)
    moreover have "yields params_ok (placement_clauses (p # us) (dict_set ''dimension'' (JStr y) ps))"
      if "casefold t \<noteq> ''facing''" "casefold t = ''in''"
      by (rule "2.IH"(3) [OF refl 3 refl that]) (use 2(4) in simp)
    ultimately show ?thesis unfolding 3 by simp
  qed (use 2(4) in simp_all)
qed simp

lemma yields_placement [yields_rules]: "yields params_ok (placement ts)"
  unfolding placement_def by (rule yields_ebind [OF yields_position]) (auto intro: yields_placement_clauses)

section \<open>Actions and teleport\<close>

definition ticks_ok :: "(string, int) dict \<Rightarrow> bool" where
  "ticks_ok ps \<longleftrightarrow> params_ok (map (\<lambda>(k, n). (k, JInt n)) ps)"

lemma map_dict_set: "map (\<lambda>(k, n). (k, f n)) (dict_set k n ps) = dict_set k (f n) (map (\<lambda>(k, n). (k, f n)) ps)"
  by (induction ps) auto

lemma tick_clause_key: "tick_clause c = Some (k, l) \<Longrightarrow> int_range k = (1, 72000)"
  by (auto simp: tick_clause_def int_range_def split: if_splits)

lemma yields_action_clauses: "ticks_ok ps \<Longrightarrow> yields ticks_ok (action_clauses a ts ps)"
proof (induction a ts ps rule: action_clauses.induct)
  case (3 a c v ts ps)
  show ?case
  proof (cases "tick_clause c")
    case (Some kl)
    obtain key l where kl: "kl = (key, l)" by force
    have ok: "1 \<le> n \<and> n \<le> 72000 \<Longrightarrow> ticks_ok (dict_set key n ps)" for n
      using 3(2) tick_clause_key [of c key l] Some kl by (simp add: ticks_ok_def map_dict_set)
    show ?thesis
    proof (cases "c = ''hold'' \<and> a \<noteq> ''use'' \<or> key \<in> set (keys ps)")
      case False
      have "yields ticks_ok (ebind (ticks v l) (\<lambda>n. action_clauses a ts (dict_set key n ps)))"
        by (rule yields_bind_eq [OF yields_ticks], rule 3(1) [OF Some kl [symmetric] False]) (simp_all add: ok)
      with False show ?thesis by (simp only: action_clauses.simps Some kl option.case prod.case if_False)
    qed (auto simp: Some kl action_usage_def)
  qed (simp add: action_usage_def)
qed (auto simp: action_usage_def)

lemma yields_action_command [yields_rules]: "yields command_ok (action_command n a ts)"
  unfolding action_command_def
  apply (intro yields_Let)
  apply (rule yields_ebind [OF yields_action_clauses])
   apply (simp add: ticks_ok_def)
  apply (intro yields_Let yields_if)
      apply (simp_all (no_asm) only: yields_simps is_value_error.simps bot_command_simps
        params_ok_simps entry_ok.simps simp_thms)
  apply (unfold ticks_ok_def, assumption)
  done

lemma yields_take_count: "yields (\<lambda>(c, _). \<forall>n. c = Some n \<longrightarrow> 1 \<le> n \<and> n \<le> 10000) (take_count op ts)"
  unfolding take_count_def
  apply (rule yields_Let)
  apply (rule yields_if, simp)
  apply (rule yields_if, simp only: yields_simps repeat_usage_def is_value_error.simps)
  apply (rule yields_if, simp only: yields_simps is_value_error.simps)
  apply (rule yields_ebind [OF yields_py_int])
  apply (rule yields_if)
   apply (simp only: yields_simps prod.case option.inject simp_thms)
  apply (simp only: yields_simps is_value_error.simps)
  done

lemma yields_targeted_action [yields_rules]: "yields command_ok (targeted_action n op ts)"
  unfolding targeted_action_def Let_def
  apply (rule yields_ebind [OF yields_entity_selector])
  apply (intro yields_if)
    apply simp
   apply simp
  apply (rule yields_ebind [OF yields_take_count])
  apply (simp only: case_prod_beta)
  apply (rule yields_ebind [OF yields_action_command])
  apply (intro yields_if)
   apply (auto simp: repeat_usage_def int_range_def split: option.split)
  done

lemma yields_teleport_suffix: "params_ok ps \<Longrightarrow> yields params_ok (teleport_suffix rest ps)"
  unfolding teleport_suffix_def
  by (intro yields_if yields_ebind [OF yields_finite_number] yields_ebind [OF yields_coordinates]) simp_all

lemma yields_teleport [yields_rules]: "yields command_ok (teleport n ts)"
proof -
  have "yields command_ok (ebind (position us) (\<lambda>(ps, rest). ebind (teleport_suffix rest
      (if d \<noteq> [] then dict_set ''dimension'' (JStr d) ps else ps)) (\<lambda>qs. Inr (bot_command ''teleport'' n qs))))" for us d
    by (rule yields_ebind [OF yields_position]) (auto intro!: yields_ebind [OF yields_teleport_suffix])
  from this this [where d = "[]", simplified] show ?thesis unfolding teleport_def by (auto simp: Let_def)
qed

section \<open>Operations\<close>

lemma int_range_simps [simp]:
  "int_range ''durationTicks'' = (1, 72000)" "int_range ''blockCount'' = (1, 72000)" "int_range ''slot'' = (1, 9)"
  "int_range ''value'' = (2, 32)" "int_range ''a'' = (1, 36)" "int_range ''b'' = (1, 36)" "int_range ''count'' = (1, 10455)"
  "int_range ''limit'' = (1, 64)" "int_range ''page'' = (1, 4)" "int_range ''face'' = (0, 5)"
  by (simp_all add: int_range_def)

lemma yields_help_topic: "yields command_ok (help_topic raw)"
proof -
  have "yields command_ok (ebind (py_int t) (\<lambda>page. if 1 \<le> page \<and> page \<le> int (length help_pages)
      then Inr (root_command ''help'' [(''page'', JInt page)])
      else Inl (syntax_error ''Help page must be from 1 to {total}'' [(''total'', show_nat (length help_pages))])))" for t
    by (rule yields_ebind [OF yields_py_int]) (simp add: help_pages_def)
  moreover have "entry_ok (''page'', JInt (int (length help_pages)))" by (simp add: help_pages_def)
  ultimately show ?thesis unfolding help_topic_def by (intro yields_Let yields_if) simp_all
qed

lemma yields_short: "parse_short ts = Some r \<Longrightarrow> yields command_ok r"
  by (auto simp: parse_short_def Let_def yields_help_topic split: if_splits)

lemma yields_spawn: "yields command_ok (parse_spawn n ts)"
  unfolding parse_spawn_def by (intro yields_if yields_ebind [OF yields_placement]) simp_all

lemma yields_visibility: "yields command_ok (parse_visibility n ts)"
  by (simp add: parse_visibility_def)

lemma yields_move: "yields command_ok (parse_move n ts)"
  unfolding parse_move_def by (intro yields_Let yields_if yields_ebind [OF yields_ticks]) (simp_all add: unknown_action_def)

lemma yields_look: "yields command_ok (parse_look n ts)"
  unfolding parse_look_def
  by (intro yields_if yields_ebind [OF yields_finite_number] yields_ebind [OF yields_coordinates]) (simp_all add: unknown_action_def)

lemma slot_decimal: "v \<in> set slot_names \<Longrightarrow> 1 \<le> decimal v \<and> decimal v \<le> 36"
  by (auto simp: slot_names_def)

lemma yields_swap: "yields command_ok (parse_swap n ts)"
proof -
  have "1 \<le> decimal (ts ! i) \<and> decimal (ts ! i) \<le> 36" if "list_all (\<lambda>v. v \<in> set slot_names) ts" "i < length ts" for i
    using that by (intro slot_decimal) (auto simp: list_all_length)
  from this [of 0] this [of 1] show ?thesis
    unfolding parse_swap_def Let_def by (intro yields_if) (simp_all, cases ts, auto)
qed

lemma yields_hold: "yields command_ok (parse_hold n ts)"
  by (simp add: parse_hold_def Let_def)

lemma yields_hotbar: "yields command_ok (parse_hotbar n ts)"
  unfolding parse_hotbar_def
  by (intro yields_if yields_ebind [OF yields_or_error [OF yields_py_int]]) (simp_all add: unknown_action_def)

lemma yields_radius: "yields command_ok (parse_radius n ts)"
  unfolding parse_radius_def
  by (intro yields_if yields_ebind [OF yields_or_error [OF yields_py_int]]) (simp_all add: radius_usage_def)

lemma yields_block: "yields command_ok (parse_block n ts)"
  unfolding parse_block_def by (intro yields_if yields_ebind [OF yields_position]) auto

lemma yields_area_coordinate: "yields (\<lambda>_. True) (area_coordinate t)"
proof -
  have "yields (\<lambda>_. True) (area_number t)" for t
    unfolding area_number_def by (rule yields_ebind [OF yields_py_float]) (auto simp: outside_world_def split: number.split)
  then show ?thesis unfolding area_coordinate_def by (intro yields_if yields_ebind [where Q = "\<lambda>_. True"]) simp_all
qed

lemma yields_area_radius: "yields (\<lambda>_. True) (area_radius t c)"
proof -
  have "yields (\<lambda>_. True) (area_number t)"
    unfolding area_number_def by (rule yields_ebind [OF yields_py_float]) (auto simp: outside_world_def split: number.split)
  then show ?thesis unfolding area_radius_def
    by (intro yields_if yields_ebind [where Q = "\<lambda>_. True"]) (simp_all add: too_large_def)
qed

lemma yields_epoint: "(\<And>x. yields (\<lambda>_. True) (f x)) \<Longrightarrow> yields (\<lambda>_. True) (epoint f p)"
  by (cases p) (auto intro!: yields_ebind [where Q = "\<lambda>_. True"])

lemma yields_check_box: "yields (\<lambda>_. True) (check_box p q)"
  by (cases p; cases q) (auto simp: check_def too_large_def split: option.split)

lemma yields_parse_shape: "yields (\<lambda>_. True) (parse_shape c vs f)"
proof -
  have e: "yields (\<lambda>_. True) (ebind (epoint area_coordinate p) g)" if "\<And>q. yields (\<lambda>_. True) (g q)" for p and g :: "coord point \<Rightarrow> py_error + shape"
    using that by (rule yields_ebind [OF yields_epoint [OF yields_area_coordinate]])
  have r: "yields (\<lambda>_. True) (ebind (area_radius t c) g)" if "\<And>q. yields (\<lambda>_. True) (g q)" for t and g :: "rat \<Rightarrow> py_error + shape"
    using that by (rule yields_ebind [OF yields_area_radius])
  have b: "yields (\<lambda>_. True) (ebind (if w then check_box p q else Inr ()) (\<lambda>_. Inr s))" for w p q and s :: shape
    by (rule yields_ebind [where Q = "\<lambda>_. True"]) (auto simp: yields_check_box)
  show ?thesis unfolding parse_shape_def
    by (auto simp: area_usage_def b simp del: epoint.simps split: list.split intro!: e r)
qed

lemma yields_take_clauses: "yields (\<lambda>_. True) (take_clauses chain ts a seen rest)"
proof (induction chain ts a seen rest rule: take_clauses.induct)
  case (2 chain t ts a seen rest)
  obtain vs f us where tv: "take_values ts [] False = (vs, f, us)" by (cases "take_values ts [] False")
  show ?case
  proof (cases "is_clause (casefold t)")
    case False
    then show ?thesis using 2(1) [OF refl] by (simp add: Let_def)
  next
    case True
    show ?thesis
      by (subst take_clauses.simps(2), simp only: Let_def tv prod.case True simp_thms if_False, intro yields_if)
        (simp_all, rule yields_bind_eq [OF yields_parse_shape], rule 2(2) [OF refl _ _ _ tv [symmetric] refl], use True in auto)
  qed
qed simp

lemma yields_take_area: "yields (\<lambda>_. True) (take_area chain ts)"
  by (simp add: take_area_def yields_take_clauses)

lemma yields_blocks_limit: "yields (\<lambda>n. 1 \<le> n \<and> n \<le> 64) (blocks_limit ts)"
  unfolding blocks_limit_def
  by (intro yields_if yields_ebind [OF yields_py_int]) (simp_all add: blocks_usage_def bad_limit_def)

lemma area_entry [simp]: "entry_ok (k, area_json a)" "entry_ok (k, shape_json s)"
  by (simp_all add: area_json_def) (cases s; simp)

lemma yields_parse_blocks: "yields command_ok (parse_blocks chain n ts)"
proof -
  have inner: "yields command_ok (ebind (block_type u) (\<lambda>t. ebind (blocks_limit us) (\<lambda>m.
      Inr (bot_command ''blocks'' n ([(''type'', JStr t), (''limit'', JInt m)] @
        (case a of None \<Rightarrow> [] | Some v \<Rightarrow> [(''area'', area_json v)]))))))" for u us a
    by (rule yields_ebind [OF yields_block_type], rule yields_ebind [OF yields_blocks_limit]) (auto split: option.split)
  show ?thesis
    unfolding parse_blocks_def
    by (intro yields_if yields_ebind [OF yields_take_area])
      (simp_all only: case_prod_beta yields_simps is_value_error.simps blocks_usage_def inner yields_if split: if_split)
qed

lemma yields_entity: "yields command_ok (parse_entity n ts)"
  unfolding parse_entity_def by (intro yields_if yields_ebind [OF yields_entity_selector]) (simp_all add: unknown_action_def)

lemma block_faces_range: "map_of block_faces k = Some f \<Longrightarrow> entry_ok (''face'', JInt f)"
  by (auto simp: block_faces_def split: if_splits)

lemma yields_interact: "yields command_ok (parse_interact n ts)"
proof -
  have "yields command_ok (ebind (position us) (\<lambda>(ps, _). Inr (bot_command ''interact'' n
      (ps @ [(''face'', JInt f), (''faceName'', JStr k)]))))" if "map_of block_faces k = Some f" for us f k
    by (rule yields_ebind [OF yields_position]) (use block_faces_range [OF that] in auto)
  then have "yields command_ok (case map_of block_faces (casefold (last ts)) of
        Some f \<Rightarrow> if length ts = 4 then ebind (position (take 3 ts)) (\<lambda>(ps, _).
              Inr (bot_command ''interact'' n (ps @ [(''face'', JInt f), (''faceName'', JStr (casefold (last ts)))])))
          else Inl interact_usage
      | None \<Rightarrow> Inl interact_usage)"
    by (auto simp: interact_usage_def split: option.split)
  moreover have "yields command_ok (ebind (position ts) (\<lambda>(ps, _). Inr (bot_command ''interact'' n ps)))"
    by (rule yields_ebind [OF yields_position]) auto
  ultimately show ?thesis unfolding parse_interact_def
    by (intro yields_if yields_targeted_action yields_ebind [OF yields_target_token]) simp_all
qed

lemma yields_destroy_clauses: "params_ok ps \<Longrightarrow> yields (\<lambda>(qs, _). params_ok qs) (destroy_clauses ts ps)"
proof (induction ts ps rule: destroy_clauses.induct)
  case (2 c ts ps)
  show ?case
  proof (cases "is_destroy_clause c \<and> ts \<noteq> []")
    case True
    then obtain v us where ts: "ts = v # us" by (cases ts) auto
    let ?key = "if casefold c = ''for'' then ''durationTicks'' else ''blockCount''"
    have "yields (\<lambda>(qs, _). params_ok qs) (ebind (if casefold c = ''for'' then ticks v ''Duration'' else blocks v ''Block count'')
        (\<lambda>n. destroy_clauses us (dict_set ?key (JInt n) ps)))" if "\<not> (?key \<in> set (keys ps) \<or> is_destroy_clause v)"
    proof (rule yields_bind_eq [where Q = "\<lambda>n. 1 \<le> n \<and> n \<le> 72000"])
      fix m assume m: "1 \<le> m \<and> m \<le> (72000 :: int)"
        "(if casefold c = ''for'' then ticks v ''Duration'' else blocks v ''Block count'') = Inr m"
      have "params_ok (dict_set ?key (JInt m) ps)" using 2(2) m(1) by (intro params_ok_set) auto
      with True ts that show "yields (\<lambda>(qs, _). params_ok qs) (destroy_clauses us (dict_set ?key (JInt m) ps))"
        by (intro 2(1) [OF _ refl ts that m(2)]) auto
    qed (simp add: yields_ticks yields_blocks)
    then show ?thesis using True by (simp only: ts destroy_clauses.simps Let_def list.case) (auto simp: destroy_usage_def)
  qed (use 2(2) in \<open>auto simp: destroy_usage_def\<close>)
qed simp

lemma yields_destroy_block: "yields command_ok (destroy_block n ts)"
  unfolding destroy_block_def
proof (rule yields_ebind [OF yields_position], clarify)
  fix ps and rest :: "string list" assume ps: "params_ok ps"
  show "yields command_ok (if length ts = 4 then (case map_of block_faces (casefold (ts ! 3)) of
      None \<Rightarrow> Inl (plain_error ''Invalid block face'')
    | Some f \<Rightarrow> Inr (bot_command ''destroy'' n (ps @ [(''face'', JInt f)]))) else Inr (bot_command ''destroy'' n ps))"
    using ps block_faces_range [of "casefold (ts ! 3)"] by (auto split: option.split)
qed

lemma yields_destroy_limits: "yields command_ok (destroy_limits n ts)"
proof -
  have "yields command_ok (if ps \<noteq> [] then
          (if mode \<noteq> None \<and> mode \<noteq> Some ''continuous'' then Inl destroy_single
           else if us \<noteq> [] then Inl destroy_usage
           else Inr (bot_command ''destroy'' n ((''mode'', JStr ''continuous'') # ps)))
        else if mode = None \<and> length us \<in> {3, 4} \<and> \<not> list_ex is_destroy_clause us then destroy_block n us
        else if list_ex is_destroy_clause us then Inl destroy_single
        else Inl destroy_usage)" if "params_ok ps" for ps mode us
    by (intro yields_if yields_destroy_block)
      (use that in \<open>simp_all only: yields_simps is_value_error.simps destroy_single_def destroy_usage_def bot_command_simps
        params_ok_simps entry_ok.simps simp_thms\<close>)
  then show ?thesis
    unfolding destroy_limits_def
    by (intro yields_Let yields_ebind [OF yields_destroy_clauses]) auto
qed

lemma yields_destroy:
  assumes "\<And>args. yields command_ok (again args)"
  shows "yields command_ok (parse_destroy again n ts)"
proof -
  have loop: "yields command_ok (ebind (again us) (\<lambda>loop.
      if dict_get (op_params loop) ''mode'' JNull \<noteq> JStr ''continuous''
      then Inl (plain_error ''Use destroy <block type> [continuous] [for <ticks>] [count <blocks>]'')
      else Inr (bot_command ''destroy'' n (dict_set ''blockType'' (JStr t) (op_params loop)))))" for us t
    by (rule yields_ebind [OF assms]) (auto intro: params_ok_set)
  show ?thesis unfolding parse_destroy_def
    by (intro yields_Let yields_if yields_destroy_limits yields_ebind [OF yields_block_type] loop) simp_all
qed

lemma yields_drop_count: "yields params_ok (drop_count ts)"
  by (auto simp: drop_count_def split: list.split)

lemma yields_drop: "yields command_ok (parse_drop n ts)"
  unfolding parse_drop_def by (intro yields_Let yields_if yields_ebind [OF yields_drop_count]) simp_all

lemma yields_with_area: "command_ok c \<Longrightarrow> yields command_ok (with_area c a)"
  by (simp add: with_area_def Let_def area_targets_def params_ok_set)

lemma yields_target_op:
  assumes "\<And>args. yields command_ok (again args)"
  shows "yields command_ok (parse_target_op chain again op n ts)"
  unfolding parse_target_op_def
proof (rule yields_ebind [OF yields_take_area], clarify)
  fix a us
  show "yields command_ok (case a of Some v \<Rightarrow> ebind (again (n # op # us)) (\<lambda>c. with_area c v)
      | None \<Rightarrow> if op = ''interact'' then parse_interact n ts else parse_destroy again n ts)"
    by (cases a) (auto simp: yields_interact yields_destroy assms intro!: yields_ebind [OF assms] yields_with_area)
qed

lemmas yields_operations = yields_spawn yields_visibility yields_teleport yields_move yields_look yields_swap yields_hold
  yields_hotbar yields_radius yields_block yields_parse_blocks yields_entity yields_targeted_action yields_drop
  yields_action_command

lemma yields_words:
  assumes "\<And>args. yields command_ok (again args)"
  shows "yields command_ok (parse_words chain again ts)"
proof -
  have f: "yields command_ok (parse_flag op n us)" for op n us by (simp add: parse_flag_def unknown_action_def)
  have "yields command_ok (parse_operation_words chain again op n us)" for op n us
    unfolding parse_operation_words_def
    by (intro yields_if yields_operations yields_target_op assms f) (simp_all (no_asm) add: unknown_action_def)
  then show ?thesis by (auto simp: parse_words_def yields_short split: option.split)
qed

section \<open>The parser terminates\<close>

lemma characters_simps [simp]:
  "characters [] = 0" "characters (t # ts) = length t + characters ts" "characters (ts @ us) = characters ts + characters us"
  by (simp_all add: characters_def)

fun escape_cost :: "shell_state \<Rightarrow> nat" where
  "escape_cost (Escape b) = 1"
| "escape_cost _ = 0"

lemma split_from_characters: "split_from st b w s = Inr ws \<Longrightarrow> characters ws \<le> length w + length s + escape_cost st"
proof (induction st b w s arbitrary: ws rule: split_from.induct)
  case (4 st w c cs)
  then show ?case by (fastforce split: if_splits)
next
  case (5 st w c cs)
  then show ?case by (fastforce split: if_splits)
next
  case (6 q st w c cs)
  then show ?case by (fastforce split: if_splits)
next
  case (7 b st w c cs)
  show ?case
  proof (cases b)
    case (Quoted q)
    with 7 show ?thesis by (fastforce split: if_splits)
  qed (use 7 in fastforce)+
qed (auto split: if_splits)

lemma split_characters: "shlex_split s = Inr ws \<Longrightarrow> characters ws \<le> length s"
  using split_from_characters [of Between False "[]" s ws] by (simp add: shlex_split_def)

lemma concat_tilde_pieces: "concat (tilde_pieces t) = t"
  by (induction t) (auto split: list.split)

lemma characters_concat: "characters ts = length (concat ts)"
  by (induction ts) auto

lemma expand_characters: "characters (expand_relative t) = length t"
  by (simp add: expand_relative_def Let_def characters_concat concat_tilde_pieces)

lemma tokens_characters: "tokens_of args = Inr ts \<Longrightarrow> characters ts \<le> characters args"
proof -
  have expand: "characters (concat (map expand_relative us)) = characters us" for us
    by (induction us) (auto simp: expand_characters)
  have "emap (\<lambda>a. if list_ex is_space a then shlex_split a else Inr [a]) args = Inr tss \<Longrightarrow>
      characters (concat tss) \<le> characters args" for tss
  proof (induction args arbitrary: tss)
    case (Cons a args)
    then obtain u us where "(if list_ex is_space a then shlex_split a else Inr [a]) = Inr u" "tss = u # us"
        "emap (\<lambda>a. if list_ex is_space a then shlex_split a else Inr [a]) args = Inr us" by auto
    with Cons.IH [of us] show ?case by (auto split: if_splits dest: split_characters)
  qed simp
  then show "tokens_of args = Inr ts \<Longrightarrow> characters ts \<le> characters args"
    by (auto simp: tokens_of_def expand)
qed

lemma take_values_characters: "take_values ts vs f = (ws, g, us) \<Longrightarrow> characters us \<le> characters ts"
  by (induction ts vs f rule: take_values.induct) (auto split: if_splits)

lemma clause_length: "is_clause (casefold t) \<Longrightarrow> 0 < length t"
  by (cases t) (auto simp: is_clause_def casefold_def)

lemma take_clauses_characters:
  "take_clauses chain ts a seen rest = Inr (r, rest') \<Longrightarrow> characters rest' \<le> characters rest + characters ts \<and>
     (r \<noteq> None \<and> \<not> seen \<longrightarrow> characters rest' < characters rest + characters ts)"
proof (induction chain ts a seen rest rule: take_clauses.induct)
  case (2 chain t ts a seen rest)
  obtain vs f us where tv: "take_values ts [] False = (vs, f, us)" by (cases "take_values ts [] False")
  show ?case
  proof (cases "is_clause (casefold t)")
    case False
    with 2 show ?thesis by (auto simp: Let_def)
  next
    case True
    obtain s where "parse_shape (casefold t) vs f = Inr s" and IH: "characters rest' \<le> characters rest + characters us"
    proof -
      from 2(3) True tv obtain s where s: "parse_shape (casefold t) vs f = Inr s"
          "take_clauses chain us (if casefold t = ''within'' then a\<lparr>within_shape := Some s\<rparr>
             else a\<lparr>except_shapes := except_shapes a @ [s]\<rparr>) True rest = Inr (r, rest')"
          "\<not> (casefold t = ''within'' \<and> within_shape a \<noteq> None)" "\<not> (casefold t = ''except'' \<and> except_shapes a \<noteq> [] \<and> \<not> chain)"
          "\<not> (vs = [] \<and> us \<noteq> [] \<and> names_shape (hd us))"
        by (auto simp: Let_def split: if_splits)
      from 2(2) [OF refl _ s(3,4) tv [symmetric] refl s(5,1,2)] True have "characters rest' \<le> characters rest + characters us"
        by simp
      with s(1) show ?thesis by (rule that)
    qed
    with take_values_characters [OF tv] clause_length [OF True]
    have "0 < length t" "characters us \<le> characters ts" by blast+
    with IH have "characters rest' < characters rest + characters (t # ts)" unfolding characters_simps by linarith
    then show ?thesis by simp
  qed
qed auto

lemma take_area_characters: "take_area chain ts = Inr (Some a, us) \<Longrightarrow> characters us < characters ts"
  using take_clauses_characters [of chain ts "\<lparr>within_shape = None, except_shapes = []\<rparr>" False "[]" "Some a" us]
  by (simp add: take_area_def)

lemma block_type_nonempty: "block_type raw = Inr t \<Longrightarrow> raw \<noteq> []"
  by (auto simp: block_type_def namespaced_def is_identifier_def casefold_def Let_def)

text \<open>A recursive call sees fewer characters.\<close>

lemma ebind_eqI: "(\<And>x. m = Inr x \<Longrightarrow> f x = g x) \<Longrightarrow> ebind m f = ebind m g"
  by (cases m) auto

lemma parse_destroy_cong:
  assumes "\<And>args. characters args < length n + 7 + characters ts \<Longrightarrow> again args = again' args"
  shows "parse_destroy again n ts = parse_destroy again' n ts"
proof -
  have "again (n # ''destroy'' # tl ts) = again' (n # ''destroy'' # tl ts)" if "block_type (hd ts) = Inr t" "ts \<noteq> []" for t
    using that(2) block_type_nonempty [OF that(1)] by (intro assms) (cases ts; simp)
  then have "ts \<noteq> [] \<Longrightarrow> block_type (hd ts) = Inr t \<Longrightarrow> ebind (again (n # ''destroy'' # tl ts)) f = ebind (again' (n # ''destroy'' # tl ts)) f"
    for t and f :: "bot_command \<Rightarrow> py_error + bot_command" by simp
  then show ?thesis unfolding parse_destroy_def Let_def
    by (cases "ts = []") (simp_all cong: if_cong ebind_cong)
qed

lemma parse_target_op_cong:
  assumes "\<And>args. characters args < length n + length op + characters ts \<Longrightarrow> again args = again' args"
    and op: "op = ''destroy'' \<or> op = ''interact''"
  shows "parse_target_op chain again op n ts = parse_target_op chain again' op n ts"
proof -
  have area: "again (n # op # us) = again' (n # op # us)" if "take_area chain ts = Inr (Some a, us)" for a us
    using take_area_characters [OF that] by (intro assms(1)) simp
  have "parse_destroy again n ts = parse_destroy again' n ts" if "op \<noteq> ''interact''"
    by (rule parse_destroy_cong) (use assms that in auto)
  then show ?thesis unfolding parse_target_op_def
    using area by (intro ebind_eqI) (clarsimp split: option.split)
qed

lemma parse_words_cong:
  assumes again: "\<And>args. characters args < characters ts \<Longrightarrow> again args = again' args"
  shows "parse_words chain again ts = parse_words chain again' ts"
proof (cases "parse_short ts")
  case None
  then obtain n o' rest where ts: "ts = n # o' # rest"
    by (cases ts rule: remdups_adj.cases) (auto simp: parse_short_def Let_def split: if_splits)
  define op where "op = alias_of (casefold o')"
  have "parse_target_op chain again op n rest = parse_target_op chain again' op n rest" if "op = ''destroy'' \<or> op = ''interact''"
  proof (rule parse_target_op_cong [OF again that])
    have "length op = length o'"
      using that by (auto simp: op_def alias_of_def split: if_splits dest: arg_cong [where f = length])
    then show "characters args < length n + length op + characters rest \<Longrightarrow> characters args < characters ts" for args
      by (simp add: ts)
  qed
  then have "parse_operation_words chain again op n rest = parse_operation_words chain again' op n rest"
    by (simp add: parse_operation_words_def cong: if_cong)
  then show ?thesis using None by (simp add: parse_words_def ts op_def)
qed (simp add: parse_words_def)

lemma parse_at_enough: "characters args < n \<Longrightarrow> characters args < m \<Longrightarrow> parse_at n chain args = parse_at m chain args"
proof (induction "characters args" arbitrary: n m args rule: less_induct)
  case less
  obtain n' m' where nm: "n = Suc n'" "m = Suc m'" using less(2,3) by (cases n; cases m) auto
  have "parse_words chain (parse_at n' chain) ts = parse_words chain (parse_at m' chain) ts" if "tokens_of args = Inr ts" for ts
  proof (rule parse_words_cong)
    fix bs assume bs: "characters bs < characters ts"
    with tokens_characters [OF that] less(2,3) show "parse_at n' chain bs = parse_at m' chain bs"
      by (intro less(1)) (auto simp: nm)
  qed
  then show ?case unfolding nm by (auto intro: ebind_eqI)
qed

lemma parse_command_unfold: "parse_command chain args = ebind (tokens_of args) (parse_words chain (parse_command chain))"
proof -
  have "parse_words chain (parse_at (characters args) chain) ts = parse_words chain (parse_command chain) ts"
    if "tokens_of args = Inr ts" for ts
    using tokens_characters [OF that] unfolding parse_command_def
    by (intro parse_words_cong parse_at_enough) (simp_all del: parse_at.simps)
  then show ?thesis unfolding parse_command_def [of chain args] parse_at.simps by (intro ebind_eqI)
qed

lemma yields_split_from: "yields (\<lambda>_. True) (split_from st b w s)"
proof (induction st b w s rule: split_from.induct)
  case (7 b st w c cs)
  then show ?case by (cases b) auto
qed (auto intro!: yields_ebind [where Q = "\<lambda>_. True"])

lemma yields_tokens: "yields (\<lambda>_. True) (tokens_of args)"
  unfolding tokens_of_def
  by (rule yields_ebind [OF yields_emap]) (auto simp: shlex_split_def yields_split_from)

lemma yields_parse_at: "characters args < n \<Longrightarrow> yields command_ok (parse_at n chain args)"
proof (induction n arbitrary: args)
  case (Suc n)
  have "yields command_ok (parse_words chain (parse_at n chain) ts)" if ts: "tokens_of args = Inr ts" for ts
  proof -
    let ?again = "\<lambda>bs. if characters bs < characters ts then parse_at n chain bs else Inl (ValueError [])"
    have "yields command_ok (parse_words chain ?again ts)"
      using tokens_characters [OF ts] Suc by (intro yields_words) auto
    also have "parse_words chain ?again ts = parse_words chain (parse_at n chain) ts"
      by (rule parse_words_cong) simp
    finally show ?thesis .
  qed
  then show ?case by (auto intro!: yields_bind_eq [OF yields_tokens])
qed simp

lemma yields_parse_command: "yields command_ok (parse_command chain args)"
  by (simp add: parse_command_def yields_parse_at del: parse_at.simps)

text \<open>C28: The command parser terminates on every input: it satisfies the recursive equation of the source, any call
  depth above the number of typed characters gives the same result, and the depth never runs out.\<close>

theorem parser_terminates:
  "parse_command chain args = ebind (tokens_of args) (parse_words chain (parse_command chain)) \<and>
   (\<forall>n. parse_at (Suc (characters args) + n) chain args = parse_command chain args) \<and>
   parse_command chain args \<noteq> Inl recursion_error"
proof (intro conjI allI)
  show "parse_command chain args = ebind (tokens_of args) (parse_words chain (parse_command chain))"
    by (rule parse_command_unfold)
  show "parse_at (Suc (characters args) + n) chain args = parse_command chain args" for n
    unfolding parse_command_def by (rule parse_at_enough) simp_all
  show "parse_command chain args \<noteq> Inl recursion_error"
    using yields_parse_command [of chain args] by (auto simp: recursion_error_def)
qed


end
