(* ===== verification/Triples.thy ===== *)
theory Triples
  imports Effects
begin

text \<open>
  Catching what an effect raises, and triples of effects: an invariant that stays whether the effect returns or
  raises, and what holds of a value that is returned.
\<close>

definition recover :: "('e, 's, 'a) effect \<Rightarrow> ('e \<Rightarrow> ('e, 's, 'a) effect) \<Rightarrow> ('e, 's, 'a) effect" where
  "recover m h s = (case m s of (Inl e, s') \<Rightarrow> h e s' | (Inr x, s') \<Rightarrow> (Inr x, s'))"

text \<open>\<open>triple I P m Q\<close>: the invariant stays, whether \<open>m\<close> returns or raises, and what it returns satisfies \<open>Q\<close>.\<close>

definition triple :: "('s \<Rightarrow> bool) \<Rightarrow> ('s \<Rightarrow> bool) \<Rightarrow> ('e, 's, 'a) effect \<Rightarrow> ('a \<Rightarrow> 's \<Rightarrow> bool) \<Rightarrow> bool" where
  "triple I P m Q \<longleftrightarrow> (\<forall>s. I s \<and> P s \<longrightarrow> I (snd (m s)) \<and> (case fst (m s) of Inr x \<Rightarrow> Q x (snd (m s)) | Inl e \<Rightarrow> True))"

lemma tripleD: "triple I P m Q \<Longrightarrow> I s \<Longrightarrow> P s \<Longrightarrow> m s = (Inr x, t) \<Longrightarrow> I t \<and> Q x t"
  "triple I P m Q \<Longrightarrow> I s \<Longrightarrow> P s \<Longrightarrow> I (snd (m s))"
  "triple I P m Q \<Longrightarrow> I s \<Longrightarrow> P s \<Longrightarrow> m s = (r, t) \<Longrightarrow> I t"
  by (force simp: triple_def)+

lemma triple_sbind [intro]:
  assumes "triple I P m Q" "\<And>x. triple I (Q x) (f x) R"
  shows "triple I P (sbind m f) R"
  using assms unfolding triple_def sbind_def
  by (force split: prod.split sum.split)

lemma triple_ret [intro]: "(\<And>s. I s \<Longrightarrow> P s \<Longrightarrow> Q x s) \<Longrightarrow> triple I P (ret x) Q"
  by (simp add: triple_def)

lemma triple_fail [intro]: "triple I P (fail e) Q"
  by (simp add: triple_def)

lemma triple_look [intro]: "(\<And>s x. I s \<Longrightarrow> P s \<Longrightarrow> f s = Inr x \<Longrightarrow> Q x s) \<Longrightarrow> triple I P (look f) Q"
  by (auto simp: triple_def split: sum.split)

lemma triple_mono: "triple I P m Q \<Longrightarrow> (\<And>s. I s \<Longrightarrow> P' s \<Longrightarrow> P s) \<Longrightarrow> (\<And>x s. I s \<Longrightarrow> Q x s \<Longrightarrow> Q' x s) \<Longrightarrow> triple I P' m Q'"
  unfolding triple_def by (force split: sum.splits)

lemma triple_if [intro]: "(c \<Longrightarrow> triple I P m Q) \<Longrightarrow> (\<not> c \<Longrightarrow> triple I P k Q) \<Longrightarrow> triple I P (if c then m else k) Q"
  by simp

lemma triple_smap: "(\<And>x. x \<in> set xs \<Longrightarrow> triple I P (f x) (\<lambda>_. P)) \<Longrightarrow> triple I P (smap f xs) (\<lambda>_. P)"
proof (induction xs)
  case (Cons x xs)
  then show ?case by (auto intro!: triple_sbind [where Q = "\<lambda>_. P"])
qed auto

lemma triple_recover [intro]:
  assumes "triple I P m Q" "\<And>e. triple I (\<lambda>_. True) (h e) Q"
  shows "triple I P (recover m h) Q"
  unfolding triple_def
proof (intro allI impI)
  fix s assume s: "I s \<and> P s"
  obtain r t where m: "m s = (r, t)" by force
  have t: "I t" using tripleD(3) [OF assms(1) _ _ m] s by blast
  show "I (snd (recover m h s)) \<and> (case fst (recover m h s) of Inr x \<Rightarrow> Q x (snd (recover m h s)) | Inl e \<Rightarrow> True)"
  proof (cases r)
    case (Inr x)
    then show ?thesis using tripleD(1) [OF assms(1), of s x t] s m by (simp add: recover_def)
  next
    case (Inl e)
    then show ?thesis using assms(2) [of e] t m by (auto simp: recover_def triple_def split: sum.split)
  qed
qed

lemma triple_pure: "(c \<Longrightarrow> triple I (\<lambda>_. True) m Q) \<Longrightarrow> triple I (\<lambda>_. c) m Q"
  by (auto simp: triple_def)

lemma triple_weaken: "triple I (\<lambda>_. True) m (\<lambda>_ _. True) \<Longrightarrow> triple I P m (\<lambda>_ _. True)"
  by (auto simp: triple_def)

text \<open>A part of the invariant that holds of later states anyway may be used as a precondition.\<close>

lemma triple_inv: "triple (\<lambda>s. I s \<and> R s) P m Q \<Longrightarrow> triple I (\<lambda>s. P s \<and> R s) m (\<lambda>x s. Q x s \<and> R s)"
  unfolding triple_def by (force split: sum.split)

end
