(* ===== verification/Mining_Loops.thy ===== *)
theory Mining_Loops
  imports Bot_Guards Triples
begin

text \<open>
  Block breaking jobs and the poll that renews them, \<open>BotCommandService.poll_mining\<close> and its helpers
  (\<open>endbot_core/commands.py\<close>). A job is an entry of \<open>_mining_loops\<close>; entries are compared by \<open>is\<close>, so each
  carries a \<open>stamp\<close> of its own. The poll runs beside the command worker: whatever the worker does to the table
  during a request is \<open>meanwhile\<close>, any function of the moment. The runtime, the server's answer to a batch of
  targets and the authority's decisions are arguments too. A mining state of the runtime is read as it comes;
  of what it gives as a reason only scalars have a text.
\<close>

record mining_job =
  stamp :: nat
  job_name :: string
  job_identity :: string
  job_loop :: json
  job_source :: principal
  job_block :: json
  job_area :: json

type_synonym job_table = "(string, mining_job) dict"

record poll_state =
  moment :: nat
  jobs :: job_table
  unreached :: "(string, nat \<times> nat) dict"
  waits :: "(string, nat \<times> nat) dict"
  posted :: "(nat \<times> string \<times> params) list"

record surroundings =
  reply_to :: "nat \<Rightarrow> string \<Rightarrow> params \<Rightarrow> failure + json"
  targets_of :: "nat \<Rightarrow> json list \<Rightarrow> failure + json"
  may_source :: "nat \<Rightarrow> principal \<Rightarrow> bool"
  meanwhile :: "nat \<Rightarrow> job_table \<Rightarrow> job_table"
  job_owners :: "ownership_store option"

type_synonym 'a polled = "(failure, poll_state, 'a) effect"

datatype cause = Because string | Raised failure

datatype poll_event =
    Job_Ended principal string string cause string
  | Job_Waiting principal string json

definition unreachable_poll_limit :: nat where
  "unreachable_poll_limit = 50"

definition waiting_notice_polls :: nat where
  "waiting_notice_polls = 10"

definition batch_result_error :: string where
  "batch_result_error = ''resolve_mining_batch returned an unexpected result''"

section \<open>Why a job ended\<close>

definition commanded_stops :: "string list" where
  "commanded_stops = [''stopped'', ''continuous mining restarted'', ''target changed'']"

definition expected_ends :: "string list" where
  "expected_ends = [''duration elapsed'', ''block count reached'']"

definition mining_reasons :: "(string, string) dict" where
  "mining_reasons =
     [(''BDS changed target block'', ''block broken or changed''),
      (''stopped'', ''stopped''),
      (''target changed'', ''replaced by a new target''),
      (''continuous mining restarted'', ''replaced by destroy continuous''),
      (''movement changed'', ''canceled by move''),
      (''look changed'', ''canceled by look''),
      (''attack started'', ''canceled by attack''),
      (''use started'', ''canceled by use''),
      (''hotbar changed'', ''canceled by hotbar change''),
      (''held item changed'', ''held item changed''),
      (''block interaction started'', ''canceled by interact''),
      (''item dropped'', ''canceled by drop''),
      (''teleported'', ''canceled by teleport''),
      (''dimension changed'', ''canceled by dimension change''),
      (''respawning'', ''canceled by death''),
      (''disconnected'', ''Bot disconnected''),
      (''connection closed'', ''Bot disconnected''),
      (''target moved out of reach'', ''target out of reach''),
      (''mining controller timed out'', ''lost contact with the Endbot plugin''),
      (''timed out waiting for BDS to change target'', ''block did not break within 10 minutes; protected or unbreakable?''),
      (''duration elapsed'', ''duration elapsed'')]"

text \<open>\<open>d.get(k) or {}\<close>, used as a dictionary.\<close>

definition object_of :: "params \<Rightarrow> string \<Rightarrow> failure + params" where
  "object_of d k = (if \<not> truthy (get_json d k) then Inr []
     else (case get_json d k of JObj m \<Rightarrow> Inr m | _ \<Rightarrow> Inl (Crash k)))"

text \<open>\<open>list(d.get(k) or [])\<close>.\<close>

definition list_of :: "params \<Rightarrow> string \<Rightarrow> failure + json list" where
  "list_of d k = (if \<not> truthy (get_json d k) then Inr []
     else (case get_json d k of
         JArr js \<Rightarrow> Inr js
       | JStr s \<Rightarrow> Inr (map (\<lambda>c. JStr [c]) s)
       | JObj m \<Rightarrow> Inr (map JStr (keys m))
       | _ \<Rightarrow> Inl (Crash k)))"

text \<open>\<open>False\<close> while still breaking, \<open>None\<close> for a commanded stop, else the reason.\<close>

datatype job_end = Still_Breaking | Commanded | Ended_By string

definition mining_end_reason :: "params \<Rightarrow> params \<Rightarrow> job_end" where
  "mining_end_reason status mining =
     (let reason = (if truthy (get_json mining ''reason'') then scalar_text (get_json mining ''reason'') else []) in
      if reason \<in> set commanded_stops then Commanded
      else if mining = [] \<and> get_json status ''connectionState'' \<noteq> JStr ''online'' then Ended_By ''Bot disconnected''
      else Ended_By (dict_get mining_reasons reason (if reason = [] then ''ended'' else reason)))"

definition single_mining_end :: "params \<Rightarrow> params \<Rightarrow> json \<Rightarrow> failure + job_end" where
  "single_mining_end status mining position =
     (if truthy (get_json mining ''loopId'') then Inr Commanded
      else ebind (list_of mining ''blockPosition'') (\<lambda>js.
        if JArr js \<noteq> position then Inr Commanded
        else if get_json mining ''state'' = JStr ''active'' then Inr Still_Breaking
        else if get_json mining ''state'' = JStr ''completed'' then Inr Commanded
        else Inr (mining_end_reason status mining)))"

definition notice :: "mining_job \<Rightarrow> string \<Rightarrow> cause \<Rightarrow> poll_event" where
  "notice e level why = Job_Ended (job_source e) (job_name e) (if truthy (job_loop e) then ''destroy continuous'' else ''destroy'') why level"

section \<open>The table\<close>

definition post :: "surroundings \<Rightarrow> string \<Rightarrow> params \<Rightarrow> json polled" where
  "post v m ps s = (reply_to v (moment s) m ps,
     s\<lparr>moment := Suc (moment s), jobs := meanwhile v (moment s) (jobs s), posted := posted s @ [(moment s, m, ps)]\<rparr>)"

definition allowed :: "surroundings \<Rightarrow> principal \<Rightarrow> bool polled" where
  "allowed v p s = (Inr (may_source v (moment s) p), s\<lparr>moment := Suc (moment s), jobs := meanwhile v (moment s) (jobs s)\<rparr>)"

definition ask_targets :: "surroundings \<Rightarrow> json list \<Rightarrow> json polled" where
  "ask_targets v rs s = (targets_of v (moment s) rs, s\<lparr>moment := Suc (moment s), jobs := meanwhile v (moment s) (jobs s)\<rparr>)"

text \<open>\<open>_take_mining_loop\<close>: pop the entry only while it is the one that was looked at.\<close>

definition take_job :: "string \<Rightarrow> mining_job \<Rightarrow> bool polled" where
  "take_job k e s = (case map_of (jobs s) k of
     None \<Rightarrow> (Inr False, s)
   | Some e' \<Rightarrow> if stamp e' = stamp e then (Inr True, s\<lparr>jobs := dict_pop k (jobs s)\<rparr>) else (Inr False, s))"

text \<open>A stop that fails is swallowed; the runtime's lease runs out by itself.\<close>

definition ask_stop :: "surroundings \<Rightarrow> mining_job \<Rightarrow> unit polled" where
  "ask_stop v e = recover
     (sbind (post v ''mine'' [(''name'', JStr (job_name e)), (''mode'', JStr ''stop''), (''loopId'', job_loop e)]) (\<lambda>_. ret ()))
     (\<lambda>f. if caught f then ret () else fail f)"

definition end_job :: "surroundings \<Rightarrow> string \<Rightarrow> mining_job \<Rightarrow> bool polled" where
  "end_job v k e = sbind (take_job k e) (\<lambda>taken.
     if taken \<and> truthy (job_loop e) then sbind (ask_stop v e) (\<lambda>_. ret True) else ret taken)"

definition end_noticed :: "surroundings \<Rightarrow> string \<Rightarrow> mining_job \<Rightarrow> cause \<Rightarrow> poll_event list polled" where
  "end_noticed v k e why = sbind (end_job v k e) (\<lambda>taken. ret (if taken then [notice e ''warning'' why] else []))"

definition count_again :: "mining_job \<Rightarrow> (string, nat \<times> nat) dict \<Rightarrow> string \<Rightarrow> nat" where
  "count_again e d k = (case map_of d k of None \<Rightarrow> 1 | Some (i, n) \<Rightarrow> if i = stamp e then Suc n else 1)"

definition count_unreached :: "string \<Rightarrow> mining_job \<Rightarrow> nat polled" where
  "count_unreached k e s = (let n = count_again e (unreached s) k in (Inr n, s\<lparr>unreached := dict_set k (stamp e, n) (unreached s)\<rparr>))"

definition count_wait :: "string \<Rightarrow> mining_job \<Rightarrow> bool \<Rightarrow> nat polled" where
  "count_wait k e waiting s = (let n = (if waiting then count_again e (waits s) k else 0) in
     (Inr n, s\<lparr>waits := dict_set k (stamp e, n) (waits s)\<rparr>))"

text \<open>The two \<open>except\<close> clauses around the work of one job.\<close>

definition guarded :: "surroundings \<Rightarrow> string \<Rightarrow> mining_job \<Rightarrow> 'a \<Rightarrow> (poll_event list \<Rightarrow> 'a) \<Rightarrow> 'a polled \<Rightarrow> 'a polled" where
  "guarded v k e nothing events body = recover body (\<lambda>f.
     if \<not> caught f then fail f
     else sbind (case f of Control_Error c m \<Rightarrow> if c = ''unavailable'' then count_unreached k e else ret unreachable_poll_limit
               | _ \<Rightarrow> ret unreachable_poll_limit) (\<lambda>n.
       if n < unreachable_poll_limit then ret nothing
       else sbind (end_noticed v k e (Raised f)) (\<lambda>ns. ret (events ns))))"

section \<open>Phase one: every job is checked\<close>

datatype verdict = Events "poll_event list" | Pending params "nat option" "json list"

definition private_now :: "surroundings \<Rightarrow> mining_job \<Rightarrow> failure + bool" where
  "private_now v e = (case job_owners v of
     None \<Rightarrow> Inr False
   | Some st \<Rightarrow> if owner_key (job_source e) = None then Inr False
       else (case visible_to ''bots'' (job_identity e) (job_source e) st of Inl f \<Rightarrow> Inl (Invalid f) | Inr seen \<Rightarrow> Inr (\<not> seen)))"

definition target_request :: "mining_job \<Rightarrow> json" where
  "target_request e = JObj ([(''identityId'', JStr (job_identity e)), (''blockType'', if truthy (job_block e) then job_block e else JNull)] @
     (if job_area e = JNull then [] else [(''area'', job_area e)]))"

definition settle :: "string \<Rightarrow> mining_job \<Rightarrow> job_end \<Rightarrow> verdict polled" where
  "settle k e r = (case r of
     Still_Breaking \<Rightarrow> ret (Events [])
   | Commanded \<Rightarrow> sbind (take_job k e) (\<lambda>_. ret (Events []))
   | Ended_By why \<Rightarrow> sbind (take_job k e) (\<lambda>taken. ret (Events (if taken
         then [notice e (if why \<in> set expected_ends then ''info'' else ''warning'') (Because why)] else []))))"

definition reached :: "string \<Rightarrow> unit polled" where
  "reached k = update (\<lambda>s. s\<lparr>unreached := dict_pop k (unreached s)\<rparr>)"

definition status_checked :: "string \<Rightarrow> mining_job \<Rightarrow> json list \<Rightarrow> json \<Rightarrow> verdict polled" where
  "status_checked k e rs j = (case j of
     JObj d \<Rightarrow>
       (case map_of d ''identityId'' of
          None \<Rightarrow> fail (Crash ''identityId'')
        | Some i \<Rightarrow>
            if i \<noteq> JStr (job_identity e)
            then sbind (take_job k e) (\<lambda>taken. ret (Events (if taken then [notice e ''warning'' (Because ''Bot was renamed or removed'')] else [])))
            else sbind (look (\<lambda>_. object_of d ''mining'')) (\<lambda>mining.
              if job_loop e = JNull then sbind (look (\<lambda>_. single_mining_end d mining (job_block e))) (settle k e)
              else if get_json mining ''loopId'' \<noteq> job_loop e then settle k e (mining_end_reason d mining)
              else if get_json mining ''state'' \<noteq> JStr ''active''
                then ret (Pending mining (Some (length rs)) (rs @ [target_request e]))
              else ret (Pending mining None rs)))
   | _ \<Rightarrow> fail (Crash ''get''))"

definition check_body :: "surroundings \<Rightarrow> string \<Rightarrow> mining_job \<Rightarrow> json list \<Rightarrow> verdict polled" where
  "check_body v k e rs = sbind (allowed v (job_source e)) (\<lambda>ok.
     if \<not> ok then sbind (end_noticed v k e (Because ''control permission revoked'')) (\<lambda>ns. ret (Events ns))
     else sbind (look (\<lambda>_. private_now v e)) (\<lambda>private.
       if private then sbind (end_noticed v k e (Because ''the Bot became private'')) (\<lambda>ns. ret (Events ns))
       else sbind (post v ''status'' [(''name'', JStr (job_name e))]) (\<lambda>j.
            sbind (reached k) (\<lambda>_. status_checked k e rs j))))"

definition check_job :: "surroundings \<Rightarrow> string \<Rightarrow> mining_job \<Rightarrow> json list \<Rightarrow> verdict polled" where
  "check_job v k e rs = guarded v k e (Events []) Events (check_body v k e rs)"

text \<open>What phase one leaves: notices, jobs to continue with their mining state and request, and the requests.\<close>

type_synonym pending = "string \<times> mining_job \<times> params \<times> nat option"

fun check_jobs :: "surroundings \<Rightarrow> (string \<times> mining_job) list \<Rightarrow> json list \<Rightarrow> (poll_event list \<times> pending list \<times> json list) polled" where
  "check_jobs v [] rs = ret ([], [], rs)"
| "check_jobs v ((k, e) # es) rs = sbind (check_job v k e rs) (\<lambda>w. case w of
     Events ns \<Rightarrow> sbind (check_jobs v es rs) (\<lambda>(ns', ps, rs'). ret (ns @ ns', ps, rs'))
   | Pending mining n rs' \<Rightarrow> sbind (check_jobs v es rs') (\<lambda>(ns', ps, rs''). ret (ns', (k, e, mining, n) # ps, rs'')))"

section \<open>Phase two: one call for all targets\<close>

definition batch_targets :: "surroundings \<Rightarrow> json list \<Rightarrow> (failure + json list) polled" where
  "batch_targets v rs =
     (if rs = [] then ret (Inr [])
      else recover (sbind (ask_targets v rs) (\<lambda>j. ret (case j of
          JArr js \<Rightarrow> if length js = length rs then Inr js else Inl (Runtime_Error batch_result_error)
        | _ \<Rightarrow> Inl (Runtime_Error batch_result_error)))) (\<lambda>f. ret (Inl f)))"

text \<open>\<open>error_from_wire\<close> of \<open>endbot_core/link.py\<close>; an outcome code or data that comes with it is left out.\<close>

definition text_at :: "params \<Rightarrow> string \<Rightarrow> string \<Rightarrow> string" where
  "text_at d k t = (case map_of d k of None \<Rightarrow> t | Some j \<Rightarrow> scalar_text j)"

definition error_from_wire :: "json \<Rightarrow> failure" where
  "error_from_wire j = (case j of
     JObj d \<Rightarrow>
       (if text_at d ''code'' ''internal'' = ''invalid''
        then (case (get_json d ''template'', get_json d ''params'') of
            (JStr t, JObj ps) \<Rightarrow> Invalid (LocalizedError t (map (\<lambda>(k, x). (k, scalar_text x)) ps))
          | _ \<Rightarrow> Invalid (ValueError (text_at d ''message'' [])))
        else Runtime_Error (text_at d ''message'' []))
   | _ \<Rightarrow> Runtime_Error ''malformed error'')"

definition target_for :: "failure + json list \<Rightarrow> nat option \<Rightarrow> failure + json" where
  "target_for results n = (case n of
     None \<Rightarrow> Inr JNull
   | Some i \<Rightarrow> ebind results (\<lambda>js. case js ! i of
         JObj d \<Rightarrow> (case map_of d ''error'' of Some x \<Rightarrow> Inl (error_from_wire x) | None \<Rightarrow> Inr (get_json d ''target''))
       | _ \<Rightarrow> Inl (Runtime_Error batch_result_error)))"

section \<open>Phase three: the loops go on\<close>

definition continue_params :: "mining_job \<Rightarrow> params" where
  "continue_params e = [(''name'', JStr (job_name e)), (''mode'', JStr ''continue''), (''loopId'', job_loop e)]"

text \<open>\<open>**(target or {})\<close>: what is no mapping, or repeats an argument, raises.\<close>

definition with_target :: "params \<Rightarrow> json \<Rightarrow> failure + params" where
  "with_target ps target = (if \<not> truthy target then Inr ps
     else (case target of
         JObj d \<Rightarrow> if list_all (\<lambda>k. k \<notin> set (keys ps) \<and> k \<noteq> ''method'') (keys d) then Inr (ps @ d) else Inl (Crash ''request'')
       | _ \<Rightarrow> Inl (Crash ''request'')))"

definition rejected :: "failure \<Rightarrow> json \<Rightarrow> bool" where
  "rejected f target = (case f of
     Control_Error c m \<Rightarrow> truthy target \<and> c \<notin> {''unavailable'', ''protocol'', ''unauthorized''} | _ \<Rightarrow> False)"

definition continue_loop :: "surroundings \<Rightarrow> mining_job \<Rightarrow> params \<Rightarrow> json \<Rightarrow> bool polled" where
  "continue_loop v e mining target = sbind (look (\<lambda>_. with_target (continue_params e) target)) (\<lambda>ps.
     recover (sbind (post v ''mine'' ps) (\<lambda>_. ret (get_json mining ''state'' \<noteq> JStr ''active'' \<and> target = JNull)))
       (\<lambda>f. if rejected f target then sbind (post v ''mine'' (continue_params e)) (\<lambda>_. ret True) else fail f))"

definition continue_body :: "surroundings \<Rightarrow> failure + json list \<Rightarrow> pending \<Rightarrow> poll_event list polled" where
  "continue_body v results p = (case p of (k, e, mining, n) \<Rightarrow>
     sbind (look (\<lambda>_. target_for results n)) (\<lambda>target.
     sbind (continue_loop v e mining target) (\<lambda>waiting.
     sbind (count_wait k e waiting) (\<lambda>n.
     ret (if n = waiting_notice_polls then [Job_Waiting (job_source e) (job_name e) (job_block e)] else [])))))"

definition continue_job :: "surroundings \<Rightarrow> failure + json list \<Rightarrow> pending \<Rightarrow> poll_event list polled" where
  "continue_job v results p = (case p of (k, e, mining, n) \<Rightarrow> guarded v k e [] (\<lambda>ns. ns) (continue_body v results p))"

definition poll_mining :: "surroundings \<Rightarrow> poll_event list polled" where
  "poll_mining v = sbind (look (\<lambda>s. Inr (jobs s))) (\<lambda>es.
     sbind (check_jobs v es []) (\<lambda>(ns, ps, rs).
     sbind (batch_targets v rs) (\<lambda>results.
     sbind (smap (continue_job v results) ps) (\<lambda>nss. ret (ns @ concat nss)))))"

section \<open>Closing\<close>

definition end_any :: "surroundings \<Rightarrow> string \<Rightarrow> unit polled" where
  "end_any v k s = (case map_of (jobs s) k of
     None \<Rightarrow> (Inr (), s)
   | Some e \<Rightarrow> (if truthy (job_loop e) then ask_stop v e else ret ()) (s\<lparr>jobs := dict_pop k (jobs s)\<rparr>))"

definition close_loops :: "surroundings \<Rightarrow> unit polled" where
  "close_loops v = sbind (look (\<lambda>s. Inr (keys (jobs s)))) (\<lambda>ks. sbind (smap (end_any v) ks) (\<lambda>_. ret ()))"

end
