(* ===== verification/Mining_Laws.thy ===== *)
theory Mining_Laws
  imports Mining_Loops
begin

text \<open>
  What the poll of the block breaking jobs guarantees while the command worker changes the table beside it: a job
  that a command starts during a poll is left alone, a job is driven only after a look that found its source
  authorised, a job the runtime cannot be reached for ends after fifty polls, and closing stops every loop.
\<close>

section \<open>Time only passes\<close>

definition later :: "('a polled) \<Rightarrow> bool" where
  "later m \<longleftrightarrow> (\<forall>s. moment s \<le> moment (snd (m s)))"

lemma laterD: "later m \<Longrightarrow> m s = (r, t) \<Longrightarrow> moment s \<le> moment t"
  unfolding later_def by (metis snd_conv)

lemma later_sbind [intro!]: "later m \<Longrightarrow> (\<And>x. later (f x)) \<Longrightarrow> later (sbind m f)"
  unfolding later_def [of "sbind m f"] sbind_def
  by (auto split: prod.split sum.split dest!: laterD) (metis laterD order_trans prod.collapse)

lemma later_if [intro!]: "later m \<Longrightarrow> later k \<Longrightarrow> later (if c then m else k)"
  by simp

lemma later_recover [intro!]: "later m \<Longrightarrow> (\<And>f. later (h f)) \<Longrightarrow> later (recover m h)"
  unfolding later_def [of "recover m h"] recover_def
  by (auto split: prod.split sum.split dest!: laterD) (metis laterD order_trans prod.collapse)

lemma later_simple [simp, intro]: "later (ret x)" "later (fail z)" "later (look f)" "later (take_job k e)" "later (post v m ps)"
  "later (allowed v p)" "later (reached k)" "later (count_unreached k e)" "later (count_wait k e w)" "later (ask_targets v rs)"
  by (auto simp: later_def take_job_def post_def allowed_def reached_def count_unreached_def count_wait_def Let_def ask_targets_def
      split: option.split)

lemma later_ask [simp, intro]: "later (ask_stop v e)" "later (batch_targets v rs)"
  by (auto simp: ask_stop_def batch_targets_def)

lemma later_ended [simp, intro]: "later (end_noticed v k e why)"
  by (auto simp: end_noticed_def end_job_def)

lemma later_guarded: "later body \<Longrightarrow> later (guarded v k e nothing events body)"
  unfolding guarded_def by (intro later_recover later_if later_sbind) (auto split: failure.split)

lemma later_settle [simp, intro]: "later (settle k e r)"
  by (cases r) (auto simp: settle_def)

lemma later_status_checked [simp, intro]: "later (status_checked k e rs j)"
  unfolding status_checked_def by (auto split: json.split option.split)

lemma later_check_job [simp, intro]: "later (check_job v k e rs)"
  unfolding check_job_def check_body_def by (intro later_guarded later_sbind later_if) auto

lemma later_check_jobs [simp, intro]: "later (check_jobs v es rs)"
  by (induction v es rs rule: check_jobs.induct) (auto simp del: effect_simps split: verdict.split)

definition stable :: "(poll_state \<Rightarrow> bool) \<Rightarrow> bool" where
  "stable P \<longleftrightarrow> (\<forall>s t. P s \<and> moment s \<le> moment t \<longrightarrow> P t)"

lemma triple_later: "triple I P m Q \<Longrightarrow> later m \<Longrightarrow> stable R \<Longrightarrow> triple I (\<lambda>s. P s \<and> R s) m (\<lambda>x s. Q x s \<and> R s)"
  unfolding triple_def later_def stable_def by (force split: sum.split)

section \<open>What every step of a poll keeps\<close>

text \<open>
  \<open>I\<close> is kept when time passes, when a job of the snapshot is taken out while it is still the same entry, and when a
  job is stopped; a job may be driven once it is \<open>cleared\<close>, which a look that found its source authorised makes it.
\<close>

definition ticked :: "surroundings \<Rightarrow> poll_state \<Rightarrow> poll_state" where
  "ticked v s = s\<lparr>moment := Suc (moment s), jobs := meanwhile v (moment s) (jobs s)\<rparr>"

definition post_at :: "string \<Rightarrow> params \<Rightarrow> poll_state \<Rightarrow> poll_state" where
  "post_at m ps s = s\<lparr>posted := posted s @ [(moment s, m, ps)]\<rparr>"

definition names_job :: "mining_job \<Rightarrow> params \<Rightarrow> bool" where
  "names_job e ps \<longleftrightarrow> map_of ps ''name'' = Some (JStr (job_name e))"

definition is_stop :: "params \<Rightarrow> bool" where
  "is_stop ps \<longleftrightarrow> map_of ps ''mode'' = Some (JStr ''stop'')"

lemma post_ticked: "post v m ps s = (reply_to v (moment s) m ps, ticked v (post_at m ps s))"
  "allowed v p s = (Inr (may_source v (moment s) p), ticked v s)" "ask_targets v rs s = (targets_of v (moment s) rs, ticked v s)"
  by (simp_all add: post_def ticked_def post_at_def allowed_def ask_targets_def)

locale poll_kept =
  fixes v :: surroundings and snapshot :: job_table and I :: "poll_state \<Rightarrow> bool" and cleared :: "mining_job \<Rightarrow> poll_state \<Rightarrow> bool"
  assumes tick: "I s \<Longrightarrow> I (ticked v s)"
    and take: "I s \<Longrightarrow> (k, e) \<in> set snapshot \<Longrightarrow> map_of (jobs s) k = Some e' \<Longrightarrow> stamp e' = stamp e \<Longrightarrow> I (s\<lparr>jobs := dict_pop k (jobs s)\<rparr>)"
    and counts: "I (s\<lparr>unreached := a\<rparr>) = I s" "I (s\<lparr>waits := b\<rparr>) = I s"
    and stop: "I s \<Longrightarrow> is_stop ps \<Longrightarrow> I (post_at m ps s)"
    and drive: "I s \<Longrightarrow> (k, e) \<in> set snapshot \<Longrightarrow> cleared e s \<Longrightarrow> names_job e ps \<Longrightarrow> I (post_at m ps s)"
    and clear: "I s \<Longrightarrow> may_source v (moment s) (job_source e) \<Longrightarrow> cleared e (ticked v s)"
    and stays: "cleared e s \<Longrightarrow> moment s \<le> moment t \<Longrightarrow> cleared e t"
begin

lemma take_job_kept: "(k, e) \<in> set snapshot \<Longrightarrow> (\<And>s d. P (s\<lparr>jobs := d\<rparr>) = P s) \<Longrightarrow> triple I P (take_job k e) (\<lambda>_. P)"
  by (auto simp: triple_def take_job_def take split: option.split)

lemma ask_stop_kept: "triple I P (ask_stop v e) (\<lambda>_ _. True)"
proof -
  have "triple I P (post v ''mine'' [(''name'', JStr (job_name e)), (''mode'', JStr ''stop''), (''loopId'', job_loop e)]) (\<lambda>_ _. True)"
    by (auto simp: triple_def post_ticked is_stop_def intro!: tick stop split: sum.split)
  then show ?thesis
    unfolding ask_stop_def by (auto intro!: triple_recover triple_sbind)
qed

lemma end_job_kept: "(k, e) \<in> set snapshot \<Longrightarrow> triple I (\<lambda>_. True) (end_job v k e) (\<lambda>_ _. True)"
  unfolding end_job_def
  by (rule triple_sbind [OF take_job_kept]) (auto intro: triple_sbind [OF ask_stop_kept])

lemma end_noticed_kept: "(k, e) \<in> set snapshot \<Longrightarrow> triple I (\<lambda>_. True) (end_noticed v k e why) (\<lambda>_ _. True)"
  unfolding end_noticed_def by (rule triple_sbind [OF end_job_kept]) auto

lemma count_unreached_kept: "triple I (\<lambda>_. True) (count_unreached k e) (\<lambda>_ _. True)"
  by (simp add: triple_def count_unreached_def counts Let_def)

lemma guarded_kept:
  assumes "(k, e) \<in> set snapshot" "triple I P body Q" "\<And>s. Q nothing s" "\<And>ns s. Q (events ns) s"
  shows "triple I P (guarded v k e nothing events body) Q"
  unfolding guarded_def
  by (rule triple_recover [OF assms(2)])
    (auto split: failure.split intro!: triple_sbind [OF count_unreached_kept] triple_sbind [OF end_noticed_kept [OF assms(1)]] triple_ret simp: assms(3,4))

definition clears :: "mining_job \<Rightarrow> verdict \<Rightarrow> poll_state \<Rightarrow> bool" where
  "clears e w s = (case w of Events ns \<Rightarrow> True | Pending mining n rs \<Rightarrow> cleared e s)"

lemma clears_simps: "clears e (Events ns) s" "clears e (Pending mining n rs) s = cleared e s"
  by (simp_all add: clears_def)

lemma settle_kept: "(k, e) \<in> set snapshot \<Longrightarrow> triple I (\<lambda>_. True) (settle k e r) (clears e)"
  by (cases r) (auto simp: settle_def clears_simps intro!: triple_sbind [OF take_job_kept [where P = "\<lambda>_. True"]])

lemma cleared_same: "cleared e (s\<lparr>jobs := d\<rparr>) = cleared e s" "cleared e (s\<lparr>unreached := a\<rparr>) = cleared e s"
  "cleared e (s\<lparr>waits := b\<rparr>) = cleared e s" "cleared e (post_at m ps s) = cleared e s"
proof -
  have *: "cleared e s = cleared e t" if "moment s = moment t" for s t
    using stays [of e s t] stays [of e t s] that by auto
  show "cleared e (s\<lparr>jobs := d\<rparr>) = cleared e s" "cleared e (s\<lparr>unreached := a\<rparr>) = cleared e s"
    "cleared e (s\<lparr>waits := b\<rparr>) = cleared e s" "cleared e (post_at m ps s) = cleared e s"
    by (rule *, simp add: post_at_def)+
qed

lemma cleared_ticked: "cleared e s \<Longrightarrow> cleared e (ticked v s)"
  using stays [of e s "ticked v s"] by (simp add: ticked_def)

lemma drive_kept:
  "(k, e) \<in> set snapshot \<Longrightarrow> names_job e ps \<Longrightarrow> triple I (cleared e) (post v m ps) (\<lambda>_. cleared e)"
  by (auto simp: triple_def post_ticked cleared_same intro!: tick drive cleared_ticked split: sum.split)

lemma taken_kept: "(k, e) \<in> set snapshot \<Longrightarrow> triple I P (sbind (take_job k e) (\<lambda>taken. ret (Events (g taken)))) (clears e)"
  by (rule triple_mono [OF triple_sbind [OF take_job_kept [where P = "\<lambda>_. True"], where R = "clears e"]]) (auto simp: clears_simps)

lemma status_checked_kept: "(k, e) \<in> set snapshot \<Longrightarrow> triple I (cleared e) (status_checked k e rs j) (clears e)"
  unfolding status_checked_def
  by (auto split: json.split option.split simp: clears_simps
      intro!: triple_ret taken_kept triple_sbind [OF triple_look [where Q = "\<lambda>_. cleared e"]] triple_mono [OF settle_kept])

lemma check_job_kept: "(k, e) \<in> set snapshot \<Longrightarrow> triple I (\<lambda>_. True) (check_job v k e rs) (clears e)"
proof -
  assume e: "(k, e) \<in> set snapshot"
  have looked: "triple I (\<lambda>_. True) (allowed v (job_source e)) (\<lambda>ok s. ok \<longrightarrow> cleared e s)"
    by (auto simp: triple_def post_ticked intro: tick clear)
  have ended: "triple I P (sbind (end_noticed v k e why) (\<lambda>ns. ret (Events ns))) (clears e)" for P why
    by (rule triple_mono [OF triple_sbind [OF end_noticed_kept [OF e]]]) (auto simp: clears_simps)
  have named: "names_job e [(''name'', JStr (job_name e))]" by (simp add: names_job_def)
  have at: "triple I (cleared e) (reached k) (\<lambda>_. cleared e)"
    by (simp add: triple_def reached_def counts cleared_same)
  have "triple I (\<lambda>_. True) (check_body v k e rs) (clears e)"
    unfolding check_body_def
    by (rule triple_sbind [OF looked])
      (auto intro!: ended triple_sbind [OF triple_look [where Q = "\<lambda>_. cleared e"]]
        triple_sbind [OF drive_kept [OF e named]] triple_sbind [OF at] status_checked_kept [OF e])
  then show ?thesis
    unfolding check_job_def by (rule guarded_kept [OF e]) (auto simp: clears_simps)
qed

text \<open>Phase one leaves only jobs of the snapshot, each cleared.\<close>

definition ready :: "(poll_event list \<times> pending list \<times> json list) \<Rightarrow> poll_state \<Rightarrow> bool" where
  "ready w s = (case w of (ns, ps, rs) \<Rightarrow> list_all (\<lambda>(k, e, mining, n). (k, e) \<in> set snapshot \<and> cleared e s) ps)"

lemma stable_cleared: "stable (cleared e)" "stable (ready w)"
  using stays by (auto simp: stable_def ready_def list_all_iff split: prod.split) blast

lemma check_jobs_kept: "set es \<subseteq> set snapshot \<Longrightarrow> triple I (\<lambda>_. True) (check_jobs v es rs) ready"
proof (induction es arbitrary: rs)
  case Nil
  then show ?case by (auto simp: ready_def simp del: effect_simps)
next
  case (Cons x es)
  obtain k e where x: "x = (k, e)" by (rule prod.exhaust)
  have e: "(k, e) \<in> set snapshot" and IH: "triple I (\<lambda>_. True) (check_jobs v es rs) ready" for rs
    using Cons by (simp_all add: x)
  have "triple I (clears e w) (case w of
      Events ns \<Rightarrow> sbind (check_jobs v es rs) (\<lambda>(ns', ps, rs'). ret (ns @ ns', ps, rs'))
    | Pending mining n rs' \<Rightarrow> sbind (check_jobs v es rs') (\<lambda>(ns', ps, rs''). ret (ns', (k, e, mining, n) # ps, rs''))) ready" for w
  proof (cases w)
    case (Events ns)
    have "triple I (\<lambda>_. True) (sbind (check_jobs v es rs) (\<lambda>(ns', ps, rs'). ret (ns @ ns', ps, rs'))) ready"
      by (rule triple_sbind [OF IH]) (auto simp: ready_def)
    then show ?thesis by (simp add: Events triple_def clears_simps)
  next
    case (Pending mining n rs')
    have "triple I (\<lambda>s. True \<and> cleared e s) (sbind (check_jobs v es rs') (\<lambda>(ns', ps, rs''). ret (ns', (k, e, mining, n) # ps, rs''))) ready"
      by (rule triple_sbind [OF triple_later [OF IH later_check_jobs stable_cleared(1)]]) (auto simp: ready_def e)
    then show ?thesis by (simp add: Pending triple_def clears_simps)
  qed
  then show ?case
    unfolding x check_jobs.simps by (rule triple_sbind [OF check_job_kept [OF e]])
qed

lemma names_continue: "names_job e (continue_params e)" "with_target (continue_params e) target = Inr ps \<Longrightarrow> names_job e ps"
  by (auto simp: names_job_def continue_params_def with_target_def split: if_splits json.splits)

lemma cleared_poll: "triple (\<lambda>s. I s \<and> cleared e s) (\<lambda>_. True) m Q \<Longrightarrow> triple I (cleared e) m (\<lambda>_. cleared e)"
  unfolding triple_def by (force split: sum.split)

lemma drive_inv:
  "(k, e) \<in> set snapshot \<Longrightarrow> names_job e ps \<Longrightarrow> triple (\<lambda>s. I s \<and> cleared e s) (\<lambda>_. True) (post v m ps) (\<lambda>_ _. True)"
  by (auto simp: triple_def post_ticked cleared_same intro!: tick drive cleared_ticked split: sum.split)

lemma continue_loop_kept:
  assumes e: "(k, e) \<in> set snapshot"
  shows "triple (\<lambda>s. I s \<and> cleared e s) (\<lambda>_. True) (continue_loop v e mining target) (\<lambda>_ _. True)"
proof -
  have again: "triple (\<lambda>s. I s \<and> cleared e s) (\<lambda>_. True) (if rejected f target then sbind (post v ''mine'' (continue_params e)) (\<lambda>_. ret True)
      else fail f) (\<lambda>_ _. True)" for f
    by (auto intro!: triple_sbind [OF drive_inv [OF e names_continue(1)]])
  have "triple (\<lambda>s. I s \<and> cleared e s) (\<lambda>_. names_job e ps) (recover (sbind (post v ''mine'' ps) (\<lambda>_. ret b))
      (\<lambda>f. if rejected f target then sbind (post v ''mine'' (continue_params e)) (\<lambda>_. ret True) else fail f)) (\<lambda>_ _. True)" for ps b
    by (rule triple_pure) (auto intro!: triple_recover [OF _ again] triple_sbind [OF drive_inv [OF e]])
  then show ?thesis
    unfolding continue_loop_def
    by (intro triple_sbind [OF triple_look [where Q = "\<lambda>ps s. names_job e ps"]]) (auto dest: names_continue(2))
qed

lemma continue_job_kept:
  assumes e: "(k, e) \<in> set snapshot"
  shows "triple I (cleared e) (continue_job v results (k, e, mining, n)) (\<lambda>_ _. True)"
proof -
  have wait: "triple (\<lambda>s. I s \<and> cleared e s) (\<lambda>_. True) (count_wait k e w) (\<lambda>_ _. True)" for w
    by (simp add: triple_def count_wait_def counts cleared_same Let_def)
  have "triple (\<lambda>s. I s \<and> cleared e s) (\<lambda>_. True) (continue_body v results (k, e, mining, n)) (\<lambda>_ _. True)"
    unfolding continue_body_def prod.case
    by (intro triple_sbind [OF triple_look [where Q = "\<lambda>_ _. True"]] triple_sbind [OF continue_loop_kept [OF e]] triple_sbind [OF wait] triple_ret) auto
  then have "triple I (cleared e) (continue_body v results (k, e, mining, n)) (\<lambda>_ _. True)"
    unfolding triple_def by (force split: sum.split)
  then show ?thesis
    unfolding continue_job_def prod.case by (rule guarded_kept [OF e]) auto
qed

lemma later_continue_job [simp, intro]: "later (continue_job v results p)"
  by (cases p) (auto simp: continue_job_def continue_body_def continue_loop_def intro!: later_guarded)

lemma continue_jobs_kept:
  "list_all (\<lambda>(k, e, mining, n). (k, e) \<in> set snapshot) ps \<Longrightarrow>
   triple I (\<lambda>s. list_all (\<lambda>(k, e, mining, n). cleared e s) ps) (smap (continue_job v results) ps) (\<lambda>_ _. True)"
proof (induction ps)
  case Nil
  then show ?case by (auto simp del: effect_simps)
next
  case (Cons p ps)
  obtain k e mining n where p: "p = (k, e, mining, n)" by (metis prod_cases4)
  have e: "(k, e) \<in> set snapshot" using Cons.prems by (simp add: p)
  have st: "stable (\<lambda>s. list_all (\<lambda>(k, e, mining, n). cleared e s) ps)"
    using stays by (auto simp: stable_def list_all_iff)
  have IH: "triple I (\<lambda>s. list_all (\<lambda>(k, e, mining, n). cleared e s) ps) (smap (continue_job v results) ps) (\<lambda>_ _. True)"
    by (rule Cons.IH) (use Cons.prems in simp)
  have "triple I (\<lambda>s. cleared e s \<and> list_all (\<lambda>(k, e, mining, n). cleared e s) ps) (smap (continue_job v results) (p # ps)) (\<lambda>_ _. True)"
    unfolding smap.simps p
    by (intro triple_sbind [OF triple_later [OF continue_job_kept [OF e] later_continue_job st]])
      (auto intro!: triple_sbind [OF IH] triple_ret simp del: effect_simps)
  then show ?case by (rule triple_mono) (auto simp: p list_all_iff)
qed

lemma batch_kept: "triple I (\<lambda>_. True) (batch_targets v rs) (\<lambda>_ _. True)"
proof -
  have "triple I (\<lambda>_. True) (ask_targets v rs) (\<lambda>_ _. True)"
    by (auto simp: triple_def post_ticked intro!: tick split: sum.split)
  then show ?thesis
    unfolding batch_targets_def by (auto intro!: triple_recover triple_sbind)
qed

lemma poll_kept: "jobs s = snapshot \<Longrightarrow> I s \<Longrightarrow> I (snd (poll_mining v s))"
proof -
  have tail: "triple I (ready (ns, ps, rs)) (sbind (batch_targets v rs) (\<lambda>results.
      sbind (smap (continue_job v results) ps) (\<lambda>nss. ret (ns @ concat nss)))) (\<lambda>_ _. True)" for ns ps rs
  proof (cases "list_all (\<lambda>(k, e, mining, n). (k, e) \<in> set snapshot) ps")
    case True
    have r: "triple I (\<lambda>s. True \<and> ready (ns, ps, rs) s) (batch_targets v rs) (\<lambda>_ s. True \<and> ready (ns, ps, rs) s)"
      by (rule triple_later [OF batch_kept later_ask(2) stable_cleared(2)])
    have go: "triple I (\<lambda>s. True \<and> ready (ns, ps, rs) s) (smap (continue_job v results) ps) (\<lambda>_ _. True)" for results
      by (rule triple_mono [OF continue_jobs_kept [OF True]]) (auto simp: ready_def list_all_iff)
    show ?thesis
      by (rule triple_sbind [OF r [simplified]], rule triple_sbind [OF go [simplified]]) auto
  next
    case False
    then show ?thesis by (auto simp: triple_def ready_def list_all_iff)
  qed
  have "triple I (\<lambda>s. jobs s = snapshot) (poll_mining v) (\<lambda>_ _. True)"
    unfolding poll_mining_def
  proof (rule triple_sbind [OF triple_look [where Q = "\<lambda>es _. es = snapshot"]])
    show "triple I (\<lambda>_. es = snapshot) (sbind (check_jobs v es []) (\<lambda>(ns, ps, rs).
      sbind (batch_targets v rs) (\<lambda>results. sbind (smap (continue_job v results) ps) (\<lambda>nss. ret (ns @ concat nss))))) (\<lambda>_ _. True)" for es
    proof (rule triple_pure)
      assume "es = snapshot"
      then show "triple I (\<lambda>_. True) (sbind (check_jobs v es []) (\<lambda>(ns, ps, rs).
        sbind (batch_targets v rs) (\<lambda>results. sbind (smap (continue_job v results) ps) (\<lambda>nss. ret (ns @ concat nss))))) (\<lambda>_ _. True)"
        by (intro triple_sbind [OF check_jobs_kept]) (auto intro: tail)
    qed
  qed auto
  then show "jobs s = snapshot \<Longrightarrow> I s \<Longrightarrow> I (snd (poll_mining v s))"
    by (auto dest: tripleD(2))
qed

end

section \<open>A newer job is left alone\<close>

text \<open>From moment \<open>n\<close> on, what the command worker does to the table leaves job \<open>e\<close> under \<open>k\<close>.\<close>

definition stays_put :: "surroundings \<Rightarrow> nat \<Rightarrow> string \<Rightarrow> mining_job \<Rightarrow> bool" where
  "stays_put v n k e \<longleftrightarrow> (\<forall>m d. n = m \<or> n < m \<and> map_of d k = Some e \<longrightarrow> map_of (meanwhile v m d) k = Some e)"

definition newer :: "surroundings \<Rightarrow> job_table \<Rightarrow> nat \<Rightarrow> string \<Rightarrow> mining_job \<Rightarrow> poll_state \<Rightarrow> bool" where
  "newer v snapshot n k e s \<longleftrightarrow>
     (stays_put v n k e \<and> stamp e \<notin> (stamp \<circ> snd) ` set snapshot \<and> n < moment s \<longrightarrow> map_of (jobs s) k = Some e)"

interpretation left_alone: poll_kept v snapshot "newer v snapshot n k e" "\<lambda>_ _. True"
  for v snapshot n k e
proof (unfold_locales)
  fix s assume "newer v snapshot n k e s"
  then show "newer v snapshot n k e (ticked v s)"
    by (auto simp: newer_def ticked_def stays_put_def less_Suc_eq)
next
  fix s k' e' e'' assume *: "newer v snapshot n k e s" "(k', e') \<in> set snapshot" "map_of (jobs s) k' = Some e''" "stamp e'' = stamp e'"
  have "e'' \<noteq> e" if "stamp e \<notin> (stamp \<circ> snd) ` set snapshot"
    using that *(2,4) by force
  with * show "newer v snapshot n k e (s\<lparr>jobs := dict_pop k' (jobs s)\<rparr>)"
    by (auto simp: newer_def)
qed (simp_all add: newer_def post_at_def)

text \<open>A job that a command starts while a poll is under way is never ended or dropped by that poll, wherever
  in the poll the command comes and whatever the poll finds out about the job it replaced.\<close>

theorem poll_leaves_newer_jobs:
  assumes "stays_put v n k e" "stamp e \<notin> (stamp \<circ> snd) ` set (jobs s)" "moment s \<le> n" "n < moment (snd (poll_mining v s))"
  shows "map_of (jobs (snd (poll_mining v s))) k = Some e"
proof -
  have start: "newer v (jobs s) n k e s"
    unfolding newer_def by (intro impI, elim conjE) (use assms(3) in linarith)
  have "newer v (jobs s) n k e (snd (poll_mining v s))"
    by (rule left_alone.poll_kept [OF refl start])
  then have "stays_put v n k e \<and> stamp e \<notin> (stamp \<circ> snd) ` set (jobs s) \<and> n < moment (snd (poll_mining v s)) \<longrightarrow>
      map_of (jobs (snd (poll_mining v s))) k = Some e"
    by (simp only: newer_def)
  then show ?thesis by (rule mp) (intro conjI assms)
qed

text \<open>Ann's loop is replaced by a new one while the poll asks for the status of the old one.\<close>

definition old_loop :: mining_job where
  "old_loop = \<lparr>stamp = 1, job_name = ''Ann'', job_identity = ''a1'', job_loop = JStr ''L1'', job_source = principal_of Console,
     job_block = JNull, job_area = JNull\<rparr>"

definition new_loop :: mining_job where
  "new_loop = old_loop\<lparr>stamp := 2, job_loop := JStr ''L2''\<rparr>"

definition busy_server :: surroundings where
  "busy_server = \<lparr>reply_to = (\<lambda>n m ps. Inr (JObj [(''identityId'', JStr ''a1''), (''connectionState'', JStr ''online''),
       (''mining'', JObj [(''loopId'', JStr ''L2''), (''state'', JStr ''active''), (''reason'', JStr ''continuous mining restarted'')])])),
     targets_of = (\<lambda>n rs. Inr (JArr [])), may_source = (\<lambda>n p. True),
     meanwhile = (\<lambda>n d. if n = 1 then dict_set ''ann'' new_loop d else d), job_owners = None\<rparr>"

definition one_loop :: poll_state where
  "one_loop = \<lparr>moment = 0, jobs = [(''ann'', old_loop)], unreached = [], waits = [], posted = []\<rparr>"

lemma poll_leaves_newer_jobs_witness:
  "map_of (jobs (snd (poll_mining busy_server one_loop))) ''ann'' = Some new_loop"
proof (rule poll_leaves_newer_jobs)
  show "stays_put busy_server 1 ''ann'' new_loop"
    by (auto simp: stays_put_def busy_server_def)
  show "stamp new_loop \<notin> (stamp \<circ> snd) ` set (jobs one_loop)"
    by (simp add: new_loop_def old_loop_def one_loop_def)
  show "moment one_loop \<le> 1" "1 < moment (snd (poll_mining busy_server one_loop))"
    by code_simp+
qed

section \<open>Only authorised jobs are driven\<close>

definition cleared_since :: "surroundings \<Rightarrow> nat \<Rightarrow> mining_job \<Rightarrow> poll_state \<Rightarrow> bool" where
  "cleared_since v m e s \<longleftrightarrow> (\<exists>n. m \<le> n \<and> n < moment s \<and> may_source v n (job_source e))"

text \<open>A request that is no stop names a job of the table whose source a look of this poll, before it, found authorised.\<close>

definition driven :: "surroundings \<Rightarrow> nat \<Rightarrow> job_table \<Rightarrow> nat \<times> string \<times> params \<Rightarrow> bool" where
  "driven v m snapshot x = (case x of (n, call, ps) \<Rightarrow> is_stop ps \<or>
     (\<exists>(k, e) \<in> set snapshot. names_job e ps \<and> (\<exists>i. m \<le> i \<and> i < n \<and> may_source v i (job_source e))))"

definition drives :: "surroundings \<Rightarrow> nat \<Rightarrow> job_table \<Rightarrow> (nat \<times> string \<times> params) list \<Rightarrow> poll_state \<Rightarrow> bool" where
  "drives v m snapshot before s \<longleftrightarrow> m \<le> moment s \<and> (\<exists>new. posted s = before @ new \<and> list_all (driven v m snapshot) new)"

lemma drives_post:
  assumes "drives v m snapshot before s" "driven v m snapshot (moment s, call, ps)"
  shows "drives v m snapshot before (post_at call ps s)"
proof -
  obtain new where "m \<le> moment s" "posted s = before @ new" "list_all (driven v m snapshot) new"
    using assms(1) unfolding drives_def by blast
  with assms(2) have "posted (post_at call ps s) = before @ (new @ [(moment s, call, ps)])"
    "list_all (driven v m snapshot) (new @ [(moment s, call, ps)])" "m \<le> moment (post_at call ps s)"
    by (simp_all add: post_at_def)
  then show ?thesis unfolding drives_def by blast
qed

lemma driven_cleared: "(k, e) \<in> set snapshot \<Longrightarrow> cleared_since v m e s \<Longrightarrow> names_job e ps \<Longrightarrow> driven v m snapshot (moment s, call, ps)"
  unfolding driven_def cleared_since_def prod.case by blast

interpretation watched: poll_kept v snapshot "drives v m snapshot before" "cleared_since v m"
  for v snapshot m before
proof (unfold_locales)
  fix s k e ps call
  assume "drives v m snapshot before s" "(k, e) \<in> set snapshot" "cleared_since v m e s" "names_job e ps"
  then show "drives v m snapshot before (post_at call ps s)"
    by (intro drives_post driven_cleared)
next
  fix s ps call assume "drives v m snapshot before s" "is_stop ps"
  then show "drives v m snapshot before (post_at call ps s)"
    by (intro drives_post) (simp_all add: driven_def)
next
  fix s and e :: mining_job assume "drives v m snapshot before s" "may_source v (moment s) (job_source e)"
  then show "cleared_since v m e (ticked v s)"
    unfolding drives_def cleared_since_def ticked_def by auto
next
  fix e :: mining_job and s t :: poll_state assume "cleared_since v m e s" "moment s \<le> moment t"
  then show "cleared_since v m e t"
    unfolding cleared_since_def by (meson less_le_trans)
qed (simp_all add: drives_def ticked_def le_SucI)


section \<open>A runtime that stays away\<close>

text \<open>A server whose runtime cannot be reached, where everybody keeps the permission and no command comes between.\<close>

definition unreachable_server :: "surroundings \<Rightarrow> bool" where
  "unreachable_server v \<longleftrightarrow> (\<forall>n m ps. \<exists>t. reply_to v n m ps = Inl (Control_Error ''unavailable'' t)) \<and>
     (\<forall>n p. may_source v n p) \<and> (\<forall>n d. meanwhile v n d = d) \<and> job_owners v = None"

definition count_of :: "poll_state \<Rightarrow> string \<times> mining_job \<Rightarrow> nat" where
  "count_of s x = (case x of (k, e) \<Rightarrow> (case map_of (unreached s) k of None \<Rightarrow> 0 | Some (i, n) \<Rightarrow> if i = stamp e then n else 0))"

fun polls :: "nat \<Rightarrow> surroundings \<Rightarrow> poll_state \<Rightarrow> poll_state" where
  "polls 0 v s = s"
| "polls (Suc n) v s = polls n v (snd (poll_mining v s))"

lemma check_unreachable:
  assumes "unreachable_server v" "map_of (jobs s) k = Some e"
  shows "case check_job v k e rs s of (r, t) \<Rightarrow> (\<exists>ns. r = Inr (Events ns)) \<and>
    unreached t = dict_set k (stamp e, Suc (count_of s (k, e))) (unreached s) \<and>
    jobs t = (if Suc (count_of s (k, e)) < unreachable_poll_limit then jobs s else dict_pop k (jobs s))"
proof -
  have u: "\<exists>t. reply_to v n m ps = Inl (Control_Error ''unavailable'' t)" "may_source v n p" "meanwhile v n d = d" "job_owners v = None" for n m ps p d
    using assms(1) by (simp_all add: unreachable_server_def)
  have c: "count_again e (unreached s) k = Suc (count_of s (k, e))"
    by (auto simp: count_again_def count_of_def split: option.split)
  obtain t where t: "reply_to v (Suc (moment s)) ''status'' [(''name'', JStr (job_name e))] = Inl (Control_Error ''unavailable'' t)"
    using u(1) by blast
  let ?s = "s\<lparr>moment := Suc (Suc (moment s)), posted := posted s @ [(Suc (moment s), ''status'', [(''name'', JStr (job_name e))])]\<rparr>"
  have body: "check_body v k e rs s = (Inl (Control_Error ''unavailable'' t), ?s)"
    by (simp add: check_body_def sbind_def allowed_def post_def private_now_def u t)
  have stop: "fst (ask_stop v e w) = Inr () \<and> jobs (snd (ask_stop v e w)) = jobs w \<and> unreached (snd (ask_stop v e w)) = unreached w" for w
  proof -
    obtain t' where "reply_to v (moment w) ''mine'' [(''name'', JStr (job_name e)), (''mode'', JStr ''stop''), (''loopId'', job_loop e)] =
        Inl (Control_Error ''unavailable'' t')"
      using u(1) by blast
    then show ?thesis by (simp add: ask_stop_def recover_def sbind_def post_def u(3))
  qed
  let ?n = "Suc (count_of s (k, e))"
  let ?t = "?s\<lparr>unreached := dict_set k (stamp e, ?n) (unreached s)\<rparr>"
  have job: "check_job v k e rs s = (if ?n < unreachable_poll_limit then (Inr (Events []), ?t)
      else sbind (end_noticed v k e (Raised (Control_Error ''unavailable'' t))) (\<lambda>ns. ret (Events ns)) ?t)"
    by (simp add: check_job_def guarded_def recover_def body sbind_def count_unreached_def Let_def c)
  show ?thesis
  proof (cases "truthy (job_loop e)")
    case True
    let ?u = "?t\<lparr>jobs := dict_pop k (jobs s)\<rparr>"
    obtain w where w: "ask_stop v e ?u = (Inr (), w)" "jobs w = dict_pop k (jobs s)" "unreached w = dict_set k (stamp e, ?n) (unreached s)"
      using stop [of ?u] by (cases "ask_stop v e ?u") auto
    then show ?thesis
      by (simp add: job end_noticed_def end_job_def take_job_def sbind_def assms(2) True)
  next
    case False
    then show ?thesis
      by (simp add: job end_noticed_def end_job_def take_job_def sbind_def assms(2))
  qed
qed

lemma check_jobs_unreachable:
  assumes "unreachable_server v" "distinct (keys es)" "list_all (\<lambda>(k, e). map_of (jobs s) k = Some e \<and> count_of s (k, e) = c) es"
  shows "\<exists>ns t. check_jobs v es rs s = (Inr (ns, [], rs), t) \<and>
    list_all (\<lambda>x. count_of t x = Suc c) es \<and>
    (\<forall>k e. k \<notin> set (keys es) \<longrightarrow> count_of t (k, e) = count_of s (k, e)) \<and>
    jobs t = (if Suc c < unreachable_poll_limit then jobs s else filter (\<lambda>(k, e). k \<notin> set (keys es)) (jobs s))"
  using assms(2,3)
proof (induction es arbitrary: s)
  case Nil
  then show ?case by (auto simp: case_prod_unfold)
next
  case (Cons x es)
  obtain k e where x: "x = (k, e)" by (rule prod.exhaust)
  obtain ns t where t: "check_job v k e rs s = (Inr (Events ns), t)"
      "unreached t = dict_set k (stamp e, Suc c) (unreached s)"
      "jobs t = (if Suc c < unreachable_poll_limit then jobs s else dict_pop k (jobs s))"
    using check_unreachable [OF assms(1), of s k e rs] Cons.prems(2) by (auto simp: x split: prod.splits)
  have other: "count_of t (k', e') = count_of s (k', e')" if "k' \<noteq> k" for k' e'
    using that by (simp add: count_of_def t(2))
  have here: "count_of t (k, e) = Suc c"
    by (simp add: count_of_def t(2))
  have "map_of (jobs t) k' = Some e' \<and> count_of t (k', e') = c" if y: "(k', e') \<in> set es" for k' e'
  proof -
    have k': "k' \<noteq> k" using Cons.prems(1) y by (auto simp: x rev_image_eqI)
    have "map_of (jobs s) k' = Some e' \<and> count_of s (k', e') = c"
      using Cons.prems(2) y by (auto simp: list_all_iff)
    then show ?thesis using other [OF k', of e'] k' by (simp add: t(3))
  qed
  then have "list_all (\<lambda>(k, e). map_of (jobs t) k = Some e \<and> count_of t (k, e) = c) es"
    unfolding list_all_iff by (intro ballI) (clarify, blast)
  then obtain ns' u where u: "check_jobs v es rs t = (Inr (ns', [], rs), u)"
      "list_all (\<lambda>x. count_of u x = Suc c) es"
      "\<forall>k e. k \<notin> set (keys es) \<longrightarrow> count_of u (k, e) = count_of t (k, e)"
      "jobs u = (if Suc c < unreachable_poll_limit then jobs t else filter (\<lambda>(k, e). k \<notin> set (keys es)) (jobs t))"
    using Cons.IH [of t] Cons.prems(1) by (auto simp del: effect_simps)
  have "jobs u = (if Suc c < unreachable_poll_limit then jobs s else filter (\<lambda>(k, e). k \<notin> set (keys (x # es))) (jobs s))"
    by (auto simp: u(4) t(3) x AList.delete_eq case_prod_unfold intro!: filter_cong)
  moreover have "check_jobs v (x # es) rs s = (Inr (ns @ ns', [], rs), u)"
    by (simp add: x sbind_def t(1) u(1))
  moreover have "list_all (\<lambda>x. count_of u x = Suc c) (x # es)"
    using u(2,3) here Cons.prems(1) by (simp add: x)
  moreover have "\<forall>k' e'. k' \<notin> set (keys (x # es)) \<longrightarrow> count_of u (k', e') = count_of s (k', e')"
    using u(3) other by (simp add: x)
  ultimately show ?case by blast
qed

definition all_counted :: "nat \<Rightarrow> poll_state \<Rightarrow> bool" where
  "all_counted c s \<longleftrightarrow> distinct (keys (jobs s)) \<and> list_all (\<lambda>x. count_of s x = c) (jobs s)"

lemma poll_unreachable:
  assumes "unreachable_server v" "all_counted c s"
  shows "all_counted (Suc c) (snd (poll_mining v s)) \<and>
    jobs (snd (poll_mining v s)) = (if Suc c < unreachable_poll_limit then jobs s else [])"
proof -
  have "list_all (\<lambda>(k, e). map_of (jobs s) k = Some e \<and> count_of s (k, e) = c) (jobs s)"
    using assms(2) by (auto simp: all_counted_def list_all_iff)
  from check_jobs_unreachable [OF assms(1) _ this, of "[]"]
  obtain ns t where t: "check_jobs v (jobs s) [] s = (Inr (ns, [], []), t)"
      "list_all (\<lambda>x. count_of t x = Suc c) (jobs s)"
      "jobs t = (if Suc c < unreachable_poll_limit then jobs s else filter (\<lambda>(k, e). k \<notin> set (keys (jobs s))) (jobs s))"
    using assms(2) by (auto simp: all_counted_def)
  have none: "filter (\<lambda>(k, e). k \<notin> set (keys (jobs s))) (jobs s) = []"
    by (auto simp: filter_empty_conv rev_image_eqI)
  have "snd (poll_mining v s) = t"
    by (simp add: poll_mining_def sbind_def t(1) batch_targets_def)
  then show ?thesis
    using t(2,3) none assms(2) by (auto simp: all_counted_def case_prod_unfold)
qed

lemma polls_Suc: "polls (Suc n) v s = snd (poll_mining v (polls n v s))"
  by (induction n arbitrary: s) simp_all

lemma polls_unreachable:
  assumes "unreachable_server v" "all_counted 0 s" "n < unreachable_poll_limit"
  shows "jobs (polls n v s) = jobs s \<and> all_counted n (polls n v s)"
  using assms(3)
proof (induction n)
  case (Suc n)
  then show ?case
    using poll_unreachable [OF assms(1), of n "polls n v s"] by (simp add: polls_Suc del: polls.simps(2))
qed (use assms(2) in simp)

text \<open>While the runtime cannot be reached every job is kept for forty-nine polls, and the fiftieth ends them
  all: no job stays in the table for good behind a runtime that is gone, and none is given up sooner.\<close>

theorem unreachable_jobs_end:
  assumes "unreachable_server v" "distinct (keys (jobs s))" "unreached s = []"
  shows "jobs (polls 49 v s) = jobs s \<and> jobs (polls 50 v s) = []"
proof -
  have "all_counted 0 s"
    using assms(2,3) by (auto simp: all_counted_def count_of_def list_all_iff)
  from polls_unreachable [OF assms(1) this, of 49]
  have "jobs (polls 49 v s) = jobs s" "all_counted 49 (polls 49 v s)"
    by (simp_all add: unreachable_poll_limit_def)
  moreover have "polls 50 v s = snd (poll_mining v (polls 49 v s))"
    using polls_Suc [of 49 v s] by (simp add: eval_nat_numeral)
  ultimately show ?thesis
    using poll_unreachable [OF assms(1), of 49 "polls 49 v s"] by (simp add: unreachable_poll_limit_def)
qed

definition dead_runtime :: surroundings where
  "dead_runtime = \<lparr>reply_to = (\<lambda>n m ps. Inl (Control_Error ''unavailable'' ''refused'')), targets_of = (\<lambda>n rs. Inr JNull),
     may_source = (\<lambda>n p. True), meanwhile = (\<lambda>n d. d), job_owners = None\<rparr>"

lemma unreachable_jobs_end_witness:
  "jobs (polls 49 dead_runtime one_loop) = jobs one_loop \<and> jobs (polls 50 dead_runtime one_loop) = []"
  by (rule unreachable_jobs_end) (simp_all add: unreachable_server_def dead_runtime_def one_loop_def)

end
