(* ===== verification/Help.thy ===== *)
theory Help
  imports Group_Execution
begin

text \<open>
  Replies and their colours, and the help of \<open>/bot\<close>: the topic table \<open>HELP_TOPICS\<close>, the pages and the detail of
  one topic (\<open>endbot_core/commands.py\<close>). Text is what an English reader sees; the Japanese catalog is not
  modelled, so \<open>tr\<close> is the template with its parameters filled in.
\<close>

definition tr :: "string \<Rightarrow> (string \<times> string) list \<Rightarrow> string" where
  "tr template ps = error_text (LocalizedError template ps)"

section \<open>Colours\<close>

definition colour :: "char \<Rightarrow> string" where
  "colour c = [section_sign, c]"

definition heading_colour :: string where "heading_colour = colour CHR ''6''"
definition syntax_colour :: string where "syntax_colour = colour CHR ''b''"
definition dim :: string where "dim = colour CHR ''7''"
definition prefix_colour :: string where "prefix_colour = colour CHR ''3''"
definition error_colour :: string where "error_colour = colour CHR ''c''"
definition warning_colour :: string where "warning_colour = colour CHR ''e''"
definition reset_colour :: string where "reset_colour = colour CHR ''r''"

definition reply :: "string \<Rightarrow> string option \<Rightarrow> string \<Rightarrow> string" where
  "reply detail name color =
     (let named = (case name of None \<Rightarrow> False | Some n \<Rightarrow> n \<noteq> []) in
      prefix_colour @ (if named then ''Endbot: '' @ the name @ '':'' else ''Endbot:'') @ reset_colour @ '' '' @ color @ detail @
      (if color = [] then [] else reset_colour))"

definition reserved_names :: "string list" where
  "reserved_names = [''help'', ''list'', ''menu'', ''ping'']"

definition reserved_name :: "string \<Rightarrow> bool" where
  "reserved_name n \<longleftrightarrow> casefold n \<in> set reserved_names"

definition assert_not_reserved :: "string \<Rightarrow> failure + unit" where
  "assert_not_reserved n = (if reserved_name n
     then Inl (Invalid (LocalizedError ''{name} is a reserved name; choose another name'' [(''name'', n)])) else Inr ())"

text \<open>The loop of \<open>color_syntax\<close>: the parts so far and the depth of the open brackets.\<close>

definition open_bracket :: "char \<Rightarrow> bool" where
  "open_bracket c \<longleftrightarrow> c = CHR ''<'' \<or> c = CHR ''[''"

definition close_bracket :: "char \<Rightarrow> bool" where
  "close_bracket c \<longleftrightarrow> c = CHR ''>'' \<or> c = CHR '']''"

definition syntax_step :: "char \<Rightarrow> string list \<times> nat \<Rightarrow> string list \<times> nat" where
  "syntax_step c w = (case w of (parts, depth) \<Rightarrow>
     let parts = (if open_bracket c \<and> depth = 0 then parts @ [dim] else parts) @ [[c]];
         depth = (if open_bracket c then Suc depth else depth) in
     if close_bracket c \<and> depth > 0
     then (if depth = 1 then parts @ [syntax_colour] else parts, depth - 1)
     else (parts, depth))"

definition color_syntax :: "string \<Rightarrow> string" where
  "color_syntax s =
     (let parts = fst (fold syntax_step s ([syntax_colour], 0)) in
      concat ((if last parts = syntax_colour then butlast parts else parts) @ [reset_colour]))"

section \<open>The topics\<close>

record help_entry =
  he_operation :: string
  he_summary :: string
  he_syntaxes :: "string list"
  he_details :: "string list"
  he_named :: bool

definition help_entry :: "string \<Rightarrow> string \<Rightarrow> string list \<Rightarrow> string list \<Rightarrow> bool \<Rightarrow> help_entry" where
  "help_entry operation summed syntaxes details named =
     \<lparr>he_operation = operation, he_summary = summed, he_syntaxes = syntaxes, he_details = details, he_named = named\<rparr>"

definition lifecycle_help :: "(string, help_entry) dict" where
  "lifecycle_help = [
    (''spawn'', help_entry ''spawn''
      ''create or connect a Bot''
      [''spawn'',
       ''spawn at <x> <y> <z> [facing <yaw> <pitch>] [in <dimension>]'']
      [''First spawn creates a profile and places the arriving Bot at its caller.'',
       ''From the server console, spawn without coordinates uses the world spawn.'',
       ''Spawning an offline profile reuses its identity with the new placement.'']
      True),
    (''resume'', help_entry ''resume''
      ''reconnect a profile without moving it''
      [''resume'']
      [''Keeps the stored identity and lets world persistence win.'']
      True),
    (''reconnect'', help_entry ''reconnect''
      ''restart the session in place''
      [''reconnect'']
      [''Tears down and reconnects without changing identity or location.'']
      True),
    (''despawn'', help_entry ''despawn''
      ''take a Bot offline (stays registered)''
      [''despawn'']
      [''Cancels automatic reconnect; resume or spawn brings it back.'']
      True),
    (''forget'', help_entry ''forget''
      ''remove an offline profile registration''
      [''forget'']
      [''Requires an offline Bot; BDS player data is left alone.'']
      True),
    (''rename'', help_entry ''rename''
      ''rename a Bot, keeping its identity''
      [''rename <new-name>'']
      [''Reconnects automatically so the login name changes.'']
      True),
    (''visibility'', help_entry ''visibility''
      ''make a Bot shared with every controller or private to its owner''
      [''visibility shared'',
       ''visibility private'']
      [(''Only the owner or the console can change a Bot'' @ [CHR 0x27] @ ''s visibility.''),
       ''An unowned Bot stays shared; the console assigns its owner first.'']
      True),
    (''owner'', help_entry ''owner''
      (''reassign a Bot'' @ [CHR 0x27] @ ''s owner (console only)'')
      [''owner <GamerTag>'']
      [''The GamerTag must be an online player or a controller.'',
       ''Visibility is kept, or the kind default for a Bot that had no owner.'']
      True),
    (''status'', help_entry ''status''
      ''show lifecycle state and position''
      [''status'']
      [''Combines runtime state with the live position when spawned.'']
      True),
    (''teleport'', help_entry ''teleport''
      ''teleport a Bot''
      [''tp <player>'',
       ''tp <x> <y> <z> [yaw pitch]'',
       ''tp <x> <y> <z> facing <player|x y z>'',
       ''tp in <dimension> <x> <y> <z>'']
      [''Uses the server teleport; never dispatches vanilla /tp.'',
       ''~ coordinates are relative to the command source.'']
      True)]"

definition input_help :: "(string, help_entry) dict" where
  "input_help = [
    (''move'', help_entry ''move''
      ''walk a Bot in a direction''
      [''move forward|backward|left|right|stop'',
       ''move forward|backward|left|right for <ticks>'']
      [''Movement acts as held input; stop halts it. for stops it after that many ticks.'']
      True),
    (''look'', help_entry ''look''
      (''turn a Bot'' @ [CHR 0x27] @ ''s head'')
      [''look <yaw> <pitch>'',
       ''look at <x> <y> <z>'']
      [''look at turns toward world coordinates.'']
      True),
    (''jump'', help_entry ''jump''
      ''make a Bot jump''
      [''jump [once|continuous|interval <ticks>|stop]'',
       ''jump [continuous|interval <ticks>] for <ticks>'']
      [''Omitting the mode means once, or continuous with for; ticks are 1-72000.'',
       ''for is how long the input keeps going; once cannot take it.'']
      True),
    (''attack'', help_entry ''attack''
      ''make a Bot attack''
      [''attack [once|continuous|interval <ticks>|stop]'',
       ''attack [continuous|interval <ticks>] for <ticks>'',
       ''attack @<type|id|nearest>'']
      [''Continuous actions run every input tick; for stops them after that many ticks.'',
       ''@ turns to the nearest matching entity within 4.5 blocks and attacks it once; players are never targets.'']
      True),
    (''use'', help_entry ''use''
      ''use the held item in air''
      [''use [once|continuous|interval <ticks>|stop]'',
       ''use for <ticks>'',
       ''use hold <ticks> [interval <ticks>] [for <ticks>]'']
      [''use for holds use that long, counted from the first press, then releases.'',
       ''hold charges each press (bow, trident) and releases; for limits the repeats.'',
       ''With an empty hand it is a safe no-op; blocks need interact.'']
      True),
    (''sprint'', help_entry ''sprint''
      ''toggle sprinting''
      [''sprint on|off'']
      [''Emits Bedrock start/stop transitions plus held state.'']
      True),
    (''sneak'', help_entry ''sneak''
      ''toggle sneaking''
      [''sneak on|off'']
      [''Emits Bedrock start/stop transitions plus held state.'']
      True),
    (''hotbar'', help_entry ''hotbar''
      ''show or select the hotbar slot''
      [''hotbar [1-9]'']
      [''Slots use human-facing 1-9 numbering through Bedrock equipment.'']
      True),
    (''swap'', help_entry ''swap''
      ''exchange two inventory stacks''
      [''swap <a> <b>'']
      [''Slots are 1-36. An empty side is a move; equipment is excluded. BDS validates the request.'']
      True),
    (''hold'', help_entry ''hold''
      ''select an item by exact identifier''
      [''hold <item>'']
      [''Selects the lowest matching hotbar slot, or swaps the lowest main stack into the selected hotbar slot.'',
       ''Item IDs accept minecraft: or no prefix. Replies describe the request; BDS validates it.'']
      True),
    (''inventory'', help_entry ''inventory''
      ''show non-empty inventory and equipment slots''
      [''inventory'']
      [''Slots are hotbar 1-9, main 10-36, offhand, head, chest, legs and feet.'']
      True),
    (''radius'', help_entry ''radius''
      ''show or set the Bot chunk radius''
      [''radius'',
       ''radius <2-32|default>'']
      [''Overrides this Bot only, persists across reconnect/restart, and applies live.'',
       ''default restores the shared runtime setting; BDS may clamp the requested range.'']
      True),
    (''interact'', help_entry ''interact''
      ''right-click a block or an entity''
      [''interact'',
       ''interact <x> <y> <z> [face]'',
       ''interact <block type> [within <area>] [except <area>]'',
       ''interact @<type|id|nearest>'']
      [''No argument right-clicks what the Bot looks at. A block type is the nearest visible one within 6 blocks.'',
       ''within and except narrow which blocks of the type count; see /bot help area.'',
       ''@ picks an entity within 6 blocks, turns to it and uses the held item: feed, breed, shear, name, ride.'',
       ''Without a face, the side facing the Bot. BDS decides reach and outcome; players are never targets.'']
      True)]"

definition world_help :: "(string, help_entry) dict" where
  "world_help = [
    (''entities'', help_entry ''entities''
      ''list nearby entities''
      [''entities'']
      [''Shows up to 10 non-player entities within 16 blocks with their id and distance.'']
      True),
    (''entity'', help_entry ''entity''
      ''show one nearby entity in detail''
      [''entity [type|nearest|id]'']
      [''Position, distance, health and name tag of the nearest match within 16 blocks; players are excluded.'']
      True),
    (''target'', help_entry ''target''
      ''show the block or entity the Bot is looking at''
      [''target'']
      [(''Within 6 blocks of the Bot'' @ [CHR 0x27] @ ''s eyes; the nearer of a block and a non-player entity.'')]
      True),
    (''block'', help_entry ''block''
      (''show one block'' @ [CHR 0x27] @ ''s type and states'')
      [''block <x> <y> <z>'']
      [''~ is relative to the Bot. Any loaded position can be read.'']
      True),
    (''blocks'', help_entry ''blocks''
      ''find the nearest exposed blocks of a type''
      [''blocks <type> [limit <1-64>] [within <area>] [except <area>]'']
      [''Only blocks with a face open to air, liquid, plants, leaves, glass, ice or a partial shape such as a slab or fence count, as a player could see them.'',
       ''Without within, a sphere of 8 around the Bot; limit defaults to 10; results are nearest the Bot first.'',
       ''An area never reaches past 16 blocks from the Bot; see /bot help area.'']
      True),
    (''dismount'', help_entry ''dismount''
      ''get off a minecart, boat or animal''
      [''dismount'']
      [''Riding Bots follow their vehicle; status shows what the Bot is riding.'']
      True),
    (''destroy'', help_entry ''destroy''
      ''break reachable blocks with the held tool (hold left-click)''
      [''destroy [once|continuous|stop]'',
       ''destroy [continuous] for <ticks> [count <blocks>]'',
       ''destroy [continuous] count <blocks>'',
       ''destroy <x> <y> <z> [down|up|north|south|west|east]'',
       ''destroy <block type> [continuous] [for <ticks>] [count <blocks>]'',
       ''destroy ... [within <area>] [except <area>]'']
      [''once (default) breaks one block in sight; x y z breaks that block. ~ is relative to the Bot.'',
       ''A block type breaks the nearest one the Bot can see within 6 blocks.'',
       ''within and except narrow a block type or a continuous loop; see /bot help area.'',
       (''continuous holds left-click along the Bot'' @ [CHR 0x27] @ ''s sight, also after you log off; waits when empty.''),
       ''Other commands do not cancel it; only destroy stop, stop, death or disconnect end it.'',
       ''for ends continuous mining after that many ticks, aborting a block in progress.'',
       ''count ends it after that many broken blocks; waiting costs nothing, and both limits combine.'',
       ''No interval mode. No automatic walking; BDS controls speed, drops and durability.'']
      True),
    (''drop'', help_entry ''drop''
      ''request drops from inventory and equipment''
      [''drop [stack|all|<slot>|<item> [count]]'']
      [''drop drops one selected item; stack drops the selected stack; a slot drops its whole stack.'',
       ''Slots: 1-36, offhand, head, chest, legs, feet. Item IDs accept minecraft: or no prefix.'',
       ''An item without count drops every matching stack; count takes up to that many, lowest slots first.'',
       ''drop all immediately requests every inventory and equipment stack. BDS validates every request.'']
      True),
    (''stop'', help_entry ''stop''
      ''halt movement and actions''
      [''stop'']
      [''Clears movement, actions, sprint and sneak; stays connected.'']
      True),
    (''ping'', help_entry ''ping''
      ''check the command path''
      [''ping'']
      [''Answers pong without touching the runtime.'']
      False),
    (''list'', help_entry ''list''
      ''list every Bot profile''
      [''list'']
      [''Shows each profile name with its lifecycle state.'']
      False),
    (''menu'', help_entry ''menu''
      ''open the Bot control forms (players only)''
      [''menu'',
       ''<name>'',
       ''<name> menu'']
      [(''/bot or /bot menu lists every Bot; /bot <name> (or <name> menu) opens that Bot'' @ [CHR 0x27] @ ''s actions directly.''),
       ''Forms run the same /bot commands, so replies and permissions match typed commands.'',
       ''Bot and Group operation menus share the same controls; Group management uses /botgroup.'']
      False),
    (''area'', help_entry ''area''
      ''narrow blocks, destroy and interact to an area''
      []
      [''within <area> keeps only blocks inside it; except <area> leaves out blocks inside it.'',
       ''<x> <y> <z>: one block.'',
       ''<x1> <y1> <z1> <x2> <y2> <z2>: a box, corners included, as for /fill.'',
       ''<r>: a sphere of radius r around the Bot.'',
       ''<r> of <x> <y> <z>: a sphere of radius r around a point.'',
       ''~ is relative to the Bot when the command is accepted; a continuous loop keeps its area as it moves.'',
       ''An area only narrows: reach and sight stay the same. It holds at most a radius-16 sphere.'',
       ''Used by blocks, destroy <type>, destroy continuous and interact <type>; one except per command.'',
       ''Example: destroy acacia_log within 6 except ~ ~-1 ~ count 20'']
      False),
    (''help'', help_entry ''help''
      ''show this help''
      [''help [page|command]'']
      [''Pages summarize commands; a command name shows detail.'']
      False)]"


definition help_table :: "(string, help_entry) dict" where
  "help_table = lifecycle_help @ input_help @ world_help"

section \<open>Pages and details\<close>

definition help_titles :: "string list" where
  "help_titles = [''lifecycle, status and teleport'', ''movement and actions'', ''inventory, blocks and Bot settings'',
     ''looking around, entities and vehicles'']"

definition help_prefix :: "help_entry \<Rightarrow> string" where
  "help_prefix t = (if he_named t then ''/bot <name>'' else ''/bot'')"

definition separator :: string where
  "separator = dim @ '' - '' @ reset_colour"

definition topic_line :: "string \<Rightarrow> failure + string" where
  "topic_line key = (case map_of help_table key of
     None \<Rightarrow> Inl (Crash key)
   | Some t \<Rightarrow> (case he_syntaxes t of
       [] \<Rightarrow> Inl (Crash ''index'')
     | s # ss \<Rightarrow> Inr (color_syntax (help_prefix t @ '' '' @ s) @ separator @ tr (he_summary t) [])))"

definition first_lines :: "string list" where
  "first_lines =
     [join_with (dim @ '' | '' @ reset_colour) (map (\<lambda>key. color_syntax (''/bot '' @ key)) [''ping'', ''list'', ''help'']) @
        separator @ tr ''connectivity, profiles, this help'' [],
      color_syntax ''/bot menu'' @ separator @ tr ''open the Bot control forms (players only)'' []]"

definition next_line :: "int \<Rightarrow> string" where
  "next_line page =
     dim @ tr ''Next page:'' [] @ reset_colour @ '' '' @ color_syntax (''/bot help '' @ show_int (page + 1)) @
     dim @ tr '' - detail:'' [] @ reset_colour @ '' '' @ color_syntax ''/bot help <command>''"

definition last_line :: string where
  "last_line =
     dim @ tr ''Detail:'' [] @ reset_colour @ '' '' @ color_syntax ''/bot help <command>'' @
     '' '' @ dim @ tr ''(for example'' [] @ reset_colour @ '' '' @ color_syntax ''/bot help move'' @ dim @ '')'' @ reset_colour"

text \<open>A page below one reads from the end of the table, as a negative index does; past the end it raises.\<close>

definition page_of :: "'a list \<Rightarrow> int \<Rightarrow> failure + 'a" where
  "page_of xs page = (let i = page - 1; n = int (length xs) in
     if 0 \<le> i \<and> i < n then Inr (xs ! nat i) else if - n \<le> i \<and> i < 0 then Inr (xs ! nat (n + i)) else Inl (Crash ''index''))"

definition help_page :: "int \<Rightarrow> failure + string list" where
  "help_page page =
     ebind (page_of help_titles page) (\<lambda>title.
     ebind (page_of help_pages page) (\<lambda>topics.
     ebind (emap topic_line topics) (\<lambda>rows.
       Inr ((heading_colour @ tr ''--- Endbot help page {page} of {total}: {title} ---''
               [(''page'', show_int page), (''total'', show_nat (length help_pages)), (''title'', title)] @ reset_colour) #
            (if page = 1 then first_lines else []) @ rows @
            [if page < int (length help_pages) then next_line page else last_line]))))"

definition help_detail :: "string \<Rightarrow> failure + string list" where
  "help_detail key = (case map_of help_table key of
     None \<Rightarrow> Inl (Crash key)
   | Some t \<Rightarrow> Inr ((heading_colour @ tr ''Endbot help: {operation}'' [(''operation'', he_operation t)] @ reset_colour) #
       map (\<lambda>s. color_syntax (help_prefix t @ '' '' @ s)) (he_syntaxes t) @ map (\<lambda>d. tr d []) (he_details t)))"

text \<open>\<open>/bot help\<close> of a parsed command.\<close>

definition help_answer :: "bot_command \<Rightarrow> failure + string list" where
  "help_answer c = (case map_of (op_params c) ''topic'' of
     Some (JStr key) \<Rightarrow> help_detail key
   | Some j \<Rightarrow> Inl (Crash ''topic'')
   | None \<Rightarrow> (case dict_get (op_params c) ''page'' (JInt 1) of JInt i \<Rightarrow> help_page i | _ \<Rightarrow> Inl (Crash ''page'')))"

section \<open>What a reader sees\<close>

definition plain_text :: "string \<Rightarrow> bool" where
  "plain_text s \<longleftrightarrow> section_sign \<notin> set s"

lemma strip_plain_text: "plain_text s \<Longrightarrow> strip_colors (s @ t) = s @ strip_colors t"
  by (induction s) (auto simp: plain_text_def)

lemma strip_colour [simp]: "strip_colors (colour c @ t) = strip_colors t"
  by (simp add: colour_def)

lemma strip_colours [simp]:
  "strip_colors (dim @ t) = strip_colors t" "strip_colors (syntax_colour @ t) = strip_colors t"
  "strip_colors (reset_colour @ t) = strip_colors t" "strip_colors (heading_colour @ t) = strip_colors t"
  "strip_colors (prefix_colour @ t) = strip_colors t" "strip_colors (error_colour @ t) = strip_colors t"
  "strip_colors (warning_colour @ t) = strip_colors t"
  by (simp_all add: dim_def syntax_colour_def reset_colour_def heading_colour_def prefix_colour_def error_colour_def warning_colour_def)

text \<open>A part is a colour or one plain character.\<close>

definition is_part :: "string \<Rightarrow> bool" where
  "is_part p \<longleftrightarrow> p = dim \<or> p = syntax_colour \<or> (\<exists>c. p = [c] \<and> c \<noteq> section_sign)"

lemma strip_part: "is_part p \<Longrightarrow> strip_colors (p @ t) = strip_colors p @ strip_colors t"
  by (auto simp: is_part_def dim_def syntax_colour_def colour_def)

lemma strip_parts: "list_all is_part ps \<Longrightarrow> strip_colors (concat ps @ t) = strip_colors (concat ps) @ strip_colors t"
  by (induction ps) (auto simp: strip_part)

lemma syntax_step_text:
  assumes "list_all is_part ps" "c \<noteq> section_sign"
  shows "list_all is_part (fst (syntax_step c (ps, n))) \<and>
    strip_colors (concat (fst (syntax_step c (ps, n)))) = strip_colors (concat ps) @ [c]"
proof -
  have c: "is_part [c]" "is_part dim" "is_part syntax_colour" using assms(2) by (auto simp: is_part_def)
  have cols: "strip_colors dim = []" "strip_colors syntax_colour = []" "strip_colors [c] = [c]"
    using assms(2) by (simp_all add: dim_def syntax_colour_def colour_def)
  show ?thesis
    using assms c cols strip_part [OF c(1)] strip_colours(1) [of "[c]"] strip_colours(1) [of "c # syntax_colour"]
    by (auto simp: syntax_step_def Let_def strip_parts simp del: strip_colours)
qed

lemma syntax_steps_text:
  assumes "plain_text s" "list_all is_part ps"
  shows "list_all is_part (fst (fold syntax_step s (ps, n))) \<and>
    strip_colors (concat (fst (fold syntax_step s (ps, n)))) = strip_colors (concat ps) @ s"
  using assms
proof (induction s arbitrary: ps n)
  case (Cons c s)
  obtain ps' n' where st: "syntax_step c (ps, n) = (ps', n')" by force
  have "list_all is_part ps' \<and> strip_colors (concat ps') = strip_colors (concat ps) @ [c]"
    using syntax_step_text [of ps c n] Cons.prems by (auto simp: st plain_text_def)
  moreover have "plain_text s" using Cons.prems(1) by (simp add: plain_text_def)
  ultimately show ?case using Cons.IH [of ps' n'] by (simp add: st)
qed simp

text \<open>Colouring a command's syntax adds nothing a reader sees: without its formatting codes the coloured text is
  exactly the text that was coloured, whatever brackets it opens or leaves open.\<close>

theorem color_syntax_keeps_text:
  assumes "plain_text s"
  shows "strip_colors (color_syntax s) = s"
proof -
  let ?ps = "fst (fold syntax_step s ([syntax_colour], 0))"
  have ps: "list_all is_part ?ps" "strip_colors (concat ?ps) = s"
    using syntax_steps_text [OF assms, of "[syntax_colour]" 0] by (auto simp: is_part_def syntax_colour_def colour_def)
  have reset: "strip_colors reset_colour = []" by (simp add: reset_colour_def colour_def)
  show ?thesis
  proof (cases "?ps \<noteq> [] \<and> last ?ps = syntax_colour")
    case True
    then have split: "?ps = butlast ?ps @ [syntax_colour]" by (metis append_butlast_last_id)
    then have "list_all is_part (butlast ?ps)" using ps(1) by (metis list_all_append)
    then have "strip_colors (concat (butlast ?ps) @ t) = strip_colors (concat (butlast ?ps)) @ strip_colors t" for t
      by (rule strip_parts)
    moreover have "strip_colors (concat (butlast ?ps)) @ strip_colors syntax_colour = s"
      using ps(2) split calculation [of syntax_colour] by (metis concat.simps concat_append append_Nil2)
    ultimately show ?thesis using True by (simp add: color_syntax_def Let_def reset) (simp add: syntax_colour_def colour_def)
  next
    case False
    then have "color_syntax s = concat ?ps @ reset_colour \<or> ?ps = []"
      by (auto simp: color_syntax_def Let_def)
    moreover have "?ps = [] \<Longrightarrow> s = []" using ps(2) by simp
    ultimately show ?thesis
      using strip_parts [OF ps(1), of reset_colour] ps(2) reset
      by (auto simp: color_syntax_def)
  qed
qed

lemma color_syntax_keeps_text_witness:
  "strip_colors (color_syntax ''spawn at <x> [in <dimension>'') = ''spawn at <x> [in <dimension>''"
  by (rule color_syntax_keeps_text) (simp add: plain_text_def section_sign_def)

section \<open>Help never fails\<close>

definition has_line :: "string \<Rightarrow> bool" where
  "has_line key = (case map_of help_table key of None \<Rightarrow> False | Some t \<Rightarrow> he_syntaxes t \<noteq> [])"

lemmas help_tables = help_table_def lifecycle_help_def input_help_def world_help_def help_entry_def

lemma table_topics: "keys help_table = help_topics"
  by (simp only: help_tables help_topics_def append.simps list.map fst_conv)

lemma help_pages_length: "length help_pages = 4" "length help_titles = 4"
  by (simp_all add: help_pages_def help_titles_def)

lemma entries_have_lines: "list_all (\<lambda>e. he_syntaxes (snd e) \<noteq> [] \<or> fst e = ''area'') help_table"
  by (simp only: help_tables append.simps list.pred_inject fst_conv snd_conv help_entry.simps simp_thms list.distinct)

lemma pages_in_table: "list_all (list_all (\<lambda>k. k \<in> set help_topics \<and> k \<noteq> ''area'')) help_pages"
  by (simp add: help_pages_def help_topics_def)

lemma pages_have_lines: "list_all (list_all has_line) help_pages"
proof -
  have "has_line k" if "k \<in> set help_topics" "k \<noteq> ''area''" for k
  proof -
    have "k \<in> fst ` set help_table" using that(1) unfolding table_topics [symmetric] by simp
    then obtain t where t: "map_of help_table k = Some t" by (cases "map_of help_table k") (simp_all add: map_of_eq_None_iff)
    then have "(k, t) \<in> set help_table" by (rule map_of_SomeD)
    then have "he_syntaxes t \<noteq> []" using entries_have_lines that(2) unfolding list_all_iff by (metis fst_conv snd_conv)
    with t show ?thesis by (simp add: has_line_def)
  qed
  then show ?thesis using pages_in_table by (auto simp: list_all_iff)
qed

lemma topic_line_returns: "has_line key \<Longrightarrow> \<exists>l. topic_line key = Inr l"
  by (auto simp: has_line_def topic_line_def split: option.splits list.splits)

lemma topic_lines_return: "list_all has_line ks \<Longrightarrow> \<exists>ls. emap topic_line ks = Inr ls"
  by (induction ks) (auto dest: topic_line_returns)

definition answers :: "failure + 'a \<Rightarrow> bool" where
  "answers r = (case r of Inr x \<Rightarrow> True | Inl e \<Rightarrow> False)"

lemma help_page_answers: "1 \<le> page \<Longrightarrow> page \<le> int (length help_pages) \<Longrightarrow> answers (help_page page)"
proof -
  assume p: "1 \<le> page" "page \<le> int (length help_pages)"
  have pages: "page_of help_pages page = Inr (help_pages ! nat (page - 1))" "page_of help_titles page = Inr (help_titles ! nat (page - 1))"
    using p help_pages_length by (simp_all add: page_of_def Let_def)
  have "help_pages ! nat (page - 1) \<in> set help_pages"
    using p by (intro nth_mem) linarith
  then obtain ls where "emap topic_line (help_pages ! nat (page - 1)) = Inr ls"
    using topic_lines_return pages_have_lines by (metis list_all_iff)
  then show ?thesis by (simp add: help_page_def pages answers_def)
qed

lemma help_detail_answers: "key \<in> set help_topics \<Longrightarrow> answers (help_detail key)"
  unfolding table_topics [symmetric]
  by (auto simp: help_detail_def answers_def map_of_eq_None_iff rev_image_eqI split: option.split)

text \<open>Whatever follows \<open>/bot help\<close>, when the parser accepts it the help is rendered: every page and topic the
  parser admits is in the table, with the line a page shows.\<close>

theorem accepted_help_is_rendered:
  "case help_topic raw of Inr c \<Rightarrow> answers (help_answer c) | Inl e \<Rightarrow> True"
proof -
  have last: "answers (help_page (int (length help_pages)))"
    by (rule help_page_answers) (simp_all add: help_pages_length)
  show ?thesis
    using help_detail_answers last
    by (auto simp: help_topic_def Let_def help_answer_def root_command_def dict_get_def help_page_answers
        split: sum.split)
qed

end
