(* ===== verification/Bot_Replies.thy ===== *)
theory Bot_Replies
  imports Help Areas Mining_Loops
begin

text \<open>
  What the replies of \<open>/bot\<close> say about a Bot: the status line, its summaries of chunk radius, timed inputs and
  mining, and the stable fields a script reads (\<open>_status_reply\<close> to \<open>_blocks_summary\<close> of \<open>endbot_core/commands.py\<close>).
  A status and an observation are JSON objects; a field that is missing where the source indexes it is a \<open>Crash\<close>,
  and so is a number that is none or not finite where one is formatted. An array or object has no text of its own.
\<close>

section \<open>Numbers as text\<close>

definition round_half_even :: "rat \<Rightarrow> int" where
  "round_half_even r = (let f = \<lfloor>r\<rfloor>; d = r - of_int f in
     if d < 1 / 2 then f else if d > 1 / 2 then f + 1 else if even f then f else f + 1)"

definition round_to :: "nat \<Rightarrow> rat \<Rightarrow> rat" where
  "round_to n r = of_int (round_half_even (r * 10 ^ n)) / 10 ^ n"

definition pad_zeros :: "nat \<Rightarrow> string \<Rightarrow> string" where
  "pad_zeros n s = replicate (n - length s) (CHR ''0'') @ s"

text \<open>\<open>f'{r:.nf}'\<close>.\<close>

definition fixed_text :: "nat \<Rightarrow> rat \<Rightarrow> string" where
  "fixed_text n r =
     (let s = pad_zeros (n + 1) (show_nat (nat (round_half_even (\<bar>r\<bar> * 10 ^ n)))); k = length s - n in
      (if r < 0 then ''-'' else []) @ take k s @ (if n = 0 then [] else CHR ''.'' # drop k s))"

definition trim_fraction :: "string \<Rightarrow> string" where
  "trim_fraction s = (if CHR ''.'' \<in> set s
     then (let t = rev (dropWhile (\<lambda>c. c = CHR ''0'') (rev s)) in if last t = CHR ''.'' then butlast t else t) else s)"

definition exponent_of :: "rat \<Rightarrow> int" where
  "exponent_of r = (case find (\<lambda>e. ten_to e \<le> \<bar>r\<bar> \<and> \<bar>r\<bar> < ten_to (e + 1)) [-330..310] of Some e \<Rightarrow> e | None \<Rightarrow> 0)"

text \<open>\<open>f'{r:g}'\<close>: six significant digits.\<close>

definition general_text :: "rat \<Rightarrow> string" where
  "general_text r = (if r = 0 then ''0'' else
     (let e0 = exponent_of r; m = round_half_even (\<bar>r\<bar> * ten_to (5 - e0));
          e = (if m = 1000000 then e0 + 1 else e0); v = (if r < 0 then - 1 else 1) * of_int m * ten_to (e0 - 5) in
      if - 4 \<le> e \<and> e < 6 then trim_fraction (fixed_text (nat (5 - e)) v)
      else trim_fraction (fixed_text 5 (v * ten_to (- e))) @ ''e'' @ (if e < 0 then ''-'' else ''+'') @ pad_zeros 2 (show_nat (nat \<bar>e\<bar>))))"

definition float_text :: "rat \<Rightarrow> string" where
  "float_text r = (if of_int \<lfloor>r\<rfloor> = r then show_int \<lfloor>r\<rfloor> @ ''.0'' else repr_fraction r)"

text \<open>\<open>str(value)\<close> in a message.\<close>

fun shown :: "json \<Rightarrow> string" where
  "shown (JFloat (Finite r)) = float_text r"
| "shown j = scalar_text j"

definition number_in :: "json \<Rightarrow> failure + rat" where
  "number_in j = (case j of JInt i \<Rightarrow> Inr (of_int i) | JFloat (Finite r) \<Rightarrow> Inr r | JBool b \<Rightarrow> Inr (if b then 1 else 0) | _ \<Rightarrow> Inl (Crash ''number''))"

definition need_number :: "params \<Rightarrow> string \<Rightarrow> failure + rat" where
  "need_number d k = ebind (need d k) number_in"

definition wrap_angle :: "rat \<Rightarrow> rat" where
  "wrap_angle r = r - 360 * of_int \<lfloor>r / 360\<rfloor>"

definition without_namespace :: "string \<Rightarrow> string" where
  "without_namespace s = remove_prefix ''minecraft:'' s"

definition as_text :: "json \<Rightarrow> failure + string" where
  "as_text j = (case j of JStr s \<Rightarrow> Inr s | _ \<Rightarrow> Inl (Crash ''text''))"

section \<open>Summaries\<close>

definition radius_summary :: "params \<Rightarrow> failure + string" where
  "radius_summary status =
     (let confirmed = get_json status ''serverChunkRadius'';
          server = (if confirmed \<noteq> JNull then tr ''server confirmed {radius}'' [(''radius'', shown confirmed)]
            else if get_json status ''connectionState'' = JStr ''online'' then tr ''server confirmation pending'' []
            else tr ''applies when online'' []) in
      ebind (need status ''chunkRadius'') (\<lambda>r. Inr (tr ''chunk radius {radius} ({source}); {server}''
        [(''radius'', shown r),
         (''source'', if get_json status ''chunkRadiusSource'' = JStr ''bot'' then ''Bot override'' else ''shared default''),
         (''server'', server)])))"

definition selector_text :: "params \<Rightarrow> string" where
  "selector_text ps = (case map_of ps ''runtimeId'' of
     Some i \<Rightarrow> CHR 0x40 # shown i
   | None \<Rightarrow> (case map_of ps ''type'' of Some t \<Rightarrow> CHR 0x40 # without_namespace (shown t) | None \<Rightarrow> CHR 0x40 # ''nearest''))"

definition as_params :: "json \<Rightarrow> failure + params" where
  "as_params j = (case j of JObj d \<Rightarrow> Inr d | _ \<Rightarrow> Inl (Crash ''object''))"

definition timed_action :: "string \<times> json \<Rightarrow> failure + string list" where
  "timed_action x = (case x of (action, j) \<Rightarrow> ebind (as_params j) (\<lambda>st.
     let f = get_json st in
     if f ''remainingTicks'' = JNull \<and> f ''holdTicks'' = JNull \<and> f ''target'' = JNull then Inr []
     else ebind (if f ''target'' = JNull then Inr [] else ebind (as_params (f ''target'')) (\<lambda>t. Inr [selector_text t])) (\<lambda>target.
       Inr [join_with '' '' ([action] @ target @ [shown (f ''mode'')] @
         (if f ''mode'' = JStr ''interval'' then [shown (f ''intervalTicks'')] else []) @
         (if f ''remainingCount'' \<noteq> JNull then [tr ''{count} left'' [(''count'', shown (f ''remainingCount''))]] else []) @
         (if f ''holdTicks'' \<noteq> JNull then [''hold '' @ shown (f ''holdTicks'')] else []) @
         (if f ''remainingTicks'' \<noteq> JNull then [tr ''{ticks} ticks left'' [(''ticks'', shown (f ''remainingTicks''))]] else []))])))"

definition timed_inputs_summary :: "params \<Rightarrow> failure + string option" where
  "timed_inputs_summary inputs =
     ebind (object_of inputs ''actions'') (\<lambda>actions. ebind (emap timed_action actions) (\<lambda>parts.
       let moving = (if get_json inputs ''movementRemainingTicks'' \<noteq> JNull
            then [tr ''move {direction} {ticks} ticks left'' [(''direction'', shown (get_json inputs ''movement'')),
                    (''ticks'', shown (get_json inputs ''movementRemainingTicks''))]] else []);
           all = moving @ concat parts in
       Inr (if all = [] then None else Some (tr ''timed: {inputs}'' [(''inputs'', join_with '', '' all)]))))"

definition blocks_summary :: "params \<Rightarrow> string" where
  "blocks_summary mining =
     (let made = get_json mining ''blocksBroken''; total = get_json mining ''blockCount'' in
      if made = JNull then []
      else if total = JNull then tr ''{done} blocks'' [(''done'', shown made)]
      else tr ''{done}/{total} blocks'' [(''done'', shown made), (''total'', shown total)])"

definition present :: "string list \<Rightarrow> string" where
  "present notes = join_with '', '' (filter (\<lambda>n. n \<noteq> []) notes)"

definition in_parens :: "string \<Rightarrow> string" where
  "in_parens s = (if s = [] then [] else '' ('' @ s @ '')'')"

definition rstrip :: "string \<Rightarrow> string" where
  "rstrip s = rev (dropWhile is_space (rev s))"

definition past_outcome :: "json \<Rightarrow> json \<Rightarrow> string" where
  "past_outcome st why =
     (let raw = (if truthy why then scalar_text why else []);
          reason = dict_get mining_reasons raw raw in
      if st = JStr ''completed'' then tr (if reason = [] then ''completed'' else reason) []
      else if st = JStr ''failed'' then (if reason = [] then tr ''failed'' [] else tr ''failed: {reason}'' [(''reason'', reason)])
      else if starts_with ''canceled'' reason \<or> starts_with ''replaced'' reason \<or> starts_with ''stopped'' reason then tr reason []
      else if reason = [] then tr ''canceled'' [] else tr ''canceled: {reason}'' [(''reason'', reason)])"

definition mining_summary :: "params \<Rightarrow> failure + string" where
  "mining_summary mining = ebind (list_of mining ''blockPosition'') (\<lambda>cells.
     let position = join_with '' '' (map shown cells); block = get_json mining ''blockName''; st = get_json mining ''state'';
         target = (if truthy block \<and> block \<noteq> JStr ''unknown'' \<and> position \<noteq> []
           then tr ''{block} at {position}'' [(''block'', shown block), (''position'', position)] else position);
         left = (if get_json mining ''remainingTicks'' \<noteq> JNull
           then tr ''{ticks} ticks left'' [(''ticks'', shown (get_json mining ''remainingTicks''))] else []);
         blocks = blocks_summary mining; continuous = truthy (get_json mining ''continuous'') in
     Inr (if st = JStr ''active'' then
        (let notes = present [blocks, left];
             mode = (if continuous then '' (continuous'' @ (if notes = [] then [] else '', '' @ notes) @ '')'' else []) in
         rstrip (tr ''destroying {target}{mode}'' [(''target'', target), (''mode'', mode)]))
      else if continuous then
        (let seen = (if target = [] then [] else tr ''last: {target}'' [(''target'', target)]) in
         tr ''destroy continuous waiting for a block in sight{notes}'' [(''notes'', in_parens (present [seen, blocks, left]))])
      else tr ''last destroy: {outcome}{target}''
        [(''outcome'', past_outcome st (get_json mining ''reason'')), (''target'', in_parens (present [blocks, target]))]))"

section \<open>The status line\<close>

definition observed_text :: "params \<Rightarrow> failure + string" where
  "observed_text ob =
     ebind (need_number ob ''yaw'') (\<lambda>yaw.
     ebind (need ob ''dimension'') (\<lambda>dimension.
     ebind (need_number ob ''x'') (\<lambda>x. ebind (need_number ob ''y'') (\<lambda>y. ebind (need_number ob ''z'') (\<lambda>z.
     ebind (need_number ob ''pitch'') (\<lambda>pitch.
       Inr (shown dimension @ '' '' @ fixed_text 2 x @ '' '' @ fixed_text 2 y @ '' '' @ fixed_text 2 z @
         '' yaw='' @ fixed_text 1 (wrap_angle (round_to 1 (wrap_angle yaw))) @ '' pitch='' @ fixed_text 1 pitch)))))))"

definition health_text :: "params \<Rightarrow> params \<Rightarrow> failure + string" where
  "health_text status ob =
     ebind (object_of status ''vitals'') (\<lambda>vitals.
     ebind (need_number ob ''health'') (\<lambda>h. ebind (need_number ob ''maxHealth'') (\<lambda>m.
     ebind (if get_json vitals ''hunger'' = JNull then Inr []
            else ebind (number_in (get_json vitals ''hunger'')) (\<lambda>f. Inr ('' '' @ tr ''food {food}'' [(''food'', general_text f)]))) (\<lambda>food.
       Inr (tr ''health {health}/{max}'' [(''health'', general_text h), (''max'', general_text m)] @ food)))))"

definition status_fields :: "params \<Rightarrow> params option \<Rightarrow> failure + string list" where
  "status_fields status observed =
     ebind (need status ''connectionState'') (\<lambda>c.
     ebind (need status ''desiredState'') (\<lambda>desired.
     ebind (case observed of None \<Rightarrow> Inr [] | Some ob \<Rightarrow> ebind (observed_text ob) (\<lambda>t. Inr [t])) (\<lambda>where_at.
     ebind (if ''chunkRadius'' \<in> set (keys status) then ebind (radius_summary status) (\<lambda>t. Inr [t]) else Inr []) (\<lambda>radius.
     ebind (object_of status ''inputs'') (\<lambda>inputs.
     ebind (timed_inputs_summary inputs) (\<lambda>timed.
     ebind (if truthy (get_json status ''mining'') then ebind (as_params (get_json status ''mining'')) (\<lambda>m. ebind (mining_summary m) (\<lambda>t. Inr [t]))
            else Inr []) (\<lambda>mining.
     ebind (if truthy (get_json status ''vehicle'') then ebind (as_params (get_json status ''vehicle'')) (\<lambda>v.
              Inr [tr ''riding {vehicle}'' [(''vehicle'', without_namespace
                (if truthy (get_json v ''type'') then shown (get_json v ''type'') else ''?''))]]) else Inr []) (\<lambda>riding.
     ebind (case observed of None \<Rightarrow> Inr [] | Some ob \<Rightarrow>
              if get_json ob ''health'' = JNull then Inr [] else ebind (health_text status ob) (\<lambda>t. Inr [t])) (\<lambda>health.
       Inr ([tr (shown c) [], tr ''desired={state}'' [(''state'', shown desired)]] @ where_at @
         (if truthy (get_json status ''lastError'')
          then [error_colour @ tr ''error={error}'' [(''error'', shown (get_json status ''lastError''))] @ reset_colour] else []) @
         radius @ (case timed of None \<Rightarrow> [] | Some t \<Rightarrow> [t]) @ mining @ riding @ health))))))))))"

definition status_reply :: "params \<Rightarrow> params option \<Rightarrow> failure + string" where
  "status_reply status observed =
     ebind (status_fields status observed) (\<lambda>fs. ebind (need status ''name'') (\<lambda>n.
       Inr (reply (join_with (dim @ '' | '' @ reset_colour) fs) (Some (shown n)) [])))"

section \<open>The fields a script reads\<close>

definition job_in :: "params \<Rightarrow> string \<Rightarrow> failure + json" where
  "job_in actions channel = (if \<not> truthy (get_json actions channel) then Inr JNull
     else ebind (as_params (get_json actions channel)) (\<lambda>a. Inr (get_json a ''job'')))"

definition input_job :: "params \<Rightarrow> string \<Rightarrow> failure + json" where
  "input_job status channel = ebind (object_of status ''inputs'') (\<lambda>inputs.
     if channel = ''move'' then Inr (get_json inputs ''movementJob'')
     else ebind (object_of inputs ''actions'') (\<lambda>actions. job_in actions channel))"

definition input_channels :: "string list" where
  "input_channels = [''move'', ''jump'', ''attack'', ''use'', ''interact'']"

definition mining_target :: "params \<Rightarrow> failure + json" where
  "mining_target mining = ebind (list_of mining ''blockPosition'') (\<lambda>p. Inr (case p of
     [x, y, z] \<Rightarrow> JObj [(''x'', x), (''y'', y), (''z'', z), (''type'', get_json mining ''blockName'')]
   | _ \<Rightarrow> JNull))"

definition look_angles :: "params \<Rightarrow> failure + json" where
  "look_angles ob = (if ''yaw'' \<notin> set (keys ob) then Inr JNull
     else ebind (need_number ob ''yaw'') (\<lambda>y. ebind (need ob ''pitch'') (\<lambda>p.
       Inr (JObj [(''yaw'', JFloat (Finite (wrap_angle y))), (''pitch'', p)]))))"

definition position_in :: "params \<Rightarrow> failure + json" where
  "position_in ob = (if ''x'' \<notin> set (keys ob) then Inr JNull
     else ebind (emap (\<lambda>k. ebind (need ob k) (\<lambda>j. Inr (k, j))) [''x'', ''y'', ''z'']) (\<lambda>d. Inr (JObj d)))"

definition mining_state :: "params \<Rightarrow> failure + json" where
  "mining_state mining =
     (let st = get_json mining ''state'';
          active = (st = JStr ''active'' \<or> truthy (get_json mining ''loopId''));
          continuous = (truthy (get_json mining ''continuous'') \<or> ''blocksBroken'' \<in> set (keys mining)) in
      ebind (if st = JStr ''active'' then mining_target mining else Inr JNull) (\<lambda>target.
        Inr (JObj [(''active'', JBool active),
          (''mode'', if mining = [] then JNull else JStr (if continuous then ''continuous'' else ''once'')),
          (''state'', st),
          (''blocksBroken'', dict_get mining ''blocksBroken'' (JInt (if st = JStr ''completed'' then 1 else 0))),
          (''blockCount'', get_json mining ''blockCount''),
          (''reason'', if active then JNull else get_json mining ''reason''),
          (''target'', target)])))"

definition script_status :: "params \<Rightarrow> params \<Rightarrow> failure + json" where
  "script_status status ob =
     ebind (object_of status ''vitals'') (\<lambda>vitals. ebind (position_in ob) (\<lambda>position.
     ebind (object_of status ''mining'') (\<lambda>mining. ebind (need status ''name'') (\<lambda>n. ebind (need status ''identityId'') (\<lambda>i.
     ebind (need status ''connectionState'') (\<lambda>c. ebind (look_angles ob) (\<lambda>look.
     ebind (emap (\<lambda>ch. ebind (input_job status ch) (\<lambda>j. Inr (ch, j))) input_channels) (\<lambda>running.
     ebind (object_of status ''inputs'') (\<lambda>inputs. ebind (object_of inputs ''ended'') (\<lambda>ended.
     ebind (mining_state mining) (\<lambda>state_of.
       Inr (JObj [(''name'', n), (''identityId'', i), (''connectionState'', c), (''vehicle'', get_json status ''vehicle''),
         (''position'', position), (''dimension'', get_json ob ''dimension''), (''look'', look),
         (''health'', get_json ob ''health''), (''maxHealth'', get_json ob ''maxHealth''),
         (''hunger'', get_json vitals ''hunger''), (''saturation'', get_json vitals ''saturation''),
         (''onGround'', get_json ob ''onGround''), (''inWater'', get_json ob ''inWater''),
         (''selectedSlot'', get_json ob ''selectedSlot''), (''held'', get_json ob ''held''),
         (''running'', JObj running), (''teleports'', get_json inputs ''teleports''), (''ended'', JObj ended),
         (''mining'', state_of)]))))))))))))"

end
