(* ===== verification/Bot_Service.thy ===== *)
theory Bot_Service
  imports Bot_Replies
begin

text \<open>
  Carrying out one command, \<open>BotCommandService.execute\<close> and \<open>_execute\<close> of \<open>endbot_core/commands.py\<close>, one definition
  per operation. The runtime and the world's adapter answer requests: what they answer at a moment is given by the
  environment, \<open>world_reply\<close> is \<open>None\<close> without an adapter, and the sender that some world calls take along is part
  of the environment. State is the clock that counts requests, what was asked, the ownership store and the table of
  block breaking jobs. The service has a runtime, and replies are those of an English reader; a view is never set.
  Of an error of the world only its class and text count, not an outcome code of its own.
\<close>

record bot_env =
  control_reply :: "nat \<Rightarrow> string \<Rightarrow> params \<Rightarrow> failure + json"
  world_reply :: "(nat \<Rightarrow> string \<Rightarrow> json list \<Rightarrow> failure + json) option"
  seat_limits :: bot_limits
  seat_capacity :: "capacity option"
  resolve_tag :: "string \<Rightarrow> (string \<times> string) option"
  late :: "nat \<Rightarrow> bool"

record bot_state =
  clock :: nat
  control_log :: "(nat \<times> string \<times> params) list"
  world_log :: "(nat \<times> string \<times> json list) list"
  owners_now :: "ownership_store option"
  loops_now :: job_table

type_synonym 'a bot_action = "(failure, bot_state, 'a) effect"

definition ask :: "bot_env \<Rightarrow> bot_state handler" where
  "ask v m ps s = (control_reply v (clock s) m ps, s\<lparr>clock := Suc (clock s), control_log := control_log s @ [(clock s, m, ps)]\<rparr>)"

definition world :: "bot_env \<Rightarrow> string \<Rightarrow> json list \<Rightarrow> json bot_action" where
  "world v m xs s = (case world_reply v of
     None \<Rightarrow> (Inl (Crash m), s)
   | Some w \<Rightarrow> (w (clock s) m xs, s\<lparr>clock := Suc (clock s), world_log := world_log s @ [(clock s, m, xs)]\<rparr>))"

definition lifted :: "failure + 'a \<Rightarrow> 'a bot_action" where
  "lifted r = look (\<lambda>_. r)"

definition raise_error :: "string \<Rightarrow> (string \<times> string) list \<Rightarrow> 'a bot_action" where
  "raise_error t ps = fail (Invalid (LocalizedError t ps))"

definition absent :: "failure" where
  "absent = Invalid (ValueError ''Bot is not present in the world'')"

definition in_world :: "bot_env \<Rightarrow> unit bot_action" where
  "in_world v = (if world_reply v = None then fail absent else ret ())"

definition on_owners :: "(ownership_store, 'a) action \<Rightarrow> 'a \<Rightarrow> 'a bot_action" where
  "on_owners m without s = (case owners_now s of
     None \<Rightarrow> (Inr without, s)
   | Some st \<Rightarrow> (case m st of (Inl e, st') \<Rightarrow> (Inl (Invalid e), s\<lparr>owners_now := Some st'\<rparr>)
       | (Inr x, st') \<Rightarrow> (Inr x, s\<lparr>owners_now := Some st'\<rparr>)))"

definition with_owners :: "(ownership_store option \<Rightarrow> 'a bot_action) \<Rightarrow> 'a bot_action" where
  "with_owners f s = f (owners_now s) s"

definition guard_by :: "bot_env \<Rightarrow> 'a prog \<Rightarrow> 'a bot_action" where
  "guard_by v p = run_prog (ask v) p"

section \<open>Requests of a command\<close>

definition bot_param :: "bot_command \<Rightarrow> string \<times> json" where
  "bot_param c = (''name'', case op_bot c of None \<Rightarrow> JNull | Some n \<Rightarrow> JStr n)"

definition ask_object :: "bot_env \<Rightarrow> string \<Rightarrow> params \<Rightarrow> params bot_action" where
  "ask_object v m ps = sbind (ask v m ps) (\<lambda>j. lifted (as_params j))"

definition ask_status :: "bot_env \<Rightarrow> bot_command \<Rightarrow> params bot_action" where
  "ask_status v c = ask_object v ''status'' [bot_param c]"

definition ask_with :: "bot_env \<Rightarrow> string \<Rightarrow> bot_command \<Rightarrow> params bot_action" where
  "ask_with v m c = ask_object v m (bot_param c # op_params c)"

definition field :: "params \<Rightarrow> string \<Rightarrow> json bot_action" where
  "field d k = lifted (need d k)"

definition text_of :: "params \<Rightarrow> string \<Rightarrow> string bot_action" where
  "text_of d k = lifted (ebind (need d k) as_text)"

definition world_object :: "bot_env \<Rightarrow> string \<Rightarrow> json list \<Rightarrow> params bot_action" where
  "world_object v m xs = sbind (world v m xs) (\<lambda>j. lifted (as_params j))"

text \<open>\<open>self.world.observe(...) if self.world else None\<close>.\<close>

definition observe :: "bot_env \<Rightarrow> json \<Rightarrow> params option bot_action" where
  "observe v i = (if world_reply v = None then ret None
     else sbind (world v ''observe'' [i]) (\<lambda>j. if truthy j then sbind (lifted (as_params j)) (\<lambda>d. ret (Some d)) else ret None))"

section \<open>Results\<close>

definition result :: "string list \<Rightarrow> json option \<Rightarrow> command_result" where
  "result ms d = \<lparr>messages = ms, log_messages = [], accepted = True, res_code = ''ok'', res_data = d\<rparr>"

definition no_job :: params where
  "no_job = []"

definition said :: "params \<Rightarrow> string \<Rightarrow> json \<Rightarrow> (string \<times> string) list \<Rightarrow> command_result bot_action" where
  "said started template who ps = ret (result [reply (tr template ps) (if who = JNull then None else Some (shown who)) []]
     (if started = [] then None else Some (JObj started)))"

definition told :: "string \<Rightarrow> json \<Rightarrow> json option \<Rightarrow> command_result bot_action" where
  "told detail who d = ret (result [reply detail (if who = JNull then None else Some (shown who)) []] d)"

definition logged :: "params \<Rightarrow> string \<Rightarrow> json \<Rightarrow> command_result bot_action" where
  "logged started detail who = ret ((result [reply detail (Some (shown who)) []] (if started = [] then None else Some (JObj started)))
     \<lparr>log_messages := [reply detail (Some (shown who)) []]\<rparr>)"

section \<open>Help, menus, lists and status\<close>

definition do_help :: "bot_command \<Rightarrow> command_result bot_action" where
  "do_help c = sbind (lifted (help_answer c)) (\<lambda>ls. ret (result ls None))"

definition console_menu :: "bot_command \<Rightarrow> command_result bot_action" where
  "console_menu c = (if truthy (get_json (op_params c) ''default'') then sbind (lifted (help_page 1)) (\<lambda>ls. ret (result ls None))
     else said no_job ''menu is available only to players; use /bot help'' JNull [])"

definition item_text :: "json \<Rightarrow> failure + string" where
  "item_text j = ebind (as_params j) (\<lambda>d. ebind (need d ''name'') (\<lambda>n. ebind (as_text n) (\<lambda>n. ebind (need d ''count'') (\<lambda>k.
     let wear = get_json d ''durability''; plain = without_namespace n @ '' x'' @ shown k in
     if \<not> truthy wear then Inr plain
     else ebind (as_params wear) (\<lambda>w. ebind (need w ''remaining'') (\<lambda>r. ebind (need w ''max'') (\<lambda>m.
       Inr (plain @ '' ('' @ shown r @ ''/'' @ shown m @ '')''))))))))"

definition as_list :: "json \<Rightarrow> failure + json list" where
  "as_list j = (case j of JArr js \<Rightarrow> Inr js | _ \<Rightarrow> Inl (Crash ''list''))"

definition slot_text :: "json \<Rightarrow> failure + string" where
  "slot_text j = ebind (as_params j) (\<lambda>d. ebind (need d ''slot'') (\<lambda>sl. ebind (item_text j) (\<lambda>t. Inr (shown sl @ '': '' @ t))))"

definition do_inventory :: "bot_env \<Rightarrow> bot_command \<Rightarrow> command_result bot_action" where
  "do_inventory v c = sbind (in_world v) (\<lambda>_.
     sbind (if get_json (op_params c) ''identityId'' \<noteq> JNull then ret (get_json (op_params c) ''identityId'')
            else sbind (ask_status v c) (\<lambda>st. field st ''identityId'')) (\<lambda>i.
     sbind (world_object v ''inventory'' [snd (bot_param c), i]) (\<lambda>snap.
     sbind (field snap ''name'') (\<lambda>n. sbind (field snap ''slots'') (\<lambda>slots.
     sbind (lifted (ebind (as_list slots) (emap slot_text))) (\<lambda>entries.
       told (if entries = [] then tr ''inventory is empty'' [] else tr ''inventory: {items}'' [(''items'', join_with '', '' entries)])
         n (Some (JObj [(''name'', n), (''slots'', slots)]))))))))"

definition do_menu :: "bot_env \<Rightarrow> bot_command \<Rightarrow> command_result bot_action" where
  "do_menu v c =
     (if op_bot c = None then sbind (guard_by v bot_profiles) (\<lambda>ps. ret (result [] (Some (JObj
         [(''menu'', JStr ''bots''), (''bots'', JArr (map (\<lambda>p. JObj [(''name'', JStr (profile_name p)), (''identityId'', JStr (profile_id p)),
            (''connectionState'', JStr (profile_state p))]) ps))]))))
      else sbind (ask_status v c) (\<lambda>st. sbind (field st ''identityId'') (\<lambda>i. sbind (observe v i) (\<lambda>ob.
           sbind (lifted (status_reply st ob)) (\<lambda>line. sbind (text_of st ''name'') (\<lambda>n.
           let shown_line = (if reserved_name n
             then line @ [CHR 0x0A] @ tr ''{name} is a reserved name; rename this Bot'' [(''name'', n)] else line) in
           ret (result [] (Some (JObj [(''menu'', JStr ''bot''), (''name'', JStr n), (''status'', JObj st),
             (''observed'', case ob of None \<Rightarrow> JNull | Some d \<Rightarrow> JObj d), (''summary'', JStr shown_line)])))))))))"

definition list_entry :: "profile \<Rightarrow> string" where
  "list_entry p = profile_name p @ '' '' @ dim @ ''['' @ tr (profile_state p) [] @ '']'' @
     (if reserved_name (profile_name p) then '' '' @ tr ''(reserved name; rename it)'' [] else []) @ reset_colour"

definition do_list :: "bot_env \<Rightarrow> command_result bot_action" where
  "do_list v = sbind (guard_by v bot_profiles) (\<lambda>ps.
     let d = Some (JObj [(''bots'', JArr (map (\<lambda>p. JObj [(''name'', JStr (profile_name p)), (''identityId'', JStr (profile_id p)),
           (''connectionState'', JStr (profile_state p))]) ps))]) in
     told (if ps = [] then tr ''no Bot profiles'' [] else join_with '', '' (map list_entry ps)) JNull d)"

definition do_status :: "bot_env \<Rightarrow> bot_command \<Rightarrow> command_result bot_action" where
  "do_status v c = sbind (ask_status v c) (\<lambda>st. sbind (field st ''identityId'') (\<lambda>i. sbind (observe v i) (\<lambda>ob.
     sbind (lifted (status_reply st ob)) (\<lambda>line.
     sbind (lifted (script_status st (case ob of None \<Rightarrow> [] | Some d \<Rightarrow> d))) (\<lambda>j. ret (result [line] (Some j)))))))"

section \<open>Owners\<close>

definition do_visibility :: "bot_env \<Rightarrow> principal \<Rightarrow> bot_command \<Rightarrow> command_result bot_action" where
  "do_visibility v p c = sbind (ask_status v c) (\<lambda>st. sbind (text_of st ''identityId'') (\<lambda>i. sbind (field st ''name'') (\<lambda>n.
     sbind (on_owners (look (get_owner ''bots'' i)) None) (\<lambda>e. case e of
       None \<Rightarrow> fail (Refused ''Bot {name} has no owner; the console can assign one with /bot {name} owner <GamerTag>'' [(''name'', shown n)])
     | Some entry \<Rightarrow>
         sbind (on_owners (look (is_owner ''bots'' i p)) True) (\<lambda>own.
         if \<not> own then fail (Refused ''Only {owner} or the console can change the visibility of Bot {name}''
           [(''owner'', case owner_name entry of None \<Rightarrow> ''?'' | Some w \<Rightarrow> if w = [] then ''?'' else w), (''name'', shown n)])
         else sbind (text_of (op_params c) ''visibility'') (\<lambda>w.
              sbind (on_owners (set_visibility ''bots'' i w) ()) (\<lambda>_.
              said no_job ''Bot {name} is now {visibility}'' n [(''name'', shown n), (''visibility'', w)])))))))"

definition do_owner :: "bot_env \<Rightarrow> principal \<Rightarrow> bot_command \<Rightarrow> command_result bot_action" where
  "do_owner v p c =
     (if player_id p \<noteq> None then fail (Refused ''Only the console can change owners'' [])
      else with_owners (\<lambda>store. if store = None then raise_error ''Ownership is unavailable; see the server log'' []
        else sbind (ask_status v c) (\<lambda>st.
             sbind (text_of (op_params c) ''gamertag'') (\<lambda>tag.
             sbind (lifted (case owner_for_gamertag (resolve_tag v) tag of Inl e \<Rightarrow> Inl (Invalid e) | Inr x \<Rightarrow> Inr x)) (\<lambda>(key, who).
             sbind (text_of st ''identityId'') (\<lambda>i.
             sbind (on_owners (set_owner ''bots'' i key (Some who)) ()) (\<lambda>_.
             sbind (field st ''name'') (\<lambda>n.
             said no_job ''Bot {name} now belongs to {owner}'' n [(''name'', shown n), (''owner'', who)]))))))))"

section \<open>Spawning and sessions\<close>

definition is_active :: "params \<Rightarrow> bool" where
  "is_active st = (case get_json st ''connectionState'' of JStr x \<Rightarrow> active_state x | _ \<Rightarrow> False)"

text \<open>The profile of that name, or none when the runtime answers that there is none.\<close>

definition existing_profile :: "bot_env \<Rightarrow> bot_command \<Rightarrow> params option bot_action" where
  "existing_profile v c = recover (sbind (ask_status v c) (\<lambda>d. ret (Some d)))
     (\<lambda>f. case f of Control_Error z m \<Rightarrow> if z = ''not_found'' then ret None else fail f | _ \<Rightarrow> fail f)"

definition seat_check :: "bot_env \<Rightarrow> string \<Rightarrow> unit bot_action" where
  "seat_check v n = guard_by v (check_seat (seat_limits v) (seat_capacity v) n)"

definition name_of :: "bot_command \<Rightarrow> string" where
  "name_of c = (case op_bot c of None \<Rightarrow> [] | Some n \<Rightarrow> n)"

definition admit_spawn :: "bot_env \<Rightarrow> principal \<Rightarrow> bot_command \<Rightarrow> params option \<Rightarrow> unit bot_action" where
  "admit_spawn v p c known =
     sbind (if known = None
       then sbind (lifted (assert_not_reserved (name_of c))) (\<lambda>_.
            with_owners (\<lambda>store. guard_by v (check_controller_limit (seat_limits v) store p)))
       else ret ()) (\<lambda>_.
     if (case known of None \<Rightarrow> True | Some d \<Rightarrow> \<not> is_active d) then seat_check v (name_of c) else ret ())"

definition spawn_reply :: "bot_env \<Rightarrow> params \<Rightarrow> json \<Rightarrow> command_result bot_action" where
  "spawn_reply v r spot =
     sbind (field r ''name'') (\<lambda>n.
     if truthy (get_json r ''alreadyOnline'') then
       (let st = get_json r ''connectionState'' in
        said no_job (if st = JStr ''connecting'' then ''already connecting'' else if st = JStr ''reconnecting'' then ''already reconnecting''
          else if st = JStr ''online'' then ''already online'' else ''already active'') n [])
     else (let created = truthy (get_json r ''created''); verb = (if created then ''created and connecting'' else ''connecting'') in
       sbind (field r ''identityId'') (\<lambda>i.
       if spot = JNull
       then sbind (world v ''clear_pending_placement'' [i]) (\<lambda>_.
            said no_job ''{verb} ({where})'' n [(''verb'', verb), (''where'', if created then ''at the world spawn'' else ''where it last was'')])
       else sbind (world v ''queue_spawn_placement'' [i, spot]) (\<lambda>_. said no_job verb n []))))"

definition do_spawn :: "bot_env \<Rightarrow> principal \<Rightarrow> bot_command \<Rightarrow> command_result bot_action" where
  "do_spawn v p c =
     sbind (existing_profile v c) (\<lambda>known.
     sbind (admit_spawn v p c known) (\<lambda>_.
     sbind (if op_params c \<noteq> [] then ret (JObj (op_params c)) else world v ''default_spawn'' []) (\<lambda>spot.
     sbind (if spot = JNull then ret JNull else world v ''resolve_spawn_placement'' [spot]) (\<lambda>spot.
     sbind (world v ''assert_name_available'' [JStr (name_of c), case known of None \<Rightarrow> JNull | Some d \<Rightarrow> get_json d ''identityId'']) (\<lambda>_.
     sbind (ask_object v ''spawn'' [bot_param c]) (\<lambda>r.
     sbind (if truthy (get_json r ''created'')
       then with_owners (\<lambda>store. if store = None then ret () else sbind (text_of r ''identityId'') (\<lambda>i. on_owners (record_owner ''bots'' i p) ()))
       else ret ()) (\<lambda>_. spawn_reply v r spot)))))))"

text \<open>Every reply of an operation that ends with the runtime's answer.\<close>

definition plain_reply :: "bot_command \<Rightarrow> params \<Rightarrow> command_result bot_action" where
  "plain_reply c r = said no_job ''{operation} requested ({state})'' (dict_get r ''name'' (snd (bot_param c)))
     [(''operation'', op_name c), (''state'', shown (dict_get r ''connectionState'' (JStr (op_name c))))]"

definition do_session :: "bot_env \<Rightarrow> bot_command \<Rightarrow> command_result bot_action" where
  "do_session v c =
     sbind (ask_status v c) (\<lambda>st. sbind (text_of st ''identityId'') (\<lambda>i.
     sbind (world v ''clear_pending_placement'' [JStr i]) (\<lambda>_.
     sbind (if (op_name c = ''resume'' \<or> op_name c = ''reconnect'') \<and> \<not> is_active st then seat_check v (name_of c) else ret ()) (\<lambda>_.
     sbind (ask_with v (op_name c) c) (\<lambda>r.
     sbind (if op_name c = ''forget'' then on_owners (forget_owner ''bots'' i) () else ret ()) (\<lambda>_.
     if op_name c = ''forget'' then said no_job ''profile registration removed'' (dict_get r ''name'' (snd (bot_param c))) []
     else plain_reply c r))))))"

definition do_rename :: "bot_env \<Rightarrow> bot_command \<Rightarrow> command_result bot_action" where
  "do_rename v c =
     sbind (text_of (op_params c) ''newName'') (\<lambda>new.
     sbind (lifted (assert_not_reserved new)) (\<lambda>_.
     sbind (ask_status v c) (\<lambda>st. sbind (field st ''identityId'') (\<lambda>i.
     sbind (world v ''assert_name_available'' [JStr new, i]) (\<lambda>_.
     sbind (world v ''clear_pending_placement'' [i]) (\<lambda>_.
     sbind (ask_with v ''rename'' c) (\<lambda>r.
     said no_job ''renamed to {name} ({state})'' (snd (bot_param c))
       [(''name'', shown (dict_get r ''name'' (snd (bot_param c)))),
        (''state'', shown (dict_get r ''connectionState'' (JStr ''rename'')))])))))))"

definition do_teleport :: "bot_env \<Rightarrow> bot_command \<Rightarrow> command_result bot_action" where
  "do_teleport v c =
     sbind (ask_status v c) (\<lambda>st. sbind (field st ''identityId'') (\<lambda>i.
     sbind (world v ''teleport'' [i, JObj (op_params c)]) (\<lambda>location.
     sbind (lifted (object_of st ''inputs'')) (\<lambda>inputs. sbind (field st ''name'') (\<lambda>n.
     said (case get_json inputs ''teleports'' of
         JInt k \<Rightarrow> [(''name'', n), (''identityId'', i), (''job'', JObj [(''kind'', JStr ''tp''), (''id'', JInt (k + 1))])]
       | JBool b \<Rightarrow> [(''name'', n), (''identityId'', i), (''job'', JObj [(''kind'', JStr ''tp''), (''id'', JInt ((if b then 1 else 0) + 1))])]
       | _ \<Rightarrow> []) ''teleported to {location}'' n [(''location'', shown location)])))))"

definition do_radius :: "bot_env \<Rightarrow> bot_command \<Rightarrow> command_result bot_action" where
  "do_radius v c =
     sbind (ask_with v ''radius'' c) (\<lambda>r. sbind (field r ''name'') (\<lambda>n. sbind (field r ''chunkRadius'') (\<lambda>k.
     sbind (lifted (radius_summary r)) (\<lambda>t.
     told t n (Some (JObj [(''name'', n), (''chunkRadius'', k),
       (''source'', JStr (if get_json r ''chunkRadiusSource'' = JStr ''bot'' then ''bot'' else ''default'')),
       (''serverChunkRadius'', get_json r ''serverChunkRadius'')]))))))"

section \<open>Areas\<close>

text \<open>The area of a command back from the dictionary the parser made of it.\<close>

fun read_coord :: "json \<Rightarrow> failure + coord" where
  "read_coord (JFloat (Finite r)) = Inr (At r)"
| "read_coord (JInt i) = Inr (At (of_int i))"
| "read_coord (JArr [JStr t, JFloat (Finite r)]) = Inr (Tagged t r)"
| "read_coord _ = Inl (Crash ''coordinate'')"

definition read_point :: "json \<Rightarrow> failure + coord point" where
  "read_point j = ebind (as_list j) (\<lambda>js. ebind (emap read_coord js) (\<lambda>cs. case cs of
     [x, y, z] \<Rightarrow> Inr (x, y, z) | _ \<Rightarrow> Inl (Crash ''point'')))"

definition read_shape :: "json \<Rightarrow> failure + shape" where
  "read_shape j = ebind (as_params j) (\<lambda>d.
     let kind = get_json d ''shape'' in
     if kind = JStr ''cell'' then ebind (read_point (get_json d ''at'')) (\<lambda>p. Inr (Cell p))
     else if kind = JStr ''box'' then ebind (read_point (get_json d ''from'')) (\<lambda>p. ebind (read_point (get_json d ''to'')) (\<lambda>q. Inr (Box p q)))
     else if kind = JStr ''sphere'' then
       (case get_json d ''radius'' of
          JFloat (Finite r) \<Rightarrow>
            (if get_json d ''at'' = JNull then Inr (Sphere r None)
             else ebind (read_point (get_json d ''at'')) (\<lambda>p. Inr (Sphere r (Some p))))
        | _ \<Rightarrow> Inl (Crash ''radius''))
     else Inr Other_shape)"

definition read_area :: "json \<Rightarrow> failure + area" where
  "read_area j = ebind (as_params j) (\<lambda>d.
     ebind (if get_json d ''within'' = JNull then Inr None else ebind (read_shape (get_json d ''within'')) (\<lambda>s. Inr (Some s))) (\<lambda>w.
     ebind (ebind (as_list (get_json d ''except'')) (emap read_shape)) (\<lambda>es. Inr \<lparr>within_shape = w, except_shapes = es\<rparr>)))"

text \<open>\<open>_resolve_area\<close>: the world fixes relative numbers, the origin does for an area without any.\<close>

definition resolve_area_for :: "bot_env \<Rightarrow> json \<Rightarrow> json \<Rightarrow> json bot_action" where
  "resolve_area_for v i j = sbind (lifted (read_area j)) (\<lambda>a.
     if has_relative (Some a) then sbind (in_world v) (\<lambda>_. world v ''resolve_area'' [i, j])
     else (case resolve_area a (0, 0, 0) of Inl e \<Rightarrow> fail (Invalid e) | Inr b \<Rightarrow> ret (area_json b)))"

definition reachable_block :: "bot_env \<Rightarrow> json \<Rightarrow> json \<Rightarrow> json \<Rightarrow> json bot_action" where
  "reachable_block v i block area = sbind (if area = JNull then ret [] else sbind (resolve_area_for v i area) (\<lambda>a. ret [a])) (\<lambda>extra.
     world v ''reachable_block'' ([i, block, JInt 6] @ extra))"

section \<open>Breaking blocks\<close>

definition only_fields :: "string list \<Rightarrow> params \<Rightarrow> params" where
  "only_fields ks d = concat (map (\<lambda>k. case map_of d k of None \<Rightarrow> [] | Some j \<Rightarrow> [(k, j)]) ks)"

definition for_suffix :: "params \<Rightarrow> string" where
  "for_suffix ps = (case map_of ps ''durationTicks'' of None \<Rightarrow> [] | Some j \<Rightarrow> tr '' for {ticks} ticks'' [(''ticks'', shown j)])"

definition count_suffix :: "params \<Rightarrow> string" where
  "count_suffix ps = (case map_of ps ''blockCount'' of None \<Rightarrow> [] | Some j \<Rightarrow> tr '' until {blocks} blocks'' [(''blocks'', shown j)])"

text \<open>What is asked of the runtime, and the resolved area of a loop.\<close>

definition destroy_target :: "bot_env \<Rightarrow> bot_command \<Rightarrow> (params \<times> json) bot_action" where
  "destroy_target v c =
     (let ps = op_params c; mode = get_json ps ''mode'' in
      if mode = JStr ''continuous'' then
        sbind (if ''area'' \<in> set (keys ps)
          then sbind (ask_status v c) (\<lambda>st. sbind (field st ''identityId'') (\<lambda>i. resolve_area_for v i (get_json ps ''area''))) else ret JNull) (\<lambda>area.
        ret ((''mode'', JStr ''start'') # only_fields [''durationTicks'', ''blockCount''] ps, area))
      else if mode = JStr ''stop'' then ret ([(''mode'', JStr ''stop'')], JNull)
      else sbind (ask_status v c) (\<lambda>st. sbind (field st ''identityId'') (\<lambda>i.
           sbind (if ''blockType'' \<in> set (keys ps)
             then sbind (reachable_block v i (get_json ps ''blockType'') (get_json ps ''area'')) (\<lambda>cell. ret [(''coordinates'', cell)]) else ret ps) (\<lambda>qs.
           sbind (world_object v ''resolve_mining'' [i, JObj qs]) (\<lambda>t. ret (t, JNull))))))"

definition set_loops :: "(job_table \<Rightarrow> job_table) \<Rightarrow> unit bot_action" where
  "set_loops f = update (\<lambda>s. s\<lparr>loops_now := f (loops_now s)\<rparr>)"

definition watch :: "bot_command \<Rightarrow> string \<Rightarrow> string \<Rightarrow> json \<Rightarrow> principal \<Rightarrow> json \<Rightarrow> json \<Rightarrow> unit bot_action" where
  "watch c n i loop p block area = update (\<lambda>s. s\<lparr>loops_now := dict_set (casefold (name_of c))
     \<lparr>stamp = clock s, job_name = n, job_identity = i, job_loop = loop, job_source = as_job p, job_block = block, job_area = area\<rparr>
     (loops_now s)\<rparr>)"

definition do_destroy :: "bot_env \<Rightarrow> principal \<Rightarrow> bot_command \<Rightarrow> command_result bot_action" where
  "do_destroy v p c =
     (let ps = op_params c; mode = get_json ps ''mode'' in
      sbind (destroy_target v c) (\<lambda>(target, area).
      sbind (ask_object v ''mine'' (bot_param c # target)) (\<lambda>r.
      sbind (set_loops (dict_pop (casefold (name_of c)))) (\<lambda>_.
      if mode = JStr ''continuous'' then
        sbind (text_of r ''name'') (\<lambda>n. sbind (text_of r ''identityId'') (\<lambda>i.
        sbind (lifted (ebind (need r ''mining'') as_params)) (\<lambda>m. sbind (field m ''loopId'') (\<lambda>loop.
        sbind (watch c n i loop p (get_json ps ''blockType'') area) (\<lambda>_.
        logged [(''name'', JStr n), (''identityId'', JStr i), (''job'', JObj [(''kind'', JStr ''mining'')])]
          (tr ''destroy continuous started{duration}{count}; destroy stop to cancel''
            [(''duration'', (case map_of ps ''blockType'' of None \<Rightarrow> [] | Some b \<Rightarrow> CHR '' '' # without_namespace (shown b)) @ for_suffix ps),
             (''count'', count_suffix ps)]) (JStr n))))))
      else if mode = JStr ''stop'' then
        sbind (field r ''name'') (\<lambda>n. logged [] (tr ''destroy stopped'' []) n)
      else
        sbind (text_of r ''name'') (\<lambda>n. sbind (text_of r ''identityId'') (\<lambda>i.
        sbind (lifted (ebind (need target ''blockPosition'') as_list)) (\<lambda>cell.
        sbind (watch c n i JNull p (JArr cell) JNull) (\<lambda>_.
        sbind (field target ''blockName'') (\<lambda>block.
        said [(''name'', JStr n), (''identityId'', JStr i), (''job'', JObj [(''kind'', JStr ''mining'')])]
          ''destroying {block} at {position}; see status for the result'' (JStr n)
          [(''block'', shown block), (''position'', join_with '' '' (map shown cell))])))))))))"

section \<open>Entities\<close>

definition entity_view :: "params \<Rightarrow> failure + params" where
  "entity_view e = ebind (need e ''runtimeId'') (\<lambda>i. Inr (dict_set ''selector'' (JStr (CHR 0x40 # shown i)) e))"

definition merged :: "params \<Rightarrow> params \<Rightarrow> params" where
  "merged d e = fold (\<lambda>(k, j). dict_set k j) e d"

text \<open>The details the world has of an entity; the table is read by the text of the runtime id.\<close>

definition detailed :: "params \<Rightarrow> params \<Rightarrow> failure + params" where
  "detailed details e = ebind (need e ''runtimeId'') (\<lambda>i.
     case map_of details (shown i) of None \<Rightarrow> Inr e | Some j \<Rightarrow> ebind (as_params j) (\<lambda>d. Inr (merged e d)))"

definition entity_ids :: "params list \<Rightarrow> failure + json list" where
  "entity_ids es = emap (\<lambda>e. need e ''runtimeId'') es"

definition entity_line :: "params \<Rightarrow> failure + string" where
  "entity_line e = ebind (ebind (need e ''type'') as_text) (\<lambda>t. ebind (need e ''runtimeId'') (\<lambda>i. ebind (need e ''distance'') (\<lambda>m.
     Inr (without_namespace t @ '' @'' @ shown i @ '' '' @ dim @ ''('' @ shown m @ ''m)'' @ reset_colour))))"

definition do_entities :: "bot_env \<Rightarrow> bot_command \<Rightarrow> command_result bot_action" where
  "do_entities v c =
     sbind (ask_object v ''entities'' [bot_param c]) (\<lambda>r.
     sbind (lifted (ebind (ebind (need r ''entities'') as_list) (emap as_params))) (\<lambda>es.
     sbind (if es \<noteq> [] \<and> world_reply v \<noteq> None
       then sbind (lifted (entity_ids es)) (\<lambda>ids. sbind (field r ''identityId'') (\<lambda>i.
            sbind (world_object v ''describe_entities'' [i, JArr ids]) (\<lambda>ds. lifted (emap (detailed ds) es))))
       else ret es) (\<lambda>es.
     sbind (lifted (emap entity_view es)) (\<lambda>es. sbind (field r ''name'') (\<lambda>n. sbind (field r ''identityId'') (\<lambda>i.
     let d = Some (JObj [(''name'', n), (''identityId'', i), (''entities'', JArr (map JObj es))]) in
     if es = [] then told (tr ''no entities nearby'' []) n d
     else sbind (lifted (emap entity_line es)) (\<lambda>ls. told (tr ''nearby: {entities}'' [(''entities'', join_with '', '' ls)]) n d)))))))"

definition entity_fields :: "params \<Rightarrow> failure + string list" where
  "entity_fields e =
     ebind (ebind (need e ''type'') as_text) (\<lambda>t. ebind (need e ''runtimeId'') (\<lambda>i. ebind (need e ''distance'') (\<lambda>m.
     ebind (if truthy (get_json e ''position'') then ebind (as_params (get_json e ''position'')) (\<lambda>p.
              ebind (need_number p ''x'') (\<lambda>x. ebind (need_number p ''y'') (\<lambda>y. ebind (need_number p ''z'') (\<lambda>z.
                Inr [fixed_text 1 x @ '' '' @ fixed_text 1 y @ '' '' @ fixed_text 1 z])))) else Inr []) (\<lambda>position.
     ebind (if get_json e ''health'' = JNull then Inr []
            else ebind (number_in (get_json e ''health'')) (\<lambda>h. ebind (need_number e ''maxHealth'') (\<lambda>most.
              Inr [tr ''health {health}/{max}'' [(''health'', general_text h), (''max'', general_text most)]]))) (\<lambda>health.
       Inr ([without_namespace t @ '' @'' @ shown i, shown m @ ''m''] @ position @ health @
         (if truthy (get_json e ''nameTag'') then [tr ''named {name}'' [(''name'', shown (get_json e ''nameTag''))]] else [])))))))"

definition do_entity :: "bot_env \<Rightarrow> bot_command \<Rightarrow> command_result bot_action" where
  "do_entity v c =
     sbind (ask_object v ''entities'' (bot_param c # only_fields [''runtimeId'', ''type''] (op_params c))) (\<lambda>r.
     sbind (lifted (ebind (need r ''entities'') as_list)) (\<lambda>es. case es of
       [] \<Rightarrow> raise_error ''No matching entity within 16 blocks'' []
     | e # _ \<Rightarrow>
         sbind (lifted (ebind (as_params e) entity_view)) (\<lambda>e.
         sbind (if world_reply v = None then ret e
           else sbind (lifted (need e ''runtimeId'')) (\<lambda>rid. sbind (field r ''identityId'') (\<lambda>i.
                sbind (world_object v ''describe_entities'' [i, JArr [rid]]) (\<lambda>ds. lifted (detailed ds e))))) (\<lambda>e.
         sbind (lifted (entity_fields e)) (\<lambda>fs. sbind (field r ''name'') (\<lambda>n.
           told (join_with (dim @ '' | '' @ reset_colour) fs) n (Some (JObj [(''name'', n), (''entity'', JObj e)]))))))))"

section \<open>Looking around\<close>

definition block_cell :: "params \<Rightarrow> failure + json list" where
  "block_cell b = emap (need b) [''x'', ''y'', ''z'']"

definition cell_text :: "json list \<Rightarrow> string" where
  "cell_text js = join_with '' '' (map shown js)"

text \<open>What the crosshair rests on, in words; an entity gains its selector.\<close>

definition target_seen :: "params \<Rightarrow> failure + params \<times> string" where
  "target_seen d = ebind (need d ''kind'') (\<lambda>kind.
     if kind = JStr ''block'' then
       ebind (ebind (need d ''block'') as_params) (\<lambda>b. ebind (ebind (need b ''type'') as_text) (\<lambda>t. ebind (need b ''face'') (\<lambda>face.
       ebind (block_cell b) (\<lambda>cell. ebind (need d ''distance'') (\<lambda>m.
         Inr (d, tr ''looking at {block} at {position} face {face} ({distance}m)''
           [(''block'', without_namespace t), (''face'', shown face), (''position'', cell_text cell), (''distance'', shown m)]))))))
     else if kind = JStr ''entity'' then
       ebind (ebind (need d ''entity'') as_params) (\<lambda>e. ebind (entity_view e) (\<lambda>ev. ebind (need e ''runtimeId'') (\<lambda>i.
       ebind (ebind (need e ''type'') as_text) (\<lambda>t. ebind (need d ''distance'') (\<lambda>m.
         Inr (dict_set ''entity'' (JObj ev) d, tr (''looking at {entity} @'' @ ''{id} ({distance}m)'')
           [(''id'', shown i), (''entity'', without_namespace t), (''distance'', shown m)]))))))
     else Inr (d, tr ''looking at nothing within 6 blocks'' []))"

definition reach_text :: "params \<Rightarrow> failure + string" where
  "reach_text d =
     (let why = get_json d ''reachCode''; hidden = get_json d ''obstruction'' in
      if truthy (get_json d ''reachable'') then Inr (tr ''in reach'' [])
      else if why = JStr ''blocked'' \<and> truthy hidden then
        ebind (as_params hidden) (\<lambda>b. ebind (ebind (need b ''type'') as_text) (\<lambda>t. ebind (block_cell b) (\<lambda>cell.
          Inr (tr ''blocked by {block} at {position}'' [(''block'', without_namespace t), (''position'', cell_text cell)]))))
      else Inr (tr (if why = JStr ''out_of_reach'' then ''out of reach'' else if why = JStr ''not_a_target'' then ''not a target'' else ''blocked'') []))"

definition block_seen :: "params \<Rightarrow> failure + string" where
  "block_seen d =
     ebind (ebind (need d ''states'') as_params) (\<lambda>sts. ebind (block_cell d) (\<lambda>cell. ebind (ebind (need d ''type'') as_text) (\<lambda>t.
     ebind (if ''reachable'' \<in> set (keys d) then ebind (reach_text d) (\<lambda>r. Inr ('' '' @ dim @ ''('' @ r @ '')'' @ reset_colour)) else Inr []) (\<lambda>reach.
       let states = join_with '' '' (map (\<lambda>(k, j). k @ ''='' @ shown j) sts) in
       Inr (tr ''block at {position}: {block}'' [(''position'', cell_text cell), (''block'', without_namespace t)] @
         (if states = [] then [] else '' '' @ dim @ ''['' @ states @ '']'' @ reset_colour) @ reach)))))"

definition found_text :: "json \<Rightarrow> failure + string" where
  "found_text j = ebind (as_params j) (\<lambda>e. ebind (block_cell e) (\<lambda>cell. ebind (need e ''distance'') (\<lambda>m.
     Inr (cell_text cell @ '' '' @ dim @ ''('' @ shown m @ ''m'' @
       (if truthy (get_json e ''reachable'') then '', '' @ tr ''in reach'' [] else []) @ '')'' @ reset_colour))))"

definition blocks_radius :: int where
  "blocks_radius = 8"

definition blocks_seen :: "string \<Rightarrow> json list \<Rightarrow> bool \<Rightarrow> failure + string" where
  "blocks_seen block found in_area =
     (if found \<noteq> [] then ebind (emap found_text (take 10 found)) (\<lambda>ls.
        Inr (tr ''{block}: {positions}'' [(''block'', block), (''positions'', join_with '', '' ls)] @
          (if length found \<le> 10 then [] else '' (+'' @ show_nat (length found - 10) @ '')'')))
      else if in_area then Inr (tr ''no exposed {block} in the area'' [(''block'', block)])
      else Inr (tr ''no exposed {block} within {radius} blocks'' [(''block'', block), (''radius'', show_int blocks_radius)]))"

definition look_around :: "bot_env \<Rightarrow> bot_command \<Rightarrow> json \<Rightarrow> (params \<times> string) bot_action" where
  "look_around v c i =
     (let ps = op_params c in
      if op_name c = ''target'' then sbind (world_object v ''target'' [i]) (\<lambda>d. lifted (target_seen d))
      else if op_name c = ''block'' then
        sbind (field ps ''coordinates'') (\<lambda>xyz. sbind (world_object v ''block_info'' [i, xyz]) (\<lambda>d. sbind (lifted (block_seen d)) (\<lambda>t. ret (d, t))))
      else
        sbind (text_of ps ''type'') (\<lambda>block. sbind (field ps ''limit'') (\<lambda>limit.
        sbind (if get_json ps ''area'' = JNull then ret JNull else resolve_area_for v i (get_json ps ''area'')) (\<lambda>area.
        sbind (sbind (world v ''find_blocks'' [i, JStr block, limit, area]) (\<lambda>j. lifted (as_list j))) (\<lambda>found.
        sbind (if get_json ps ''area'' = JNull then ret (''radius'', JInt blocks_radius)
               else sbind (lifted (read_area (get_json ps ''area''))) (\<lambda>a. ret (''area'', JStr (area_text a)))) (\<lambda>extent.
        sbind (lifted (blocks_seen (without_namespace block) found (get_json ps ''area'' \<noteq> JNull))) (\<lambda>t.
          ret ([(''type'', JStr block), (''blocks'', JArr found), extent], t))))))))"

definition do_look_around :: "bot_env \<Rightarrow> bot_command \<Rightarrow> command_result bot_action" where
  "do_look_around v c = sbind (in_world v) (\<lambda>_. sbind (ask_status v c) (\<lambda>st. sbind (field st ''identityId'') (\<lambda>i. sbind (field st ''name'') (\<lambda>n.
     sbind (look_around v c i) (\<lambda>(d, t). told t n (Some (JObj (merged [(''name'', n)] d))))))))"

section \<open>Interacting\<close>

text \<open>A crosshair interaction becomes one with what the Bot looks at.\<close>

definition aim :: "bot_env \<Rightarrow> bot_command \<Rightarrow> bot_command bot_action" where
  "aim v c =
     (if op_name c = ''interact'' \<and> truthy (get_json (op_params c) ''crosshair'') then
        sbind (in_world v) (\<lambda>_. sbind (ask_status v c) (\<lambda>st. sbind (field st ''identityId'') (\<lambda>i.
        sbind (world_object v ''target'' [i]) (\<lambda>seen. sbind (field seen ''kind'') (\<lambda>kind.
        if kind = JStr ''entity'' then
          sbind (lifted (ebind (ebind (need seen ''entity'') as_params) (\<lambda>e. need e ''runtimeId''))) (\<lambda>rid.
            ret (c\<lparr>op_params := [(''entity'', JStr ''id''), (''runtimeId'', rid)]\<rparr>))
        else if kind = JStr ''block'' then
          sbind (lifted (ebind (need seen ''block'') as_params)) (\<lambda>b.
          sbind (lifted (block_cell b)) (\<lambda>cell. sbind (text_of b ''face'') (\<lambda>face.
          case map_of block_faces face of
            None \<Rightarrow> fail (Crash ''face'')
          | Some k \<Rightarrow> ret (c\<lparr>op_params := [(''coordinates'', JArr cell), (''face'', JInt k)]\<rparr>))))
        else raise_error ''looking at nothing within 6 blocks'' [])))))
      else ret c)"

definition do_entity_action :: "bot_env \<Rightarrow> bot_command \<Rightarrow> command_result bot_action" where
  "do_entity_action v c =
     sbind (ask_object v (if op_name c = ''attack'' then ''attackEntity'' else ''interactEntity'')
       (bot_param c # only_fields [''runtimeId'', ''type''] (op_params c))) (\<lambda>r.
     sbind (lifted (ebind (need r ''entity'') as_params)) (\<lambda>e. sbind (text_of e ''type'') (\<lambda>t. sbind (field e ''runtimeId'') (\<lambda>i.
     sbind (field r ''name'') (\<lambda>n.
     said no_job ((if op_name c = ''attack'' then ''attack on {entity} @'' else ''interaction with {entity} @'') @ ''{id} requested'') n
       [(''entity'', without_namespace t), (''id'', shown i)])))))"

definition face_name :: "json \<Rightarrow> failure + string" where
  "face_name j = (case j of
     JInt k \<Rightarrow> (case find (\<lambda>(name, f). f = k) block_faces of Some (name, f) \<Rightarrow> Inr name | None \<Rightarrow> Inl (Crash ''face''))
   | _ \<Rightarrow> Inl (Crash ''face''))"

definition reach_for :: "bot_env \<Rightarrow> bot_command \<Rightarrow> bot_command bot_action" where
  "reach_for v c =
     (if ''blockType'' \<in> set (keys (op_params c)) then
        sbind (in_world v) (\<lambda>_. sbind (ask_status v c) (\<lambda>st. sbind (field st ''identityId'') (\<lambda>i.
        sbind (reachable_block v i (get_json (op_params c) ''blockType'') (get_json (op_params c) ''area'')) (\<lambda>cell.
          ret (c\<lparr>op_params := [(''coordinates'', cell)]\<rparr>)))))
      else ret c)"

definition do_interact :: "bot_env \<Rightarrow> bot_command \<Rightarrow> command_result bot_action" where
  "do_interact v c0 = sbind (reach_for v c0) (\<lambda>c.
     sbind (ask_status v c) (\<lambda>st. sbind (field st ''identityId'') (\<lambda>i.
     sbind (world_object v ''resolve_interaction'' [i, JObj (op_params c)]) (\<lambda>act.
     sbind (ask_object v ''interact'' (bot_param c # act)) (\<lambda>r.
     sbind (lifted (ebind (need act ''blockPosition'') as_list)) (\<lambda>cell.
     sbind (lifted (ebind (need act ''face'') face_name)) (\<lambda>face.
     said no_job ''block interaction requested at {position} face={face}'' (dict_get r ''name'' (snd (bot_param c)))
       [(''position'', cell_text cell), (''face'', face)])))))))"

definition do_dismount :: "bot_env \<Rightarrow> bot_command \<Rightarrow> command_result bot_action" where
  "do_dismount v c =
     sbind (ask_status v c) (\<lambda>st. sbind (lifted (object_of st ''vehicle'')) (\<lambda>ride.
     sbind (if world_reply v \<noteq> None \<and> ride \<noteq> []
       then sbind (field st ''identityId'') (\<lambda>i. world v ''resolve_dismount'' [i, get_json ride ''runtimeId'']) else ret JNull) (\<lambda>way.
     sbind (ask_object v ''dismount'' (bot_param c # (if truthy way then [(''exit'', way)] else []))) (\<lambda>r.
     sbind (field r ''name'') (\<lambda>n. sbind (lifted (ebind (need r ''vehicle'') as_params)) (\<lambda>w. sbind (text_of w ''type'') (\<lambda>t.
     said no_job ''dismount from {vehicle} requested'' n [(''vehicle'', without_namespace t)])))))))"

section \<open>Items\<close>

definition is_hotbar_slot :: "json \<Rightarrow> failure + bool" where
  "is_hotbar_slot j = ebind (as_params j) (\<lambda>d. ebind (ebind (need d ''slot'') as_text) (\<lambda>t.
     Inr (isdecimal t \<and> (case py_int t of Inr i \<Rightarrow> i \<le> 9 | Inl e \<Rightarrow> False))))"

definition hotbar_slots :: "json list \<Rightarrow> failure + json list" where
  "hotbar_slots js = ebind (emap (\<lambda>j. ebind (is_hotbar_slot j) (\<lambda>b. Inr (j, b))) js) (\<lambda>xs. Inr (map fst (filter snd xs)))"

text \<open>The slots of the world's inventory, or none when it has no such Bot.\<close>

definition known_slots :: "bot_env \<Rightarrow> params \<Rightarrow> json option bot_action" where
  "known_slots v r = sbind (field r ''name'') (\<lambda>n. recover
     (sbind (world_object v ''inventory'' [n, get_json r ''identityId'']) (\<lambda>snap. sbind (field snap ''slots'') (\<lambda>slots. ret (Some slots))))
     (\<lambda>f. case f of Invalid e \<Rightarrow> if is_value_error e then ret None else fail f | _ \<Rightarrow> fail f))"

definition do_hotbar :: "bot_env \<Rightarrow> bot_command \<Rightarrow> command_result bot_action" where
  "do_hotbar v c =
     sbind (ask_with v ''hotbar'' c) (\<lambda>r. sbind (field r ''selectedHotbarSlot'') (\<lambda>slot. sbind (field r ''name'') (\<lambda>n.
     sbind (if op_params c = [] \<and> world_reply v \<noteq> None then known_slots v r else ret None) (\<lambda>slots.
     sbind (case slots of None \<Rightarrow> ret ([], [])
       | Some j \<Rightarrow> sbind (lifted (ebind (as_list j) hotbar_slots)) (\<lambda>js. sbind (lifted (emap slot_text js)) (\<lambda>ts.
           ret ([(''slots'', JArr js)], '': '' @ (if ts = [] then tr ''empty'' [] else join_with '', '' ts))))) (\<lambda>(extra, t).
     told (tr (if op_params c = [] then ''hotbar slot {slot}'' else ''hotbar slot {slot} selected'') [(''slot'', shown slot)] @ t) n
       (Some (JObj ([(''name'', n), (''selectedSlot'', slot)] @ extra))))))))"

definition do_swap :: "bot_env \<Rightarrow> bot_command \<Rightarrow> command_result bot_action" where
  "do_swap v c = sbind (ask_with v ''swap'' c) (\<lambda>r. sbind (field r ''name'') (\<lambda>n.
     said no_job ''swap {a} {b} requested'' n (map (\<lambda>(k, j). (k, shown j)) (op_params c))))"

definition do_hold :: "bot_env \<Rightarrow> bot_command \<Rightarrow> command_result bot_action" where
  "do_hold v c = sbind (ask_with v ''hold'' c) (\<lambda>r. sbind (field (op_params c) ''item'') (\<lambda>item. sbind (field r ''found'') (\<lambda>found.
     if \<not> truthy found then raise_error ''Item {item} was not found'' [(''item'', shown item)]
     else sbind (lifted (need_number r ''sourceSlot'')) (\<lambda>k. sbind (field r ''sourceSlot'') (\<lambda>source. sbind (field r ''selectedHotbarSlot'') (\<lambda>slot.
          sbind (field r ''name'') (\<lambda>n.
          if k \<le> 9 then said no_job ''hold {item}: selected hotbar {slot} requested'' n [(''item'', shown item), (''slot'', shown slot)]
          else said no_job ''hold {item}: moved slot {source} to hotbar {slot} requested'' n
            [(''item'', shown item), (''source'', shown source), (''slot'', shown slot)])))))))"

definition first_drop :: "params \<Rightarrow> failure + params option" where
  "first_drop r = (case map_of r ''drops'' of None \<Rightarrow> Inr None
     | Some j \<Rightarrow> if \<not> truthy j then Inr None else ebind (as_list j) (\<lambda>js. ebind (as_params (hd js)) (\<lambda>d. Inr (Some d))))"

definition do_drop :: "bot_env \<Rightarrow> bot_command \<Rightarrow> command_result bot_action" where
  "do_drop v c =
     sbind (ask_with v ''drop'' c) (\<lambda>r.
     sbind (lifted (as_text (dict_get (op_params c) ''selector'' (JStr ''selected'')))) (\<lambda>sel. sbind (field r ''name'') (\<lambda>n.
     if sel = ''all'' then sbind (field r ''droppedSlots'') (\<lambda>k. said no_job ''drop all requested for {slots} slots'' n [(''slots'', shown k)])
     else if starts_with ''minecraft:'' sel then
       sbind (field r ''droppedCount'') (\<lambda>k.
       if \<not> truthy k then raise_error ''No {item} in the inventory'' [(''item'', without_namespace sel)]
       else (case map_of (op_params c) ''count'' of
           Some asked \<Rightarrow> said no_job ''drop {item} x{count} requested (asked for {asked})'' n
             [(''item'', without_namespace sel), (''count'', shown k), (''asked'', shown asked)]
         | None \<Rightarrow> sbind (field r ''droppedSlots'') (\<lambda>ss. said no_job ''drop {item} x{count} requested from {slots} slots'' n
             [(''item'', without_namespace sel), (''count'', shown k), (''slots'', shown ss)])))
     else if sel \<noteq> ''selected'' then
       sbind (lifted (first_drop r)) (\<lambda>d. case d of
         None \<Rightarrow> said no_job ''drop slot {slot} requested; slot is empty'' n [(''slot'', sel)]
       | Some d \<Rightarrow> sbind (text_of d ''item'') (\<lambda>item. sbind (field d ''count'') (\<lambda>k.
           said no_job ''drop slot {slot} {item} x{count} requested'' n [(''slot'', sel), (''item'', without_namespace item), (''count'', shown k)])))
     else sbind (field (op_params c) ''stack'') (\<lambda>st. said no_job (if truthy st then ''drop stack requested'' else ''drop one item requested'') n []))))"

section \<open>Looking\<close>

definition turned_off :: "rat \<Rightarrow> rat \<Rightarrow> rat" where
  "turned_off a b = \<bar>wrap_angle (a - b + 180) - 180\<bar>"

definition look_timeout_ticks :: int where
  "look_timeout_ticks = 10"

text \<open>
  \<open>_await_look\<close>: every round sleeps a fortieth of a second and ten ticks are half a second, so after twenty rounds
  the deadline has passed; \<open>late\<close> says whether it already had.
\<close>

fun await_look :: "bot_env \<Rightarrow> json \<Rightarrow> rat \<Rightarrow> rat \<Rightarrow> nat \<Rightarrow> (rat \<times> rat) bot_action" where
  "await_look v i yaw pitch rounds =
     sbind (world v ''observe'' [i]) (\<lambda>j.
     if j = JNull then fail (Not_Observed ''Bot is not present in the world'' [])
     else sbind (lifted (as_params j)) (\<lambda>ob.
       sbind (lifted (need_number ob ''yaw'')) (\<lambda>y0. sbind (lifted (need_number ob ''pitch'')) (\<lambda>seen_pitch.
       let seen_yaw = wrap_angle y0 in
       if turned_off seen_yaw yaw \<le> 1 \<and> \<bar>seen_pitch - pitch\<bar> \<le> 1
       then ret (wrap_angle (round_to 3 seen_yaw), round_to 3 seen_pitch)
       else (\<lambda>s. if rounds = 0 \<or> late v (clock s)
          then (Inl (Look_Timeout ''look was not observed within {ticks} ticks'' [(''ticks'', show_int look_timeout_ticks)]), s)
          else await_look v i yaw pitch (rounds - 1) s)))))"

definition look_angles_for :: "bot_env \<Rightarrow> bot_command \<Rightarrow> (json \<times> json) bot_action" where
  "look_angles_for v c = (case map_of (op_params c) ''targetCoordinates'' of
     Some t \<Rightarrow> sbind (ask_status v c) (\<lambda>st. sbind (field st ''identityId'') (\<lambda>i.
       sbind (world v ''look_at'' [i, t]) (\<lambda>j. case j of JArr [y, q] \<Rightarrow> ret (y, q) | _ \<Rightarrow> fail (Crash ''look_at''))))
   | None \<Rightarrow> sbind (field (op_params c) ''yaw'') (\<lambda>y. sbind (field (op_params c) ''pitch'') (\<lambda>q. ret (y, q))))"

definition do_look :: "bot_env \<Rightarrow> bot_command \<Rightarrow> command_result bot_action" where
  "do_look v c =
     sbind (look_angles_for v c) (\<lambda>(jy, jp).
     sbind (ask_object v ''look'' [bot_param c, (''yaw'', jy), (''pitch'', jp)]) (\<lambda>r.
     sbind (lifted (number_in jy)) (\<lambda>yaw. sbind (lifted (number_in jp)) (\<lambda>pitch.
     sbind (if world_reply v = None then ret []
       else sbind (field r ''identityId'') (\<lambda>i. sbind (await_look v i yaw pitch 20) (\<lambda>(y, q).
         ret [(''look'', JObj [(''yaw'', JFloat (Finite y)), (''pitch'', JFloat (Finite q))])]))) (\<lambda>started.
     said started ''look set to yaw={yaw} pitch={pitch}'' (dict_get r ''name'' (snd (bot_param c)))
       [(''yaw'', fixed_text 1 yaw), (''pitch'', fixed_text 1 pitch)])))))"

section \<open>Moving and acting\<close>

definition job_started :: "bot_command \<Rightarrow> params \<Rightarrow> string \<Rightarrow> failure + params" where
  "job_started c r channel = ebind (input_job r channel) (\<lambda>job.
     Inr (if job = JNull then [] else [(''name'', dict_get r ''name'' (snd (bot_param c))), (''identityId'', get_json r ''identityId''),
       (''job'', JObj [(''kind'', JStr channel), (''id'', job)])]))"

definition do_move :: "bot_env \<Rightarrow> bot_command \<Rightarrow> command_result bot_action" where
  "do_move v c = sbind (ask_with v ''move'' c) (\<lambda>r. sbind (lifted (job_started c r ''move'')) (\<lambda>started.
     sbind (field (op_params c) ''direction'') (\<lambda>direction.
     let n = dict_get r ''name'' (snd (bot_param c)) in
     if direction = JStr ''stop'' then said started ''movement stopped'' n []
     else said started ''movement set to {direction}{duration}'' n [(''direction'', shown direction), (''duration'', for_suffix (op_params c))])))"

definition action_words :: "params \<Rightarrow> string \<Rightarrow> failure + string" where
  "action_words ps action = (case map_of ps ''target'' of
     None \<Rightarrow> Inr action | Some t \<Rightarrow> ebind (as_params t) (\<lambda>d. Inr (action @ '' '' @ selector_text d)))"

text \<open>The reply's template and the parameters it takes.\<close>

definition action_reply :: "params \<Rightarrow> string \<Rightarrow> failure + string \<times> (string \<times> string) list" where
  "action_reply ps mode = ebind (ebind (need ps ''action'') as_text) (\<lambda>plain. ebind (action_words ps plain) (\<lambda>action.
     let duration = for_suffix ps @ (case map_of ps ''count'' of None \<Rightarrow> [] | Some k \<Rightarrow> tr '' up to {count} times'' [(''count'', shown k)]);
         hold = (case map_of ps ''holdTicks'' of None \<Rightarrow> [] | Some k \<Rightarrow> tr '': hold {ticks} ticks, then release'' [(''ticks'', shown k)]) in
     if mode = ''stop'' then Inr (''{action} stopped'', [(''action'', action)])
     else if mode = ''interval'' then ebind (need ps ''intervalTicks'') (\<lambda>k. Inr (''{action} started every {interval} ticks{hold}{duration}'',
       [(''action'', action), (''interval'', shown k), (''hold'', hold), (''duration'', duration)]))
     else if mode = ''continuous'' \<and> hold \<noteq> [] then Inr (''{action} repeating{hold}{duration}'',
       [(''action'', action), (''hold'', hold), (''duration'', duration)])
     else if mode = ''continuous'' \<and> action = ''use'' \<and> ''durationTicks'' \<in> set (keys ps)
       then Inr (''{action} started for {ticks} ticks, then releases'', [(''action'', action), (''ticks'', shown (get_json ps ''durationTicks''))])
     else if mode = ''continuous'' then Inr (''{action} continuous started{duration}'', [(''action'', action), (''duration'', duration)])
     else Inr (''{action} once requested{hold}'', [(''action'', action), (''hold'', hold)])))"

definition do_action :: "bot_env \<Rightarrow> bot_command \<Rightarrow> command_result bot_action" where
  "do_action v c = sbind (ask_with v ''action'' c) (\<lambda>r. sbind (text_of (op_params c) ''action'') (\<lambda>channel.
     sbind (lifted (job_started c r channel)) (\<lambda>started. sbind (text_of (op_params c) ''mode'') (\<lambda>mode.
     sbind (lifted (action_reply (op_params c) mode)) (\<lambda>(template, ps).
     said started template (dict_get r ''name'' (snd (bot_param c))) ps)))))"

definition do_flag :: "bot_env \<Rightarrow> bot_command \<Rightarrow> command_result bot_action" where
  "do_flag v c = sbind (ask_with v ''flag'' c) (\<lambda>r. sbind (field (op_params c) ''value'') (\<lambda>on. sbind (field (op_params c) ''flag'') (\<lambda>flag.
     said no_job (if truthy on then ''{flag} on'' else ''{flag} off'') (dict_get r ''name'' (snd (bot_param c))) [(''flag'', shown flag)])))"

definition do_other :: "bot_env \<Rightarrow> bot_command \<Rightarrow> command_result bot_action" where
  "do_other v c = sbind (ask_with v (op_name c) c) (\<lambda>r.
     if op_name c = ''stop'' then said no_job ''movement and actions stopped (sprint/sneak off)'' (dict_get r ''name'' (snd (bot_param c))) []
     else plain_reply c r)"

section \<open>One command\<close>

definition check_owner :: "bot_env \<Rightarrow> principal \<Rightarrow> bot_command \<Rightarrow> unit bot_action" where
  "check_owner v p c = sbind (case get_json (op_params c) ''identityId'' of JNull \<Rightarrow> ret None
       | JStr i \<Rightarrow> ret (if i = [] then None else Some i) | j \<Rightarrow> fail (Crash ''identityId'')) (\<lambda>pinned.
     with_owners (\<lambda>store. guard_by v (owner_check store p (op_name c) (op_bot c) pinned)))"

text \<open>The operations behind the owner check, in the order of \<open>_execute\<close>.\<close>

definition perform :: "bot_env \<Rightarrow> principal \<Rightarrow> bot_command \<Rightarrow> command_result bot_action" where
  "perform v p c =
     (let op = op_name c in
      if op = ''ping'' then ret (result [reply ''pong'' None []] None)
      else if op = ''help'' then do_help c
      else if op = ''menu'' \<and> player_id p = None then console_menu c
      else if op = ''inventory'' then do_inventory v c
      else if op = ''visibility'' then do_visibility v p c
      else if op = ''owner'' then do_owner v p c
      else if op = ''menu'' then do_menu v c
      else if op = ''list'' then do_list v
      else if op = ''status'' then do_status v c
      else if op = ''spawn'' then do_spawn v p c
      else if op = ''teleport'' then do_teleport v c
      else if op = ''radius'' then do_radius v c
      else if op = ''destroy'' then do_destroy v p c
      else if op = ''entities'' then do_entities v c
      else if op = ''entity'' then do_entity v c
      else sbind (aim v c) (\<lambda>c.
        if (op = ''interact'' \<or> op = ''attack'') \<and> ''entity'' \<in> set (keys (op_params c)) then do_entity_action v c
        else if op = ''target'' \<or> op = ''block'' \<or> op = ''blocks'' then do_look_around v c
        else if op = ''dismount'' then do_dismount v c
        else if op = ''interact'' then do_interact v c
        else if op = ''hotbar'' then do_hotbar v c
        else if op = ''swap'' then do_swap v c
        else if op = ''hold'' then do_hold v c
        else if op = ''drop'' then do_drop v c
        else if op = ''look'' then do_look v c
        else if op = ''rename'' then do_rename v c
        else if op \<in> {''resume'', ''reconnect'', ''despawn'', ''forget''} then do_session v c
        else if op = ''move'' then do_move v c
        else if op = ''action'' then do_action v c
        else if op = ''flag'' then do_flag v c
        else do_other v c))"

definition execute_command :: "bot_env \<Rightarrow> principal \<Rightarrow> bot_command \<Rightarrow> command_result bot_action" where
  "execute_command v p c = sbind (check_owner v p c) (\<lambda>_. perform v p c)"

text \<open>The name an error reply is about, and its text: a command that parsed names its operation.\<close>

definition failed_operation :: "bot_command \<Rightarrow> string" where
  "failed_operation c = (if op_name c = ''action'' \<or> op_name c = ''flag'' then shown (get_json (op_params c) (op_name c)) else op_name c)"

definition error_reply :: "failure \<Rightarrow> bot_command option \<Rightarrow> string list \<Rightarrow> command_result" where
  "error_reply f c args =
     (let unnamed = (case tokens_of args of Inr ts \<Rightarrow> if length ts \<ge> 2 \<and> casefold (hd ts) \<noteq> ''help'' then Some (hd ts) else None | Inl e \<Rightarrow> None);
          (detail, who) = (case c of
             Some d \<Rightarrow> (case op_bot d of
                 Some n \<Rightarrow> if n = [] then (failure_text f, unnamed) else
                   (tr ''{operation} failed: {error}'' [(''operation'', failed_operation d), (''error'', failure_text f)], Some n)
               | None \<Rightarrow> (failure_text f, unnamed))
           | None \<Rightarrow> (failure_text f, unnamed)) in
      \<lparr>messages = [reply detail who error_colour], log_messages = [], accepted = False, res_code = error_code f, res_data = None\<rparr>)"

text \<open>\<open>execute\<close>; what is no \<open>RuntimeError\<close> or \<open>ValueError\<close> goes through.\<close>

definition execute :: "bot_env \<Rightarrow> bool \<Rightarrow> principal \<Rightarrow> string list \<Rightarrow> command_result bot_action" where
  "execute v typed p args =
     (case parse_command typed args of
        Inl e \<Rightarrow> if is_value_error e then ret (error_reply (Invalid e) None args) else fail (Invalid e)
      | Inr c \<Rightarrow> recover (execute_command v p c) (\<lambda>f. if caught f then ret (error_reply f (Some c) args) else fail f))"

end
