(* ===== verification/Bot_Laws.thy ===== *)
theory Bot_Laws
  imports Bot_Service Operations
begin

text \<open>
  What carrying out a command guarantees: the outcome code agrees with acceptance, a private Bot of somebody else is
  refused before anything else is asked or done, a full server starts no session, only the commands about owners
  change them, looking gives up after its rounds, and a started loop is recorded for the sender.
\<close>

section \<open>The typed entry\<close>

definition lifted_py :: "py_error + 'a \<Rightarrow> 'a bot_action" where
  "lifted_py r = lifted (case r of Inl e \<Rightarrow> Inl (Invalid e) | Inr x \<Rightarrow> Inr x)"

definition execute_operation :: "bot_env \<Rightarrow> table \<Rightarrow> principal \<Rightarrow> typed_operation \<Rightarrow> command_result bot_action" where
  "execute_operation v ops p o' = sbind (lifted_py (argv_of ops o')) (\<lambda>args. sbind (lifted_py (parse_command True args)) (\<lambda>c.
     sbind (if op_name c = ''help'' \<and> op_code o' \<noteq> ''help''
       then (case op_target o' of Some t \<Rightarrow> lifted (assert_not_reserved t) | None \<Rightarrow> fail (Crash ''casefold'')) else ret ()) (\<lambda>_.
     execute v True p args)))"

section \<open>Outcome codes\<close>

definition returns :: "('a \<Rightarrow> bool) \<Rightarrow> ('e, 's, 'a) effect \<Rightarrow> bool" where
  "returns Q m \<longleftrightarrow> (\<forall>s. case fst (m s) of Inr x \<Rightarrow> Q x | Inl e \<Rightarrow> True)"

lemma returns_sbind [intro!]: "(\<And>x. returns Q (f x)) \<Longrightarrow> returns Q (sbind m f)"
  unfolding returns_def sbind_def by (auto split: prod.split sum.split) (metis sum.case(2))

lemma returns_simple [simp, intro!]: "returns Q (fail e)" "Q x \<Longrightarrow> returns Q (ret x)" "returns Q (raise_error t ps)"
  by (simp_all add: returns_def raise_error_def)

lemma returns_if [intro!]: "(b \<Longrightarrow> returns Q m) \<Longrightarrow> (\<not> b \<Longrightarrow> returns Q k) \<Longrightarrow> returns Q (if b then m else k)"
  by simp

lemma returns_cases [intro!]:
  "(b = None \<Longrightarrow> returns Q m) \<Longrightarrow> (\<And>x. b = Some x \<Longrightarrow> returns Q (f x)) \<Longrightarrow> returns Q (case b of None \<Rightarrow> m | Some x \<Rightarrow> f x)"
  "(xs = [] \<Longrightarrow> returns Q m) \<Longrightarrow> (\<And>y ys. xs = y # ys \<Longrightarrow> returns Q (g y ys)) \<Longrightarrow> returns Q (case xs of [] \<Rightarrow> m | y # ys \<Rightarrow> g y ys)"
  by (cases b, simp_all, cases xs, simp_all)

lemma returns_with_owners [intro!]: "(\<And>st. returns Q (f st)) \<Longrightarrow> returns Q (with_owners f)"
  by (simp add: returns_def with_owners_def)

definition accepted_ok :: "command_result \<Rightarrow> bool" where
  "accepted_ok r \<longleftrightarrow> accepted r \<and> res_code r = ''ok''"

lemma returns_replies [simp, intro!]:
  "returns accepted_ok (said started t n ps)" "returns accepted_ok (told d n x)" "returns accepted_ok (logged started d n)"
  "accepted_ok (result ms y)"
  by (simp_all add: returns_def said_def told_def logged_def result_def accepted_ok_def)

lemma operations_ok:
  "returns accepted_ok (do_help c)" "returns accepted_ok (console_menu c)" "returns accepted_ok (do_inventory v c)"
  "returns accepted_ok (do_visibility v p c)" "returns accepted_ok (do_owner v p c)" "returns accepted_ok (do_menu v c)"
  "returns accepted_ok (do_list v)" "returns accepted_ok (do_status v c)" "returns accepted_ok (do_spawn v p c)"
  "returns accepted_ok (do_teleport v c)" "returns accepted_ok (do_radius v c)" "returns accepted_ok (do_destroy v p c)"
  "returns accepted_ok (do_entities v c)" "returns accepted_ok (do_entity v c)" "returns accepted_ok (do_entity_action v c)"
  "returns accepted_ok (do_look_around v c)" "returns accepted_ok (do_dismount v c)" "returns accepted_ok (do_interact v c)"
  "returns accepted_ok (do_hotbar v c)" "returns accepted_ok (do_swap v c)" "returns accepted_ok (do_hold v c)"
  "returns accepted_ok (do_drop v c)" "returns accepted_ok (do_look v c)" "returns accepted_ok (do_rename v c)"
  "returns accepted_ok (do_session v c)" "returns accepted_ok (do_move v c)" "returns accepted_ok (do_action v c)"
  "returns accepted_ok (do_flag v c)" "returns accepted_ok (do_other v c)"
  unfolding do_help_def console_menu_def do_inventory_def do_visibility_def do_owner_def do_menu_def do_list_def do_status_def
    do_spawn_def spawn_reply_def plain_reply_def do_teleport_def do_radius_def do_destroy_def do_entities_def do_entity_def do_entity_action_def
    do_look_around_def do_dismount_def do_interact_def do_hotbar_def do_swap_def do_hold_def do_drop_def do_look_def do_rename_def
    do_session_def do_move_def do_action_def do_flag_def do_other_def Let_def
  by (auto split: option.split list.split)

lemma perform_ok: "returns accepted_ok (perform v p c)"
  unfolding perform_def Let_def by (auto simp: operations_ok)

definition code_matches :: "(failure + command_result) \<Rightarrow> bool" where
  "code_matches r = (case r of Inr x \<Rightarrow> accepted x = (res_code x = ''ok'') | Inl e \<Rightarrow> True)"

text \<open>Whatever the command, the runtime and the world answer, the result of a command is marked accepted exactly when
  its outcome code is \<open>ok\<close>.\<close>

theorem command_code_agrees:
  "code_matches (fst (execute v typed p args s))"
proof -
  have err: "accepted (error_reply f c args) = (res_code (error_reply f c args) = ''ok'')" for f c
    by (simp add: error_reply_def Let_def error_code_not_ok split: prod.split)
  have run: "code_matches (fst (recover (execute_command v p c) (\<lambda>f. if caught f then ret (error_reply f (Some c) args) else fail f) s))" for c
  proof -
    have "returns accepted_ok (execute_command v p c)"
      unfolding execute_command_def using perform_ok by (rule returns_sbind)
    then have ok: "case fst (execute_command v p c s) of Inr x \<Rightarrow> accepted_ok x | Inl e \<Rightarrow> True"
      unfolding returns_def by (rule spec)
    obtain r t where r: "execute_command v p c s = (r, t)" by force
    show ?thesis
      using ok by (cases r) (simp_all add: r recover_def code_matches_def accepted_ok_def err)
  qed
  show ?thesis
  proof (cases "parse_command typed args")
    case (Inl e)
    then show ?thesis by (simp add: execute_def code_matches_def err)
  next
    case (Inr c)
    then show ?thesis using run by (simp add: execute_def)
  qed
qed

section \<open>What an operation leaves alone\<close>

lemma same_owners: "owners_now s = Some st \<Longrightarrow> s\<lparr>owners_now := Some st\<rparr> = s"
  by (cases s) simp

text \<open>
  An invariant that most operations keep: requests that \<open>asked\<close> allows, calls of the world and changes of the job
  table keep it, changes of the ownership store only where \<open>owners\<close> says so.
\<close>

locale service_kept =
  fixes I :: "bot_state \<Rightarrow> bool" and asked :: "string \<Rightarrow> bool" and owners :: bool
  assumes asked_kept: "asked m \<Longrightarrow> I s \<Longrightarrow> I (s\<lparr>clock := Suc (clock s), control_log := control_log s @ [(clock s, m, ps)]\<rparr>)"
    and world_kept: "I s \<Longrightarrow> I (s\<lparr>clock := Suc (clock s), world_log := world_log s @ [(clock s, m, xs)]\<rparr>)"
    and loops_kept: "I s \<Longrightarrow> I (s\<lparr>loops_now := t\<rparr>)"
    and owners_kept: "owners \<Longrightarrow> I s \<Longrightarrow> I (s\<lparr>owners_now := st\<rparr>)"
    and asked_most: "m \<notin> {''spawn'', ''resume'', ''reconnect''} \<Longrightarrow> asked m"
begin

lemma keeps_ask: "asked m \<Longrightarrow> keeps I (ask v m ps)"
  by (simp add: keeps_def ask_def asked_kept)

lemma keeps_asks [intro!]:
  "m \<notin> {''spawn'', ''resume'', ''reconnect''} \<Longrightarrow> keeps I (ask v m ps)"
  by (simp add: keeps_ask asked_most)

lemma keeps_world [intro!]: "keeps I (world v m xs)"
  by (auto simp: keeps_def world_def world_kept split: option.split)

lemma keeps_pure [intro!]: "keeps I (lifted r)" "keeps I (raise_error t ps)" "keeps I (in_world v)"
  "keeps I (field d k)" "keeps I (text_of d k)"
  by (auto simp: lifted_def raise_error_def in_world_def field_def text_of_def)

lemma keeps_on_owners: "owners \<Longrightarrow> keeps I (on_owners m d)"
  unfolding keeps_def on_owners_def by (auto simp: owners_kept split: option.split prod.split sum.split)

lemma keeps_read_owners [intro!]: "keeps I (on_owners (look f) d)"
  unfolding keeps_def on_owners_def
  by (auto simp: same_owners split: option.split sum.split)

lemma keeps_with_owners [intro!]: "(\<And>st. keeps I (f st)) \<Longrightarrow> keeps I (with_owners f)"
  by (simp add: keeps_def with_owners_def)

lemma keeps_recover [intro!]: "keeps I m \<Longrightarrow> (\<And>e. keeps I (h e)) \<Longrightarrow> keeps I (recover m h)"
  unfolding keeps_def recover_def by (auto split: prod.split sum.split)

lemma keeps_loops [intro!]: "keeps I (set_loops f)" "keeps I (watch c n i l p b a)"
  by (simp_all add: keeps_def set_loops_def watch_def loops_kept)

end

text \<open>Programs that only list the profiles.\<close>

primrec only_lists :: "'a prog \<Rightarrow> bool" where
  "only_lists (Done x) = True"
| "only_lists (Fail e) = True"
| "only_lists (Ask m ps k) = ((m = ''profiles'' \<or> m = ''list'') \<and> (\<forall>r. only_lists (k r)))"

lemma only_lists_bind [intro!]: "only_lists p \<Longrightarrow> (\<And>x. only_lists (f x)) \<Longrightarrow> only_lists (bind_prog p f)"
  by (induction p) simp_all

lemma only_lists_lift [simp, intro]: "only_lists (lift_error r)"
  by (cases r) simp_all

lemma only_lists_cases [intro!]:
  "(b = None \<Longrightarrow> only_lists p) \<Longrightarrow> (\<And>x. b = Some x \<Longrightarrow> only_lists (f x)) \<Longrightarrow> only_lists (case b of None \<Rightarrow> p | Some x \<Rightarrow> f x)"
  "(c \<Longrightarrow> only_lists p) \<Longrightarrow> (\<not> c \<Longrightarrow> only_lists q) \<Longrightarrow> only_lists (if c then p else q)"
  by (cases b) simp_all

lemma only_lists_profiles [simp, intro]: "only_lists bot_profiles"
  by (auto simp: bot_profiles_def return_profiles_def split: sum.split failure.split)

lemma only_lists_guards [simp, intro]:
  "only_lists (check_seat l cap n)" "only_lists (check_controller_limit l store p)"
  by (auto simp: check_seat_def check_controller_limit_def)

lemma only_lists_refusal [simp, intro]: "only_lists (refusal st p op n i)"
  by (auto simp: refusal_def Let_def)

lemma only_lists_owner_check [simp, intro]: "only_lists (owner_check store p op n pinned)"
  by (auto simp: owner_check_def)

context service_kept begin

lemma keeps_listing [intro!]: "only_lists p \<Longrightarrow> keeps I (guard_by v p)"
  unfolding guard_by_def
proof (induction p)
  case (Ask m ps k)
  then have "keeps I (ask v m ps)" "\<And>r. keeps I (run_prog (ask v) (k r))" by auto
  then show ?case by (auto simp: keeps_def split: prod.split)
qed (simp_all add: keeps_def)

lemma keeps_requests [intro!]:
  "keeps I (ask_status v c)"
  "m \<notin> {''spawn'', ''resume'', ''reconnect''} \<Longrightarrow> keeps I (ask_object v m ps)"
  "m \<notin> {''spawn'', ''resume'', ''reconnect''} \<Longrightarrow> keeps I (ask_with v m c)"
  by (auto simp: ask_status_def ask_object_def ask_with_def)

lemma keeps_started: "asked m \<Longrightarrow> keeps I (ask_object v m ps)" "asked m \<Longrightarrow> keeps I (ask_with v m c)"
  by (auto simp: ask_object_def ask_with_def intro!: keeps_ask)

lemma keeps_replies [intro!]:
  "keeps I (said started t n ps)" "keeps I (told d n x)" "keeps I (logged started d n)" "keeps I (world_object v m xs)"
  "keeps I (observe v i)" "keeps I (plain_reply c r)"
  by (auto simp: said_def told_def logged_def world_object_def observe_def plain_reply_def)

lemma keeps_choices [intro!]:
  "(b = None \<Longrightarrow> keeps I m) \<Longrightarrow> (\<And>x. b = Some x \<Longrightarrow> keeps I (f x)) \<Longrightarrow> keeps I (case b of None \<Rightarrow> m | Some x \<Rightarrow> f x)"
  "(xs = [] \<Longrightarrow> keeps I m) \<Longrightarrow> (\<And>y ys. xs = y # ys \<Longrightarrow> keeps I (g y ys)) \<Longrightarrow> keeps I (case xs of [] \<Rightarrow> m | y # ys \<Rightarrow> g y ys)"
  "(\<And>y z. keeps I (h y z)) \<Longrightarrow> keeps I (case q of (y, z) \<Rightarrow> h y z)"
  "(c \<Longrightarrow> keeps I m) \<Longrightarrow> (\<not> c \<Longrightarrow> keeps I k) \<Longrightarrow> keeps I (if c then m else k)"
  "(\<And>e. keeps I (a e)) \<Longrightarrow> (\<And>y. keeps I (d y)) \<Longrightarrow> keeps I (case r of Inl e \<Rightarrow> a e | Inr y \<Rightarrow> d y)"
  by (cases b; cases xs; cases q; cases r; simp)+

lemma keeps_binds [intro!]: "keeps I m \<Longrightarrow> (\<And>x. keeps I (f x)) \<Longrightarrow> keeps I (sbind m f)"
  by (rule keeps_sbind)

lemma keeps_reading:
  "keeps I (do_help c)" "keeps I (console_menu c)" "keeps I (do_inventory v c)" "keeps I (do_menu v c)" "keeps I (do_list v)"
  "keeps I (do_status v c)" "keeps I (do_radius v c)" "keeps I (do_entities v c)" "keeps I (do_entity v c)"
  by (auto simp: do_help_def console_menu_def do_inventory_def do_menu_def do_list_def do_status_def do_radius_def do_entities_def do_entity_def Let_def)

lemma keeps_areas [intro!]:
  "keeps I (resolve_area_for v i j)" "keeps I (reachable_block v i b a)"
  by (auto simp: resolve_area_for_def reachable_block_def)

lemma keeps_acting:
  "keeps I (do_entity_action v c)" "keeps I (do_dismount v c)" "keeps I (do_hotbar v c)" "keeps I (do_swap v c)" "keeps I (do_hold v c)"
  "keeps I (do_drop v c)" "keeps I (do_rename v c)" "keeps I (do_move v c)" "keeps I (do_action v c)" "keeps I (do_flag v c)"
  "keeps I (do_teleport v c)"
  by (auto simp: do_entity_action_def do_dismount_def do_hotbar_def do_swap_def do_hold_def known_slots_def do_drop_def do_rename_def
      do_move_def do_action_def do_flag_def do_teleport_def Let_def split: failure.split)

end

context service_kept begin

lemma keeps_destroy: "keeps I (do_destroy v p c)"
  unfolding do_destroy_def destroy_target_def Let_def
  by (rule keeps_binds | rule keeps_choices | rule keeps_areas keeps_loops keeps_replies keeps_requests keeps_pure | simp)+

lemma keeps_looking_around: "keeps I (do_look_around v c)"
  unfolding do_look_around_def look_around_def Let_def
  by (rule keeps_binds | rule keeps_choices | rule keeps_areas keeps_replies keeps_requests keeps_pure | rule keeps_world | simp)+

lemma keeps_aim: "keeps I (aim v c)"
  unfolding aim_def
  by (rule keeps_binds | rule keeps_choices | rule keeps_replies keeps_requests keeps_pure | simp)+

lemma keeps_interact: "keeps I (do_interact v c)"
  unfolding do_interact_def reach_for_def
  by (rule keeps_binds | rule keeps_choices | rule keeps_areas keeps_replies keeps_requests keeps_pure | simp)+

lemma keeps_late: "keeps I m \<Longrightarrow> keeps I (\<lambda>s. if c s then (Inl e, s) else m s)"
  by (simp add: keeps_def)

lemma keeps_awaiting: "keeps I (await_look v i yaw pitch n)"
proof (induction n)
  case 0
  show ?case
    unfolding await_look.simps [of v i yaw pitch 0] Let_def
    by (rule keeps_binds keeps_choices keeps_world keeps_pure keeps_fail keeps_ret | simp add: keeps_def)+
next
  case (Suc n)
  show ?case
    unfolding await_look.simps [of v i yaw pitch "Suc n"] Let_def diff_Suc_1
    by (rule keeps_binds keeps_choices keeps_world keeps_pure keeps_fail keeps_ret keeps_late Suc.IH)+
qed

lemma keeps_look_op: "keeps I (do_look v c)"
  unfolding do_look_def look_angles_for_def
  by (rule keeps_binds keeps_choices keeps_replies keeps_requests keeps_pure keeps_awaiting keeps_ret keeps_world | simp split: json.split list.split)+

end

definition owner_changing :: "string \<Rightarrow> bool" where
  "owner_changing op \<longleftrightarrow> op \<in> {''spawn'', ''visibility'', ''owner'', ''forget''}"

lemma aim_operation: "returns (\<lambda>d. op_name d = op_name c) (aim v c)"
  unfolding aim_def
  by (rule returns_sbind returns_if returns_cases returns_simple | simp)+

context service_kept begin

lemma keeps_returned: "keeps I m \<Longrightarrow> returns Q m \<Longrightarrow> (\<And>x. Q x \<Longrightarrow> keeps I (f x)) \<Longrightarrow> keeps I (sbind m f)"
  unfolding keeps_def returns_def sbind_def by (auto split: prod.split sum.split) (metis fst_conv snd_conv sum.case(2))

lemma keeps_owning: "owners \<Longrightarrow> keeps I (do_visibility v p c)" "owners \<Longrightarrow> keeps I (do_owner v p c)"
  unfolding do_visibility_def do_owner_def Let_def
  by (rule keeps_binds keeps_choices keeps_replies keeps_requests keeps_pure keeps_read_owners keeps_with_owners keeps_fail keeps_ret |
      erule keeps_on_owners)+

lemma keeps_profile: "keeps I (existing_profile v c)"
  unfolding existing_profile_def
  by (rule keeps_recover keeps_binds keeps_requests keeps_ret | simp split: failure.split)+

lemma keeps_admission: "keeps I (admit_spawn v p c known)" "keeps I (seat_check v n)"
  unfolding admit_spawn_def seat_check_def
  by (rule keeps_binds keeps_choices keeps_with_owners keeps_listing only_lists_guards keeps_pure keeps_ret)+

lemma keeps_spawn: "owners \<Longrightarrow> asked ''spawn'' \<Longrightarrow> keeps I (do_spawn v p c)"
  unfolding do_spawn_def spawn_reply_def Let_def
  by (rule keeps_profile keeps_admission keeps_binds keeps_choices keeps_replies keeps_with_owners keeps_pure keeps_ret keeps_world |
      erule keeps_on_owners keeps_started)+

lemma keeps_session_op: "(op_name c = ''forget'' \<Longrightarrow> owners) \<Longrightarrow> asked (op_name c) \<Longrightarrow> keeps I (do_session v c)"
  unfolding do_session_def
  by (rule keeps_binds keeps_choices keeps_replies keeps_requests(1) keeps_pure keeps_ret keeps_world keeps_admission |
      erule keeps_started | simp add: keeps_on_owners)+

lemma keeps_other: "asked (op_name c) \<Longrightarrow> keeps I (do_other v c)"
  unfolding do_other_def by (rule keeps_binds keeps_choices keeps_replies | erule keeps_started)+

lemma keeps_checking: "keeps I (check_owner v p c)"
  unfolding check_owner_def
  by (rule keeps_binds keeps_with_owners keeps_listing only_lists_owner_check | simp split: json.split)+

lemma keeps_performing:
  assumes "owner_changing (op_name c) \<Longrightarrow> owners" "asked (op_name c)"
  shows "keeps I (perform v p c)"
  unfolding perform_def Let_def
  using assms
  by (intro keeps_choices keeps_returned [OF keeps_aim aim_operation])
     (simp_all add: owner_changing_def keeps_reading keeps_acting keeps_destroy keeps_looking_around keeps_interact keeps_look_op
       keeps_owning keeps_spawn keeps_session_op keeps_other)

theorem keeps_executing:
  assumes "\<And>c. parse_command typed args = Inr c \<Longrightarrow> owner_changing (op_name c) \<Longrightarrow> owners"
    "\<And>c. parse_command typed args = Inr c \<Longrightarrow> asked (op_name c)"
  shows "keeps I (execute v typed p args)"
proof (cases "parse_command typed args")
  case (Inl e)
  then show ?thesis by (auto simp: execute_def)
next
  case (Inr c)
  then have "keeps I (execute_command v p c)"
    unfolding execute_command_def using assms by (intro keeps_binds keeps_checking keeps_performing)
  with Inr show ?thesis unfolding execute_def by (auto intro!: keeps_recover keeps_choices)
qed

end

section \<open>Owners\<close>

interpretation owners_stay: service_kept "\<lambda>s. owners_now s = st" "\<lambda>_. True" False for st
  by unfold_locales simp_all

text \<open>C16: A command changes nothing of who owns which Bot unless it spawns one, changes its visibility, hands it over or
  forgets it; that holds of commands that fail half way too, whatever the runtime and the world answer.\<close>

theorem only_owner_commands_change_owners:
  "(case parse_command typed args of Inl e \<Rightarrow> False | Inr c \<Rightarrow> owner_changing (op_name c)) \<or>
   owners_now (snd (execute v typed p args s)) = owners_now s"
proof (cases "case parse_command typed args of Inl e \<Rightarrow> False | Inr c \<Rightarrow> owner_changing (op_name c)")
  case False
  then have "keeps (\<lambda>t. owners_now t = owners_now s) (execute v typed p args)"
    by (intro owners_stay.keeps_executing) auto
  then show ?thesis by (auto dest: keepsD)
qed simp

section \<open>A full server\<close>

definition starting :: "nat \<times> string \<times> params \<Rightarrow> bool" where
  "starting x = (fst (snd x) \<in> {''spawn'', ''resume'', ''reconnect''})"

interpretation no_start: service_kept "\<lambda>s. filter starting (control_log s) = w" "\<lambda>m. m \<notin> {''spawn'', ''resume'', ''reconnect''}" True for w
  by unfold_locales (auto simp: starting_def)

text \<open>Every list of profiles the runtime gives has no seat left for the Bot, and none of its status answers has it connected.\<close>

definition server_full :: "bot_env \<Rightarrow> string \<Rightarrow> bool" where
  "server_full v n \<longleftrightarrow> limits_enabled (seat_limits v) \<and> (case seat_capacity v of None \<Rightarrow> False | Some cap \<Rightarrow>
     (\<forall>t m j ps. control_reply v t m [] = Inr j \<and> decode_profiles j = Inr ps \<longrightarrow> seat_decision (seat_limits v) cap n ps \<noteq> Inr ()))"

definition never_connected :: "bot_env \<Rightarrow> bool" where
  "never_connected v \<longleftrightarrow> (\<forall>t qs d. control_reply v t ''status'' qs = Inr (JObj d) \<longrightarrow> \<not> is_active d)"

lemma returnsI: "(\<And>s x t. m s = (Inr x, t) \<Longrightarrow> Q x) \<Longrightarrow> returns Q m"
  unfolding returns_def by (metis prod.collapse sum.case_eq_if sum.collapse(2))

lemma returnsD: "returns Q m \<Longrightarrow> m s = (Inr x, t) \<Longrightarrow> Q x"
  unfolding returns_def by (drule spec [of _ s]) simp

lemma lifted_returns: "run_prog h (lift_error r) s = (Inr x, t) \<longleftrightarrow> r = Inr x \<and> t = s"
  by (cases r) auto

lemma full_refuses: "server_full v n \<Longrightarrow> returns (\<lambda>_. False) (seat_check v n)"
proof (rule returnsI)
  fix s x t
  assume full: "server_full v n" and r: "seat_check v n s = (Inr x, t)"
  obtain cap where cap: "seat_capacity v = Some cap" "limits_enabled (seat_limits v)"
    using full by (auto simp: server_full_def split: option.splits)
  have none: "seat_decision (seat_limits v) cap n ps \<noteq> Inr ()"
    if "control_reply v u m [] = Inr j" "decode_profiles j = Inr ps" for u m j ps
    using full that cap by (auto simp: server_full_def)
  obtain ps u where ps: "run_prog (ask v) bot_profiles s = (Inr ps, u)" "seat_decision (seat_limits v) cap n ps = Inr ()"
    using r cap by (auto simp: seat_check_def guard_by_def check_seat_def run_bind lifted_returns split: prod.splits sum.splits)
  have "\<exists>u m j. control_reply v u m [] = Inr j \<and> decode_profiles j = Inr ps"
    using ps(1) by (auto simp: bot_profiles_def ask_def return_profiles_def split: sum.splits failure.splits if_splits)
  with none ps(2) show False by blast
qed

lemma status_offline: "never_connected v \<Longrightarrow> returns (\<lambda>d. \<not> is_active d) (ask_status v c)"
  by (rule returnsI)
    (auto simp: never_connected_def ask_status_def ask_object_def ask_def lifted_def sbind_def as_params_def split: prod.splits sum.splits json.splits)

lemma known_offline: "never_connected v \<Longrightarrow> returns (\<lambda>k. case k of None \<Rightarrow> True | Some d \<Rightarrow> \<not> is_active d) (existing_profile v c)"
proof (rule returnsI)
  fix s x t
  assume v: "never_connected v" and r: "existing_profile v c s = (Inr x, t)"
  obtain a u where a: "ask_status v c s = (a, u)" by force
  show "case x of None \<Rightarrow> True | Some d \<Rightarrow> \<not> is_active d"
    using r returnsD [OF status_offline [OF v], of c s _ u] a
    by (cases a) (auto simp: existing_profile_def recover_def sbind_def split: failure.splits if_splits option.splits)
qed

lemma full_keeps_out:
  assumes "server_full v (name_of c)" "never_connected v"
  shows "keeps (\<lambda>s. filter starting (control_log s) = w) (do_spawn v p c)"
    "op_name c \<in> {''resume'', ''reconnect''} \<Longrightarrow> keeps (\<lambda>s. filter starting (control_log s) = w) (do_session v c)"
proof -
  have out: "returns (\<lambda>_. False) (admit_spawn v p c k)" if "case k of None \<Rightarrow> True | Some d \<Rightarrow> \<not> is_active d" for k
    unfolding admit_spawn_def using that full_refuses [OF assms(1)]
    by (intro returns_sbind) (auto split: option.splits)
  show "keeps (\<lambda>s. filter starting (control_log s) = w) (do_spawn v p c)"
    unfolding do_spawn_def
    by (rule no_start.keeps_returned [OF no_start.keeps_profile known_offline [OF assms(2)]])
       (rule no_start.keeps_returned [OF no_start.keeps_admission(1) out]; simp)
  assume op: "op_name c \<in> {''resume'', ''reconnect''}"
  show "keeps (\<lambda>s. filter starting (control_log s) = w) (do_session v c)"
    unfolding do_session_def
  proof (rule no_start.keeps_returned [OF no_start.keeps_requests(1) status_offline [OF assms(2)]])
    fix st assume st: "\<not> is_active st"
    have stop: "keeps (\<lambda>s. filter starting (control_log s) = w)
        (sbind (if (op_name c = ''resume'' \<or> op_name c = ''reconnect'') \<and> \<not> is_active st then seat_check v (name_of c) else ret ()) f)" for f :: "unit \<Rightarrow> command_result bot_action"
    proof -
      have c: "(op_name c = ''resume'' \<or> op_name c = ''reconnect'') \<and> \<not> is_active st" using op st by auto
      show ?thesis
        unfolding if_P [OF c] by (rule no_start.keeps_returned [OF no_start.keeps_admission(2) full_refuses [OF assms(1)]]) simp
    qed
    show "keeps (\<lambda>s. filter starting (control_log s) = w)
        (sbind (text_of st ''identityId'') (\<lambda>i. sbind (world v ''clear_pending_placement'' [JStr i]) (\<lambda>_.
         sbind (if (op_name c = ''resume'' \<or> op_name c = ''reconnect'') \<and> \<not> is_active st then seat_check v (name_of c) else ret ()) (\<lambda>_.
         sbind (ask_with v (op_name c) c) (\<lambda>r.
         sbind (if op_name c = ''forget'' then on_owners (forget_owner ''bots'' i) () else ret ()) (\<lambda>_.
         if op_name c = ''forget'' then said no_job ''profile registration removed'' (dict_get r ''name'' (snd (bot_param c))) []
         else plain_reply c r))))))"
      by (rule no_start.keeps_binds no_start.keeps_pure no_start.keeps_world stop)+
  qed
qed

lemma full_performs:
  assumes "server_full v (name_of c)" "never_connected v"
  shows "keeps (\<lambda>s. filter starting (control_log s) = w) (perform v p c)"
proof (cases "op_name c \<in> {''spawn'', ''resume'', ''reconnect''}")
  case True
  then show ?thesis
  proof (elim insertE)
    assume op: "op_name c = ''spawn''"
    show ?thesis unfolding perform_def Let_def op by (simp add: full_keeps_out [OF assms])
  next
    assume op: "op_name c = ''resume''"
    have "keeps (\<lambda>s. filter starting (control_log s) = w) (do_session v c)" using full_keeps_out(2) [OF assms] op by simp
    then show ?thesis unfolding perform_def Let_def op by (simp add: aim_def op)
  next
    assume op: "op_name c = ''reconnect''"
    have "keeps (\<lambda>s. filter starting (control_log s) = w) (do_session v c)" using full_keeps_out(2) [OF assms] op by simp
    then show ?thesis unfolding perform_def Let_def op by (simp add: aim_def op)
  qed simp
qed (auto intro!: no_start.keeps_performing)

text \<open>C11: While the runtime lists no seat left for a Bot that is not connected, no command for it asks the runtime to
  start a session: neither spawning, resuming nor reconnecting it, nor any other.\<close>

theorem full_server_starts_no_session:
  assumes "parse_command typed args = Inr c" "server_full v (name_of c)" "never_connected v"
  shows "filter starting (control_log (snd (execute v typed p args s))) = filter starting (control_log s)"
proof -
  have "keeps (\<lambda>t. filter starting (control_log t) = filter starting (control_log s)) (execute_command v p c)"
    unfolding execute_command_def by (intro no_start.keeps_binds no_start.keeps_checking full_performs assms(2,3))
  then have "keeps (\<lambda>t. filter starting (control_log t) = filter starting (control_log s)) (execute v typed p args)"
    unfolding execute_def assms(1) by (auto intro!: no_start.keeps_recover no_start.keeps_choices)
  then show ?thesis by (auto dest: keepsD)
qed

definition two_profiles :: json where
  "two_profiles = JArr [JObj [(''identityId'', JStr ''a''), (''name'', JStr ''Ann''), (''connectionState'', JStr ''online'')],
     JObj [(''identityId'', JStr ''b''), (''name'', JStr ''Bob''), (''connectionState'', JStr ''offline'')]]"

definition bob_status :: params where
  "bob_status = [(''identityId'', JStr ''b''), (''name'', JStr ''Bob''), (''connectionState'', JStr ''offline'')]"

definition busy_env :: bot_env where
  "busy_env = \<lparr>control_reply = (\<lambda>t m ps. if m = ''profiles'' then Inr two_profiles else if m = ''status'' then Inr (JObj bob_status)
       else Inl (Control_Error ''unknown_method'' m)),
     world_reply = Some (\<lambda>t m xs. Inr JNull), seat_limits = default_limits, seat_capacity = Some (\<lambda>ids. (2, 0)),
     resolve_tag = (\<lambda>_. None), late = (\<lambda>_. False)\<rparr>"

definition calm :: bot_state where
  "calm = \<lparr>clock = 0, control_log = [], world_log = [], owners_now = None, loops_now = []\<rparr>"

definition resume_bob :: bot_command where
  "resume_bob = \<lparr>op_name = ''resume'', op_bot = Some ''Bob'', op_params = []\<rparr>"

lemma resume_bob_parses: "parse_command False [''Bob'', ''resume''] = Inr resume_bob"
  by code_simp

lemma two_decoded: "decode_profiles two_profiles = Inr [\<lparr>profile_id = ''a'', profile_name = ''Ann'', profile_state = ''online''\<rparr>,
    \<lparr>profile_id = ''b'', profile_name = ''Bob'', profile_state = ''offline''\<rparr>]"
  by code_simp

lemma busy_is_full: "server_full busy_env (name_of resume_bob)"
proof -
  have "seat_decision default_limits (\<lambda>ids. (2, 0)) ''Bob'' [\<lparr>profile_id = ''a'', profile_name = ''Ann'', profile_state = ''online''\<rparr>,
    \<lparr>profile_id = ''b'', profile_name = ''Bob'', profile_state = ''offline''\<rparr>] \<noteq> Inr ()"
    by code_simp
  moreover have "decode_profiles (JObj bob_status) = Inl (Crash ''profiles'')" "limits_enabled default_limits" by code_simp+
  ultimately show ?thesis
    by (auto simp: server_full_def busy_env_def resume_bob_def name_of_def two_decoded split: if_splits)
qed

lemma busy_never_connects: "never_connected busy_env"
proof -
  have "\<not> is_active bob_status" by code_simp
  then show ?thesis by (auto simp: never_connected_def busy_env_def)
qed

theorem full_server_starts_no_session_witness:
  "filter starting (control_log (snd (execute busy_env False alex [''Bob'', ''resume''] calm))) = filter starting (control_log calm)"
  by (rule full_server_starts_no_session [OF resume_bob_parses busy_is_full busy_never_connects])

section \<open>Another's private Bot\<close>

lemma owned_has_entries:
  assumes "get_owner ''bots'' i st = Inr (Some e)"
  shows "has_entries ''bots'' st = Inr True"
proof -
  obtain k j where k: "item_kind ''bots'' = Inr k" "find_owner k j (tables st) = Some e"
    using assms by (cases "item_kind ''bots''"; cases "item_identity i") (auto simp: get_owner_def)
  then have "table k (tables st) \<noteq> []" by (auto simp: find_owner_def)
  with k show ?thesis by (simp add: has_entries_def)
qed

lemma private_is_refused:
  assumes "get_owner ''bots'' i st = Inr (Some e)" "visibility e \<noteq> ''shared''" "owner_key p \<noteq> None" "owner_key p \<noteq> Some (owner e)"
  shows "\<exists>t ps. refusal st p op n i = Fail (Refused t ps)"
  using assms by (auto simp: refusal_def visible_to_def Let_def)

lemma check_refuses:
  assumes "op_name c \<notin> unowned_operations" "op_name c \<noteq> ''owner''" "op_bot c = Some n" "get_json (op_params c) ''identityId'' = JNull"
    and "owners_now s = Some st" "control_reply v (clock s) ''profiles'' [] = Inr j" "decode_profiles j = Inr ps"
    and "find (\<lambda>b. profile_id b \<noteq> [] \<and> casefold (profile_name b) = casefold n) ps = Some b"
    and "get_owner ''bots'' (profile_id b) st = Inr (Some e)" "visibility e \<noteq> ''shared''"
    and "owner_key p \<noteq> None" "owner_key p \<noteq> Some (owner e)"
  shows "\<exists>t us. check_owner v p c s =
    (Inl (Refused t us), s\<lparr>clock := Suc (clock s), control_log := control_log s @ [(clock s, ''profiles'', [])]\<rparr>)"
proof -
  obtain t us where r: "refusal st p (op_name c) n (profile_id b) = Fail (Refused t us)"
    using private_is_refused [OF assms(9-12)] by blast
  have "owner_check (Some st) p (op_name c) (Some n) None = bind_prog bot_profiles (\<lambda>ps.
      case find (\<lambda>b. profile_id b \<noteq> [] \<and> casefold (profile_name b) = casefold n) ps of
        None \<Rightarrow> Done () | Some b \<Rightarrow> refusal st p (op_name c) n (profile_id b))"
    using assms(1,2,11) by (auto simp: owner_check_def owned_has_entries [OF assms(9)])
  then show ?thesis
    using assms(4-8) r
    by (simp add: check_owner_def with_owners_def guard_by_def assms(3) run_bind bot_profiles_def ask_def return_profiles_def)
qed

text \<open>C5: A command of a player for a private Bot of somebody else is refused as \<open>unauthorized\<close> after one request, the
  list of profiles: the world is not asked, nothing else is asked of the runtime, no owner and no job changes.\<close>

theorem private_bot_is_out_of_reach:
  assumes "parse_command typed args = Inr c" "op_name c \<notin> unowned_operations" "op_name c \<noteq> ''owner''"
    and "op_bot c = Some n" "get_json (op_params c) ''identityId'' = JNull" "owners_now s = Some st"
    and "control_reply v (clock s) ''profiles'' [] = Inr j" "decode_profiles j = Inr ps"
    and "find (\<lambda>b. profile_id b \<noteq> [] \<and> casefold (profile_name b) = casefold n) ps = Some b"
    and "get_owner ''bots'' (profile_id b) st = Inr (Some e)" "visibility e \<noteq> ''shared''"
    and "owner_key p \<noteq> None" "owner_key p \<noteq> Some (owner e)"
  shows "\<exists>r. execute v typed p args s =
      (Inr r, s\<lparr>clock := Suc (clock s), control_log := control_log s @ [(clock s, ''profiles'', [])]\<rparr>) \<and>
    \<not> accepted r \<and> res_code r = ''unauthorized''"
proof -
  obtain t us where "check_owner v p c s =
      (Inl (Refused t us), s\<lparr>clock := Suc (clock s), control_log := control_log s @ [(clock s, ''profiles'', [])]\<rparr>)"
    using check_refuses [OF assms(2-)] by blast
  then show ?thesis
    by (simp add: execute_def assms(1) execute_command_def sbind_def recover_def error_reply_def error_code_def Let_def split: prod.split)
qed

definition example_profiles :: json where
  "example_profiles = JArr [JObj [(''identityId'', JStr example_item), (''name'', JStr ''Ann''), (''connectionState'', JStr ''online'')]]"

definition stranger :: principal where
  "stranger = principal_of Player\<lparr>p_xuid := Some ''9''\<rparr>"

definition owned_world :: bot_state where
  "owned_world = calm\<lparr>owners_now := Some (snd (record_owner ''bots'' example_item alex empty_owners))\<rparr>"

theorem private_bot_is_out_of_reach_witness:
  "\<exists>r. execute (busy_env\<lparr>control_reply := \<lambda>t m ps. Inr example_profiles\<rparr>) False stranger [''ann'', ''forget''] owned_world =
      (Inr r, owned_world\<lparr>clock := 1, control_log := [(0, ''profiles'', [])]\<rparr>) \<and> \<not> accepted r \<and> res_code r = ''unauthorized''"
proof -
  let ?e = "\<lparr>owner = ''xuid:77'', owner_name = Some ''Alex'', visibility = ''private''\<rparr>"
  let ?b = "\<lparr>profile_id = example_item, profile_name = ''Ann'', profile_state = ''online''\<rparr>"
  have p: "parse_command False [''ann'', ''forget''] = Inr \<lparr>op_name = ''forget'', op_bot = Some ''ann'', op_params = []\<rparr>" by code_simp
  have d: "decode_profiles example_profiles = Inr [?b]" by code_simp
  have f: "find (\<lambda>b. profile_id b \<noteq> [] \<and> casefold (profile_name b) = casefold ''ann'') [?b] = Some ?b" by code_simp
  have o': "get_owner ''bots'' (profile_id ?b) (snd (record_owner ''bots'' example_item alex empty_owners)) = Inr (Some ?e)" by code_simp
  from private_bot_is_out_of_reach [OF p _ _ _ _ _ _ d f o', where s = owned_world and v = "busy_env\<lparr>control_reply := \<lambda>t m ps. Inr example_profiles\<rparr>" and p = stranger]
  show ?thesis
    by (simp add: unowned_operations_def get_json_def dict_get_def owned_world_def calm_def stranger_def owner_key_def principal_of_def)
qed

section \<open>Looking gives up\<close>

definition world_calls :: "nat \<Rightarrow> 'a bot_action \<Rightarrow> bool" where
  "world_calls n m \<longleftrightarrow> (\<forall>s. length (world_log (snd (m s))) \<le> length (world_log s) + n)"

lemma world_calls_sbind: "world_calls a m \<Longrightarrow> (\<And>x. world_calls b (f x)) \<Longrightarrow> world_calls (a + b) (sbind m f)"
  unfolding world_calls_def
proof (intro allI)
  fix s
  assume m: "\<forall>s. length (world_log (snd (m s))) \<le> length (world_log s) + a"
    and f: "\<And>x. \<forall>s. length (world_log (snd (f x s))) \<le> length (world_log s) + b"
  obtain r t where r: "m s = (r, t)" by force
  have "length (world_log t) \<le> length (world_log s) + a" using m [rule_format, of s] r by simp
  moreover have "length (world_log (snd (f x t))) \<le> length (world_log t) + b" for x using f by blast
  ultimately show "length (world_log (snd (sbind m f s))) \<le> length (world_log s) + (a + b)"
    by (cases r) (auto simp: sbind_def r intro: order_trans, metis add.assoc add_le_mono1 order_trans)
qed

lemma world_calls_sbind0: "world_calls 0 m \<Longrightarrow> (\<And>x. world_calls b (f x)) \<Longrightarrow> world_calls b (sbind m f)"
  using world_calls_sbind [of 0 m b f] by simp

lemma world_calls_simple:
  "world_calls n (fail e)" "world_calls n (ret x)" "world_calls n (lifted r)" "world_calls n (field d k)"
  "world_calls n (text_of d k)" "world_calls n (said started t who us)" "world_calls 1 (world v m xs)"
  "world_calls n (ask_status v c)" "world_calls n (ask_object v m ps)"
  by (auto simp: world_calls_def lifted_def field_def text_of_def said_def world_def ask_status_def ask_object_def ask_def sbind_def
      split: option.split prod.split sum.split)

lemma world_calls_cases:
  "(b \<Longrightarrow> world_calls n m) \<Longrightarrow> (\<not> b \<Longrightarrow> world_calls n k) \<Longrightarrow> world_calls n (if b then m else k)"
  "(\<And>y z. world_calls n (h y z)) \<Longrightarrow> world_calls n (case q of (y, z) \<Rightarrow> h y z)"
  by (simp, cases q, simp)

lemma world_calls_late: "world_calls n m \<Longrightarrow> world_calls n (\<lambda>s. if c s then (Inl e, s) else m s)"
  by (simp add: world_calls_def)

lemma await_calls: "world_calls (Suc n) (await_look v i yaw pitch n)"
proof (induction n)
  case 0
  have "world_calls (1 + 0) (await_look v i yaw pitch 0)"
    unfolding await_look.simps [of v i yaw pitch 0] Let_def
    by (rule world_calls_sbind world_calls_cases world_calls_simple world_calls_sbind0 | simp add: world_calls_def)+
  then show ?case by simp
next
  case (Suc n)
  have "world_calls (1 + Suc n) (await_look v i yaw pitch (Suc n))"
    unfolding await_look.simps [of v i yaw pitch "Suc n"] Let_def diff_Suc_1
    by (rule world_calls_sbind, rule world_calls_simple)
       (rule world_calls_cases world_calls_sbind0 world_calls_simple world_calls_late Suc.IH)+
  then show ?case by simp
qed

lemma angles_calls: "world_calls 1 (look_angles_for v c)"
proof -
  have pair: "world_calls 0 (case j of JArr [y, q] \<Rightarrow> ret (y, q) | _ \<Rightarrow> fail (Crash ''look_at''))" for j
    by (auto intro: world_calls_simple split: json.split list.split)
  have step: "world_calls (1 + 0) (sbind (world v ''look_at'' xs) (\<lambda>j. case j of JArr [y, q] \<Rightarrow> ret (y, q) | _ \<Rightarrow> fail (Crash ''look_at'')))" for xs
    by (rule world_calls_sbind [OF world_calls_simple(7) pair])
  then show ?thesis
    unfolding look_angles_for_def
    by (cases "map_of (op_params c) ''targetCoordinates''")
       (simp, (rule world_calls_sbind0 world_calls_simple)+, simp, rule world_calls_sbind0, rule world_calls_simple,
        rule world_calls_sbind0, rule world_calls_simple, rule step [simplified])
qed

text \<open>A look asks the world at most twenty-two times, however often the Bot is seen turned elsewhere and whether or
  not the deadline is ever seen to pass.\<close>

theorem looking_is_bounded:
  "length (world_log (snd (do_look v c s))) \<le> length (world_log s) + 22"
proof -
  have aimed: "world_calls 21 (sbind (await_look v i yaw pitch 20) (\<lambda>(y, q).
      ret [(''look'', JObj [(''yaw'', JFloat (Finite y)), (''pitch'', JFloat (Finite q))])]))" for i yaw pitch
  proof -
    have "world_calls (Suc 20 + 0) (sbind (await_look v i yaw pitch 20) (\<lambda>(y, q).
        ret [(''look'', JObj [(''yaw'', JFloat (Finite y)), (''pitch'', JFloat (Finite q))])]))"
      by (rule world_calls_sbind [OF await_calls]) (rule world_calls_cases world_calls_simple)+
    then show ?thesis by simp
  qed
  have "world_calls (1 + 21) (do_look v c)"
    unfolding do_look_def
  proof (rule world_calls_sbind [OF angles_calls], rule world_calls_cases)
    fix jy jp
    have wait0: "world_calls (21 + 0) (sbind (if world_reply v = None then ret []
         else sbind (field r ''identityId'') (\<lambda>i. sbind (await_look v i yaw pitch 20) (\<lambda>(y, q).
           ret [(''look'', JObj [(''yaw'', JFloat (Finite y)), (''pitch'', JFloat (Finite q))])])))
         (\<lambda>started. said started t who us))" for r yaw pitch t who us
      by (rule world_calls_sbind) (rule world_calls_cases world_calls_sbind0 world_calls_simple aimed)+
    have wait: "world_calls 21 (sbind (if world_reply v = None then ret []
         else sbind (field r ''identityId'') (\<lambda>i. sbind (await_look v i yaw pitch 20) (\<lambda>(y, q).
           ret [(''look'', JObj [(''yaw'', JFloat (Finite y)), (''pitch'', JFloat (Finite q))])])))
         (\<lambda>started. said started t who us))" for r yaw pitch t who us
      using wait0 by simp
    show "world_calls 21 (sbind (ask_object v ''look'' [bot_param c, (''yaw'', jy), (''pitch'', jp)]) (\<lambda>r.
       sbind (lifted (number_in jy)) (\<lambda>yaw. sbind (lifted (number_in jp)) (\<lambda>pitch.
       sbind (if world_reply v = None then ret []
         else sbind (field r ''identityId'') (\<lambda>i. sbind (await_look v i yaw pitch 20) (\<lambda>(y, q).
           ret [(''look'', JObj [(''yaw'', JFloat (Finite y)), (''pitch'', JFloat (Finite q))])]))) (\<lambda>started.
       said started ''look set to yaw={yaw} pitch={pitch}'' (dict_get r ''name'' (snd (bot_param c)))
         [(''yaw'', fixed_text 1 yaw), (''pitch'', fixed_text 1 pitch)]))))) "
      by (rule world_calls_sbind0 [OF world_calls_simple(9)], rule world_calls_sbind0 [OF world_calls_simple(3)],
          rule world_calls_sbind0 [OF world_calls_simple(3)], rule wait)
  qed
  then show ?thesis by (simp add: world_calls_def)
qed

section \<open>The record of a block breaking job\<close>

text \<open>What an operation does to the job table, from a table to a table.\<close>

definition jobs :: "(job_table \<Rightarrow> bool) \<Rightarrow> 'a bot_action \<Rightarrow> (job_table \<Rightarrow> bool) \<Rightarrow> bool" where
  "jobs P m Q \<longleftrightarrow> triple (\<lambda>_. True) (\<lambda>s. P (loops_now s)) m (\<lambda>_ s. Q (loops_now s))"

lemma jobs_sbind: "jobs P m Q \<Longrightarrow> (\<And>x. jobs Q (f x) R) \<Longrightarrow> jobs P (sbind m f) R"
  unfolding jobs_def by (rule triple_sbind)

lemma jobs_if: "(b \<Longrightarrow> jobs P m Q) \<Longrightarrow> (\<not> b \<Longrightarrow> jobs P m' Q) \<Longrightarrow> jobs P (if b then m else m') Q"
  by simp

lemma jobs_same:
  "jobs P (lifted r) P" "jobs P (field d k) P" "jobs P (text_of d k) P" "jobs P (said started w who us) P"
  "jobs P (logged started w who) P" "jobs P (world v m xs) P" "jobs P (ask_status v c) P" "jobs P (ask_object v m ps) P"
  "jobs P (in_world v) P" "jobs P (world_object v m xs) P" "jobs P (ret x) P" "jobs P (fail e) P"
  by (auto simp: jobs_def triple_def lifted_def field_def text_of_def said_def logged_def world_def world_object_def in_world_def
      ask_status_def ask_object_def ask_def sbind_def split: option.split prod.split sum.split)

lemma jobs_target: "jobs P (destroy_target v c) P"
proof -
  have area: "jobs P (resolve_area_for v i j) P" for i j
    unfolding resolve_area_for_def
    by (rule jobs_sbind, rule jobs_same, rule jobs_if, rule jobs_sbind, (rule jobs_same)+) (auto simp: jobs_same split: sum.split)
  show ?thesis
    unfolding destroy_target_def reachable_block_def Let_def
    by (rule jobs_if | rule jobs_same area | rule jobs_sbind)+
qed

lemma jobs_changed:
  "jobs P (set_loops f) (\<lambda>t. \<exists>u. P u \<and> t = f u)"
  "jobs P (watch c n i l p b a) (\<lambda>t. \<exists>u job. P u \<and> job_source job = as_job p \<and> t = dict_set (casefold (name_of c)) job u)"
  by (auto simp: jobs_def triple_def set_loops_def watch_def) (metis mining_job.select_convs(5))

lemma jobs_weaken: "jobs P m Q \<Longrightarrow> (\<And>t. Q t \<Longrightarrow> R t) \<Longrightarrow> jobs P m R"
  unfolding jobs_def by (rule triple_mono)

lemma destroy_jobs:
  "jobs (\<lambda>t. t = u) (do_destroy v p c) (\<lambda>t. if get_json (op_params c) ''mode'' = JStr ''stop'' then t = dict_pop (casefold (name_of c)) u
     else \<exists>job. job_source job = as_job p \<and> t = dict_set (casefold (name_of c)) job (dict_pop (casefold (name_of c)) u))"
proof -
  let ?k = "casefold (name_of c)" and ?mode = "get_json (op_params c) ''mode''"
  let ?Q = "\<lambda>t. if ?mode = JStr ''stop'' then t = dict_pop ?k u
     else \<exists>job. job_source job = as_job p \<and> t = dict_set ?k job (dict_pop ?k u)"
  show ?thesis
    unfolding do_destroy_def Let_def split_beta
  proof (rule jobs_sbind [OF jobs_target], rule jobs_sbind [OF jobs_same(8)], rule jobs_sbind [OF jobs_changed(1)],
      rule jobs_if, goal_cases)
    case (1 x r y)
    show ?case
      by (rule jobs_weaken, (rule jobs_same jobs_changed(2) | rule jobs_sbind)+) (use 1 in auto)
  next
    case (2 x r y)
    show ?case
      by (rule jobs_if; rule jobs_weaken, (rule jobs_same jobs_changed(2) | rule jobs_sbind)+) (use 2 in auto)
  qed
qed

text \<open>A block breaking command that succeeds is recorded as its sender's: after a stop no job of that Bot's name is
  left, after a start there is one that acts for the sender as jobs do, and the jobs of other names are as they were.\<close>

theorem destroy_records_the_sender:
  "case do_destroy v p c s of (Inl e, t) \<Rightarrow> True | (Inr r, t) \<Rightarrow>
     map_of (loops_now t) |` (- {casefold (name_of c)}) = map_of (loops_now s) |` (- {casefold (name_of c)}) \<and>
     map_option job_source (map_of (loops_now t) (casefold (name_of c))) =
       (if get_json (op_params c) ''mode'' = JStr ''stop'' then None else Some (as_job p))"
proof -
  obtain r t where d: "do_destroy v p c s = (r, t)" by force
  show ?thesis
  proof (cases r)
    case (Inr x)
    have "if get_json (op_params c) ''mode'' = JStr ''stop'' then loops_now t = dict_pop (casefold (name_of c)) (loops_now s)
      else \<exists>job. job_source job = as_job p \<and> loops_now t = dict_set (casefold (name_of c)) job (dict_pop (casefold (name_of c)) (loops_now s))"
      using tripleD(1) [OF destroy_jobs [of "loops_now s" v p c, unfolded jobs_def], of s x t] d Inr by simp
    then show ?thesis
      by (auto simp: d Inr restrict_map_def fun_eq_iff split: if_splits)
  qed (simp add: d)
qed

end
