(* ===== verification/Run_Journal.thy ===== *)
theory Run_Journal
  imports Json_Store Effects
begin

text \<open>
  The run journal, \<open>endbotd/journal.py\<close>: one atomic file of the script runs alive now, read once after an unclean
  exit. The file is what the program sees of it: missing, unreadable, or so many bytes that are a JSON document or
  are not. \<open>dumps_size\<close> is the number of bytes \<open>json.dumps\<close> writes. Log lines are kept without their text.
\<close>

definition max_runs :: nat where
  "max_runs = 64"

definition max_channels :: nat where
  "max_channels = 256"

definition max_text :: nat where
  "max_text = 128"

definition max_bytes :: nat where
  "max_bytes = 1024 * 1024"

definition journal_channels :: "string list" where
  "journal_channels = [''move'', ''jump'', ''attack'', ''use'', ''sprint'', ''sneak'', ''mine'']"

section \<open>Entries\<close>

record run_channel =
  rc_identity :: string
  rc_channel :: string
  rc_name :: "string option"
  rc_loop :: "string option"

record run_owner =
  ro_player :: "string option"
  ro_xuid :: "string option"
  ro_name :: "string option"
  ro_language :: string

record journal_run =
  jr_id :: string
  jr_name :: string
  jr_owner :: run_owner
  jr_channels :: "run_channel list"

text \<open>\<open>value[:MAX_TEXT] if isinstance(value, str) and value else None\<close>.\<close>

fun bounded_text :: "json \<Rightarrow> string option" where
  "bounded_text (JStr s) = (if s = [] then None else Some (take max_text s))"
| "bounded_text _ = None"

definition item :: "(string, json) dict \<Rightarrow> string \<Rightarrow> json" where
  "item d k = dict_get d k JNull"

text \<open>\<open>value in {...}\<close>: a list or an object has no hash, which is a \<open>TypeError\<close>.\<close>

fun among :: "json \<Rightarrow> string list \<Rightarrow> py_error + bool" where
  "among (JArr _) xs = Inl (TypeError ''unhashable type: list'')"
| "among (JObj _) xs = Inl (TypeError ''unhashable type: dict'')"
| "among (JStr s) xs = Inr (s \<in> set xs)"
| "among _ xs = Inr False"

fun read_channel :: "json \<Rightarrow> py_error + run_channel option" where
  "read_channel (JObj d) = (case bounded_text (item d ''identityId'') of
     None \<Rightarrow> Inr None
   | Some i \<Rightarrow> ebind (among (item d ''channel'') journal_channels) (\<lambda>known.
       if \<not> known then Inr None
       else Inr (Some \<lparr>rc_identity = i, rc_channel = (case item d ''channel'' of JStr s \<Rightarrow> s | _ \<Rightarrow> []),
              rc_name = bounded_text (item d ''name''), rc_loop = bounded_text (item d ''loopId'')\<rparr>)))"
| "read_channel _ = Inr None"

definition read_owner :: "json \<Rightarrow> py_error + run_owner" where
  "read_owner j = (let d = (case j of JObj d \<Rightarrow> d | _ \<Rightarrow> []) in
     ebind (among (item d ''language'') [''en'', ''ja'']) (\<lambda>known.
       Inr \<lparr>ro_player = bounded_text (item d ''playerId''), ro_xuid = bounded_text (item d ''xuid''),
         ro_name = bounded_text (item d ''name''),
         ro_language = (if known then (case item d ''language'' of JStr s \<Rightarrow> s | _ \<Rightarrow> []) else ''en'')\<rparr>))"

definition present_only :: "'a option list \<Rightarrow> 'a list" where
  "present_only xs = map the (filter (\<lambda>x. x \<noteq> None) xs)"

fun read_run :: "json \<Rightarrow> py_error + journal_run option" where
  "read_run (JObj d) = (case (bounded_text (item d ''run''), bounded_text (item d ''name'')) of
     (Some i, Some n) \<Rightarrow>
       ebind (emap read_channel (case item d ''channels'' of JArr js \<Rightarrow> take max_channels js | _ \<Rightarrow> [])) (\<lambda>cs.
       ebind (read_owner (item d ''owner'')) (\<lambda>who.
         Inr (Some \<lparr>jr_id = i, jr_name = n, jr_owner = who, jr_channels = present_only cs\<rparr>)))
   | _ \<Rightarrow> Inr None)"
| "read_run _ = Inr None"

definition read_runs :: "json list \<Rightarrow> py_error + journal_run list" where
  "read_runs js = ebind (emap read_run (take max_runs js)) (\<lambda>rs. Inr (present_only rs))"

section \<open>What is written\<close>

definition channel_json :: "run_channel \<Rightarrow> json" where
  "channel_json c = JObj [(''channel'', JStr (rc_channel c)), (''identityId'', JStr (rc_identity c)),
     (''loopId'', str_or_null (rc_loop c)), (''name'', str_or_null (rc_name c))]"

definition owner_json :: "run_owner \<Rightarrow> json" where
  "owner_json w = JObj [(''language'', JStr (ro_language w)), (''name'', str_or_null (ro_name w)),
     (''playerId'', str_or_null (ro_player w)), (''xuid'', str_or_null (ro_xuid w))]"

definition run_json :: "journal_run \<Rightarrow> json" where
  "run_json r = JObj [(''channels'', JArr (map channel_json (jr_channels r))), (''name'', JStr (jr_name r)),
     (''owner'', owner_json (jr_owner r)), (''run'', JStr (jr_id r))]"

definition journal_document :: "journal_run list \<Rightarrow> json" where
  "journal_document rs = JObj [(''runs'', JArr (map run_json rs)), (''version'', JInt 1)]"

text \<open>Bytes of \<open>json.dumps\<close>: what is not ASCII is written as an escape. A journal holds no floats.\<close>

definition escaped_size :: "char \<Rightarrow> nat" where
  "escaped_size c = (if c \<in> {CHR 0x22, CHR 0x5C, CHR 0x08, CHR 0x09, CHR 0x0A, CHR 0x0C, CHR 0x0D} then 2
     else if code c < 32 \<or> code c > 127 then 6 else 1)"

definition text_size :: "string \<Rightarrow> nat" where
  "text_size s = 2 + sum_list (map escaped_size s)"

definition listed_size :: "nat list \<Rightarrow> nat" where
  "listed_size ns = 2 + sum_list ns + 2 * (length ns - 1)"

fun dumps_size :: "json \<Rightarrow> nat" where
  "dumps_size JNull = 4"
| "dumps_size (JBool b) = (if b then 4 else 5)"
| "dumps_size (JInt i) = length (show_int i)"
| "dumps_size (JFloat _) = 0"
| "dumps_size (JStr s) = text_size s"
| "dumps_size (JArr js) = listed_size (map dumps_size js)"
| "dumps_size (JObj d) = listed_size (map (\<lambda>(k, j). text_size k + 2 + dumps_size j) d)"

section \<open>The journal\<close>

datatype journal_file = Missing | Unreadable | Holds nat "json option"

record run_journal =
  journal_file :: journal_file
  journal_writes :: "bool list"
  warnings :: nat
  written :: "journal_run list option"
  failing :: bool
  closed_journal :: bool

definition open_journal :: "journal_file \<Rightarrow> bool list \<Rightarrow> run_journal" where
  "open_journal f ws = \<lparr>journal_file = f, journal_writes = ws, warnings = 0, written = None, failing = False, closed_journal = False\<rparr>"

definition warn :: "run_journal \<Rightarrow> run_journal" where
  "warn s = s\<lparr>warnings := Suc (warnings s)\<rparr>"

definition next_write :: "run_journal \<Rightarrow> bool" where
  "next_write s = (journal_writes s = [] \<or> hd (journal_writes s))"

text \<open>What a file records, or \<open>None\<close> for a corrupt one.\<close>

definition recorded :: "nat \<Rightarrow> json option \<Rightarrow> json list option" where
  "recorded n j = (if n > max_bytes then None else (case j of
     Some (JObj d) \<Rightarrow> if \<not> version_is 1 d then None else (case item d ''runs'' of JArr js \<Rightarrow> Some js | _ \<Rightarrow> None)
   | _ \<Rightarrow> None))"

text \<open>A corrupt file is moved aside, if that works.\<close>

definition load_journal :: "run_journal \<Rightarrow> (py_error + journal_run list) \<times> run_journal" where
  "load_journal s = (case journal_file s of
     Missing \<Rightarrow> (Inr [], s)
   | Unreadable \<Rightarrow> (Inr [], warn s)
   | Holds n j \<Rightarrow> (case recorded n j of
       None \<Rightarrow> (Inr [], warn (s\<lparr>journal_file := if next_write s then Missing else journal_file s, journal_writes := tl (journal_writes s)\<rparr>))
     | Some js \<Rightarrow> (case read_runs js of
           Inl e \<Rightarrow> (Inl e, s)
         | Inr rs \<Rightarrow> (Inr rs, if length rs \<noteq> length js then warn s else s))))"

definition record_runs :: "bool \<Rightarrow> journal_run list \<Rightarrow> run_journal \<Rightarrow> run_journal" where
  "record_runs final rs s =
     (if closed_journal s then s
      else let s = s\<lparr>closed_journal := final\<rparr> in
        if written s = Some rs then s
        else let done = next_write s; s = s\<lparr>journal_writes := tl (journal_writes s)\<rparr> in
          if \<not> done then (if failing s then s else warn s)\<lparr>failing := True\<rparr>
          else s\<lparr>journal_file := if rs = [] then Missing else Holds (dumps_size (journal_document rs)) (Some (journal_document rs)),
                 written := Some rs, failing := False\<rparr>)"

definition write_journal :: "bool \<Rightarrow> json list \<Rightarrow> run_journal \<Rightarrow> (py_error + unit) \<times> run_journal" where
  "write_journal final js s = (case read_runs js of Inl e \<Rightarrow> (Inl e, s) | Inr rs \<Rightarrow> (Inr (), record_runs final rs s))"

section \<open>The format\<close>

definition short_text :: "string \<Rightarrow> bool" where
  "short_text s \<longleftrightarrow> s \<noteq> [] \<and> length s \<le> max_text"

definition short_option :: "string option \<Rightarrow> bool" where
  "short_option x = (case x of None \<Rightarrow> True | Some s \<Rightarrow> short_text s)"

definition wf_channel :: "run_channel \<Rightarrow> bool" where
  "wf_channel c \<longleftrightarrow> short_text (rc_identity c) \<and> rc_channel c \<in> set journal_channels \<and> short_option (rc_name c) \<and> short_option (rc_loop c)"

definition wf_owner :: "run_owner \<Rightarrow> bool" where
  "wf_owner w \<longleftrightarrow> short_option (ro_player w) \<and> short_option (ro_xuid w) \<and> short_option (ro_name w) \<and> ro_language w \<in> {''en'', ''ja''}"

definition wf_run :: "journal_run \<Rightarrow> bool" where
  "wf_run r \<longleftrightarrow> short_text (jr_id r) \<and> short_text (jr_name r) \<and> wf_owner (jr_owner r) \<and>
     list_all wf_channel (jr_channels r) \<and> length (jr_channels r) \<le> max_channels"

definition wf_runs :: "journal_run list \<Rightarrow> bool" where
  "wf_runs rs \<longleftrightarrow> list_all wf_run rs \<and> length rs \<le> max_runs"

lemma bounded_short [simp]: "short_text s \<Longrightarrow> bounded_text (JStr s) = Some s" "short_option x \<Longrightarrow> bounded_text (str_or_null x) = x"
  by (auto simp: bounded_text.simps short_text_def short_option_def str_or_null_def split: option.splits)

declare bounded_text.simps(1) [simp del]

lemma bounded_is_short: "bounded_text j = Some s \<Longrightarrow> short_text s" "short_option (bounded_text j)"
  by (cases j; auto simp: bounded_text.simps short_text_def short_option_def max_text_def split: if_splits option.split)+

lemma present_only_simps [simp]:
  "present_only [] = []" "present_only (None # xs) = present_only xs" "present_only (Some x # xs) = x # present_only xs"
  by (simp_all add: present_only_def)

lemma present_only_Some [simp]: "present_only (map Some xs) = xs"
  by (induction xs) simp_all

lemma set_present_only: "x \<in> set (present_only xs) \<longleftrightarrow> Some x \<in> set xs"
  by (auto simp: present_only_def image_iff)

lemma length_present_only: "length (present_only xs) \<le> length xs"
  by (simp add: present_only_def)

lemma emap_present:
  "(\<And>x. x \<in> set xs \<Longrightarrow> f (g x) = Inr (Some x)) \<Longrightarrow> emap f (map g xs) = Inr (map Some xs)"
  by (induction xs) auto

lemma emap_kept:
  assumes "emap f xs = Inr ys" "\<And>x y. f x = Inr (Some y) \<Longrightarrow> P y"
  shows "list_all P (present_only ys)" "length (present_only ys) \<le> length xs"
proof -
  have "P y" if "Some y \<in> set ys" for y
    using emap_InrD [OF assms(1) that] assms(2) by blast
  then show "list_all P (present_only ys)" by (simp add: list_all_iff set_present_only)
  show "length (present_only ys) \<le> length xs"
    using length_present_only [of ys] emap_length [OF assms(1)] by simp
qed

lemma among_known: "among j xs = Inr True \<longleftrightarrow> (\<exists>s. j = JStr s \<and> s \<in> set xs)"
  by (cases j) auto

lemma read_channel_json [simp]: "wf_channel c \<Longrightarrow> read_channel (channel_json c) = Inr (Some c)"
  by (simp add: wf_channel_def channel_json_def item_def dict_get_def)

lemma read_channel_wf: "read_channel j = Inr (Some c) \<Longrightarrow> wf_channel c"
  by (cases j) (auto simp: wf_channel_def among_known bounded_is_short split: option.splits if_splits)

lemma read_owner_json [simp]: "wf_owner w \<Longrightarrow> read_owner (owner_json w) = Inr w"
  by (auto simp: wf_owner_def owner_json_def read_owner_def item_def dict_get_def Let_def)

lemma read_owner_wf: "read_owner j = Inr w \<Longrightarrow> wf_owner w"
  by (auto simp: wf_owner_def read_owner_def Let_def among_known bounded_is_short)

lemma read_run_json [simp]:
  assumes "wf_run r"
  shows "read_run (run_json r) = Inr (Some r)"
proof -
  have "emap read_channel (map channel_json (jr_channels r)) = Inr (map Some (jr_channels r))"
    using assms by (intro emap_present) (auto simp: wf_run_def list_all_iff)
  then show ?thesis
    using assms by (simp add: run_json_def wf_run_def item_def dict_get_def)
qed

lemma read_run_wf: "read_run j = Inr (Some r) \<Longrightarrow> wf_run r"
proof (cases j)
  case (JObj d)
  assume "read_run j = Inr (Some r)"
  then obtain i n cs w where r: "r = \<lparr>jr_id = i, jr_name = n, jr_owner = w, jr_channels = present_only cs\<rparr>"
    and i: "bounded_text (item d ''run'') = Some i" "bounded_text (item d ''name'') = Some n"
    and cs: "emap read_channel (case item d ''channels'' of JArr js \<Rightarrow> take max_channels js | _ \<Rightarrow> []) = Inr cs"
    and w: "read_owner (item d ''owner'') = Inr w"
    by (auto simp: JObj split: option.splits)
  have "length (present_only cs) \<le> max_channels"
    using emap_kept(2) [OF cs, of wf_channel] read_channel_wf by (auto split: json.splits)
  moreover have "list_all wf_channel (present_only cs)"
    using emap_kept(1) [OF cs, of wf_channel] read_channel_wf by blast
  ultimately show ?thesis
    using i w by (simp add: wf_run_def r bounded_is_short read_owner_wf)
qed simp_all

text \<open>The format as a codec: a list within the bounds is read back as it is, and only such lists are read.\<close>

definition read_document :: "json \<Rightarrow> py_error + journal_run list" where
  "read_document j = (case recorded 0 (Some j) of None \<Rightarrow> Inl (ValueError ''not a version 1 run journal'') | Some js \<Rightarrow> read_runs js)"

lemma read_runs_json: "wf_runs rs \<Longrightarrow> read_runs (map run_json rs) = Inr rs"
proof -
  assume wf: "wf_runs rs"
  then have "emap read_run (map run_json rs) = Inr (map Some rs)"
    by (intro emap_present) (auto simp: wf_runs_def list_all_iff)
  with wf show ?thesis by (simp add: read_runs_def wf_runs_def)
qed

lemma read_runs_wf: "read_runs js = Inr rs \<Longrightarrow> wf_runs rs"
proof -
  assume "read_runs js = Inr rs"
  then obtain xs where xs: "emap read_run (take max_runs js) = Inr xs" "rs = present_only xs" by (auto simp: read_runs_def)
  then show ?thesis
    using emap_kept [OF xs(1), of wf_run] read_run_wf by (auto simp: wf_runs_def)
qed

lemma recorded_document [simp]: "recorded n (Some (journal_document rs)) = (if n \<le> max_bytes then Some (map run_json rs) else None)"
  by (auto simp: recorded_def journal_document_def item_def dict_get_def version_is_def)

interpretation journal_codec: json_codec journal_document read_document wf_runs id
  by unfold_locales
    (auto simp: read_document_def read_runs_json intro: read_runs_wf split: option.splits)

section \<open>What the next start reads\<close>

definition writes :: "(bool \<times> json list) list \<Rightarrow> run_journal \<Rightarrow> run_journal" where
  "writes ws s = fold (\<lambda>(final, js) t. snd (write_journal final js t)) ws s"

definition holds :: "journal_run list \<Rightarrow> journal_file" where
  "holds rs = (if rs = [] then Missing else Holds (dumps_size (journal_document rs)) (Some (journal_document rs)))"

definition journal_inv :: "journal_file \<Rightarrow> run_journal \<Rightarrow> bool" where
  "journal_inv f s \<longleftrightarrow> (case written s of None \<Rightarrow> journal_file s = f | Some rs \<Rightarrow> wf_runs rs \<and> journal_file s = holds rs)"

lemma record_inv: "wf_runs rs \<Longrightarrow> journal_inv f s \<Longrightarrow> journal_inv f (record_runs final rs s)"
  by (auto simp: record_runs_def journal_inv_def warn_def Let_def holds_def split: option.splits)

lemma writes_inv: "journal_inv f s \<Longrightarrow> journal_inv f (writes ws s)"
proof (induction ws arbitrary: s)
  case (Cons w ws)
  obtain final js where w: "w = (final, js)" by force
  have "journal_inv f (snd (write_journal final js s))"
    using Cons.prems by (auto simp: write_journal_def record_inv read_runs_wf split: sum.split)
  with Cons.IH show ?case by (simp add: writes_def w)
qed (simp add: writes_def)

lemma load_holds:
  "wf_runs rs \<Longrightarrow> dumps_size (journal_document rs) \<le> max_bytes \<Longrightarrow> fst (load_journal (open_journal (holds rs) os)) = Inr rs"
  by (simp add: load_journal_def open_journal_def holds_def read_runs_json)


definition miner_run :: json where
  "miner_run = JObj [(''run'', JStr ''r1''), (''name'', JStr ''miner''),
     (''channels'', JArr [JObj [(''identityId'', JStr ''b1''), (''channel'', JStr ''mine''), (''name'', JStr ''Bob''), (''loopId'', JStr ''l1'')]]),
     (''owner'', JObj [(''name'', JStr ''Alex'')])]"

definition miner_journaled :: journal_run where
  "miner_journaled = \<lparr>jr_id = ''r1'', jr_name = ''miner'',
     jr_owner = \<lparr>ro_player = None, ro_xuid = None, ro_name = Some ''Alex'', ro_language = ''en''\<rparr>,
     jr_channels = [\<lparr>rc_identity = ''b1'', rc_channel = ''mine'', rc_name = Some ''Bob'', rc_loop = Some ''l1''\<rparr>]\<rparr>"


text \<open>Once a write was final, no later write touches the file.\<close>

lemma closed_stays: "closed_journal s \<Longrightarrow> writes ws s = s"
proof (induction ws arbitrary: s)
  case (Cons w ws)
  obtain final js where w: "w = (final, js)" by force
  have "snd (write_journal final js s) = s"
    using Cons.prems by (simp add: write_journal_def record_runs_def split: sum.split)
  with Cons show ?case by (simp add: writes_def w)
qed (simp add: writes_def)

lemma final_write_is_the_last:
  "read_runs js = Inr rs \<Longrightarrow> writes ((True, js) # ws) s = writes [(True, js)] s"
  using closed_stays [of "record_runs True rs s" ws]
  by (simp add: writes_def write_journal_def record_runs_def Let_def warn_def split: if_splits)

section \<open>Where reading fails\<close>

text \<open>Reading a journal never returns more than 64 runs, 256 channels of a run, or texts that are empty or longer than
  128 characters, whatever the file holds.\<close>

theorem journal_reads_are_bounded:
  "case fst (load_journal s) of Inl e \<Rightarrow> True | Inr rs \<Rightarrow> wf_runs rs"
  by (auto simp: load_journal_def wf_runs_def split: journal_file.split option.split sum.split dest!: read_runs_wf)

definition odd_document :: json where
  "odd_document = JObj [(''version'', JInt 1), (''runs'', JArr [JObj [(''run'', JStr ''r1''), (''name'', JStr ''miner''),
     (''channels'', JArr [JObj [(''identityId'', JStr ''b1''), (''channel'', JArr [])]])]])]"

text \<open>Reading a journal is meant never to raise, but a document that has a list where a channel's name should be raises a
  \<open>TypeError\<close> instead of being skipped or kept aside as corrupt.\<close>

theorem odd_journal_raises:
  "load_journal (open_journal (Holds 100 (Some odd_document)) ws) =
     (Inl (TypeError ''unhashable type: list''), open_journal (Holds 100 (Some odd_document)) ws)"
proof -
  have "recorded 100 (Some odd_document) = Some [JObj [(''run'', JStr ''r1''), (''name'', JStr ''miner''),
     (''channels'', JArr [JObj [(''identityId'', JStr ''b1''), (''channel'', JArr [])]])]]"
    by (simp add: recorded_def odd_document_def max_bytes_def item_def dict_get_def)
  moreover have "read_runs [JObj [(''run'', JStr ''r1''), (''name'', JStr ''miner''),
     (''channels'', JArr [JObj [(''identityId'', JStr ''b1''), (''channel'', JArr [])]])]] = Inl (TypeError ''unhashable type: list'')" by code_simp
  ultimately show ?thesis by (simp add: load_journal_def open_journal_def)
qed

definition wide_channel :: run_channel where
  "wide_channel = \<lparr>rc_identity = replicate 36 (CHR ''b''), rc_channel = ''attack'', rc_name = Some (replicate 16 (CHR ''n'')), rc_loop = None\<rparr>"

definition wide_run :: journal_run where
  "wide_run = \<lparr>jr_id = ''r1'', jr_name = ''miner'',
     jr_owner = \<lparr>ro_player = None, ro_xuid = None, ro_name = None, ro_language = ''en''\<rparr>, jr_channels = replicate 256 wide_channel\<rparr>"

definition wide_runs :: "json list" where
  "wide_runs = replicate 64 (run_json wide_run)"

lemma wide_runs_read: "read_runs wide_runs = Inr (replicate 64 wide_run)"
proof -
  have "wf_channel wide_channel" by code_simp
  then have "wf_runs (replicate 64 wide_run)"
    by (simp add: wf_runs_def wf_run_def wide_run_def max_runs_def max_channels_def wf_owner_def short_option_def short_text_def max_text_def list_all_iff)
  from read_runs_json [OF this] show ?thesis by (simp add: wide_runs_def map_replicate)
qed

lemma wide_runs_size: "max_bytes < dumps_size (journal_document (replicate 64 wide_run))"
proof -
  have "dumps_size (channel_json wide_channel) = 119" by code_simp
  then have "dumps_size (run_json wide_run) \<ge> 119 * 256"
    by (simp add: run_json_def wide_run_def listed_size_def map_replicate sum_list_replicate)
  then show ?thesis
    by (simp add: journal_document_def listed_size_def map_replicate sum_list_replicate max_bytes_def)
qed

text \<open>A journal that is written can be larger than one that is read: with 64 runs of 256 channels, each entry within its bounds, the
  next start calls the file corrupt, moves it aside and recovers no run.\<close>

theorem wide_journal_is_lost:
  "let s = snd (write_journal False wide_runs (open_journal Missing [])) in
     written s = Some (replicate 64 wide_run) \<and> load_journal s = (Inr [], warn (s\<lparr>journal_file := Missing\<rparr>))"
  using wide_runs_size
  by (simp add: write_journal_def wide_runs_read record_runs_def open_journal_def next_write_def Let_def load_journal_def recorded_def)

end
