(* ===== verification/Script_Store.thy ===== *)
theory Script_Store
  imports Group_Store Bot_Guards
begin

text \<open>
  Stored scripts and their file, class \<open>ScriptStore\<close> of \<open>endbot_core/script_store.py\<close>, as the record
  \<open>script_store\<close>: scripts by casefolded name, written to disk before memory changes, and the scripts of the
  operator's folder, which win nothing and are never written. The moment and the UUID of a save are arguments.
  Reading the folder itself is not modelled.
\<close>

definition script_history :: nat where
  "script_history = 10"

definition file_owner :: string where
  "file_owner = ''file''"

record script_revision =
  sr_revision :: string
  sr_source :: string
  sr_saved :: int

record stored_script =
  ss_name :: string
  ss_source :: string
  ss_revision :: string
  ss_owner :: "string option"
  ss_owner_name :: "string option"
  ss_visibility :: string
  ss_history :: "script_revision list"
  ss_saved :: int

text \<open>A script of the folder: its owner is \<open>FILE_OWNER\<close>, it is shared and has no history.\<close>

record file_script =
  fs_name :: string
  fs_source :: string
  fs_revision :: string
  fs_saved :: int

definition as_script :: "file_script \<Rightarrow> stored_script" where
  "as_script f = \<lparr>ss_name = fs_name f, ss_source = fs_source f, ss_revision = fs_revision f, ss_owner = Some file_owner,
     ss_owner_name = None, ss_visibility = ''shared'', ss_history = [], ss_saved = fs_saved f\<rparr>"

record script_store =
  scripts_file :: disk
  scripts :: "(string, stored_script) dict"
  file_scripts :: "(string, file_script) dict"
  max_scripts :: nat
  max_script_bytes :: nat

definition is_file_script :: "stored_script \<Rightarrow> bool" where
  "is_file_script s \<longleftrightarrow> ss_owner s = Some file_owner"

definition script_name :: "string \<Rightarrow> py_error + string" where
  "script_name v = (if is_group_name v then Inr v else Inl (LocalizedError
     ''Script names must start with a letter/underscore and contain 1-16 letters, digits or underscores'' []))"

section \<open>The file\<close>

definition bad_script :: py_error where
  "bad_script = ValueError ''Invalid stored script''"

fun json_int :: "json \<Rightarrow> int option" where
  "json_int (JInt i) = Some i"
| "json_int _ = None"

definition decode_script_revision :: "json \<Rightarrow> py_error + script_revision" where
  "decode_script_revision j = (case j of
     JObj d \<Rightarrow> (case (dict_get d ''revision'' JNull, dict_get d ''source'' JNull, dict_get d ''savedAt'' JNull) of
         (JStr r, JStr t, JInt i) \<Rightarrow> Inr \<lparr>sr_revision = r, sr_source = t, sr_saved = i\<rparr>
       | _ \<Rightarrow> Inl (ValueError ''Invalid stored script revision''))
   | _ \<Rightarrow> Inl (ValueError ''Invalid stored script revision''))"

text \<open>The checks in front of a row, and the row itself; a row without a name is a \<open>KeyError\<close>.\<close>

definition row_fits :: "json \<Rightarrow> bool" where
  "row_fits j = (case j of
     JObj d \<Rightarrow> json_is_str (dict_get d ''source'' JNull) \<and> json_is_str (dict_get d ''revision'' JNull) \<and>
       json_is_str_or_null (dict_get d ''owner'' JNull) \<and> json_is_str_or_null (dict_get d ''ownerName'' JNull) \<and>
       (case dict_get d ''visibility'' (JStr ''shared'') of JStr w \<Rightarrow> is_visibility w | _ \<Rightarrow> False) \<and>
       (case dict_get d ''history'' (JArr []) of JArr _ \<Rightarrow> True | _ \<Rightarrow> False)
   | _ \<Rightarrow> False)"

definition row_name :: "(string, json) dict \<Rightarrow> py_error + string" where
  "row_name d = (case map_of d ''name'' of
     None \<Rightarrow> Inl (KeyError ''name'')
   | Some (JStr n) \<Rightarrow> script_name n
   | Some _ \<Rightarrow> script_name [])"

definition text_or_empty :: "json \<Rightarrow> string" where
  "text_or_empty j = (case json_str_opt j of None \<Rightarrow> [] | Some s \<Rightarrow> s)"

definition decode_script :: "(string, json) dict \<Rightarrow> string \<Rightarrow> py_error + stored_script" where
  "decode_script d n = ebind (emap decode_script_revision (take script_history (case dict_get d ''history'' (JArr []) of JArr js \<Rightarrow> js | _ \<Rightarrow> []))) (\<lambda>hs.
     Inr \<lparr>ss_name = n, ss_source = text_or_empty (dict_get d ''source'' JNull), ss_revision = text_or_empty (dict_get d ''revision'' JNull),
       ss_owner = json_str_opt (dict_get d ''owner'' JNull), ss_owner_name = json_str_opt (dict_get d ''ownerName'' JNull),
       ss_visibility = text_or_empty (dict_get d ''visibility'' (JStr ''shared'')), ss_history = hs,
       ss_saved = (case json_int (dict_get d ''savedAt'' (JInt 0)) of None \<Rightarrow> 0 | Some i \<Rightarrow> i)\<rparr>)"

definition take_row :: "json \<Rightarrow> (string, stored_script) dict \<Rightarrow> py_error + (string, stored_script) dict" where
  "take_row j known = (case j of
     JObj d \<Rightarrow> if \<not> row_fits j then Inl bad_script
       else ebind (row_name d) (\<lambda>n.
         if casefold n \<in> set (keys known) then Inl (ValueError ''Duplicate stored script'')
         else ebind (decode_script d n) (\<lambda>s. Inr (known @ [(casefold n, s)])))
   | _ \<Rightarrow> Inl bad_script)"

text \<open>\<open>version in {1, 2}\<close> raises a \<open>TypeError\<close> for a list or an object.\<close>

definition known_version :: "(string, json) dict \<Rightarrow> py_error + bool" where
  "known_version d = (case dict_get d ''version'' JNull of
     JArr _ \<Rightarrow> Inl (TypeError ''unhashable type: list'') | JObj _ \<Rightarrow> Inl (TypeError ''unhashable type: dict'')
   | j \<Rightarrow> Inr (json_eq_int j 1 \<or> json_eq_int j 2))"

definition decode_scripts :: "json \<Rightarrow> py_error + (string, stored_script) dict" where
  "decode_scripts j = ebind (as_obj (ValueError ''Invalid scripts file'') j) (\<lambda>d.
     ebind (known_version d) (\<lambda>v. ebind (check v (ValueError ''Invalid scripts file'')) (\<lambda>_.
     ebind (as_arr (ValueError ''Invalid scripts file'') (dict_get d ''scripts'' JNull)) (\<lambda>rows.
       efold take_row rows []))))"

definition encode_script_revision :: "script_revision \<Rightarrow> json" where
  "encode_script_revision r = JObj [(''revision'', JStr (sr_revision r)), (''source'', JStr (sr_source r)), (''savedAt'', JInt (sr_saved r))]"

definition encode_script :: "stored_script \<Rightarrow> json" where
  "encode_script s = JObj [(''name'', JStr (ss_name s)), (''source'', JStr (ss_source s)), (''revision'', JStr (ss_revision s)),
     (''owner'', str_or_null (ss_owner s)), (''ownerName'', str_or_null (ss_owner_name s)), (''visibility'', JStr (ss_visibility s)),
     (''savedAt'', JInt (ss_saved s)), (''history'', JArr (map encode_script_revision (ss_history s)))]"

definition encode_scripts :: "(string, stored_script) dict \<Rightarrow> json" where
  "encode_scripts d = JObj [(''version'', JInt 2), (''scripts'', JArr (map (encode_script \<circ> snd) d))]"

definition load_scripts :: "node \<Rightarrow> py_error + (string, stored_script) dict" where
  "load_scripts n = ebind (read_regular ''Scripts must be stored in a regular file'' n) (\<lambda>d.
     case d of None \<Rightarrow> Inr [] | Some j \<Rightarrow> decode_scripts j)"

definition open_scripts :: "nat \<Rightarrow> nat \<Rightarrow> disk \<Rightarrow> py_error + script_store" where
  "open_scripts most bytes k = ebind (load_scripts (content k)) (\<lambda>d.
     Inr \<lparr>scripts_file = k, scripts = d, file_scripts = [], max_scripts = most, max_script_bytes = bytes\<rparr>)"

definition save_scripts :: "(string, stored_script) dict \<Rightarrow> (script_store, unit) action" where
  "save_scripts d s =
     (if is_symlink (content (scripts_file s)) then (Inl (LocalizedError ''Scripts file must not be a symlink'' []), s)
      else (case replace_file (encode_scripts d) (scripts_file s) of
          (Inl e, k) \<Rightarrow> (Inl e, s\<lparr>scripts_file := k\<rparr>)
        | (Inr _, k) \<Rightarrow> (Inr (), s\<lparr>scripts_file := k, scripts := d\<rparr>)))"

section \<open>Operations\<close>

definition script_changed :: py_error where
  "script_changed = LocalizedError ''Script changed; reopen the menu'' []"

definition no_script :: "string \<Rightarrow> py_error" where
  "no_script name = LocalizedError ''Script {name} does not exist'' [(''name'', name)]"

text \<open>\<open>{**files, **scripts}\<close>.\<close>

definition all_scripts :: "script_store \<Rightarrow> (string, stored_script) dict" where
  "all_scripts s = fold (\<lambda>(k, x). dict_set k x) (scripts s) (map (\<lambda>(k, f). (k, as_script f)) (file_scripts s))"

definition set_files :: "(string, file_script) dict \<Rightarrow> script_store \<Rightarrow> string list \<times> script_store" where
  "set_files fs s = (map (fs_name \<circ> snd) (filter (\<lambda>x. fst x \<in> set (keys (scripts s))) fs),
     s\<lparr>file_scripts := filter (\<lambda>x. fst x \<notin> set (keys (scripts s))) fs\<rparr>)"

definition list_scripts :: "script_store \<Rightarrow> stored_script list" where
  "list_scripts s = sort_key (\<lambda>x. casefold (ss_name x)) (map snd (all_scripts s))"

definition get_script :: "string \<Rightarrow> script_store \<Rightarrow> py_error + stored_script" where
  "get_script name s = ebind (script_name name) (\<lambda>_.
     case map_of (all_scripts s) (casefold name) of None \<Rightarrow> Inl (no_script name) | Some x \<Rightarrow> Inr x)"

text \<open>\<open>_stored\<close>, which refuses the name of a file script, with and without \<open>must_exist\<close>.\<close>

definition from_file :: "string \<Rightarrow> py_error" where
  "from_file name = LocalizedError ''Script {name} comes from a file; edit the file, then /botscript reload'' [(''name'', name)]"

definition not_a_file :: "string \<Rightarrow> script_store \<Rightarrow> py_error + unit" where
  "not_a_file name s = (case map_of (file_scripts s) (casefold name) of None \<Rightarrow> Inr () | Some f \<Rightarrow> Inl (from_file (fs_name f)))"

definition find_stored :: "string \<Rightarrow> script_store \<Rightarrow> py_error + stored_script" where
  "find_stored name s = ebind (not_a_file name s) (\<lambda>_. get_script name s)"

definition check_source :: "string \<Rightarrow> script_store \<Rightarrow> py_error + unit" where
  "check_source source s = check (strip source \<noteq> [] \<and> utf8_length source \<le> max_script_bytes s)
     (LocalizedError ''Script source is empty or too large'' [])"

text \<open>\<open>x or y\<close> for texts that may be missing.\<close>

definition text_or :: "string option \<Rightarrow> string option \<Rightarrow> string option" where
  "text_or x y = (if x = None \<or> x = Some [] then y else x)"

text \<open>The script a save leaves: a new one is private, a known one keeps the source before in its history.\<close>

definition next_script :: "stored_script option \<Rightarrow> string \<Rightarrow> string \<Rightarrow> string option \<Rightarrow> string option \<Rightarrow> string \<Rightarrow> int \<Rightarrow> stored_script" where
  "next_script current name source who who_name fresh now = (case current of
     None \<Rightarrow> \<lparr>ss_name = name, ss_source = source, ss_revision = fresh, ss_owner = who, ss_owner_name = who_name,
        ss_visibility = ''private'', ss_history = [], ss_saved = now\<rparr>
   | Some x \<Rightarrow> x\<lparr>ss_source := source, ss_revision := fresh, ss_saved := now,
        ss_history := take script_history (\<lparr>sr_revision = ss_revision x, sr_source = ss_source x, sr_saved = ss_saved x\<rparr> # ss_history x),
        ss_owner := text_or (ss_owner x) who, ss_owner_name := text_or (ss_owner_name x) who_name\<rparr>)"

definition put_script :: "string \<Rightarrow> stored_script \<Rightarrow> script_store \<Rightarrow> (string, stored_script) dict" where
  "put_script name x s = dict_set (casefold name) x (scripts s)"

definition save_script :: "string \<Rightarrow> string \<Rightarrow> string option \<Rightarrow> string option \<Rightarrow> string option \<Rightarrow> string \<Rightarrow> int \<Rightarrow> (script_store, stored_script) action" where
  "save_script name source expected who who_name fresh now s =
     (case ebind (script_name name) (\<lambda>_. ebind (check_source source s) (\<lambda>_. ebind (not_a_file name s) (\<lambda>_.
        let current = map_of (scripts s) (casefold name) in
        ebind (check (expected = map_option ss_revision current) script_changed) (\<lambda>_.
        ebind (check (current \<noteq> None \<or> length (scripts s) < max_scripts s) (LocalizedError ''Stored script limit reached'' [])) (\<lambda>_.
          Inr (next_script current name source who who_name fresh now)))))) of
        Inl e \<Rightarrow> (Inl e, s)
      | Inr x \<Rightarrow> sthen (save_scripts (put_script name x s)) (ret x) s)"

text \<open>What an operation on a stored script does once the revision the caller saw is the current one.\<close>

definition on_script :: "string \<Rightarrow> string \<Rightarrow> (stored_script \<Rightarrow> py_error + (string, stored_script) dict) \<Rightarrow> (script_store, unit) action" where
  "on_script name expected f s =
     (case ebind (find_stored name s) (\<lambda>x. ebind (check (ss_revision x = expected) script_changed) (\<lambda>_. f x)) of
        Inl e \<Rightarrow> (Inl e, s) | Inr d \<Rightarrow> save_scripts d s)"

definition restore_script :: "string \<Rightarrow> int \<Rightarrow> string \<Rightarrow> string \<Rightarrow> int \<Rightarrow> (script_store, stored_script) action" where
  "restore_script name index expected fresh now s = (case find_stored name s of
     Inl e \<Rightarrow> (Inl e, s)
   | Inr x \<Rightarrow>
       (if index < 1 \<or> int (length (ss_history x)) < index then (Inl (LocalizedError ''Script revision is out of range'' []), s)
        else save_script (ss_name x) (sr_source (ss_history x ! (nat index - 1))) (Some expected) None None fresh now s))"

definition set_script_visibility :: "string \<Rightarrow> string \<Rightarrow> string \<Rightarrow> (script_store, unit) action" where
  "set_script_visibility name w expected s =
     (if \<not> is_visibility w then (Inl (LocalizedError ''Script visibility must be private or shared'' []), s)
      else on_script name expected (\<lambda>x. Inr (put_script name (x\<lparr>ss_visibility := w\<rparr>) s)) s)"

definition set_script_owner :: "string \<Rightarrow> string option \<Rightarrow> string option \<Rightarrow> string \<Rightarrow> (script_store, unit) action" where
  "set_script_owner name who who_name revision s =
     (case ebind (get_script name s) (\<lambda>x.
        ebind (check (\<not> is_file_script x) (LocalizedError ''File scripts have no owner; the file is the source'' [])) (\<lambda>_.
        ebind (check (ss_revision x = revision) script_changed) (\<lambda>_.
          Inr (put_script (ss_name x) (x\<lparr>ss_owner := who, ss_owner_name := who_name\<rparr>) s)))) of
        Inl e \<Rightarrow> (Inl e, s) | Inr d \<Rightarrow> save_scripts d s)"

definition rename_script :: "string \<Rightarrow> string \<Rightarrow> string \<Rightarrow> (script_store, unit) action" where
  "rename_script name new expected s = (case script_name new of
     Inl e \<Rightarrow> (Inl e, s)
   | Inr _ \<Rightarrow> on_script name expected (\<lambda>x.
       if casefold new \<noteq> casefold name \<and> casefold new \<in> set (keys (all_scripts s))
       then Inl (LocalizedError ''Script {name} already exists'' [(''name'', new)])
       else Inr (dict_set (casefold new) (x\<lparr>ss_name := new\<rparr>) (dict_pop (casefold name) (scripts s)))) s)"

definition delete_script :: "string \<Rightarrow> string \<Rightarrow> (script_store, unit) action" where
  "delete_script name expected s = on_script name expected (\<lambda>x. Inr (dict_pop (casefold name) (scripts s))) s"

section \<open>The codec\<close>

definition wf_script :: "string \<times> stored_script \<Rightarrow> bool" where
  "wf_script e \<longleftrightarrow> fst e = casefold (ss_name (snd e)) \<and> is_group_name (ss_name (snd e)) \<and> is_visibility (ss_visibility (snd e)) \<and>
     length (ss_history (snd e)) \<le> script_history"

definition wf_scripts :: "(string, stored_script) dict \<Rightarrow> bool" where
  "wf_scripts d \<longleftrightarrow> dict_all wf_script d"

lemma decode_encode_revision [simp]: "decode_script_revision (encode_script_revision r) = Inr r"
  by (simp add: decode_script_revision_def encode_script_revision_def dict_get_def)

lemma row_of_script:
  assumes "wf_script (k, x)"
  shows "row_fits (encode_script x)" "row_name (case encode_script x of JObj d \<Rightarrow> d | _ \<Rightarrow> []) = Inr (ss_name x)"
    "decode_script (case encode_script x of JObj d \<Rightarrow> d | _ \<Rightarrow> []) (ss_name x) = Inr x"
proof -
  have h: "emap decode_script_revision (map encode_script_revision (ss_history x)) = Inr (ss_history x)"
    by (intro emap_inverse) simp
  show "row_fits (encode_script x)" "row_name (case encode_script x of JObj d \<Rightarrow> d | _ \<Rightarrow> []) = Inr (ss_name x)"
    using assms by (auto simp: row_fits_def encode_script_def wf_script_def row_name_def script_name_def dict_get_def)
  show "decode_script (case encode_script x of JObj d \<Rightarrow> d | _ \<Rightarrow> []) (ss_name x) = Inr x"
    using assms h by (auto simp: decode_script_def encode_script_def wf_script_def dict_get_def text_or_empty_def)
qed

lemma take_row_script:
  "wf_script (k, x) \<Longrightarrow> k \<notin> set (keys known) \<Longrightarrow> take_row (encode_script x) known = Inr (known @ [(k, x)])"
  using row_of_script [of k x] by (auto simp: take_row_def encode_script_def wf_script_def)

lemma take_rows:
  "list_all wf_script d \<Longrightarrow> distinct (keys (known @ d)) \<Longrightarrow> efold take_row (map (encode_script \<circ> snd) d) known = Inr (known @ d)"
proof (induction d arbitrary: known)
  case (Cons e d)
  obtain k x where e: "e = (k, x)" by force
  have "take_row (encode_script x) known = Inr (known @ [(k, x)])"
    using Cons.prems by (intro take_row_script) (auto simp: e)
  with Cons show ?case by (simp add: e)
qed simp

lemma decode_encode_scripts: "wf_scripts d \<Longrightarrow> decode_scripts (encode_scripts d) = Inr d"
  using take_rows [of d "[]"]
  by (simp add: decode_scripts_def encode_scripts_def wf_scripts_def dict_all_def dict_get_def known_version_def)

lemma take_row_wf: "take_row j known = Inr d \<Longrightarrow> wf_scripts known \<Longrightarrow> wf_scripts d"
proof -
  assume t: "take_row j known = Inr d" and wf: "wf_scripts known"
  then obtain r n x where j: "j = JObj r" and fits: "row_fits j" and n: "row_name r = Inr n" "casefold n \<notin> set (keys known)"
    and x: "decode_script r n = Inr x" and d: "d = known @ [(casefold n, x)]"
    by (auto simp: take_row_def split: json.splits if_splits)
  obtain hs where hs: "emap decode_script_revision (take script_history (case dict_get r ''history'' (JArr []) of JArr js \<Rightarrow> js | _ \<Rightarrow> [])) = Inr hs"
    and xs: "ss_history x = hs" "ss_name x = n" "ss_visibility x = text_or_empty (dict_get r ''visibility'' (JStr ''shared''))"
    using x by (auto simp: decode_script_def)
  have "is_group_name n"
    using n(1) by (auto simp: row_name_def script_name_def is_group_name_def split: option.splits json.splits if_splits)
  moreover have "is_visibility (ss_visibility x)"
    using fits by (auto simp: row_fits_def j xs text_or_empty_def split: json.splits)
  moreover have "length hs \<le> script_history" using emap_length [OF hs] by simp
  ultimately show ?thesis
    using wf n(2) by (simp add: wf_scripts_def dict_all_def d wf_script_def xs)
qed

lemma take_rows_wf: "efold take_row js known = Inr d \<Longrightarrow> wf_scripts known \<Longrightarrow> wf_scripts d"
  by (induction js arbitrary: known) (auto dest: take_row_wf)

lemma decode_scripts_wf: "decode_scripts j = Inr d \<Longrightarrow> wf_scripts d"
  by (auto simp: decode_scripts_def wf_scripts_def dest!: take_rows_wf)

interpretation scripts_codec: json_codec encode_scripts decode_scripts wf_scripts id
  by unfold_locales (auto simp: decode_encode_scripts decode_scripts_wf)

section \<open>The store as a machine\<close>

datatype script_op =
    Save_script string string "string option" "string option" "string option" string int
  | Restore_script string int string string int
  | Show_script string string string
  | Give_script string "string option" "string option" string
  | Rename_script string string string
  | Delete_script string string
  | Reload_files "(string, file_script) dict"

fun script_step :: "script_op \<Rightarrow> script_store \<Rightarrow> (py_error + unit) \<times> script_store" where
  "script_step (Save_script n t e w wn i m) s = map_prod (map_sum id (\<lambda>_. ())) id (save_script n t e w wn i m s)"
| "script_step (Restore_script n k e i m) s = map_prod (map_sum id (\<lambda>_. ())) id (restore_script n k e i m s)"
| "script_step (Show_script n v e) s = set_script_visibility n v e s"
| "script_step (Give_script n w wn r) s = set_script_owner n w wn r s"
| "script_step (Rename_script n m e) s = rename_script n m e s"
| "script_step (Delete_script n e) s = delete_script n e s"
| "script_step (Reload_files fs) s = (Inr (), snd (set_files fs s))"

text \<open>Memory and file: neither or both.\<close>

definition settled :: "script_store \<Rightarrow> script_store \<Rightarrow> bool" where
  "settled s t \<longleftrightarrow> (scripts t = scripts s \<and> content (scripts_file t) = content (scripts_file s)) \<or>
     (wf_scripts (scripts t) \<and> content (scripts_file t) = Plain (Some (encode_scripts (scripts t))))"

lemma settled_refl [simp]: "settled s s"
  by (simp add: settled_def)

lemma save_scripts_settled: "wf_scripts d \<Longrightarrow> settled s (snd (save_scripts d s))"
  unfolding save_scripts_def
  by (auto simp: settled_def split: prod.split sum.split dest: replace_file_InrD replace_file_InlD)

lemma on_script_settled:
  assumes "\<And>x d. find_stored name s = Inr x \<Longrightarrow> f x = Inr d \<Longrightarrow> wf_scripts d"
  shows "settled s (snd (on_script name expected f s))"
proof (cases "ebind (find_stored name s) (\<lambda>x. ebind (check (ss_revision x = expected) script_changed) (\<lambda>_. f x))")
  case (Inr d)
  with assms show ?thesis by (auto simp: on_script_def intro!: save_scripts_settled)
qed (simp add: on_script_def)

lemma fold_map_of: "map_of (fold (\<lambda>(k, x). dict_set k x) xs d) k = (case map_of (rev xs) k of None \<Rightarrow> map_of d k | Some x \<Rightarrow> Some x)"
  by (induction xs arbitrary: d) (auto simp: map_add_def split: option.split)

lemma map_of_rev_distinct: "distinct (keys xs) \<Longrightarrow> map_of (rev xs) k = map_of xs k"
proof (induction xs)
  case (Cons e xs)
  moreover have "fst e \<notin> set (keys xs) \<Longrightarrow> map_of xs (fst e) = None" by (simp add: map_of_eq_None_iff)
  ultimately show ?case by (cases e) (auto simp: map_add_def split: option.split)
qed simp

lemma all_scripts_lookup:
  "wf_scripts (scripts s) \<Longrightarrow> map_of (all_scripts s) k = (case map_of (scripts s) k of
     None \<Rightarrow> map_option as_script (map_of (file_scripts s) k) | Some x \<Rightarrow> Some x)"
  by (simp add: all_scripts_def fold_map_of map_of_map map_of_rev_distinct wf_scripts_def dict_all_distinct split: option.split)

lemma stored_is_known:
  assumes "find_stored name s = Inr x" "wf_scripts (scripts s)"
  shows "map_of (scripts s) (casefold name) = Some x" "wf_script (casefold name, x)" "is_group_name name"
proof -
  show k: "map_of (scripts s) (casefold name) = Some x"
    using assms by (auto simp: find_stored_def not_a_file_def get_script_def all_scripts_lookup split: option.splits)
  show "wf_script (casefold name, x)" using k assms(2) by (auto simp: wf_scripts_def dest: dict_allD)
  show "is_group_name name" using assms(1) by (auto simp: find_stored_def get_script_def script_name_def split: if_splits)
qed

lemma wf_put:
  "wf_scripts (scripts s) \<Longrightarrow> wf_script (casefold n, x) \<Longrightarrow> wf_scripts (put_script n x s)"
  by (auto simp: put_script_def wf_scripts_def)

lemma save_script_cases:
  obtains (kept) e where "save_script n t ex w wn i m s = (Inl e, s)"
  | (saved) x where "is_group_name n" "map_of (file_scripts s) (casefold n) = None" "ex = map_option ss_revision (map_of (scripts s) (casefold n))"
      "x = next_script (map_of (scripts s) (casefold n)) n t w wn i m"
      "save_script n t ex w wn i m s = sthen (save_scripts (put_script n x s)) (ret x) s"
  by (cases "ebind (script_name n) (\<lambda>_. ebind (check_source t s) (\<lambda>_. ebind (not_a_file n s) (\<lambda>_.
        let current = map_of (scripts s) (casefold n) in
        ebind (check (ex = map_option ss_revision current) script_changed) (\<lambda>_.
        ebind (check (current \<noteq> None \<or> length (scripts s) < max_scripts s) (LocalizedError ''Stored script limit reached'' [])) (\<lambda>_.
          Inr (next_script current n t w wn i m))))))")
    (auto simp: save_script_def script_name_def not_a_file_def Let_def intro: kept saved split: if_splits option.splits)

lemma next_script_wf:
  "wf_scripts (scripts s) \<Longrightarrow> is_group_name n \<Longrightarrow> wf_script (casefold n, next_script (map_of (scripts s) (casefold n)) n t w wn i m)"
  by (auto simp: next_script_def wf_script_def is_visibility_def script_history_def wf_scripts_def dest: dict_allD split: option.split)

lemma save_script_settled: "wf_scripts (scripts s) \<Longrightarrow> settled s (snd (save_script n t ex w wn i m s))"
proof (rule save_script_cases [of n t ex w wn i m s])
  fix x assume wf: "wf_scripts (scripts s)" "is_group_name n"
    and x: "x = next_script (map_of (scripts s) (casefold n)) n t w wn i m"
      "save_script n t ex w wn i m s = sthen (save_scripts (put_script n x s)) (ret x) s"
  have "settled s (snd (save_scripts (put_script n x s) s))"
    using wf next_script_wf x(1) by (intro save_scripts_settled wf_put) simp_all
  then show ?thesis using x(2) by (auto simp: sthen_def sbind_def split: prod.split sum.split)
qed simp_all

lemma script_step_settled: "wf_scripts (scripts s) \<Longrightarrow> settled s (snd (script_step op s))"
proof (cases op)
  case (Save_script n t e w wn i m)
  then show "wf_scripts (scripts s) \<Longrightarrow> ?thesis" by (simp add: save_script_settled)
next
  case (Restore_script n k e i m)
  then show "wf_scripts (scripts s) \<Longrightarrow> ?thesis" by (auto simp: restore_script_def save_script_settled split: sum.split)
next
  case (Show_script n v e)
  assume wf: "wf_scripts (scripts s)"
  have "settled s (snd (on_script n e (\<lambda>x. Inr (put_script n (x\<lparr>ss_visibility := v\<rparr>) s)) s))" if "is_visibility v"
    using stored_is_known [OF _ wf, of n] wf that by (intro on_script_settled) (auto intro!: wf_put simp: wf_script_def)
  with Show_script show ?thesis by (simp add: set_script_visibility_def)
next
  case (Give_script n w wn r)
  assume wf: "wf_scripts (scripts s)"
  show ?thesis
  proof (cases "snd (script_step op s) = s")
    case False
    then obtain x where x: "get_script n s = Inr x" "\<not> is_file_script x"
      "snd (script_step op s) = snd (save_scripts (put_script (ss_name x) (x\<lparr>ss_owner := w, ss_owner_name := wn\<rparr>) s) s)"
      by (auto simp: Give_script set_script_owner_def split: sum.splits)
    have "map_of (scripts s) (casefold n) = Some x"
      using x(1,2) by (auto simp: get_script_def all_scripts_lookup [OF wf] is_file_script_def as_script_def split: option.splits)
    then have "wf_script (casefold n, x)" using wf by (auto simp: wf_scripts_def dest: dict_allD)
    then have "wf_script (casefold (ss_name x), x\<lparr>ss_owner := w, ss_owner_name := wn\<rparr>)" by (simp add: wf_script_def)
    with x(3) wf show ?thesis by (auto intro!: save_scripts_settled wf_put)
  qed simp
next
  case (Rename_script n m e)
  assume wf: "wf_scripts (scripts s)"
  have "wf_scripts (dict_set (casefold m) (x\<lparr>ss_name := m\<rparr>) (dict_pop (casefold n) (scripts s)))"
    if "find_stored n s = Inr x" "is_group_name m" for x
    using stored_is_known [OF that(1) wf] wf that(2) by (auto simp: wf_scripts_def wf_script_def)
  with Rename_script show ?thesis
    by (auto simp: rename_script_def script_name_def intro!: on_script_settled split: if_splits)
next
  case (Delete_script n e)
  assume wf: "wf_scripts (scripts s)"
  then show ?thesis
    by (auto simp: Delete_script delete_script_def wf_scripts_def intro!: on_script_settled)
next
  case (Reload_files fs)
  then show ?thesis by (simp add: set_files_def settled_def)
qed

interpretation scripts_disk: disk_first encode_scripts decode_scripts wf_scripts id
    scripts "\<lambda>s. content (scripts_file s)" load_scripts "\<lambda>op d. True" script_step
proof
  fix op and st :: script_store and r st'
  assume "wf_scripts (scripts st)" "script_step op st = (r, st')"
  then show "(scripts st' = scripts st \<and> content (scripts_file st') = content (scripts_file st)) \<or>
      (wf_scripts (scripts st') \<and> content (scripts_file st') = Plain (Some (encode_scripts (scripts st'))))"
    using script_step_settled [of st op] by (simp add: settled_def)
qed (simp add: load_scripts_def)

definition scripts_run :: "script_op list \<Rightarrow> script_store \<Rightarrow> script_store" where
  "scripts_run ops s = fold (\<lambda>op s. snd (script_step op s)) ops s"

text \<open>After any saves, restores, renames, deletions and changes of owner or visibility, with any writes failing, opening the
  scripts file again gives exactly the scripts in memory; every name is a valid name no other script has, and no history is longer than ten.\<close>

theorem scripts_restart:
  assumes "open_scripts most bytes k = Inr s"
  shows "load_scripts (content (scripts_file (scripts_run ops s))) = Inr (scripts (scripts_run ops s)) \<and>
    wf_scripts (scripts (scripts_run ops s))"
proof -
  have "wf_scripts d" if "load_scripts n = Inr d" for n d
    using that by (auto simp: load_scripts_def wf_scripts_def split: option.splits dest!: decode_scripts_wf)
  with assms have synced: "scripts_disk.synced s" by (auto simp: open_scripts_def scripts_disk.synced_def)
  have legal: "scripts_disk.legal_run ops s" by (rule scripts_disk.legal_runI) (simp add: list_all_iff)
  have run: "scripts_run ops s = scripts_disk.run ops s" by (simp add: scripts_run_def scripts_disk.run_def)
  show ?thesis
    using scripts_disk.restart [OF legal synced] scripts_disk.run_wf [OF legal synced] by (simp add: run)
qed

definition alexs_script :: script_op where
  "alexs_script = Save_script ''Mine'' ''log(1)'' None (Some ''xuid:77'') (Some ''Alex'') ''r1'' 100"

theorem scripts_restart_witness:
  "load_scripts (content (scripts_file (scripts_run [alexs_script, Rename_script ''mine'' ''Dig'' ''r1'']
     \<lparr>scripts_file = \<lparr>content = Absent, outcomes = [True, False]\<rparr>, scripts = [], file_scripts = [], max_scripts = 2, max_script_bytes = 90\<rparr>))) =
   Inr (scripts (scripts_run [alexs_script, Rename_script ''mine'' ''Dig'' ''r1'']
     \<lparr>scripts_file = \<lparr>content = Absent, outcomes = [True, False]\<rparr>, scripts = [], file_scripts = [], max_scripts = 2, max_script_bytes = 90\<rparr>))"
proof -
  have "open_scripts 2 90 \<lparr>content = Absent, outcomes = [True, False]\<rparr> =
    Inr \<lparr>scripts_file = \<lparr>content = Absent, outcomes = [True, False]\<rparr>, scripts = [], file_scripts = [], max_scripts = 2, max_script_bytes = 90\<rparr>"
    by code_simp
  from scripts_restart [OF this] show ?thesis by simp
qed

section \<open>Edits do not overwrite each other\<close>

text \<open>The revision an operation was given, and the name it is about.\<close>

fun edit_of :: "script_op \<Rightarrow> (string \<times> string) option" where
  "edit_of (Save_script n t e w wn i m) = (case e of None \<Rightarrow> None | Some r \<Rightarrow> Some (n, r))"
| "edit_of (Restore_script n k e i m) = Some (n, e)"
| "edit_of (Show_script n v e) = Some (n, e)"
| "edit_of (Give_script n w wn r) = Some (n, r)"
| "edit_of (Rename_script n m e) = Some (n, e)"
| "edit_of (Delete_script n e) = Some (n, e)"
| "edit_of (Reload_files fs) = None"

definition revision_of :: "string \<Rightarrow> script_store \<Rightarrow> string option" where
  "revision_of n s = map_option ss_revision (map_of (scripts s) (casefold n))"

lemma stored_label:
  "wf_scripts (scripts s) \<Longrightarrow> map_of (scripts s) (casefold n) = Some x \<Longrightarrow> casefold (ss_name x) = casefold n"
  by (auto simp: wf_scripts_def wf_script_def dest!: dict_allD)

lemma stale_save: "Some r \<noteq> revision_of n s \<Longrightarrow> \<exists>e. save_script n t (Some r) w wn i m s = (Inl e, s)"
  by (rule save_script_cases [of n t "Some r" w wn i m s]) (auto simp: revision_of_def)

lemma stale_on_script:
  "Some r \<noteq> revision_of n s \<Longrightarrow> wf_scripts (scripts s) \<Longrightarrow> \<exists>e. on_script n r f s = (Inl e, s)"
proof (cases "find_stored n s")
  case (Inr x)
  assume "Some r \<noteq> revision_of n s" "wf_scripts (scripts s)"
  with Inr stored_is_known(1) [of n s x] show ?thesis by (auto simp: on_script_def check_def revision_of_def)
qed (simp add: on_script_def)

text \<open>C31: An edit that was prepared on another revision of a script than the stored one, be it a save, restore, rename, deletion or
  change of visibility or owner, is refused and changes neither memory nor file.\<close>

theorem stale_edits_change_nothing:
  assumes "wf_scripts (scripts s)" "edit_of op = Some (n, r)" "revision_of n s \<noteq> Some r"
  shows "\<exists>e. script_step op s = (Inl e, s)"
proof -
  note stale = stale_save [of r _ s] stale_on_script [of r _ s, OF _ assms(1)]
  show ?thesis
  proof (cases op)
    case (Save_script n' t e w wn i m)
    with assms(2,3) stale(1) [of n t w wn i m] show ?thesis by (auto split: option.splits)
  next
    case (Restore_script n' k e i m)
    show ?thesis
    proof (cases "find_stored n s")
      case (Inr x)
      then have "revision_of (ss_name x) s = revision_of n s"
        using stored_label [OF assms(1)] stored_is_known(1) [OF Inr assms(1)] by (simp add: revision_of_def)
      with Restore_script Inr assms(2,3) stale(1) [of "ss_name x" "sr_source (ss_history x ! (nat k - 1))" None None i m]
      show ?thesis by (auto simp: restore_script_def)
    qed (use Restore_script assms(2) in \<open>simp add: restore_script_def\<close>)
  next
    case (Give_script n' w wn r')
    show ?thesis
    proof (cases "get_script n s")
      case (Inr x)
      have "is_file_script x \<or> ss_revision x \<noteq> r"
        using Inr assms(3)
        by (auto simp: get_script_def all_scripts_lookup [OF assms(1)] is_file_script_def as_script_def revision_of_def split: option.splits)
      with Give_script Inr assms(2) show ?thesis by (auto simp: set_script_owner_def check_def)
    qed (use Give_script assms(2) in \<open>simp add: set_script_owner_def\<close>)
  next
    case (Show_script n' v e)
    with assms(2,3) stale(2) show ?thesis by (auto simp: set_script_visibility_def)
  next
    case (Rename_script n' m e)
    with assms(2,3) stale(2) show ?thesis by (auto simp: rename_script_def split: sum.split)
  next
    case (Delete_script n' e)
    with assms(2,3) stale(2) show ?thesis by (auto simp: delete_script_def)
  qed (use assms(2) in simp)
qed

definition one_script :: script_store where
  "one_script = \<lparr>scripts_file = \<lparr>content = Absent, outcomes = []\<rparr>, scripts = [(''mine'', \<lparr>ss_name = ''Mine'', ss_source = ''log(1)'',
     ss_revision = ''r1'', ss_owner = Some ''xuid:77'', ss_owner_name = Some ''Alex'', ss_visibility = ''private'', ss_history = [], ss_saved = 100\<rparr>)],
     file_scripts = [], max_scripts = 2, max_script_bytes = 90\<rparr>"

lemma one_script_wf: "wf_scripts (scripts one_script)"
  by code_simp

theorem stale_edits_change_nothing_witness:
  "\<exists>e. script_step (Save_script ''mine'' ''log(2)'' (Some ''r0'') None None ''r2'' 200) one_script = (Inl e, one_script)"
proof (rule stale_edits_change_nothing [OF one_script_wf])
  show "edit_of (Save_script ''mine'' ''log(2)'' (Some ''r0'') None None ''r2'' 200) = Some (''mine'', ''r0'')" by simp
  show "revision_of ''mine'' one_script \<noteq> Some ''r0''" by code_simp
qed

section \<open>History\<close>

lemma save_scripts_InrD:
  "save_scripts d s = (Inr u, t) \<Longrightarrow> scripts t = d \<and> file_scripts t = file_scripts s \<and> max_scripts t = max_scripts s \<and> max_script_bytes t = max_script_bytes s"
  by (auto simp: save_scripts_def split: if_splits prod.splits sum.splits)

lemma save_script_InrD:
  assumes "save_script n t ex w wn i m s = (Inr x, s')"
  shows "x = next_script (map_of (scripts s) (casefold n)) n t w wn i m" "scripts s' = put_script n x s" "file_scripts s' = file_scripts s"
proof -
  have "x = next_script (map_of (scripts s) (casefold n)) n t w wn i m \<and> scripts s' = put_script n x s \<and> file_scripts s' = file_scripts s"
  proof (rule save_script_cases [of n t ex w wn i m s])
    fix z assume z: "z = next_script (map_of (scripts s) (casefold n)) n t w wn i m"
      "save_script n t ex w wn i m s = sthen (save_scripts (put_script n z s)) (ret z) s"
    then have "sbind (save_scripts (put_script n z s)) (\<lambda>_. ret z) s = (Inr x, s')" using assms by (simp add: sthen_def)
    from sbind_InrD [OF this] obtain u where "save_scripts (put_script n z s) s = (Inr u, s')" "z = x" by auto
    with z(1) save_scripts_InrD show ?thesis by blast
  qed (use assms in simp)
  then show "x = next_script (map_of (scripts s) (casefold n)) n t w wn i m" "scripts s' = put_script n x s" "file_scripts s' = file_scripts s"
    by simp_all
qed

text \<open>Restoring the newest history entry after a save gives the source from before the save again, as a new revision, and the saved
  source is then the newest entry: nothing is lost by an edit that is taken back.\<close>

theorem restore_takes_a_save_back:
  assumes "wf_scripts (scripts s)" "map_of (scripts s) (casefold n) = Some old"
    and "save_script n t ex w wn i m s = (Inr x, s')" "restore_script n 1 i i' m' s' = (Inr y, s'')"
  shows "ss_source y = ss_source old \<and> ss_revision y = i' \<and> ss_name y = ss_name old \<and> ss_visibility y = ss_visibility old \<and>
    ss_history y = take 10 (\<lparr>sr_revision = i, sr_source = t, sr_saved = m\<rparr> #
      \<lparr>sr_revision = ss_revision old, sr_source = ss_source old, sr_saved = ss_saved old\<rparr> # ss_history old)"
proof -
  have x: "x = next_script (Some old) n t w wn i m" and s': "scripts s' = put_script n x s" "file_scripts s' = file_scripts s"
    using save_script_InrD [OF assms(3)] assms(2) by simp_all
  have "save_script n t ex w wn i m s = (Inr x, s')" by fact
  then have wf: "wf_scripts (scripts s')"
    using assms(1) next_script_wf [OF assms(1), of n t w wn i m] assms(2) x s'
    by (rule_tac save_script_cases [of n t ex w wn i m s]) (auto simp: intro!: wf_put)
  from assms(4) obtain z where z: "find_stored n s' = Inr z"
    "save_script (ss_name z) (sr_source (ss_history z ! 0)) (Some i) None None i' m' s' = (Inr y, s'')"
    by (auto simp: restore_script_def split: sum.splits if_splits)
  have zx: "z = x" using stored_is_known(1) [OF z(1) wf] by (simp add: s' put_script_def)
  have label: "casefold (ss_name x) = casefold n" using stored_label [OF wf, of n x] by (simp add: s' put_script_def)
  have "y = next_script (Some x) (ss_name x) (sr_source (ss_history x ! 0)) None None i' m'"
    using save_script_InrD(1) [OF z(2)] by (simp add: zx label s' put_script_def)
  then show ?thesis by (simp add: next_script_def x script_history_def)
qed

theorem restore_takes_a_save_back_witness:
  "\<exists>x y s' s''. save_script ''mine'' ''log(2)'' (Some ''r1'') None None ''r2'' 200 one_script = (Inr x, s') \<and>
     restore_script ''mine'' 1 ''r2'' ''r3'' 300 s' = (Inr y, s'') \<and> ss_source y = ''log(1)''"
proof -
  let ?s = "save_script ''mine'' ''log(2)'' (Some ''r1'') None None ''r2'' 200 one_script"
  let ?r = "restore_script ''mine'' 1 ''r2'' ''r3'' 300 (snd ?s)"
  have "\<not> isl (fst ?s)" "\<not> isl (fst ?r)" by code_simp+
  then obtain x y where xy: "?s = (Inr x, snd ?s)" "?r = (Inr y, snd ?r)" by (metis prod.collapse sum.collapse(2))
  have old: "map_of (scripts one_script) (casefold ''mine'') = Some (snd (hd (scripts one_script)))" by code_simp
  have "ss_source (snd (hd (scripts one_script))) = ''log(1)''" by (simp add: one_script_def)
  with restore_takes_a_save_back [OF one_script_wf old xy] xy show ?thesis by metis
qed

section \<open>File scripts\<close>

definition names_in :: "(string, 'a) dict \<Rightarrow> string set" where
  "names_in d = set (keys d)"

lemma names_none: "map_of d k = None \<longleftrightarrow> k \<notin> names_in d"
  by (simp add: names_in_def map_of_eq_None_iff)

definition apart :: "script_store \<Rightarrow> bool" where
  "apart s \<longleftrightarrow> names_in (file_scripts s) \<inter> names_in (scripts s) = {}"

lemma save_scripts_apart:
  "names_in (file_scripts s) \<inter> names_in d = {} \<Longrightarrow> apart s \<Longrightarrow>
   apart (snd (save_scripts d s)) \<and> file_scripts (snd (save_scripts d s)) = file_scripts s"
  by (auto simp: save_scripts_def apart_def split: prod.split sum.split)

lemma not_a_file_key: "not_a_file n s = Inr u \<longleftrightarrow> casefold n \<notin> names_in (file_scripts s)"
  by (auto simp: not_a_file_def names_none [symmetric] split: option.split)

lemma keys_dict_set: "names_in (dict_set k v d) = insert k (names_in d)"
proof -
  have "x \<in> names_in e \<longleftrightarrow> map_of e x \<noteq> None" for x and e :: "(string, 'a) dict" by (simp add: names_none)
  then show ?thesis by (simp only: set_eq_iff) simp
qed

lemma keys_dict_pop: "names_in (dict_pop k d) = names_in d - {k}"
proof -
  have "x \<in> names_in e \<longleftrightarrow> map_of e x \<noteq> None" for x and e :: "(string, 'a) dict" by (simp add: names_none)
  then show ?thesis by (simp only: set_eq_iff) auto
qed

lemma on_script_apart:
  assumes "apart s" "\<And>x d. find_stored n s = Inr x \<Longrightarrow> f x = Inr d \<Longrightarrow> names_in (file_scripts s) \<inter> names_in d = {}"
  shows "apart (snd (on_script n r f s)) \<and> file_scripts (snd (on_script n r f s)) = file_scripts s"
proof (cases "ebind (find_stored n s) (\<lambda>x. ebind (check (ss_revision x = r) script_changed) (\<lambda>_. f x))")
  case (Inr d)
  then have "names_in (file_scripts s) \<inter> names_in d = {}" using assms(2) by auto
  from save_scripts_apart [OF this assms(1)] show ?thesis unfolding on_script_def Inr by simp
qed (use assms(1) in \<open>simp add: on_script_def\<close>)

lemma save_script_apart:
  "apart s \<Longrightarrow> apart (snd (save_script n t ex w wn i m s)) \<and> file_scripts (snd (save_script n t ex w wn i m s)) = file_scripts s"
proof (rule save_script_cases [of n t ex w wn i m s])
  fix x assume a: "apart s" "map_of (file_scripts s) (casefold n) = None"
    "save_script n t ex w wn i m s = sthen (save_scripts (put_script n x s)) (ret x) s"
  have "casefold n \<notin> names_in (file_scripts s)" using a(2) by (simp add: names_none)
  then have "names_in (file_scripts s) \<inter> names_in (put_script n x s) = {}"
    using a(1) by (simp add: put_script_def keys_dict_set apart_def)
  from save_scripts_apart [OF this a(1)] show ?thesis
    using a(3) by (auto simp: sthen_def sbind_def split: prod.split sum.split)
qed simp_all

lemma keys_all_scripts: "wf_scripts (scripts s) \<Longrightarrow> k \<notin> names_in (all_scripts s) \<Longrightarrow> k \<notin> names_in (file_scripts s)"
proof -
  assume wf: "wf_scripts (scripts s)" and k: "k \<notin> names_in (all_scripts s)"
  then have "map_of (all_scripts s) k = None" by (simp add: names_none)
  then have "map_of (file_scripts s) k = None" by (auto simp: all_scripts_lookup [OF wf] split: option.splits)
  then show ?thesis by (simp add: names_none)
qed

lemma script_step_apart:
  assumes wf: "wf_scripts (scripts s)" and a: "apart s"
  shows "apart (snd (script_step op s)) \<and> (case op of Reload_files fs \<Rightarrow> True | _ \<Rightarrow> file_scripts (snd (script_step op s)) = file_scripts s)"
proof -
  have known: "casefold n \<notin> names_in (file_scripts s)" if "find_stored n s = Inr x" for n x
    using that by (auto simp: find_stored_def not_a_file_key)
  have put: "names_in (file_scripts s) \<inter> names_in (put_script n x s) = {}" if "casefold n \<notin> names_in (file_scripts s)" for n x
    using that a by (simp add: put_script_def keys_dict_set apart_def)
  show ?thesis
  proof (cases op)
    case (Save_script n t e w wn i m)
    then show ?thesis using save_script_apart [OF a] by simp
  next
    case (Restore_script n k e i m)
    then show ?thesis using save_script_apart [OF a] a by (auto simp: restore_script_def split: sum.split)
  next
    case (Show_script n v e)
    have "apart (snd (on_script n e (\<lambda>x. Inr (put_script n (x\<lparr>ss_visibility := v\<rparr>) s)) s)) \<and>
      file_scripts (snd (on_script n e (\<lambda>x. Inr (put_script n (x\<lparr>ss_visibility := v\<rparr>) s)) s)) = file_scripts s"
      by (rule on_script_apart [OF a]) (use put known in blast)
    with Show_script a show ?thesis by (simp add: set_script_visibility_def)
  next
    case (Give_script n w wn r)
    show ?thesis
    proof (cases "snd (script_step op s) = s")
      case False
      then obtain x where x: "get_script n s = Inr x" "\<not> is_file_script x"
        "snd (script_step op s) = snd (save_scripts (put_script (ss_name x) (x\<lparr>ss_owner := w, ss_owner_name := wn\<rparr>) s) s)"
        by (auto simp: Give_script set_script_owner_def split: sum.splits)
      have "map_of (scripts s) (casefold n) = Some x"
        using x(1,2) by (auto simp: get_script_def all_scripts_lookup [OF wf] is_file_script_def as_script_def split: option.splits)
      then have "casefold (ss_name x) \<in> names_in (scripts s)"
        using stored_label [OF wf] names_none [of "scripts s"] by (metis option.distinct(1))
      then have "casefold (ss_name x) \<notin> names_in (file_scripts s)" using a unfolding apart_def by blast
      with x(3) save_scripts_apart [OF put a] show ?thesis by (simp add: Give_script)
    qed (simp add: Give_script a)
  next
    case (Rename_script n m e)
    have "names_in (file_scripts s) \<inter> names_in (dict_set (casefold m) y (dict_pop (casefold n) (scripts s))) = {}"
      if "find_stored n s = Inr x" "casefold m = casefold n \<or> casefold m \<notin> names_in (all_scripts s)" for x y
      using known [OF that(1)] that(2) keys_all_scripts [OF wf, of "casefold m"] a
      unfolding keys_dict_set keys_dict_pop apart_def by auto
    then have "apart (snd (on_script n e f s)) \<and> file_scripts (snd (on_script n e f s)) = file_scripts s"
      if "f = (\<lambda>x. if casefold m \<noteq> casefold n \<and> casefold m \<in> names_in (all_scripts s)
        then Inl (LocalizedError ''Script {name} already exists'' [(''name'', m)])
        else Inr (dict_set (casefold m) (x\<lparr>ss_name := m\<rparr>) (dict_pop (casefold n) (scripts s))))" for f
      unfolding that by (intro on_script_apart [OF a]) (auto simp flip: names_in_def split: if_splits)
    note renamed = this [OF refl]
    have "script_step op s = rename_script n m e s" by (simp add: Rename_script)
    then show ?thesis
      using renamed a unfolding rename_script_def names_in_def [symmetric] by (simp add: Rename_script split: sum.split)
  next
    case (Delete_script n e)
    have "names_in (file_scripts s) \<inter> names_in (dict_pop (casefold n) (scripts s)) = {}"
      using a unfolding keys_dict_pop apart_def by blast
    then have "apart (snd (on_script n e (\<lambda>x. Inr (dict_pop (casefold n) (scripts s))) s)) \<and>
      file_scripts (snd (on_script n e (\<lambda>x. Inr (dict_pop (casefold n) (scripts s))) s)) = file_scripts s"
      by (intro on_script_apart [OF a]) simp
    with Delete_script show ?thesis by (simp add: delete_script_def)
  next
    case (Reload_files fs)
    then show ?thesis by (auto simp: set_files_def apart_def names_in_def)
  qed
qed

text \<open>Through any operations and reloads, with any writes failing, no stored script ever has the name of a script of the operator's
  folder: a file script cannot be shadowed, edited, renamed onto or given away.\<close>

theorem file_scripts_are_never_shadowed:
  assumes "open_scripts most bytes k = Inr s"
  shows "apart (scripts_run ops s)"
proof -
  have "wf_scripts (scripts t) \<Longrightarrow> apart t \<Longrightarrow> apart (scripts_run ops t)" for t
  proof (induction ops arbitrary: t)
    case (Cons op ops)
    have "wf_scripts (scripts (snd (script_step op t)))"
      using script_step_settled [OF Cons.prems(1), of op] Cons.prems(1) by (auto simp: settled_def)
    with Cons script_step_apart [of t op] show ?case by (simp add: scripts_run_def)
  qed (simp add: scripts_run_def)
  moreover have "wf_scripts (scripts s)" using scripts_restart [OF assms, of "[]"] by (simp add: scripts_run_def)
  moreover have "apart s" using assms by (auto simp: open_scripts_def apart_def names_in_def)
  ultimately show ?thesis by blast
qed

theorem file_scripts_are_never_shadowed_witness:
  "apart (scripts_run [Reload_files [(''dig'', \<lparr>fs_name = ''dig'', fs_source = ''log(1)'', fs_revision = ''file:1'', fs_saved = 1\<rparr>)],
      Save_script ''Dig'' ''log(2)'' None None None ''r1'' 2]
    \<lparr>scripts_file = \<lparr>content = Absent, outcomes = []\<rparr>, scripts = [], file_scripts = [], max_scripts = 2, max_script_bytes = 90\<rparr>)"
proof (rule file_scripts_are_never_shadowed)
  show "open_scripts 2 90 \<lparr>content = Absent, outcomes = []\<rparr> =
    Inr \<lparr>scripts_file = \<lparr>content = Absent, outcomes = []\<rparr>, scripts = [], file_scripts = [], max_scripts = 2, max_script_bytes = 90\<rparr>"
    by code_simp
qed

end
