(* ===== verification/Text_Lines.thy ===== *)
theory Text_Lines
  imports Shell_Words
begin

text \<open>
  Lines of a text as \<open>str.splitlines\<close> cuts them: every line with the characters that end it, none for a last line
  without an end.
\<close>

text \<open>Universal newlines, \<open>replace('\r\n', '\n').replace('\r', '\n')\<close>.\<close>

fun unix_newlines :: "string \<Rightarrow> string" where
  "unix_newlines [] = []"
| "unix_newlines (c # s) = (if c = CHR 0x0D then CHR 0x0A # unix_newlines (if s \<noteq> [] \<and> hd s = CHR 0x0A then tl s else s)
     else c # unix_newlines s)"

definition ends_line :: "char \<Rightarrow> bool" where
  "ends_line c \<longleftrightarrow> (10 \<le> code c \<and> code c \<le> 13) \<or> (28 \<le> code c \<and> code c \<le> 30)"

fun lines_from :: "string \<Rightarrow> string \<Rightarrow> (string \<times> string) list" where
  "lines_from cur [] = (if cur = [] then [] else [(cur, [])])"
| "lines_from cur (c # s) =
     (if c = CHR 0x0D \<and> s \<noteq> [] \<and> hd s = CHR 0x0A then (cur, [c, hd s]) # lines_from [] (tl s)
      else if ends_line c then (cur, [c]) # lines_from [] s
      else lines_from (cur @ [c]) s)"

definition line_parts :: "string \<Rightarrow> (string \<times> string) list" where
  "line_parts s = lines_from [] s"

definition splitlines :: "string \<Rightarrow> string list" where
  "splitlines s = map fst (line_parts s)"

definition keepends :: "string \<Rightarrow> string list" where
  "keepends s = map (\<lambda>(body, ending). body @ ending) (line_parts s)"

lemma unix_same: "CHR 0x0D \<notin> set p \<Longrightarrow> unix_newlines p = p"
  by (induction p) auto

lemma lines_from_joined: "concat (map (\<lambda>(body, ending). body @ ending) (lines_from cur s)) = cur @ s"
  by (induction cur s rule: lines_from.induct) (auto dest: list.collapse)

lemma keepends_joined: "concat (keepends s) = s"
  by (simp add: keepends_def line_parts_def lines_from_joined)

definition one_line :: "string \<Rightarrow> bool" where
  "one_line s \<longleftrightarrow> list_all (\<lambda>c. \<not> ends_line c) s"

lemma lines_from_bodies: "one_line cur \<Longrightarrow> (body, ending) \<in> set (lines_from cur s) \<Longrightarrow> one_line body"
  by (induction cur s rule: lines_from.induct) (auto simp: one_line_def split: if_splits)

lemma splitlines_one_line: "l \<in> set (splitlines s) \<Longrightarrow> one_line l"
  by (auto simp: splitlines_def line_parts_def one_line_def dest!: lines_from_bodies [rotated])

lemma no_break: "one_line s \<Longrightarrow> lines_from cur (s @ t) = lines_from (cur @ s) t"
proof (induction s arbitrary: cur)
  case (Cons c s)
  then have "\<not> ends_line c" "c \<noteq> CHR 0x0D" by (auto simp: one_line_def ends_line_def code_def)
  with Cons show ?case by (simp add: one_line_def)
qed simp

lemma splitlines_unix: "splitlines (unix_newlines s) = splitlines s"
proof -
  have "map fst (lines_from cur (unix_newlines s)) = map fst (lines_from cur s)" for cur
  proof (induction cur s rule: lines_from.induct)
    case (2 cur c s)
    have lf: "ends_line (CHR 0x0A)" "ends_line (CHR 0x0D)" by (simp_all add: ends_line_def code_def)
    show ?case
    proof (cases "c = CHR 0x0D")
      case True
      then show ?thesis using 2 lf by (cases "s \<noteq> [] \<and> hd s = CHR 0x0A") auto
    next
      case False
      then show ?thesis using 2 by auto
    qed
  qed simp
  then show ?thesis by (simp add: splitlines_def line_parts_def)
qed

section \<open>Texts cut at ordinary line ends\<close>

text \<open>Lines and their ends as \<open>line_parts\<close> gives them, when every end is a line feed, a carriage return or both.\<close>

definition joined :: "(string \<times> string) list \<Rightarrow> string" where
  "joined ps = concat (map (\<lambda>p. fst p @ snd p) ps)"

definition plain_end :: "string \<Rightarrow> bool" where
  "plain_end en \<longleftrightarrow> en \<in> {[], [CHR 0x0A], [CHR 0x0D], [CHR 0x0D, CHR 0x0A]}"

definition starts_lf :: "(string \<times> string) list \<Rightarrow> bool" where
  "starts_lf ps \<longleftrightarrow> ps \<noteq> [] \<and> fst (hd ps) = [] \<and> snd (hd ps) = [CHR 0x0A]"

fun well_cut :: "(string \<times> string) list \<Rightarrow> bool" where
  "well_cut [] = True"
| "well_cut (p # ps) \<longleftrightarrow> one_line (fst p) \<and> plain_end (snd p) \<and> (snd p = [] \<longrightarrow> fst p \<noteq> [] \<and> ps = []) \<and>
     (snd p = [CHR 0x0D] \<longrightarrow> \<not> starts_lf ps) \<and> well_cut ps"

definition plain_breaks :: "string \<Rightarrow> bool" where
  "plain_breaks s \<longleftrightarrow> list_all (\<lambda>c. ends_line c \<longrightarrow> c \<in> {CHR 0x0A, CHR 0x0D}) s"

lemma joined_simps [simp]: "joined [] = []" "joined (p # ps) = fst p @ snd p @ joined ps" "joined (ps @ qs) = joined ps @ joined qs"
  by (simp_all add: joined_def)

lemma keepends_line_parts: "keepends s = map (\<lambda>p. fst p @ snd p) (line_parts s)"
  by (simp add: keepends_def case_prod_unfold)

lemma joined_line_parts: "joined (line_parts s) = s"
  using keepends_joined [of s] by (simp add: keepends_line_parts joined_def)

lemma lf_cr_end: "ends_line (CHR 0x0A)" "ends_line (CHR 0x0D)"
  by (simp_all add: ends_line_def code_def)

lemma lines_from_started: "cur \<noteq> [] \<Longrightarrow> \<not> starts_lf (lines_from cur s)"
  by (induction cur s rule: lines_from.induct) (auto simp: starts_lf_def)

lemma lines_from_lf: "s \<noteq> [] \<longrightarrow> hd s \<noteq> CHR 0x0A \<Longrightarrow> \<not> starts_lf (lines_from [] s)"
proof (cases s)
  case (Cons c t)
  assume "s \<noteq> [] \<longrightarrow> hd s \<noteq> CHR 0x0A"
  then show ?thesis using lines_from_started [of "[c]" t] by (auto simp: Cons starts_lf_def)
qed (simp add: starts_lf_def)

lemma lines_from_cut: "one_line cur \<Longrightarrow> plain_breaks s \<Longrightarrow> well_cut (lines_from cur s)"
proof (induction cur s rule: lines_from.induct)
  case (2 cur c s)
  have s: "plain_breaks s" "plain_breaks (tl s)" using 2(5) by (cases s; simp add: plain_breaks_def)+
  have e: "one_line []" by (simp add: one_line_def)
  consider "c = CHR 0x0D \<and> s \<noteq> [] \<and> hd s = CHR 0x0A" | "\<not> (c = CHR 0x0D \<and> s \<noteq> [] \<and> hd s = CHR 0x0A)" "ends_line c" | "\<not> ends_line c" "c \<noteq> CHR 0x0D"
    using lf_cr_end by blast
  then show ?case
  proof cases
    case 1
    then show ?thesis using 2(1) [OF 1 e s(2)] 2(4) by (simp add: plain_end_def)
  next
    case 2
    then have "c = CHR 0x0A \<or> c = CHR 0x0D" using \<open>plain_breaks (c # s)\<close> by (auto simp: plain_breaks_def)
    then show ?thesis
      using 2 "2.prems" "2.IH"(2) [OF 2 e s(1)] lines_from_lf [of s] by (auto simp: plain_end_def)
  next
    case 3
    then have "one_line (cur @ [c])" using "2.prems"(1) by (simp add: one_line_def)
    then show ?thesis using 3 "2.IH"(3) s(1) by auto
  qed
qed (simp add: plain_end_def)

lemma line_parts_cut: "plain_breaks s \<Longrightarrow> well_cut (line_parts s)"
  by (simp add: line_parts_def lines_from_cut one_line_def)

lemma joined_starts_lf: "well_cut ps \<Longrightarrow> joined ps \<noteq> [] \<Longrightarrow> hd (joined ps) = CHR 0x0A \<Longrightarrow> starts_lf ps"
proof (cases ps)
  case (Cons p qs)
  assume a: "well_cut ps" "hd (joined ps) = CHR 0x0A"
  show ?thesis
  proof (cases "fst p")
    case Nil
    then show ?thesis using a by (auto simp: Cons starts_lf_def plain_end_def)
  next
    case (Cons c b)
    then show ?thesis using a lf_cr_end by (auto simp: \<open>ps = p # qs\<close> one_line_def)
  qed
qed simp

lemma line_parts_joined: "well_cut ps \<Longrightarrow> line_parts (joined ps) = ps"
proof (induction ps)
  case (Cons p ps)
  obtain b en where p: "p = (b, en)" by (cases p)
  have IH: "lines_from [] (joined ps) = ps" using Cons by (simp add: line_parts_def)
  have b: "one_line b" using Cons.prems by (simp add: p)
  have lf: "hd (joined ps) \<noteq> CHR 0x0A" if "en = [CHR 0x0D]" "joined ps \<noteq> []"
    using joined_starts_lf [of ps] Cons.prems that by (auto simp: p)
  have "lines_from b (en @ joined ps) = (b, en) # ps"
    using Cons.prems IH lf lf_cr_end by (auto simp: p plain_end_def)
  then show ?case by (simp add: line_parts_def p no_break [OF b])
qed (simp add: line_parts_def)

text \<open>A last line without an end gets one.\<close>

definition close_last :: "(string \<times> string) list \<Rightarrow> (string \<times> string) list" where
  "close_last ps = map (\<lambda>p. (fst p, if snd p = [] then [CHR 0x0A] else snd p)) ps"

definition ends_open :: "string \<Rightarrow> bool" where
  "ends_open s \<longleftrightarrow> s \<noteq> [] \<and> last s \<notin> {CHR 0x0A, CHR 0x0D}"

lemma well_cut_nonempty: "well_cut ps \<Longrightarrow> joined ps = [] \<longleftrightarrow> ps = []"
  by (cases ps) auto

lemma close_last_joined: "well_cut ps \<Longrightarrow> joined (close_last ps) = joined ps @ (if ends_open (joined ps) then [CHR 0x0A] else [])"
proof (induction ps)
  case (Cons p ps)
  show ?case
  proof (cases "ps = []")
    case True
    have "fst p \<noteq> [] \<Longrightarrow> \<not> ends_line (last (fst p))"
      using Cons.prems last_in_set [of "fst p"] by (simp add: one_line_def list_all_iff)
    then have "fst p \<noteq> [] \<Longrightarrow> last (fst p) \<noteq> CHR 0x0A \<and> last (fst p) \<noteq> CHR 0x0D" using lf_cr_end by metis
    moreover have "snd p \<in> {[], [CHR 0x0A], [CHR 0x0D], [CHR 0x0D, CHR 0x0A]}" "snd p = [] \<Longrightarrow> fst p \<noteq> []"
      using Cons.prems by (simp_all add: plain_end_def)
    ultimately show ?thesis using True by (auto simp: close_last_def ends_open_def)
  next
    case False
    then have "joined ps \<noteq> []" using Cons.prems well_cut_nonempty by auto
    then have "ends_open (joined (p # ps)) = ends_open (joined ps)" by (auto simp: ends_open_def)
    then show ?thesis using Cons False by (auto simp: close_last_def)
  qed
qed (simp add: close_last_def ends_open_def)

lemma well_cut_close: "well_cut ps \<Longrightarrow> well_cut (close_last ps)"
proof (induction ps)
  case (Cons p ps)
  have "starts_lf (close_last ps) \<Longrightarrow> well_cut ps \<Longrightarrow> starts_lf ps"
    by (cases ps) (auto simp: close_last_def starts_lf_def split: if_splits)
  then show ?case using Cons by (auto simp: close_last_def plain_end_def)
qed (simp add: close_last_def)

lemma well_cut_append:
  "well_cut ps \<Longrightarrow> list_all (\<lambda>p. snd p \<noteq> []) ps \<Longrightarrow> well_cut qs \<Longrightarrow> \<not> starts_lf qs \<Longrightarrow> well_cut (ps @ qs)"
proof (induction ps)
  case (Cons p ps)
  have "starts_lf (ps @ qs) \<Longrightarrow> starts_lf ps" using Cons.prems by (cases ps) (auto simp: starts_lf_def)
  then show ?case using Cons by auto
qed simp

end
