(* ===== verification/Script_Books.thy ===== *)
theory Script_Books
  imports Text_Lines Effects
begin

text \<open>
  Script source in a book and quill, \<open>endbot_core/script_books.py\<close>. A held item is its type and, when its tag has
  pages, the text of each page; the item library itself is not modelled.
\<close>

definition book_page_chars :: nat where
  "book_page_chars = 256"

definition book_pages_most :: nat where
  "book_pages_most = 50"

section \<open>Pages to source\<close>

definition strip_blank_tail :: "string list \<Rightarrow> string list" where
  "strip_blank_tail ps = rev (dropWhile (\<lambda>p. strip p = []) (rev ps))"

definition ends_with_newline :: "string \<Rightarrow> bool" where
  "ends_with_newline s \<longleftrightarrow> s \<noteq> [] \<and> last s = CHR 0x0A"

definition add_page :: "string \<Rightarrow> string \<Rightarrow> string" where
  "add_page text page = (let page = unix_newlines page in
     text @ (if text = [] \<or> ends_with_newline text then page else CHR 0x0A # page))"

definition pages_to_source :: "string list \<Rightarrow> py_error + string" where
  "pages_to_source ps = (let ps = strip_blank_tail ps in
     if ps = [] then Inl (LocalizedError ''The book is empty'' [])
     else let text = foldl add_page [] ps in
       Inr ((if ends_with_newline text then butlast text else text) @ [CHR 0x0A]))"

section \<open>Source to pages\<close>

text \<open>Whole lines packed into pages; a line is numbered from one in its error.\<close>

fun pack :: "nat \<Rightarrow> string list \<Rightarrow> string option \<Rightarrow> string list \<Rightarrow> py_error + string list" where
  "pack k pages page [] = Inr (pages @ (case page of None \<Rightarrow> [] | Some p \<Rightarrow> [p]))"
| "pack k pages page (l # ls) =
     (if length l > book_page_chars then Inl (LocalizedError ''Line {line} is longer than a book page ({limit} characters)''
        [(''line'', show_nat k), (''limit'', show_nat book_page_chars)])
      else (case page of
          None \<Rightarrow> pack (Suc k) pages (Some l) ls
        | Some p \<Rightarrow> if length p + 1 + length l \<le> book_page_chars then pack (Suc k) pages (Some (p @ [CHR 0x0A] @ l)) ls
            else pack (Suc k) (pages @ [p]) (Some l) ls))"

definition source_to_pages :: "string \<Rightarrow> py_error + string list" where
  "source_to_pages s = ebind (pack 1 [] None (splitlines s)) (\<lambda>ps.
     if ps = [] then Inl (LocalizedError ''The script is empty'' [])
     else if length ps > book_pages_most then Inl (LocalizedError ''The script does not fit in one book ({pages} of {limit} pages)''
       [(''pages'', show_nat (length ps)), (''limit'', show_nat book_pages_most)])
     else Inr ps)"

section \<open>The held book\<close>

text \<open>The pages of the item's tag, if it has any; a page without a text is \<open>None\<close>.\<close>

record book_item =
  book_type :: string
  book_list :: "string option list option"

definition writable_book :: string where
  "writable_book = ''minecraft:writable_book''"

definition readable_books :: "string list" where
  "readable_books = [''minecraft:writable_book'', ''minecraft:written_book'']"

definition book_pages :: "bool \<Rightarrow> book_item option \<Rightarrow> py_error + string list" where
  "book_pages writable held = (case held of
     None \<Rightarrow> Inl (LocalizedError (if writable then ''Hold a book and quill in your main hand''
       else ''Hold a book and quill or a written book in your main hand'') [])
   | Some b \<Rightarrow>
       if writable \<and> book_type b \<noteq> writable_book then Inl (LocalizedError ''Hold a book and quill in your main hand'' [])
       else if book_type b \<notin> set readable_books then Inl (LocalizedError ''Hold a book and quill or a written book in your main hand'' [])
       else Inr (map (\<lambda>p. case p of None \<Rightarrow> [] | Some t \<Rightarrow> t) (case book_list b of None \<Rightarrow> [] | Some ps \<Rightarrow> ps)))"

definition written_on :: "string list \<Rightarrow> bool" where
  "written_on ps \<longleftrightarrow> (\<exists>p \<in> set ps. strip p \<noteq> [])"

definition fill_book :: "book_item option \<Rightarrow> string list \<Rightarrow> string list option \<Rightarrow> py_error + book_item" where
  "fill_book held ps expected = ebind (book_pages True held) (\<lambda>current.
     if written_on current \<and> Some current \<noteq> expected
     then Inl (LocalizedError (if expected = None then ''The book and quill is not empty; hold an empty one''
       else ''The book changed; check it again'') [])
     else (case held of Some b \<Rightarrow> Inr (b\<lparr>book_list := Some (map Some ps)\<rparr>) | None \<Rightarrow> Inl (LocalizedError [] [])))"

section \<open>Bounds\<close>

lemma pack_pages:
  "pack k pages page ls = Inr ps \<Longrightarrow> list_all (\<lambda>p. length p \<le> book_page_chars) pages \<Longrightarrow>
   (\<And>p. page = Some p \<Longrightarrow> length p \<le> book_page_chars) \<Longrightarrow> list_all (\<lambda>p. length p \<le> book_page_chars) ps"
  by (induction k pages page ls rule: pack.induct) (auto split: if_splits option.splits)

text \<open>A book that a script is put into has at most fifty pages of at most 256 characters.\<close>

theorem books_are_bounded:
  "case source_to_pages s of Inl e \<Rightarrow> True | Inr ps \<Rightarrow> ps \<noteq> [] \<and> length ps \<le> 50 \<and> list_all (\<lambda>p. length p \<le> 256) ps"
proof (cases "source_to_pages s")
  case (Inr ps)
  then have ps: "pack 1 [] None (splitlines s) = Inr ps" "ps \<noteq> []" "length ps \<le> 50"
    by (auto simp: source_to_pages_def book_pages_most_def split: if_splits)
  from pack_pages [OF ps(1)] ps(2,3) show ?thesis by (simp add: Inr book_page_chars_def)
qed simp

section \<open>There and back\<close>

abbreviation nl :: string where
  "nl \<equiv> [CHR 0x0A]"

lemma join_Cons: "join_with sep (x # xs) = (if xs = [] then x else x @ sep @ join_with sep xs)"
  by (cases xs) (simp_all add: join_with_def)

lemma join_snoc: "join_with sep (xs @ [x]) = (if xs = [] then x else join_with sep xs @ sep @ x)"
  by (induction xs) (auto simp: join_Cons)

lemma join_append: "ys \<noteq> [] \<Longrightarrow> xs \<noteq> [] \<Longrightarrow> join_with sep (xs @ ys) = join_with sep xs @ sep @ join_with sep ys"
  by (induction xs) (auto simp: join_Cons)

definition as_list :: "'a option \<Rightarrow> 'a list" where
  "as_list x = (case x of None \<Rightarrow> [] | Some y \<Rightarrow> [y])"

lemma pack_joined: "pack k pages page ls = Inr ps \<Longrightarrow> join_with nl ps = join_with nl (pages @ as_list page @ ls)"
proof (induction k pages page ls rule: pack.induct)
  case (2 k pages page l ls)
  show ?case
  proof (cases page)
    case (Some p)
    have "join_with nl (pages @ (p @ nl @ l) # ls) = join_with nl (pages @ p # l # ls)"
      by (cases "pages = []") (simp_all add: join_append join_Cons)
    then show ?thesis using 2 Some by (auto simp: as_list_def split: if_splits)
  qed (use 2 in \<open>auto simp: as_list_def split: if_splits\<close>)
qed (auto simp: as_list_def split: option.splits)

text \<open>A page that is read back as it is: something is on it, no newline at its end and no carriage return.\<close>

definition clean :: "string \<Rightarrow> bool" where
  "clean p \<longleftrightarrow> (\<exists>c \<in> set p. \<not> is_space c) \<and> \<not> ends_with_newline p \<and> CHR 0x0D \<notin> set p"

lemma clean_line: "one_line l \<Longrightarrow> strip l \<noteq> [] \<Longrightarrow> clean l"
proof -
  assume l: "one_line l" "strip l \<noteq> []"
  have "\<exists>c \<in> set l. \<not> is_space c"
  proof (rule ccontr)
    assume "\<not> (\<exists>c \<in> set l. \<not> is_space c)"
    then have "dropWhile is_space l = []" by (simp add: dropWhile_eq_Nil_conv)
    with l(2) show False by (simp add: strip_def strip_by_def)
  qed
  moreover have "c \<noteq> CHR 0x0D \<and> c \<noteq> CHR 0x0A" if "c \<in> set l" for c
    using l(1) that by (auto simp: one_line_def list_all_iff ends_line_def code_def)
  ultimately show ?thesis unfolding clean_def ends_with_newline_def using last_in_set by blast
qed

lemma clean_join: "clean p \<Longrightarrow> clean l \<Longrightarrow> clean (p @ nl @ l)"
  by (auto simp: clean_def ends_with_newline_def split: if_splits)

lemma pack_clean:
  "pack k pages page ls = Inr ps \<Longrightarrow> list_all clean pages \<Longrightarrow> (\<And>p. page = Some p \<Longrightarrow> clean p) \<Longrightarrow> list_all clean ls \<Longrightarrow> list_all clean ps"
proof (induction k pages page ls rule: pack.induct)
  case (2 k pages page l ls)
  then show ?case using clean_join [simplified] by (auto split: if_splits option.splits)
qed (auto split: option.splits)

lemma clean_nonempty: "clean p \<Longrightarrow> p \<noteq> []" "clean p \<Longrightarrow> strip p \<noteq> []"
proof -
  assume p: "clean p"
  then show "p \<noteq> []" by (auto simp: clean_def)
  from p obtain c where "c \<in> set p" "\<not> is_space c" by (auto simp: clean_def)
  then have "set (dropWhile is_space p) \<noteq> {}" "\<exists>d \<in> set (dropWhile is_space p). \<not> is_space d"
    by (induction p) auto
  then show "strip p \<noteq> []" by (auto simp: strip_def strip_by_def dropWhile_eq_Nil_conv)
qed

lemma pages_joined: "list_all clean ps \<Longrightarrow> list_all clean (as_list t) \<Longrightarrow>
  foldl add_page (join_with nl (as_list t)) ps = join_with nl (as_list t @ ps)"
proof (induction ps arbitrary: t)
  case (Cons p ps)
  have "add_page (join_with nl (as_list t)) p = join_with nl (as_list (Some (join_with nl (as_list t @ [p]))))"
    using Cons.prems by (auto simp: add_page_def as_list_def join_with_def unix_same clean_def split: option.splits)
  moreover have "clean (join_with nl (as_list t @ [p]))"
    using Cons.prems by (auto simp: as_list_def join_with_def clean_join [simplified] split: option.splits)
  ultimately show ?case
    using Cons.IH [of "Some (join_with nl (as_list t @ [p]))"] Cons.prems
    by (auto simp: as_list_def join_Cons split: option.splits)
qed (auto simp: as_list_def)

text \<open>Lines joined and ended are the same lines again.\<close>

lemma lines_joined: "list_all one_line ls \<Longrightarrow> list_all (\<lambda>l. l \<noteq> []) ls \<Longrightarrow> ls \<noteq> [] \<Longrightarrow>
  map fst (lines_from [] (join_with nl ls @ nl)) = ls"
proof (induction ls)
  case (Cons l ls)
  have step: "lines_from l (CHR 0x0A # t) = (l, nl) # lines_from [] t" for t
    by (simp add: ends_line_def code_def)
  show ?case
  proof (cases "ls = []")
    case True
    then show ?thesis using Cons.prems step [of "[]"] no_break [of l "[]" nl] by (simp add: join_Cons)
  next
    case False
    then show ?thesis
      using Cons.prems step Cons.IH no_break [of l "[]" "nl @ join_with nl ls @ nl"] by (simp add: join_Cons)
  qed
qed simp

text \<open>C30: A script without blank lines that fits into a book is read back from the book line by line as it was, ended by one
  newline.\<close>

theorem script_survives_the_book:
  assumes "source_to_pages s = Inr ps" "list_all (\<lambda>l. strip l \<noteq> []) (splitlines s)"
  shows "case pages_to_source ps of Inl e \<Rightarrow> False | Inr t \<Rightarrow> t = join_with nl (splitlines s) @ nl \<and> splitlines t = splitlines s"
proof -
  let ?ls = "splitlines s"
  have ps: "pack 1 [] None ?ls = Inr ps" "ps \<noteq> []"
    using assms(1) by (auto simp: source_to_pages_def split: if_splits)
  have ls: "list_all one_line ?ls" "list_all clean ?ls"
    using assms(2) splitlines_one_line clean_line by (auto simp: list_all_iff)
  have clean: "list_all clean ps" using pack_clean [OF ps(1)] ls(2) by simp
  then have "clean (last ps)" using ps(2) by (simp add: list_all_iff)
  then have tail: "strip_blank_tail ps = ps"
    using ps(2) by (cases ps rule: rev_cases) (simp_all add: strip_blank_tail_def clean_nonempty)
  have whole: "foldl add_page [] ps = join_with nl ?ls"
    using pages_joined [OF clean, of None] pack_joined [OF ps(1)] by (simp add: as_list_def join_with_def)
  have lines: "?ls \<noteq> []" using ps by auto
  have "clean (last ?ls)" using ls(2) lines by (simp add: list_all_iff)
  then have "\<not> ends_with_newline (join_with nl ?ls)"
    using lines clean_nonempty by (cases ?ls rule: rev_cases) (auto simp: join_snoc clean_def ends_with_newline_def)
  then have "pages_to_source ps = Inr (join_with nl ?ls @ nl)"
    by (simp add: pages_to_source_def tail ps(2) whole Let_def)
  moreover have "list_all (\<lambda>l. l \<noteq> []) ?ls" using ls(2) clean_nonempty(1) by (auto simp: list_all_iff)
  then have "splitlines (join_with nl ?ls @ nl) = ?ls"
    using lines_joined [OF ls(1) _ lines] by (simp add: splitlines_def line_parts_def)
  ultimately show ?thesis by simp
qed

theorem script_survives_the_book_witness:
  "case pages_to_source [''a = 1'' @ nl @ ''print(a)''] of Inl e \<Rightarrow> False
   | Inr t \<Rightarrow> t = join_with nl (splitlines (''a = 1'' @ nl @ ''print(a)'')) @ nl \<and> splitlines t = splitlines (''a = 1'' @ nl @ ''print(a)'')"
proof (rule script_survives_the_book)
  show "source_to_pages (''a = 1'' @ nl @ ''print(a)'') = Inr [''a = 1'' @ nl @ ''print(a)'']" by code_simp
  show "list_all (\<lambda>l. strip l \<noteq> []) (splitlines (''a = 1'' @ nl @ ''print(a)''))" by code_simp
qed

definition long_line :: string where
  "long_line = replicate 255 (CHR ''x'')"

text \<open>A blank line that ends a full page is lost on the way back: a script of a line of 255 characters, a blank line and a third
  line comes back with two lines.\<close>

theorem blank_line_is_lost_in_the_book:
  "source_to_pages (long_line @ nl @ nl @ ''y'' @ nl) = Inr [long_line @ nl, ''y''] \<and>
   pages_to_source [long_line @ nl, ''y''] = Inr (long_line @ nl @ ''y'' @ nl)"
proof -
  have line: "one_line long_line" by (simp add: one_line_def long_line_def list_all_iff ends_line_def code_def)
  have "splitlines (long_line @ nl @ nl @ ''y'' @ nl) = [long_line, [], ''y'']"
    using no_break [OF line, of "[]" "nl @ nl @ ''y'' @ nl"] by (simp add: splitlines_def line_parts_def ends_line_def code_def)
  then have "source_to_pages (long_line @ nl @ nl @ ''y'' @ nl) = Inr [long_line @ nl, ''y'']"
    by (simp add: source_to_pages_def book_page_chars_def book_pages_most_def long_line_def)
  moreover have "clean long_line" by (simp add: clean_def long_line_def is_space_def code_def ends_with_newline_def)
  then have "unix_newlines (long_line @ nl) = long_line @ nl" by (intro unix_same) (auto simp: clean_def)
  then have "pages_to_source [long_line @ nl, ''y''] = Inr (long_line @ nl @ ''y'' @ nl)"
    by (simp add: pages_to_source_def strip_blank_tail_def add_page_def ends_with_newline_def strip_def strip_by_def is_space_def code_def)
  ultimately show ?thesis by simp
qed

end
