(* ===== verification/Script_Service.thy ===== *)
theory Script_Service
  imports Help Script_Store Script_Books Triples
begin

text \<open>
  The commands about scripts, class \<open>ScriptService\<close> of \<open>endbot_core/scripting.py\<close>, with the operator's folder
  (\<open>load_files\<close> of \<open>endbot_core/script_store.py\<close>): who sees, runs and changes which script, and the runs that are
  alive. The thread of a run, the runner process and the layout of menus are left out: \<open>start_run\<close> adds a run and
  \<open>retire_run\<close> is what its thread does at its end, an inspection's outcome is given, and a menu is the value
  \<open>script_menu\<close> with the scripts it script_answer. Also given are the two looks at the permission, the folder, the held book,
  a fresh UUID, run identity and the moment. Texts are those of an English reader.
\<close>

section \<open>State and surroundings\<close>

record script_config =
  cf_enabled :: bool
  cf_book_export :: bool
  cf_controller_runs :: nat
  cf_server_runs :: nat

record script_run =
  rn_name :: string
  rn_source :: principal
  rn_canceled :: bool
  rn_requires :: "string list option"

text \<open>\<open>sc_ready\<close>: the store was opened. \<open>sc_inspecting\<close>: the inspections that hold a slot, by controller.\<close>

record script_service =
  sc_store :: script_store
  sc_ready :: bool
  sc_open :: bool
  sc_runs :: "(string, script_run) dict"
  sc_inspecting :: "(string, nat) dict"
  sc_config :: script_config

record script_declaration =
  de_schema :: "json list"
  de_requires :: "string list"

text \<open>An entry of the folder: whether it is a regular file, and its text unless it is no UTF-8.\<close>

record folder_entry =
  fe_name :: string
  fe_regular :: bool
  fe_size :: nat
  fe_text :: "string option"
  fe_time :: int

datatype folder = No_Folder | Bad_Folder | Folder "folder_entry list"

text \<open>
  What a command finds around it: the authority's answer when the command begins and when it is asked again, and what
  the runner, the folder, the world adapter, the GamerTag lookup, the forms' choices, \<open>uuid4\<close> and the clock give.
\<close>

record script_env =
  se_allowed :: bool
  se_still :: bool
  se_inspect :: "string \<Rightarrow> failure + script_declaration"
  se_folder :: folder
  se_folder_name :: string
  se_digest :: "string \<Rightarrow> string"
  se_world :: bool
  se_held :: "bool \<Rightarrow> failure + string list"
  se_fill :: "string list \<Rightarrow> string list option \<Rightarrow> failure + unit"
  se_resolve :: "string \<Rightarrow> (string \<times> string) option"
  se_choices :: "json list \<Rightarrow> failure + unit"
  se_fresh :: string
  se_run :: string
  se_now :: int
  se_time_text :: "int \<Rightarrow> string"

text \<open>\<open>ScriptGuard\<close>: what a form carries. A run form has the values, whose meaning is the run's.\<close>

datatype book_view = Shown_Text string | Shown_Pages "string list"

record script_guard =
  sg_revision :: "string option"
  sg_name :: "string option"
  sg_edit :: bool
  sg_page :: "nat option"
  sg_book :: "book_view option"
  sg_values :: bool
  sg_requires :: "string list option"

datatype script_menu =
    Scripts_Menu "stored_script list"
  | Script_Menu stored_script bool
  | Lines_Menu stored_script nat
  | Import_Menu stored_script string
  | Export_Menu stored_script "string list" string
  | History_Menu stored_script bool
  | Parameters_Menu stored_script script_declaration

record script_result =
  sr_answer :: command_result
  sr_menu :: "script_menu option"

type_synonym 'a script_action = "(failure, script_service, 'a) effect"

definition refuse_script :: "string \<Rightarrow> (string \<times> string) list \<Rightarrow> failure" where
  "refuse_script t ps = Invalid (LocalizedError t ps)"

definition script_answer :: "string list \<Rightarrow> string list \<Rightarrow> script_menu option \<Rightarrow> script_result" where
  "script_answer ms logs m = \<lparr>sr_answer = \<lparr>messages = ms, log_messages = logs, accepted = True, res_code = ''ok'', res_data = None\<rparr>, sr_menu = m\<rparr>"

definition on_scripts :: "(script_store, 'a) Effects.action \<Rightarrow> 'a script_action" where
  "on_scripts m s = (case m (sc_store s) of
     (Inl e, st) \<Rightarrow> (Inl (Invalid e), s\<lparr>sc_store := st\<rparr>) | (Inr x, st) \<Rightarrow> (Inr x, s\<lparr>sc_store := st\<rparr>))"

fun of_py :: "py_error + 'a \<Rightarrow> failure + 'a" where
  "of_py (Inl e) = Inl (Invalid e)"
| "of_py (Inr x) = Inr x"

definition given :: "failure + 'a \<Rightarrow> 'a script_action" where
  "given r = look (\<lambda>_. r)"

section \<open>The folder\<close>

text \<open>\<open>path.suffix\<close> and \<open>path.stem\<close> of a script file.\<close>

definition is_script_file :: "string \<Rightarrow> bool" where
  "is_script_file n \<longleftrightarrow> 5 < length n \<and> casefold (drop (length n - 5) n) = ''.luau''"

definition file_stem :: "string \<Rightarrow> string" where
  "file_stem n = take (length n - 5) n"

definition read_script_file :: "nat \<Rightarrow> nat \<Rightarrow> (string \<Rightarrow> string) \<Rightarrow> (string, file_script) dict \<Rightarrow> folder_entry \<Rightarrow> py_error + file_script" where
  "read_script_file most bytes digest known f =
     ebind (script_name (file_stem (fe_name f))) (\<lambda>name.
     ebind (check (fe_regular f) (LocalizedError ''Script files must be regular files, not links'' [])) (\<lambda>_.
     ebind (check (fe_size f \<le> bytes) (LocalizedError ''Script source is empty or too large'' [])) (\<lambda>_.
     case fe_text f of None \<Rightarrow> Inl (LocalizedError ''Script files must be UTF-8 text'' []) | Some raw \<Rightarrow>
       let source = unix_newlines raw in
       ebind (check (strip source \<noteq> []) (LocalizedError ''Script source is empty or too large'' [])) (\<lambda>_.
       ebind (check (casefold name \<notin> set (keys known)) (LocalizedError ''Script {name} already exists'' [(''name'', name)])) (\<lambda>_.
       ebind (check (length known < most) (LocalizedError ''Too many script files (at most {limit})'' [(''limit'', show_nat most)])) (\<lambda>_.
         Inr \<lparr>fs_name = name, fs_source = source, fs_revision = ''file:'' @ digest source, fs_saved = fe_time f\<rparr>))))))"

definition take_script_file :: "nat \<Rightarrow> nat \<Rightarrow> (string \<Rightarrow> string) \<Rightarrow> folder_entry \<Rightarrow>
    (string, file_script) dict \<times> (string \<times> failure) list \<Rightarrow> (string, file_script) dict \<times> (string \<times> failure) list" where
  "take_script_file most bytes digest f found =
     (if \<not> is_script_file (fe_name f) then found
      else case read_script_file most bytes digest (fst found) f of
        Inl e \<Rightarrow> (fst found, snd found @ [(fe_name f, Invalid e)])
      | Inr x \<Rightarrow> (fst found @ [(casefold (fs_name x), x)], snd found))"

definition load_files :: "nat \<Rightarrow> nat \<Rightarrow> (string \<Rightarrow> string) \<Rightarrow> folder \<Rightarrow> failure + (string, file_script) dict \<times> (string \<times> failure) list" where
  "load_files most bytes digest d = (case d of
     No_Folder \<Rightarrow> Inr ([], [])
   | Bad_Folder \<Rightarrow> Inl (refuse_script ''The script folder must be a regular directory'' [])
   | Folder fs \<Rightarrow> Inr (fold (take_script_file most bytes digest) (sort_key (casefold \<circ> fe_name) fs) ([], [])))"

section \<open>Who\<close>

definition controller_of :: "principal \<Rightarrow> string" where
  "controller_of p = (case player_id p of Some i \<Rightarrow> if i = [] then ''console'' else i | None \<Rightarrow> ''console'')"

definition who_is :: "principal \<Rightarrow> string" where
  "who_is p = (case p_name p of
     Some n \<Rightarrow> if n \<noteq> [] then n else (case player_id p of None \<Rightarrow> ''console'' | Some i \<Rightarrow> i)
   | None \<Rightarrow> (case player_id p of None \<Rightarrow> ''console'' | Some i \<Rightarrow> i))"

definition script_owner_key :: "principal \<Rightarrow> string" where
  "script_owner_key p = (if player_id p = None then ''console'' else case owner_key p of None \<Rightarrow> ''console'' | Some k \<Rightarrow> k)"

definition can_edit :: "stored_script \<Rightarrow> principal \<Rightarrow> bool" where
  "can_edit x p \<longleftrightarrow> \<not> is_file_script x \<and> (player_id p = None \<or> ss_owner x = None \<or> ss_owner x = Some (script_owner_key p))"

definition can_run :: "stored_script \<Rightarrow> principal \<Rightarrow> bool" where
  "can_run x p \<longleftrightarrow> ss_visibility x = ''shared'' \<or> can_edit x p"

definition is_own :: "stored_script \<Rightarrow> principal \<Rightarrow> bool" where
  "is_own x p \<longleftrightarrow> ss_owner x = Some (script_owner_key p)"

definition visible_scripts :: "principal \<Rightarrow> script_store \<Rightarrow> stored_script list" where
  "visible_scripts p st = filter (\<lambda>x. can_run x p) (list_scripts st)"

definition need_enabled :: "unit script_action" where
  "need_enabled = look (\<lambda>s.
     if \<not> cf_enabled (sc_config s) then Inl (refuse_script ''Scripting is disabled; enable it in config.toml and restart'' [])
     else if \<not> sc_open s then Inl (refuse_script ''Script service is closed'' [])
     else if \<not> sc_ready s then Inl (refuse_script ''Scripts are unavailable; see the server log'' [])
     else Inr ())"

definition need_authority :: "bool \<Rightarrow> unit script_action" where
  "need_authority allowed = look (\<lambda>s. if sc_open s \<and> allowed then Inr () else Inl (refuse_script ''Script authority was revoked'' []))"

text \<open>\<open>_script\<close>.\<close>

definition find_script :: "string \<Rightarrow> principal \<Rightarrow> bool \<Rightarrow> script_store \<Rightarrow> failure + stored_script" where
  "find_script name p edit st = ebind (of_py (get_script name st)) (\<lambda>x.
     if \<not> can_run x p then Inl (Invalid (no_script name))
     else if edit \<and> is_file_script x then Inl (Invalid (from_file (ss_name x)))
     else if edit \<and> \<not> can_edit x p then Inl (refuse_script ''Only the owner {owner} may change script {name}; use Copy and edit''
        [(''owner'', case ss_owner_name x of None \<Rightarrow> ''?'' | Some n \<Rightarrow> if n = [] then ''?'' else n), (''name'', ss_name x)])
     else Inr x)"

definition script_for :: "string \<Rightarrow> principal \<Rightarrow> bool \<Rightarrow> stored_script script_action" where
  "script_for name p edit = look (\<lambda>s. find_script name p edit (sc_store s))"

definition new_name :: "string \<Rightarrow> unit script_action" where
  "new_name name = look (\<lambda>s. case get_script name (sc_store s) of
     Inr x \<Rightarrow> Inl (refuse_script ''Script {name} already exists'' [(''name'', name)])
   | Inl (LocalizedError t ps) \<Rightarrow> Inr ()
   | Inl e \<Rightarrow> Inl (Invalid e))"

section \<open>Runs\<close>

definition runs_of :: "string \<Rightarrow> script_service \<Rightarrow> (string, script_run) dict" where
  "runs_of who s = filter (\<lambda>x. controller_of (rn_source (snd x)) = who) (sc_runs s)"

definition visible_runs :: "principal \<Rightarrow> script_service \<Rightarrow> (string, script_run) dict" where
  "visible_runs p s = (if player_id p = None then sc_runs s else runs_of (controller_of p) s)"

definition reserve :: "principal \<Rightarrow> unit script_action" where
  "reserve p = look (\<lambda>s.
     if length (sc_runs s) + sum_list (map snd (sc_inspecting s)) \<ge> cf_server_runs (sc_config s) \<or>
        length (runs_of (controller_of p) s) + dict_get (sc_inspecting s) (controller_of p) 0 \<ge> cf_controller_runs (sc_config s)
     then Inl (refuse_script ''Script concurrency limit reached'' []) else Inr ())"

text \<open>An inspection holds a slot while it lasts.\<close>

definition take_slot :: "principal \<Rightarrow> unit script_action" where
  "take_slot p = sbind (reserve p) (\<lambda>_. update (\<lambda>s. s\<lparr>sc_inspecting :=
     dict_set (controller_of p) (dict_get (sc_inspecting s) (controller_of p) 0 + 1) (sc_inspecting s)\<rparr>))"

definition drop_slot :: "principal \<Rightarrow> script_service \<Rightarrow> script_service" where
  "drop_slot p s = (let left = dict_get (sc_inspecting s) (controller_of p) 0 - 1 in
     s\<lparr>sc_inspecting := (if left = 0 then dict_pop (controller_of p) (sc_inspecting s)
       else dict_set (controller_of p) left (sc_inspecting s))\<rparr>)"

definition inspect :: "script_env \<Rightarrow> string \<Rightarrow> principal \<Rightarrow> script_declaration script_action" where
  "inspect v source p = sbind (take_slot p) (\<lambda>_. sbind (update (drop_slot p)) (\<lambda>_. given (se_inspect v source)))"

definition start_run :: "script_env \<Rightarrow> stored_script \<Rightarrow> principal \<Rightarrow> string list option \<Rightarrow> string script_action" where
  "start_run v x p requires =
     sbind need_enabled (\<lambda>_. sbind (need_authority (se_still v)) (\<lambda>_.
     sbind (look (\<lambda>s. if utf8_length (ss_source x) > max_script_bytes (sc_store s)
        then Inl (refuse_script ''Script source is empty or too large'' []) else Inr ())) (\<lambda>_.
     sbind (reserve p) (\<lambda>_.
     sbind (update (\<lambda>s. s\<lparr>sc_runs := dict_set (se_run v)
        \<lparr>rn_name = ss_name x, rn_source = p\<lparr>p_kind := Run, run_id := Some (se_run v)\<rparr>, rn_canceled = False, rn_requires = requires\<rparr> (sc_runs s)\<rparr>)) (\<lambda>_.
       ret (se_run v))))))"

text \<open>The end of a run's thread, \<open>self._runs.pop(run.identity, None)\<close>.\<close>

definition retire_run :: "string \<Rightarrow> script_service \<Rightarrow> script_service" where
  "retire_run i s = s\<lparr>sc_runs := dict_pop i (sc_runs s)\<rparr>"

definition stops :: "string \<Rightarrow> string \<times> script_run \<Rightarrow> bool" where
  "stops selector x \<longleftrightarrow> \<not> rn_canceled (snd x) \<and> casefold selector \<in> {''all'', fst x, casefold (rn_name (snd x))}"

definition stop_runs :: "principal \<Rightarrow> string \<Rightarrow> script_service \<Rightarrow> nat \<times> script_service" where
  "stop_runs p selector s =
     (let hit = filter (stops selector) (visible_runs p s) in
      (length hit, s\<lparr>sc_runs := map (\<lambda>(i, r). (i, if i \<in> set (keys hit) then r\<lparr>rn_canceled := True\<rparr> else r)) (sc_runs s)\<rparr>))"

definition cancel_all :: "script_service \<Rightarrow> script_service" where
  "cancel_all s = s\<lparr>sc_open := False, sc_runs := map (\<lambda>(i, r). (i, r\<lparr>rn_canceled := True\<rparr>)) (sc_runs s)\<rparr>"

end
