(* ===== verification/Script_Commands.thy ===== *)
theory Script_Commands
  imports Script_Service
begin

text \<open>
  The command \<open>/botscript\<close>: \<open>ScriptService.execute\<close> of \<open>endbot_core/scripting.py\<close>, one definition for each of its
  words, and the texts of \<open>endbot_core/script_forms.py\<close> it answers with. A menu is answered as the value \<open>script_menu\<close>;
  its screen is not modelled.
\<close>

section \<open>Texts\<close>

definition script_label :: "stored_script \<Rightarrow> bool \<Rightarrow> string" where
  "script_label x own = ss_name x @ '' ('' @
     (if is_file_script x then ''file'' else if own then ''yours''
      else case ss_owner_name x of None \<Rightarrow> ''unowned'' | Some n \<Rightarrow> if n = [] then ''unowned'' else n) @
     '', '' @ ss_visibility x @ '')''"

definition shown_text :: "string \<Rightarrow> string" where
  "shown_text t = concat (map (\<lambda>c. if c = section_sign then [CHR 0x5C] @ ''u{a7}'' else [c]) t)"

fun pieces :: "nat \<Rightarrow> 'a list \<Rightarrow> 'a list list" where
  "pieces n xs = (if n = 0 \<or> xs = [] then [] else take n xs # pieces n (drop n xs))"

declare pieces.simps [simp del]

definition numbered_line :: "nat \<Rightarrow> string \<Rightarrow> string list" where
  "numbered_line i l = map (\<lambda>chunk. show_nat (i + 1) @ '': '' @ shown_text chunk) (if l = [] then [[]] else pieces 200 l)"

definition source_pages :: "string \<Rightarrow> string list" where
  "source_pages source =
     (let ls = concat (map (\<lambda>(i, l). numbered_line i l) (enumerate 0 (splitlines source)));
          ps = map (join_with [CHR 0x0A]) (pieces 8 ls)
      in if ps = [] then [[]] else ps)"

definition edit_page_lines :: nat where
  "edit_page_lines = 40"

definition edit_pages :: "string \<Rightarrow> nat" where
  "edit_pages source = max 1 ((length (splitlines source) + (edit_page_lines - 1)) div edit_page_lines)"

definition revision_line :: "script_env \<Rightarrow> nat \<Rightarrow> script_revision \<Rightarrow> string" where
  "revision_line v i r = tr ''{index}: {saved}, {lines} lines'' [(''index'', show_nat i),
     (''saved'', if sr_saved r = 0 then ''?'' else se_time_text v (sr_saved r)),
     (''lines'', show_nat (length (splitlines (sr_source r))))]"

text \<open>\<open>_clean\<close>: no colours, and a space for every control character.\<close>

definition is_control :: "char \<Rightarrow> bool" where
  "is_control c \<longleftrightarrow> code c \<le> 31 \<or> 127 \<le> code c \<and> code c \<le> 159"

definition clean_log :: "string \<Rightarrow> nat \<Rightarrow> string" where
  "clean_log t limit = take limit (map (\<lambda>c. if is_control c then CHR '' '' else c) (strip_colors t))"

definition say :: "string \<Rightarrow> (string \<times> string) list \<Rightarrow> string" where
  "say t ps = reply (tr t ps) None []"

text \<open>An answer that is also logged.\<close>

definition says_and_logs :: "string \<Rightarrow> string \<Rightarrow> script_menu option \<Rightarrow> script_result script_action" where
  "says_and_logs m l menu = ret (script_answer [m] [l] menu)"

definition only_says :: "string \<Rightarrow> script_result script_action" where
  "only_says m = ret (script_answer [m] [] None)"

definition opens :: "script_menu \<Rightarrow> script_result script_action" where
  "opens menu = ret (script_answer [] [] (Some menu))"

definition refuses :: "string \<Rightarrow> (string \<times> string) list \<Rightarrow> 'a script_action" where
  "refuses t ps = fail (refuse_script t ps)"

definition need_player :: "principal \<Rightarrow> unit script_action" where
  "need_player p = look (\<lambda>_. if player_id p = None then Inl (refuse_script ''Script menu is available only to players'' []) else Inr ())"

definition held_pages :: "script_env \<Rightarrow> bool \<Rightarrow> string list script_action" where
  "held_pages v writable = look (\<lambda>_. if \<not> se_world v
     then Inl (refuse_script ''Books are unavailable without the world adapter'' []) else se_held v writable)"

definition source_too_large :: "string \<Rightarrow> script_service \<Rightarrow> bool" where
  "source_too_large t s \<longleftrightarrow> utf8_length t > max_script_bytes (sc_store s)"

definition bad_size :: failure where
  "bad_size = refuse_script ''Script source is empty or too large'' []"

definition changed_since :: failure where
  "changed_since = Invalid script_changed"

section \<open>Reading the folder again\<close>

definition attempt :: "('e, 's, 'a) effect \<Rightarrow> ('e, 's, 'e + 'a) effect" where
  "attempt m s = (case m s of (r, t) \<Rightarrow> (Inr r, t))"

text \<open>Errors of an inspection that say nothing about the file, \<open>UNCHECKED\<close>.\<close>

definition unchecked_errors :: "string list" where
  "unchecked_errors = [''Script concurrency limit reached'', ''Script authority was revoked'', ''Script service is closed'',
     ''scripting runner not built/installed'', ''Script runner OS confinement failed; see the server log'',
     ''Script runner process memory allocation failed'']"

definition script_suffix :: string where
  "script_suffix = ''.luau''"

text \<open>The loop over the files: those that are kept, and the problems.\<close>

fun check_files :: "script_env \<Rightarrow> principal \<Rightarrow> string list \<Rightarrow> (string, file_script) dict \<Rightarrow>
    ((string, file_script) dict \<times> (string \<times> failure) list) script_action" where
  "check_files v p stored [] = ret ([], [])"
| "check_files v p stored ((k, f) # fs) =
     (if k \<in> set stored then sbind (check_files v p stored fs) (\<lambda>(kept, bad). ret ((k, f) # kept, bad))
      else sbind (attempt (inspect v (fs_source f) p)) (\<lambda>r. case r of
        Inr _ \<Rightarrow> sbind (check_files v p stored fs) (\<lambda>(kept, bad). ret ((k, f) # kept, bad))
      | Inl (Invalid (LocalizedError t ps)) \<Rightarrow>
          if t \<in> set unchecked_errors
          then sbind (check_files v p stored fs) (\<lambda>(kept, bad). ret ((k, f) # kept,
            (fs_name f @ script_suffix, refuse_script ''Loaded without a declaration check: {error}'' [(''error'', t)]) # bad))
          else sbind (check_files v p stored fs) (\<lambda>(kept, bad). ret (kept, (fs_name f @ script_suffix, Invalid (LocalizedError t ps)) # bad))
      | Inl e \<Rightarrow> fail e))"

definition name_taken :: "principal option \<Rightarrow> stored_script \<Rightarrow> failure" where
  "name_taken p x = (if p = None \<or> (case p of None \<Rightarrow> True | Some q \<Rightarrow> player_id q = None)
     then refuse_script ''Not loaded: a stored script named {name} already exists (owner {owner})''
       [(''name'', ss_name x), (''owner'', case ss_owner_name x of None \<Rightarrow> ''?'' | Some n \<Rightarrow> if n = [] then ''?'' else n)]
     else refuse_script ''Not loaded: a stored script named {name} already exists'' [(''name'', ss_name x)])"

fun shadow_problems :: "principal option \<Rightarrow> string list \<Rightarrow> script_store \<Rightarrow> failure + (string \<times> failure) list" where
  "shadow_problems p [] st = Inr []"
| "shadow_problems p (n # ns) st = ebind (of_py (get_script n st)) (\<lambda>x.
     ebind (shadow_problems p ns st) (\<lambda>bad. Inr ((n @ script_suffix, name_taken p x) # bad)))"

text \<open>\<open>reload_files\<close>; without a principal (at start-up) nothing is inspected. The names come in the order of the folder.\<close>

definition reload_files :: "script_env \<Rightarrow> principal option \<Rightarrow> (string list \<times> (string \<times> failure) list) script_action" where
  "reload_files v p =
     sbind (look (\<lambda>s. load_files (max_scripts (sc_store s)) (max_script_bytes (sc_store s)) (se_digest v) (se_folder v))) (\<lambda>(files, unread).
     sbind (case p of None \<Rightarrow> ret (files, []) | Some q \<Rightarrow>
       sbind (look (\<lambda>s. Inr (map (casefold \<circ> ss_name) (filter (\<lambda>x. \<not> is_file_script x) (list_scripts (sc_store s)))))) (\<lambda>stored.
         check_files v q stored files)) (\<lambda>(kept, bad).
     sbind (on_scripts (\<lambda>st. case set_files kept st of (names, st') \<Rightarrow> (Inr names, st'))) (\<lambda>shadowed.
     sbind (look (\<lambda>s. shadow_problems p shadowed (sc_store s))) (\<lambda>taken.
       ret (filter (\<lambda>n. n \<notin> set shadowed) (map (fs_name \<circ> snd) kept), unread @ bad @ taken)))))"

section \<open>The commands\<close>

definition help_scripts :: "script_result" where
  "help_scripts = script_answer
     [reply (''Script help: list | show <name> [page] | run <name> [args...] | runs | stop <id|name|all> | delete <name> '' @
        ''| copy <name> <new> | visibility <name> shared|private | owner <name> <GamerTag> | history <name> '' @
        ''| restore <name> <n> | rename <name> <new> | import <name> | export <name> [overwrite] | reload | menu'') None [],
      reply (''Arguments follow declaration order, then name=value for any parameter; '' @
        ''quote positions. Create/edit in the menu, or import from a held book and quill.'') None []] [] None"

definition list_command :: "principal \<Rightarrow> script_result script_action" where
  "list_command p = look (\<lambda>s.
     let t = join_with '', '' (map (\<lambda>x. script_label x (is_own x p)) (visible_scripts p (sc_store s))) in
     Inr (script_answer [reply (if t = [] then ''No stored scripts'' else t) None []] [] None))"

definition runs_command :: "principal \<Rightarrow> script_result script_action" where
  "runs_command p = look (\<lambda>s.
     let t = join_with '', '' (map (\<lambda>(i, r). i @ '' '' @ rn_name r @
       (if player_id p = None then '' ('' @ who_is (rn_source r) @ '')'' else [])) (visible_runs p s)) in
     Inr (script_answer [reply (if t = [] then ''No active script runs'' else t) None []] [] None))"

definition reload_command :: "script_env \<Rightarrow> principal \<Rightarrow> script_result script_action" where
  "reload_command v p = sbind (reload_files v (Some p)) (\<lambda>(loaded, bad).
     let ls = map (\<lambda>(n, e). n @ '': '' @ failure_text e) bad in
     ret (script_answer (say ''Loaded {count} script files from {folder}'' [(''count'', show_nat (length loaded)), (''folder'', se_folder_name v @ ''/'')]
         # map (\<lambda>l. reply l None error_colour) ls)
       [''Script files reloaded by '' @ who_is p @ '': '' @ show_nat (length loaded) @ '' loaded'' @ concat (map (\<lambda>l. ''; '' @ l) ls)] None))"

definition stop_command :: "principal \<Rightarrow> string \<Rightarrow> script_result script_action" where
  "stop_command p selector s = (case stop_runs p selector s of (n, t) \<Rightarrow>
     says_and_logs (say ''Stopping {count} script runs'' [(''count'', show_nat n)])
       (''Stopping '' @ show_nat n @ '' script runs ('' @ clean_log selector 64 @ '') by '' @ who_is p) None t)"

definition save_as :: "script_env \<Rightarrow> principal \<Rightarrow> string \<Rightarrow> string \<Rightarrow> string option \<Rightarrow> unit script_action" where
  "save_as v p name source revision = sbind (on_scripts (save_script name source revision
     (Some (script_owner_key p)) (Some (who_is p)) (se_fresh v) (se_now v))) (\<lambda>_. ret ())"

definition save_command :: "script_env \<Rightarrow> principal \<Rightarrow> script_guard \<Rightarrow> string \<Rightarrow> string \<Rightarrow> script_result script_action" where
  "save_command v p g name source =
     sbind (look (\<lambda>s. if strip source = [] \<or> source_too_large source s then Inl bad_size else Inr ())) (\<lambda>_.
     sbind (case sg_revision g of None \<Rightarrow> new_name name | Some r \<Rightarrow> sbind (script_for name p True) (\<lambda>_. ret ())) (\<lambda>_.
     sbind (inspect v source p) (\<lambda>_. sbind (need_authority (se_still v)) (\<lambda>_.
     sbind (save_as v p name source (sg_revision g)) (\<lambda>_.
     sbind (on_scripts (look (get_script name))) (\<lambda>saved.
       says_and_logs (say ''Script {name} saved'' [(''name'', name)]) (''Script '' @ name @ '' saved by '' @ who_is p)
         (if player_id p = None then None else Some (case sg_page g of
            Some k \<Rightarrow> Lines_Menu saved (min k (edit_pages (ss_source saved))) | None \<Rightarrow> Script_Menu saved True))))))))"

definition menu_command :: "principal \<Rightarrow> script_result script_action" where
  "menu_command p = sbind (need_player p) (\<lambda>_. look (\<lambda>s. Inr (script_answer [] [] (Some (Scripts_Menu (visible_scripts p (sc_store s)))))))"

text \<open>The script an import replaces, if there is one; a name the principal does not see must be free.\<close>

definition import_target :: "principal \<Rightarrow> string \<Rightarrow> stored_script option script_action" where
  "import_target p name = sbind (attempt (script_for name p True)) (\<lambda>r. case r of
     Inr x \<Rightarrow> ret (Some x)
   | Inl (Invalid (LocalizedError t ps)) \<Rightarrow> if t = ''Script {name} does not exist''
       then sbind (new_name name) (\<lambda>_. ret None) else fail (Invalid (LocalizedError t ps))
   | Inl e \<Rightarrow> fail e)"

definition import_book :: "script_env \<Rightarrow> principal \<Rightarrow> script_guard option \<Rightarrow> string \<Rightarrow> stored_script option \<Rightarrow> string \<Rightarrow> script_result script_action" where
  "import_book v p g word existing t =
     (let name = (case existing of None \<Rightarrow> word | Some x \<Rightarrow> ss_name x) in
      sbind (inspect v t p) (\<lambda>_. sbind (need_authority (se_still v)) (\<lambda>_.
      sbind (save_as v p name t (map_option ss_revision existing)) (\<lambda>_.
      sbind (if g = None then ret None else sbind (on_scripts (look (get_script name))) (\<lambda>x. ret (Some (Script_Menu x True)))) (\<lambda>menu.
        says_and_logs (say ''Script {name} imported from the book ({lines} lines)''
            [(''name'', name), (''lines'', show_nat (length (splitlines t)))])
          (''Script '' @ name @ '' imported from a book by '' @ who_is p) menu)))))"

definition import_command :: "script_env \<Rightarrow> principal \<Rightarrow> script_guard option \<Rightarrow> string \<Rightarrow> script_result script_action" where
  "import_command v p g word =
     sbind (need_player p) (\<lambda>_. sbind (held_pages v False) (\<lambda>ps. sbind (look (\<lambda>_. of_py (pages_to_source ps))) (\<lambda>t.
     sbind (look (\<lambda>s. if source_too_large t s then Inl bad_size else Inr ())) (\<lambda>_.
     sbind (import_target p word) (\<lambda>existing. case (existing, g) of
         (Some x, Some h) \<Rightarrow>
           if sg_name h = None then refuses ''Script {name} already exists'' [(''name'', ss_name x)]
           else if sg_revision h \<noteq> Some (ss_revision x) then fail changed_since
           else if t = ss_source x then only_says (say ''Script {name} already has the book's source'' [(''name'', ss_name x)])
           else if sg_book h = None then opens (Import_Menu x t)
           else if sg_book h \<noteq> Some (Shown_Text t) then refuses ''The book changed; check it again'' []
           else import_book v p g word existing t
       | (Some x, None) \<Rightarrow>
           if t = ss_source x then only_says (say ''Script {name} already has the book's source'' [(''name'', ss_name x)])
           else import_book v p g word existing t
       | (None, _) \<Rightarrow> import_book v p g word existing t)))))"

definition stale :: "script_guard option \<Rightarrow> stored_script \<Rightarrow> bool" where
  "stale g x \<longleftrightarrow> (case g of None \<Rightarrow> False | Some h \<Rightarrow> sg_revision h \<noteq> Some (ss_revision x))"

definition copy_command :: "script_env \<Rightarrow> principal \<Rightarrow> script_guard option \<Rightarrow> string \<Rightarrow> string \<Rightarrow> script_result script_action" where
  "copy_command v p g name new =
     sbind (script_for name p False) (\<lambda>x.
     if stale g x \<and> (case g of None \<Rightarrow> False | Some h \<Rightarrow> sg_revision h \<noteq> None) then fail changed_since
     else sbind (new_name new) (\<lambda>_. sbind (need_authority (se_still v)) (\<lambda>_.
       sbind (save_as v p new (ss_source x) None) (\<lambda>_.
         says_and_logs (say ''Script {name} copied to {copy}'' [(''name'', ss_name x), (''copy'', new)])
           (''Script '' @ ss_name x @ '' copied to '' @ new @ '' by '' @ who_is p) None))))"

definition owner_command :: "script_env \<Rightarrow> principal \<Rightarrow> script_guard option \<Rightarrow> string list \<Rightarrow> script_result script_action" where
  "owner_command v p g ws = (case ws of
     [name, tag] \<Rightarrow>
       if player_id p \<noteq> None then fail (Refused ''Only the console can change owners'' [])
       else sbind (on_scripts (look (get_script name))) (\<lambda>x.
         if is_file_script x then refuses ''File scripts have no owner; the file is the source'' []
         else if stale g x then fail changed_since
         else sbind (look (\<lambda>_. of_py (owner_for_gamertag (se_resolve v) tag))) (\<lambda>(who, who_name).
           sbind (on_scripts (set_script_owner (ss_name x) (Some who) (Some who_name) (ss_revision x))) (\<lambda>_.
             says_and_logs (say ''Script {name} now belongs to {owner}'' [(''name'', ss_name x), (''owner'', who_name)])
               (''Script '' @ ss_name x @ '' now belongs to '' @ who_name @ '' by '' @ who_is p) None)))
   | _ \<Rightarrow> refuses ''Use /botscript owner <name> <GamerTag>'' [])"

text \<open>The words about one script, which the principal may see, and may change when the word does.\<close>

definition show_command :: "script_env \<Rightarrow> principal \<Rightarrow> bool \<Rightarrow> stored_script \<Rightarrow> string list \<Rightarrow> script_result script_action" where
  "show_command v p edit x ws =
     (let pages = source_pages (ss_source x); total = (if edit then edit_pages (ss_source x) else length pages) in
      sbind (look (\<lambda>_. case ws of
          [] \<Rightarrow> Inr 1 | w # _ \<Rightarrow> if isdecimal w then of_py (py_int w) else Inr 0)) (\<lambda>page.
      if page < 1 \<or> int total < page then refuses ''Script source page is out of range'' []
      else if edit then sbind (need_player p) (\<lambda>_. opens (Lines_Menu x (nat page)))
      else only_says (reply (ss_name x @ '' ('' @ show_int page @ ''/'' @ show_nat total @ '')'' @ [CHR 0x0A] @ pages ! (nat page - 1)) None [])))"

definition export_command :: "script_env \<Rightarrow> principal \<Rightarrow> script_guard option \<Rightarrow> stored_script \<Rightarrow> bool \<Rightarrow> script_result script_action" where
  "export_command v p g x overwrite =
     sbind (need_player p) (\<lambda>_.
     sbind (look (\<lambda>s. if cf_book_export (sc_config s) then Inr () else Inl (refuse_script ''Book export is disabled on this server'' []))) (\<lambda>_.
     sbind (look (\<lambda>_. of_py (source_to_pages (ss_source x)))) (\<lambda>pages.
     sbind (held_pages v True) (\<lambda>current.
     if written_on current \<and> \<not> overwrite then
       (if g = None then refuses ''The book and quill is not empty; hold an empty one or add overwrite'' []
        else sbind (look (\<lambda>_. of_py (pages_to_source current))) (\<lambda>t. opens (Export_Menu x current t)))
     else
       let expected = (if \<not> written_on current then None else Some (case g of
             None \<Rightarrow> current
           | Some h \<Rightarrow> (case sg_book h of None \<Rightarrow> current | Some (Shown_Pages ps) \<Rightarrow> ps | Some (Shown_Text t) \<Rightarrow> map (\<lambda>c. [c]) t))) in
       sbind (given (se_fill v pages expected)) (\<lambda>_.
         says_and_logs (say ''Script {name} written into the book ({pages} pages)'' [(''name'', ss_name x), (''pages'', show_nat (length pages))])
           (''Script '' @ ss_name x @ '' exported to a book by '' @ who_is p) None)))))"

definition visibility_command :: "principal \<Rightarrow> stored_script \<Rightarrow> string \<Rightarrow> script_result script_action" where
  "visibility_command p x w =
     sbind (on_scripts (set_script_visibility (ss_name x) w (ss_revision x))) (\<lambda>_.
       says_and_logs (say ''Script {name} is now {visibility}'' [(''name'', ss_name x), (''visibility'', w)])
         (''Script '' @ ss_name x @ '' is now '' @ w @ '' by '' @ who_is p) None)"

definition history_command :: "script_env \<Rightarrow> principal \<Rightarrow> script_guard option \<Rightarrow> stored_script \<Rightarrow> script_result script_action" where
  "history_command v p g x =
     (if player_id p \<noteq> None \<and> g \<noteq> None then opens (History_Menu x (can_edit x p \<and> can_author p))
      else let t = join_with ''; '' (map (\<lambda>(i, r). revision_line v i r) (enumerate 1 (ss_history x))) in
        only_says (reply (ss_name x @ '': '' @ (if t = [] then ''no earlier revisions'' else t)) None []))"

definition restore_command :: "script_env \<Rightarrow> principal \<Rightarrow> stored_script \<Rightarrow> string \<Rightarrow> script_result script_action" where
  "restore_command v p x w =
     (if \<not> isdecimal w \<or> length w > 3 then refuses ''Script revision is out of range'' []
      else sbind (need_authority (se_still v)) (\<lambda>_.
        sbind (on_scripts (restore_script (ss_name x) (int (decimal w)) (ss_revision x) (se_fresh v) (se_now v))) (\<lambda>_.
          says_and_logs (say ''Script {name} restored to revision {index}'' [(''name'', ss_name x), (''index'', show_nat (decimal w))])
            (''Script '' @ ss_name x @ '' restored to revision '' @ show_nat (decimal w) @ '' by '' @ who_is p) None)))"

definition rename_command :: "script_env \<Rightarrow> principal \<Rightarrow> stored_script \<Rightarrow> string \<Rightarrow> script_result script_action" where
  "rename_command v p x new =
     sbind (need_authority (se_still v)) (\<lambda>_. sbind (on_scripts (rename_script (ss_name x) new (ss_revision x))) (\<lambda>_.
       says_and_logs (say ''Script {name} renamed to {new}'' [(''name'', ss_name x), (''new'', new)])
         (''Script '' @ ss_name x @ '' renamed to '' @ new @ '' by '' @ who_is p) None))"

definition delete_command :: "principal \<Rightarrow> stored_script \<Rightarrow> script_result script_action" where
  "delete_command p x = sbind (on_scripts (delete_script (ss_name x) (ss_revision x))) (\<lambda>_.
     says_and_logs (say ''Script {name} deleted'' [(''name'', ss_name x)]) (''Script '' @ ss_name x @ '' deleted by '' @ who_is p) None)"

definition started :: "principal \<Rightarrow> stored_script \<Rightarrow> string list \<Rightarrow> string \<Rightarrow> script_result script_action" where
  "started p x lead i = ret (script_answer
     (lead @ [say ''Script {name} started: {run}'' [(''name'', ss_name x), (''run'', i)]])
     [''Script '' @ ss_name x @ '' started: '' @ i @ '' by '' @ who_is p] None)"

definition run_command :: "script_env \<Rightarrow> principal \<Rightarrow> script_guard option \<Rightarrow> stored_script \<Rightarrow> script_result script_action" where
  "run_command v p g x =
     sbind (start_run v x p (case g of None \<Rightarrow> None | Some h \<Rightarrow> sg_requires h)) (\<lambda>i. started p x [] i)"

definition parameters_command :: "script_env \<Rightarrow> principal \<Rightarrow> stored_script \<Rightarrow> script_result script_action" where
  "parameters_command v p x =
     sbind (need_player p) (\<lambda>_. sbind (inspect v (ss_source x) p) (\<lambda>d.
     if de_schema d = [] then sbind (start_run v x p (Some (de_requires d))) (\<lambda>i.
       started p x [dim @ ''/botscript run '' @ ss_name x @ reset_colour] i)
     else sbind (given (se_choices v (de_schema d))) (\<lambda>_. opens (Parameters_Menu x d))))"

section \<open>Which command\<close>

definition script_words :: "script_guard option \<Rightarrow> string list \<Rightarrow> py_error + string \<times> string list" where
  "script_words g argv =
     ebind (if (case g of None \<Rightarrow> False | Some h \<Rightarrow> sg_edit h \<or> sg_values h) then Inr argv else shlex_split (join_with '' '' argv))
       (\<lambda>ws. case ws of [] \<Rightarrow> Inr (''menu'', []) | w # tail \<Rightarrow> Inr (casefold w, tail))"

definition authoring :: "string list" where
  "authoring = [''save'', ''import'', ''copy'', ''rename'', ''restore'', ''edit'']"

definition is_authoring :: "string \<Rightarrow> string list \<Rightarrow> bool" where
  "is_authoring op tail \<longleftrightarrow> op \<in> set authoring \<or>
     op = ''visibility'' \<and> (case tail of [_, w] \<Rightarrow> casefold w = ''shared'' | _ \<Rightarrow> False)"

definition changes_script :: "string \<Rightarrow> bool" where
  "changes_script op \<longleftrightarrow> op \<in> set [''delete'', ''edit'', ''visibility'', ''restore'', ''rename'']"

definition may_not_author :: "script_result" where
  "may_not_author = \<lparr>sr_answer = \<lparr>messages = [reply (tr ''Your role can run scripts but not create or change them; ask the operator for the scripter role'' [])
     None error_colour], log_messages = [], accepted = False, res_code = ''unauthorized'', res_data = None\<rparr>, sr_menu = None\<rparr>"

definition on_one_script :: "script_env \<Rightarrow> principal \<Rightarrow> script_guard option \<Rightarrow> string \<Rightarrow> stored_script \<Rightarrow> string list \<Rightarrow> script_result script_action" where
  "on_one_script v p g op x ws =
     (if op \<in> {''show'', ''edit''} \<and> length ws \<le> 1 then show_command v p (op = ''edit'') x ws
      else if op = ''export'' \<and> ws = [] then export_command v p g x False
      else if op = ''export'' \<and> length ws = 1 \<and> casefold (hd ws) = ''overwrite'' then export_command v p g x True
      else if op = ''visibility'' \<and> length ws = 1 \<and> is_visibility (casefold (hd ws)) then visibility_command p x (casefold (hd ws))
      else if op = ''history'' \<and> ws = [] then history_command v p g x
      else if op = ''restore'' \<and> length ws = 1 then restore_command v p x (hd ws)
      else if op = ''rename'' \<and> length ws = 1 then rename_command v p x (hd ws)
      else if op = ''delete'' \<and> ws = [] then delete_command p x
      else if op = ''run'' then run_command v p g x
      else if op = ''parameters'' \<and> ws = [] then parameters_command v p x
      else if op = ''menu'' \<and> ws = [] then sbind (need_player p) (\<lambda>_. opens (Script_Menu x (can_edit x p)))
      else refuses ''Use /botscript help'' [])"

definition saves :: "script_guard option \<Rightarrow> string \<Rightarrow> string list \<Rightarrow> bool" where
  "saves g op tail \<longleftrightarrow> op = ''save'' \<and> length tail = 2 \<and>
     (case g of None \<Rightarrow> False | Some h \<Rightarrow> sg_edit h \<and> (sg_name h = None \<or> sg_name h = Some (hd tail)))"

definition do_script :: "script_env \<Rightarrow> principal \<Rightarrow> script_guard option \<Rightarrow> string \<Rightarrow> string list \<Rightarrow> script_result script_action" where
  "do_script v p g op tail =
     (if op \<in> {''share'', ''private''} \<and> length tail = 1 then refuses ''share and private were replaced by visibility <name> shared|private'' []
      else if is_authoring op tail \<and> \<not> can_author p then ret may_not_author
      else if op = ''help'' \<and> tail = [] then ret help_scripts
      else if op = ''list'' \<and> tail = [] then list_command p
      else if op = ''runs'' \<and> tail = [] then runs_command p
      else if op = ''reload'' \<and> tail = [] then reload_command v p
      else if op = ''stop'' \<and> length tail = 1 then stop_command p (hd tail)
      else if saves g op tail then save_command v p (the g) (hd tail) (tail ! 1)
      else if op = ''menu'' \<and> tail = [] then menu_command p
      else if tail = [] then refuses ''Use /botscript help'' []
      else if op = ''import'' \<and> length tail = 1 then import_command v p g (hd tail)
      else if op = ''copy'' \<and> length tail = 2 then copy_command v p g (hd tail) (tail ! 1)
      else if op = ''owner'' then owner_command v p g tail
      else sbind (script_for (hd tail) p (changes_script op)) (\<lambda>x.
        if stale g x then fail changed_since else on_one_script v p g op x (tl tail)))"

text \<open>\<open>except (ValueError, RuntimeError, OSError)\<close>.\<close>

fun answered_error :: "failure \<Rightarrow> bool" where
  "answered_error (Crash m) = False"
| "answered_error (Invalid (RuntimeControlError c m)) = True"
| "answered_error (Invalid (LinkError c m)) = True"
| "answered_error (Invalid e) = (is_value_error e \<or> is_os_error e)"
| "answered_error e = True"

definition refused_answer :: "failure \<Rightarrow> script_result" where
  "refused_answer e = \<lparr>sr_answer = \<lparr>messages = [reply (failure_text e) None error_colour], log_messages = [], accepted = False,
     res_code = error_code e, res_data = None\<rparr>, sr_menu = None\<rparr>"

definition execute_script :: "script_env \<Rightarrow> principal \<Rightarrow> script_guard option \<Rightarrow> string list \<Rightarrow> script_result script_action" where
  "execute_script v p g argv = recover
     (sbind need_enabled (\<lambda>_. sbind (need_authority (se_allowed v)) (\<lambda>_.
      sbind (look (\<lambda>_. of_py (script_words g argv))) (\<lambda>(op, tail). do_script v p g op tail))))
     (\<lambda>e. if answered_error e then ret (refused_answer e) else fail e)"

end
