(* ===== verification/Script_Rights.thy ===== *)
theory Script_Rights
  imports Script_Commands
begin

text \<open>
  What \<open>/botscript\<close> lets a principal do to the stored scripts: every command is at most one operation of the script
  store, and one the principal has a right to. From this: scripts of others stay as they are, a principal that cannot
  author only makes scripts private or deletes them, the runs keep their limits and belong to who started them.
\<close>

section \<open>Rights\<close>

definition editable :: "principal \<Rightarrow> script_store \<Rightarrow> string \<Rightarrow> bool" where
  "editable p st n \<longleftrightarrow> (case map_of (scripts st) (casefold n) of None \<Rightarrow> False | Some x \<Rightarrow> can_edit x p)"

fun permitted :: "principal \<Rightarrow> script_store \<Rightarrow> script_op \<Rightarrow> bool" where
  "permitted p st (Save_script n t e w wn i m) =
     (can_author p \<and> w = Some (script_owner_key p) \<and> wn = Some (who_is p) \<and> (e = None \<or> editable p st n))"
| "permitted p st (Restore_script n k e i m) = (can_author p \<and> editable p st n)"
| "permitted p st (Show_script n w e) = (editable p st n \<and> (w = ''shared'' \<longrightarrow> can_author p))"
| "permitted p st (Give_script n w wn r) = (player_id p = None)"
| "permitted p st (Rename_script n m e) = (can_author p \<and> editable p st n)"
| "permitted p st (Delete_script n e) = editable p st n"
| "permitted p st (Reload_files fs) = True"

definition within_rights :: "principal \<Rightarrow> script_store \<Rightarrow> script_store \<Rightarrow> bool" where
  "within_rights p st st' \<longleftrightarrow> st' = st \<or> (\<exists>op. permitted p st op \<and> st' = snd (script_step op st))"

lemma within_refl [simp]: "within_rights p st st"
  by (simp add: within_rights_def)

lemma within_step: "permitted p st op \<Longrightarrow> within_rights p st (snd (script_step op st))"
  by (auto simp: within_rights_def)

section \<open>Effects that leave the stored scripts alone\<close>

definition still :: "'a script_action \<Rightarrow> bool" where
  "still m \<longleftrightarrow> (\<forall>s. sc_store (snd (m s)) = sc_store s)"

named_theorems still_intros

lemma still_basic [still_intros]: "still (ret x)" "still (fail e)" "still (look f)" "still (given r)" "still (refuses t ps)"
    "still (only_says m)" "still (opens menu)" "still (says_and_logs m l menu')" "still (started p y ms i)"
  by (simp_all add: still_def given_def refuses_def only_says_def opens_def says_and_logs_def started_def)

lemma still_sbind [still_intros]: "still m \<Longrightarrow> (\<And>x. still (f x)) \<Longrightarrow> still (sbind m f)"
  by (simp add: still_def sbind_def split: prod.split sum.split) (metis snd_conv)

lemma still_update: "(\<And>s. sc_store (f s) = sc_store s) \<Longrightarrow> still (update f)"
  by (simp add: still_def)

lemma still_split [still_intros]:
  "(c \<Longrightarrow> still m) \<Longrightarrow> (\<not> c \<Longrightarrow> still k) \<Longrightarrow> still (if c then m else k)"
  "still m1 \<Longrightarrow> (\<And>y. still (f1 y)) \<Longrightarrow> still (case v of None \<Rightarrow> m1 | Some y \<Rightarrow> f1 y)"
  "(\<And>e. still (g e)) \<Longrightarrow> (\<And>y. still (f2 y)) \<Longrightarrow> still (case r of Inl e \<Rightarrow> g e | Inr y \<Rightarrow> f2 y)"
  "(\<And>y z. still (f3 y z)) \<Longrightarrow> still (case q of (y, z) \<Rightarrow> f3 y z)"
  "(\<And>b. still (f4 b)) \<Longrightarrow> still (let b = d in f4 b)"
  by (auto split: option.split sum.split prod.split)

lemma still_attempt [still_intros]: "still m \<Longrightarrow> still (attempt m)"
  by (simp add: still_def attempt_def split: prod.split) (metis snd_conv)

lemma still_reading [still_intros]: "still (on_scripts (look f))"
  by (simp add: still_def on_scripts_def split: sum.split)

lemma still_looks [still_intros]: "still need_enabled" "still (need_authority b)" "still (need_player p)" "still (held_pages v w)"
    "still (script_for n p edit)" "still (new_name n)" "still (reserve p)"
  by (simp_all add: still_basic need_enabled_def need_authority_def need_player_def held_pages_def script_for_def new_name_def reserve_def)

lemma still_inspect [still_intros]: "still (inspect v t p)"
  by (auto simp: inspect_def take_slot_def drop_slot_def Let_def intro!: still_intros still_update)

lemma still_start [still_intros]: "still (start_run v x p r)"
  by (auto simp: start_run_def intro!: still_intros still_update)

lemma still_check_files [still_intros]: "still (check_files v p stored fs)"
proof (induction fs)
  case (Cons e fs)
  obtain k f where e: "e = (k, f)" by force
  show ?case unfolding e check_files.simps
    by (intro still_intros Cons.IH) (auto split: failure.split py_error.split intro!: still_intros Cons.IH)
next
  case Nil
  show ?case unfolding check_files.simps by (rule still_basic)
qed

section \<open>Commands within their rights\<close>

text \<open>\<open>ends P st m\<close>: from a service with the store \<open>st\<close>, the effect leaves a store that satisfies \<open>P\<close>.\<close>

definition ends :: "(script_store \<Rightarrow> bool) \<Rightarrow> script_store \<Rightarrow> 'a script_action \<Rightarrow> bool" where
  "ends P st m \<longleftrightarrow> (\<forall>s. sc_store s = st \<longrightarrow> P (sc_store (snd (m s))))"

lemma ends_still: "P st \<Longrightarrow> still m \<Longrightarrow> ends P st m"
  by (simp add: ends_def still_def)

lemma ends_after: "still m \<Longrightarrow> P st \<Longrightarrow> (\<And>x. ends P st (f x)) \<Longrightarrow> ends P st (sbind m f)"
  by (simp add: ends_def still_def sbind_def split: prod.split sum.split) (metis snd_conv)

lemma ends_before: "ends P st m \<Longrightarrow> (\<And>x. still (f x)) \<Longrightarrow> ends P st (sbind m f)"
  by (simp add: ends_def still_def sbind_def split: prod.split sum.split) (metis snd_conv)

lemma ends_script:
  "P st \<Longrightarrow> (\<And>x. find_script n p edit st = Inr x \<Longrightarrow> ends P st (f x)) \<Longrightarrow> ends P st (sbind (script_for n p edit) f)"
  by (auto simp: ends_def script_for_def sbind_def split: sum.split)

lemma ends_checked:
  "P st \<Longrightarrow> (\<And>x. find_script n p edit st = Inr x \<Longrightarrow> ends P st (f ())) \<Longrightarrow>
   ends P st (sbind (sbind (script_for n p edit) (\<lambda>_. ret ())) f)"
  by (auto simp: ends_def script_for_def sbind_def split: sum.split)

lemma ends_op: "P (snd (m st)) \<Longrightarrow> ends P st (on_scripts m)"
  by (auto simp: ends_def on_scripts_def split: prod.split sum.split)

lemma ends_if: "(c \<Longrightarrow> ends P st m) \<Longrightarrow> (\<not> c \<Longrightarrow> ends P st k) \<Longrightarrow> ends P st (if c then m else k)"
  by simp

lemma ends_prod: "(\<And>y z. ends P st (f y z)) \<Longrightarrow> ends P st (case q of (y, z) \<Rightarrow> f y z)"
  by (cases q) simp

lemma of_py_Inr [simp]: "of_py r = Inr x \<longleftrightarrow> r = Inr x"
  by (cases r) simp_all

lemma find_script_can_run: "find_script n p edit st = Inr x \<Longrightarrow> can_run x p"
  by (auto simp: find_script_def split: if_splits)

lemma found_stored:
  assumes "wf_scripts (scripts st)" "find_script n p True st = Inr x"
  shows "can_edit x p" "map_of (scripts st) (casefold n) = Some x" "casefold (ss_name x) = casefold n" "editable p st n" "editable p st (ss_name x)"
proof -
  have x: "get_script n st = Inr x" and plain: "\<not> is_file_script x" and edit: "can_edit x p"
    using assms(2) by (auto simp: find_script_def split: if_splits)
  show "can_edit x p" by (rule edit)
  show k: "map_of (scripts st) (casefold n) = Some x"
    using x plain by (auto simp: get_script_def all_scripts_lookup [OF assms(1)] is_file_script_def as_script_def split: option.splits)
  show label: "casefold (ss_name x) = casefold n" by (rule stored_label [OF assms(1) k])
  show "editable p st n" "editable p st (ss_name x)" by (simp_all add: editable_def label k edit)
qed

lemma save_within:
  assumes "can_author p" "e = None \<or> editable p st n"
  shows "ends (within_rights p st) st (save_as v p n t e)"
proof -
  have "within_rights p st (snd (script_step (Save_script n t e (Some (script_owner_key p)) (Some (who_is p)) (se_fresh v) (se_now v)) st))"
    using assms by (intro within_step) simp
  then show ?thesis unfolding save_as_def by (intro ends_before ends_op still_basic) simp
qed

lemma save_command_within:
  assumes "can_author p" "wf_scripts (scripts st)"
  shows "ends (within_rights p st) st (save_command v p g n t)"
proof (cases "sg_revision g")
  case None
  show ?thesis unfolding save_command_def None option.case
    by (intro ends_after within_refl ends_before [OF save_within] still_intros assms(1)) simp
next
  case (Some r)
  show ?thesis unfolding save_command_def Some option.case
    by (rule ends_after [OF still_basic(3) within_refl], rule ends_checked [OF within_refl],
        drule found_stored(4) [OF assms(2)])
      (intro ends_after within_refl ends_before [OF save_within] still_intros assms(1), simp)
qed

lemma restore_within:
  assumes "can_author p" "editable p st (ss_name x)"
  shows "ends (within_rights p st) st (restore_command v p x w)"
proof -
  have "within_rights p st (snd (script_step (Restore_script (ss_name x) k (ss_revision x) (se_fresh v) (se_now v)) st))" for k
    using assms by (intro within_step) simp
  then show ?thesis unfolding restore_command_def
    by (intro ends_if ends_after ends_before ends_op within_refl ends_still still_intros) simp_all
qed

lemma visibility_within:
  assumes "editable p st (ss_name x)" "w = ''shared'' \<longrightarrow> can_author p"
  shows "ends (within_rights p st) st (visibility_command p x w)"
proof -
  have "within_rights p st (snd (script_step (Show_script (ss_name x) w (ss_revision x)) st))"
    using assms by (intro within_step) simp
  then show ?thesis unfolding visibility_command_def by (intro ends_before ends_op still_intros) simp
qed

lemma rename_within:
  assumes "can_author p" "editable p st (ss_name x)"
  shows "ends (within_rights p st) st (rename_command v p x new)"
proof -
  have "within_rights p st (snd (script_step (Rename_script (ss_name x) new (ss_revision x)) st))"
    using assms by (intro within_step) simp
  then show ?thesis unfolding rename_command_def
    by (intro ends_after ends_before ends_op within_refl still_intros) simp
qed

lemma delete_within:
  assumes "editable p st (ss_name x)"
  shows "ends (within_rights p st) st (delete_command p x)"
proof -
  have "within_rights p st (snd (script_step (Delete_script (ss_name x) (ss_revision x)) st))"
    using assms by (intro within_step) simp
  then show ?thesis unfolding delete_command_def by (intro ends_before ends_op still_intros) simp
qed

lemma copy_within: "can_author p \<Longrightarrow> ends (within_rights p st) st (copy_command v p g n new)"
  unfolding copy_command_def
  by (intro ends_after ends_if within_refl ends_before [OF save_within] ends_still still_intros) simp_all

lemma owner_within: "ends (within_rights p st) st (owner_command v p g ws)"
proof -
  have "within_rights p st (snd (script_step (Give_script n w wn r) st))" if "player_id p = None" for n w wn r
    using that by (intro within_step) simp
  then have give: "player_id p = None \<Longrightarrow> ends (within_rights p st) st (on_scripts (set_script_owner n w wn r))" for n w wn r
    by (intro ends_op) simp
  show ?thesis
  proof (cases "\<exists>n tag. ws = [n, tag]")
    case True
    then obtain n tag where ws: "ws = [n, tag]" by blast
    show ?thesis
    proof (cases "player_id p = None")
      case True
      then show ?thesis unfolding owner_command_def ws list.case
        by (simp del: sbind_simps)
          (intro ends_after ends_if ends_prod within_refl ends_before [OF give] ends_still [OF within_refl still_basic(2)]
             ends_still [OF within_refl still_basic(5)] still_basic still_reading, assumption)
    qed (simp add: owner_command_def ws ends_still still_basic)
  next
    case False
    then have "owner_command v p g ws = refuses ''Use /botscript owner <name> <GamerTag>'' []"
      by (auto simp: owner_command_def split: list.split)
    then show ?thesis by (simp add: ends_still still_basic)
  qed
qed

lemma reload_within: "ends (within_rights p st) st (reload_command v p)"
proof -
  have "within_rights p st (snd (script_step (Reload_files fs) st))" for fs by (intro within_step) simp
  then have put: "ends (within_rights p st) st (on_scripts (\<lambda>st. case set_files fs st of (names, st') \<Rightarrow> (Inr names, st')))" for fs
    by (intro ends_op) (simp add: case_prod_beta)
  have "ends (within_rights p st) st (reload_files v (Some p))"
    unfolding reload_files_def option.case
    by (auto intro!: ends_after within_refl ends_before [OF put] still_intros)
  then show ?thesis unfolding reload_command_def by (intro ends_before) (auto intro!: still_intros)
qed

lemma stop_still: "still (stop_command p w)"
  by (simp add: still_def stop_command_def stop_runs_def Let_def says_and_logs_def)

lemma import_book_within:
  assumes "can_author p" "case existing of None \<Rightarrow> True | Some x \<Rightarrow> editable p st (ss_name x)"
  shows "ends (within_rights p st) st (import_book v p g word existing t)"
  using assms unfolding import_book_def Let_def
  by (intro ends_after within_refl ends_before [OF save_within] still_intros) (auto split: option.splits)

lemma ends_import_target:
  assumes "P st" "\<And>x. find_script n p True st = Inr x \<Longrightarrow> ends P st (f (Some x))" "ends P st (f None)"
  shows "ends P st (sbind (import_target p n) f)"
  using assms unfolding import_target_def ends_def
  by (auto simp: sbind_def attempt_def script_for_def new_name_def split: sum.split failure.split py_error.split)

lemma import_within:
  assumes "can_author p" "wf_scripts (scripts st)"
  shows "ends (within_rights p st) st (import_command v p g word)"
proof -
  have fresh: "ends (within_rights p st) st (import_book v p h word None t)" for h t
    using assms(1) by (intro import_book_within) simp_all
  have known: "ends (within_rights p st) st (import_book v p h word (Some x) t)" if "find_script word p True st = Inr x" for h x t
    using found_stored(5) [OF assms(2) that] assms(1) by (intro import_book_within) simp_all
  have quiet: "ends (within_rights p st) st (only_says m)" "ends (within_rights p st) st (opens y)"
      "ends (within_rights p st) st (fail e)" "ends (within_rights p st) st (refuses m' ps)" for m m' y e ps
    by (intro ends_still within_refl still_basic)+
  show ?thesis unfolding import_command_def
    by (rule ends_after [OF still_looks(3) within_refl], rule ends_after [OF still_looks(4) within_refl],
        rule ends_after [OF still_basic(3) within_refl], rule ends_after [OF still_basic(3) within_refl],
        rule ends_import_target [OF within_refl])
      (auto split: option.split intro!: fresh known quiet)
qed

lemma still_show: "still (show_command v p edit x ws)"
  unfolding show_command_def Let_def by (intro still_intros)

lemma still_export: "still (export_command v p g x b)"
  unfolding export_command_def Let_def by (intro still_intros)

lemma still_history: "still (history_command v p g x)"
  unfolding history_command_def Let_def by (intro still_intros)

lemma still_run: "still (run_command v p g x)" and still_parameters: "still (parameters_command v p x)"
  unfolding run_command_def parameters_command_def by (intro still_intros)+

lemma still_menus: "still (menu_command p)" "still (list_command p)" "still (runs_command p)"
  unfolding menu_command_def list_command_def runs_command_def Let_def by (intro still_intros)+

lemma one_script_within:
  assumes "changes_script op \<longrightarrow> editable p st (ss_name x)" "is_authoring op (y # ws) \<longrightarrow> can_author p"
  shows "ends (within_rights p st) st (on_one_script v p g op x ws)"
proof -
  have quiet: "still m \<Longrightarrow> ends (within_rights p st) st m" for m :: "script_result script_action"
    by (intro ends_still within_refl)
  have author: "op = ''restore'' \<or> op = ''rename'' \<Longrightarrow> can_author p"
    using assms(2) by (auto simp: is_authoring_def authoring_def)
  have edit: "op \<in> {''visibility'', ''restore'', ''rename'', ''delete''} \<Longrightarrow> editable p st (ss_name x)"
    using assms(1) by (auto simp: changes_script_def)
  have vis: "op = ''visibility'' \<and> length ws = 1 \<and> c \<Longrightarrow> ends (within_rights p st) st (visibility_command p x (casefold (hd ws)))" for c
    using edit assms(2) by (intro visibility_within) (auto simp: is_authoring_def length_Suc_conv)
  have res: "op = ''restore'' \<and> c \<Longrightarrow> ends (within_rights p st) st (restore_command v p x w)" for c w
    using edit author by (intro restore_within) simp_all
  have ren: "op = ''rename'' \<and> c \<Longrightarrow> ends (within_rights p st) st (rename_command v p x w)" for c w
    using edit author by (intro rename_within) simp_all
  have del: "op = ''delete'' \<and> c \<Longrightarrow> ends (within_rights p st) st (delete_command p x)" for c
    using edit by (intro delete_within) simp
  show ?thesis unfolding on_one_script_def
    by (intro ends_if quiet [OF still_show] quiet [OF still_export] quiet [OF still_history] quiet [OF still_run]
      quiet [OF still_parameters] quiet [OF still_sbind [OF still_looks(3) still_basic(7)]] quiet [OF still_basic(5)])
      (erule vis res ren del)+
qed

lemma do_script_within:
  assumes "wf_scripts (scripts st)"
  shows "ends (within_rights p st) st (do_script v p g op tail)"
proof (cases "is_authoring op tail \<and> \<not> can_author p")
  case False
  have quiet: "still m \<Longrightarrow> ends (within_rights p st) st m" for m :: "script_result script_action"
    by (intro ends_still within_refl)
  have save: "saves g op tail \<Longrightarrow> ends (within_rights p st) st (save_command v p (the g) (hd tail) (tail ! 1))"
    using False assms by (intro save_command_within) (auto simp: saves_def is_authoring_def authoring_def)
  have imp: "op = ''import'' \<and> c \<Longrightarrow> ends (within_rights p st) st (import_command v p g (hd tail))" for c
    using False assms by (intro import_within) (auto simp: is_authoring_def authoring_def)
  have copy: "op = ''copy'' \<and> c \<Longrightarrow> ends (within_rights p st) st (copy_command v p g (hd tail) (tail ! 1))" for c
    using False by (intro copy_within) (auto simp: is_authoring_def authoring_def)
  have one: "ends (within_rights p st) st (sbind (script_for (hd tail) p (changes_script op)) (\<lambda>x.
        if stale g x then fail changed_since else on_one_script v p g op x (tl tail)))" if "tail \<noteq> []"
  proof (intro ends_script within_refl ends_if quiet [OF still_basic(2)] one_script_within [where y = "hd tail"])
    fix x assume x: "find_script (hd tail) p (changes_script op) st = Inr x"
    then show "changes_script op \<longrightarrow> editable p st (ss_name x)" using found_stored(5) [OF assms, of "hd tail" p x] by auto
    show "is_authoring op (hd tail # tl tail) \<longrightarrow> can_author p" using False that by simp
  qed
  show ?thesis unfolding do_script_def
    by (intro ends_if quiet [OF still_basic(5)] quiet [OF still_basic(1)] quiet [OF still_menus(1)] quiet [OF still_menus(2)]
      quiet [OF still_menus(3)] quiet [OF stop_still] reload_within owner_within one)
      (assumption | erule save imp copy)+
next
  case True
  have "do_script v p g op tail = (if op \<in> {''share'', ''private''} \<and> length tail = 1
      then refuses ''share and private were replaced by visibility <name> shared|private'' [] else ret may_not_author)"
    using True by (simp add: do_script_def)
  then show ?thesis by (simp add: ends_still still_basic)
qed

text \<open>C3: Every command leaves the stored scripts as they are or does one operation of the script store, and one its principal has a
  right to: only who may author saves, restores, renames or shares, only a script the principal may edit is changed or
  deleted, a script may be created, and only the console gives a script to another owner.\<close>

theorem commands_stay_within_rights:
  assumes "wf_scripts (scripts (sc_store s))"
  shows "within_rights p (sc_store s) (sc_store (snd (execute_script v p g argv s)))"
proof -
  have "ends (within_rights p (sc_store s)) (sc_store s) (sbind need_enabled (\<lambda>_. sbind (need_authority (se_allowed v)) (\<lambda>_.
      sbind (look (\<lambda>_. of_py (script_words g argv))) (\<lambda>(op, tail). do_script v p g op tail))))"
    by (intro ends_after ends_prod within_refl still_looks still_basic do_script_within assms)
  then show ?thesis
    by (auto simp: ends_def execute_script_def recover_def split: prod.split sum.split)
qed

section \<open>Histories\<close>

text \<open>What happens to the service: a command, the end of a run's thread, and an inspection for the web page that begins and ends on
  another thread than the commands.\<close>

datatype script_event =
    Script_command script_env principal "script_guard option" "string list"
  | Run_ended string
  | Check_begins principal
  | Check_ends principal

fun script_event_step :: "script_event \<Rightarrow> script_service \<Rightarrow> script_service" where
  "script_event_step (Script_command v p g argv) s = snd (execute_script v p g argv s)"
| "script_event_step (Run_ended i) s = retire_run i s"
| "script_event_step (Check_begins p) s = snd (take_slot p s)"
| "script_event_step (Check_ends p) s = drop_slot p s"

definition script_history_of :: "script_event list \<Rightarrow> script_service \<Rightarrow> script_service" where
  "script_history_of es s = fold script_event_step es s"

fun commanded_by :: "script_event \<Rightarrow> principal option" where
  "commanded_by (Script_command v p g argv) = Some p"
| "commanded_by _ = None"

lemma script_run_induct:
  assumes "I s" "\<And>e s. e \<in> set es \<Longrightarrow> I s \<Longrightarrow> I (script_event_step e s)"
  shows "I (script_history_of es s)"
  using assms unfolding script_history_of_def by (induction es arbitrary: s) auto

lemma command_free: "commanded_by e = None \<Longrightarrow> sc_store (script_event_step e s) = sc_store s"
proof (cases e)
  case (Check_begins p)
  have "still (take_slot p)" unfolding take_slot_def by (intro still_intros still_update) simp
  then show ?thesis by (simp add: Check_begins still_def)
qed (auto simp: retire_run_def drop_slot_def Let_def)

text \<open>What a history does to the store is what operations of the store do that the commanding principals have a right to.\<close>

lemma event_store:
  assumes "wf_scripts (scripts (sc_store s))"
    "\<And>p op st. commanded_by e = Some p \<Longrightarrow> wf_scripts (scripts st) \<Longrightarrow> permitted p st op \<Longrightarrow> J st \<Longrightarrow> J (snd (script_step op st))"
    "J (sc_store s)"
  shows "wf_scripts (scripts (sc_store (script_event_step e s))) \<and> J (sc_store (script_event_step e s))"
proof (cases "commanded_by e")
  case (Some p)
  then obtain v g argv where e: "e = Script_command v p g argv" by (cases e) auto
  have "within_rights p (sc_store s) (sc_store (script_event_step e s))"
    unfolding e script_event_step.simps by (rule commands_stay_within_rights [OF assms(1)])
  moreover have "wf_scripts (scripts (snd (script_step op (sc_store s))))" for op
    using script_step_settled [OF assms(1), of op] assms(1) by (auto simp: settled_def)
  ultimately show ?thesis using assms Some by (auto simp: within_rights_def)
qed (use assms command_free in simp)

lemma saved_lookup: fixes s :: script_store
  shows "map_of (scripts s) k = y \<Longrightarrow> map_of d k = y \<Longrightarrow> map_of (scripts (snd (save_scripts d s))) k = y"
  by (auto simp: save_scripts_def split: prod.split sum.split)

lemma on_script_lookup:
  assumes "map_of (scripts s) k = y" "\<And>x d. find_stored n s = Inr x \<Longrightarrow> f x = Inr d \<Longrightarrow> map_of d k = y"
  shows "map_of (scripts (snd (on_script n r f s))) k = y"
proof (cases "ebind (find_stored n s) (\<lambda>x. ebind (check (ss_revision x = r) script_changed) (\<lambda>_. f x))")
  case (Inr d)
  then show ?thesis using assms by (auto simp: on_script_def intro!: saved_lookup)
qed (simp add: on_script_def assms(1))

lemma save_script_lookup:
  assumes "map_of (scripts s) k = Some x" "ex = None \<or> casefold n \<noteq> k"
  shows "map_of (scripts (snd (save_script n t ex w wn i m s))) k = Some x"
proof (rule save_script_cases [of n t ex w wn i m s])
  fix z assume "ex = map_option ss_revision (map_of (scripts s) (casefold n))"
    and z: "save_script n t ex w wn i m s = sthen (save_scripts (put_script n z s)) (ret z) s"
  then have "casefold n \<noteq> k" using assms by auto
  then have "map_of (scripts (snd (save_scripts (put_script n z s) s))) k = Some x"
    using assms(1) by (intro saved_lookup) (simp_all add: put_script_def)
  then show ?thesis by (auto simp: z sthen_def sbind_def split: prod.split sum.split)
qed (use assms(1) in simp)

lemma editable_other: "editable p st n \<Longrightarrow> map_of (scripts st) k = Some x \<Longrightarrow> \<not> can_edit x p \<Longrightarrow> casefold n \<noteq> k"
  by (auto simp: editable_def)

lemma step_spares_others:
  assumes wf: "wf_scripts (scripts st)" and perm: "permitted p st op"
    and x: "map_of (scripts st) k = Some x" "\<not> can_edit x p"
  shows "map_of (scripts (snd (script_step op st))) k = Some x"
proof (cases op)
  case (Save_script n t e w wn i m)
  then show ?thesis using perm x editable_other [of p st n k x] save_script_lookup [of st k x e n] by auto
next
  case (Restore_script n j e i m)
  then have "casefold n \<noteq> k" using perm x editable_other [of p st n k x] by simp
  then show ?thesis
    using x(1) stored_is_known(2) [OF _ wf, of n]
    by (auto simp: Restore_script restore_script_def wf_script_def intro!: save_script_lookup split: sum.split)
next
  case (Show_script n w e)
  then show ?thesis using perm x editable_other [of p st n k x]
    by (auto simp: set_script_visibility_def put_script_def intro!: on_script_lookup)
next
  case (Give_script n w wn r)
  show ?thesis
  proof (cases "snd (script_step op st) = st")
    case False
    then obtain y where y: "get_script n st = Inr y" "\<not> is_file_script y"
      "snd (script_step op st) = snd (save_scripts (put_script (ss_name y) (y\<lparr>ss_owner := w, ss_owner_name := wn\<rparr>) st) st)"
      by (auto simp: Give_script set_script_owner_def split: sum.splits)
    have ky: "map_of (scripts st) (casefold n) = Some y"
      using y(1,2) by (auto simp: get_script_def all_scripts_lookup [OF wf] is_file_script_def as_script_def split: option.splits)
    have "can_edit y p" using y(2) perm by (simp add: can_edit_def Give_script)
    then have "casefold n \<noteq> k" using x ky by auto
    then show ?thesis using x(1) stored_label [OF wf ky] by (auto simp: y(3) put_script_def intro!: saved_lookup)
  qed (simp add: x(1))
next
  case (Rename_script n m e)
  then have other: "casefold n \<noteq> k" using perm x editable_other [of p st n k x] by simp
  have "k \<in> set (keys (all_scripts st))"
    using all_scripts_lookup [OF wf, of k] x(1) by (metis map_of_eq_None_iff option.distinct(1) option.simps(5) list.set_map)
  then have free: "casefold m \<noteq> k" if "casefold m \<notin> fst ` set (all_scripts st)" using that by auto
  show ?thesis
    using x(1) other free by (auto simp: Rename_script rename_script_def intro!: on_script_lookup split: sum.split if_splits)
next
  case (Delete_script n e)
  then show ?thesis using perm x editable_other [of p st n k x] by (auto simp: delete_script_def intro!: on_script_lookup)
qed (simp add: set_files_def x(1))

text \<open>C8: A script stays exactly as it is, source, history, owner and visibility, through any commands of principals who may not
  edit it, whatever else they do and whoever starts and ends runs meanwhile.\<close>

theorem scripts_of_others_stay:
  assumes "wf_scripts (scripts (sc_store s))" "map_of (scripts (sc_store s)) k = Some x"
    and "\<forall>e \<in> set es. case commanded_by e of None \<Rightarrow> True | Some p \<Rightarrow> \<not> can_edit x p"
  shows "map_of (scripts (sc_store (script_history_of es s))) k = Some x"
proof -
  let ?I = "\<lambda>s. wf_scripts (scripts (sc_store s)) \<and> map_of (scripts (sc_store s)) k = Some x"
  have "?I (script_history_of es s)"
  proof (rule script_run_induct)
    fix e and s :: script_service assume e: "e \<in> set es" and s: "?I s"
    show "?I (script_event_step e s)"
      by (rule event_store [where J = "\<lambda>st. map_of (scripts st) k = Some x"]) (use e s assms(3) step_spares_others in auto)
  qed (use assms in simp)
  then show ?thesis by simp
qed

section \<open>Principals that cannot author\<close>

definition narrowed :: "(string, stored_script) dict \<Rightarrow> (string, stored_script) dict \<Rightarrow> bool" where
  "narrowed old new \<longleftrightarrow> (\<forall>k y. map_of new k = Some y \<longrightarrow>
     (\<exists>x. map_of old k = Some x \<and> (y = x \<or> y = x\<lparr>ss_visibility := ''private''\<rparr>)))"

lemma narrowed_refl [simp]: "narrowed d d"
  by (simp add: narrowed_def)

lemma narrowed_pop: "narrowed old d \<Longrightarrow> narrowed old (dict_pop k d)"
  by (simp add: narrowed_def)

lemma narrowed_set:
  "narrowed old d \<Longrightarrow> map_of d k = Some x \<Longrightarrow> narrowed old (dict_set k (x\<lparr>ss_visibility := ''private''\<rparr>) d)"
proof -
  assume d: "narrowed old d" "map_of d k = Some x"
  then obtain x0 where "map_of old k = Some x0" "x = x0 \<or> x = x0\<lparr>ss_visibility := ''private''\<rparr>"
    by (auto simp: narrowed_def)
  then have "\<exists>x0. map_of old k = Some x0 \<and> x\<lparr>ss_visibility := ''private''\<rparr> = x0\<lparr>ss_visibility := ''private''\<rparr>" by auto
  with d(1) show ?thesis by (auto simp: narrowed_def)
qed

lemma narrowed_saved: fixes s :: script_store
  shows "narrowed old (scripts s) \<Longrightarrow> narrowed old d \<Longrightarrow> narrowed old (scripts (snd (save_scripts d s)))"
  by (auto simp: save_scripts_def split: prod.split sum.split)

lemma narrowed_on_script:
  assumes "narrowed old (scripts s)" "\<And>x d. find_stored n s = Inr x \<Longrightarrow> f x = Inr d \<Longrightarrow> narrowed old d"
  shows "narrowed old (scripts (snd (on_script n r f s)))"
proof (cases "ebind (find_stored n s) (\<lambda>x. ebind (check (ss_revision x = r) script_changed) (\<lambda>_. f x))")
  case (Inr d)
  then show ?thesis using assms by (auto simp: on_script_def intro!: narrowed_saved)
qed (simp add: on_script_def assms(1))

lemma step_narrows:
  assumes wf: "wf_scripts (scripts st)" and perm: "permitted p st op" and p: "\<not> can_author p" "player_id p \<noteq> None"
    and old: "narrowed old (scripts st)"
  shows "narrowed old (scripts (snd (script_step op st)))"
proof (cases op)
  case (Show_script n w e)
  then have w: "is_visibility w \<Longrightarrow> w = ''private''" using perm p by (auto simp: is_visibility_def)
  have "narrowed old (scripts (snd (on_script n e (\<lambda>x. Inr (put_script n (x\<lparr>ss_visibility := ''private''\<rparr>) st)) st)))"
    using stored_is_known(1) [OF _ wf, of n] old
    by (intro narrowed_on_script) (auto simp: put_script_def intro!: narrowed_set)
  then show ?thesis using w old by (auto simp: Show_script set_script_visibility_def)
next
  case (Delete_script n e)
  then show ?thesis using old by (auto simp: delete_script_def intro!: narrowed_on_script narrowed_pop)
qed (use perm p old in \<open>simp_all add: set_files_def\<close>)

text \<open>C7: Through any commands of players who may not author, no script is created, renamed, edited, restored, shared or given away: a
  script that is stored afterwards was stored before under the same name, and at most its visibility is now private.\<close>

theorem controllers_only_narrow:
  assumes "wf_scripts (scripts (sc_store s))"
    and "\<forall>e \<in> set es. case commanded_by e of None \<Rightarrow> True | Some p \<Rightarrow> \<not> can_author p \<and> player_id p \<noteq> None"
  shows "narrowed (scripts (sc_store s)) (scripts (sc_store (script_history_of es s)))"
proof -
  let ?old = "scripts (sc_store s)"
  let ?I = "\<lambda>s. wf_scripts (scripts (sc_store s)) \<and> narrowed ?old (scripts (sc_store s))"
  have "?I (script_history_of es s)"
  proof (rule script_run_induct)
    fix e and t :: script_service assume e: "e \<in> set es" and t: "?I t"
    show "?I (script_event_step e t)"
      by (rule event_store [where J = "\<lambda>st. narrowed ?old (scripts st)"]) (use e t assms(2) step_narrows in auto)
  qed (use assms in simp)
  then show ?thesis by simp
qed

section \<open>Private scripts of others\<close>

text \<open>C37: To a player, a command about a private script of someone else gives the same answer as a command about a script that does not
  exist, whatever the rest of the store, unless the command would create a script of that name.\<close>

theorem hidden_script_looks_missing:
  assumes "script_words g argv = Inr (op, name # ws)" "op \<notin> {''save'', ''import'', ''stop''}" "player_id p \<noteq> None"
    and "get_script name (sc_store s) = Inr x" "\<not> can_run x p" "get_script name st = Inl (no_script name)"
  shows "fst (execute_script v p g argv s) = fst (execute_script v p g argv (s\<lparr>sc_store := st\<rparr>))"
proof -
  have missing: "script_for name p edit t = (Inl (Invalid (no_script name)), t)" if "t = s \<or> t = s\<lparr>sc_store := st\<rparr>" for t edit
    using that assms(4-6) by (auto simp: script_for_def find_script_def)
  have same: "fst (sbind (script_for name p edit) f s) = fst (sbind (script_for name p edit) f (s\<lparr>sc_store := st\<rparr>))"
    for edit and f :: "stored_script \<Rightarrow> script_result script_action"
    by (simp add: sbind_def missing)
  have "\<not> saves g op (name # ws)" using assms(2) by (simp add: saves_def)
  then have "fst (do_script v p g op (name # ws) s) = fst (do_script v p g op (name # ws) (s\<lparr>sc_store := st\<rparr>))"
    using assms(2,3) same
    by (auto simp: do_script_def copy_command_def owner_command_def refuses_def split: list.split)
  then show ?thesis
    by (auto simp: execute_script_def recover_def sbind_def need_enabled_def need_authority_def assms(1) split: prod.split sum.split)
qed

text \<open>A new script of that name is refused with another answer, which tells that the name is taken.\<close>

lemma hidden_name_is_told:
  "get_script name (sc_store s) = Inr x \<Longrightarrow> new_name name s = (Inl (refuse_script ''Script {name} already exists'' [(''name'', name)]), s)"
  "get_script name (sc_store s) = Inl (no_script name) \<Longrightarrow> new_name name s = (Inr (), s)"
  by (simp_all add: new_name_def no_script_def)

section \<open>Examples\<close>

definition bare_env :: script_env where
  "bare_env = \<lparr>se_allowed = True, se_still = True, se_inspect = (\<lambda>_. Inr \<lparr>de_schema = [], de_requires = []\<rparr>), se_folder = No_Folder,
     se_folder_name = ''scripts'', se_digest = (\<lambda>_. ''0''), se_world = False, se_held = (\<lambda>_. Inl (Runtime_Error [])),
     se_fill = (\<lambda>_ _. Inr ()), se_resolve = (\<lambda>_. None), se_choices = (\<lambda>_. Inr ()), se_fresh = ''r9'', se_run = ''run1'',
     se_now = 500, se_time_text = (\<lambda>_. [])\<rparr>"

definition one_service :: script_service where
  "one_service = \<lparr>sc_store = one_script, sc_ready = True, sc_open = True, sc_runs = [], sc_inspecting = [],
     sc_config = \<lparr>cf_enabled = True, cf_book_export = True, cf_controller_runs = 1, cf_server_runs = 2\<rparr>\<rparr>"

definition player_called :: "string \<Rightarrow> string \<Rightarrow> principal" where
  "player_called n x = (principal_of Player)\<lparr>p_name := Some n, p_xuid := Some x, player_id := Some n, p_role := Some ''controller''\<rparr>"

definition sam :: principal where
  "sam = player_called ''Sam'' ''99''"

definition owner_alex :: principal where
  "owner_alex = player_called ''Alex'' ''77''"

lemma one_service_wf: "wf_scripts (scripts (sc_store one_service))"
  by code_simp

theorem commands_stay_within_rights_witness:
  "within_rights owner_alex one_script (sc_store (snd (execute_script bare_env owner_alex None [''delete'', ''mine''] one_service))) \<and>
   scripts (sc_store (snd (execute_script bare_env owner_alex None [''delete'', ''mine''] one_service))) = []"
proof
  have "sc_store one_service = one_script" by (simp add: one_service_def)
  with commands_stay_within_rights [OF one_service_wf, of owner_alex bare_env None "[''delete'', ''mine'']"]
  show "within_rights owner_alex one_script (sc_store (snd (execute_script bare_env owner_alex None [''delete'', ''mine''] one_service)))"
    by simp
  show "scripts (sc_store (snd (execute_script bare_env owner_alex None [''delete'', ''mine''] one_service))) = []" by code_simp
qed

theorem scripts_of_others_stay_witness:
  "map_of (scripts (sc_store (script_history_of [Script_command bare_env sam None [''delete'', ''mine''],
      Check_begins sam, Script_command bare_env sam None [''visibility'', ''mine'', ''private'']] one_service))) ''mine'' =
   map_of (scripts one_script) ''mine''"
proof -
  let ?x = "snd (hd (scripts one_script))"
  have x: "map_of (scripts (sc_store one_service)) ''mine'' = Some ?x" "map_of (scripts one_script) ''mine'' = Some ?x" by code_simp+
  have "\<not> can_edit ?x sam" by code_simp
  then have "\<forall>e \<in> set [Script_command bare_env sam None [''delete'', ''mine''], Check_begins sam,
      Script_command bare_env sam None [''visibility'', ''mine'', ''private'']].
      case commanded_by e of None \<Rightarrow> True | Some p \<Rightarrow> \<not> can_edit ?x p"
    by simp
  from scripts_of_others_stay [OF one_service_wf x(1) this] x(2) show ?thesis by simp
qed

theorem controllers_only_narrow_witness:
  "narrowed (scripts one_script) (scripts (sc_store (script_history_of
     [Script_command bare_env owner_alex None [''copy'', ''mine'', ''mine2''], Script_command bare_env owner_alex None [''delete'', ''mine'']] one_service)))"
proof -
  have "\<not> can_author owner_alex" "player_id owner_alex \<noteq> None" by code_simp+
  then have "\<forall>e \<in> set [Script_command bare_env owner_alex None [''copy'', ''mine'', ''mine2''], Script_command bare_env owner_alex None [''delete'', ''mine'']].
      case commanded_by e of None \<Rightarrow> True | Some p \<Rightarrow> \<not> can_author p \<and> player_id p \<noteq> None"
    by simp
  from controllers_only_narrow [OF one_service_wf this] show ?thesis by (simp add: one_service_def)
qed

theorem hidden_script_looks_missing_witness:
  "fst (execute_script bare_env sam None [''show'', ''Mine''] one_service) =
   fst (execute_script bare_env sam None [''show'', ''Mine''] (one_service\<lparr>sc_store := one_script\<lparr>scripts := []\<rparr>\<rparr>))"
proof (rule hidden_script_looks_missing)
  show "script_words None [''show'', ''Mine''] = Inr (''show'', ''Mine'' # [])" by code_simp
  show "''show'' \<notin> {''save'', ''import'', ''stop''}" by simp
  show "player_id sam \<noteq> None" "\<not> can_run (snd (hd (scripts one_script))) sam" by code_simp+
  show "get_script ''Mine'' (sc_store one_service) = Inr (snd (hd (scripts one_script)))" by code_simp
  show "get_script ''Mine'' (one_script\<lparr>scripts := []\<rparr>) = Inl (no_script ''Mine'')" by code_simp
qed

end
