(* ===== verification/Script_Limits.thy ===== *)
theory Script_Limits
  imports Script_Rights
begin

text \<open>
  The runs of \<open>ScriptService\<close>: how many there may be, and whose they are. A locale states what an invariant of the runs
  must survive, the change of the stored scripts, an inspection, a start and a stop, and proves that it survives every
  command; it is interpreted with the limits and with the run of another controller.
\<close>

section \<open>Invariants of the runs\<close>

lemma keeps_cases [intro]:
  "(\<And>e. keeps I (g e)) \<Longrightarrow> (\<And>y. keeps I (f y)) \<Longrightarrow> keeps I (case r of Inl e \<Rightarrow> g e | Inr y \<Rightarrow> f y)"
  "(\<And>y z. keeps I (h y z)) \<Longrightarrow> keeps I (case q of (y, z) \<Rightarrow> h y z)"
  "(\<And>b. keeps I (l b)) \<Longrightarrow> keeps I (let b = d in l b)"
  by (auto split: sum.split prod.split)

lemma keeps_attempt [intro]: "keeps I m \<Longrightarrow> keeps I (attempt m)"
  by (auto simp: keeps_def attempt_def split: prod.split)

lemma keeps_caught: "keeps I m \<Longrightarrow> (\<And>e. keeps I (h e)) \<Longrightarrow> keeps I (recover m h)"
  by (auto simp: keeps_def recover_def split: prod.split sum.split)

named_theorems keeps_parts

lemma keeps_script_looks [keeps_parts]: "keeps I need_enabled" "keeps I (need_authority b)" "keeps I (need_player p)" "keeps I (held_pages v w)"
    "keeps I (script_for n p edit)" "keeps I (new_name n)" "keeps I (reserve p)" "keeps I (given r)" "keeps I (refuses t ps)"
    "keeps I (only_says m)" "keeps I (opens menu)" "keeps I (says_and_logs m l menu')" "keeps I (started p y ms i)"
  by (simp_all add: need_enabled_def need_authority_def need_player_def held_pages_def script_for_def new_name_def reserve_def
    given_def refuses_def only_says_def opens_def says_and_logs_def started_def)

locale run_invariant =
  fixes I :: "script_service \<Rightarrow> bool" and v :: script_env and p :: principal
  assumes stored: "I s \<Longrightarrow> I (s\<lparr>sc_store := st\<rparr>)"
    and inspected: "keeps I (inspect v t p)"
    and starts: "keeps I (start_run v x p r)"
    and stopped: "I s \<Longrightarrow> I (snd (stop_runs p w s))"
begin

lemma on_scripts_kept: "keeps I (on_scripts m)"
  by (auto simp: keeps_def on_scripts_def stored split: prod.split sum.split)

lemmas kept = keeps_parts on_scripts_kept inspected starts keeps_sbind keeps_if keeps_option keeps_cases keeps_attempt keeps_ret keeps_fail keeps_look

lemma check_files_kept: "keeps I (check_files v p known fs)"
proof (induction fs)
  case (Cons e fs)
  obtain k f where e: "e = (k, f)" by force
  show ?case unfolding e check_files.simps
    by (intro kept Cons.IH) (auto split: failure.split py_error.split intro!: kept Cons.IH)
next
  case Nil
  show ?case unfolding check_files.simps by (rule keeps_ret)
qed

lemma reload_kept: "keeps I (reload_command v p)"
  unfolding reload_command_def reload_files_def option.case by (intro kept check_files_kept)

lemma save_kept: "keeps I (save_as v p n t e)"
  unfolding save_as_def by (intro kept)

lemma import_kept: "keeps I (import_command v p g word)"
proof -
  have "keeps I (import_target p word)"
    unfolding import_target_def by (intro kept) (auto split: failure.split py_error.split intro!: kept)
  moreover have "keeps I (import_book v p h word x t)" for h x t
    unfolding import_book_def by (intro kept save_kept)
  ultimately show ?thesis unfolding import_command_def by (intro kept)
qed

lemma stop_kept: "keeps I (stop_command p w)"
  by (simp add: keeps_def stop_command_def says_and_logs_def case_prod_beta stopped)

lemma one_script_kept: "keeps I (on_one_script v p g op x ws)"
  unfolding on_one_script_def show_command_def export_command_def visibility_command_def history_command_def restore_command_def
    rename_command_def delete_command_def run_command_def parameters_command_def
  by (intro kept)

lemma do_script_kept: "keeps I (do_script v p g op tail)"
proof -
  have "keeps I (save_command v p h n t)" for h n t unfolding save_command_def by (intro kept save_kept)
  moreover have "keeps I (copy_command v p g n m)" for n m unfolding copy_command_def by (intro kept save_kept)
  moreover have "keeps I (owner_command v p g ws)" for ws
    unfolding owner_command_def by (auto split: list.split intro!: kept)
  moreover have "keeps I (menu_command p)" "keeps I (list_command p)" "keeps I (runs_command p)"
    unfolding menu_command_def list_command_def runs_command_def by (intro kept)+
  ultimately show ?thesis unfolding do_script_def
    by (intro keeps_if kept reload_kept import_kept stop_kept one_script_kept)
qed

lemma execute_kept: "keeps I (execute_script v p g argv)"
  unfolding execute_script_def by (intro keeps_caught kept do_script_kept)

end

section \<open>Limits\<close>

lemma length_filter_set: "length (filter P (dict_set k v d)) \<le> length (filter P d) + (if P (k, v) then 1 else 0)"
  by (induction d) auto

lemma length_filter_pop: "length (filter P (dict_pop k d)) \<le> length (filter P d)"
  by (induction d) auto

lemma length_pop: "length (dict_pop k d) \<le> length d"
  by (induction d) auto

definition slots :: "(string, nat) dict \<Rightarrow> nat" where
  "slots d = sum_list (map snd d)"

lemma slots_pop: "slots (dict_pop k d) \<le> slots d"
  by (induction d) (auto simp: slots_def)

lemma slots_add: "slots (dict_set k (dict_get d k 0 + 1) d) = slots d + 1"
  by (induction d) (auto simp: slots_def dict_get_def)

lemma slots_set: "n \<le> dict_get d k 0 \<Longrightarrow> slots (dict_set k n d) \<le> slots d"
  by (induction d) (auto simp: slots_def dict_get_def split: if_splits)

definition taken_by :: "string \<Rightarrow> script_service \<Rightarrow> nat" where
  "taken_by w s = length (runs_of w s) + dict_get (sc_inspecting s) w 0"

definition taken :: "script_service \<Rightarrow> nat" where
  "taken s = length (sc_runs s) + slots (sc_inspecting s)"

definition within_limits :: "script_config \<Rightarrow> script_service \<Rightarrow> bool" where
  "within_limits c s \<longleftrightarrow> sc_config s = c \<and> taken s \<le> cf_server_runs c \<and> (\<forall>w. taken_by w s \<le> cf_controller_runs c)"

lemma limits_mono:
  "within_limits c s \<Longrightarrow> sc_config t = sc_config s \<Longrightarrow> taken t \<le> taken s \<Longrightarrow> (\<And>w. taken_by w t \<le> taken_by w s) \<Longrightarrow>
   within_limits c t"
  unfolding within_limits_def by (metis order.trans)

lemma reserveD:
  "reserve p s = (Inr u, t) \<Longrightarrow> t = s \<and> taken s < cf_server_runs (sc_config s) \<and> taken_by (controller_of p) s < cf_controller_runs (sc_config s)"
  by (auto simp: reserve_def taken_def taken_by_def slots_def split: if_splits)

lemma take_slot_limits: "keeps (within_limits c) (take_slot p)"
  unfolding keeps_def
proof (intro allI impI)
  fix s assume s: "within_limits c s"
  show "within_limits c (snd (take_slot p s))"
  proof (cases "fst (reserve p s)")
    case (Inr u)
    then have r: "reserve p s = (Inr u, s)" by (simp add: reserve_def)
    let ?d = "sc_inspecting s" and ?k = "controller_of p"
    have "dict_get (dict_set ?k (dict_get ?d ?k 0 + 1) ?d) w 0 = (if w = ?k then dict_get ?d ?k 0 + 1 else dict_get ?d w 0)" for w
      by (simp add: dict_get_def)
    with reserveD [OF r] s slots_add [of ?k ?d] show ?thesis
      by (auto simp: take_slot_def sbind_def r within_limits_def taken_def taken_by_def runs_of_def)
  qed (use s in \<open>simp add: take_slot_def sbind_def reserve_def split: if_splits\<close>)
qed

lemma drop_slot_limits: "within_limits c s \<Longrightarrow> within_limits c (drop_slot p s)"
proof -
  assume s: "within_limits c s"
  let ?d = "sc_inspecting (drop_slot p s)"
  have "slots ?d \<le> slots (sc_inspecting s)" by (simp add: drop_slot_def Let_def slots_pop slots_set)
  moreover have "dict_get ?d w 0 \<le> dict_get (sc_inspecting s) w 0" for w
    by (auto simp: drop_slot_def Let_def dict_get_def)
  moreover have "sc_runs (drop_slot p s) = sc_runs s" "sc_config (drop_slot p s) = sc_config s"
    by (simp_all add: drop_slot_def Let_def)
  ultimately have "taken (drop_slot p s) \<le> taken s" "taken_by w (drop_slot p s) \<le> taken_by w s" for w
    by (simp_all add: taken_def taken_by_def runs_of_def)
  then show ?thesis by (rule limits_mono [OF s, rotated]) (simp add: drop_slot_def Let_def)
qed

lemma inspect_limits: "keeps (within_limits c) (inspect v t p)"
  unfolding inspect_def by (intro keeps_sbind take_slot_limits keeps_update drop_slot_limits keeps_parts)

lemma start_limits: "keeps (within_limits c) (start_run v x p r)"
proof -
  have core: "keeps (within_limits c) (sbind (reserve p) (\<lambda>_. sbind (update (\<lambda>s. s\<lparr>sc_runs := dict_set (se_run v)
      \<lparr>rn_name = ss_name x, rn_source = p\<lparr>p_kind := Run, run_id := Some (se_run v)\<rparr>, rn_canceled = False, rn_requires = r\<rparr> (sc_runs s)\<rparr>))
      (\<lambda>_. ret (se_run v))))"
    unfolding keeps_def
  proof (intro allI impI)
    fix s assume s: "within_limits c s"
    let ?r = "\<lparr>rn_name = ss_name x, rn_source = p\<lparr>p_kind := Run, run_id := Some (se_run v)\<rparr>, rn_canceled = False, rn_requires = r\<rparr>"
    let ?t = "s\<lparr>sc_runs := dict_set (se_run v) ?r (sc_runs s)\<rparr>"
    have t: "taken ?t \<le> Suc (taken s)" "taken_by w ?t \<le> (if w = controller_of p then Suc (taken_by w s) else taken_by w s)" for w
      using length_dict_set [of "se_run v" ?r "sc_runs s"]
        length_filter_set [of "\<lambda>x. controller_of (rn_source (snd x)) = w" "se_run v" ?r "sc_runs s"]
      by (auto simp: taken_def taken_by_def runs_of_def controller_of_def)
    have "within_limits c ?t" if "reserve p s = (Inr u, s)" for u
      unfolding within_limits_def
    proof (intro conjI allI)
      show "sc_config ?t = c" using s by (simp add: within_limits_def)
      show "taken ?t \<le> cf_server_runs c" using s t(1) reserveD [OF that] by (simp add: within_limits_def)
      fix w
      show "taken_by w ?t \<le> cf_controller_runs c"
        using s t(2) [of w] reserveD [OF that] by (auto simp: within_limits_def split: if_splits intro: order.trans)
    qed
    with s show "within_limits c (snd (sbind (reserve p) (\<lambda>_. sbind (update (\<lambda>s. s\<lparr>sc_runs := dict_set (se_run v) ?r (sc_runs s)\<rparr>))
      (\<lambda>_. ret (se_run v))) s))"
      by (simp add: sbind_def reserve_def)
  qed
  show ?thesis unfolding start_run_def
    by (rule keeps_sbind, rule keeps_parts(1), rule keeps_sbind, rule keeps_parts(2), rule keeps_sbind, rule keeps_look, rule core)
qed

lemma length_marked:
  "(\<And>x. rn_source (snd (f x)) = rn_source (snd x)) \<Longrightarrow>
   length (filter (\<lambda>x. P (rn_source (snd x))) (map f d)) = length (filter (\<lambda>x. P (rn_source (snd x))) d)"
  by (induction d) auto

lemma stop_limits: "within_limits c s \<Longrightarrow> within_limits c (snd (stop_runs p w s))"
proof -
  assume s: "within_limits c s"
  let ?t = "snd (stop_runs p w s)"
  have K: "sc_runs ?t = map (\<lambda>(i, r). (i, if i \<in> set (keys (filter (stops w) (visible_runs p s))) then r\<lparr>rn_canceled := True\<rparr> else r)) (sc_runs s)"
    by (simp add: stop_runs_def Let_def)
  have "length (runs_of u ?t) = length (runs_of u s)" for u
    unfolding runs_of_def K by (rule length_marked) (simp split: prod.split)
  moreover have "length (sc_runs ?t) = length (sc_runs s)" "sc_inspecting ?t = sc_inspecting s" "sc_config ?t = sc_config s"
    by (simp_all add: stop_runs_def Let_def)
  ultimately show ?thesis by (intro limits_mono [OF s]) (simp_all add: taken_def taken_by_def)
qed

interpretation limits: run_invariant "within_limits c" v p for c v p
proof
  fix s st assume "within_limits c s"
  then show "within_limits c (s\<lparr>sc_store := st\<rparr>)" by (simp add: within_limits_def taken_def taken_by_def runs_of_def)
qed (simp_all add: inspect_limits start_limits stop_limits)

text \<open>C6: However commands, ends of runs and inspections for the web page follow each other, no more runs and inspections are alive than
  the server allows, and no more of one controller than a controller may have.\<close>

theorem run_limits_hold:
  assumes "sc_runs s = []" "sc_inspecting s = []"
  shows "taken (script_history_of es s) \<le> cf_server_runs (sc_config s) \<and>
    taken_by w (script_history_of es s) \<le> cf_controller_runs (sc_config s)"
proof -
  have "within_limits (sc_config s) (script_history_of es s)"
  proof (rule script_run_induct)
    show "within_limits (sc_config s) s"
      by (simp add: within_limits_def taken_def taken_by_def runs_of_def slots_def dict_get_def assms)
    fix e and t :: script_service assume t: "within_limits (sc_config s) t"
    show "within_limits (sc_config s) (script_event_step e t)"
    proof (cases e)
      case (Run_ended i)
      from t show ?thesis
        by (rule limits_mono) (simp_all add: Run_ended retire_run_def taken_def taken_by_def runs_of_def length_pop length_filter_pop)
    qed (use t keepsD [OF limits.execute_kept] keepsD [OF take_slot_limits] drop_slot_limits in auto)
  qed
  then show ?thesis by (simp add: within_limits_def)
qed

theorem run_limits_hold_witness:
  "taken (script_history_of [Check_begins sam, Script_command bare_env owner_alex None [''run'', ''mine'']] one_service) \<le> 2 \<and>
    taken_by ''Alex'' (script_history_of [Check_begins sam, Script_command bare_env owner_alex None [''run'', ''mine'']] one_service) \<le> 1"
proof -
  have "sc_runs one_service = []" "sc_inspecting one_service = []" "sc_config one_service =
      \<lparr>cf_enabled = True, cf_book_export = True, cf_controller_runs = 1, cf_server_runs = 2\<rparr>"
    by (simp_all add: one_service_def)
  with run_limits_hold [of one_service "[Check_begins sam, Script_command bare_env owner_alex None [''run'', ''mine'']]" "''Alex''"]
  show ?thesis by simp
qed

section \<open>Runs of others\<close>

definition is_others_run :: "script_env \<Rightarrow> principal \<Rightarrow> string \<Rightarrow> script_run \<Rightarrow> bool" where
  "is_others_run v p i r \<longleftrightarrow> player_id p \<noteq> None \<and> controller_of (rn_source r) \<noteq> controller_of p \<and> se_run v \<noteq> i"

definition goes_on :: "script_env \<Rightarrow> principal \<Rightarrow> string \<Rightarrow> script_run \<Rightarrow> script_service \<Rightarrow> bool" where
  "goes_on v p i r s \<longleftrightarrow> is_others_run v p i r \<longrightarrow> distinct (keys (sc_runs s)) \<and> map_of (sc_runs s) i = Some r"

lemma goes_on_same: "sc_runs t = sc_runs s \<Longrightarrow> goes_on v p i r s \<Longrightarrow> goes_on v p i r t"
  by (simp add: goes_on_def)

lemma goes_on_start: "keeps (goes_on v p i r) (start_run v x p q)"
  unfolding start_run_def
  by (intro keeps_sbind keeps_parts keeps_look keeps_update keeps_ret)
    (auto simp: goes_on_def is_others_run_def simp del: list.set_map intro: distinct_dict_set)

lemma goes_on_stop: "goes_on v p i r s \<Longrightarrow> goes_on v p i r (snd (stop_runs p w s))"
proof -
  assume s: "goes_on v p i r s"
  let ?hit = "keys (filter (stops w) (visible_runs p s))"
  let ?f = "\<lambda>i r. if i \<in> set ?hit then r\<lparr>rn_canceled := True\<rparr> else r"
  have marked: "map_of (map (\<lambda>(i, r). (i, f i r)) d) i = map_option (f i) (map_of d i)" for f i and d :: "(string, script_run) dict"
    by (induction d) auto
  have t: "sc_runs (snd (stop_runs p w s)) = map (\<lambda>(i, r). (i, ?f i r)) (sc_runs s)" by (simp add: stop_runs_def Let_def)
  have ids: "keys (sc_runs (snd (stop_runs p w s))) = keys (sc_runs s)" by (simp add: t comp_def case_prod_beta)
  have "i \<notin> set ?hit" if o: "is_others_run v p i r"
  proof
    assume "i \<in> set ?hit"
    then obtain r' where "(i, r') \<in> set (sc_runs s)" "controller_of (rn_source r') = controller_of p"
      using o by (auto simp: visible_runs_def runs_of_def is_others_run_def)
    with o s show False by (auto simp: goes_on_def is_others_run_def)
  qed
  with s show ?thesis unfolding goes_on_def ids unfolding t marked by simp
qed

interpretation others: run_invariant "goes_on v p i r" v p for v p i r
proof
  fix s st assume "goes_on v p i r s"
  then show "goes_on v p i r (s\<lparr>sc_store := st\<rparr>)" by (rule goes_on_same [rotated]) simp
next
  fix t show "keeps (goes_on v p i r) (inspect v t p)"
    by (auto simp: inspect_def take_slot_def drop_slot_def Let_def intro!: keeps_sbind keeps_parts keeps_update intro: goes_on_same [rotated])
qed (simp_all add: goes_on_start goes_on_stop)

text \<open>No command of a player stops, replaces or loses a run of another controller.\<close>

theorem runs_of_others_go_on:
  assumes "distinct (keys (sc_runs s))" "map_of (sc_runs s) i = Some r"
    and "player_id p \<noteq> None" "controller_of (rn_source r) \<noteq> controller_of p" "se_run v \<noteq> i"
  shows "map_of (sc_runs (snd (execute_script v p g argv s))) i = Some r"
proof -
  have "goes_on v p i r (snd (execute_script v p g argv s))"
    by (rule keepsD [OF others.execute_kept]) (simp add: goes_on_def assms)
  then show ?thesis using assms by (simp add: goes_on_def is_others_run_def)
qed

theorem runs_of_others_go_on_witness:
  "map_of (sc_runs (snd (execute_script bare_env sam None [''stop'', ''all'']
     (one_service\<lparr>sc_runs := [(''run0'', \<lparr>rn_name = ''mine'', rn_source = owner_alex, rn_canceled = False, rn_requires = None\<rparr>)]\<rparr>)))) ''run0'' =
   Some \<lparr>rn_name = ''mine'', rn_source = owner_alex, rn_canceled = False, rn_requires = None\<rparr>"
proof (rule runs_of_others_go_on)
  show "player_id sam \<noteq> None" by code_simp
  show "controller_of (rn_source \<lparr>rn_name = ''mine'', rn_source = owner_alex, rn_canceled = False, rn_requires = None\<rparr>) \<noteq> controller_of sam"
    by code_simp
  show "se_run bare_env \<noteq> ''run0''" by (simp add: bare_env_def)
qed simp_all

end
