(* ===== verification/Script_Params.thy ===== *)
theory Script_Params
  imports Bot_Guards Control Numbers Group_Store
begin

text \<open>
  Parameters of scripts, \<open>endbot_core/script_params.py\<close>: the declaration a script makes with \<open>requires {}\<close> and
  \<open>params {}\<close>, and the arguments of a run checked against it. A value is JSON; \<open>Crash\<close> is Python's \<open>OverflowError\<close> for
  an integer beyond the largest double, which is no \<open>ValueError\<close>.
\<close>

section \<open>Capabilities\<close>

definition basic_capabilities :: "string list" where
  "basic_capabilities = [''act.bot'', ''read.world'', ''wait'', ''log'']"

definition declared_capabilities :: "string list" where
  "declared_capabilities = []"

definition bad_argument :: "string \<Rightarrow> (string \<times> string) list \<Rightarrow> failure" where
  "bad_argument t ps = Invalid (LocalizedError t ps)"

definition json_text :: "json \<Rightarrow> string" where
  "json_text j = (case json_str_opt j of None \<Rightarrow> [] | Some t \<Rightarrow> t)"

text \<open>Only what is beyond the basic set is returned, sorted; there is nothing such yet.\<close>

definition required :: "json \<Rightarrow> failure + string list" where
  "required j = (case j of
     JNull \<Rightarrow> Inr []
   | JArr js \<Rightarrow>
       if length js > 32 \<or> \<not> list_all json_is_str js \<or> \<not> distinct js then Inl (bad_argument ''requires expects a list of capability names'' [])
       else (let names = map json_text js in
         case find (\<lambda>n. n \<notin> set (basic_capabilities @ declared_capabilities)) names of
           Some n \<Rightarrow> Inl (bad_argument ''Unknown capability in requires: {name}'' [(''name'', take 64 n)])
         | None \<Rightarrow> Inr (filter (\<lambda>n. n \<in> set names \<and> n \<notin> set basic_capabilities) declared_capabilities))
   | _ \<Rightarrow> Inl (bad_argument ''requires expects a list of capability names'' []))"

section \<open>Declarations\<close>

type_synonym param_spec = "(string, json) dict"

definition param_kinds :: "string list" where
  "param_kinds = [''group'', ''bot'', ''pos'', ''number'', ''boolean'', ''string'', ''choice'']"

definition is_letter :: "char \<Rightarrow> bool" where
  "is_letter c \<longleftrightarrow> (65 \<le> code c \<and> code c \<le> 90) \<or> (97 \<le> code c \<and> code c \<le> 122) \<or> c = CHR ''_''"

definition is_param_name :: "string \<Rightarrow> bool" where
  "is_param_name n \<longleftrightarrow> n \<noteq> [] \<and> is_letter (hd n) \<and> length n \<le> 32 \<and> list_all (\<lambda>c. is_letter c \<or> is_digit c) n"

definition bad_declarations :: failure where
  "bad_declarations = bad_argument ''Invalid script parameter declarations'' []"

definition overflow :: failure where
  "overflow = Crash ''int too large to convert to float''"

fun is_finite :: "number \<Rightarrow> bool" where
  "is_finite (Finite r) = True"
| "is_finite _ = False"

definition int_to_float :: "int \<Rightarrow> failure + number" where
  "int_to_float i = (if is_finite (to_float (of_int i)) then Inr (to_float (of_int i)) else Inl overflow)"

definition choices_of :: "param_spec \<Rightarrow> json list" where
  "choices_of spec = (case dict_get spec ''choices'' JNull of JArr js \<Rightarrow> js | _ \<Rightarrow> [])"

definition choices_fit :: "param_spec \<Rightarrow> bool" where
  "choices_fit spec \<longleftrightarrow> 1 \<le> length (choices_of spec) \<and> length (choices_of spec) \<le> 32 \<and> distinct (choices_of spec) \<and>
     list_all (\<lambda>j. json_is_str j \<and> 1 \<le> length (json_text j) \<and> length (json_text j) \<le> 64) (choices_of spec)"

definition default_fits :: "string \<Rightarrow> param_spec \<Rightarrow> json \<Rightarrow> failure + bool" where
  "default_fits kind spec j =
     (if kind = ''number'' then (case j of
          JInt i \<Rightarrow> ebind (int_to_float i) (\<lambda>_. Inr True) | JFloat n \<Rightarrow> Inr (is_finite n) | _ \<Rightarrow> Inr False)
      else if kind = ''boolean'' then Inr (case j of JBool b \<Rightarrow> True | _ \<Rightarrow> False)
      else if kind = ''choice'' then Inr (j \<in> set (choices_of spec))
      else Inr (json_is_str j))"

definition declare_param :: "json \<Rightarrow> (string, param_spec) dict \<Rightarrow> failure + (string, param_spec) dict" where
  "declare_param j known = (case j of
     JObj spec \<Rightarrow>
       let kind = dict_get spec ''type'' JNull; name = dict_get spec ''name'' JNull in
       if \<not> set (keys spec) \<subseteq> set ([''name'', ''type'', ''default''] @ (if kind = JStr ''choice'' then [''choices''] else []))
       then Inl bad_declarations
       else if \<not> is_param_name (json_text name) then Inl (bad_argument ''Invalid script parameter name'' [])
       else if json_text name \<in> set (keys known) then Inl (bad_argument ''Duplicate script parameter name'' [])
       else if json_text kind \<notin> set param_kinds then Inl (bad_argument ''Unknown script parameter type'' [])
       else if json_text kind = ''choice'' \<and> \<not> choices_fit spec then Inl bad_declarations
       else ebind (case map_of spec ''default'' of None \<Rightarrow> Inr True | Some d \<Rightarrow> default_fits (json_text kind) spec d) (\<lambda>fits.
         if fits then Inr (known @ [(json_text name, spec)]) else Inl (bad_argument ''Invalid script parameter default'' []))
   | _ \<Rightarrow> Inl bad_declarations)"

fun declare_params :: "json list \<Rightarrow> (string, param_spec) dict \<Rightarrow> failure + (string, param_spec) dict" where
  "declare_params [] known = Inr known"
| "declare_params (j # js) known = ebind (declare_param j known) (declare_params js)"

definition declarations :: "json \<Rightarrow> failure + (string, param_spec) dict" where
  "declarations schema = (case schema of
     JArr js \<Rightarrow> if length js > 32 then Inl bad_declarations else declare_params js []
   | _ \<Rightarrow> Inl (bad_argument ''Script parameters must be an array'' []))"

section \<open>Arguments of a command\<close>

text \<open>\<open>NAMED\<close>: a parameter name, an equals sign and anything.\<close>

definition named_form :: "string \<Rightarrow> (string \<times> string) option" where
  "named_form w = (let n = takeWhile (\<lambda>c. c \<noteq> CHR ''='') w; r = dropWhile (\<lambda>c. c \<noteq> CHR ''='') w in
     if r \<noteq> [] \<and> is_param_name n then Some (n, tl r) else None)"

definition given_twice :: "string \<Rightarrow> failure" where
  "given_twice n = bad_argument ''Script argument {name} is given twice'' [(''name'', n)]"

fun sort_words :: "string list \<Rightarrow> string list \<Rightarrow> string list \<Rightarrow> (string, string) dict \<Rightarrow> failure + string list \<times> (string, string) dict" where
  "sort_words schema [] pos named = Inr (pos, named)"
| "sort_words schema (w # ws) pos named = (case named_form w of
     Some (n, v) \<Rightarrow>
       if n \<in> set schema then (if n \<in> set (keys named) then Inl (given_twice n) else sort_words schema ws pos (named @ [(n, v)]))
       else if named \<noteq> [] then Inl (bad_argument ''Positional script arguments must come before name=value arguments'' [])
       else sort_words schema ws (pos @ [w]) named
   | None \<Rightarrow>
       if named \<noteq> [] then Inl (bad_argument ''Positional script arguments must come before name=value arguments'' [])
       else sort_words schema ws (pos @ [w]) named)"

definition split_named :: "string list \<Rightarrow> string list \<Rightarrow> failure + (string, string) dict" where
  "split_named schema ws = ebind (sort_words schema ws [] []) (\<lambda>(pos, named).
     if length pos > length schema then Inl (bad_argument ''Too many script arguments'' [])
     else (case find (\<lambda>n. n \<in> set (keys named)) (take (length pos) schema) of
         Some n \<Rightarrow> Inl (given_twice n)
       | None \<Rightarrow> Inr (zip schema pos @ named)))"

section \<open>The values of a run\<close>

text \<open>What the arguments are checked against: the groups, if there is a store of them, the Bots' names, and where the run started.\<close>

record surroundings =
  su_groups :: "group list option"
  su_bots :: "string list"
  su_origin :: "(rat \<times> rat \<times> rat) option"

fun white_words :: "string \<Rightarrow> string \<Rightarrow> string list" where
  "white_words w [] = (if w = [] then [] else [w])"
| "white_words w (c # s) = (if is_space c then (if w = [] then white_words [] s else w # white_words [] s) else white_words (w @ [c]) s)"

definition python_error :: "failure + 'a" where
  "python_error = Inl (Invalid (ValueError []))"

definition finite_value :: "number \<Rightarrow> failure + number" where
  "finite_value n = (if is_finite n then Inr n else python_error)"

definition read_float :: "string \<Rightarrow> failure + number" where
  "read_float w = (case py_float w of Inl e \<Rightarrow> Inl (Invalid e) | Inr n \<Rightarrow> Inr n)"

definition shift :: "rat \<Rightarrow> number \<Rightarrow> number" where
  "shift base n = (case n of Finite r \<Rightarrow> to_float (r + base) | _ \<Rightarrow> n)"

definition axis_value :: "rat option \<Rightarrow> string \<Rightarrow> failure + json" where
  "axis_value start w =
     (if w \<noteq> [] \<and> hd w = CHR ''~'' then (case start of
          None \<Rightarrow> python_error
        | Some x \<Rightarrow> ebind (read_float (if tl w = [] then ''0'' else tl w)) (\<lambda>n. ebind (finite_value (shift x n)) (\<lambda>n. Inr (JFloat n))))
      else ebind (read_float w) (\<lambda>n. ebind (finite_value n) (\<lambda>n. Inr (JFloat n))))"

definition position_value :: "(rat \<times> rat \<times> rat) option \<Rightarrow> json \<Rightarrow> failure + json" where
  "position_value origin j = (case white_words [] (json_text j) of
     [a, b, c] \<Rightarrow>
       ebind (axis_value (map_option fst origin) a) (\<lambda>x. ebind (axis_value (map_option (fst \<circ> snd) origin) b) (\<lambda>y.
       ebind (axis_value (map_option (snd \<circ> snd) origin) c) (\<lambda>z. Inr (JObj [(''x'', x), (''y'', y), (''z'', z)]))))
   | _ \<Rightarrow> python_error)"

definition number_value :: "json \<Rightarrow> failure + json" where
  "number_value j = ebind (case j of
       JInt i \<Rightarrow> int_to_float i | JFloat n \<Rightarrow> Inr n | JStr t \<Rightarrow> read_float t | _ \<Rightarrow> python_error) (\<lambda>n.
     ebind (finite_value n) (\<lambda>n. Inr (JFloat n)))"

definition boolean_value :: "json \<Rightarrow> failure + json" where
  "boolean_value j = (case j of
     JBool b \<Rightarrow> Inr (JBool b)
   | JStr t \<Rightarrow> if casefold t = ''true'' then Inr (JBool True) else if casefold t = ''false'' then Inr (JBool False) else python_error
   | _ \<Rightarrow> python_error)"

definition group_value :: "group list option \<Rightarrow> json \<Rightarrow> failure + json" where
  "group_value gs j = (case j of
     JStr (c # n) \<Rightarrow> if c \<noteq> CHR ''#'' then python_error else (case gs of None \<Rightarrow> python_error | Some gs \<Rightarrow>
       (case get_group n gs of Inl e \<Rightarrow> Inl (Invalid e) | Inr g \<Rightarrow> Inr (JStr (CHR ''#'' # group_label g))))
   | _ \<Rightarrow> python_error)"

definition bot_value :: "string list \<Rightarrow> json \<Rightarrow> failure + json" where
  "bot_value bots j = (case j of
     JStr t \<Rightarrow> (case find (\<lambda>b. casefold b = casefold t) bots of None \<Rightarrow> python_error | Some b \<Rightarrow> Inr (JStr b))
   | _ \<Rightarrow> python_error)"

definition argument_value :: "surroundings \<Rightarrow> param_spec \<Rightarrow> string \<Rightarrow> json \<Rightarrow> failure + json" where
  "argument_value w spec kind j =
     (if kind = ''group'' then group_value (su_groups w) j
      else if kind = ''bot'' then bot_value (su_bots w) j
      else if kind = ''pos'' then position_value (su_origin w) j
      else if kind = ''number'' then number_value j
      else if kind = ''boolean'' then boolean_value j
      else if kind = ''choice'' then (if j \<in> set (choices_of spec) then Inr j else python_error)
      else if json_is_str j \<and> utf8_length (json_text j) \<le> 4096 then Inr j else python_error)"

text \<open>\<open>except (ValueError, TypeError, StopIteration, AttributeError)\<close>; every error of these is \<open>Invalid\<close> here.\<close>

definition checked_value :: "surroundings \<Rightarrow> string \<Rightarrow> param_spec \<Rightarrow> json \<Rightarrow> failure + json" where
  "checked_value w name spec j = (let kind = json_text (dict_get spec ''type'' JNull) in
     case argument_value w spec kind j of
       Inl (Invalid e) \<Rightarrow> Inl (bad_argument ''Invalid script argument: {name} ({kind})'' [(''name'', name), (''kind'', kind)])
     | r \<Rightarrow> r)"

fun check_values :: "surroundings \<Rightarrow> (string, param_spec) dict \<Rightarrow> (string, json) dict \<Rightarrow> failure + (string, json) dict" where
  "check_values w [] given = Inr []"
| "check_values w ((name, spec) # ps) given =
     ebind (checked_value w name spec (dict_get given name (dict_get spec ''default'' JNull))) (\<lambda>v.
     ebind (check_values w ps given) (\<lambda>vs. Inr ((name, v) # vs)))"

datatype supplied = Typed "string list" | Filled "(string, json) dict"

definition arguments :: "surroundings \<Rightarrow> json \<Rightarrow> supplied \<Rightarrow> failure + (string, json) dict" where
  "arguments w schema given = ebind (declarations schema) (\<lambda>ps.
     ebind (case given of Typed ws \<Rightarrow> ebind (split_named (keys ps) ws) (\<lambda>d. Inr (map (\<lambda>(n, t). (n, JStr t)) d)) | Filled d \<Rightarrow> Inr d) (\<lambda>d.
     if \<not> set (keys d) \<subseteq> set (keys ps) then Inl (bad_argument ''Unknown script argument'' []) else check_values w ps d))"

section \<open>Values have their type\<close>

fun json_finite :: "json \<Rightarrow> bool" where
  "json_finite (JFloat n) = is_finite n"
| "json_finite _ = False"

definition value_fits :: "surroundings \<Rightarrow> param_spec \<Rightarrow> json \<Rightarrow> bool" where
  "value_fits w spec v = (let kind = json_text (dict_get spec ''type'' JNull) in
     if kind = ''group'' then v \<in> set (map (\<lambda>g. JStr (CHR ''#'' # group_label g)) (case su_groups w of None \<Rightarrow> [] | Some gs \<Rightarrow> gs))
     else if kind = ''bot'' then v \<in> set (map JStr (su_bots w))
     else if kind = ''pos'' then (case v of JObj d \<Rightarrow> keys d = [''x'', ''y'', ''z''] \<and> list_all (json_finite \<circ> snd) d | _ \<Rightarrow> False)
     else if kind = ''number'' then json_finite v
     else if kind = ''boolean'' then (case v of JBool b \<Rightarrow> True | _ \<Rightarrow> False)
     else if kind = ''choice'' then v \<in> set (choices_of spec)
     else json_is_str v \<and> utf8_length (json_text v) \<le> 4096)"

lemma python_error_simps [simp]: "python_error \<noteq> Inr x" "\<exists>e. python_error = Inl (Invalid e)"
  by (simp_all add: python_error_def)

lemma ebind_InrD: "ebind r f = Inr y \<Longrightarrow> \<exists>x. r = Inr x \<and> f x = Inr y"
  by (cases r) auto

lemma finite_valueD: "finite_value n = Inr m \<Longrightarrow> m = n \<and> is_finite n"
  by (auto simp: finite_value_def split: if_splits)

lemma axis_finite: "axis_value start t = Inr v \<Longrightarrow> json_finite v"
  by (auto simp: axis_value_def split: if_splits option.splits dest!: ebind_InrD finite_valueD)

lemma position_fits: "position_value origin j = Inr v \<Longrightarrow> \<exists>x y z. v = JObj [(''x'', x), (''y'', y), (''z'', z)] \<and> json_finite x \<and> json_finite y \<and> json_finite z"
  by (auto simp: position_value_def split: list.splits dest!: ebind_InrD axis_finite)

lemma number_fits: "number_value j = Inr v \<Longrightarrow> json_finite v"
  by (auto simp: number_value_def dest!: ebind_InrD finite_valueD)

lemma get_group_in: "get_group n gs = Inr g \<Longrightarrow> g \<in> set gs"
  unfolding get_group_def find_group_def by (drule ebind_InrD) (auto split: option.splits dest: find_SomeD)

lemma group_fits:
  assumes "group_value gs j = Inr v"
  shows "v \<in> set (map (\<lambda>g. JStr (CHR ''#'' # group_label g)) (case gs of None \<Rightarrow> [] | Some gs \<Rightarrow> gs))"
proof -
  from assms obtain n gs' where "gs = Some gs'" "(case get_group n gs' of Inl e \<Rightarrow> Inl (Invalid e) | Inr g \<Rightarrow> Inr (JStr (CHR ''#'' # group_label g))) = Inr v"
    by (auto simp: group_value_def split: json.splits list.splits if_splits option.splits)
  then show ?thesis by (auto split: sum.splits dest!: get_group_in)
qed

lemma bot_fits: "bot_value bots j = Inr v \<Longrightarrow> v \<in> set (map JStr bots)"
  by (auto simp: bot_value_def split: json.splits option.splits dest!: find_SomeD)

lemma boolean_fits: "boolean_value j = Inr v \<Longrightarrow> \<exists>b. v = JBool b"
  by (auto simp: boolean_value_def split: json.splits if_splits)

lemma checked_fits:
  assumes "checked_value w n spec j = Inr v"
  shows "value_fits w spec v"
proof -
  let ?kind = "json_text (dict_get spec ''type'' JNull)"
  have "argument_value w spec ?kind j = Inr v"
    using assms by (auto simp: checked_value_def Let_def split: sum.splits failure.splits)
  then show ?thesis
    using group_fits [of "su_groups w" j v] bot_fits [of "su_bots w" j v] position_fits [of "su_origin w" j v] number_fits [of j v] boolean_fits [of j v]
    unfolding argument_value_def value_fits_def Let_def
    by (auto split: if_splits)
qed

text \<open>C38: What a run gets has exactly the declared parameters, in the order of the declaration, and each value has its declared type: a
  group or Bot that exists, three finite coordinates, a finite number, a truth value, one of the choices, or a text of at most 4096 bytes.\<close>

theorem arguments_are_typed:
  "case arguments w schema given of Inl e \<Rightarrow> True | Inr vs \<Rightarrow>
     \<exists>ps. declarations schema = Inr ps \<and> list_all2 (\<lambda>(n, spec) (m, v). m = n \<and> value_fits w spec v) ps vs"
proof (cases "arguments w schema given")
  case (Inr vs)
  have fits: "list_all2 (\<lambda>(n, spec) (m, v). m = n \<and> value_fits w spec v) ps us" if "check_values w ps d = Inr us" for ps d us
    using that
  proof (induction ps arbitrary: us)
    case (Cons p ps)
    then show ?case by (cases p) (auto dest!: ebind_InrD simp: checked_fits)
  qed simp
  obtain ps d where "declarations schema = Inr ps" "check_values w ps d = Inr vs"
    using Inr by (auto simp: arguments_def split: if_splits dest!: ebind_InrD)
  with fits Inr show ?thesis by auto
qed simp

section \<open>By name or by position\<close>

lemma param_name_plain: "is_param_name n \<Longrightarrow> CHR ''='' \<notin> set n"
  by (auto simp: is_param_name_def list_all_iff is_letter_def is_digit_def code_def dest!: bspec)

lemma named_form_read: "is_param_name n \<Longrightarrow> named_form (n @ ''='' @ v) = Some (n, v)"
proof -
  assume n: "is_param_name n"
  then have "\<forall>c \<in> set n. c \<noteq> CHR ''=''" using param_name_plain by blast
  then have "takeWhile (\<lambda>c. c \<noteq> CHR ''='') (n @ ''='' @ v) = n" "dropWhile (\<lambda>c. c \<noteq> CHR ''='') (n @ ''='' @ v) = ''='' @ v"
    by (simp_all add: takeWhile_append dropWhile_append)
  with n show ?thesis by (simp add: named_form_def)
qed

lemma declared_name: "declare_param j known = Inr ps \<Longrightarrow> list_all (is_param_name \<circ> fst) known \<Longrightarrow> distinct (keys known) \<Longrightarrow>
    list_all (is_param_name \<circ> fst) ps \<and> distinct (keys ps)"
  by (auto simp: declare_param_def Let_def split: json.splits if_splits dest!: ebind_InrD)

lemma declared_names: "declare_params js known = Inr ps \<Longrightarrow> list_all (is_param_name \<circ> fst) known \<Longrightarrow> distinct (keys known) \<Longrightarrow>
    list_all (is_param_name \<circ> fst) ps \<and> distinct (keys ps)"
  by (induction js arbitrary: known) (auto dest!: ebind_InrD declared_name)

lemma declarations_names: "declarations schema = Inr ps \<Longrightarrow> list_all is_param_name (keys ps) \<and> distinct (keys ps)"
  using declared_names [of _ "[]" ps] by (auto simp: declarations_def list.pred_map split: json.splits if_splits)

lemma sort_named:
  "list_all is_param_name (map fst d) \<Longrightarrow> set (map fst d) \<subseteq> set schema \<Longrightarrow> distinct (map fst (named @ d)) \<Longrightarrow>
   sort_words schema (map (\<lambda>(n, v). n @ ''='' @ v) d) pos named = Inr (pos, named @ d)"
proof (induction d arbitrary: named)
  case (Cons e d)
  obtain n v where e: "e = (n, v)" by force
  have "named_form (n @ ''='' @ v) = Some (n, v)" using Cons.prems by (intro named_form_read) (simp add: e)
  with Cons show ?case by (simp add: e)
qed simp

lemma split_all_named:
  "list_all is_param_name (map fst d) \<Longrightarrow> set (map fst d) \<subseteq> set schema \<Longrightarrow> distinct (map fst d) \<Longrightarrow>
   split_named schema (map (\<lambda>(n, v). n @ ''='' @ v) d) = Inr d"
  using sort_named [of d schema "[]" "[]"] by (simp add: split_named_def)

definition is_positional :: "string list \<Rightarrow> string \<Rightarrow> bool" where
  "is_positional schema w \<longleftrightarrow> (case named_form w of None \<Rightarrow> True | Some (n, v) \<Rightarrow> n \<notin> set schema)"

lemma sort_positional: "list_all (is_positional schema) ws \<Longrightarrow> sort_words schema ws pos [] = Inr (pos @ ws, [])"
  by (induction ws arbitrary: pos) (auto simp: is_positional_def split: option.splits)

lemma find_never: "find (\<lambda>n. False) xs = None"
  by (induction xs) simp_all

lemma split_all_positional:
  "list_all (is_positional schema) ws \<Longrightarrow> length ws \<le> length schema \<Longrightarrow> split_named schema ws = Inr (zip schema ws)"
  by (simp add: split_named_def sort_positional find_never)

lemma check_values_cong: "map_of d = map_of d' \<Longrightarrow> check_values w ps d = check_values w ps d'"
proof (induction ps)
  case (Cons p ps)
  then show ?case by (cases p) (simp add: dict_get_def)
qed simp

text \<open>C40: Arguments given by position are the arguments given as name=value, in any order.\<close>

theorem arguments_by_name_or_position:
  assumes "declarations schema = Inr ps" "length vs \<le> length ps" "list_all (is_positional (keys ps)) vs"
    and "distinct (map fst d)" "set d = set (zip (keys ps) vs)"
  shows "arguments w schema (Typed (map (\<lambda>(n, v). n @ ''='' @ v) d)) = arguments w schema (Typed vs)"
proof -
  let ?z = "zip (keys ps) vs"
  have names: "list_all is_param_name (keys ps)" "distinct (keys ps)" using declarations_names [OF assms(1)] by simp_all
  have z: "map fst ?z = take (length vs) (keys ps)" using assms(2) by (simp add: map_fst_zip_take min_def)
  then have dd: "distinct (map fst ?z)" "set (map fst d) \<subseteq> set (keys ps)"
    using names(2) assms(5) set_take_subset [of "length vs" "keys ps"] by (simp, metis set_map)
  have named: "list_all is_param_name (map fst d)" using names(1) dd(2) unfolding list_all_iff by blast
  have "split_named (keys ps) (map (\<lambda>(n, v). n @ ''='' @ v) d) = Inr d"
    using dd(2) assms(4) named by (intro split_all_named)
  moreover have "split_named (keys ps) vs = Inr ?z" using assms(2,3) by (intro split_all_positional) simp_all
  moreover have "map_of (map (\<lambda>(n, t). (n, JStr t)) d) = map_of (map (\<lambda>(n, t). (n, JStr t)) ?z)"
    using dd assms(4,5) by (intro map_of_inject_set [THEN iffD2]) (simp_all add: comp_def case_prod_beta)
  moreover have "fst ` set d = fst ` set ?z" by (simp add: assms(5))
  ultimately show ?thesis
    using check_values_cong [of "map (\<lambda>(n, t). (n, JStr t)) d" "map (\<lambda>(n, t). (n, JStr t)) ?z" w ps]
    by (simp add: arguments_def assms(1) image_image case_prod_beta)
qed

definition example_schema :: json where
  "example_schema = JArr [JObj [(''name'', JStr ''who''), (''type'', JStr ''bot'')],
     JObj [(''name'', JStr ''n''), (''type'', JStr ''number''), (''default'', JInt 2)]]"

definition example_params :: "(string, param_spec) dict" where
  "example_params = [(''who'', [(''name'', JStr ''who''), (''type'', JStr ''bot'')]),
     (''n'', [(''name'', JStr ''n''), (''type'', JStr ''number''), (''default'', JInt 2)])]"

lemma example_declared: "declarations example_schema = Inr example_params"
  by code_simp

theorem arguments_by_name_or_position_witness:
  "arguments \<lparr>su_groups = None, su_bots = [''Rex''], su_origin = None\<rparr> example_schema (Typed (map (\<lambda>(n, v). n @ ''='' @ v) [(''n'', ''3''), (''who'', ''rex'')])) =
   arguments \<lparr>su_groups = None, su_bots = [''Rex''], su_origin = None\<rparr> example_schema (Typed [''rex'', ''3''])"
proof (rule arguments_by_name_or_position [OF example_declared])
  show "list_all (is_positional (keys example_params)) [''rex'', ''3'']" by code_simp
  show "set [(''n'', ''3''), (''who'', ''rex'')] = set (zip (keys example_params) [''rex'', ''3''])"
    by (auto simp: example_params_def)
qed (simp_all add: example_params_def)

section \<open>Errors\<close>

fun is_localized :: "failure \<Rightarrow> bool" where
  "is_localized (Invalid (LocalizedError t ps)) = True"
| "is_localized _ = False"

definition explained :: "failure + 'a \<Rightarrow> bool" where
  "explained r \<longleftrightarrow> (case r of Inl e \<Rightarrow> is_localized e | Inr _ \<Rightarrow> True)"

lemma explained_simps [simp]: "explained (Inr x)" "explained (Inl (bad_argument t ps))" "explained (Inl (given_twice n))"
  by (simp_all add: explained_def bad_argument_def given_twice_def)

lemma explained_ebind: "explained r \<Longrightarrow> (\<And>x. r = Inr x \<Longrightarrow> explained (f x)) \<Longrightarrow> explained (ebind r f)"
  by (cases r) (auto simp: explained_def)

lemma sort_words_explained: "explained (sort_words schema ws pos named)"
  by (induction ws arbitrary: pos named) (auto split: option.split)

lemma split_named_explained: "explained (split_named schema ws)"
  unfolding split_named_def by (intro explained_ebind sort_words_explained) (auto split: option.split)

text \<open>Of a declared default, which is finite as a float, and of a text, \<open>number_value\<close> never overflows.\<close>

definition sound_value :: "param_spec \<Rightarrow> json \<Rightarrow> bool" where
  "sound_value spec j \<longleftrightarrow> (case j of JInt i \<Rightarrow> dict_get spec ''type'' JNull = JStr ''number'' \<longrightarrow> (\<exists>n. int_to_float i = Inr n) | _ \<Rightarrow> True)"

fun is_invalid :: "failure + 'a \<Rightarrow> bool" where
  "is_invalid (Inl (Invalid e)) = True"
| "is_invalid (Inl e) = False"
| "is_invalid (Inr x) = True"

lemma is_invalid_simps [simp]: "is_invalid python_error" "is_invalid (read_float t)" "is_invalid (finite_value n)"
  by (simp_all add: python_error_def read_float_def finite_value_def split: sum.split)

lemma is_invalid_ebind: "is_invalid r \<Longrightarrow> (\<And>x. r = Inr x \<Longrightarrow> is_invalid (f x)) \<Longrightarrow> is_invalid (ebind r f)"
  by (cases r rule: is_invalid.cases) auto

lemma axis_invalid: "is_invalid (axis_value start t)"
  unfolding axis_value_def by (auto intro!: is_invalid_ebind split: option.split)

lemma argument_invalid:
  assumes "kind = json_text (dict_get spec ''type'' JNull)" "sound_value spec j"
  shows "is_invalid (argument_value w spec kind j)"
proof -
  have "is_invalid (number_value j)" if "kind = ''number''"
  proof -
    have "dict_get spec ''type'' JNull = JStr ''number''" using that assms(1) by (cases "dict_get spec ''type'' JNull") (auto simp: json_text_def)
    then show ?thesis using assms(2) unfolding number_value_def
      by (intro is_invalid_ebind) (auto simp: sound_value_def split: json.split)
  qed
  moreover have "is_invalid (position_value origin j)" for origin
    unfolding position_value_def by (auto intro!: is_invalid_ebind axis_invalid split: list.split)
  moreover have "is_invalid (group_value gs j)" "is_invalid (bot_value bots j)" "is_invalid (boolean_value j)" for gs bots
    by (auto simp: group_value_def bot_value_def boolean_value_def split: json.split list.split option.split sum.split)
  ultimately show ?thesis unfolding argument_value_def by simp
qed

lemma checked_explained: "sound_value spec j \<Longrightarrow> explained (checked_value w n spec j)"
  using argument_invalid [of _ spec j w] unfolding checked_value_def Let_def
  by (auto split: sum.split failure.split)

definition sound_param :: "string \<times> param_spec \<Rightarrow> bool" where
  "sound_param x \<longleftrightarrow> sound_value (snd x) (dict_get (snd x) ''default'' JNull)"

lemma declare_param_sound: "declare_param j known = Inr ps \<Longrightarrow> list_all sound_param known \<Longrightarrow> list_all sound_param ps"
proof -
  assume ps: "declare_param j known = Inr ps" "list_all sound_param known"
  then obtain spec where p: "ps = known @ [(json_text (dict_get spec ''name'' JNull), spec)]"
    and d: "(case map_of spec ''default'' of None \<Rightarrow> Inr True | Some d \<Rightarrow> default_fits (json_text (dict_get spec ''type'' JNull)) spec d) = Inr True"
    by (auto simp: declare_param_def Let_def split: json.splits if_splits dest!: ebind_InrD)
  have "sound_value spec (dict_get spec ''default'' JNull)"
  proof (cases "map_of spec ''default''")
    case None
    then show ?thesis by (simp add: sound_value_def dict_get_def)
  next
    case (Some v)
    then show ?thesis using d
      by (auto simp: sound_value_def default_fits_def json_text_def dict_get_def split: json.splits option.splits if_splits dest!: ebind_InrD)
  qed
  with ps p show ?thesis by (simp add: sound_param_def)
qed

lemma declarations_sound: "declarations schema = Inr ps \<Longrightarrow> list_all sound_param ps"
proof -
  have "declare_params js known = Inr ps \<Longrightarrow> list_all sound_param known \<Longrightarrow> list_all sound_param ps" for js known
    by (induction js arbitrary: known) (auto dest!: ebind_InrD declare_param_sound)
  then show "declarations schema = Inr ps \<Longrightarrow> ?thesis" by (auto simp: declarations_def split: json.splits if_splits)
qed

text \<open>C39: Arguments typed for a script whose declaration is valid are accepted or refused with an explanation; no other exception ends the
  check.\<close>

theorem typed_arguments_are_explained:
  assumes "declarations schema = Inr ps"
  shows "case arguments w schema (Typed ws) of Inl e \<Rightarrow> is_localized e | Inr vs \<Rightarrow> True"
proof -
  have "explained (check_values w qs (map (\<lambda>(n, t). (n, JStr t)) d))" if "list_all sound_param qs" for qs d
    using that
  proof (induction qs)
    case (Cons q qs)
    obtain n spec where q: "q = (n, spec)" by force
    have "sound_value spec (dict_get spec ''default'' JNull)" using Cons.prems by (simp add: q sound_param_def)
    then have "sound_value spec (dict_get (map (\<lambda>(n, t). (n, JStr t)) d) n (dict_get spec ''default'' JNull))"
      by (cases "map_of d n") (simp_all add: dict_get_def [of _ n] map_of_map sound_value_def)
    then show ?case using Cons by (auto simp: q intro!: explained_ebind checked_explained)
  qed simp
  then have "explained (arguments w schema (Typed ws))"
    using declarations_sound [OF assms] unfolding arguments_def supplied.case assms
    by (auto intro!: explained_ebind split_named_explained)
  then show ?thesis by (simp add: explained_def)
qed

theorem typed_arguments_are_explained_witness:
  "case arguments \<lparr>su_groups = None, su_bots = [''Rex''], su_origin = None\<rparr> example_schema (Typed [''rex'', ''three'']) of
     Inl e \<Rightarrow> is_localized e | Inr vs \<Rightarrow> True"
  by (rule typed_arguments_are_explained [OF example_declared])

text \<open>The number of a form is JSON: a large integer ends the check with an \<open>OverflowError\<close> that names no parameter.\<close>

lemma large_overflows: "int_to_float (2 ^ 1024) = Inl overflow"
proof -
  have "\<not> is_finite (to_float (of_int (2 ^ 1024)))" by (simp add: to_float_def float_bound_def)
  then show ?thesis by (simp only: int_to_float_def if_False)
qed

lemma large_form_number:
  assumes "int_to_float i = Inl overflow"
  shows "arguments \<lparr>su_groups = None, su_bots = [''Rex''], su_origin = None\<rparr> example_schema (Filled [(''who'', JStr ''Rex''), (''n'', JInt i)]) = Inl overflow"
proof -
  have w: "checked_value w ''who'' [(''name'', JStr ''who''), (''type'', JStr ''bot'')] (JStr ''Rex'') = Inr (JStr ''Rex'')" if "su_bots w = [''Rex'']" for w
    using that by (simp add: checked_value_def Let_def dict_get_def json_text_def argument_value_def bot_value_def)
  show ?thesis
    by (simp add: arguments_def example_declared example_params_def w dict_get_def)
      (simp add: checked_value_def Let_def dict_get_def json_text_def argument_value_def number_value_def assms overflow_def)
qed

end
