(* ===== verification/Level_Dat.thy ===== *)
theory Level_Dat
  imports Effects "HOL-Library.Word"
begin

text \<open>
  The reader of a Bedrock \<open>level.dat\<close>, \<open>endbot_cli/leveldat.py\<close>: an eight byte header and a little-endian NBT
  document. A file is a list of bytes; the reader's position is what is left of it. A text is its bytes, which a
  read checks to be UTF-8 as Python does; a float is its bit pattern. \<open>payload (65 - depth)\<close> is \<open>_payload\<close> at that
  depth, so the 64 levels the code allows are the recursion. Of an error only its text without the offending value is kept.
\<close>

type_synonym bytes = "8 word list"

datatype nbt =
    NByte int | NShort int | NInt int | NLong int
  | NFloat nat | NDouble nat
  | NByteArray bytes
  | NString bytes
  | NList "nbt list"
  | NCompound "(bytes, nbt) dict"
  | NIntArray "int list"
  | NLongArray "int list"

type_synonym 'a reader = "bytes \<Rightarrow> string + 'a \<times> bytes"

definition read_bind :: "'a reader \<Rightarrow> ('a \<Rightarrow> 'b reader) \<Rightarrow> 'b reader" where
  "read_bind m f bs = (case m bs of Inl e \<Rightarrow> Inl e | Inr (x, rest) \<Rightarrow> f x rest)"

definition read_done :: "'a \<Rightarrow> 'a reader" where
  "read_done x bs = Inr (x, bs)"

definition corrupt :: "string \<Rightarrow> 'a reader" where
  "corrupt why bs = Inl (''level.dat is corrupt: '' @ why)"

section \<open>Numbers and texts\<close>

definition take_bytes :: "nat \<Rightarrow> string \<Rightarrow> bytes reader" where
  "take_bytes n what bs = (if length bs < n
     then Inl (''level.dat is corrupt or truncated: unexpected end of data while reading '' @ what)
     else Inr (take n bs, drop n bs))"

fun le_value :: "bytes \<Rightarrow> nat" where
  "le_value [] = 0"
| "le_value (b # bs) = unat b + 256 * le_value bs"

text \<open>\<open>struct.unpack\<close> of \<open>k\<close> bytes, unsigned and as a two's complement number.\<close>

definition signed :: "nat \<Rightarrow> nat \<Rightarrow> int" where
  "signed k n = (if n < 256 ^ k div 2 then int n else int n - 256 ^ k)"

definition read_unsigned :: "nat \<Rightarrow> string \<Rightarrow> nat reader" where
  "read_unsigned k what = read_bind (take_bytes k what) (\<lambda>bs. read_done (le_value bs))"

definition read_signed :: "nat \<Rightarrow> string \<Rightarrow> int reader" where
  "read_signed k what = read_bind (read_unsigned k what) (\<lambda>n. read_done (signed k n))"

definition between :: "8 word \<Rightarrow> nat \<Rightarrow> nat \<Rightarrow> bool" where
  "between b lo hi \<longleftrightarrow> lo \<le> unat b \<and> unat b \<le> hi"

fun utf8 :: "bytes \<Rightarrow> bool" where
  "utf8 [] = True"
| "utf8 (a # bs) =
     (if between a 0 0x7F then utf8 bs
      else if between a 0xC2 0xDF then (case bs of b # cs \<Rightarrow> between b 0x80 0xBF \<and> utf8 cs | _ \<Rightarrow> False)
      else if between a 0xE0 0xEF then (case bs of b # c # cs \<Rightarrow>
          between b (if unat a = 0xE0 then 0xA0 else 0x80) (if unat a = 0xED then 0x9F else 0xBF) \<and> between c 0x80 0xBF \<and> utf8 cs | _ \<Rightarrow> False)
      else if between a 0xF0 0xF4 then (case bs of b # c # d # cs \<Rightarrow>
          between b (if unat a = 0xF0 then 0x90 else 0x80) (if unat a = 0xF4 then 0x8F else 0xBF) \<and> between c 0x80 0xBF \<and>
          between d 0x80 0xBF \<and> utf8 cs | _ \<Rightarrow> False)
      else False)"

definition read_string :: "string \<Rightarrow> bytes reader" where
  "read_string what = read_bind (read_unsigned 2 (what @ '' length'')) (\<lambda>n. read_bind (take_bytes n what) (\<lambda>raw.
     if utf8 raw then read_done raw else corrupt (''invalid UTF-8 in '' @ what)))"

section \<open>Tags\<close>

fun read_times :: "nat \<Rightarrow> 'a reader \<Rightarrow> 'a list reader" where
  "read_times 0 m = read_done []"
| "read_times (Suc n) m = read_bind m (\<lambda>x. read_bind (read_times n m) (\<lambda>xs. read_done (x # xs)))"

text \<open>A count that must be no more than the bytes left hold, \<open>width\<close> bytes an element.\<close>

definition read_count :: "nat \<Rightarrow> string \<Rightarrow> nat reader" where
  "read_count width what = read_bind (read_signed 4 (what @ '' length'')) (\<lambda>n bs.
     if n < 0 \<or> n * int width > int (length bs) then corrupt (what @ '' length exceeds the payload'') bs else Inr (nat n, bs))"

text \<open>The loop over the entries of a compound; each entry takes a byte, so the bytes left are rounds enough.\<close>

fun read_entries :: "nat \<Rightarrow> (nat \<Rightarrow> nbt reader) \<Rightarrow> (bytes, nbt) dict \<Rightarrow> (bytes, nbt) dict reader" where
  "read_entries 0 child d = corrupt ''out of rounds''"
| "read_entries (Suc n) child d = read_bind (read_unsigned 1 ''compound child type'') (\<lambda>t.
     if t = 0 then read_done d
     else if \<not> t \<le> 12 then corrupt ''unknown NBT tag type''
     else read_bind (read_string ''compound child name'') (\<lambda>name. read_bind (child t) (\<lambda>v. read_entries n child (dict_set name v d))))"

primrec payload :: "nat \<Rightarrow> nat \<Rightarrow> nbt reader" where
  "payload 0 t = corrupt ''NBT nesting is too deep''"
| "payload (Suc d) t =
     (if t = 1 then read_bind (read_signed 1 ''byte tag'') (read_done \<circ> NByte)
      else if t = 2 then read_bind (read_signed 2 ''short tag'') (read_done \<circ> NShort)
      else if t = 3 then read_bind (read_signed 4 ''int tag'') (read_done \<circ> NInt)
      else if t = 4 then read_bind (read_signed 8 ''long tag'') (read_done \<circ> NLong)
      else if t = 5 then read_bind (read_unsigned 4 ''float tag'') (read_done \<circ> NFloat)
      else if t = 6 then read_bind (read_unsigned 8 ''double tag'') (read_done \<circ> NDouble)
      else if t = 7 then read_bind (read_count 1 ''byte array'') (\<lambda>n. read_bind (take_bytes n ''byte array'') (read_done \<circ> NByteArray))
      else if t = 8 then read_bind (read_string ''string tag'') (read_done \<circ> NString)
      else if t = 9 then read_bind (read_unsigned 1 ''list element type'') (\<lambda>e. read_bind (read_count 1 ''list'') (\<lambda>n.
        if e = 0 \<and> n \<noteq> 0 then corrupt ''non-empty list of end tags''
        else read_bind (read_times n (payload d e)) (read_done \<circ> NList)))
      else if t = 10 then (\<lambda>bs. read_bind (read_entries (Suc (length bs)) (payload d) []) (read_done \<circ> NCompound) bs)
      else if t = 11 then read_bind (read_count 4 ''int array'') (\<lambda>n. read_bind (read_times n (read_signed 4 ''int array element'')) (read_done \<circ> NIntArray))
      else if t = 12 then read_bind (read_count 8 ''long array'') (\<lambda>n. read_bind (read_times n (read_signed 8 ''long array element'')) (read_done \<circ> NLongArray))
      else corrupt ''unknown NBT tag type'')"

definition read_document :: "(bytes \<times> nbt) reader" where
  "read_document = read_bind (read_unsigned 1 ''root tag type'') (\<lambda>t.
     if t \<noteq> 10 then corrupt ''root tag must be a compound''
     else read_bind (read_string ''root tag name'') (\<lambda>name. read_bind (payload 65 t) (\<lambda>v. read_done (name, v))))"

section \<open>The summary\<close>

text \<open>The bytes of an ASCII text.\<close>

definition ascii :: "string \<Rightarrow> bytes" where
  "ascii s = map (\<lambda>c. word_of_nat (code c)) s"

text \<open>\<open>bool(value)\<close>: both zeros of a float are false.\<close>

fun nbt_truth :: "nbt \<Rightarrow> bool" where
  "nbt_truth (NByte i) = (i \<noteq> 0)"
| "nbt_truth (NShort i) = (i \<noteq> 0)"
| "nbt_truth (NInt i) = (i \<noteq> 0)"
| "nbt_truth (NLong i) = (i \<noteq> 0)"
| "nbt_truth (NFloat n) = (n mod 2 ^ 31 \<noteq> 0)"
| "nbt_truth (NDouble n) = (n mod 2 ^ 63 \<noteq> 0)"
| "nbt_truth (NByteArray bs) = (bs \<noteq> [])"
| "nbt_truth (NString bs) = (bs \<noteq> [])"
| "nbt_truth (NList xs) = (xs \<noteq> [])"
| "nbt_truth (NCompound d) = (d \<noteq> [])"
| "nbt_truth (NIntArray xs) = (xs \<noteq> [])"
| "nbt_truth (NLongArray xs) = (xs \<noteq> [])"

fun nbt_int :: "nbt \<Rightarrow> int option" where
  "nbt_int (NByte i) = Some i"
| "nbt_int (NShort i) = Some i"
| "nbt_int (NInt i) = Some i"
| "nbt_int (NLong i) = Some i"
| "nbt_int _ = None"

fun nbt_entries :: "nbt \<Rightarrow> (bytes, nbt) dict" where
  "nbt_entries (NCompound d) = d"
| "nbt_entries _ = []"

record level_summary =
  storage_version :: int
  commands_enabled :: "bool option"
  loaded_in_creative :: "bool option"
  game_type :: "int option"
  cheats_enabled :: "bool option"
  experiments_ever_used :: "bool option"
  saved_with_experiments :: "bool option"
  other_experiments :: "bytes list"
  level_name :: "bytes option"

definition unsafe_flags :: "level_summary \<Rightarrow> string list" where
  "unsafe_flags l = map fst (filter (\<lambda>(name, v). v = Some True)
     [(''hasBeenLoadedInCreative'', loaded_in_creative l), (''commandsEnabled'', commands_enabled l),
      (''experiments_ever_used'', experiments_ever_used l), (''saved_with_toggled_experiments'', saved_with_experiments l)])"

definition lookup_tag :: "(bytes, nbt) dict \<Rightarrow> string \<Rightarrow> nbt option" where
  "lookup_tag tags name = (case map_of tags (ascii name) of
     Some v \<Rightarrow> Some v
   | None \<Rightarrow> (case map_of tags (ascii ''Data'') of Some v \<Rightarrow> map_of (nbt_entries v) (ascii name) | None \<Rightarrow> None))"

definition experiments_of :: "(bytes, nbt) dict \<Rightarrow> (bytes, nbt) dict" where
  "experiments_of tags = (case lookup_tag tags ''experiments'' of None \<Rightarrow> [] | Some v \<Rightarrow> nbt_entries v)"

definition experiment_flag :: "(bytes, nbt) dict \<Rightarrow> string \<Rightarrow> bool option" where
  "experiment_flag tags name = (case map_of (experiments_of tags) (ascii name) of
     Some v \<Rightarrow> Some (nbt_truth v)
   | None \<Rightarrow> map_option nbt_truth (lookup_tag tags name))"

definition named_experiments :: "string list" where
  "named_experiments = [''experiments_ever_used'', ''saved_with_toggled_experiments'']"

definition summarise :: "int \<Rightarrow> (bytes, nbt) dict \<Rightarrow> level_summary" where
  "summarise version tags = \<lparr>storage_version = version,
     commands_enabled = map_option nbt_truth (lookup_tag tags ''commandsEnabled''),
     loaded_in_creative = map_option nbt_truth (lookup_tag tags ''hasBeenLoadedInCreative''),
     game_type = (case lookup_tag tags ''GameType'' of None \<Rightarrow> None | Some v \<Rightarrow> nbt_int v),
     cheats_enabled = map_option nbt_truth (lookup_tag tags ''cheatsEnabled''),
     experiments_ever_used = experiment_flag tags ''experiments_ever_used'',
     saved_with_experiments = experiment_flag tags ''saved_with_toggled_experiments'',
     other_experiments = sort_key (map unat) (filter (\<lambda>k. k \<notin> set (map ascii named_experiments)) (keys (experiments_of tags))),
     level_name = (case lookup_tag tags ''LevelName'' of Some (NString bs) \<Rightarrow> if bs = [] then None else Some bs | _ \<Rightarrow> None)\<rparr>"

definition parse_level_dat :: "bytes \<Rightarrow> string + level_summary" where
  "parse_level_dat bs =
     (if length bs < 8 then Inl ''level.dat is truncated: the 8-byte header is incomplete''
      else let version = signed 4 (le_value (take 4 bs)); size = signed 4 (le_value (take 4 (drop 4 bs))); body = drop 8 bs in
        if size < 0 then Inl ''level.dat is corrupt: negative payload length''
        else if int (length body) \<noteq> size then Inl ''level.dat is corrupt or truncated: header declares other payload bytes''
        else (case read_document body of Inl e \<Rightarrow> Inl e | Inr ((name, v), rest) \<Rightarrow> Inr (summarise version (nbt_entries v))))"

section \<open>A writer\<close>

text \<open>The bytes of a document, as the format has them; the reader is judged by what it makes of these.\<close>

fun le_bytes :: "nat \<Rightarrow> nat \<Rightarrow> bytes" where
  "le_bytes 0 n = []"
| "le_bytes (Suc k) n = word_of_nat (n mod 256) # le_bytes k (n div 256)"

definition write_int :: "nat \<Rightarrow> int \<Rightarrow> bytes" where
  "write_int k i = le_bytes k (nat (i mod 256 ^ k))"

definition write_string :: "bytes \<Rightarrow> bytes" where
  "write_string s = le_bytes 2 (length s) @ s"

fun tag_of :: "nbt \<Rightarrow> nat" where
  "tag_of (NByte _) = 1" | "tag_of (NShort _) = 2" | "tag_of (NInt _) = 3" | "tag_of (NLong _) = 4"
| "tag_of (NFloat _) = 5" | "tag_of (NDouble _) = 6" | "tag_of (NByteArray _) = 7" | "tag_of (NString _) = 8"
| "tag_of (NList _) = 9" | "tag_of (NCompound _) = 10" | "tag_of (NIntArray _) = 11" | "tag_of (NLongArray _) = 12"

fun write_nbt :: "nbt \<Rightarrow> bytes" where
  "write_nbt (NByte i) = write_int 1 i"
| "write_nbt (NShort i) = write_int 2 i"
| "write_nbt (NInt i) = write_int 4 i"
| "write_nbt (NLong i) = write_int 8 i"
| "write_nbt (NFloat n) = le_bytes 4 n"
| "write_nbt (NDouble n) = le_bytes 8 n"
| "write_nbt (NByteArray bs) = write_int 4 (int (length bs)) @ bs"
| "write_nbt (NString s) = write_string s"
| "write_nbt (NList xs) = le_bytes 1 (case xs of [] \<Rightarrow> 0 | x # _ \<Rightarrow> tag_of x) @ write_int 4 (int (length xs)) @ concat (map write_nbt xs)"
| "write_nbt (NCompound d) = concat (map (\<lambda>(k, v). le_bytes 1 (tag_of v) @ write_string k @ write_nbt v) d) @ le_bytes 1 0"
| "write_nbt (NIntArray xs) = write_int 4 (int (length xs)) @ concat (map (write_int 4) xs)"
| "write_nbt (NLongArray xs) = write_int 4 (int (length xs)) @ concat (map (write_int 8) xs)"

definition in_range :: "nat \<Rightarrow> int \<Rightarrow> bool" where
  "in_range k i \<longleftrightarrow> - (256 ^ k div 2) \<le> i \<and> i < 256 ^ k div 2"

definition text_fits :: "bytes \<Rightarrow> bool" where
  "text_fits s \<longleftrightarrow> utf8 s \<and> length s < 65536"

text \<open>What a document can hold at \<open>d\<close> levels left: numbers of their width, texts, lists of one type, distinct names.\<close>

primrec nbt_fits :: "nat \<Rightarrow> nbt \<Rightarrow> bool" where
  "nbt_fits 0 v = False"
| "nbt_fits (Suc d) v = (case v of
     NByte i \<Rightarrow> in_range 1 i | NShort i \<Rightarrow> in_range 2 i | NInt i \<Rightarrow> in_range 4 i | NLong i \<Rightarrow> in_range 8 i
   | NFloat n \<Rightarrow> n < 256 ^ 4 | NDouble n \<Rightarrow> n < 256 ^ 8
   | NByteArray bs \<Rightarrow> length bs < 2 ^ 31
   | NString s \<Rightarrow> text_fits s
   | NList xs \<Rightarrow> length xs < 2 ^ 31 \<and> list_all (\<lambda>x. nbt_fits d x \<and> tag_of x = tag_of (hd xs)) xs
   | NCompound e \<Rightarrow> distinct (keys e) \<and> list_all (\<lambda>x. text_fits (fst x) \<and> nbt_fits d (snd x)) e
   | NIntArray xs \<Rightarrow> length xs < 2 ^ 31 \<and> list_all (in_range 4) xs
   | NLongArray xs \<Rightarrow> length xs < 2 ^ 31 \<and> list_all (in_range 8) xs)"

section \<open>Reading what was written\<close>

lemma length_le_bytes [simp]: "length (le_bytes k n) = k"
  by (induction k arbitrary: n) simp_all

lemma unat_byte: "unat (word_of_nat (n mod 256) :: 8 word) = n mod 256"
  by (simp add: unsigned_of_nat take_bit_eq_mod)

lemma le_value_bytes [simp]: "n < 256 ^ k \<Longrightarrow> le_value (le_bytes k n) = n"
  by (induction k arbitrary: n) (simp_all add: unat_byte less_mult_imp_div_less)

lemma le_value_bound: "le_value bs < 256 ^ length bs"
proof (induction bs)
  case (Cons b bs)
  have "unat b < 256" using unsigned_less [of b] by simp
  with Cons show ?case by simp
qed simp

text \<open>Half the range, as a natural number and as an integer.\<close>

lemma half_range:
  assumes "k \<noteq> 0"
  obtains m :: nat where "256 ^ k div 2 = m" "(256 :: nat) ^ k = 2 * m" "(256 :: int) ^ k = 2 * int m" "(256 :: int) ^ k div 2 = int m" "0 < m"
proof -
  have e: "even ((256 :: nat) ^ k)" using assms by simp
  define m :: nat where "m = 256 ^ k div 2"
  have n: "(256 :: nat) ^ k = 2 * m" using e by (simp add: m_def)
  have i: "(256 :: int) ^ k = 2 * int m" using arg_cong [OF n, of int] by simp
  have "0 < m" using n by (metis mult_0_right neq0_conv power_not_zero zero_neq_numeral)
  then show thesis using that [of m] n i by (simp add: m_def [symmetric])
qed

lemma signed_range: "k \<noteq> 0 \<Longrightarrow> n < 256 ^ k \<Longrightarrow> in_range k (signed k n)"
proof -
  assume k: "k \<noteq> 0" "n < 256 ^ k"
  obtain m :: nat where "256 ^ k div 2 = m" "(256 :: nat) ^ k = 2 * m" "(256 :: int) ^ k = 2 * int m" "(256 :: int) ^ k div 2 = int m" "0 < m"
    using half_range [OF k(1)] .
  with k(2) show ?thesis by (simp add: in_range_def signed_def)
qed

lemma signed_written: "k \<noteq> 0 \<Longrightarrow> in_range k i \<Longrightarrow> signed k (nat (i mod 256 ^ k)) = i"
proof -
  assume k: "k \<noteq> 0" "in_range k i"
  obtain m :: nat where m: "256 ^ k div 2 = m" "(256 :: nat) ^ k = 2 * m" "(256 :: int) ^ k = 2 * int m" "(256 :: int) ^ k div 2 = int m" "0 < m"
    using half_range [OF k(1)] .
  have i: "- int m \<le> i" "i < int m" using k(2) m by (simp_all add: in_range_def)
  show ?thesis
  proof (cases "i < 0")
    case True
    have "i mod (2 * int m) = i + 2 * int m" using i True m(5) by (smt (verit) mod_add_self2 mod_pos_pos_trivial)
    with i m True show ?thesis by (simp add: signed_def nat_less_iff)
  next
    case False
    then have "i mod (2 * int m) = i" using i by simp
    with i m False show ?thesis by (simp add: signed_def nat_less_iff)
  qed
qed

lemma write_bound: "nat (i mod 256 ^ k) < 256 ^ k"
  by (simp add: nat_less_iff)

subsection \<open>Each reader takes its own bytes and leaves the rest\<close>

lemma read_bind_Inr: "m bs = Inr (x, rest) \<Longrightarrow> read_bind m f bs = f x rest"
  by (simp add: read_bind_def)

lemma take_written [simp]: "length xs = n \<Longrightarrow> take_bytes n what (xs @ rest) = Inr (xs, rest)"
  by (simp add: take_bytes_def)

lemma unsigned_written [simp]: "n < 256 ^ k \<Longrightarrow> read_unsigned k what (le_bytes k n @ rest) = Inr (n, rest)"
  by (simp add: read_unsigned_def read_bind_def read_done_def)

lemma int_written [simp]: "k \<noteq> 0 \<Longrightarrow> in_range k i \<Longrightarrow> read_signed k what (write_int k i @ rest) = Inr (i, rest)"
  by (simp add: read_signed_def write_int_def read_bind_def read_done_def signed_written write_bound)

lemma string_written [simp]: "text_fits s \<Longrightarrow> read_string what (write_string s @ rest) = Inr (s, rest)"
  by (simp add: read_string_def write_string_def text_fits_def read_bind_def read_done_def)

lemma count_written:
  "n < 2 ^ 31 \<Longrightarrow> n * width \<le> length rest \<Longrightarrow> read_count width what (write_int 4 (int n) @ rest) = Inr (n, rest)"
proof -
  assume a: "n < 2 ^ 31" "n * width \<le> length rest"
  have r: "in_range 4 (int n)" using a(1) by (simp add: in_range_def)
  have "int n * int width \<le> int (length rest)" using a(2) by (metis of_nat_le_iff of_nat_mult)
  then show ?thesis by (simp add: read_count_def read_bind_def r not_less)
qed

lemma times_written:
  assumes "\<And>x rest. x \<in> set xs \<Longrightarrow> m (w x @ rest) = Inr (x, rest)"
  shows "read_times (length xs) m (concat (map w xs) @ rest) = Inr (xs, rest)"
  using assms by (induction xs) (simp_all add: read_bind_def read_done_def)

lemma write_nbt_nonempty: "1 \<le> length (write_nbt v)"
  by (cases v) (simp_all add: write_int_def write_string_def)

lemma concat_write_nbt: "length xs \<le> length (concat (map write_nbt xs))"
proof (induction xs)
  case (Cons x xs)
  then show ?case using write_nbt_nonempty [of x] by simp
qed simp

lemma length_concat_ints: "length (concat (map (write_int k) xs)) = length xs * k"
  by (induction xs) (simp_all add: write_int_def)

definition write_entry :: "bytes \<times> nbt \<Rightarrow> bytes" where
  "write_entry x = le_bytes 1 (tag_of (snd x)) @ write_string (fst x) @ write_nbt (snd x)"

lemma write_compound: "write_nbt (NCompound e) = concat (map write_entry e) @ le_bytes 1 0"
  by (simp add: write_entry_def case_prod_unfold cong: map_cong)

lemma concat_write_entry: "length e \<le> length (concat (map write_entry e))"
  by (induction e) (simp_all add: write_entry_def)

lemma tag_of_range: "0 < tag_of v" "tag_of v \<le> 12"
  by (cases v; simp)+

lemma tag_of_byte: "tag_of v < 256"
  using tag_of_range(2) [of v] by simp

lemma entries_written:
  assumes "\<And>x rest. x \<in> set e \<Longrightarrow> text_fits (fst x)"
    and "\<And>x rest. x \<in> set e \<Longrightarrow> child (tag_of (snd x)) (write_nbt (snd x) @ rest) = Inr (snd x, rest)"
    and "distinct (keys d @ keys e)" and "length e < n"
  shows "read_entries n child d (concat (map write_entry e) @ le_bytes 1 0 @ rest) = Inr (d @ e, rest)"
  using assms
proof (induction e arbitrary: d n)
  case Nil
  then obtain m where "n = Suc m" by (cases n) auto
  then show ?case by (simp add: read_bind_def read_done_def del: le_bytes.simps One_nat_def)
next
  case (Cons x e)
  then obtain m where n: "n = Suc m" "length e < m" by (cases n) auto
  let ?rest = "concat (map write_entry e) @ le_bytes 1 0 @ rest"
  have set: "dict_set (fst x) (snd x) d = d @ [x]"
    using Cons.prems(3) dict_set_fresh [of "fst x" d "snd x"] by simp
  have "read_entries m child (d @ [x]) ?rest = Inr ((d @ [x]) @ e, rest)"
    by (rule Cons.IH) (use Cons.prems n in auto)
  moreover have "read_string w (write_string (fst x) @ r) = Inr (fst x, r)" for w r
    using Cons.prems(1) by simp
  moreover have "child (tag_of (snd x)) (write_nbt (snd x) @ r) = Inr (snd x, r)" for r
    using Cons.prems(2) by simp
  moreover have "read_unsigned 1 w (le_bytes 1 (tag_of (snd x)) @ r) = Inr (tag_of (snd x), r)" for w r
    by (rule unsigned_written) (use tag_of_byte [of "snd x"] in simp)
  ultimately show ?case
    using tag_of_range [of "snd x"] by (simp add: n write_entry_def [of x] read_bind_def set del: le_bytes.simps One_nat_def)
qed

lemma payload_written:
  "nbt_fits d v \<Longrightarrow> payload d (tag_of v) (write_nbt v @ rest) = Inr (v, rest)"
proof (induction d arbitrary: v rest)
  case (Suc d)
  note w = read_bind_def read_done_def
  show ?case
  proof (cases v)
    case (NByteArray bs)
    then show ?thesis using Suc.prems by (simp add: w count_written)
  next
    case (NList xs)
    define e where "e = (case xs of [] \<Rightarrow> 0 | x # _ \<Rightarrow> tag_of x)"
    have e: "e < 256" "xs \<noteq> [] \<Longrightarrow> e \<noteq> 0"
      using tag_of_byte [of "hd xs"] tag_of_range [of "hd xs"] by (cases xs; simp add: e_def)+
    have tag: "tag_of x = e" if "x \<in> set xs" for x
    proof (cases xs)
      case (Cons y ys)
      then show ?thesis using Suc.prems that by (auto simp: NList e_def list_all_iff)
    qed (use that in simp)
    have "read_unsigned 1 q (le_bytes 1 e @ r) = Inr (e, r)" for q r
      by (rule unsigned_written) (use e(1) in simp)
    moreover have "read_count 1 q (write_int 4 (int (length xs)) @ concat (map write_nbt xs) @ rest) = Inr (length xs, concat (map write_nbt xs) @ rest)" for q
      by (rule count_written) (use Suc.prems concat_write_nbt [of xs] in \<open>simp_all add: NList\<close>)
    moreover have "read_times (length xs) (payload d e) (concat (map write_nbt xs) @ rest) = Inr (xs, rest)"
    proof (rule times_written)
      fix x r assume x: "x \<in> set xs"
      then have "nbt_fits d x" using Suc.prems by (simp add: NList list_all_iff)
      then show "payload d e (write_nbt x @ r) = Inr (x, r)" using Suc.IH [of x r] tag [OF x] by simp
    qed
    ultimately show ?thesis using e(2) by (auto simp: NList w e_def [symmetric] simp del: le_bytes.simps One_nat_def)
  next
    case (NCompound e)
    let ?bs = "concat (map write_entry e) @ le_bytes 1 0 @ rest"
    have "read_entries (Suc (length ?bs)) (payload d) [] ?bs = Inr ([] @ e, rest)"
    proof (rule entries_written)
      show "length e < Suc (length ?bs)" using concat_write_entry [of e] by simp
    qed (use Suc.prems Suc.IH in \<open>auto simp: NCompound list_all_iff\<close>)
    moreover have "write_nbt v @ rest = ?bs" unfolding NCompound write_compound by simp
    ultimately show ?thesis
      by (simp add: NCompound w del: write_nbt.simps le_bytes.simps read_entries.simps length_append)
  next
    case (NIntArray xs)
    have "read_times (length xs) (read_signed 4 q) (concat (map (write_int 4) xs) @ rest) = Inr (xs, rest)" for q
      by (rule times_written) (use Suc.prems in \<open>simp add: NIntArray list_all_iff\<close>)
    then show ?thesis using Suc.prems by (simp add: NIntArray w count_written length_concat_ints)
  next
    case (NLongArray xs)
    have "read_times (length xs) (read_signed 8 q) (concat (map (write_int 8) xs) @ rest) = Inr (xs, rest)" for q
      by (rule times_written) (use Suc.prems in \<open>simp add: NLongArray list_all_iff\<close>)
    then show ?thesis using Suc.prems by (simp add: NLongArray w count_written length_concat_ints)
  qed (use Suc.prems in \<open>simp_all add: w\<close>)
qed simp

section \<open>What a reader can return\<close>

text \<open>A reader that yields only values with \<open>P\<close>, leaves an end of what it was given, and never reports \<open>out of rounds\<close>.\<close>

definition no_rounds :: string where
  "no_rounds = ''level.dat is corrupt: out of rounds''"

definition yields :: "('a \<Rightarrow> bool) \<Rightarrow> 'a reader \<Rightarrow> bool" where
  "yields P m \<longleftrightarrow> (\<forall>bs. case m bs of Inl e \<Rightarrow> e \<noteq> no_rounds | Inr (x, rest) \<Rightarrow> P x \<and> length rest \<le> length bs)"

lemma yieldsD: "yields P m \<Longrightarrow> m bs = Inr (x, rest) \<Longrightarrow> P x \<and> length rest \<le> length bs"
  unfolding yields_def by (metis (mono_tags, lifting) case_prod_conv sum.simps(6))

lemma yields_no_rounds: "yields P m \<Longrightarrow> m bs \<noteq> Inl no_rounds"
  unfolding yields_def by (metis (mono_tags, lifting) sum.simps(5))

lemma yieldsI:
  "(\<And>bs e. m bs = Inl e \<Longrightarrow> e \<noteq> no_rounds) \<Longrightarrow> (\<And>bs x rest. m bs = Inr (x, rest) \<Longrightarrow> P x \<and> length rest \<le> length bs) \<Longrightarrow> yields P m"
  unfolding yields_def by (auto split: sum.split)

lemma yields_bind [intro]: "yields Q m \<Longrightarrow> (\<And>x. Q x \<Longrightarrow> yields P (f x)) \<Longrightarrow> yields P (read_bind m f)"
proof (rule yieldsI)
  assume m: "yields Q m" and f: "\<And>x. Q x \<Longrightarrow> yields P (f x)"
  show "e \<noteq> no_rounds" if "read_bind m f bs = Inl e" for bs e
    using that yieldsD [OF m] yields_no_rounds [OF m] yields_no_rounds [OF f]
    by (force simp: read_bind_def split: sum.splits)
  show "P x \<and> length rest \<le> length bs" if "read_bind m f bs = Inr (x, rest)" for bs x rest
    using that yieldsD [OF m] yieldsD [OF f]
    by (force simp: read_bind_def split: sum.splits)
qed

lemma yields_done [intro]: "P x \<Longrightarrow> yields P (read_done x)"
  by (simp add: yields_def read_done_def)

lemma yields_corrupt: "why \<noteq> ''out of rounds'' \<Longrightarrow> yields P (corrupt why)"
  by (simp add: yields_def corrupt_def no_rounds_def)

lemma yields_weaken: "yields Q m \<Longrightarrow> (\<And>x. Q x \<Longrightarrow> P x) \<Longrightarrow> yields P m"
  by (rule yieldsI) (auto dest: yieldsD yields_no_rounds)

lemma yields_map: "yields Q m \<Longrightarrow> (\<And>x. Q x \<Longrightarrow> P (c x)) \<Longrightarrow> yields P (read_bind m (read_done \<circ> c))"
  by (erule yields_bind) (simp add: yields_done)

lemma yields_take: "yields (\<lambda>x. length x = n) (take_bytes n what)"
  by (simp add: yields_def take_bytes_def no_rounds_def)

lemma yields_unsigned: "yields (\<lambda>n. n < 256 ^ k) (read_unsigned k what)"
  unfolding read_unsigned_def
  by (rule yields_bind [OF yields_take]) (use le_value_bound in auto)

lemma yields_signed: "k \<noteq> 0 \<Longrightarrow> yields (in_range k) (read_signed k what)"
  unfolding read_signed_def
  by (rule yields_bind [OF yields_unsigned]) (auto intro: signed_range)

lemma yields_string: "yields text_fits (read_string what)"
  unfolding read_string_def
proof (rule yields_bind [OF yields_unsigned])
  fix n :: nat assume n: "n < 256 ^ 2"
  show "yields text_fits (read_bind (take_bytes n what) (\<lambda>raw. if utf8 raw then read_done raw else corrupt (''invalid UTF-8 in '' @ what)))"
    by (rule yields_bind [OF yields_take]) (use n in \<open>auto simp: text_fits_def intro: yields_corrupt\<close>)
qed

lemma yields_count: "what \<noteq> ''out of rounds'' \<Longrightarrow> what @ '' length exceeds the payload'' \<noteq> ''out of rounds'' \<Longrightarrow> yields (\<lambda>n. n < 2 ^ 31) (read_count width what)"
  unfolding read_count_def
proof (rule yields_bind [OF yields_signed])
  fix n :: int assume "in_range 4 n" "what @ '' length exceeds the payload'' \<noteq> ''out of rounds''"
  then show "yields (\<lambda>n. n < 2 ^ 31) (\<lambda>bs. if n < 0 \<or> n * int width > int (length bs) then corrupt (what @ '' length exceeds the payload'') bs else Inr (nat n, bs))"
    by (auto simp: yields_def corrupt_def no_rounds_def in_range_def)
qed simp

lemma yields_times: "yields P m \<Longrightarrow> yields (\<lambda>xs. length xs = n \<and> list_all P xs) (read_times n m)"
  by (induction n) (auto intro!: yields_done elim!: yields_bind)

definition entries_fit :: "nat \<Rightarrow> (bytes, nbt) dict \<Rightarrow> bool" where
  "entries_fit d e \<longleftrightarrow> dict_all (\<lambda>x. text_fits (fst x) \<and> nbt_fits d (snd x)) e"

text \<open>A reader of at least a byte; the loop over the entries of a compound makes progress by its first.\<close>

lemma unsigned_progress: "read_unsigned (Suc k) what bs = Inr (n, rest) \<Longrightarrow> length rest < length bs"
  by (auto simp: read_unsigned_def read_bind_def read_done_def take_bytes_def split: sum.splits if_splits)

lemma unsigned_one_no_rounds: "read_unsigned 1 what bs \<noteq> Inl no_rounds"
  using yields_no_rounds [OF yields_unsigned] .

lemma entries_step:
  assumes child: "\<And>t. 0 < t \<Longrightarrow> t \<le> 12 \<Longrightarrow> yields (nbt_fits d) (child t)" and e: "entries_fit d e" and "length bs < n"
  shows "case read_entries n child e bs of Inl x \<Rightarrow> x \<noteq> no_rounds | Inr (e', rest) \<Rightarrow> entries_fit d e' \<and> length rest \<le> length bs"
  using e \<open>length bs < n\<close>
proof (induction n arbitrary: bs e)
  case (Suc n)
  show ?case
  proof (cases "read_unsigned 1 ''compound child type'' bs")
    case (Inl x)
    then show ?thesis using unsigned_one_no_rounds [of "''compound child type''" bs] by (auto simp: read_bind_def)
  next
    case (Inr y)
    obtain t rest where y: "y = (t, rest)" by (cases y)
    have less: "length rest < length bs" using unsigned_progress [of 0] Inr y by simp
    show ?thesis
    proof (cases "t = 0 \<or> \<not> t \<le> 12")
      case True
      then show ?thesis using Inr y less Suc.prems by (auto simp: read_bind_def read_done_def corrupt_def no_rounds_def)
    next
      case False
      then have c: "yields (nbt_fits d) (child t)" using child by simp
      let ?m = "read_bind (read_string ''compound child name'') (\<lambda>name. read_bind (child t) (\<lambda>v. read_done (name, v)))"
      have "yields (\<lambda>x. text_fits (fst x) \<and> nbt_fits d (snd x)) ?m"
        by (rule yields_bind [OF yields_string], rule yields_bind [OF c]) (auto intro: yields_done)
      note item = yieldsD [OF this, of rest] yields_no_rounds [OF this, of rest]
      have step: "read_entries (Suc n) child e bs = read_bind ?m (\<lambda>x. read_entries n child (dict_set (fst x) (snd x) e)) rest"
        using Inr y False by (simp add: read_bind_def read_done_def split: sum.split)
      show ?thesis
      proof (cases "?m rest")
        case (Inl x)
        then show ?thesis unfolding step using item by (simp add: read_bind_def [of ?m])
      next
        case (Inr z)
        obtain x rest' where z: "z = (x, rest')" by (cases z)
        have "entries_fit d (dict_set (fst x) (snd x) e)" "length rest' < n"
          using item Inr z less Suc.prems by (auto simp: entries_fit_def intro!: dict_all_set)
        from Suc.IH [OF this] show ?thesis
          unfolding step using Inr z less item
          by (auto simp: read_bind_def [of ?m] split: sum.splits)
      qed
    qed
  qed
qed simp

lemma yields_entries:
  assumes "\<And>t. 0 < t \<Longrightarrow> t \<le> 12 \<Longrightarrow> yields (nbt_fits d) (child t)"
  shows "yields (entries_fit d) (\<lambda>bs. read_entries (Suc (length bs)) child [] bs)"
proof -
  have "entries_fit d []" by (simp add: entries_fit_def dict_all_def)
  then show ?thesis unfolding yields_def by (intro allI entries_step [OF assms]) simp_all
qed

text \<open>A payload has the type of its tag and fits the levels that were left.\<close>

definition typed_as :: "nat \<Rightarrow> nat \<Rightarrow> nbt \<Rightarrow> bool" where
  "typed_as d t v \<longleftrightarrow> nbt_fits d v \<and> tag_of v = t"

lemma yields_ints:
  assumes "what \<in> {''byte array'', ''list'', ''int array'', ''long array''}" "yields P m"
    "\<And>xs. length xs < 2 ^ 31 \<Longrightarrow> list_all P xs \<Longrightarrow> Q (f xs)"
  shows "yields Q (read_bind (read_count w what) (\<lambda>n. read_bind (read_times n m) (read_done \<circ> f)))"
proof (rule yields_bind [OF yields_count])
  fix n :: nat assume n: "n < 2 ^ 31"
  show "yields Q (read_bind (read_times n m) (read_done \<circ> f))"
    by (rule yields_map [OF yields_times [OF assms(2)]], rule assms(3)) (use n in blast)+
qed (use assms(1) in auto)

lemma yields_numbers:
  "yields (typed_as (Suc d) 1) (read_bind (read_signed 1 what) (read_done \<circ> NByte))"
  "yields (typed_as (Suc d) 2) (read_bind (read_signed 2 what) (read_done \<circ> NShort))"
  "yields (typed_as (Suc d) 3) (read_bind (read_signed 4 what) (read_done \<circ> NInt))"
  "yields (typed_as (Suc d) 4) (read_bind (read_signed 8 what) (read_done \<circ> NLong))"
  "yields (typed_as (Suc d) 5) (read_bind (read_unsigned 4 what) (read_done \<circ> NFloat))"
  "yields (typed_as (Suc d) 6) (read_bind (read_unsigned 8 what) (read_done \<circ> NDouble))"
  "yields (typed_as (Suc d) 8) (read_bind (read_string what) (read_done \<circ> NString))"
  by (rule yields_map [OF yields_signed] yields_map [OF yields_unsigned] yields_map [OF yields_string]; simp add: typed_as_def)+

lemma yields_arrays:
  "yields (typed_as (Suc d) 7) (read_bind (read_count 1 ''byte array'') (\<lambda>n. read_bind (take_bytes n ''byte array'') (read_done \<circ> NByteArray)))"
  "yields (typed_as (Suc d) 11) (read_bind (read_count 4 ''int array'') (\<lambda>n. read_bind (read_times n (read_signed 4 what)) (read_done \<circ> NIntArray)))"
  "yields (typed_as (Suc d) 12) (read_bind (read_count 8 ''long array'') (\<lambda>n. read_bind (read_times n (read_signed 8 what)) (read_done \<circ> NLongArray)))"
proof -
  show "yields (typed_as (Suc d) 7) (read_bind (read_count 1 ''byte array'') (\<lambda>n. read_bind (take_bytes n ''byte array'') (read_done \<circ> NByteArray)))"
    by (rule yields_bind [OF yields_count], simp, simp, rule yields_map [OF yields_take]) (simp add: typed_as_def)
  show "yields (typed_as (Suc d) 11) (read_bind (read_count 4 ''int array'') (\<lambda>n. read_bind (read_times n (read_signed 4 what)) (read_done \<circ> NIntArray)))"
    by (rule yields_ints [OF _ yields_signed]) (simp_all add: typed_as_def)
  show "yields (typed_as (Suc d) 12) (read_bind (read_count 8 ''long array'') (\<lambda>n. read_bind (read_times n (read_signed 8 what)) (read_done \<circ> NLongArray)))"
    by (rule yields_ints [OF _ yields_signed]) (simp_all add: typed_as_def)
qed

lemma typed_list: "n < 2 ^ 31 \<Longrightarrow> length xs = n \<and> list_all (typed_as d e) xs \<Longrightarrow> typed_as (Suc d) 9 (NList xs)"
  by (cases xs) (auto simp: typed_as_def list_all_iff)

lemma yields_list:
  assumes "yields (typed_as d e) (payload d e)" "n < 2 ^ 31"
  shows "yields (typed_as (Suc d) 9) (if e = 0 \<and> n \<noteq> 0 then corrupt ''non-empty list of end tags''
        else read_bind (read_times n (payload d e)) (read_done \<circ> NList))"
proof -
  have "yields (typed_as (Suc d) 9) (read_bind (read_times n (payload d e)) (read_done \<circ> NList))"
    by (rule yields_map [OF yields_times [OF assms(1)]]) (rule typed_list [OF assms(2)])
  then show ?thesis by (simp add: yields_corrupt)
qed

lemma yields_payload: "yields (typed_as d t) (payload d t)"
proof (induction d arbitrary: t)
  case (Suc d)
  have lists: "yields (typed_as (Suc d) 9) (read_bind (read_unsigned 1 ''list element type'') (\<lambda>e. read_bind (read_count 1 ''list'') (\<lambda>n.
        if e = 0 \<and> n \<noteq> 0 then corrupt ''non-empty list of end tags''
        else read_bind (read_times n (payload d e)) (read_done \<circ> NList))))"
    by (rule yields_bind [OF yields_unsigned], rule yields_bind [OF yields_count], simp, simp, rule yields_list [OF Suc.IH])
  have "yields (nbt_fits d) (payload d t)" for t
    by (rule yields_weaken [OF Suc.IH]) (simp add: typed_as_def)
  then have "yields (entries_fit d) (\<lambda>bs. read_entries (Suc (length bs)) (payload d) [] bs)"
    by (rule yields_entries)
  then have "yields (typed_as (Suc d) 10) (read_bind (\<lambda>bs. read_entries (Suc (length bs)) (payload d) [] bs) (read_done \<circ> NCompound))"
    by (rule yields_map) (simp add: typed_as_def entries_fit_def dict_all_def)
  then have comp: "yields (typed_as (Suc d) 10) (\<lambda>bs. read_bind (read_entries (Suc (length bs)) (payload d) []) (read_done \<circ> NCompound) bs)"
    by (simp only: read_bind_def [abs_def])
  have wrong: "yields (typed_as (Suc d) t) (corrupt ''unknown NBT tag type'')" for t
    by (rule yields_corrupt) simp
  show ?case
    unfolding payload.simps
    by (intro if_split [where P = "yields (typed_as (Suc d) t)", THEN iffD2] conjI impI; hypsubst?; rule yields_numbers yields_arrays lists comp wrong)
qed (simp add: yields_corrupt)

section \<open>Files\<close>

definition write_document :: "bytes \<Rightarrow> (bytes, nbt) dict \<Rightarrow> bytes" where
  "write_document name e = le_bytes 1 10 @ write_string name @ write_nbt (NCompound e)"

definition write_level_dat :: "int \<Rightarrow> bytes \<Rightarrow> (bytes, nbt) dict \<Rightarrow> bytes" where
  "write_level_dat version name e =
     write_int 4 version @ write_int 4 (int (length (write_document name e))) @ write_document name e"

lemma document_written:
  assumes "text_fits name" "nbt_fits 65 (NCompound e)"
  shows "read_document (write_document name e) = Inr ((name, NCompound e), [])"
proof -
  have "read_unsigned 1 q (le_bytes 1 10 @ r) = Inr (10, r)" for q r
    by (rule unsigned_written) simp
  moreover have "payload 65 10 (write_nbt (NCompound e)) = Inr (NCompound e, [])"
    using payload_written [OF assms(2), of "[]"] by (simp del: write_nbt.simps)
  ultimately show ?thesis
    using assms(1) unfolding read_document_def write_document_def
    by (simp add: read_bind_def read_done_def del: write_nbt.simps le_bytes.simps One_nat_def)
qed

lemma int_read_back: "k \<noteq> 0 \<Longrightarrow> in_range k i \<Longrightarrow> signed k (le_value (write_int k i)) = i"
  by (simp add: write_int_def write_bound signed_written)

lemma length_write_int [simp]: "length (write_int k i) = k"
  by (simp add: write_int_def)

lemma nbt_fits_mono: "nbt_fits d v \<Longrightarrow> d \<le> d' \<Longrightarrow> nbt_fits d' v"
proof (induction d arbitrary: d' v)
  case (Suc d)
  then obtain c where c: "d' = Suc c" "d \<le> c" by (cases d') auto
  have "nbt_fits d x \<Longrightarrow> nbt_fits c x" for x using Suc.IH c by blast
  then show ?case using Suc.prems(1) by (cases v) (auto simp: c list_all_iff)
qed simp

lemma level_dat_written:
  assumes "in_range 4 version" "text_fits name" "nbt_fits 65 (NCompound e)" "length (write_document name e) < 2 ^ 31"
  shows "parse_level_dat (write_level_dat version name e) = Inr (summarise version e)"
proof -
  have size: "in_range 4 (int (length (write_document name e)))" using assms(4) by (simp add: in_range_def)
  show ?thesis
    unfolding parse_level_dat_def write_level_dat_def
    by (simp add: int_read_back size assms(1) document_written [OF assms(2,3)] Let_def)
qed

text \<open>C32: What a \<open>level.dat\<close> says is what is read from it: a file written as the format has it, a document of at most
  64 nested levels whose numbers, texts and lists fit their fields, is accepted and summarised, whatever its flags.\<close>

theorem level_dat_is_read_back:
  "in_range 4 version \<Longrightarrow> text_fits name \<Longrightarrow> nbt_fits 65 (NCompound e) \<Longrightarrow> length (write_document name e) < 2 ^ 31 \<Longrightarrow>
   parse_level_dat (write_level_dat version name e) = Inr (summarise version e)"
  by (rule level_dat_written)

lemma level_dat_is_read_back_witness:
  "parse_level_dat (write_level_dat 10 [97] [([98], NByte 1), ([99], NList [NShort (- 2)])])
   = Inr (summarise 10 [([98], NByte 1), ([99], NList [NShort (- 2)])])"
proof (rule level_dat_is_read_back)
  show "in_range 4 10" by (simp add: in_range_def)
  show "text_fits [97]" by (simp add: text_fits_def between_def)
  show "nbt_fits 65 (NCompound [([98], NByte 1), ([99], NList [NShort (- 2)])])"
    by (rule nbt_fits_mono [of "Suc (Suc (Suc 0))"]) (simp_all add: text_fits_def between_def in_range_def)
  show "length (write_document [97] [([98], NByte 1), ([99], NList [NShort (- 2)])]) < 2 ^ 31"
    by (simp add: write_document_def write_string_def)
qed

text \<open>C33: A tag that is read is a value of the type its tag number names, within the width of its field, its texts
  UTF-8, the elements of a list of one type, the names of a compound distinct, and nested no deeper than the levels left.\<close>

theorem payload_is_typed:
  "case payload d t bs of Inl e \<Rightarrow> True | Inr (v, rest) \<Rightarrow> nbt_fits d v \<and> tag_of v = t \<and> length rest \<le> length bs"
  using yieldsD [OF yields_payload, of d t bs] by (simp add: typed_as_def split: sum.split prod.split)

text \<open>A \<open>level.dat\<close> that was cut short is never taken for a whole one: of a file that is accepted every shorter
  beginning is refused, so a half-written file cannot pass for a world without history flags.\<close>

theorem cut_level_dat_is_refused:
  "parse_level_dat bs = Inr l \<Longrightarrow> n < length bs \<Longrightarrow> \<exists>why. parse_level_dat (take n bs) = Inl why"
  unfolding parse_level_dat_def by (auto simp: Let_def min_def drop_take split: if_splits)

lemma cut_level_dat_is_refused_witness:
  "\<exists>why. parse_level_dat (take 9 (write_level_dat 10 [] [])) = Inl why"
  proof (rule cut_level_dat_is_refused)
  show "parse_level_dat (write_level_dat 10 [] []) = Inr (summarise 10 [])"
    by (rule level_dat_written, simp add: in_range_def, simp add: text_fits_def, rule nbt_fits_mono [of "Suc 0"])
      (simp_all add: write_document_def write_string_def)
  show "9 < length (write_level_dat 10 [] [])"
    by (simp add: write_level_dat_def write_document_def write_string_def)
qed

text \<open>The parse ends by itself: the loop over a compound is never stopped by its count of rounds.\<close>

lemma parse_never_out_of_rounds: "parse_level_dat bs \<noteq> Inl no_rounds"
proof -
  have "yields (\<lambda>_. True) read_document"
    unfolding read_document_def
  proof (rule yields_bind [OF yields_unsigned])
    fix t :: nat
    have "yields (\<lambda>_. True) (read_bind (read_string ''root tag name'') (\<lambda>name. read_bind (payload 65 t) (\<lambda>v. read_done (name, v))))"
      by (rule yields_bind [OF yields_string], rule yields_bind [OF yields_payload], rule yields_done) simp
    then show "yields (\<lambda>_. True) (if t \<noteq> 10 then corrupt ''root tag must be a compound''
       else read_bind (read_string ''root tag name'') (\<lambda>name. read_bind (payload 65 t) (\<lambda>v. read_done (name, v))))"
      by (auto simp: yields_corrupt)
  qed
  from yields_no_rounds [OF this, of "drop 8 bs"] show ?thesis
    by (auto simp: parse_level_dat_def no_rounds_def Let_def split: sum.split)
qed

text \<open>A flag of the \<open>experiments\<close> compound masks the flag of the same name at the root: a set root flag is not reported.\<close>

lemma masked_experiment:
  "unsafe_flags (summarise 10 [(ascii ''experiments'', NCompound [(ascii ''experiments_ever_used'', NByte 0)]), (ascii ''experiments_ever_used'', NByte 1)]) = []"
  by code_simp

lemma unmasked_experiment:
  "unsafe_flags (summarise 10 [(ascii ''experiments_ever_used'', NByte 1)]) = [''experiments_ever_used'']"
  by code_simp

end
