(* ===== verification/Server_Properties.thy ===== *)
theory Server_Properties
  imports Text_Lines
begin

text \<open>
  The server's \<open>server.properties\<close>, \<open>endbot_cli/properties.py\<close>: the parser, the two checks of the settings
  achievements depend on, and the editor of \<open>endbot setup\<close>. A file is its text with or without a byte order mark, or
  missing. A \<open>PreflightError\<close> is a \<open>ValueError\<close> whose text has the line number and leaves out the path and the offending value.
\<close>

section \<open>Reading\<close>

definition no_equals :: "string \<Rightarrow> bool" where
  "no_equals s \<longleftrightarrow> CHR ''='' \<notin> set s"

text \<open>\<open>line.split("=", 1)\<close> of a line with the sign.\<close>

definition before_equals :: "string \<Rightarrow> string" where
  "before_equals s = takeWhile (\<lambda>c. c \<noteq> CHR ''='') s"

definition after_equals :: "string \<Rightarrow> string" where
  "after_equals s = tl (dropWhile (\<lambda>c. c \<noteq> CHR ''='') s)"

definition line_error :: "nat \<Rightarrow> string \<Rightarrow> py_error" where
  "line_error n why = ValueError (show_nat n @ '': '' @ why)"

fun parse_lines :: "nat \<Rightarrow> (string, string) dict \<Rightarrow> string list \<Rightarrow> py_error + (string, string) dict" where
  "parse_lines n props [] = Inr props"
| "parse_lines n props (raw # rest) =
     (let line = strip raw in
      if line = [] \<or> starts_with ''#'' line then parse_lines (Suc n) props rest
      else if no_equals line then Inl (line_error n ''expected key=value'')
      else let k = strip (before_equals line); v = strip (after_equals line) in
        if k = [] then Inl (line_error n ''empty property name'')
        else if k \<in> set (keys props) then Inl (line_error n ''duplicate property'')
        else parse_lines (Suc n) (dict_set k v props) rest)"

definition parse_properties :: "string \<Rightarrow> py_error + (string, string) dict" where
  "parse_properties s = parse_lines 1 [] (splitlines (unix_newlines s))"

definition required_properties :: "(string, string) dict" where
  "required_properties = [(''online-mode'', ''true''), (''allow-cheats'', ''false'')]"

definition verify_property :: "(string, string) dict \<Rightarrow> string \<times> string \<Rightarrow> py_error + string" where
  "verify_property props r = (case map_of props (fst r) of
     None \<Rightarrow> Inl (ValueError (''required property '' @ fst r @ '' is missing''))
   | Some v \<Rightarrow> if casefold v \<noteq> snd r then Inl (ValueError (fst r @ '' must be '' @ snd r))
     else Inr (''PASS '' @ fst r @ ''='' @ snd r))"

definition verify_server_properties :: "string \<Rightarrow> py_error + string list" where
  "verify_server_properties s = ebind (parse_properties s) (\<lambda>props. emap (verify_property props) required_properties)"

definition transports :: "string list" where
  "transports = [''nethernet'']"

definition verify_runtime_properties :: "string \<Rightarrow> string \<Rightarrow> py_error + string list" where
  "verify_runtime_properties transport s =
     (if transport \<notin> set transports then Inl (ValueError ''unsupported Endbot transport; BDS 1.26.60 accepts only nethernet'')
      else ebind (parse_properties s) (\<lambda>props. case map_of props ''transport'' of
        None \<Rightarrow> Inl (ValueError ''required property 'transport' is missing'')
      | Some v \<Rightarrow> if casefold v \<noteq> transport then Inl (ValueError (''transport must be '' @ transport))
        else Inr [''PASS transport='' @ transport]))"

section \<open>Editing\<close>

text \<open>The regular expression finds a line's end at its end; a line that \<open>splitlines\<close> cut has no second one.\<close>

definition split_ending :: "string \<Rightarrow> string \<times> string" where
  "split_ending line =
     (if 2 \<le> length line \<and> drop (length line - 2) line = [CHR 0x0D, CHR 0x0A] then (take (length line - 2) line, [CHR 0x0D, CHR 0x0A])
      else if line \<noteq> [] \<and> last line \<in> {CHR 0x0A, CHR 0x0D} then (butlast line, [last line])
      else (line, []))"

datatype edit_message =
    Already string string
  | Changed string string string
  | Added string string

record edit =
  edited :: "string list"
  changed :: "(string, string) dict"
  messages :: "edit_message list"

definition property_line :: "string \<Rightarrow> bool" where
  "property_line body \<longleftrightarrow> (let s = strip body in s \<noteq> [] \<and> \<not> starts_with ''#'' s \<and> \<not> starts_with ''!'' s \<and> \<not> no_equals body)"

definition edit_line :: "(string, string) dict \<Rightarrow> string \<Rightarrow> edit \<Rightarrow> edit" where
  "edit_line updates line e =
     (let body = fst (split_ending line); ending = snd (split_ending line); k = strip (before_equals body) in
      if \<not> property_line body then e\<lparr>edited := edited e @ [line]\<rparr>
      else case map_of updates k of
        None \<Rightarrow> e\<lparr>edited := edited e @ [line]\<rparr>
      | Some wanted \<Rightarrow>
        if k \<in> set (keys (changed e)) then e\<lparr>edited := edited e @ [line]\<rparr>
        else let old = after_equals body in
          if strip old = wanted then
            e\<lparr>edited := edited e @ [line], changed := dict_set k wanted (changed e), messages := messages e @ [Already k wanted]\<rparr>
          else let new = before_equals body @ ''='' @ takeWhile is_space old @ wanted @ ending in
            e\<lparr>edited := edited e @ [new], changed := dict_set k wanted (changed e), messages := messages e @ [Changed k wanted (strip old)]\<rparr>)"

definition edit_lines :: "(string, string) dict \<Rightarrow> string list \<Rightarrow> edit" where
  "edit_lines updates ls = fold (edit_line updates) ls \<lparr>edited = [], changed = [], messages = []\<rparr>"

definition missing_updates :: "(string, string) dict \<Rightarrow> (string, string) dict \<Rightarrow> (string, string) dict" where
  "missing_updates updates done = filter (\<lambda>x. fst x \<notin> set (keys done)) updates"

definition added_text :: "(string, string) dict \<Rightarrow> string" where
  "added_text xs = concat (map (\<lambda>x. fst x @ ''='' @ snd x @ [CHR 0x0A]) xs)"

definition edit_text :: "(string, string) dict \<Rightarrow> string \<Rightarrow> string \<times> edit_message list" where
  "edit_text updates s =
     (let e = edit_lines updates (keepends s); missing = missing_updates updates (changed e); new = concat (edited e) in
      (new @ (if missing \<noteq> [] \<and> ends_open new then [CHR 0x0A] else []) @ added_text missing,
       messages e @ map (\<lambda>x. Added (fst x) (snd x)) missing))"

text \<open>The file is written when its text changes or there is none; its byte order mark stays.\<close>

definition edit_properties :: "(string, string) dict \<Rightarrow> (bool \<times> string) option \<Rightarrow> edit_message list \<times> (bool \<times> string) option" where
  "edit_properties updates f = (case f of
     None \<Rightarrow> let (new, ms) = edit_text updates [] in (ms, Some (False, new))
   | Some (bom, s) \<Rightarrow> let (new, ms) = edit_text updates s in (ms, if new \<noteq> s then Some (bom, new) else f))"

definition safety_updates :: "(string, string) dict" where
  "safety_updates = [(''online-mode'', ''true''), (''allow-cheats'', ''false'')]"

definition setup_updates :: "string \<Rightarrow> (string, string) dict" where
  "setup_updates transport = safety_updates @ [(''transport'', transport)]"

text \<open>A line that a vertical tab ends is glued to the next when its value is set; a line with \<open>!\<close> is kept by the editor and refused by the parser.\<close>

lemma glued_lines:
  "edit_text [(''online-mode'', ''true'')] (''online-mode=false'' @ [CHR 0x0B] @ ''allow-cheats=false'' @ [CHR 0x0A]) =
   (''online-mode=trueallow-cheats=false'' @ [CHR 0x0A], [Changed ''online-mode'' ''true'' ''false''])"
  by code_simp

lemma bang_comment:
  "edit_text [(''online-mode'', ''true'')] (''! kept'' @ [CHR 0x0A] @ ''online-mode=true'' @ [CHR 0x0A]) =
     (''! kept'' @ [CHR 0x0A] @ ''online-mode=true'' @ [CHR 0x0A], [Already ''online-mode'' ''true''])"
  "parse_properties (''! kept'' @ [CHR 0x0A] @ ''online-mode=true'' @ [CHR 0x0A]) = Inl (ValueError ''1: expected key=value'')"
  by code_simp+

section \<open>Lines with an equals sign\<close>

lemma not_space_equals: "\<not> is_space (CHR ''='')"
  by (simp add: is_space_def code_def)

lemma equals_form: "\<not> no_equals b \<Longrightarrow> b = before_equals b @ CHR ''='' # after_equals b"
  unfolding no_equals_def before_equals_def after_equals_def
  by (induction b) auto

lemma no_equals_before: "no_equals (before_equals b)"
  by (auto simp: no_equals_def before_equals_def dest: set_takeWhileD)

lemma parts_of_line [simp]:
  "no_equals p \<Longrightarrow> before_equals (p @ CHR ''='' # q) = p"
  "no_equals p \<Longrightarrow> after_equals (p @ CHR ''='' # q) = q"
  "\<not> no_equals (p @ CHR ''='' # q)"
  by (auto simp: no_equals_def before_equals_def after_equals_def takeWhile_append dropWhile_append)

definition rstrip :: "string \<Rightarrow> string" where
  "rstrip q = rev (dropWhile is_space (rev q))"

lemma dropWhile_stop: "\<not> P x \<Longrightarrow> dropWhile P (xs @ x # ys) = dropWhile P xs @ x # ys"
  by (induction xs) auto

lemma strip_line: "strip (p @ CHR ''='' # q) = dropWhile is_space p @ CHR ''='' # rstrip q"
  by (simp add: strip_def strip_by_def rstrip_def dropWhile_stop not_space_equals)

lemma dropWhile_idem: "dropWhile P (dropWhile P xs) = dropWhile P xs"
  by (induction xs) auto

lemma strip_lstrip: "strip (dropWhile is_space p) = strip p"
  by (simp add: strip_def strip_by_def dropWhile_idem)

lemma rev_dropWhile_rev: "dropWhile P (rev (dropWhile P (rev xs))) = rev (dropWhile P (rev (dropWhile P xs)))"
proof (induction xs)
  case (Cons x xs)
  show ?case
  proof (cases "\<forall>y \<in> set xs. P y")
    case True
    then show ?thesis by (auto simp: dropWhile_append dest: set_dropWhileD)
  next
    case False
    then have "dropWhile P (rev (x # xs)) = dropWhile P (rev xs) @ [x]" by (auto simp: dropWhile_append)
    then show ?thesis using Cons False by auto
  qed
qed simp

lemma strip_rstrip: "strip (rstrip q) = strip q"
  unfolding strip_def strip_by_def rstrip_def by (simp add: rev_dropWhile_rev dropWhile_idem)

lemma no_equals_strip: "no_equals (strip b) = no_equals b"
proof
  show "no_equals (strip b)" if "no_equals b"
    using that set_strip_by [of is_space b] by (auto simp: no_equals_def strip_def)
  show "no_equals b" if "no_equals (strip b)"
  proof (rule ccontr)
    assume "\<not> no_equals b"
    from equals_form [OF this] have "strip b = dropWhile is_space (before_equals b) @ CHR ''='' # rstrip (after_equals b)"
      using strip_line by metis
    with that show False by simp
  qed
qed

lemma no_equals_lstrip: "no_equals p \<Longrightarrow> no_equals (dropWhile is_space p)"
  by (auto simp: no_equals_def dest: set_dropWhileD)

definition leads :: "char \<Rightarrow> string \<Rightarrow> bool" where
  "leads c p \<longleftrightarrow> dropWhile is_space p \<noteq> [] \<and> hd (dropWhile is_space p) = c"

lemma starts_line: "c \<noteq> CHR ''='' \<Longrightarrow> starts_with [c] (strip (p @ CHR ''='' # q)) = leads c p"
  unfolding strip_line by (cases "dropWhile is_space p") (simp_all add: starts_with_def leads_def del: dropWhile_eq_Nil_conv)

lemma leads_hd: "strip p \<noteq> [] \<Longrightarrow> leads c p \<longleftrightarrow> hd (strip p) = c"
proof -
  assume p: "strip p \<noteq> []"
  obtain v where v: "dropWhile is_space p = strip p @ v" using strip_by_split [of is_space p] by (auto simp: strip_def)
  with p show ?thesis by (simp add: leads_def)
qed

section \<open>What is read of a line\<close>

definition comment :: "string \<Rightarrow> bool" where
  "comment b \<longleftrightarrow> strip b = [] \<or> starts_with ''#'' (strip b)"

lemma parse_comment: "comment b \<Longrightarrow> parse_lines n d (b # rest) = parse_lines (Suc n) d rest"
  by (auto simp: comment_def Let_def)

lemma parse_entry:
  "no_equals p \<Longrightarrow> \<not> leads (CHR ''#'') p \<Longrightarrow> strip p \<noteq> [] \<Longrightarrow> strip p \<notin> set (keys d) \<Longrightarrow>
   parse_lines n d ((p @ CHR ''='' # q) # rest) = parse_lines (Suc n) (d @ [(strip p, strip q)]) rest"
  using starts_line [of "CHR ''#''" p q]
  by (auto simp: Let_def strip_line no_equals_lstrip strip_lstrip strip_rstrip dict_set_fresh)

lemma parse_lines_cases:
  assumes "parse_lines n d (b # rest) = Inr d'"
  obtains (comment) "comment b" "parse_lines (Suc n) d rest = Inr d'"
  | (entry) p q where "b = p @ CHR ''='' # q" "no_equals p" "\<not> leads (CHR ''#'') p" "strip p \<noteq> []" "strip p \<notin> set (keys d)"
      "parse_lines (Suc n) (d @ [(strip p, strip q)]) rest = Inr d'"
proof (cases "comment b")
  case True
  then show thesis using assms comment parse_comment by metis
next
  case False
  then have "\<not> no_equals b" using assms no_equals_strip by (auto simp: comment_def Let_def)
  then obtain p q where b: "b = p @ CHR ''='' # q" "no_equals p" using equals_form no_equals_before by metis
  have h: "\<not> leads (CHR ''#'') p" using False starts_line [of "CHR ''#''" p q] by (simp add: comment_def b)
  have "strip p \<noteq> []" "strip p \<notin> set (keys d)"
    using assms False by (auto simp: b comment_def Let_def strip_line no_equals_lstrip strip_lstrip b(2) split: if_splits)
  then show thesis using entry [OF b h] assms parse_entry [OF b(2) h] by (simp add: b)
qed

lemma parse_append: "parse_lines n d xs = Inr d' \<Longrightarrow> parse_lines n d (xs @ ys) = parse_lines (n + length xs) d' ys"
proof (induction xs arbitrary: n d)
  case (Cons b xs)
  show ?case
    using Cons.prems
  proof (cases rule: parse_lines_cases)
    case comment
    then show ?thesis using Cons.IH [OF comment(2)] parse_comment by simp
  next
    case (entry p q)
    then show ?thesis using Cons.IH [OF entry(6)] parse_entry [OF entry(2-5)] by simp
  qed
qed simp

lemma parse_distinct: "parse_lines n d xs = Inr d' \<Longrightarrow> distinct (keys d) \<Longrightarrow> distinct (keys d')"
proof (induction xs arbitrary: n d)
  case (Cons b xs)
  show ?case
    using Cons.prems(1)
  proof (cases rule: parse_lines_cases)
    case comment
    then show ?thesis using Cons by blast
  next
    case (entry p q)
    then show ?thesis using Cons.IH [OF entry(6)] Cons.prems(2) by simp
  qed
qed simp

section \<open>What an edit does to a line\<close>

definition wf_update :: "string \<times> string \<Rightarrow> bool" where
  "wf_update x \<longleftrightarrow> (let k = fst x; w = snd x in k \<noteq> [] \<and> strip k = k \<and> no_equals k \<and> one_line k \<and> hd k \<noteq> CHR ''#'' \<and> hd k \<noteq> CHR ''!'' \<and>
     one_line w \<and> strip w = w)"

definition wf_updates :: "(string, string) dict \<Rightarrow> bool" where
  "wf_updates u \<longleftrightarrow> distinct (keys u) \<and> list_all wf_update u"

definition line_key :: "string \<Rightarrow> string" where
  "line_key b = strip (before_equals b)"

definition new_body :: "(string, string) dict \<Rightarrow> string list \<Rightarrow> string \<Rightarrow> string" where
  "new_body u done b = (if \<not> property_line b \<or> line_key b \<in> set done then b else case map_of u (line_key b) of
     None \<Rightarrow> b
   | Some w \<Rightarrow> if strip (after_equals b) = w then b else before_equals b @ ''='' @ takeWhile is_space (after_equals b) @ w)"

definition mark :: "(string, string) dict \<Rightarrow> string list \<Rightarrow> string \<Rightarrow> string list" where
  "mark u done b = (if property_line b \<and> line_key b \<notin> set done \<and> map_of u (line_key b) \<noteq> None then done @ [line_key b] else done)"

lemma split_ending_part: "one_line b \<Longrightarrow> plain_end en \<Longrightarrow> split_ending (b @ en) = (b, en)"
proof -
  assume b: "one_line b" "plain_end en"
  have "b \<noteq> [] \<Longrightarrow> \<not> ends_line (last b)" using b(1) last_in_set [of b] by (simp add: one_line_def list_all_iff)
  then have l: "b \<noteq> [] \<Longrightarrow> last b \<noteq> CHR 0x0A \<and> last b \<noteq> CHR 0x0D" using lf_cr_end by metis
  have crlf: "drop (length b - 1) (b @ [c]) = [CHR 0x0D, CHR 0x0A] \<Longrightarrow> b \<noteq> [] \<Longrightarrow> False" for c
    using l by (cases b rule: rev_cases) auto
  have two: "2 \<le> length b \<Longrightarrow> drop (length b - 2) b = [CHR 0x0D, CHR 0x0A] \<Longrightarrow> False"
  proof -
    assume d: "2 \<le> length b" "drop (length b - 2) b = [CHR 0x0D, CHR 0x0A]"
    then have "last b = CHR 0x0A" by (metis append_take_drop_id last_ConsL last_ConsR last_appendR list.distinct(1))
    moreover have "b \<noteq> []" using d(1) by auto
    ultimately show False using l by simp
  qed
  show ?thesis
    using b(2) l crlf two by (auto simp: plain_end_def split_ending_def Suc_le_eq)
qed

lemma edit_line_part:
  assumes "one_line (fst p)" "plain_end (snd p)"
  shows "edited (edit_line u (fst p @ snd p) e) = edited e @ [new_body u (keys (changed e)) (fst p) @ snd p]"
    and "keys (changed (edit_line u (fst p @ snd p) e)) = mark u (keys (changed e)) (fst p)"
  using split_ending_part [OF assms]
  by (auto simp: edit_line_def new_body_def mark_def line_key_def Let_def dict_set_fresh split: option.split)

fun new_parts :: "(string, string) dict \<Rightarrow> string list \<Rightarrow> (string \<times> string) list \<Rightarrow> (string \<times> string) list" where
  "new_parts u done [] = []"
| "new_parts u done (p # ps) = (new_body u done (fst p), snd p) # new_parts u (mark u done (fst p)) ps"

lemma edit_lines_parts:
  "well_cut ps \<Longrightarrow> edited (fold (edit_line u) (map (\<lambda>p. fst p @ snd p) ps) e) = edited e @ map (\<lambda>p. fst p @ snd p) (new_parts u (keys (changed e)) ps)
    \<and> keys (changed (fold (edit_line u) (map (\<lambda>p. fst p @ snd p) ps) e)) = foldl (mark u) (keys (changed e)) (map fst ps)"
proof (induction ps arbitrary: e)
  case (Cons p ps)
  then have "one_line (fst p)" "plain_end (snd p)" "well_cut ps" by simp_all
  with Cons.IH [of "edit_line u (fst p @ snd p) e"] show ?case by (simp add: edit_line_part)
qed simp

lemma property_line_nonempty: "property_line b \<Longrightarrow> b \<noteq> [] \<and> \<not> no_equals b"
  by (auto simp: property_line_def Let_def strip_def strip_by_def)

lemma one_line_append [simp]: "one_line (xs @ ys) = (one_line xs \<and> one_line ys)"
  by (simp add: one_line_def)

lemma one_line_Cons [simp]: "one_line (c # s) = (\<not> ends_line c \<and> one_line s)"
  by (simp add: one_line_def)

lemma equals_ends_none [simp]: "\<not> ends_line (CHR ''='')"
  by (simp add: ends_line_def code_def)

lemma one_line_takeWhile: "one_line xs \<Longrightarrow> one_line (takeWhile P xs)"
  by (auto simp: one_line_def list_all_iff dest: set_takeWhileD)

lemma new_body_line:
  assumes "wf_updates u" "one_line b"
  shows "one_line (new_body u done b)" "new_body u done b = [] \<longleftrightarrow> b = []"
proof -
  show "new_body u done b = [] \<longleftrightarrow> b = []"
    using property_line_nonempty [of b] by (auto simp: new_body_def split: option.split)
  show "one_line (new_body u done b)"
  proof (cases "property_line b \<and> (\<exists>w. map_of u (line_key b) = Some w)")
    case True
    then obtain w where w: "property_line b" "map_of u (line_key b) = Some w" by blast
    then have "one_line w" using assms(1) by (auto simp: wf_updates_def wf_update_def Let_def list_all_iff dest: map_of_SomeD)
    moreover have "one_line (before_equals b)" "one_line (after_equals b)"
      using assms(2) equals_form [of b] property_line_nonempty [OF w(1)]
      by (metis one_line_append one_line_Cons)+
    ultimately show ?thesis using w assms(2) by (auto simp: new_body_def one_line_takeWhile)
  qed (use assms(2) in \<open>auto simp: new_body_def split: option.split\<close>)
qed

lemma new_parts_cut: "wf_updates u \<Longrightarrow> well_cut ps \<Longrightarrow> well_cut (new_parts u done ps)"
proof (induction ps arbitrary: "done")
  case (Cons p ps)
  have "starts_lf (new_parts u d ps) \<Longrightarrow> well_cut ps \<Longrightarrow> starts_lf ps" for d
    using Cons.prems(1) new_body_line(2) [of u] by (cases ps) (auto simp: starts_lf_def)
  then show ?case using Cons new_body_line [of u "fst p"] by auto
qed simp

section \<open>What is read of an edited file\<close>

definition apply_updates :: "(string, string) dict \<Rightarrow> (string, string) dict \<Rightarrow> (string, string) dict" where
  "apply_updates u d = map (\<lambda>x. (fst x, dict_get u (fst x) (snd x))) d"

text \<open>The updates as Python's \<open>d.update(updates)\<close>.\<close>

definition set_all :: "(string, string) dict \<Rightarrow> (string, string) dict \<Rightarrow> (string, string) dict" where
  "set_all u d = fold (\<lambda>x. dict_set (fst x) (snd x)) u d"

lemma keys_apply [simp]: "keys (apply_updates u d) = keys d"
  by (simp add: apply_updates_def comp_def)

lemma dict_set_there: "distinct (keys d) \<Longrightarrow> k \<in> set (keys d) \<Longrightarrow> dict_set k w d = map (\<lambda>x. (fst x, if fst x = k then w else snd x)) d"
proof (induction d)
  case (Cons x d)
  have "fst y \<noteq> k" if "fst x = k" "y \<in> set d" for y
    using Cons.prems(1) that by (auto simp: image_iff)
  then have "map (\<lambda>x. (fst x, if fst x = k then w else snd x)) d = d" if "fst x = k"
    using that by (intro map_idI) auto
  with Cons show ?case by (cases x) auto
qed simp

lemma set_all_apply:
  "distinct (keys u) \<Longrightarrow> distinct (keys d) \<Longrightarrow> set_all u d = apply_updates u d @ missing_updates u d"
proof (induction u arbitrary: d)
  case Nil
  then show ?case by (simp add: set_all_def apply_updates_def missing_updates_def dict_get_def)
next
  case (Cons x u)
  obtain k w where x: "x = (k, w)" by (cases x)
  have u: "distinct (keys u)" "map_of u k = None" using Cons.prems(1) by (auto simp: x map_of_eq_None_iff)
  have eq: "set_all (x # u) d = apply_updates u (dict_set k w d) @ missing_updates u (dict_set k w d)"
    using Cons.IH [OF u(1) distinct_dict_set [OF Cons.prems(2)]] by (simp add: set_all_def x)
  show ?case
  proof (cases "k \<in> set (keys d)")
    case True
    have "set (keys (dict_set k w d)) = set (keys d)" using True by (simp add: dict_set_there [OF Cons.prems(2)] comp_def)
    moreover have "apply_updates u (dict_set k w d) = apply_updates (x # u) d"
      using u(2) by (auto simp: dict_set_there [OF Cons.prems(2) True] apply_updates_def dict_get_def x split: option.split)
    ultimately show ?thesis using eq True by (simp add: missing_updates_def x)
  next
    case False
    have "filter (\<lambda>y. fst y \<notin> set (keys (d @ [(k, w)]))) u = filter (\<lambda>y. fst y \<notin> set (keys d)) u"
      using u(2) by (intro filter_cong) (auto simp: map_of_eq_None_iff image_iff)
    moreover have "apply_updates u (d @ [(k, w)]) = apply_updates (x # u) d @ [(k, w)]"
    proof -
      have "dict_get u (fst y) (snd y) = dict_get (x # u) (fst y) (snd y)" if "y \<in> set d" for y
        using False that by (auto simp: dict_get_def x)
      then show ?thesis using u(2) by (simp add: apply_updates_def dict_get_def)
    qed
    ultimately show ?thesis using eq False by (simp add: dict_set_fresh missing_updates_def x)
  qed
qed

lemma wf_update_of: "wf_updates u \<Longrightarrow> map_of u k = Some w \<Longrightarrow> wf_update (k, w)"
  by (auto simp: wf_updates_def list_all_iff dest: map_of_SomeD)

lemma comment_kept: "comment b \<Longrightarrow> new_body u done b = b \<and> mark u done b = done"
  by (auto simp: comment_def property_line_def new_body_def mark_def Let_def)

lemma property_line_entry:
  "no_equals p \<Longrightarrow> \<not> leads (CHR ''#'') p \<Longrightarrow> strip p \<noteq> [] \<Longrightarrow> property_line (p @ CHR ''='' # q) = (hd (strip p) \<noteq> CHR ''!'')"
  using starts_line [of "CHR ''#''" p q] starts_line [of "CHR ''!''" p q] leads_hd [of p "CHR ''!''"]
  by (auto simp: property_line_def Let_def strip_line)

lemma strip_spaces: "strip w = w \<Longrightarrow> strip (takeWhile is_space q @ w) = w"
proof -
  assume w: "strip w = w"
  have "dropWhile is_space (takeWhile is_space q @ w) = dropWhile is_space w"
    by (induction q) auto
  then have "strip (takeWhile is_space q @ w) = strip w" by (simp add: strip_def strip_by_def)
  with w show ?thesis by simp
qed

text \<open>One entry: the line the editor writes is read as the updated entry.\<close>

lemma entry_edited:
  assumes u: "wf_updates u" and p: "no_equals p" "\<not> leads (CHR ''#'') p" "strip p \<noteq> []" "strip p \<notin> set done"
  obtains q' where "new_body u done (p @ CHR ''='' # q) = p @ CHR ''='' # q'" "strip q' = dict_get u (strip p) (strip q)"
    "set (mark u done (p @ CHR ''='' # q)) = set done \<union> ({strip p} \<inter> set (keys u))"
proof (cases "map_of u (strip p)")
  case None
  then have "strip p \<notin> set (keys u)" by (simp add: map_of_eq_None_iff)
  with None p show thesis
    by (intro that [of q]) (auto simp: new_body_def mark_def line_key_def dict_get_def)
next
  case (Some w)
  have w: "strip w = w" "hd (strip p) \<noteq> CHR ''!''" using wf_update_of [OF u Some] by (simp_all add: wf_update_def Let_def)
  have line: "property_line (p @ CHR ''='' # q)" using property_line_entry [OF p(1-3)] w(2) by simp
  have "strip p \<in> set (keys u)" using Some by (metis map_of_eq_None_iff option.distinct(1) list.set_map)
  with line p Some show thesis
    by (intro that [of "if strip q = w then q else takeWhile is_space q @ w"])
      (auto simp: new_body_def mark_def line_key_def dict_get_def strip_spaces w(1))
qed

lemma edited_entries:
  assumes "wf_updates u"
  shows "parse_lines n d (map fst ps) = Inr d' \<Longrightarrow> set done = set (keys d) \<inter> set (keys u) \<Longrightarrow>
    parse_lines n (apply_updates u d) (map fst (new_parts u done ps)) = Inr (apply_updates u d') \<and>
    set (foldl (mark u) done (map fst ps)) = set (keys d') \<inter> set (keys u)"
proof (induction ps arbitrary: n d "done")
  case (Cons b ps)
  have lines: "parse_lines n d (fst b # map fst ps) = Inr d'" using Cons.prems(1) by simp
  then show ?case
  proof (cases rule: parse_lines_cases)
    case comment
    then show ?thesis using Cons.IH [OF comment(2) Cons.prems(2)] comment_kept [OF comment(1)] parse_comment by simp
  next
    case (entry p q)
    have "strip p \<notin> set done" using entry(5) Cons.prems(2) by simp
    from entry_edited [OF assms entry(2-4) this, of q] obtain q' where q':
      "new_body u done (fst b) = p @ CHR ''='' # q'" "strip q' = dict_get u (strip p) (strip q)"
      "set (mark u done (fst b)) = set done \<union> ({strip p} \<inter> set (keys u))" unfolding entry(1) by metis
    have "set (mark u done (fst b)) = set (keys (d @ [(strip p, strip q)])) \<inter> set (keys u)"
      using q'(3) Cons.prems(2) by auto
    from Cons.IH [OF entry(6) this] show ?thesis
      using parse_entry [OF entry(2-4), of "apply_updates u d"] entry(5) q'(1,2)
      by (simp add: apply_updates_def)
  qed
qed simp

lemma added_entries:
  "list_all wf_update xs \<Longrightarrow> distinct (keys d @ keys xs) \<Longrightarrow>
   parse_lines n d (map (\<lambda>x. fst x @ ''='' @ snd x) xs) = Inr (d @ xs)"
proof (induction xs arbitrary: n d)
  case (Cons x xs)
  then have x: "no_equals (fst x)" "strip (fst x) = fst x" "fst x \<noteq> []" "hd (fst x) \<noteq> CHR ''#''" "strip (snd x) = snd x"
    by (simp_all add: wf_update_def Let_def)
  then have "\<not> leads (CHR ''#'') (fst x)" using leads_hd [of "fst x"] by simp
  with parse_entry [of "fst x" d n "snd x"] x Cons show ?case by simp
qed simp

definition added_parts :: "(string, string) dict \<Rightarrow> (string \<times> string) list" where
  "added_parts xs = map (\<lambda>x. (fst x @ ''='' @ snd x, [CHR 0x0A])) xs"

lemma added_cut: "list_all wf_update xs \<Longrightarrow> well_cut (added_parts xs) \<and> \<not> starts_lf (added_parts xs)"
proof (induction xs)
  case (Cons x xs)
  then show ?case by (auto simp: added_parts_def plain_end_def starts_lf_def wf_update_def Let_def)
qed (simp add: added_parts_def starts_lf_def)

lemma added_joined: "joined (added_parts xs) = added_text xs"
  by (simp add: joined_def added_parts_def added_text_def comp_def)

lemma edit_text_parts:
  assumes u: "wf_updates u" and s: "plain_breaks s"
  defines "qs \<equiv> new_parts u [] (line_parts s)" and "ms \<equiv> foldl (mark u) [] (map fst (line_parts s))"
  defines "xs \<equiv> filter (\<lambda>x. fst x \<notin> set ms) u"
  obtains rs where "fst (edit_text u s) = joined rs" "well_cut rs" "map fst rs = map fst qs @ map (\<lambda>x. fst x @ ''='' @ snd x) xs"
proof -
  have cut: "well_cut (line_parts s)" using s by (rule line_parts_cut)
  have e: "edited (edit_lines u (keepends s)) = map (\<lambda>p. fst p @ snd p) qs" "keys (changed (edit_lines u (keepends s))) = ms"
    using edit_lines_parts [OF cut, of u "\<lparr>edited = [], changed = [], messages = []\<rparr>"]
    unfolding edit_lines_def keepends_line_parts qs_def ms_def by simp_all
  have qs: "well_cut qs" using new_parts_cut [OF u cut] by (simp add: qs_def)
  have missing: "missing_updates u (changed (edit_lines u (keepends s))) = xs"
    using e(2) by (simp add: missing_updates_def xs_def)
  have wf: "list_all wf_update xs" using u by (auto simp: xs_def wf_updates_def list_all_iff)
  have text_is: "fst (edit_text u s) = joined qs @ (if xs \<noteq> [] \<and> ends_open (joined qs) then [CHR 0x0A] else []) @ added_text xs"
    by (simp add: edit_text_def Let_def e(1) missing joined_def)
  show thesis
  proof (cases "xs = []")
    case True
    then show thesis using that [of qs] qs text_is by (simp add: added_text_def)
  next
    case False
    let ?rs = "close_last qs @ added_parts xs"
    have "well_cut ?rs"
      using well_cut_append [OF well_cut_close [OF qs]] added_cut [OF wf] by (simp add: close_last_def list_all_iff)
    moreover have "fst (edit_text u s) = joined ?rs" using text_is False by (simp add: close_last_joined [OF qs] added_joined)
    moreover have "map fst ?rs = map fst qs @ map (\<lambda>x. fst x @ ''='' @ snd x) xs" by (simp add: close_last_def added_parts_def comp_def)
    ultimately show thesis using that by blast
  qed
qed

lemma edited_text_read:
  assumes u: "wf_updates u" and s: "plain_breaks s" and d: "parse_properties s = Inr d"
  shows "parse_properties (fst (edit_text u s)) = Inr (set_all u d)"
proof -
  define qs where "qs = new_parts u [] (line_parts s)"
  define xs where "xs = filter (\<lambda>x. fst x \<notin> set (foldl (mark u) [] (map fst (line_parts s)))) u"
  obtain rs where rs: "fst (edit_text u s) = joined rs" "well_cut rs" "map fst rs = map fst qs @ map (\<lambda>x. fst x @ ''='' @ snd x) xs"
    by (rule edit_text_parts [OF u s, folded qs_def xs_def])
  have read: "parse_lines 1 [] (map fst (line_parts s)) = Inr d"
    using d unfolding parse_properties_def splitlines_unix unfolding splitlines_def .
  have e: "parse_lines 1 [] (map fst qs) = Inr (apply_updates u d)"
    "set (foldl (mark u) [] (map fst (line_parts s))) = set (keys d) \<inter> set (keys u)"
    using edited_entries [OF u read, of "[]"] by (simp_all add: qs_def apply_updates_def)
  have xs: "xs = missing_updates u d" unfolding xs_def missing_updates_def e(2) by (rule filter_cong) auto
  have dist: "distinct (keys d)" "distinct (keys u)" using parse_distinct [OF read] u by (simp_all add: wf_updates_def)
  have "list_all wf_update xs" "distinct (keys (apply_updates u d) @ keys xs)"
    using u dist unfolding xs by (force simp: wf_updates_def missing_updates_def list_all_iff intro: distinct_map_filter)+
  from added_entries [OF this] parse_append [OF e(1)]
  have "parse_lines 1 [] (map fst rs) = Inr (apply_updates u d @ xs)" unfolding rs(3) by simp
  moreover have "map fst rs = splitlines (joined rs)" using line_parts_joined [OF rs(2)] by (simp add: splitlines_def)
  ultimately show ?thesis
    using set_all_apply [OF dist(2,1)] unfolding parse_properties_def splitlines_unix rs(1) by (simp add: xs)
qed

lemma keys_of_map: "map_of u k = Some w \<Longrightarrow> k \<in> set (keys u)"
  by (metis map_of_eq_None_iff option.distinct(1) list.set_map)

lemma file_edited:
  "snd (edit_properties u (Some (bom, s))) = Some (bom, fst (edit_text u s))"
  "snd (edit_properties u None) = Some (False, fst (edit_text u []))"
  by (simp_all add: edit_properties_def case_prod_unfold Let_def)

section \<open>Properties\<close>

text \<open>Editing the properties is updating what is read of them: when a file can be read and its lines end as text lines do,
  the edited file is read as the old settings with the updates set, in place where they were there and at the end where not.\<close>

theorem edited_properties_are_read:
  "wf_updates u \<Longrightarrow> plain_breaks s \<Longrightarrow> parse_properties s = Inr d \<Longrightarrow>
   \<exists>s'. snd (edit_properties u (Some (bom, s))) = Some (bom, s') \<and> parse_properties s' = Inr (set_all u d)"
  using edited_text_read [of u s d] by (simp add: file_edited)

lemma edited_properties_are_read_witness:
  "\<exists>s'. snd (edit_properties safety_updates (Some (True, ''allow-cheats = true'' @ [CHR 0x0A] @ ''# x''))) = Some (True, s') \<and>
    parse_properties s' = Inr (set_all safety_updates [(''allow-cheats'', ''true'')])"
  by (rule edited_properties_are_read) code_simp+

text \<open>Lines nobody asked to change stay as they are, byte for byte and in their place, comments and malformed lines included.\<close>

theorem other_lines_untouched:
  "list_all2 (\<lambda>l m. m = l \<or> line_key (fst (split_ending l)) \<in> set (keys u)) ls (edited (edit_lines u ls))"
proof -
  have "\<exists>ms. edited (fold (edit_line u) ls e) = edited e @ ms \<and> list_all2 (\<lambda>l m. m = l \<or> line_key (fst (split_ending l)) \<in> set (keys u)) ls ms" for e
  proof (induction ls arbitrary: e)
    case (Cons l ls)
    have "\<exists>m. edited (edit_line u l e) = edited e @ [m] \<and> (m = l \<or> line_key (fst (split_ending l)) \<in> set (keys u))"
      using keys_of_map [of u] by (auto simp: edit_line_def Let_def line_key_def simp del: list.set_map split: option.split)
    with Cons [of "edit_line u l e"] show ?case by fastforce
  qed simp
  from this [of "\<lparr>edited = [], changed = [], messages = []\<rparr>"] show ?thesis
    by (auto simp: edit_lines_def)
qed



end
