(* ===== verification/Web_Link.thy ===== *)
theory Web_Link
  imports Json_Store
begin

text \<open>
  endbotd's link to the relay of the web, \<open>WebLink\<close> of \<open>endbotd/web_link.py\<close>: the connections and rate windows of one
  link, the frames that arrive, and the answers that worker threads send. The record \<open>link\<close> is the class, with the
  frames that left (under the number of the link they left on) and the callbacks made. The socket, the proof and the
  waiting are left out: a link comes up (\<open>Connect\<close>) and is lost (\<open>Drop\<close>) at any time. What \<open>WebService\<close> and the
  handler answer, the clock and whether a session is signed in are given with each action; the hash of a token and the
  length of a frame's text are the record \<open>wire\<close>. A worker's run is three actions, so that a link can be lost between any two.
\<close>

section \<open>State\<close>

record connection =
  c_conn :: string
  c_kind :: string
  c_path :: string
  c_origin :: "string option"
  c_session :: "string option"
  c_site :: "string option"
  c_hash :: "string option"
  c_answered :: bool
  c_generation :: nat
  c_serial :: nat \<comment> \<open>which \<open>_open\<close> made the object\<close>

record rate_window =
  w_second :: int
  w_count :: nat
  w_conns :: "string list"

text \<open>Where a worker is: not begun, past the checks, or about to send; then whether it forgets the connection.\<close>

datatype phase = Pending | Taken | Cleared "json list" bool

record job =
  j_connection :: connection
  j_id :: int
  j_body :: json
  j_phase :: phase

record link =
  generation :: nat
  up :: bool
  connections :: "(string, connection) dict"
  rates :: "(string, rate_window) dict"
  jobs :: "job list"
  outbox :: "(nat \<times> json) list"
  told_closed :: "string list"
  opened :: nat
  asked :: "nat list" \<comment> \<open>the serials of the HTTP connections whose request was given to a worker\<close>

record wire =
  hash_of :: "string \<Rightarrow> string"
  wire_size :: "json \<Rightarrow> nat"

definition max_frame_bytes :: nat where
  "max_frame_bytes = 1024 * 1024"

definition max_session_connections :: nat where
  "max_session_connections = 4"

definition max_requests_per_second :: nat where
  "max_requests_per_second = 20"

definition max_rate_windows :: nat where
  "max_rate_windows = 1024"

definition web_protocol :: int where
  "web_protocol = 1"

definition new_link :: link where
  "new_link = \<lparr>generation = 0, up = False, connections = [], rates = [], jobs = [], outbox = [], told_closed = [], opened = 0, asked = []\<rparr>"

section \<open>Toward the relay\<close>

definition send_frame :: "wire \<Rightarrow> json \<Rightarrow> link \<Rightarrow> link" where
  "send_frame w f s = (if \<not> up s \<or> wire_size w f > max_frame_bytes then s else s\<lparr>outbox := outbox s @ [(generation s, f)]\<rparr>)"

definition msg_frame :: "string \<Rightarrow> int \<Rightarrow> json \<Rightarrow> json" where
  "msg_frame conn i body = JObj [(''t'', JStr ''msg''), (''conn'', JStr conn), (''id'', JInt i), (''body'', body)]"

definition close_frame :: "string \<Rightarrow> string \<Rightarrow> json" where
  "close_frame conn why = JObj [(''t'', JStr ''close''), (''conn'', JStr conn), (''reason'', JStr why)]"

definition send :: "wire \<Rightarrow> string \<Rightarrow> int \<Rightarrow> json \<Rightarrow> link \<Rightarrow> link" where
  "send w conn i body s = send_frame w (msg_frame conn i body) s"

definition send_close :: "wire \<Rightarrow> string \<Rightarrow> string \<Rightarrow> link \<Rightarrow> link" where
  "send_close w conn why s = send_frame w (close_frame conn why) s"

definition publish_cache :: "wire \<Rightarrow> (string, json) dict \<Rightarrow> link \<Rightarrow> link" where
  "publish_cache w cache s = send_frame w (JObj (fold (\<lambda>(k, v). dict_set k v) cache [(''t'', JStr ''cache'')])) s"

section \<open>Connections and rates\<close>

definition no_window :: rate_window where
  "no_window = \<lparr>w_second = 0, w_count = 0, w_conns = []\<rparr>"

definition window_of :: "string \<Rightarrow> link \<Rightarrow> rate_window" where
  "window_of h s = dict_get (rates s) h no_window"

text \<open>\<open>set.add\<close> and \<open>set.discard\<close> on a duplicate-free list.\<close>

definition with_conn :: "string \<Rightarrow> rate_window \<Rightarrow> rate_window" where
  "with_conn conn r = (if conn \<in> set (w_conns r) then r else r\<lparr>w_conns := w_conns r @ [conn]\<rparr>)"

definition without_conn :: "string \<Rightarrow> rate_window \<Rightarrow> rate_window" where
  "without_conn conn r = r\<lparr>w_conns := filter (\<lambda>c. c \<noteq> conn) (w_conns r)\<rparr>"

definition forget :: "string \<Rightarrow> link \<Rightarrow> link" where
  "forget conn s = (case map_of (connections s) conn of
     None \<Rightarrow> s
   | Some c \<Rightarrow>
     let s = s\<lparr>connections := dict_pop conn (connections s)\<rparr>;
         s = (case c_hash c of
           None \<Rightarrow> s
         | Some h \<Rightarrow> (case map_of (rates s) h of None \<Rightarrow> s | Some r \<Rightarrow> s\<lparr>rates := dict_set h (without_conn conn r) (rates s)\<rparr>))
     in if c_kind c = ''ws'' then s\<lparr>told_closed := told_closed s @ [c_conn c]\<rparr> else s)"

definition prune_rates :: "(string, rate_window) dict \<Rightarrow> (string, rate_window) dict" where
  "prune_rates rs = (if length rs > max_rate_windows then filter (\<lambda>x. w_conns (snd x) \<noteq> []) rs else rs)"

definition count_request :: "int \<Rightarrow> rate_window \<Rightarrow> rate_window" where
  "count_request now r = (if w_second r \<noteq> now then r\<lparr>w_second := now, w_count := 1\<rparr> else r\<lparr>w_count := Suc (w_count r)\<rparr>)"

definition within_rate :: "int \<Rightarrow> string \<Rightarrow> link \<Rightarrow> bool \<times> link" where
  "within_rate now h s =
     (let s = s\<lparr>rates := prune_rates (rates s)\<rparr>; r = count_request now (window_of h s)
      in (w_count r \<le> max_requests_per_second, s\<lparr>rates := dict_set h r (rates s)\<rparr>))"

section \<open>Frames\<close>

definition frame_text :: "(string, json) dict \<Rightarrow> string \<Rightarrow> string option" where
  "frame_text d name = (case map_of d name of Some (JStr v) \<Rightarrow> if v = [] then None else Some v | _ \<Rightarrow> None)"

definition add_connection :: "connection \<Rightarrow> link \<Rightarrow> link" where
  "add_connection c s = s\<lparr>connections := dict_set (c_conn c) c (connections s)\<rparr>"

text \<open>\<open>_open\<close>; \<open>live\<close> says whether the web is up and the token signed in.\<close>

definition open_connection :: "wire \<Rightarrow> (string option \<Rightarrow> bool) \<Rightarrow> (string, json) dict \<Rightarrow> link \<Rightarrow> link" where
  "open_connection w live d s = (case (map_of d ''conn'', map_of d ''kind'', map_of d ''path'') of
     (Some (JStr conn), Some (JStr kind), Some (JStr path)) \<Rightarrow>
       if conn = [] \<or> kind \<notin> {''http'', ''ws''} then s
       else
         let session = frame_text d ''session'';
             c = \<lparr>c_conn = conn, c_kind = kind, c_path = path, c_origin = frame_text d ''origin'', c_session = session,
                   c_site = frame_text d ''siteCookie'', c_hash = None, c_answered = False, c_generation = generation s, c_serial = opened s\<rparr>;
             s = s\<lparr>opened := Suc (opened s)\<rparr>
         in if kind = ''http'' then add_connection c s
            else (case session of
              None \<Rightarrow> send_close w conn ''signed_out'' s
            | Some token \<Rightarrow>
              if \<not> live session then send_close w conn ''signed_out'' s
              else let h = hash_of w token; r = window_of h s in
                if length (w_conns r) \<ge> max_session_connections then
                  send_close w conn ''too_many_connections'' (s\<lparr>rates := dict_set h r (rates s)\<rparr>)
                else add_connection (c\<lparr>c_hash := Some h\<rparr>) (s\<lparr>rates := dict_set h (with_conn conn r) (rates s)\<rparr>))
   | _ \<Rightarrow> s)"

definition body_field :: "json \<Rightarrow> string \<Rightarrow> json" where
  "body_field body name = (case body of JObj d \<Rightarrow> dict_get d name JNull | _ \<Rightarrow> JNull)"

definition add_job :: "connection \<Rightarrow> int \<Rightarrow> json \<Rightarrow> link \<Rightarrow> link" where
  "add_job c i body s = s\<lparr>jobs := jobs s @ [\<lparr>j_connection = c, j_id = i, j_body = body, j_phase = Pending\<rparr>]\<rparr>"

definition limited_answer :: json where
  "limited_answer = JObj [(''status'', JInt 429), (''body'', JObj [(''code'', JStr ''rate_limited'')])]"

definition ws_answer :: "json \<Rightarrow> string \<Rightarrow> json" where
  "ws_answer request why = JObj [(''id'', request), (''type'', JStr ''result''), (''code'', JStr why)]"

definition message :: "wire \<Rightarrow> int \<Rightarrow> (string, json) dict \<Rightarrow> link \<Rightarrow> link" where
  "message w now d s = (case (map_of d ''conn'', map_of d ''id'') of
     (Some (JStr conn), Some (JInt i)) \<Rightarrow>
       (case map_of (connections s) conn of
          None \<Rightarrow> s
        | Some c \<Rightarrow>
          let body = dict_get d ''body'' JNull in
          if c_kind c = ''http'' then
            (if c_answered c then s
             else
               let s = s\<lparr>connections := dict_set conn (c\<lparr>c_answered := True\<rparr>) (connections s)\<rparr>;
                   (fine, s) = (case c_session c of None \<Rightarrow> (True, s) | Some token \<Rightarrow> within_rate now (hash_of w token) s)
               in if \<not> fine then forget conn (send_close w conn ''done'' (send w conn i limited_answer s))
                  else add_job c i body (s\<lparr>asked := asked s @ [c_serial c]\<rparr>))
          else
            (let (fine, s) = (case c_hash c of None \<Rightarrow> (True, s) | Some h \<Rightarrow> within_rate now h s)
             in if \<not> fine then send w conn i (ws_answer (body_field body ''id'') ''rate_limited'') s
                else add_job c i body s))
   | _ \<Rightarrow> s)"

definition frame :: "wire \<Rightarrow> (string option \<Rightarrow> bool) \<Rightarrow> int \<Rightarrow> json \<Rightarrow> link \<Rightarrow> link" where
  "frame w live now f s = (case f of
     JObj d \<Rightarrow>
       if map_of d ''t'' = Some (JStr ''open'') then open_connection w live d s
       else if map_of d ''t'' = Some (JStr ''msg'') then message w now d s
       else if map_of d ''t'' = Some (JStr ''close'') then
         (case map_of d ''conn'' of Some (JStr conn) \<Rightarrow> forget conn s | _ \<Rightarrow> s)
       else s
   | _ \<Rightarrow> s)"

section \<open>Workers\<close>

definition unavailable_http :: json where
  "unavailable_http = JObj [(''status'', JInt 500), (''body'', JObj [(''code'', JStr ''unavailable'')])]"

definition set_phase :: "nat \<Rightarrow> phase \<Rightarrow> link \<Rightarrow> link" where
  "set_phase n p s = s\<lparr>jobs := (jobs s)[n := (jobs s ! n)\<lparr>j_phase := p\<rparr>]\<rparr>"

definition drop_job :: "nat \<Rightarrow> link \<Rightarrow> link" where
  "drop_job n s = s\<lparr>jobs := take n (jobs s) @ drop (Suc n) (jobs s)\<rparr>"

text \<open>The start of \<open>_http\<close> and \<open>_ws\<close>: what a worker checks before it asks the web.\<close>

definition take_job :: "(string option \<Rightarrow> bool) \<Rightarrow> nat \<Rightarrow> link \<Rightarrow> link" where
  "take_job live n s = (let j = jobs s ! n; c = j_connection j; conn = c_conn c in
     if c_kind c = ''http'' then set_phase n Taken s
     else if c_generation c \<noteq> generation s then drop_job n s
     else if \<not> live (c_session c) then
       set_phase n (Cleared [msg_frame conn (j_id j) (ws_answer (body_field (j_body j) ''id'') ''signed_out''), close_frame conn ''signed_out''] True) s
     else if (case j_body j of JObj d \<Rightarrow> \<not> json_eq_int (body_field (j_body j) ''v'') web_protocol | _ \<Rightarrow> False) then
       set_phase n (Cleared [msg_frame conn (j_id j) (JObj [(''type'', JStr ''reload'')])] False) s
     else set_phase n Taken s)"

text \<open>The answer is there: \<open>None\<close> of \<open>reply\<close> is an exception, \<open>Some None\<close> a handler's \<open>None\<close>.\<close>

definition fitting_answer :: "wire \<Rightarrow> json \<Rightarrow> (string, json) dict \<Rightarrow> json" where
  "fitting_answer w request result = (let answer = JObj (fold (\<lambda>(k, v). dict_set k v) result [(''id'', request)]) in
     if wire_size w answer > max_frame_bytes - 256 then ws_answer request ''too_large'' else answer)"

definition answer_job :: "wire \<Rightarrow> (string, json) dict option option \<Rightarrow> nat \<Rightarrow> link \<Rightarrow> link" where
  "answer_job w reply n s = (let j = jobs s ! n; c = j_connection j; conn = c_conn c in
     if c_generation c \<noteq> generation s then drop_job n s
     else if c_kind c = ''http'' then
       (let result = (case reply of Some (Some d) \<Rightarrow> JObj d | Some None \<Rightarrow> JNull | None \<Rightarrow> unavailable_http)
        in set_phase n (Cleared [msg_frame conn (j_id j) result, close_frame conn ''done''] True) s)
     else
       (let result = (case reply of None \<Rightarrow> Some [(''type'', JStr ''result''), (''code'', JStr ''unavailable'')] | Some r \<Rightarrow> r)
        in case result of
          None \<Rightarrow> drop_job n s
        | Some d \<Rightarrow> set_phase n (Cleared [msg_frame conn (j_id j) (fitting_answer w (body_field (j_body j) ''id'') d)] False) s))"

definition deliver_job :: "wire \<Rightarrow> nat \<Rightarrow> link \<Rightarrow> link" where
  "deliver_job w n s = (let j = jobs s ! n in case j_phase j of
     Cleared frames gone \<Rightarrow> (let s = drop_job n (fold (send_frame w) frames s) in if gone then forget (c_conn (j_connection j)) s else s)
   | _ \<Rightarrow> s)"

text \<open>A handler's \<open>push\<close>, at any time after it was handed out: the check, and later the sending.\<close>

definition push :: "connection \<Rightarrow> json \<Rightarrow> link \<Rightarrow> link" where
  "push c m s = (if c_generation c \<noteq> generation s then s
     else s\<lparr>jobs := jobs s @ [\<lparr>j_connection = c, j_id = 0, j_body = JNull, j_phase = Cleared [msg_frame (c_conn c) 0 m] False\<rparr>]\<rparr>)"

definition sessions_removed :: "wire \<Rightarrow> string list \<Rightarrow> link \<Rightarrow> link" where
  "sessions_removed w hs s =
     (let conns = map (c_conn \<circ> snd) (filter (\<lambda>x. case c_hash (snd x) of None \<Rightarrow> False | Some h \<Rightarrow> h \<in> set hs) (connections s))
      in fold (\<lambda>conn s. forget conn (send_close w conn ''signed_out'' s)) conns s)"

section \<open>The link over time\<close>

definition connect :: "wire \<Rightarrow> (string, json) dict \<Rightarrow> link \<Rightarrow> link" where
  "connect w cache s = publish_cache w cache (s\<lparr>generation := Suc (generation s), up := True\<rparr>)"

definition lose :: "link \<Rightarrow> link" where
  "lose s = s\<lparr>up := False, connections := [], rates := [],
     told_closed := told_closed s @ map (c_conn \<circ> snd) (filter (\<lambda>x. c_kind (snd x) = ''ws'') (connections s))\<rparr>"

datatype action =
    Connect "(string, json) dict"
  | Lose
  | Receive "string option \<Rightarrow> bool" int json
  | Take "string option \<Rightarrow> bool" nat
  | Answer "(string, json) dict option option" nat
  | Deliver nat
  | Push connection json
  | Removed "string list"
  | Publish "(string, json) dict"

fun act :: "wire \<Rightarrow> action \<Rightarrow> link \<Rightarrow> link" where
  "act w (Connect cache) s = (if up s then s else connect w cache s)"
| "act w Lose s = (if up s then lose s else s)"
| "act w (Receive live now f) s = (if up s then frame w live now f s else s)"
| "act w (Take live n) s = (if n < length (jobs s) \<and> j_phase (jobs s ! n) = Pending then take_job live n s else s)"
| "act w (Answer reply n) s = (if n < length (jobs s) \<and> j_phase (jobs s ! n) = Taken then answer_job w reply n s else s)"
| "act w (Deliver n) s = (if n < length (jobs s) then deliver_job w n s else s)"
| "act w (Push c m) s = push c m s"
| "act w (Removed hs) s = sessions_removed w hs s"
| "act w (Publish cache) s = publish_cache w cache s"

definition run_link :: "wire \<Rightarrow> action list \<Rightarrow> link \<Rightarrow> link" where
  "run_link w acts s = fold (act w) acts s"

section \<open>Windows\<close>

lemma window_of_set [simp]: "window_of h (s\<lparr>rates := dict_set k r rs\<rparr>) = (if h = k then r else window_of h (s\<lparr>rates := rs\<rparr>))"
  by (simp add: window_of_def dict_get_def)

lemma window_of_opened [simp]: "window_of h (s\<lparr>opened := n\<rparr>) = window_of h s"
  by (simp add: window_of_def)

lemma map_of_pruned: "distinct (keys rs) \<Longrightarrow> map_of (filter P rs) k = (case map_of rs k of None \<Rightarrow> None | Some v \<Rightarrow> if P (k, v) then Some v else None)"
proof (induction rs)
  case (Cons x rs)
  then show ?case by (cases x) (auto simp: map_of_eq_None_iff image_iff split: option.split)
qed simp

text \<open>Dropping the windows without connections loses no connection.\<close>

lemma window_pruned: "distinct (keys (rates s)) \<Longrightarrow> w_conns (window_of h (s\<lparr>rates := prune_rates (rates s)\<rparr>)) = w_conns (window_of h s)"
  by (auto simp: window_of_def prune_rates_def dict_get_def map_of_pruned no_window_def split: option.split)

lemma window_not_pruned:
  assumes "distinct (keys (rates s))" "length (rates s) \<le> max_rate_windows \<or> w_conns (window_of h s) \<noteq> []"
  shows "window_of h (s\<lparr>rates := prune_rates (rates s)\<rparr>) = window_of h s"
proof (cases "map_of (rates s) h")
  case None
  then show ?thesis using assms(1) by (simp add: window_of_def prune_rates_def dict_get_def map_of_pruned)
next
  case (Some r)
  then show ?thesis using assms by (auto simp: window_of_def prune_rates_def dict_get_def map_of_pruned simp del: map_of_eq_Some_iff)
qed

lemma distinct_pruned: "distinct (keys rs) \<Longrightarrow> distinct (keys (prune_rates rs))"
  by (simp add: prune_rates_def distinct_map_filter)

lemma count_request_simps [simp]:
  "w_conns (count_request now r) = w_conns r" "w_second (count_request now r) = now"
  "w_count (count_request now r) = (if w_second r = now then Suc (w_count r) else 1)"
  by (simp_all add: count_request_def)

lemma within_rate_window:
  "window_of k (snd (within_rate now h s)) =
     (if k = h then count_request now (window_of h (s\<lparr>rates := prune_rates (rates s)\<rparr>)) else window_of k (s\<lparr>rates := prune_rates (rates s)\<rparr>))"
  by (simp add: within_rate_def Let_def)

lemma within_rate_conns: "distinct (keys (rates s)) \<Longrightarrow> w_conns (window_of k (snd (within_rate now h s))) = w_conns (window_of k s)"
  by (simp add: within_rate_window window_pruned)

lemma within_rate_frame [simp]:
  "connections (snd (within_rate now h s)) = connections s" "jobs (snd (within_rate now h s)) = jobs s"
  "generation (snd (within_rate now h s)) = generation s" "asked (snd (within_rate now h s)) = asked s"
  "opened (snd (within_rate now h s)) = opened s" "up (snd (within_rate now h s)) = up s"
  by (simp_all add: within_rate_def Let_def)

lemma within_rate_distinct: "distinct (keys (rates s)) \<Longrightarrow> distinct (keys (rates (snd (within_rate now h s))))"
  by (simp add: within_rate_def Let_def distinct_pruned distinct_dict_set)

section \<open>Requests of one second\<close>

text \<open>The answers of \<open>_within_rate\<close> to requests of several sessions within one second.\<close>

fun rate_run :: "int \<Rightarrow> string list \<Rightarrow> link \<Rightarrow> (string \<times> bool) list" where
  "rate_run now [] s = []"
| "rate_run now (h # hs) s = (let (fine, s) = within_rate now h s in (h, fine) # rate_run now hs s)"

definition passed :: "string \<Rightarrow> (string \<times> bool) list \<Rightarrow> nat" where
  "passed h xs = length (filter (\<lambda>x. x = (h, True)) xs)"

definition spent :: "int \<Rightarrow> rate_window \<Rightarrow> nat" where
  "spent now r = (if w_second r = now then w_count r else 0)"

lemma length_prune: "length (prune_rates rs) \<le> length rs"
  by (simp add: prune_rates_def)

lemma within_rate_length: "length (rates (snd (within_rate now h s))) \<le> Suc (length (rates s))"
  using le_trans [OF length_dict_set [of h _ "prune_rates (rates s)"]] length_prune [of "rates s"] by (simp add: within_rate_def Let_def)

lemma rate_run_spent:
  assumes "distinct (keys (rates s))" "length (rates s) + length hs \<le> max_rate_windows \<or> w_conns (window_of h s) \<noteq> []"
  shows "passed h (rate_run now hs s) + min (spent now (window_of h s)) max_requests_per_second \<le> max_requests_per_second"
  using assms
proof (induction hs arbitrary: s)
  case Nil
  then show ?case by (simp add: passed_def)
next
  case (Cons k hs)
  let ?t = "snd (within_rate now k s)"
  have keep: "window_of h (s\<lparr>rates := prune_rates (rates s)\<rparr>) = window_of h s"
    by (rule window_not_pruned) (use Cons.prems in auto)
  have IH: "passed h (rate_run now hs ?t) + min (spent now (window_of h ?t)) max_requests_per_second \<le> max_requests_per_second"
  proof (rule Cons.IH)
    show "distinct (keys (rates ?t))" using Cons.prems(1) by (rule within_rate_distinct)
    show "length (rates ?t) + length hs \<le> max_rate_windows \<or> w_conns (window_of h ?t) \<noteq> []"
      using Cons.prems within_rate_length [of now k s] within_rate_conns [of s h now k] by fastforce
  qed
  have run: "rate_run now (k # hs) s = (k, fst (within_rate now k s)) # rate_run now hs ?t"
    by (simp add: case_prod_unfold Let_def)
  have fine: "fst (within_rate now k s) \<longleftrightarrow> w_count (window_of k ?t) \<le> max_requests_per_second"
    by (simp add: within_rate_def Let_def)
  show ?case
  proof (cases "k = h")
    case True
    have "window_of h ?t = count_request now (window_of h s)" unfolding within_rate_window by (simp add: True keep)
    then show ?thesis using IH fine True unfolding run by (auto simp: passed_def spent_def)
  next
    case False
    then have "window_of h ?t = window_of h s" unfolding within_rate_window by (simp add: keep)
    then show ?thesis using IH False unfolding run by (simp add: passed_def)
  qed
qed

section \<open>Every open connection is counted\<close>

definition conns_of :: "string \<Rightarrow> link \<Rightarrow> string set" where
  "conns_of h s = set (w_conns (window_of h s))"

definition counted_conn :: "link \<Rightarrow> string \<Rightarrow> connection \<Rightarrow> bool" where
  "counted_conn s k c \<longleftrightarrow> c_conn c = k \<and> c_generation c = generation s \<and>
     (case c_hash c of None \<Rightarrow> c_kind c = ''http'' | Some h \<Rightarrow> c_kind c = ''ws'' \<and> k \<in> conns_of h s)"

definition window_fits :: "rate_window \<Rightarrow> bool" where
  "window_fits r \<longleftrightarrow> distinct (w_conns r) \<and> length (w_conns r) \<le> max_session_connections"

definition link_ok :: "link \<Rightarrow> bool" where
  "link_ok s \<longleftrightarrow> dict_all (\<lambda>x. counted_conn s (fst x) (snd x)) (connections s) \<and> distinct (keys (rates s)) \<and>
     (\<forall>h. window_fits (window_of h s)) \<and> (up s \<or> connections s = [])"

lemma link_okI:
  assumes "dict_all (\<lambda>x. counted_conn s (fst x) (snd x)) (connections s)" "distinct (keys (rates s))"
    "\<And>h. window_fits (window_of h s)" "up s \<or> connections s = []"
  shows "link_ok s"
  using assms by (simp add: link_ok_def)

lemma link_okD:
  assumes "link_ok s"
  shows "distinct (keys (connections s))" "distinct (keys (rates s))" "window_fits (window_of h s)"
    "map_of (connections s) k = Some c \<Longrightarrow> counted_conn s k c" "x \<in> set (connections s) \<Longrightarrow> counted_conn s (fst x) (snd x)"
    "up s \<or> connections s = []"
  using assms by (auto simp: link_ok_def dict_all_def list_all_iff dest: map_of_SomeD)

text \<open>What the invariant reads of a state.\<close>

lemma link_ok_cong:
  "connections s = connections t \<Longrightarrow> rates s = rates t \<Longrightarrow> generation s = generation t \<Longrightarrow> up s = up t \<Longrightarrow> link_ok s = link_ok t"
proof -
  assume e: "connections s = connections t" "rates s = rates t" "generation s = generation t" "up s = up t"
  then have w: "window_of h s = window_of h t" for h by (simp add: window_of_def)
  have "counted_conn s k c = counted_conn t k c" for k c
    using e w by (simp add: counted_conn_def conns_of_def split: option.split)
  with e w show ?thesis by (simp add: link_ok_def)
qed

lemma dict_all_weaken: "dict_all P d \<Longrightarrow> (\<And>x. x \<in> set d \<Longrightarrow> P x \<Longrightarrow> Q x) \<Longrightarrow> dict_all Q d"
  by (simp add: dict_all_def list_all_iff)

lemma send_frame_same [simp]:
  "connections (send_frame w f s) = connections s" "rates (send_frame w f s) = rates s" "generation (send_frame w f s) = generation s"
  "up (send_frame w f s) = up s" "jobs (send_frame w f s) = jobs s" "opened (send_frame w f s) = opened s" "asked (send_frame w f s) = asked s"
  "told_closed (send_frame w f s) = told_closed s"
  by (simp_all add: send_frame_def)

lemmas sending = send_def send_close_def publish_cache_def

lemma link_ok_send_frame [simp]: "link_ok (send_frame w f s) = link_ok s"
  by (rule link_ok_cong) simp_all

lemma link_ok_sends: "link_ok (fold (send_frame w) fs s) = link_ok s"
  by (induction fs arbitrary: s) simp_all

lemma link_ok_jobs [simp]: "link_ok (s\<lparr>jobs := js\<rparr>) = link_ok s" "link_ok (s\<lparr>opened := n\<rparr>) = link_ok s"
  "link_ok (s\<lparr>asked := ks\<rparr>) = link_ok s" "link_ok (s\<lparr>told_closed := ts\<rparr>) = link_ok s"
  by (rule link_ok_cong; simp)+

lemma link_ok_within_rate:
  assumes "link_ok s"
  shows "link_ok (snd (within_rate now h s))"
proof -
  have same: "w_conns (window_of k (snd (within_rate now h s))) = w_conns (window_of k s)" for k
    using within_rate_conns link_okD(2) [OF assms] .
  then have "conns_of k (snd (within_rate now h s)) = conns_of k s" for k by (simp add: conns_of_def)
  then have "counted_conn (snd (within_rate now h s)) k c = counted_conn s k c" for k c
    by (simp add: counted_conn_def split: option.split)
  with assms same show ?thesis
    using within_rate_distinct by (simp add: link_ok_def window_fits_def)
qed

lemma window_of_forget:
  assumes c: "map_of (connections s) conn = Some c"
  shows "w_conns (window_of h (forget conn s)) = filter (\<lambda>k. c_hash c = Some h \<longrightarrow> k \<noteq> conn) (w_conns (window_of h s))"
proof (cases "c_hash c")
  case None
  then show ?thesis using c by (simp add: forget_def Let_def window_of_def)
next
  case (Some g)
  show ?thesis
  proof (cases "map_of (rates s) g")
    case None
    then have "w_conns (window_of g s) = []" by (simp add: window_of_def dict_get_def no_window_def)
    then show ?thesis using c Some None by (cases "h = g") (auto simp: forget_def Let_def window_of_def)
  next
    case (Some r)
    then show ?thesis using c \<open>c_hash c = Some g\<close> by (auto simp: forget_def Let_def window_of_def dict_get_def without_conn_def)
  qed
qed

lemma forget_same [simp]:
  "connections (forget conn s) = dict_pop conn (connections s)" "generation (forget conn s) = generation s" "up (forget conn s) = up s"
  "jobs (forget conn s) = jobs s" "opened (forget conn s) = opened s" "asked (forget conn s) = asked s"
  "outbox (forget conn s) = outbox s"
  by (auto simp: forget_def Let_def map_of_eq_None_iff delete_id split: option.split)

lemma forget_distinct: "distinct (keys (rates s)) \<Longrightarrow> distinct (keys (rates (forget conn s)))"
  by (auto simp: forget_def Let_def distinct_dict_set split: option.split)

lemma link_ok_forget:
  assumes "link_ok s"
  shows "link_ok (forget conn s)"
proof (cases "map_of (connections s) conn")
  case None
  then show ?thesis using assms by (simp add: forget_def)
next
  case (Some c)
  have conns: "conns_of h s - {conn} \<subseteq> conns_of h (forget conn s)" for h
    using window_of_forget [OF Some, of h] by (auto simp: conns_of_def)
  have kept: "counted_conn s k c' \<Longrightarrow> k \<noteq> conn \<Longrightarrow> counted_conn (forget conn s) k c'" for k c'
    using conns by (auto simp: counted_conn_def split: option.splits)
  show ?thesis
  proof (rule link_okI)
    have "k \<noteq> conn" if "(k, c') \<in> set (dict_pop conn (connections s))" for k c'
      using that by (auto simp: AList.delete_eq)
    then show "dict_all (\<lambda>x. counted_conn (forget conn s) (fst x) (snd x)) (connections (forget conn s))"
      using assms kept by (auto simp: link_ok_def intro: dict_all_weaken [OF dict_all_pop])
    show "window_fits (window_of h (forget conn s))" for h
      using link_okD(3) [OF assms, of h] by (simp add: window_fits_def window_of_forget [OF Some] le_trans [OF length_filter_le])
    show "up (forget conn s) \<or> connections (forget conn s) = []"
      using link_okD(6) [OF assms] by auto
  qed (use forget_distinct link_okD(2) [OF assms] in blast)
qed

lemma link_ok_add:
  assumes s: "link_ok s" "up s" and c: "counted_conn s (c_conn c) c"
  shows "link_ok (add_connection c s)"
proof (rule link_okI)
  have same: "counted_conn (add_connection c s) = counted_conn s"
    by (intro ext) (simp add: counted_conn_def conns_of_def window_of_def add_connection_def split: option.split)
  show "dict_all (\<lambda>x. counted_conn (add_connection c s) (fst x) (snd x)) (connections (add_connection c s))"
    unfolding same using s c by (auto simp: link_ok_def add_connection_def intro: dict_all_set)
  show "window_fits (window_of h (add_connection c s))" for h
    using link_okD(3) [OF s(1), of h] by (simp add: add_connection_def window_of_def)
qed (use s link_okD(2) [OF s(1)] in \<open>simp_all add: add_connection_def\<close>)

text \<open>A window grows by a connection while it has room.\<close>

lemma link_ok_window:
  assumes s: "link_ok s" and r: "window_fits r" "set (w_conns (window_of h s)) \<subseteq> set (w_conns r)"
  shows "link_ok (s\<lparr>rates := dict_set h r (rates s)\<rparr>)"
proof (rule link_okI)
  let ?t = "s\<lparr>rates := dict_set h r (rates s)\<rparr>"
  have conns: "conns_of k s \<subseteq> conns_of k ?t" for k
    using r(2) by (auto simp: conns_of_def)
  have "counted_conn s k c \<Longrightarrow> counted_conn ?t k c" for k c
    using conns by (auto simp: counted_conn_def split: option.splits)
  then show "dict_all (\<lambda>x. counted_conn ?t (fst x) (snd x)) (connections ?t)"
    using s by (auto simp: link_ok_def intro: dict_all_weaken)
  show "window_fits (window_of k ?t)" for k using link_okD(3) [OF s, of k] r(1) by simp
  show "distinct (keys (rates ?t))" using link_okD(2) [OF s] by (simp add: distinct_dict_set)
  show "up ?t \<or> connections ?t = []" using link_okD(6) [OF s] by simp
qed

lemma with_conn_fits: "window_fits r \<Longrightarrow> length (w_conns r) < max_session_connections \<Longrightarrow> window_fits (with_conn conn r)"
  by (auto simp: window_fits_def with_conn_def)

lemma with_conn_set [simp]: "set (w_conns (with_conn conn r)) = insert conn (set (w_conns r))"
  by (auto simp: with_conn_def)

lemma link_ok_open:
  assumes s: "link_ok s" "up s"
  shows "link_ok (open_connection w live d s)"
proof -
  have o: "link_ok (s\<lparr>opened := n\<rparr>)" for n using s(1) by simp
  have http: "link_ok (add_connection c (s\<lparr>opened := n\<rparr>))"
    if "c_hash c = None" "c_kind c = ''http''" "c_generation c = generation s" for c n
    by (rule link_ok_add [OF o]) (use s that in \<open>simp_all add: counted_conn_def\<close>)
  have swap: "s\<lparr>opened := n, rates := R\<rparr> = s\<lparr>rates := R\<rparr>\<lparr>opened := n\<rparr>" for n R by simp
  have full: "link_ok (s\<lparr>opened := n, rates := dict_set h (window_of h s) (rates s)\<rparr>)" for n h
    unfolding swap link_ok_jobs using link_ok_window [OF s(1), of "window_of h s" h] link_okD(3) [OF s(1), of h] by simp
  have ws: "link_ok (add_connection c (s\<lparr>opened := n, rates := dict_set h (with_conn (c_conn c) (window_of h s)) (rates s)\<rparr>))"
    if "c_hash c = Some h" "c_kind c = ''ws''" "c_generation c = generation s" "length (w_conns (window_of h s)) < max_session_connections" for c n h
  proof (rule link_ok_add)
    show "link_ok (s\<lparr>opened := n, rates := dict_set h (with_conn (c_conn c) (window_of h s)) (rates s)\<rparr>)"
      unfolding swap link_ok_jobs
      by (rule link_ok_window [OF s(1)]) (use with_conn_fits [OF link_okD(3) [OF s(1)] that(4)] in auto)
  qed (use s that in \<open>simp_all add: counted_conn_def conns_of_def window_of_def dict_get_def\<close>)
  then have ws: "link_ok (add_connection c (s\<lparr>opened := n, rates := dict_set h (with_conn k (window_of h s)) (rates s)\<rparr>))"
    if "c_conn c = k" "c_hash c = Some h" "c_kind c = ''ws''" "c_generation c = generation s"
      "length (w_conns (window_of h s)) < max_session_connections" for c n h k
    using that by blast
  show ?thesis
    unfolding open_connection_def Let_def
    by (auto simp: sending s http full ws not_le split: option.splits json.splits)
qed

lemma link_ok_answered:
  assumes s: "link_ok s" and c: "map_of (connections s) conn = Some c" and up: "up s"
  shows "link_ok (s\<lparr>connections := dict_set conn (c\<lparr>c_answered := True\<rparr>) (connections s)\<rparr>)"
proof -
  have "counted_conn s conn c" using link_okD(4) [OF s c] .
  then have "counted_conn s (c_conn (c\<lparr>c_answered := True\<rparr>)) (c\<lparr>c_answered := True\<rparr>)" and k: "c_conn c = conn"
    by (auto simp: counted_conn_def split: option.splits)
  from link_ok_add [OF s up this(1)] show ?thesis by (simp add: add_connection_def k)
qed

lemma link_ok_message:
  assumes s: "link_ok s" "up s"
  shows "link_ok (message w now d s)"
proof -
  have rate: "link_ok (snd (within_rate now h t))" if "link_ok t" for h t using that by (rule link_ok_within_rate)
  note conn = link_ok_answered [OF s(1) _ s(2)]
  show ?thesis
    unfolding message_def Let_def
    by (auto simp: sending add_job_def case_prod_unfold s(1) link_ok_forget rate conn split: option.splits json.splits)
qed

lemma link_ok_frame: "link_ok s \<Longrightarrow> up s \<Longrightarrow> link_ok (frame w live now f s)"
  by (auto simp: frame_def link_ok_open link_ok_message link_ok_forget split: json.splits option.splits)

lemma link_ok_phase [simp]: "link_ok (set_phase n p s) = link_ok s" "link_ok (drop_job n s) = link_ok s"
  by (simp_all add: set_phase_def drop_job_def)

lemma link_ok_fold_forget: "link_ok s \<Longrightarrow> link_ok (fold (\<lambda>conn s. forget conn (send_close w conn why s)) conns s)"
  by (induction conns arbitrary: s) (simp_all add: link_ok_forget sending)

lemma link_ok_act:
  assumes "link_ok s"
  shows "link_ok (act w a s)"
proof (cases a)
  case (Connect cache)
  have "link_ok (connect w cache s)" if "\<not> up s"
    using assms that by (auto simp: connect_def sending link_ok_def dict_all_def window_of_def)
  then show ?thesis using assms by (simp add: Connect)
next
  case Lose
  have "link_ok (lose s)" by (simp add: lose_def link_ok_def dict_all_def window_of_def dict_get_def window_fits_def no_window_def)
  then show ?thesis using assms by (simp add: Lose)
next
  case (Deliver n)
  then show ?thesis using assms by (auto simp: deliver_job_def Let_def link_ok_sends link_ok_forget split: phase.split)
next
  case (Removed hs)
  then show ?thesis using assms by (simp add: sessions_removed_def Let_def link_ok_fold_forget)
qed (use assms in \<open>auto simp: link_ok_frame take_job_def answer_job_def push_def sending Let_def split: option.split json.split\<close>)

lemma link_ok_run: "link_ok s \<Longrightarrow> link_ok (run_link w acts s)"
  unfolding run_link_def by (induction acts arbitrary: s) (simp_all add: link_ok_act)

lemma link_ok_new: "link_ok new_link"
  by (simp add: new_link_def link_ok_def dict_all_def window_of_def dict_get_def window_fits_def no_window_def)

section \<open>Properties\<close>

text \<open>The open WebSockets of a session.\<close>

definition sockets_of :: "string \<Rightarrow> link \<Rightarrow> (string \<times> connection) list" where
  "sockets_of h s = filter (\<lambda>x. c_kind (snd x) = ''ws'' \<and> c_hash (snd x) = Some h) (connections s)"

text \<open>Whatever the relay sends and however frames, workers, lost links and ended sessions interleave, a session has at most
  four open WebSockets at any moment, and every open WebSocket belongs to a session.\<close>

theorem session_sockets_bounded:
  "length (sockets_of h (run_link w acts new_link)) \<le> max_session_connections \<and>
   list_all (\<lambda>x. (c_kind (snd x) = ''ws'') = (\<exists>k. c_hash (snd x) = Some k)) (connections (run_link w acts new_link))"
proof -
  let ?s = "run_link w acts new_link"
  have ok: "link_ok ?s" by (rule link_ok_run [OF link_ok_new])
  have "set (keys (sockets_of h ?s)) \<subseteq> set (w_conns (window_of h ?s))"
    using link_okD(5) [OF ok] by (fastforce simp: sockets_of_def counted_conn_def conns_of_def)
  moreover have "distinct (keys (sockets_of h ?s))"
    using link_okD(1) [OF ok] by (simp add: sockets_of_def distinct_map_filter)
  ultimately have "length (keys (sockets_of h ?s)) \<le> length (w_conns (window_of h ?s))"
    by (metis card_length card_mono distinct_card finite_set le_trans)
  then have "length (sockets_of h ?s) \<le> max_session_connections"
    using link_okD(3) [OF ok, of h] by (simp add: window_fits_def)
  moreover have "(c_kind c = ''ws'') = (\<exists>k. c_hash c = Some k)" if "counted_conn ?s k c" for k c
    using that by (cases "c_hash c") (auto simp: counted_conn_def)
  then have "list_all (\<lambda>x. (c_kind (snd x) = ''ws'') = (\<exists>k. c_hash (snd x) = Some k)) (connections ?s)"
    using link_okD(5) [OF ok] unfolding list_all_iff by blast
  ultimately show ?thesis by simp
qed


section \<open>Answers and links\<close>

definition about_to_send :: "job \<Rightarrow> bool" where
  "about_to_send j \<longleftrightarrow> (case j_phase j of Cleared _ _ \<Rightarrow> True | _ \<Rightarrow> False)"

definition sends_here :: "link \<Rightarrow> bool" where
  "sends_here s \<longleftrightarrow> list_all (\<lambda>j. about_to_send j \<longrightarrow> c_generation (j_connection j) = generation s) (jobs s)"

text \<open>No link comes up while an answer that passed its check waits to be sent.\<close>

fun calm :: "wire \<Rightarrow> action list \<Rightarrow> link \<Rightarrow> bool" where
  "calm w [] s = True"
| "calm w (a # acts) s \<longleftrightarrow> (case a of Connect _ \<Rightarrow> up s \<or> list_all (\<lambda>j. \<not> about_to_send j) (jobs s) | _ \<Rightarrow> True) \<and> calm w acts (act w a s)"

definition grows :: "link \<Rightarrow> link \<Rightarrow> bool" where
  "grows s t \<longleftrightarrow> generation t = generation s \<and> (\<exists>js. jobs t = jobs s @ js \<and> list_all (\<lambda>j. j_phase j = Pending) js)"

lemma grows_same: "generation t = generation s \<Longrightarrow> jobs t = jobs s \<Longrightarrow> grows s t"
  by (simp add: grows_def)

lemma grows_add: "generation t = generation s \<Longrightarrow> jobs t = jobs s \<Longrightarrow> grows s (add_job c i body t)"
  by (simp add: grows_def add_job_def)

lemma grows_open: "grows s (open_connection w live d s)"
  by (rule grows_same) (auto simp: open_connection_def add_connection_def sending Let_def split: json.split option.split)

lemma grows_message: "grows s (message w now d s)"
  unfolding message_def Let_def
  by (auto simp: sending case_prod_unfold grows_add grows_same split: option.split json.split)

lemma frame_jobs: "grows s (frame w live now f s)"
  by (auto simp: frame_def grows_open grows_message intro!: grows_same split: json.split option.split)

lemma list_all_update: "list_all P xs \<Longrightarrow> P x \<Longrightarrow> list_all P (xs[n := x])"
  using set_update_subset_insert [of xs n x] by (auto simp: list_all_iff)

lemma list_all_cut: "list_all P xs \<Longrightarrow> list_all P (take n xs @ drop m xs)"
  by (auto simp: list_all_iff dest: in_set_takeD in_set_dropD)

lemma fold_sends_same [simp]:
  "jobs (fold (send_frame w) fs s) = jobs s" "generation (fold (send_frame w) fs s) = generation s"
  "connections (fold (send_frame w) fs s) = connections s" "opened (fold (send_frame w) fs s) = opened s" "asked (fold (send_frame w) fs s) = asked s"
  by (induction fs arbitrary: s) simp_all

lemma fold_forget_same:
  "jobs (fold (\<lambda>conn s. forget conn (send_close w conn why s)) conns s) = jobs s \<and>
   generation (fold (\<lambda>conn s. forget conn (send_close w conn why s)) conns s) = generation s \<and>
   opened (fold (\<lambda>conn s. forget conn (send_close w conn why s)) conns s) = opened s \<and>
   asked (fold (\<lambda>conn s. forget conn (send_close w conn why s)) conns s) = asked s"
  by (induction conns arbitrary: s) (simp_all add: sending)

lemma sends_here_phase:
  "sends_here s \<Longrightarrow> c_generation (j_connection (jobs s ! n)) = generation s \<or> p = Taken \<Longrightarrow> sends_here (set_phase n p s)"
  by (auto simp: sends_here_def set_phase_def about_to_send_def intro!: list_all_update)

lemma sends_here_drop: "sends_here s \<Longrightarrow> sends_here (drop_job n s)"
  by (simp add: sends_here_def drop_job_def list_all_cut del: list_all_append)

lemma sends_here_act:
  assumes s: "sends_here s" and c: "case a of Connect _ \<Rightarrow> up s \<or> list_all (\<lambda>j. \<not> about_to_send j) (jobs s) | _ \<Rightarrow> True"
  shows "sends_here (act w a s)"
proof (cases a)
  case (Connect cache)
  then show ?thesis using s c by (auto simp: connect_def sending sends_here_def list_all_iff)
next
  case (Receive live now f)
  obtain js where "jobs (frame w live now f s) = jobs s @ js" "list_all (\<lambda>j. j_phase j = Pending) js" "generation (frame w live now f s) = generation s"
    using frame_jobs unfolding grows_def by blast
  then show ?thesis using s by (auto simp: Receive sends_here_def list_all_iff about_to_send_def)
next
  case (Take live n)
  then show ?thesis using s by (auto simp: take_job_def Let_def intro!: sends_here_phase sends_here_drop)
next
  case (Answer reply n)
  then show ?thesis using s by (auto simp: answer_job_def Let_def intro!: sends_here_phase sends_here_drop split: option.split)
next
  case (Deliver n)
  have "sends_here (fold (send_frame w) fs s)" for fs using s by (simp add: sends_here_def)
  then have "sends_here (drop_job n (fold (send_frame w) fs s))" for fs by (rule sends_here_drop)
  then have "sends_here (if gone then forget conn (drop_job n (fold (send_frame w) fs s)) else drop_job n (fold (send_frame w) fs s))" for gone conn fs
    by (simp add: sends_here_def)
  then show ?thesis using s by (simp add: Deliver deliver_job_def Let_def split: phase.split)
next
  case (Removed hs)
  then show ?thesis using s fold_forget_same by (simp add: sessions_removed_def Let_def sends_here_def)
qed (use s in \<open>simp_all add: lose_def push_def sending sends_here_def about_to_send_def\<close>)

lemma sends_here_run: "sends_here s \<Longrightarrow> calm w acts s \<Longrightarrow> sends_here (run_link w acts s)"
  unfolding run_link_def by (induction acts arbitrary: s) (simp_all add: sends_here_act)

text \<open>An answer goes only to the link its request came from: as long as no link comes up between the check and the sending, every
  answer that waits to be sent is for a connection of the present link.\<close>

theorem answers_stay_on_their_link:
  "calm w acts new_link \<Longrightarrow> list_all (\<lambda>j. \<not> about_to_send j \<or> c_generation (j_connection j) = generation (run_link w acts new_link))
    (jobs (run_link w acts new_link))"
proof -
  assume "calm w acts new_link"
  moreover have "sends_here new_link" by (simp add: sends_here_def new_link_def)
  ultimately have "sends_here (run_link w acts new_link)" using sends_here_run by blast
  then show ?thesis unfolding sends_here_def list_all_iff by blast
qed

text \<open>When sessions end, no connection of theirs is left on the link.\<close>

theorem ended_sessions_are_closed:
  "list_all (\<lambda>x. case c_hash (snd x) of None \<Rightarrow> True | Some h \<Rightarrow> h \<notin> set hs) (connections (sessions_removed w hs (run_link w acts new_link)))"
proof -
  let ?s = "run_link w acts new_link"
  have ok: "link_ok ?s" by (rule link_ok_run [OF link_ok_new])
  have conns: "connections (fold (\<lambda>conn s. forget conn (send_close w conn why s)) cs s) = fold dict_pop cs (connections s)" for why cs s
    by (induction cs arbitrary: s) (simp_all add: sending)
  have pop: "x \<in> set (dict_pop k d) \<Longrightarrow> x \<in> set d \<and> fst x \<noteq> k" for x k and d :: "(string, connection) dict"
    by (auto simp: AList.delete_eq)
  have popped: "x \<in> set (fold dict_pop cs d) \<Longrightarrow> x \<in> set d \<and> fst x \<notin> set cs" for x cs and d :: "(string, connection) dict"
  proof (induction cs arbitrary: d)
    case (Cons k cs)
    from Cons.IH [of "dict_pop k d"] Cons.prems have "x \<in> set (dict_pop k d)" "fst x \<notin> set cs" by simp_all
    moreover have "x \<in> set d" "fst x \<noteq> k" using pop [OF \<open>x \<in> set (dict_pop k d)\<close>] by simp_all
    ultimately show ?case by simp
  qed simp
  let ?cs = "map (c_conn \<circ> snd) (filter (\<lambda>x. case c_hash (snd x) of None \<Rightarrow> False | Some h \<Rightarrow> h \<in> set hs) (connections ?s))"
  have "case c_hash (snd x) of None \<Rightarrow> True | Some h \<Rightarrow> h \<notin> set hs" if "x \<in> set (fold dict_pop ?cs (connections ?s))" for x
  proof (cases "c_hash (snd x)")
    case (Some h)
    have x: "x \<in> set (connections ?s)" "fst x \<notin> set ?cs" using popped [OF that] by auto
    have name: "c_conn (snd x) = fst x" using link_okD(5) [OF ok x(1)] by (simp add: counted_conn_def)
    have "x \<notin> set (filter (\<lambda>x. case c_hash (snd x) of None \<Rightarrow> False | Some h \<Rightarrow> h \<in> set hs) (connections ?s))"
    proof (rule notI)
      assume "x \<in> set (filter (\<lambda>x. case c_hash (snd x) of None \<Rightarrow> False | Some h \<Rightarrow> h \<in> set hs) (connections ?s))"
      then have "(c_conn \<circ> snd) x \<in> set ?cs" unfolding set_map by (rule imageI)
      with x(2) name show False by simp
    qed
    with x(1) Some show ?thesis by simp
  qed simp
  then show ?thesis by (simp add: sessions_removed_def Let_def conns list_all_iff)
qed

section \<open>A request is asked once\<close>

definition asked_ok :: "link \<Rightarrow> bool" where
  "asked_ok s \<longleftrightarrow> distinct (asked s) \<and> list_all (\<lambda>n. n < opened s) (asked s) \<and>
     list_all (\<lambda>x. c_serial (snd x) < opened s \<and> (c_serial (snd x) \<in> set (asked s) \<longrightarrow> c_answered (snd x))) (connections s) \<and>
     (\<forall>x \<in> set (connections s). \<forall>y \<in> set (connections s). c_serial (snd x) = c_serial (snd y) \<longrightarrow> fst x = fst y)"

lemma asked_okI:
  assumes "distinct (asked s)" "\<And>n. n \<in> set (asked s) \<Longrightarrow> n < opened s" "\<And>x. x \<in> set (connections s) \<Longrightarrow> c_serial (snd x) < opened s"
    "\<And>x. x \<in> set (connections s) \<Longrightarrow> c_serial (snd x) \<in> set (asked s) \<Longrightarrow> c_answered (snd x)"
    "\<And>x y. x \<in> set (connections s) \<Longrightarrow> y \<in> set (connections s) \<Longrightarrow> c_serial (snd x) = c_serial (snd y) \<Longrightarrow> fst x = fst y"
  shows "asked_ok s"
  using assms unfolding asked_ok_def list_all_iff by blast

lemma asked_okD:
  assumes "asked_ok s"
  shows "distinct (asked s)" "n \<in> set (asked s) \<Longrightarrow> n < opened s" "x \<in> set (connections s) \<Longrightarrow> c_serial (snd x) < opened s"
    "x \<in> set (connections s) \<Longrightarrow> c_serial (snd x) \<in> set (asked s) \<Longrightarrow> c_answered (snd x)"
    "x \<in> set (connections s) \<Longrightarrow> y \<in> set (connections s) \<Longrightarrow> c_serial (snd x) = c_serial (snd y) \<Longrightarrow> fst x = fst y"
  using assms unfolding asked_ok_def list_all_iff by blast+

lemma asked_ok_subset:
  "asked_ok s \<Longrightarrow> set (connections t) \<subseteq> set (connections s) \<Longrightarrow> opened t = opened s \<Longrightarrow> asked t = asked s \<Longrightarrow> asked_ok t"
proof -
  assume a: "asked_ok s" "set (connections t) \<subseteq> set (connections s)" "opened t = opened s" "asked t = asked s"
  note D = asked_okD [OF a(1)]
  show "asked_ok t"
    by (rule asked_okI; (unfold a(3,4))?) (use D a(2) in blast)+
qed

lemma asked_ok_forget: "asked_ok s \<Longrightarrow> asked_ok (forget conn s)"
  by (rule asked_ok_subset [of s]) (auto simp: AList.delete_eq)

lemma asked_ok_add:
  assumes s: "asked_ok s" and c: "c_serial c = opened s" and t: "connections t = connections s" "opened t = Suc (opened s)" "asked t = asked s"
  shows "asked_ok (add_connection c t)"
proof -
  let ?t = "add_connection c t"
  note D = asked_okD [OF s]
  have mem: "x = (c_conn c, c) \<or> x \<in> set (connections s)" if "x \<in> set (connections ?t)" for x
    using that set_dict_set_subset [of "c_conn c" c "connections s"] t(1) by (auto simp: add_connection_def)
  have same: "opened ?t = Suc (opened s)" "asked ?t = asked s" using t by (simp_all add: add_connection_def)
  show ?thesis
  proof (rule asked_okI; (unfold same)?)
    show "n < Suc (opened s)" if "n \<in> set (asked s)" for n using D(2) [OF that] by simp
    show "c_serial (snd x) < Suc (opened s)" if "x \<in> set (connections ?t)" for x
      using mem [OF that] D(3) [of x] c by auto
    show "c_answered (snd x)" if "x \<in> set (connections ?t)" "c_serial (snd x) \<in> set (asked s)" for x
      using mem [OF that(1)] D(4) [of x] D(2) [of "opened s"] that(2) c by auto
    show "fst x = fst y" if "x \<in> set (connections ?t)" "y \<in> set (connections ?t)" "c_serial (snd x) = c_serial (snd y)" for x y
      using mem [OF that(1)] mem [OF that(2)] that(3) D(3) [of x] D(3) [of y] D(5) [of x y] c by auto
  qed (rule D(1))
qed

lemma in_dict_set: "distinct (keys d) \<Longrightarrow> x \<in> set (dict_set k v d) \<Longrightarrow> x = (k, v) \<or> x \<in> set d \<and> fst x \<noteq> k"
  by (cases x) (simp add: set_dict_set)

text \<open>Marking a connection answered and handing its request to a worker.\<close>

lemma asked_ok_mark:
  assumes s: "asked_ok s" and d: "distinct (keys (connections s))" and c: "map_of (connections s) conn = Some c" "\<not> c_answered c"
    and t: "connections t = dict_set conn (c\<lparr>c_answered := True\<rparr>) (connections s)" "opened t = opened s"
    and a: "asked t = asked s \<or> asked t = asked s @ [c_serial c]"
  shows "asked_ok t"
proof -
  note D = asked_okD [OF s]
  let ?c = "c\<lparr>c_answered := True\<rparr>"
  have c_in: "(conn, c) \<in> set (connections s)" using c(1) by (rule map_of_SomeD)
  have mem: "x = (conn, ?c) \<or> x \<in> set (connections s) \<and> fst x \<noteq> conn" if "x \<in> set (connections t)" for x
    using in_dict_set [OF d, of x conn ?c] that unfolding t(1) by blast
  have serial: "c_serial c < opened s" "c_serial c \<notin> set (asked s)" using D(3,4) [OF c_in] c(2) by auto
  have other: "c_serial (snd x) \<noteq> c_serial c" if "x \<in> set (connections s)" "fst x \<noteq> conn" for x
    using D(5) [OF that(1) c_in] that(2) by auto
  show ?thesis
  proof (rule asked_okI; (unfold t(2))?)
    show "distinct (asked t)" using a D(1) serial(2) by auto
    show "n < opened s" if "n \<in> set (asked t)" for n using that a D(2) [of n] serial(1) by auto
    show "c_serial (snd x) < opened s" if "x \<in> set (connections t)" for x using mem [OF that] D(3) [of x] serial(1) by auto
    show "c_answered (snd x)" if "x \<in> set (connections t)" "c_serial (snd x) \<in> set (asked t)" for x
      using mem [OF that(1)] that(2) a D(4) [of x] other [of x] by auto
    show "fst x = fst y" if "x \<in> set (connections t)" "y \<in> set (connections t)" "c_serial (snd x) = c_serial (snd y)" for x y
      using mem [OF that(1)] mem [OF that(2)] that(3) D(5) [of x y] other [of x] other [of y] by auto
  qed
qed

lemma asked_ok_same: "asked_ok s \<Longrightarrow> connections t = connections s \<Longrightarrow> opened t = opened s \<Longrightarrow> asked t = asked s \<Longrightarrow> asked_ok t"
  by (rule asked_ok_subset) auto

lemma asked_ok_open: "asked_ok s \<Longrightarrow> asked_ok (open_connection w live d s)"
proof -
  assume s: "asked_ok s"
  have more: "asked_ok t" if "connections t = connections s" "opened t = Suc (opened s)" "asked t = asked s" for t
  proof -
    note D = asked_okD [OF s]
    show ?thesis
    proof (rule asked_okI; (unfold that)?)
      show "n < Suc (opened s)" if "n \<in> set (asked s)" for n using D(2) [OF that] by simp
      show "c_serial (snd x) < Suc (opened s)" if "x \<in> set (connections s)" for x using D(3) [OF that] by simp
    qed (use D in blast)+
  qed
  have sent: "asked_ok (send_frame w f u) = asked_ok u" for f u
    using asked_ok_same [of u "send_frame w f u"] asked_ok_same [of "send_frame w f u" u] by auto
  have here: "asked_ok (s\<lparr>opened := Suc (opened s)\<rparr>)" "asked_ok (s\<lparr>opened := Suc (opened s), rates := rs\<rparr>)" for rs
    by (rule more; simp)+
  have add: "c_serial c = opened s \<Longrightarrow> asked_ok (add_connection c (s\<lparr>opened := Suc (opened s)\<rparr>))"
    "c_serial c = opened s \<Longrightarrow> asked_ok (add_connection c (s\<lparr>opened := Suc (opened s), rates := rs\<rparr>))" for c rs
    by (rule asked_ok_add [OF s]; simp)+
  show ?thesis
    unfolding open_connection_def Let_def
    by (simp add: sending s sent here add split: option.split json.split)
qed

lemma asked_ok_message:
  assumes s: "asked_ok s" and d: "distinct (keys (connections s))"
  shows "asked_ok (message w now d' s)"
proof -
  note mark = asked_ok_mark [OF s d]
  have gone: "asked_ok (forget conn t)"
    if "map_of (connections s) k = Some c" "\<not> c_answered c" "connections t = dict_set k (c\<lparr>c_answered := True\<rparr>) (connections s)"
      "opened t = opened s" "asked t = asked s" for conn t k c
    using asked_ok_forget [OF mark [OF that(1-4)]] that(5) by simp
  show ?thesis
    unfolding message_def Let_def
    by (auto simp: sending case_prod_unfold add_job_def s intro: mark gone asked_ok_same [OF s] split: option.split json.split)
qed

lemma asked_ok_act:
  assumes s: "asked_ok s" "link_ok s"
  shows "asked_ok (act w a s)"
proof (cases a)
  case (Receive live now f)
  have "asked_ok (frame w live now f s)"
    by (auto simp: frame_def s asked_ok_open asked_ok_message link_okD(1) asked_ok_forget split: json.split option.split)
  then show ?thesis using s(1) by (simp add: Receive)
next
  case (Deliver n)
  have "asked_ok (drop_job n (fold (send_frame w) fs s))" for fs
    by (rule asked_ok_same [OF s(1)]) (simp_all add: drop_job_def)
  then show ?thesis using s(1) by (auto simp: Deliver deliver_job_def Let_def asked_ok_forget split: phase.split)
next
  case (Removed hs)
  have "asked_ok s \<Longrightarrow> asked_ok (fold (\<lambda>conn s. forget conn (send_close w conn why s)) conns s)" for conns why s
  proof (induction conns arbitrary: s)
    case (Cons c conns)
    have "asked_ok (forget c (send_close w c why s))"
      by (rule asked_ok_forget, rule asked_ok_same [OF Cons.prems]) (simp_all add: sending)
    with Cons.IH show ?case by simp
  qed simp
  then show ?thesis using s(1) by (simp add: Removed sessions_removed_def Let_def)
qed (auto intro!: asked_ok_same [OF s(1)] asked_ok_subset [OF s(1)] simp: connect_def lose_def take_job_def answer_job_def push_def sending set_phase_def drop_job_def Let_def split: option.split json.split)

text \<open>C36: The request of an HTTP connection is given to the web at most once, however often the relay repeats it.\<close>

theorem http_requests_asked_once:
  "distinct (asked (run_link w acts new_link))"
proof -
  have "asked_ok s \<Longrightarrow> link_ok s \<Longrightarrow> asked_ok (run_link w acts s)" for s
    unfolding run_link_def by (induction acts arbitrary: s) (simp_all add: asked_ok_act link_ok_act)
  moreover have "asked_ok new_link" by (simp add: asked_ok_def new_link_def)
  ultimately show ?thesis using link_ok_new asked_okD(1) by blast
qed

section \<open>Witnesses\<close>

definition plain_wire :: wire where
  "plain_wire = \<lparr>hash_of = (\<lambda>s. s), wire_size = (\<lambda>f. 0)\<rparr>"

text \<open>A page of the session \<open>s\<close> opens its WebSocket.\<close>

definition page_open :: json where
  "page_open = JObj [(''t'', JStr ''open''), (''conn'', JStr ''a''), (''kind'', JStr ''ws''), (''path'', JStr ''/ws''), (''session'', JStr ''s'')]"

definition one_page :: "action list" where
  "one_page = [Connect [], Receive (\<lambda>_. True) 0 page_open]"

lemma one_page_sockets: "sockets_of ''s'' (run_link plain_wire one_page new_link) \<noteq> []"
  by (simp add: sockets_of_def run_link_def one_page_def page_open_def connect_def sending send_frame_def plain_wire_def frame_def
      open_connection_def frame_text_def window_of_def dict_get_def no_window_def with_conn_def add_connection_def max_session_connections_def
      new_link_def max_frame_bytes_def Let_def)


text \<open>A sign in over HTTP: its answer carries the session's token.\<close>

definition http_open :: json where
  "http_open = JObj [(''t'', JStr ''open''), (''conn'', JStr ''b''), (''kind'', JStr ''http''), (''path'', JStr ''/auth/login/verify'')]"

definition http_message :: json where
  "http_message = JObj [(''t'', JStr ''msg''), (''conn'', JStr ''b''), (''id'', JInt 1), (''body'', JObj [])]"

definition sign_in :: "action list" where
  "sign_in = [Connect [], Receive (\<lambda>_. False) 0 http_open, Receive (\<lambda>_. False) 0 http_message, Take (\<lambda>_. False) 0,
     Answer (Some (Some [(''session'', JStr ''secret'')])) 0]"

lemmas link_steps = run_link_def connect_def sending send_frame_def plain_wire_def frame_def open_connection_def message_def
  frame_text_def add_connection_def add_job_def take_job_def answer_job_def set_phase_def drop_job_def deliver_job_def lose_def
  new_link_def max_frame_bytes_def dict_get_def msg_frame_def close_frame_def http_open_def http_message_def sign_in_def forget_def

lemma answers_stay_on_their_link_witness:
  "list_all (\<lambda>j. \<not> about_to_send j \<or> c_generation (j_connection j) = generation (run_link plain_wire sign_in new_link))
    (jobs (run_link plain_wire sign_in new_link))"
  by (rule answers_stay_on_their_link) (simp add: link_steps about_to_send_def Let_def)

text \<open>The check of \<open>_http\<close> and its sending are two steps: when the link is lost and up again in between, the answer with the token
  leaves on the new link, although its connection was opened on the one before.\<close>

lemma answer_on_another_link:
  "(2, msg_frame ''b'' 1 (JObj [(''session'', JStr ''secret'')])) \<in> set (outbox (run_link plain_wire (sign_in @ [Lose, Connect [], Deliver 0]) new_link))"
  by (simp add: link_steps Let_def)

end
