(* ===== verification/Spec2Isabelle.thy ===== *)
theory Spec2Isabelle
  imports Web_Safety Script_Inputs Operation_Laws Area_Text Command_Laws Mining_Laws Bot_Laws Run_Journal Script_Limits Script_Params Level_Dat Server_Properties Web_Link
begin

text \<open>
  The control plane of Endbot.

  Endbot plays Bots on a Minecraft Bedrock server. Its Python half decides who may control which Bot, reads the
  \<open>/bot\<close> commands and the web's requests, drives the Bot runtime (a Node process that speaks the protocol) and
  keeps its state in JSON files. The processes are the server plugin (\<open>plugin/endbot\<close>), the daemon \<open>endbotd\<close>
  with its core library (\<open>core/src\<close>), the runtime (\<open>runtime\<close>, JavaScript), the script runner (\<open>runner\<close>, C++)
  and the operator's CLI (\<open>cli/endbot\<close>). Modelled is the daemon and its core: identity and permission, ownership,
  groups, the command language, carrying out a command, the long running jobs, the web's accounts and sessions, the
  stored scripts, the journal; and of the CLI the code that reads the server's own files.

  \<^bold>\<open>How the parts meet.\<close> The plugin opens a link to endbotd (\<open>Link_Sessions\<close>), reports who is online (\<open>Presence\<close>)
  and submits commands under the session it was given. The authority (\<open>Authority\<close>) decides from the allowlist
  (\<open>Authorization\<close>), the enrolled GamerTags (\<open>Enrollment\<close>), the console's grants and revocations
  (\<open>Controller_Policy\<close>) and the roles (\<open>Controller_Roles\<close>); a revocation counts up the grant revision
  (\<open>Grant_Revisions\<close>) that every running job remembers, and the job's \<open>principal\<close> (\<open>Principal\<close>) is compared with
  the present one before each of its steps. A command is parsed (\<open>Command_Clauses\<close>, \<open>Command_Parser\<close>, \<open>Areas\<close>),
  or arrives typed and is written as the command's words (\<open>Operations\<close>); it is carried out by the command service
  (\<open>Bot_Service\<close>) or, for a group, member by member (\<open>Group_Execution\<close>, whose result \<open>Group_Results\<close> keeps). The
  block breaking jobs are renewed by a poll (\<open>Mining_Loops\<close>), the inputs of scripts are owned by their runs
  (\<open>Script_Inputs\<close>). The web reaches the same authority through accounts that an in-game link code creates
  (\<open>Link_Codes\<close>, \<open>Web_Store\<close>, \<open>Web_Auth\<close>).

  \<^bold>\<open>Theories and sources\<close> (paths under \<open>src/\<close>; \<open>core\<close> is \<open>core/src/endbot_core\<close>, \<open>endbotd\<close> is \<open>core/src/endbotd\<close>).

  \<^item> Shared: \<open>Prelude\<close> (exceptions as the datatype \<open>py_error\<close>, Python's text operations, dictionaries as association
    lists in insertion order), \<open>Shell_Words\<close> (\<open>shlex\<close>), \<open>Text_Lines\<close> (\<open>splitlines\<close>), \<open>Uuid\<close>, \<open>Numbers\<close>
    (\<open>int\<close>, \<open>float\<close>, \<open>repr\<close>), \<open>Json_Store\<close> (JSON values, a file that is replaced as a whole, the locales of codecs
    and stores), \<open>Effects\<close> (an operation that may raise and the state it leaves; sequencing, loops, framing) and
    \<open>Triples\<close> (invariants of effects, whether they return or raise).
  \<^item> Who may control: \<open>Enrollment\<close> (\<open>core/enrollment.py\<close>), \<open>Controller_Policy\<close> (\<open>core/controller_policy.py\<close>),
    \<open>Controller_Roles\<close>, \<open>Grant_Revisions\<close>, \<open>Principal\<close>, \<open>Authorization\<close> (the files of \<open>core\<close> with these names),
    \<open>Presence\<close> and \<open>Link_Sessions\<close> (\<open>core/link.py\<close>, \<open>endbotd/service.py\<close>), \<open>Authority\<close> and \<open>Authority_Laws\<close>
    (\<open>endbotd/authority.py\<close>). \<open>Link_Safety\<close> and \<open>Link_Guarantees\<close> prove the safety of every history of links,
    reports, submissions and CLI requests, a step relation with rule induction; \<open>Link_Examples\<close> holds one history.
  \<^item> Owners and groups: \<open>Ownership\<close> (\<open>core/ownership.py\<close>), \<open>Group_Store\<close> and \<open>Group_Execution\<close>
    (\<open>core/groups.py\<close>), \<open>Group_Results\<close> (\<open>core/group_results.py\<close>).
  \<^item> Commands: \<open>Areas\<close>, \<open>Area_Laws\<close>, \<open>Area_Text\<close> (\<open>core/areas.py\<close>), \<open>Command_Clauses\<close>, \<open>Command_Parser\<close>,
    \<open>Command_Laws\<close> (\<open>parse_command\<close> of \<open>core/commands.py\<close>), \<open>Operations\<close>, \<open>Operation_Laws\<close>
    (\<open>core/operations.py\<close>), \<open>Help\<close>, \<open>Bot_Replies\<close>, \<open>Bot_Guards\<close>, \<open>Bot_Service\<close>, \<open>Bot_Laws\<close> (the rest of
    \<open>core/commands.py\<close>, \<open>core/limits.py\<close>, \<open>core/registry.py\<close>), \<open>Control\<close> (\<open>core/control.py\<close>: what code that
    asks the runtime is), \<open>Mining_Loops\<close>, \<open>Mining_Laws\<close> (\<open>poll_mining\<close>), \<open>Script_Inputs\<close>
    (\<open>core/script_inputs.py\<close>).
  \<^item> The web: \<open>Link_Codes\<close>, \<open>Web_Store\<close> (\<open>endbotd/web_store.py\<close>), \<open>Web_Auth\<close> and \<open>Web_Safety\<close>
    (\<open>endbotd/web_auth.py\<close>), \<open>Web_Link\<close> (\<open>endbotd/web_link.py\<close>: the link to the relay, as actions in any order).
  \<^item> Scripts: \<open>Script_Store\<close> (\<open>core/script_store.py\<close>), \<open>Script_Books\<close> (\<open>core/script_books.py\<close>), \<open>Run_Journal\<close>
    (\<open>endbotd/journal.py\<close>).
  \<^item> The CLI: \<open>Level_Dat\<close> (\<open>endbot_cli/leveldat.py\<close>), \<open>Server_Properties\<close> (\<open>endbot_cli/properties.py\<close>).

  \<^bold>\<open>State and operations.\<close> A class is a record of its attributes, an operation of it a definition of the same name
  (with the class's name where two would clash) from its arguments and the state to \<open>(py_error + 'a) \<times> state\<close>: the
  exception or the result, and the state that is left in both cases. A store's state has the memory and the file; a
  write succeeds or raises as the list \<open>outcomes\<close> says, so a theorem about every \<open>outcomes\<close> is one about every disk
  failure. A set that Python orders nowhere is a duplicate-free list. Random tokens, UUIDs and the clock are
  arguments. Code that asks the runtime or the world is a \<open>prog\<close>, a tree of requests and what follows each answer,
  run against an environment that gives any answer or an error; where another thread may act in between, the
  environment also says what it did (\<open>meanwhile\<close>).

  \<^bold>\<open>Interfaces.\<close> \<open>json_codec\<close> (\<open>Json_Store\<close>) states what an encoder and a decoder owe each other; \<open>disk_first\<close> and
  \<open>memory_first\<close> extend it by the two orders in which the stores write their file and keep the new state, with what a
  restart then finds. They are interpreted in the theory of each store. The three invariance contracts
  \<open>poll_kept\<close> (\<open>Mining_Laws\<close>), \<open>service_kept\<close> (\<open>Bot_Laws\<close>) and \<open>web_kept\<close> (\<open>Web_Safety\<close>) carry an invariant through
  every operation of the poll, of the command service and of the web's sign in; each is interpreted twice, with the
  invariants its properties need.

  \<^bold>\<open>What the lemmas show.\<close> Each store has its invariant, that every operation keeps it, that its file reads back,
  and what every branch answers. Over them stand the properties, each after its own text: revoked or expired
  permission never becomes valid again and guards every step; a private Bot, Group or result of somebody else is
  neither reached nor revealed; the limits (controllers, slots, passkeys, wrong codes, results, members, parsed
  numbers) hold in every reachable state; what is written is what is read (stores, areas, operations, books,
  journal, NBT documents); parsing and polling end. The findings of the manifest are lemmas too.

  \<^bold>\<open>Bounds and fuel.\<close> The areas' and scripts' argument parser recurses at most as deep as its text is long, so
  characters + 1 is enough (\<open>parser_terminates\<close>). \<open>places_from\<close> prints at most 1100 digits, more than any double
  has. \<open>await_look\<close> looks 20 rounds as the code does. A job is given up after 50 failed polls, the code's own count.
  An NBT document has at most 65 levels (0 to 64, the code's own limit) and the loop over a compound's entries one
  round more than the bytes left, and \<open>parse_never_out_of_rounds\<close> shows that this never stops it.

  \<^bold>\<open>Where the model is coarser than the code.\<close> Text is ASCII in the operations that read Unicode tables
  (\<open>casefold\<close>, \<open>strip\<close>, \<open>isprintable\<close>); replies are the English ones. Floats are the exact rationals of their
  values, without rounding of the arithmetic. The data that the world and the runtime send is kept as far as the
  modelled code reads it. In a group request the work of one member is an arbitrary program, so that its theorems
  hold whatever the operation is. A web request reads the clock once. The WebAuthn library, the table of
  \<open>operations.json\<close> (with its shipped instance in \<open>Operation_Laws\<close>), the runtime and the world are arguments. The
  command worker is one thread; its interleaving with the poll is \<open>meanwhile\<close>, other threads are serialised by the
  locks the code takes. An offending value inside an error text is left out where nothing reads it.

  \<^bold>\<open>Not modelled\<close>, and why: sockets, threads, processes and signals (\<open>endbotd/web.py\<close>, \<open>web_api.py\<close>,
  \<open>service.py\<close> but for its entry points, \<open>core/control.py\<close>'s client, \<open>script_process.py\<close>, \<open>script_confine.py\<close>,
  the CLI's supervisor and doctor), which are calls of the operating system; the plugin, which
  is calls of the Endstone server's API; menus and forms, which lay out texts; the message catalogue; the generated
  block tables; the JavaScript runtime, the C++ runner and the web client, which are not Python; build, release
  and probe scripts, which run once by hand. \<open>load_files\<close> of the script store walks a directory and is left out.
\<close>

end
